(* ===== verification/Prelude.thy ===== *)
theory Prelude
  imports Main "HOL-Library.Multiset"
begin

text \<open>
  Shared vocabulary of the gophercast development: the error-or-value results that
  stand for Go's \<open>(value, error)\<close> returns, tables as lists of rows with the
  \<open>where\<close>-guarded \<open>update\<close> the SQL statements use, and the functions of
  Go's \<open>strings\<close> and \<open>strconv\<close> packages that several components call.

  Strings are lists of bytes (\<open>char\<close>), as Go strings are. White space is the ASCII
  white space of \<open>strings.TrimSpace\<close>; on ASCII text the functions below are exact.
\<close>

named_theorems sql_simps \<open>unfoldings of the statements issued against a table\<close>
named_theorems go_simps \<open>unfoldings of Go library functions\<close>

section \<open>Results\<close>

type_synonym ('e, 'a) result = "'e + 'a"

fun bind_result :: "('e, 'a) result \<Rightarrow> ('a \<Rightarrow> ('e, 'b) result) \<Rightarrow> ('e, 'b) result" where
  "bind_result (Inl e) k = Inl e"
| "bind_result (Inr a) k = k a"

fun is_ok :: "('e, 'a) result \<Rightarrow> bool" where
  "is_ok (Inl e) = False"
| "is_ok (Inr a) = True"

lemma bind_result_Inr_iff [simp]:
  "bind_result r k = Inr b \<longleftrightarrow> (\<exists>a. r = Inr a \<and> k a = Inr b)"
  by (cases r) auto

lemma bind_result_Inl_iff:
  "bind_result r k = Inl e \<longleftrightarrow> r = Inl e \<or> (\<exists>a. r = Inr a \<and> k a = Inl e)"
  by (cases r) auto

lemma is_ok_iff: "is_ok r \<longleftrightarrow> (\<exists>a. r = Inr a)"
  by (cases r) auto

fun traverse :: "('a \<Rightarrow> ('e, 'b) result) \<Rightarrow> 'a list \<Rightarrow> ('e, 'b list) result" where
  "traverse f [] = Inr []"
| "traverse f (x # xs) =
     bind_result (f x) (\<lambda>y. bind_result (traverse f xs) (\<lambda>ys. Inr (y # ys)))"

lemma traverse_mem:
  "traverse f xs = Inr ys \<Longrightarrow> y \<in> set ys \<Longrightarrow> \<exists>x \<in> set xs. f x = Inr y"
  by (induction xs arbitrary: ys) auto

lemma traverse_ok: "(\<And>x. x \<in> set xs \<Longrightarrow> is_ok (f x)) \<Longrightarrow> is_ok (traverse f xs)"
  by (induction xs) (auto simp: is_ok_iff)

lemma traverse_error: "x \<in> set xs \<Longrightarrow> \<not> is_ok (f x) \<Longrightarrow> \<not> is_ok (traverse f xs)"
  by (induction xs) (auto simp: is_ok_iff)

section \<open>Tables\<close>

text \<open>
  A table is the list of its rows. \<open>update_where p f\<close> is \<open>update .. set f where p\<close>;
  the number of affected rows is what \<open>tag.RowsAffected()\<close> reports.
\<close>

definition update_where :: "('r \<Rightarrow> bool) \<Rightarrow> ('r \<Rightarrow> 'r) \<Rightarrow> 'r list \<Rightarrow> 'r list" where
  "update_where p f rows = map (\<lambda>r. if p r then f r else r) rows"

definition affected :: "('r \<Rightarrow> bool) \<Rightarrow> 'r list \<Rightarrow> nat" where
  "affected p rows = length (filter p rows)"

lemma update_where_Nil [simp]: "update_where p f [] = []"
  by (simp add: update_where_def)

lemma update_where_Cons [simp]:
  "update_where p f (r # rs) = (if p r then f r else r) # update_where p f rs"
  by (simp add: update_where_def)

lemma length_update_where [simp]: "length (update_where p f rows) = length rows"
  by (simp add: update_where_def)

lemma set_update_where:
  "set (update_where p f rows) = {f r |r. r \<in> set rows \<and> p r} \<union> {r \<in> set rows. \<not> p r}"
  by (auto simp: update_where_def)

lemma update_where_memE:
  assumes "r' \<in> set (update_where p f rows)"
  obtains r where "r \<in> set rows" and "r' = (if p r then f r else r)"
  using assms by (auto simp: update_where_def)

lemma update_where_memI:
  "r \<in> set rows \<Longrightarrow> (if p r then f r else r) \<in> set (update_where p f rows)"
  by (auto simp: update_where_def)

lemma update_where_hit: "r \<in> set rows \<Longrightarrow> p r \<Longrightarrow> f r \<in> set (update_where p f rows)"
  using update_where_memI [of r rows p f] by simp

lemma map_update_where:
  "(\<And>r. p r \<Longrightarrow> k (f r) = k r) \<Longrightarrow> map k (update_where p f rows) = map k rows"
  by (auto simp: update_where_def)

lemma update_where_none:
  "(\<And>r. r \<in> set rows \<Longrightarrow> \<not> p r) \<Longrightarrow> update_where p f rows = rows"
  by (induction rows) auto

lemma affected_0_iff: "affected p rows = 0 \<longleftrightarrow> (\<forall>r \<in> set rows. \<not> p r)"
  by (auto simp: affected_def filter_empty_conv)

lemma affected_pos_iff: "0 < affected p rows \<longleftrightarrow> (\<exists>r \<in> set rows. p r)"
  by (auto simp: affected_def filter_empty_conv)

text \<open>A row is found again through a key that is unique in the table.\<close>

lemma key_unique:
  assumes "distinct (map k rows)" and "r \<in> set rows" and "r' \<in> set rows" and "k r = k r'"
  shows "r = r'"
  using assms by (metis distinct_map inj_onD)

lemma find_append: "find p (xs @ ys) = (case find p xs of None \<Rightarrow> find p ys | Some x \<Rightarrow> Some x)"
  by (induction xs) auto

section \<open>Go's \<open>strings\<close> package\<close>

fun has_prefix :: "string \<Rightarrow> string \<Rightarrow> bool" where
  "has_prefix s [] = True"
| "has_prefix [] (p # ps) = False"
| "has_prefix (c # cs) (p # ps) = (c = p \<and> has_prefix cs ps)"

lemma has_prefix_iff: "has_prefix s p \<longleftrightarrow> (\<exists>t. s = p @ t)"
  by (induction s p rule: has_prefix.induct) auto

lemma has_prefix_append [simp]: "has_prefix (p @ t) p"
  by (simp add: has_prefix_iff)

definition trim_prefix :: "string \<Rightarrow> string \<Rightarrow> string" where
  "trim_prefix s p = (if has_prefix s p then drop (length p) s else s)"

definition has_suffix :: "string \<Rightarrow> string \<Rightarrow> bool" where
  "has_suffix s p = has_prefix (rev s) (rev p)"

definition is_space :: "char \<Rightarrow> bool" where
  "is_space c = (c = CHR 0x20 \<or> c = CHR 0x09 \<or> c = CHR 0x0A \<or>
                 c = CHR 0x0B \<or> c = CHR 0x0C \<or> c = CHR 0x0D)"

definition trim_space :: "string \<Rightarrow> string" where
  "trim_space s = rev (dropWhile is_space (rev (dropWhile is_space s)))"

lemma trim_space_id:
  assumes "s = [] \<or> (\<not> is_space (hd s) \<and> \<not> is_space (last s))"
  shows "trim_space s = s"
proof (cases "s = []")
  case False
  with assms have "\<not> is_space (hd s)" and l: "\<not> is_space (last s)" by auto
  then have "dropWhile is_space s = s" using False by (cases s) auto
  moreover have "dropWhile is_space (rev s) = rev s"
    using False l by (cases "rev s") (auto simp: hd_rev dest: arg_cong [of _ _ hd])
  ultimately show ?thesis by (simp add: trim_space_def)
qed (simp add: trim_space_def)

lemma trim_space_Nil [simp]: "trim_space [] = []"
  by (simp add: trim_space_def)

text \<open>\<open>strings.Split\<close> on a one-byte separator.\<close>

fun split_on :: "char \<Rightarrow> string \<Rightarrow> string list" where
  "split_on c [] = [[]]"
| "split_on c (x # xs) =
     (if x = c then [] # split_on c xs
      else (case split_on c xs of [] \<Rightarrow> [[x]] | y # ys \<Rightarrow> (x # y) # ys))"

lemma split_on_not_Nil [simp]: "split_on c s \<noteq> []"
  by (cases s) (auto split: list.splits)

lemma split_on_notin: "c \<notin> set s \<Longrightarrow> split_on c s = [s]"
  by (induction s) auto

lemma split_on_append: "c \<notin> set a \<Longrightarrow> split_on c (a @ c # b) = a # split_on c b"
  by (induction a) auto

lemma split_on_single: "split_on c s = [a] \<Longrightarrow> s = a"
  by (induction s arbitrary: a) (auto split: if_splits list.splits)

lemma split_on_join: "split_on c s = a # b # r \<Longrightarrow> \<exists>t. s = a @ c # t \<and> split_on c t = b # r"
  by (induction s arbitrary: a) (auto split: if_splits list.splits)

text \<open>\<open>strings.Cut\<close> on a one-byte separator: what is before it, after it, and whether it occurs.\<close>

fun cut_at :: "char \<Rightarrow> string \<Rightarrow> string \<times> string \<times> bool" where
  "cut_at c [] = ([], [], False)"
| "cut_at c (x # xs) =
     (if x = c then ([], xs, True)
      else (case cut_at c xs of (a, b, f) \<Rightarrow> (x # a, b, f)))"

lemma cut_at_notin [simp]: "c \<notin> set s \<Longrightarrow> cut_at c s = (s, [], False)"
  by (induction s) auto

lemma cut_at_append [simp]: "c \<notin> set a \<Longrightarrow> cut_at c (a @ c # b) = (a, b, True)"
  by (induction a) auto

section \<open>Go's \<open>strconv.ParseInt(s, 10, 64)\<close>\<close>

definition digit_val :: "char \<Rightarrow> int option" where
  "digit_val c =
     (let n = (of_char c :: int) in if 48 \<le> n \<and> n \<le> 57 then Some (n - 48) else None)"

fun digits_val :: "int \<Rightarrow> string \<Rightarrow> int option" where
  "digits_val acc [] = Some acc"
| "digits_val acc (c # cs) =
     (case digit_val c of None \<Rightarrow> None | Some d \<Rightarrow> digits_val (10 * acc + d) cs)"

definition max_int64 :: int where
  "max_int64 = 9223372036854775807"

text \<open>
  An optional sign, at least one decimal digit, nothing else, and a value that fits in 64
  bits; anything else is the \<open>error\<close> return (\<open>ErrSyntax\<close> or \<open>ErrRange\<close>).
\<close>

definition parse_int64 :: "string \<Rightarrow> int option" where
  "parse_int64 s =
     (let (neg, ds) = (case s of
            [] \<Rightarrow> (False, [])
          | c # cs \<Rightarrow> if c = CHR ''-'' then (True, cs)
                      else if c = CHR ''+'' then (False, cs) else (False, s))
      in if ds = [] then None
         else (case digits_val 0 ds of
             None \<Rightarrow> None
           | Some v \<Rightarrow> (let n = (if neg then - v else v) in
               if - max_int64 - 1 \<le> n \<and> n \<le> max_int64 then Some n else None)))"

lemma parse_int64_range:
  "parse_int64 s = Some n \<Longrightarrow> - max_int64 - 1 \<le> n \<and> n \<le> max_int64"
  by (auto simp: parse_int64_def Let_def split: list.splits option.splits if_splits prod.splits)


lemma digit_val_nonneg: "digit_val c = Some d \<Longrightarrow> 0 \<le> d"
  by (simp add: digit_val_def Let_def split: if_splits)

lemma digits_val_nonneg: "digits_val acc ds = Some v \<Longrightarrow> 0 \<le> acc \<Longrightarrow> 0 \<le> v"
  by (induction ds arbitrary: acc)
     (auto simp: digit_val_def Let_def split: option.splits if_splits)

lemma parse_int64_unsigned: "parse_int64 s = Some n \<Longrightarrow> CHR ''-'' \<notin> set s \<Longrightarrow> 0 \<le> n"
  by (auto simp: parse_int64_def Let_def dest!: digits_val_nonneg dest: digit_val_nonneg
      split: list.splits option.splits if_splits prod.splits)

lemma cut_at_fst: "c \<notin> set (fst (cut_at c s))"
  by (induction c s rule: cut_at.induct) (auto split: prod.splits)

lemma set_trim_space: "set (trim_space s) \<subseteq> set s"
  by (auto simp: trim_space_def dest!: set_dropWhileD)

section \<open>Decimal output (\<open>%d\<close>)\<close>

definition digit_char :: "nat \<Rightarrow> char" where
  "digit_char d = char_of (48 + d)"

fun dec :: "nat \<Rightarrow> string" where
  "dec n = (if n < 10 then [digit_char n] else dec (n div 10) @ [digit_char (n mod 10)])"

declare dec.simps [simp del]

lemma digit_val_digit_char: "d < 10 \<Longrightarrow> digit_val (digit_char d) = Some (int d)"
proof -
  assume d: "d < 10"
  have "(of_char (digit_char d) :: nat) = 48 + d"
    unfolding digit_char_def using d by (simp add: of_char_of)
  then have "(of_char (digit_char d) :: int) = 48 + int d"
    by (metis int_ops(5) of_nat_numeral of_nat_of_char)
  then show ?thesis using d by (simp add: digit_val_def)
qed

lemma digits_val_append:
  "digits_val a (xs @ ys) = (case digits_val a xs of None \<Rightarrow> None | Some b \<Rightarrow> digits_val b ys)"
  by (induction xs arbitrary: a) (auto split: option.splits)

lemma digits_val_dec: "digits_val 0 (dec n) = Some (int n)"
proof (induction n rule: dec.induct)
  case (1 n)
  show ?case
  proof (cases "n < 10")
    case True
    then show ?thesis by (subst dec.simps) (simp add: digit_val_digit_char)
  next
    case False
    moreover have "10 * int (n div 10) + int (n mod 10) = int n"
      by (metis mult_div_mod_eq of_nat_add of_nat_mult of_nat_numeral)
    ultimately show ?thesis
      using 1 by (subst dec.simps) (simp add: digits_val_append digit_val_digit_char)
  qed
qed

lemma dec_inject [simp]: "dec m = dec n \<longleftrightarrow> m = n"
  using digits_val_dec by (metis of_nat_eq_iff option.inject)

lemma dec_digits: "c \<in> set (dec n) \<Longrightarrow> digit_val c \<noteq> None"
  by (induction n rule: dec.induct) (subst (asm) (2) dec.simps, auto split: if_splits simp: digit_val_digit_char)

lemma dec_not_Nil [simp]: "dec n \<noteq> []"
  by (subst dec.simps) simp

definition dec_int :: "int \<Rightarrow> string" where
  "dec_int n = (if n < 0 then ''-'' @ dec (nat (- n)) else dec (nat n))"

section \<open>Paths and maps\<close>

text \<open>\<open>path.Base\<close>: strip trailing slashes, keep what follows the last slash.\<close>

definition path_base :: "string \<Rightarrow> string" where
  "path_base s =
     (if s = [] then ''.''
      else let t = rev (dropWhile (\<lambda>x. x = CHR ''/'') (rev s));
               b = rev (takeWhile (\<lambda>x. x \<noteq> CHR ''/'') (rev t))
        in if b = [] then ''/'' else b)"

text \<open>A Go map read: the zero value when the key is absent.\<close>

definition go_get :: "(string \<rightharpoonup> string) \<Rightarrow> string \<Rightarrow> string" where
  "go_get m k = (case m k of None \<Rightarrow> [] | Some v \<Rightarrow> v)"

end
