(* ===== verification/ExecClass.thy ===== *)
theory ExecClass
  imports Prelude
begin

text \<open>
  The execution-class table of \<open>internal/engine/class.go\<close>: every one of the 98 workflow
  operations is assigned the class it runs in, and an id that is not in the table gets
  \<open>ClassUnknown\<close>, the zero value of Go's map lookup.
\<close>

datatype exec_class = ClassUnknown | ClassWorker | ClassInline | ClassUnclear

definition op_class :: "(string \<times> exec_class) list" where
  "op_class =
    [(''add-catalog'', ClassInline),
     (''amberscript-attach-transcription'', ClassInline),
     (''analyze-mediapackage'', ClassInline),
     (''analyze-tracks'', ClassInline),
     (''assert'', ClassInline),
     (''asset-delete'', ClassInline),
     (''attach-watson-transcription'', ClassInline),
     (''changetype'', ClassInline),
     (''cleanup'', ClassInline),
     (''comment'', ClassInline),
     (''conditional-config'', ClassInline),
     (''configure-by-dcterm'', ClassInline),
     (''cut-marks-to-smil'', ClassInline),
     (''defaults'', ClassInline),
     (''duplicate-event'', ClassInline),
     (''error-resolution'', ClassInline),
     (''export-wf-properties'', ClassInline),
     (''google-speech-attach-transcription'', ClassInline),
     (''hello-world'', ClassInline),
     (''http-notify'', ClassInline),
     (''import-wf-properties'', ClassInline),
     (''incident'', ClassInline),
     (''include'', ClassInline),
     (''log'', ClassInline),
     (''matrix-notify'', ClassInline),
     (''mattermost-notify'', ClassInline),
     (''metadata-to-acl'', ClassInline),
     (''microsoft-azure-attach-transcription'', ClassInline),
     (''post-mediapackage'', ClassInline),
     (''probe-resolution'', ClassInline),
     (''publication-channel-to-workspace'', ClassInline),
     (''publish-configure'', ClassInline),
     (''publish-configure-aws'', ClassInline),
     (''publish-engage'', ClassInline),
     (''publish-engage-aws'', ClassInline),
     (''publish-oaipmh'', ClassInline),
     (''rename-files'', ClassInline),
     (''republish-oaipmh'', ClassInline),
     (''retract-configure'', ClassInline),
     (''retract-configure-aws'', ClassInline),
     (''retract-engage'', ClassInline),
     (''retract-engage-aws'', ClassInline),
     (''retract-oaipmh'', ClassInline),
     (''retract-partial'', ClassInline),
     (''retract-partial-aws'', ClassInline),
     (''retract-youtube'', ClassInline),
     (''sanitize-adaptive'', ClassInline),
     (''select-version'', ClassInline),
     (''send-email'', ClassInline),
     (''series'', ClassInline),
     (''snapshot'', ClassInline),
     (''speechtotext-attach'', ClassInline),
     (''start-workflow'', ClassInline),
     (''statistics-writer'', ClassInline),
     (''subtitle-timeshift'', ClassInline),
     (''tag'', ClassInline),
     (''tag-by-dcterm'', ClassInline),
     (''tag-engage'', ClassInline),
     (''theme'', ClassInline),
     (''transfer-metadata'', ClassInline),
     (''webvtt-to-cutmarks'', ClassInline),
     (''clone'', ClassUnclear),
     (''copy'', ClassUnclear),
     (''cover-image'', ClassUnclear),
     (''move-storage'', ClassUnclear),
     (''amberscript-start-transcription'', ClassWorker),
     (''composite'', ClassWorker),
     (''concat'', ClassWorker),
     (''crop-video'', ClassWorker),
     (''demux'', ClassWorker),
     (''editor'', ClassWorker),
     (''encode'', ClassWorker),
     (''execute-many'', ClassWorker),
     (''execute-once'', ClassWorker),
     (''extract-text'', ClassWorker),
     (''google-speech-start-transcription'', ClassWorker),
     (''image'', ClassWorker),
     (''image-convert'', ClassWorker),
     (''image-to-video'', ClassWorker),
     (''ingest-download'', ClassWorker),
     (''inspect'', ClassWorker),
     (''microsoft-azure-start-transcription'', ClassWorker),
     (''multiencode'', ClassWorker),
     (''mux'', ClassWorker),
     (''partial-import'', ClassWorker),
     (''prepare-av'', ClassWorker),
     (''process-smil'', ClassWorker),
     (''publish-youtube'', ClassWorker),
     (''segment-video'', ClassWorker),
     (''segmentpreviews'', ClassWorker),
     (''select-tracks'', ClassWorker),
     (''silence'', ClassWorker),
     (''speechtotext'', ClassWorker),
     (''start-watson-transcription'', ClassWorker),
     (''timelinepreviews'', ClassWorker),
     (''videogrid'', ClassWorker),
     (''waveform'', ClassWorker),
     (''zip'', ClassWorker)]"

definition class_of :: "string \<Rightarrow> exec_class" where
  "class_of operation =
     (case map_of op_class operation of None \<Rightarrow> ClassUnknown | Some c \<Rightarrow> c)"

text \<open>The table's shape: each id once, and 33 worker, 61 inline and 4 undecided operations.\<close>

lemma op_class_keys: "distinct (map fst op_class)"
  by (simp add: op_class_def)

lemma class_of_mem: "(op, c) \<in> set op_class \<Longrightarrow> class_of op = c"
  using op_class_keys by (simp add: class_of_def)

lemma op_class_range: "(op, c) \<in> set op_class \<Longrightarrow> c \<noteq> ClassUnknown"
  by (auto simp: op_class_def)

lemma class_of_unknown_iff: "class_of op = ClassUnknown \<longleftrightarrow> op \<notin> fst ` set op_class"
proof
  assume u: "class_of op = ClassUnknown"
  show "op \<notin> fst ` set op_class"
    using u op_class_range class_of_mem by fastforce
next
  assume "op \<notin> fst ` set op_class"
  then show "class_of op = ClassUnknown"
    by (simp add: class_of_def map_of_eq_None_iff [symmetric] del: map_of_eq_None_iff)
qed

end
