(* ===== verification/Engine.thy ===== *)
theory Engine
  imports ExecClass
begin

text \<open>
  The durable engine of \<open>internal/engine/engine.go\<close>: the \<open>workflow\<close> and
  \<open>task\<close> tables of \<open>schema.sql\<close> as lists of rows, one definition per SQL statement
  the code issues (its \<open>where\<close> clause, its \<open>set\<close> list, the affected-row
  test that follows it) and one per Go function that issues them. A statement is atomic;
  a function that issues several is their sequence. \<open>clock\<close> is Postgres \<open>now()\<close>, the
  only clock lease arithmetic uses; durations are Go's nanoseconds. \<open>db_data\<close> stands for
  every other table, which only the \<open>mutate\<close> callback of \<open>CompleteTask\<close> writes.
\<close>

section \<open>Data\<close>

record spec =
  cpu_millis :: int
  memory_mb :: int
  gpu :: int
  runtime_s :: int

text \<open>A task's JSON result: what its body returned, or \<open>{"error": reason}\<close>.\<close>

datatype task_result = Returned string | ErrorReport string

record op_def =
  od_operation :: string
  od_config :: "string \<rightharpoonup> string"
  od_spec :: "spec option"

type_synonym definition_ops = "op_def list"

datatype task_state = ASSIGNED | RUNNING | FINISHED | FAILED
datatype workflow_state = WRUNNING | WSUCCEEDED | WFAILED

record workflow =
  w_id :: nat
  w_mediapackage :: string
  w_ops :: definition_ops
  w_state :: workflow_state
  w_cur :: nat

record task =
  t_id :: nat
  t_wf :: nat
  t_op :: nat
  t_operation :: string
  t_config :: "string \<rightharpoonup> string"
  t_state :: task_state
  t_owner :: "string option"
  t_lease :: int
  t_result :: "task_result option"
  t_attempt :: int
  t_spec :: "int option \<times> int option \<times> int option \<times> int option"

record 'd db =
  workflows :: "workflow list"
  tasks :: "task list"
  next_wf :: nat
  next_task :: nat
  clock :: int
  db_data :: 'd

datatype engine_error =
    ErrTaskLost
  | ErrNoOperations
  | ErrTerminal nat
  | ErrNotNull
  | ErrIntRange
  | ErrNoRows
  | ErrOther string

record options =
  lease :: int
  max_attempts :: int
  has_inline :: bool

section \<open>The terminal-write guard\<close>

text \<open>
  \<open>task_terminal_guard\<close> runs before every update or delete of a task row and raises when
  the row's old state is terminal, which aborts the whole statement.
\<close>

definition terminal :: "task \<Rightarrow> bool" where
  "terminal t = (t_state t = FINISHED \<or> t_state t = FAILED)"

definition update_tasks ::
  "(task \<Rightarrow> bool) \<Rightarrow> (task \<Rightarrow> task) \<Rightarrow> task list \<Rightarrow> (engine_error, task list) result" where
  "update_tasks p f ts =
     (case find (\<lambda>t. p t \<and> terminal t) ts of
        Some t \<Rightarrow> Inl (ErrTerminal (t_id t))
      | None \<Rightarrow> Inr (update_where p f ts))"

definition delete_tasks :: "(task \<Rightarrow> bool) \<Rightarrow> task list \<Rightarrow> (engine_error, task list) result" where
  "delete_tasks p ts =
     (case find (\<lambda>t. p t \<and> terminal t) ts of
        Some t \<Rightarrow> Inl (ErrTerminal (t_id t))
      | None \<Rightarrow> Inr (filter (\<lambda>t. \<not> p t) ts))"

section \<open>Worker-side task client\<close>

definition is_assigned :: "nat \<Rightarrow> task \<Rightarrow> bool" where
  "is_assigned i t = (t_id t = i \<and> t_state t = ASSIGNED)"

definition is_owned :: "nat \<Rightarrow> string \<Rightarrow> task \<Rightarrow> bool" where
  "is_owned i own t = (t_id t = i \<and> t_owner t = Some own \<and> t_state t = RUNNING)"

text \<open>One guarded update of the task table; no row affected is \<open>ErrTaskLost\<close>.\<close>

definition task_transition ::
  "(task \<Rightarrow> bool) \<Rightarrow> (task \<Rightarrow> task) \<Rightarrow> 'd db \<Rightarrow> (engine_error, 'd db) result" where
  "task_transition p f s =
     bind_result (update_tasks p f (tasks s)) (\<lambda>ts.
       if affected p (tasks s) = 0 then Inl ErrTaskLost else Inr (s\<lparr>tasks := ts\<rparr>))"

definition start_task :: "nat \<Rightarrow> string \<Rightarrow> int \<Rightarrow> 'd db \<Rightarrow> (engine_error, 'd db) result" where
  "start_task i own l s =
     task_transition (is_assigned i)
       (\<lambda>t. t\<lparr>t_state := RUNNING, t_owner := Some own, t_lease := clock s + l\<rparr>) s"

definition renew_lease :: "nat \<Rightarrow> string \<Rightarrow> int \<Rightarrow> 'd db \<Rightarrow> (engine_error, 'd db) result" where
  "renew_lease i own l s =
     task_transition (is_owned i own) (\<lambda>t. t\<lparr>t_lease := clock s + l\<rparr>) s"

text \<open>
  \<open>CompleteTask\<close>: marshal, begin, \<open>mutate\<close>, the conditional terminal write, commit. Every
  early return rolls the transaction back, so an error carries no new state.
\<close>

type_synonym 'd mutation = "('d \<Rightarrow> (engine_error, 'd) result) option"

definition complete_task ::
  "nat \<Rightarrow> string \<Rightarrow> (engine_error, string) result \<Rightarrow> 'd mutation \<Rightarrow> 'd db
     \<Rightarrow> (engine_error, 'd db) result" where
  "complete_task i own marshalled mutate s =
     bind_result marshalled (\<lambda>raw.
       bind_result (case mutate of None \<Rightarrow> Inr (db_data s) | Some m \<Rightarrow> m (db_data s)) (\<lambda>d.
         task_transition (is_owned i own)
           (\<lambda>t. t\<lparr>t_state := FINISHED, t_result := Some (Returned raw)\<rparr>) (s\<lparr>db_data := d\<rparr>)))"

definition fail_task :: "nat \<Rightarrow> string \<Rightarrow> string \<Rightarrow> 'd db \<Rightarrow> (engine_error, 'd db) result" where
  "fail_task i own reason s =
     task_transition (is_owned i own)
       (\<lambda>t. t\<lparr>t_state := FAILED, t_result := Some (ErrorReport reason)\<rparr>) s"

section \<open>Reads\<close>

definition get_task :: "nat \<Rightarrow> 'd db \<Rightarrow> (engine_error, task) result" where
  "get_task i s = (case find (\<lambda>t. t_id t = i) (tasks s) of None \<Rightarrow> Inl ErrNoRows | Some t \<Rightarrow> Inr t)"

definition or_zero :: "int option \<Rightarrow> int" where
  "or_zero c = (case c of None \<Rightarrow> 0 | Some v \<Rightarrow> v)"

definition get_spec :: "nat \<Rightarrow> 'd db \<Rightarrow> (engine_error, spec) result" where
  "get_spec i s =
     bind_result (get_task i s) (\<lambda>t. case t_spec t of (c, m, g, r) \<Rightarrow>
       Inr \<lparr>cpu_millis = or_zero c, memory_mb = or_zero m, gpu = or_zero g, runtime_s = or_zero r\<rparr>)"

definition workflow_state_of :: "nat \<Rightarrow> 'd db \<Rightarrow> (engine_error, workflow_state) result" where
  "workflow_state_of i s =
     (case find (\<lambda>w. w_id w = i) (workflows s) of
        None \<Rightarrow> Inl ErrNoRows | Some w \<Rightarrow> Inr (w_state w))"

definition mediapackage_id :: "nat \<Rightarrow> 'd db \<Rightarrow> (engine_error, string) result" where
  "mediapackage_id i s =
     bind_result (get_task i s) (\<lambda>t.
       case find (\<lambda>w. w_id w = t_wf t) (workflows s) of
         None \<Rightarrow> Inl ErrNoRows | Some w \<Rightarrow> Inr (w_mediapackage w))"

section \<open>Orchestrator\<close>

definition default_lease :: int where
  "default_lease = 60 * 1000000000"

definition new_engine :: "options \<Rightarrow> options" where
  "new_engine o0 =
     (let o1 = (if lease o0 \<le> 0 then o0\<lparr>lease := default_lease\<rparr> else o0)
      in if max_attempts o1 \<le> 0 then o1\<lparr>max_attempts := 3\<rparr> else o1)"

definition create_workflow ::
  "string \<Rightarrow> definition_ops \<Rightarrow> 'd db \<Rightarrow> (engine_error, nat \<times> 'd db) result" where
  "create_workflow mp ops s =
     (if ops = [] then Inl ErrNoOperations
      else Inr (next_wf s,
        s\<lparr>workflows := workflows s @
            [\<lparr>w_id = next_wf s, w_mediapackage = mp, w_ops = ops, w_state = WRUNNING, w_cur = 0\<rparr>],
          next_wf := Suc (next_wf s)\<rparr>))"

definition expired :: "'d db \<Rightarrow> task \<Rightarrow> bool" where
  "expired s t = ((t_state t = ASSIGNED \<or> t_state t = RUNNING) \<and> t_lease t < clock s)"

definition reap_pred :: "options \<Rightarrow> 'd db \<Rightarrow> task \<Rightarrow> bool" where
  "reap_pred opts s t = (expired s t \<and> t_attempt t < max_attempts opts)"

definition reassigned :: "options \<Rightarrow> 'd db \<Rightarrow> task \<Rightarrow> task" where
  "reassigned opts s t =
     t\<lparr>t_state := ASSIGNED, t_owner := None, t_attempt := t_attempt t + 1,
       t_lease := clock s + lease opts\<rparr>"

text \<open>\<open>reap\<close>'s first statement, with the rows its \<open>returning\<close> clause yields.\<close>

definition reap_reassign :: "options \<Rightarrow> 'd db \<Rightarrow> (engine_error, 'd db \<times> task list) result" where
  "reap_reassign opts s =
     bind_result (update_tasks (reap_pred opts s) (reassigned opts s) (tasks s)) (\<lambda>ts.
       Inr (s\<lparr>tasks := ts\<rparr>, map (reassigned opts s) (filter (reap_pred opts s) (tasks s))))"

definition exhaust_pred :: "options \<Rightarrow> 'd db \<Rightarrow> task \<Rightarrow> bool" where
  "exhaust_pred opts s t = (expired s t \<and> max_attempts opts \<le> t_attempt t)"

definition reap_exhaust :: "options \<Rightarrow> 'd db \<Rightarrow> (engine_error, 'd db) result" where
  "reap_exhaust opts s =
     bind_result (update_tasks (exhaust_pred opts s) (\<lambda>t. t\<lparr>t_state := FAILED\<rparr>) (tasks s))
       (\<lambda>ts. Inr (s\<lparr>tasks := ts\<rparr>))"

text \<open>\<open>advance\<close>: the join of a workflow with the task row of its current operation.\<close>

definition cur_task_is :: "task list \<Rightarrow> task_state \<Rightarrow> workflow \<Rightarrow> bool" where
  "cur_task_is ts st w =
     list_ex (\<lambda>t. t_wf t = w_id w \<and> t_op t = w_cur w \<and> t_state t = st) ts"

definition advance_finished :: "'d db \<Rightarrow> 'd db" where
  "advance_finished s =
     s\<lparr>workflows := update_where
          (\<lambda>w. cur_task_is (tasks s) FINISHED w \<and> w_state w = WRUNNING)
          (\<lambda>w. w\<lparr>w_cur := w_cur w + 1,
                  w_state := (if length (w_ops w) \<le> w_cur w + 1 then WSUCCEEDED else WRUNNING)\<rparr>)
          (workflows s)\<rparr>"

definition advance_failed :: "'d db \<Rightarrow> 'd db" where
  "advance_failed s =
     s\<lparr>workflows := update_where
          (\<lambda>w. cur_task_is (tasks s) FAILED w \<and> w_state w = WRUNNING)
          (\<lambda>w. w\<lparr>w_state := WFAILED\<rparr>) (workflows s)\<rparr>"

definition advance :: "'d db \<Rightarrow> 'd db" where
  "advance s = advance_failed (advance_finished s)"

text \<open>
  \<open>assignSQL\<close>. A JSON number of the definition's \<open>spec\<close> is cast to a 32-bit \<open>int\<close>
  column and the cast raises out of range; a zero dimension was dropped by
  \<open>omitempty\<close>, so it is \<open>NULL\<close>. An operation index past the end of the array yields a
  \<open>NULL\<close> operation name, which the column refuses.
\<close>

definition spec_col :: "(spec \<Rightarrow> int) \<Rightarrow> op_def \<Rightarrow> (engine_error, int option) result" where
  "spec_col dim od =
     (case od_spec od of
        None \<Rightarrow> Inr None
      | Some sp \<Rightarrow> if dim sp = 0 then Inr None
                   else if - 2147483648 \<le> dim sp \<and> dim sp \<le> 2147483647 then Inr (Some (dim sp))
                   else Inl ErrIntRange)"

definition candidate :: "int \<Rightarrow> workflow \<Rightarrow> (engine_error, task) result" where
  "candidate expires w =
     (if length (w_ops w) \<le> w_cur w then Inl ErrNotNull
      else let od = w_ops w ! w_cur w in
        bind_result (spec_col cpu_millis od) (\<lambda>c.
        bind_result (spec_col memory_mb od) (\<lambda>m.
        bind_result (spec_col gpu od) (\<lambda>g.
        bind_result (spec_col runtime_s od) (\<lambda>r.
          Inr \<lparr>t_id = 0, t_wf = w_id w, t_op = w_cur w, t_operation = od_operation od,
               t_config = od_config od, t_state = ASSIGNED, t_owner = None, t_lease = expires,
               t_result = None, t_attempt = 1, t_spec = (c, m, g, r)\<rparr>)))))"

definition same_slot :: "task \<Rightarrow> task \<Rightarrow> bool" where
  "same_slot d t = (t_wf t = t_wf d \<and> t_op t = t_op d)"

definition lacks_task :: "task list \<Rightarrow> workflow \<Rightarrow> bool" where
  "lacks_task ts w =
     (w_state w = WRUNNING \<and> \<not> list_ex (\<lambda>t. t_wf t = w_id w \<and> t_op t = w_cur w) ts)"

definition assign_select :: "options \<Rightarrow> 'd db \<Rightarrow> (engine_error, task list) result" where
  "assign_select opts s =
     traverse (candidate (clock s + lease opts)) (filter (lacks_task (tasks s)) (workflows s))"

text \<open>
  The insert half: \<open>on conflict (workflow_id, op_index) do nothing\<close>. The id comes from the
  sequence, which a conflicting row consumes too.
\<close>

fun assign_insert :: "task list \<Rightarrow> 'd db \<Rightarrow> 'd db \<times> task list" where
  "assign_insert [] s = (s, [])"
| "assign_insert (d # ds) s =
     (let t = d\<lparr>t_id := next_task s\<rparr>; s1 = s\<lparr>next_task := Suc (next_task s)\<rparr>
      in if list_ex (same_slot d) (tasks s) then assign_insert ds s1
         else (case assign_insert ds (s1\<lparr>tasks := tasks s @ [t]\<rparr>) of
                 (s2, created) \<Rightarrow> (s2, t # created)))"

definition assign :: "options \<Rightarrow> 'd db \<Rightarrow> (engine_error, 'd db \<times> task list) result" where
  "assign opts s = bind_result (assign_select opts s) (\<lambda>ds. Inr (assign_insert ds s))"

section \<open>Dispatch and the orchestrator pass\<close>

datatype dispatch = ToWorker task | ToInline task

definition ignore_error :: "'d db \<Rightarrow> (engine_error, 'd db) result \<Rightarrow> 'd db" where
  "ignore_error s r = (case r of Inl e \<Rightarrow> s | Inr s' \<Rightarrow> s')"

definition engine_dispatch :: string where
  "engine_dispatch = ''engine-dispatch''"

text \<open>
  The reasons the code reports; \<open>%q\<close> quotes the operation id, printing quotes and
  backslashes escaped (operation ids are printable text). The section sign and the dash of the
  literal are their UTF-8 bytes.
\<close>

definition go_quote :: "string \<Rightarrow> string" where
  "go_quote s = [CHR 0x22] @
     concat (map (\<lambda>c. if c = CHR 0x22 \<or> c = CHR 0x5C then [CHR 0x5C, c] else [c]) s) @ [CHR 0x22]"

definition unrunnable_reason :: "task \<Rightarrow> string \<Rightarrow> string" where
  "unrunnable_reason t reason = ''operation '' @ go_quote (t_operation t) @ '': '' @ reason"

definition unclear_reason :: string where
  "unclear_reason = ''execution class UNCLEAR (one of the 4 undecided ops, CONTRACTS '' @
     [CHR 0xC2, CHR 0xA7] @ ''3.2) '' @ [CHR 0xE2, CHR 0x80, CHR 0x94] @ '' refusing to guess''"

definition fail_unrunnable :: "options \<Rightarrow> task \<Rightarrow> string \<Rightarrow> 'd db \<Rightarrow> 'd db" where
  "fail_unrunnable opts t reason s =
     (case start_task (t_id t) engine_dispatch (lease opts) s of
        Inl e \<Rightarrow> s
      | Inr s1 \<Rightarrow> ignore_error s1 (fail_task (t_id t) engine_dispatch
                    (unrunnable_reason t reason) s1))"

definition provision :: "options \<Rightarrow> task \<Rightarrow> 'd db \<Rightarrow> 'd db \<times> dispatch list" where
  "provision opts t s =
     (case class_of (t_operation t) of
        ClassWorker \<Rightarrow> (s, [ToWorker t])
      | ClassInline \<Rightarrow>
          (if has_inline opts then (s, [ToInline t])
           else (fail_unrunnable opts t
                  ''inline-class operation but engine has no inline runner'' s, []))
      | ClassUnclear \<Rightarrow>
          (fail_unrunnable opts t unclear_reason s, [])
      | ClassUnknown \<Rightarrow>
          (fail_unrunnable opts t ''not one of the 98 operations (no execution class)'' s, []))"

fun provision_all :: "options \<Rightarrow> task list \<Rightarrow> 'd db \<Rightarrow> 'd db \<times> dispatch list" where
  "provision_all opts [] s = (s, [])"
| "provision_all opts (t # ts) s =
     (case provision opts t s of (s1, d1) \<Rightarrow>
       (case provision_all opts ts s1 of (s2, d2) \<Rightarrow> (s2, d1 @ d2)))"

text \<open>
  A pass returns its error, if any, the tables it left behind and the tasks it handed to a
  provisioner, in order.
\<close>

type_synonym 'd pass = "engine_error option \<times> 'd db \<times> dispatch list"

definition reap :: "options \<Rightarrow> 'd db \<Rightarrow> 'd pass" where
  "reap opts s =
     (case reap_reassign opts s of
        Inl e \<Rightarrow> (Some e, s, [])
      | Inr (s1, rs) \<Rightarrow>
          (case reap_exhaust opts s1 of
             Inl e \<Rightarrow> (Some e, s1, [])
           | Inr s2 \<Rightarrow> (None, provision_all opts rs s2)))"

definition assign_and_provision :: "options \<Rightarrow> 'd db \<Rightarrow> 'd pass" where
  "assign_and_provision opts s =
     (case assign opts s of
        Inl e \<Rightarrow> (Some e, s, [])
      | Inr (s1, created) \<Rightarrow> (None, provision_all opts created s1))"

definition engine_step :: "options \<Rightarrow> 'd db \<Rightarrow> 'd pass" where
  "engine_step opts s =
     (case reap opts s of
        (Some e, s1, d1) \<Rightarrow> (Some e, s1, d1)
      | (None, s1, d1) \<Rightarrow>
          (case assign_and_provision opts (advance s1) of
             (e, s2, d2) \<Rightarrow> (e, s2, d1 @ d2)))"

end
