(* ===== verification/Interfaces.thy ===== *)
theory Interfaces
  imports Prelude
begin

text \<open>
  The contracts several components share, as locales: a single-winner claim (the engine's
  ASSIGNED to RUNNING transition and the launch flow's spend of a nonce have it), and a
  state machine with an inductive invariant (the engine, the collector and the projection).
  Each is interpreted where its provider is modelled.
\<close>

section \<open>Single-winner claims\<close>

text \<open>
  Callers claim keys one after another; \<open>race\<close> lists the claims that were granted. A
  claim may change the state even when it is refused (an expired nonce is deleted).
\<close>

fun race :: "('k \<Rightarrow> 'o \<Rightarrow> 's \<Rightarrow> bool \<times> 's) \<Rightarrow> ('k \<times> 'o) list \<Rightarrow> 's \<Rightarrow> ('k \<times> 'o) list" where
  "race claim [] s = []"
| "race claim ((k, own) # cs) s =
     (case claim k own s of (won, s') \<Rightarrow>
       (if won then [(k, own)] else []) @ race claim cs s')"

lemma count_list_distinct: "distinct xs \<Longrightarrow> x \<in> set xs \<Longrightarrow> count_list xs x = 1"
  by (induction xs) (auto simp: count_list_0_iff)

locale single_winner =
  fixes claim :: "'k \<Rightarrow> 'o \<Rightarrow> 's \<Rightarrow> bool \<times> 's"
    and free :: "'k \<Rightarrow> 's \<Rightarrow> bool"
  assumes claim_iff_free: "fst (claim k own s) \<longleftrightarrow> free k s"
    and claim_takes: "\<not> free k (snd (claim k own s))"
    and claim_frees_nothing: "free k' (snd (claim k own s)) \<Longrightarrow> free k' s"
    and claim_keeps_others: "k' \<noteq> k \<Longrightarrow> free k' s \<Longrightarrow> free k' (snd (claim k own s))"
begin

lemma race_only_free: "(k, own) \<in> set (race claim cs s) \<Longrightarrow> free k s"
proof (induction cs arbitrary: s)
  case (Cons c cs)
  obtain k0 o0 where c: "c = (k0, o0)" by force
  obtain won s' where cl: "claim k0 o0 s = (won, s')" by force
  from Cons.prems c cl have "(won \<and> (k, own) = (k0, o0)) \<or> (k, own) \<in> set (race claim cs s')"
    by (auto split: if_splits)
  then show ?case
    using Cons.IH [of s'] claim_iff_free [of k0 o0 s] claim_frees_nothing [of k k0 o0 s] cl by auto
qed simp

lemma race_distinct_keys: "distinct (map fst (race claim cs s))"
proof (induction cs arbitrary: s)
  case (Cons c cs)
  obtain k0 o0 where c: "c = (k0, o0)" by force
  obtain won s' where cl: "claim k0 o0 s = (won, s')" by force
  have "k0 \<notin> fst ` set (race claim cs s')"
    using race_only_free claim_takes [of k0 o0 s] cl by fastforce
  with Cons.IH [of s'] show ?case by (simp add: c cl)
qed simp

lemma race_first_wins:
  "free k s \<Longrightarrow> (k, own) \<in> set cs \<Longrightarrow> \<exists>own'. (k, own') \<in> set (race claim cs s)"
proof (induction cs arbitrary: s)
  case (Cons c cs)
  obtain k0 o0 where c: "c = (k0, o0)" by force
  obtain won s' where cl: "claim k0 o0 s = (won, s')" by force
  show ?case
  proof (cases "k0 = k")
    case True
    with Cons.prems(1) claim_iff_free [of k o0 s] cl have won by auto
    then have "race claim (c # cs) s = (k0, o0) # race claim cs s'" using c cl by simp
    then show ?thesis using True by auto
  next
    case False
    with Cons.prems claim_keeps_others [of k k0 s o0] cl c
    have "free k s'" and "(k, own) \<in> set cs" by auto
    then show ?thesis using Cons.IH [of s'] by (auto simp: c cl)
  qed
qed simp

text \<open>However many callers race for a free key, exactly one of them is granted it.\<close>

lemma race_exactly_one:
  assumes "free k s" and "(k, own) \<in> set cs"
  shows "count_list (map fst (race claim cs s)) k = 1"
proof -
  have "k \<in> set (map fst (race claim cs s))" using race_first_wins [OF assms] by force
  then show ?thesis
    using race_distinct_keys [of cs s] by (simp add: count_list_distinct)
qed

lemma race_none:
  assumes "\<not> free k s"
  shows "count_list (map fst (race claim cs s)) k = 0"
  using race_only_free assms by (fastforce simp: count_list_0_iff)

end

section \<open>State machines\<close>

fun run_events :: "('e \<Rightarrow> 's \<Rightarrow> 's) \<Rightarrow> 'e list \<Rightarrow> 's \<Rightarrow> 's" where
  "run_events step [] s = s"
| "run_events step (e # es) s = run_events step es (step e s)"

lemma run_events_append: "run_events step (es @ fs) s = run_events step fs (run_events step es s)"
  by (induction es arbitrary: s) auto

inductive reachable :: "('e \<Rightarrow> 's \<Rightarrow> 's) \<Rightarrow> 's \<Rightarrow> 's \<Rightarrow> bool" for step s0 where
  reach_start: "reachable step s0 s0"
| reach_step: "reachable step s0 s \<Longrightarrow> reachable step s0 (step e s)"

lemma reachable_run: "reachable step s0 s \<Longrightarrow> reachable step s0 (run_events step es s)"
  by (induction es arbitrary: s) (auto intro: reach_step)

text \<open>
  The contract of a machine whose steps keep an invariant when their guard holds, and of one whose
  every step keeps it.
\<close>

fun guarded_run :: "('e \<Rightarrow> 's \<Rightarrow> bool) \<Rightarrow> ('e \<Rightarrow> 's \<Rightarrow> 's) \<Rightarrow> 'e list \<Rightarrow> 's \<Rightarrow> bool" where
  "guarded_run guard step [] s = True"
| "guarded_run guard step (e # es) s = (guard e s \<and> guarded_run guard step es (step e s))"

locale guarded_machine =
  fixes step :: "'e \<Rightarrow> 's \<Rightarrow> 's"
    and inv :: "'s \<Rightarrow> bool"
    and guard :: "'e \<Rightarrow> 's \<Rightarrow> bool"
  assumes guarded_step_inv: "inv s \<Longrightarrow> guard e s \<Longrightarrow> inv (step e s)"
begin

lemma guarded_run_inv: "inv s \<Longrightarrow> guarded_run guard step es s \<Longrightarrow> inv (run_events step es s)"
  by (induction es arbitrary: s) (auto intro: guarded_step_inv)

end

locale invariant_machine =
  fixes step :: "'e \<Rightarrow> 's \<Rightarrow> 's"
    and inv :: "'s \<Rightarrow> bool"
  assumes step_inv: "inv s \<Longrightarrow> inv (step e s)"

sublocale invariant_machine \<subseteq> guarded_machine step inv "\<lambda>_ _. True"
  by unfold_locales (rule step_inv)

context invariant_machine
begin

lemma reachable_inv: "reachable step s0 s \<Longrightarrow> inv s0 \<Longrightarrow> inv s"
  by (induction rule: reachable.induct) (auto intro: step_inv)

lemma run_inv: "inv s \<Longrightarrow> inv (run_events step es s)"
  by (induction es arbitrary: s) (auto intro: step_inv)

end

text \<open>
  A machine that additionally never undoes a fact: once \<open>settled x\<close> holds it holds in
  every later state, as terminal task rows do.
\<close>

locale settling_machine = invariant_machine +
  fixes settled :: "'x \<Rightarrow> 's \<Rightarrow> bool"
  assumes step_settled: "inv s \<Longrightarrow> settled x s \<Longrightarrow> settled x (step e s)"
begin

lemma run_settled: "inv s \<Longrightarrow> settled x s \<Longrightarrow> settled x (run_events step es s)"
  by (induction es arbitrary: s) (auto intro: step_inv step_settled)

end


section \<open>Stores written by full replacement\<close>

text \<open>
  A write replaces what is stored under its key, as a whole, or fails and changes nothing; what is
  read back is the content of the value written.
\<close>

fun write_all :: "('k \<Rightarrow> 'v \<Rightarrow> 's \<Rightarrow> ('e, 's) result) \<Rightarrow> ('k \<times> 'v) list \<Rightarrow> 's \<Rightarrow> ('e, 's) result" where
  "write_all put [] s = Inr s"
| "write_all put ((k, v) # ws) s = bind_result (put k v s) (write_all put ws)"

fun last_write :: "'k \<Rightarrow> ('k \<times> 'v) list \<Rightarrow> 'v option" where
  "last_write k [] = None"
| "last_write k ((j, v) # ws) =
     (case last_write k ws of Some u \<Rightarrow> Some u | None \<Rightarrow> if j = k then Some v else None)"

locale overwrite_store =
  fixes put :: "'k \<Rightarrow> 'v \<Rightarrow> 's \<Rightarrow> ('e, 's) result"
    and content :: "'v \<Rightarrow> 'c"
    and look :: "'k \<Rightarrow> 's \<Rightarrow> 'c option"
  assumes look_put: "put k v s = Inr s' \<Longrightarrow> look k s' = Some (content v)"
    and look_other: "put k v s = Inr s' \<Longrightarrow> j \<noteq> k \<Longrightarrow> look j s' = look j s"
begin

lemma look_last_write:
  "write_all put ws s = Inr s' \<Longrightarrow>
     look k s' = (case last_write k ws of None \<Rightarrow> look k s | Some v \<Rightarrow> Some (content v))"
proof (induction ws arbitrary: s)
  case (Cons w ws)
  obtain j v where w: "w = (j, v)" by force
  obtain s1 where s1: "put j v s = Inr s1" and rest: "write_all put ws s1 = Inr s'"
    using Cons.prems by (auto simp: w)
  show ?case
    using Cons.IH [OF rest] look_put [OF s1] look_other [OF s1, of k]
    by (auto simp: w split: option.splits)
qed simp

end

end
