(* ===== verification/EngineInv.thy ===== *)
theory EngineInv
  imports Engine Interfaces
begin

text \<open>
  The invariant of the engine's tables and the machine of concurrent statements. Every
  statement of \<open>Engine\<close> is one event; orchestrators and workers interleave freely, and an
  orchestrator's \<open>assignSQL\<close> is two events, its read and its insert, so that overlapping
  assignments (the race the unique index settles) are runs of the machine.
\<close>

section \<open>Guarded updates\<close>

lemma find_none: "(\<And>x. x \<in> set xs \<Longrightarrow> \<not> P x) \<Longrightarrow> find P xs = None"
  by (induction xs) auto

lemma update_tasks_ok [sql_simps]:
  assumes "\<And>t. p t \<Longrightarrow> \<not> terminal t"
  shows "update_tasks p f ts = Inr (update_where p f ts)"
  using assms by (auto simp: update_tasks_def find_none)

lemma update_tasks_Inr:
  assumes "update_tasks p f ts = Inr ts'"
  shows "ts' = update_where p f ts \<and> (\<forall>t \<in> set ts. terminal t \<longrightarrow> t \<in> set ts')"
proof -
  from assms have ts': "ts' = update_where p f ts" and "\<forall>t \<in> set ts. \<not> (p t \<and> terminal t)"
    by (auto simp: update_tasks_def find_None_iff split: option.splits)
  then show ?thesis by (auto simp: set_update_where)
qed

lemma delete_tasks_Inr:
  "delete_tasks p ts = Inr ts' \<Longrightarrow> t \<in> set ts \<Longrightarrow> terminal t \<Longrightarrow> t \<in> set ts'"
  by (auto simp: delete_tasks_def find_None_iff split: option.splits)

lemma is_assigned_live: "is_assigned i t \<Longrightarrow> \<not> terminal t"
  by (simp add: is_assigned_def terminal_def)

lemma is_owned_live: "is_owned i own t \<Longrightarrow> \<not> terminal t"
  by (simp add: is_owned_def terminal_def)

lemma expired_live: "expired s t \<Longrightarrow> \<not> terminal t"
  by (auto simp: expired_def terminal_def)

lemma reap_pred_live: "reap_pred opts s t \<Longrightarrow> \<not> terminal t"
  using expired_live by (auto simp: reap_pred_def)

lemma exhaust_pred_live: "exhaust_pred opts s t \<Longrightarrow> \<not> terminal t"
  using expired_live by (auto simp: exhaust_pred_def)

lemma task_transition_eq:
  assumes "\<And>t. p t \<Longrightarrow> \<not> terminal t"
  shows "task_transition p f s =
    (if \<exists>t \<in> set (tasks s). p t then Inr (s\<lparr>tasks := update_where p f (tasks s)\<rparr>)
     else Inl ErrTaskLost)"
  using assms by (auto simp: task_transition_def update_tasks_ok affected_0_iff)

lemma start_task_eq:
  "start_task i own l s =
     (if \<exists>t \<in> set (tasks s). is_assigned i t
      then Inr (s\<lparr>tasks := update_where (is_assigned i)
             (\<lambda>t. t\<lparr>t_state := RUNNING, t_owner := Some own, t_lease := clock s + l\<rparr>) (tasks s)\<rparr>)
      else Inl ErrTaskLost)"
  by (simp add: start_task_def task_transition_eq is_assigned_live)

lemma renew_lease_eq:
  "renew_lease i own l s =
     (if \<exists>t \<in> set (tasks s). is_owned i own t
      then Inr (s\<lparr>tasks := update_where (is_owned i own) (\<lambda>t. t\<lparr>t_lease := clock s + l\<rparr>) (tasks s)\<rparr>)
      else Inl ErrTaskLost)"
  by (simp add: renew_lease_def task_transition_eq is_owned_live)

lemma fail_task_eq:
  "fail_task i own reason s =
     (if \<exists>t \<in> set (tasks s). is_owned i own t
      then Inr (s\<lparr>tasks := update_where (is_owned i own)
             (\<lambda>t. t\<lparr>t_state := FAILED, t_result := Some (ErrorReport reason)\<rparr>) (tasks s)\<rparr>)
      else Inl ErrTaskLost)"
  by (simp add: fail_task_def task_transition_eq is_owned_live)

definition run_mutation :: "'d mutation \<Rightarrow> 'd \<Rightarrow> (engine_error, 'd) result" where
  "run_mutation m d = (case m of None \<Rightarrow> Inr d | Some f \<Rightarrow> f d)"

lemma complete_task_eq:
  "complete_task i own m mutate s =
     bind_result m (\<lambda>raw. bind_result (run_mutation mutate (db_data s)) (\<lambda>d.
       if \<exists>t \<in> set (tasks s). is_owned i own t
       then Inr (s\<lparr>db_data := d, tasks := update_where (is_owned i own)
              (\<lambda>t. t\<lparr>t_state := FINISHED, t_result := Some (Returned raw)\<rparr>) (tasks s)\<rparr>)
       else Inl ErrTaskLost))"
  by (simp add: complete_task_def task_transition_eq is_owned_live run_mutation_def cong: if_cong)

lemma reap_reassign_eq:
  "reap_reassign opts s =
     Inr (s\<lparr>tasks := update_where (reap_pred opts s) (reassigned opts s) (tasks s)\<rparr>,
          map (reassigned opts s) (filter (reap_pred opts s) (tasks s)))"
  by (simp add: reap_reassign_def update_tasks_ok reap_pred_live)

lemma reap_exhaust_eq:
  "reap_exhaust opts s =
     Inr (s\<lparr>tasks := update_where (exhaust_pred opts s) (\<lambda>t. t\<lparr>t_state := FAILED\<rparr>) (tasks s)\<rparr>)"
  by (simp add: reap_exhaust_def update_tasks_ok exhaust_pred_live)

lemmas client_eqs = start_task_eq renew_lease_eq fail_task_eq complete_task_eq

section \<open>The invariant\<close>

definition slot :: "task \<Rightarrow> nat \<times> nat" where
  "slot t = (t_wf t, t_op t)"

definition slot_in :: "task list \<Rightarrow> nat \<Rightarrow> nat \<Rightarrow> task_state \<Rightarrow> bool" where
  "slot_in ts wid i st = (\<exists>t \<in> set ts. t_wf t = wid \<and> t_op t = i \<and> t_state t = st)"

text \<open>A task row belongs to a workflow, at an operation that workflow has reached.\<close>

definition fits_workflow :: "workflow list \<Rightarrow> task \<Rightarrow> bool" where
  "fits_workflow ws t =
     (\<exists>w \<in> set ws. w_id w = t_wf t \<and> t_op t \<le> w_cur w \<and> t_op t < length (w_ops w) \<and>
        t_operation t = od_operation (w_ops w ! t_op t))"

definition task_inv :: "options \<Rightarrow> task \<Rightarrow> bool" where
  "task_inv opts t =
     ((t_state t = ASSIGNED \<longrightarrow> t_owner t = None) \<and>
      (t_state t = RUNNING \<longrightarrow> t_owner t \<noteq> None) \<and>
      1 \<le> t_attempt t \<and> t_attempt t \<le> max_attempts opts)"

text \<open>Where a workflow stands, against the task rows that brought it there.\<close>

definition wf_inv :: "task list \<Rightarrow> workflow \<Rightarrow> bool" where
  "wf_inv ts w =
     (w_cur w \<le> length (w_ops w) \<and>
      (w_state w = WSUCCEEDED \<longleftrightarrow> w_cur w = length (w_ops w)) \<and>
      (\<forall>i < w_cur w. slot_in ts (w_id w) i FINISHED) \<and>
      (w_state w = WFAILED \<longrightarrow> slot_in ts (w_id w) (w_cur w) FAILED))"

definition db_inv :: "options \<Rightarrow> 'd db \<Rightarrow> bool" where
  "db_inv opts s =
     (distinct (map w_id (workflows s)) \<and> distinct (map t_id (tasks s)) \<and>
      distinct (map slot (tasks s)) \<and>
      (\<forall>w \<in> set (workflows s). w_id w < next_wf s \<and> wf_inv (tasks s) w) \<and>
      (\<forall>t \<in> set (tasks s). t_id t < next_task s \<and> fits_workflow (workflows s) t \<and> task_inv opts t))"

lemma db_invD:
  assumes "db_inv opts s"
  shows "distinct (map w_id (workflows s))" "distinct (map t_id (tasks s))"
    "distinct (map slot (tasks s))"
    "w \<in> set (workflows s) \<Longrightarrow> w_id w < next_wf s" "w \<in> set (workflows s) \<Longrightarrow> wf_inv (tasks s) w"
    "t \<in> set (tasks s) \<Longrightarrow> t_id t < next_task s"
    "t \<in> set (tasks s) \<Longrightarrow> fits_workflow (workflows s) t" "t \<in> set (tasks s) \<Longrightarrow> task_inv opts t"
  using assms by (auto simp: db_inv_def)

subsection \<open>Updates of task rows\<close>

text \<open>
  A benign update touches no terminal row, keeps the identity of each row it touches and
  keeps its row invariant; every statement that updates tasks is benign.
\<close>

definition benign :: "options \<Rightarrow> (task \<Rightarrow> bool) \<Rightarrow> (task \<Rightarrow> task) \<Rightarrow> bool" where
  "benign opts p f =
     (\<forall>t. p t \<longrightarrow> \<not> terminal t \<and> t_id (f t) = t_id t \<and> slot (f t) = slot t \<and>
        t_operation (f t) = t_operation t \<and> (task_inv opts t \<longrightarrow> task_inv opts (f t)))"

lemma benign_start:
  "benign opts (is_assigned i) (\<lambda>t. t\<lparr>t_state := RUNNING, t_owner := Some own, t_lease := l\<rparr>)"
  by (auto simp: benign_def is_assigned_live slot_def task_inv_def)

lemma benign_renew: "benign opts (is_owned i own) (\<lambda>t. t\<lparr>t_lease := l\<rparr>)"
  by (auto simp: benign_def is_owned_live slot_def task_inv_def)

lemma benign_finish:
  "benign opts (is_owned i own) (\<lambda>t. t\<lparr>t_state := FINISHED, t_result := Some r\<rparr>)"
  by (auto simp: benign_def is_owned_live slot_def task_inv_def)

lemma benign_fail:
  "benign opts (is_owned i own) (\<lambda>t. t\<lparr>t_state := FAILED, t_result := Some r\<rparr>)"
  by (auto simp: benign_def is_owned_live slot_def task_inv_def)

lemma benign_reassign: "benign opts (reap_pred opts s) (reassigned opts s)"
  by (auto simp: benign_def reap_pred_live slot_def task_inv_def reassigned_def reap_pred_def)

lemma benign_exhaust: "benign opts (exhaust_pred opts s) (\<lambda>t. t\<lparr>t_state := FAILED\<rparr>)"
  by (auto simp: benign_def exhaust_pred_live slot_def task_inv_def)

lemmas benign_intros = benign_start benign_renew benign_finish benign_fail benign_reassign benign_exhaust

lemma fits_workflow_cong:
  "slot t' = slot t \<Longrightarrow> t_operation t' = t_operation t \<Longrightarrow> fits_workflow ws t' = fits_workflow ws t"
  by (simp add: fits_workflow_def slot_def)

lemma slot_in_benign:
  assumes "benign opts p f" and "slot_in ts wid i st" and "st = FINISHED \<or> st = FAILED"
  shows "slot_in (update_where p f ts) wid i st"
  using assms unfolding slot_in_def benign_def
  by (metis (no_types, lifting) terminal_def update_where_memI)

lemma wf_inv_benign: "benign opts p f \<Longrightarrow> wf_inv ts w \<Longrightarrow> wf_inv (update_where p f ts) w"
  by (auto simp: wf_inv_def intro: slot_in_benign)

lemma db_inv_benign:
  assumes b: "benign opts p f" and inv: "db_inv opts s"
  shows "db_inv opts (s\<lparr>tasks := update_where p f (tasks s)\<rparr>)"
proof -
  have row: "t_id t' < next_task s \<and> fits_workflow (workflows s) t' \<and> task_inv opts t'"
    if mem: "t' \<in> set (update_where p f (tasks s))" for t'
  proof -
    obtain t where t: "t \<in> set (tasks s)" and t': "t' = (if p t then f t else t)"
      using mem by (rule update_where_memE)
    then show ?thesis
      using b db_invD(6,7,8) [OF inv] fits_workflow_cong [of "f t" t] by (auto simp: benign_def)
  qed
  have "map t_id (update_where p f (tasks s)) = map t_id (tasks s)"
    and "map slot (update_where p f (tasks s)) = map slot (tasks s)"
    using b by (auto intro!: map_update_where simp: benign_def)
  then show ?thesis
    using inv row wf_inv_benign [OF b] by (simp add: db_inv_def)
qed

lemma db_inv_data [simp]: "db_inv opts (s\<lparr>db_data := d\<rparr>) = db_inv opts s"
  by (simp add: db_inv_def)

lemma db_inv_clock [simp]: "db_inv opts (s\<lparr>clock := c\<rparr>) = db_inv opts s"
  by (simp add: db_inv_def)

lemma start_task_inv: "start_task i own l s = Inr s' \<Longrightarrow> db_inv opts s \<Longrightarrow> db_inv opts s'"
  by (auto simp: start_task_eq split: if_splits intro: db_inv_benign benign_intros)

lemma renew_lease_inv: "renew_lease i own l s = Inr s' \<Longrightarrow> db_inv opts s \<Longrightarrow> db_inv opts s'"
  by (auto simp: renew_lease_eq split: if_splits intro: db_inv_benign benign_intros)

lemma fail_task_inv: "fail_task i own r s = Inr s' \<Longrightarrow> db_inv opts s \<Longrightarrow> db_inv opts s'"
  by (auto simp: fail_task_eq split: if_splits intro: db_inv_benign benign_intros)

lemma complete_task_inv:
  assumes "complete_task i own m mutate s = Inr s'" and "db_inv opts s"
  shows "db_inv opts s'"
proof -
  obtain raw d where "s' = (s\<lparr>db_data := d\<rparr>)\<lparr>tasks := update_where (is_owned i own)
      (\<lambda>t. t\<lparr>t_state := FINISHED, t_result := Some (Returned raw)\<rparr>) (tasks (s\<lparr>db_data := d\<rparr>))\<rparr>"
    using assms(1) by (auto simp: complete_task_eq split: if_splits)
  then show ?thesis
    using db_inv_benign [OF benign_finish, of opts "s\<lparr>db_data := d\<rparr>"] assms(2) by simp
qed

lemma reap_reassign_inv:
  "reap_reassign opts s = Inr (s', rs) \<Longrightarrow> db_inv opts s \<Longrightarrow> db_inv opts s'"
  by (auto simp: reap_reassign_eq intro: db_inv_benign benign_intros)

lemma reap_exhaust_inv: "reap_exhaust opts s = Inr s' \<Longrightarrow> db_inv opts s \<Longrightarrow> db_inv opts s'"
  by (auto simp: reap_exhaust_eq intro: db_inv_benign benign_intros)

end
