(* ===== verification/EngineRun.thy ===== *)
theory EngineRun
  imports EngineInv
begin

text \<open>
  The engine as a machine of interleaved statements, with the invariant of \<open>EngineInv\<close>
  kept by every one of them, and the orchestrator's own composition of them
  (\<open>Engine.Step\<close>) shown to stay inside it.
\<close>

section \<open>Workflow rows\<close>

definition moves_workflow :: "task list \<Rightarrow> (workflow \<Rightarrow> bool) \<Rightarrow> (workflow \<Rightarrow> workflow) \<Rightarrow> bool" where
  "moves_workflow ts p g =
     (\<forall>w. p w \<longrightarrow> w_id (g w) = w_id w \<and> w_ops (g w) = w_ops w \<and> w_cur w \<le> w_cur (g w) \<and>
        (wf_inv ts w \<longrightarrow> wf_inv ts (g w)))"

lemma fits_workflow_moves:
  assumes mv: "moves_workflow ts p g" and fit: "fits_workflow ws t"
  shows "fits_workflow (update_where p g ws) t"
proof -
  obtain w where w: "w \<in> set ws" "w_id w = t_wf t" "t_op t \<le> w_cur w"
      "t_op t < length (w_ops w)" "t_operation t = od_operation (w_ops w ! t_op t)"
    using fit by (auto simp: fits_workflow_def)
  let ?w = "if p w then g w else w"
  have "w_id ?w = w_id w \<and> w_ops ?w = w_ops w \<and> w_cur w \<le> w_cur ?w"
    using mv by (simp add: moves_workflow_def)
  then show ?thesis
    using w update_where_memI [OF w(1), of p g] unfolding fits_workflow_def
    by (intro bexI [of _ ?w]) auto
qed

lemma db_inv_moves:
  assumes mv: "moves_workflow (tasks s) p g" and inv: "db_inv opts s"
  shows "db_inv opts (s\<lparr>workflows := update_where p g (workflows s)\<rparr>)"
proof -
  have row: "w_id w' < next_wf s \<and> wf_inv (tasks s) w'"
    if mem: "w' \<in> set (update_where p g (workflows s))" for w'
  proof -
    obtain w where "w \<in> set (workflows s)" and "w' = (if p w then g w else w)"
      using mem by (rule update_where_memE)
    then show ?thesis using mv db_invD(4,5) [OF inv] by (auto simp: moves_workflow_def)
  qed
  have "map w_id (update_where p g (workflows s)) = map w_id (workflows s)"
    using mv by (auto intro!: map_update_where simp: moves_workflow_def)
  then show ?thesis
    using inv row fits_workflow_moves [OF mv] by (simp add: db_inv_def)
qed

lemma cur_task_is_iff: "cur_task_is ts st w \<longleftrightarrow> slot_in ts (w_id w) (w_cur w) st"
  by (auto simp: cur_task_is_def slot_in_def list_ex_iff)

lemma moves_finished:
  "moves_workflow ts (\<lambda>w. cur_task_is ts FINISHED w \<and> w_state w = WRUNNING)
     (\<lambda>w. w\<lparr>w_cur := w_cur w + 1,
             w_state := (if length (w_ops w) \<le> w_cur w + 1 then WSUCCEEDED else WRUNNING)\<rparr>)"
  by (auto simp: moves_workflow_def wf_inv_def cur_task_is_iff less_Suc_eq)

lemma moves_failed:
  "moves_workflow ts (\<lambda>w. cur_task_is ts FAILED w \<and> w_state w = WRUNNING) (\<lambda>w. w\<lparr>w_state := WFAILED\<rparr>)"
  by (auto simp: moves_workflow_def wf_inv_def cur_task_is_iff)

lemma advance_finished_inv: "db_inv opts s \<Longrightarrow> db_inv opts (advance_finished s)"
  unfolding advance_finished_def by (rule db_inv_moves [OF moves_finished])

lemma advance_failed_inv: "db_inv opts s \<Longrightarrow> db_inv opts (advance_failed s)"
  unfolding advance_failed_def by (rule db_inv_moves [OF moves_failed])

lemma create_workflow_inv:
  assumes "create_workflow mp ops s = Inr (i, s')" and inv: "db_inv opts s"
  shows "db_inv opts s'"
proof -
  from assms(1) have ops: "ops \<noteq> []" and s': "s' = s\<lparr>workflows := workflows s @
      [\<lparr>w_id = next_wf s, w_mediapackage = mp, w_ops = ops, w_state = WRUNNING, w_cur = 0\<rparr>],
      next_wf := Suc (next_wf s)\<rparr>"
    by (auto simp: create_workflow_def split: if_splits)
  have "fits_workflow (workflows s') t" if "t \<in> set (tasks s)" for t
    using db_invD(7) [OF inv that] by (auto simp: fits_workflow_def s')
  moreover have "next_wf s \<notin> w_id ` set (workflows s)" using db_invD(4) [OF inv] by force
  ultimately show ?thesis
    using inv ops by (auto simp: db_inv_def s' wf_inv_def less_SucI)
qed

section \<open>Assignment\<close>

text \<open>A draft row, as \<open>assignSQL\<close>'s read computes it, before the insert.\<close>

definition draft_ok :: "options \<Rightarrow> workflow list \<Rightarrow> task \<Rightarrow> bool" where
  "draft_ok opts ws d = (fits_workflow ws d \<and> task_inv opts d \<and> t_state d = ASSIGNED)"

lemma candidate_slot:
  "candidate e w = Inr d \<Longrightarrow> t_wf d = w_id w \<and> t_op d = w_cur w \<and> w_cur w < length (w_ops w) \<and>
     t_operation d = od_operation (w_ops w ! w_cur w) \<and> t_state d = ASSIGNED \<and> t_owner d = None \<and>
     t_attempt d = 1 \<and> t_config d = od_config (w_ops w ! w_cur w) \<and> t_lease d = e"
  by (auto simp: candidate_def Let_def split: if_splits)

lemma candidate_draft_ok:
  assumes "candidate e w = Inr d" and "w \<in> set ws" and "1 \<le> max_attempts opts"
  shows "draft_ok opts ws d"
  using assms candidate_slot [OF assms(1)]
  by (auto simp: draft_ok_def fits_workflow_def task_inv_def intro!: bexI [of _ w])

lemma assign_select_drafts:
  assumes "assign_select opts s = Inr ds" and "1 \<le> max_attempts opts" and "d \<in> set ds"
  shows "draft_ok opts (workflows s) d"
  using assms traverse_mem candidate_draft_ok unfolding assign_select_def by fastforce

lemma db_inv_insert:
  assumes inv: "db_inv opts s" and d: "draft_ok opts (workflows s) d"
    and new: "\<not> list_ex (same_slot d) (tasks s)"
  shows "db_inv opts (s\<lparr>next_task := Suc (next_task s), tasks := tasks s @ [d\<lparr>t_id := next_task s\<rparr>]\<rparr>)"
proof -
  have "slot d \<notin> slot ` set (tasks s)"
    using new by (force simp: list_ex_iff same_slot_def slot_def)
  moreover have "next_task s \<notin> t_id ` set (tasks s)" using db_invD(6) [OF inv] by force
  moreover have "wf_inv (tasks s @ [t]) w" if "wf_inv (tasks s) w" for t w
    using that by (auto simp: wf_inv_def slot_in_def)
  ultimately show ?thesis
    using inv d by (auto simp: db_inv_def draft_ok_def fits_workflow_def task_inv_def slot_def less_SucI)
qed

lemma db_inv_next [simp]: "db_inv opts s \<Longrightarrow> db_inv opts (s\<lparr>next_task := Suc (next_task s)\<rparr>)"
  by (auto simp: db_inv_def less_SucI)

lemma assign_insert_inv:
  "db_inv opts s \<Longrightarrow> (\<And>d. d \<in> set ds \<Longrightarrow> draft_ok opts (workflows s) d) \<Longrightarrow>
     db_inv opts (fst (assign_insert ds s)) \<and> workflows (fst (assign_insert ds s)) = workflows s"
proof (induction ds s rule: assign_insert.induct)
  case (2 d ds s)
  show ?case
  proof (cases "list_ex (same_slot d) (tasks s)")
    case True
    then show ?thesis using 2 by (simp add: Let_def)
  next
    case False
    let ?s = "s\<lparr>next_task := Suc (next_task s), tasks := tasks s @ [d\<lparr>t_id := next_task s\<rparr>]\<rparr>"
    have "db_inv opts ?s" using 2 False by (auto intro: db_inv_insert)
    then show ?thesis using 2(2) [OF refl refl False] 2(4) False
      by (auto simp: Let_def split: prod.splits)
  qed
qed simp

text \<open>What an insert does to the rows already there, and to the slots it was given.\<close>

lemma assign_insert_keeps: "t \<in> set (tasks s) \<Longrightarrow> t \<in> set (tasks (fst (assign_insert ds s)))"
  by (induction ds s rule: assign_insert.induct) (auto simp: Let_def split: prod.splits)

lemma assign_insert_rows:
  "t \<in> set (tasks (fst (assign_insert ds s))) \<Longrightarrow>
     t \<in> set (tasks s) \<or> t \<in> set (snd (assign_insert ds s))"
  by (induction ds s rule: assign_insert.induct) (auto simp: Let_def split: prod.splits if_splits)

lemma assign_insert_hit:
  "list_ex (same_slot d) (tasks s) \<Longrightarrow>
     assign_insert (d # ds) s = assign_insert ds (s\<lparr>next_task := Suc (next_task s)\<rparr>)"
  by (simp add: Let_def)

lemma assign_insert_miss:
  assumes "\<not> list_ex (same_slot d) (tasks s)"
    and "s1 = s\<lparr>next_task := Suc (next_task s), tasks := tasks s @ [d\<lparr>t_id := next_task s\<rparr>]\<rparr>"
  shows "fst (assign_insert (d # ds) s) = fst (assign_insert ds s1)"
    and "snd (assign_insert (d # ds) s) = d\<lparr>t_id := next_task s\<rparr> # snd (assign_insert ds s1)"
  using assms by (simp_all add: Let_def split: prod.splits)

declare assign_insert.simps(2) [simp del]

lemma assign_insert_created:
  "t \<in> set (snd (assign_insert ds s)) \<Longrightarrow>
     t \<in> set (tasks (fst (assign_insert ds s))) \<and> (\<exists>d i. d \<in> set ds \<and> t = d\<lparr>t_id := i\<rparr>)"
proof (induction ds arbitrary: s)
  case (Cons d ds)
  show ?case
  proof (cases "list_ex (same_slot d) (tasks s)")
    case True
    then show ?thesis using Cons.IH [of "s\<lparr>next_task := Suc (next_task s)\<rparr>"] Cons.prems
      by (auto simp: assign_insert_hit)
  next
    case False
    define s1 where "s1 = s\<lparr>next_task := Suc (next_task s), tasks := tasks s @ [d\<lparr>t_id := next_task s\<rparr>]\<rparr>"
    note eq = assign_insert_miss [OF False s1_def, of ds]
    show ?thesis
    proof (cases "t = d\<lparr>t_id := next_task s\<rparr>")
      case True
      then have "t \<in> set (tasks s1)" by (simp add: s1_def)
      then show ?thesis using assign_insert_keeps True by (auto simp: eq(1))
    next
      case False
      then show ?thesis using Cons.IH [of s1] Cons.prems by (auto simp: eq)
    qed
  qed
qed simp

lemma assign_insert_slot:
  "d \<in> set ds \<Longrightarrow> list_ex (same_slot d) (tasks (fst (assign_insert ds s)))"
proof (induction ds arbitrary: s)
  case (Cons e ds)
  show ?case
  proof (cases "list_ex (same_slot e) (tasks s)")
    case True
    then have "list_ex (same_slot e) (tasks (fst (assign_insert (e # ds) s)))"
      using assign_insert_keeps by (fastforce simp: list_ex_iff)
    then show ?thesis using Cons.IH [of "s\<lparr>next_task := Suc (next_task s)\<rparr>"] Cons.prems True
      by (auto simp: assign_insert_hit)
  next
    case False
    define s1 where "s1 = s\<lparr>next_task := Suc (next_task s), tasks := tasks s @ [e\<lparr>t_id := next_task s\<rparr>]\<rparr>"
    have "e\<lparr>t_id := next_task s\<rparr> \<in> set (tasks s1)" by (simp add: s1_def)
    then have "e\<lparr>t_id := next_task s\<rparr> \<in> set (tasks (fst (assign_insert ds s1)))"
      by (rule assign_insert_keeps)
    moreover have "same_slot e (e\<lparr>t_id := next_task s\<rparr>)" by (simp add: same_slot_def)
    ultimately have "list_ex (same_slot e) (tasks (fst (assign_insert ds s1)))"
      unfolding list_ex_iff by (rule bexI [rotated])
    then show ?thesis using Cons.IH [of s1] Cons.prems assign_insert_miss [OF False s1_def, of ds] by auto
  qed
qed simp

section \<open>The machine\<close>

text \<open>
  \<open>s_pending o\<close> is what orchestrator \<open>o\<close>'s running \<open>assignSQL\<close> has read and not yet
  inserted; \<open>s_commits\<close> records, newest first, the tasks whose \<open>CompleteTask\<close> committed.
\<close>

record 'd sys =
  s_db :: "'d db"
  s_pending :: "nat \<Rightarrow> task list"
  s_commits :: "nat list"

datatype 'd event =
    EvCreate string definition_ops
  | EvReapReassign
  | EvReapExhaust
  | EvAdvanceFinished
  | EvAdvanceFailed
  | EvAssignRead nat
  | EvAssignInsert nat
  | EvStart nat string
  | EvRenew nat string
  | EvComplete nat string string "'d mutation"
  | EvFail nat string string
  | EvTick nat

definition on_db :: "('d db \<Rightarrow> (engine_error, 'd db) result) \<Rightarrow> 'd sys \<Rightarrow> 'd sys" where
  "on_db f x = (case f (s_db x) of Inl e \<Rightarrow> x | Inr s' \<Rightarrow> x\<lparr>s_db := s'\<rparr>)"

fun sys_step :: "options \<Rightarrow> 'd event \<Rightarrow> 'd sys \<Rightarrow> 'd sys" where
  "sys_step opts (EvCreate mp ops) x =
     on_db (\<lambda>s. bind_result (create_workflow mp ops s) (\<lambda>(i, s'). Inr s')) x"
| "sys_step opts EvReapReassign x =
     on_db (\<lambda>s. bind_result (reap_reassign opts s) (\<lambda>(s', rs). Inr s')) x"
| "sys_step opts EvReapExhaust x = on_db (reap_exhaust opts) x"
| "sys_step opts EvAdvanceFinished x = x\<lparr>s_db := advance_finished (s_db x)\<rparr>"
| "sys_step opts EvAdvanceFailed x = x\<lparr>s_db := advance_failed (s_db x)\<rparr>"
| "sys_step opts (EvAssignRead p) x =
     (case assign_select opts (s_db x) of
        Inl e \<Rightarrow> x | Inr ds \<Rightarrow> x\<lparr>s_pending := (s_pending x)(p := ds)\<rparr>)"
| "sys_step opts (EvAssignInsert p) x =
     x\<lparr>s_db := fst (assign_insert (s_pending x p) (s_db x)),
       s_pending := (s_pending x)(p := [])\<rparr>"
| "sys_step opts (EvStart i own) x = on_db (start_task i own (lease opts)) x"
| "sys_step opts (EvRenew i own) x = on_db (renew_lease i own (lease opts)) x"
| "sys_step opts (EvComplete i own raw mutate) x =
     (case complete_task i own (Inr raw) mutate (s_db x) of
        Inl e \<Rightarrow> x | Inr s' \<Rightarrow> x\<lparr>s_db := s', s_commits := i # s_commits x\<rparr>)"
| "sys_step opts (EvFail i own reason) x = on_db (fail_task i own reason) x"
| "sys_step opts (EvTick d) x = x\<lparr>s_db := (s_db x)\<lparr>clock := clock (s_db x) + int d\<rparr>\<rparr>"

definition empty_sys :: "int \<Rightarrow> 'd \<Rightarrow> 'd sys" where
  "empty_sys now d =
     \<lparr>s_db = \<lparr>workflows = [], tasks = [], next_wf = 1, next_task = 1, clock = now, db_data = d\<rparr>,
      s_pending = (\<lambda>_. []), s_commits = []\<rparr>"

definition committed_ok :: "'d sys \<Rightarrow> bool" where
  "committed_ok x =
     (distinct (s_commits x) \<and>
      (\<forall>i \<in> set (s_commits x). \<exists>t \<in> set (tasks (s_db x)). t_id t = i \<and> t_state t = FINISHED))"

definition sys_inv :: "options \<Rightarrow> 'd sys \<Rightarrow> bool" where
  "sys_inv opts x =
     (db_inv opts (s_db x) \<and> 1 \<le> max_attempts opts \<and>
      (\<forall>p. \<forall>d \<in> set (s_pending x p). draft_ok opts (workflows (s_db x)) d) \<and> committed_ok x)"

lemma sys_invD:
  assumes "sys_inv opts x"
  shows "db_inv opts (s_db x)" and "1 \<le> max_attempts opts" and "committed_ok x"
  using assms by (simp_all add: sys_inv_def)

lemma sys_inv_pending:
  "sys_inv opts x \<Longrightarrow> d \<in> set (s_pending x p) \<Longrightarrow> draft_ok opts (workflows (s_db x)) d"
  by (simp add: sys_inv_def)

lemma empty_sys_inv: "1 \<le> max_attempts opts \<Longrightarrow> sys_inv opts (empty_sys now d)"
  by (simp add: sys_inv_def empty_sys_def db_inv_def committed_ok_def)

section \<open>Every event keeps the invariant\<close>

lemma update_where_keeps: "t \<in> set ts \<Longrightarrow> \<not> p t \<Longrightarrow> t \<in> set (update_where p f ts)"
  by (auto simp: update_where_def)

lemma benign_keeps_terminal:
  "benign opts p f \<Longrightarrow> t \<in> set ts \<Longrightarrow> terminal t \<Longrightarrow> t \<in> set (update_where p f ts)"
  by (auto simp: benign_def intro: update_where_keeps)

definition keeps_terminal :: "'d db \<Rightarrow> 'd db \<Rightarrow> bool" where
  "keeps_terminal s s' = (\<forall>t \<in> set (tasks s). terminal t \<longrightarrow> t \<in> set (tasks s'))"

lemma committed_ok_keeps:
  "keeps_terminal (s_db x) s' \<Longrightarrow> committed_ok x \<Longrightarrow> committed_ok (x\<lparr>s_db := s'\<rparr>)"
  unfolding committed_ok_def keeps_terminal_def terminal_def by simp blast

lemma sys_inv_benign:
  assumes b: "benign opts p f" and inv: "sys_inv opts x"
  shows "sys_inv opts (x\<lparr>s_db := (s_db x)\<lparr>tasks := update_where p f (tasks (s_db x))\<rparr>\<rparr>)"
proof -
  have "keeps_terminal (s_db x) ((s_db x)\<lparr>tasks := update_where p f (tasks (s_db x))\<rparr>)"
    by (simp add: keeps_terminal_def benign_keeps_terminal [OF b])
  then show ?thesis
    using inv committed_ok_keeps db_inv_benign [OF b] by (auto simp: sys_inv_def)
qed

lemma sys_inv_moves:
  assumes "moves_workflow (tasks (s_db x)) p g" and "sys_inv opts x"
  shows "sys_inv opts (x\<lparr>s_db := (s_db x)\<lparr>workflows := update_where p g (workflows (s_db x))\<rparr>\<rparr>)"
  using assms db_inv_moves [OF assms(1)] fits_workflow_moves [OF assms(1)]
  by (auto simp: sys_inv_def draft_ok_def committed_ok_def)

lemma sys_inv_advance_finished:
  "sys_inv opts x \<Longrightarrow> sys_inv opts (x\<lparr>s_db := advance_finished (s_db x)\<rparr>)"
  unfolding advance_finished_def by (rule sys_inv_moves [OF moves_finished])

lemma sys_inv_advance_failed:
  "sys_inv opts x \<Longrightarrow> sys_inv opts (x\<lparr>s_db := advance_failed (s_db x)\<rparr>)"
  unfolding advance_failed_def by (rule sys_inv_moves [OF moves_failed])

lemma sys_inv_complete:
  assumes ok: "complete_task i own (Inr raw) mutate (s_db x) = Inr s'" and inv: "sys_inv opts x"
  shows "sys_inv opts (x\<lparr>s_db := s', s_commits := i # s_commits x\<rparr>)"
proof -
  have dbi: "db_inv opts (s_db x)" and com: "committed_ok x" using inv by (auto simp: sys_inv_def)
  let ?f = "\<lambda>t. t\<lparr>t_state := FINISHED, t_result := Some (Returned raw)\<rparr>"
  obtain d where s': "s' = (s_db x)\<lparr>db_data := d, tasks := update_where (is_owned i own) ?f (tasks (s_db x))\<rparr>"
    and own: "\<exists>t \<in> set (tasks (s_db x)). is_owned i own t"
    using ok by (auto simp: complete_task_eq split: if_splits)
  then obtain t where t: "t \<in> set (tasks (s_db x))" "is_owned i own t" by blast
  have fin: "?f t \<in> set (tasks s')" using update_where_memI [OF t(1), of "is_owned i own" ?f] t(2) by (simp add: s')
  have "i \<notin> set (s_commits x)"
  proof
    assume "i \<in> set (s_commits x)"
    then obtain u where u: "u \<in> set (tasks (s_db x))" "t_id u = i" "t_state u = FINISHED"
      using com by (auto simp: committed_ok_def)
    then have "u = t" using key_unique [OF db_invD(2) [OF dbi] u(1) t(1)] t(2) by (simp add: is_owned_def)
    then show False using u t by (simp add: is_owned_def)
  qed
  moreover have "keeps_terminal (s_db x) s'"
    using benign_keeps_terminal [OF benign_finish] by (auto simp: keeps_terminal_def s')
  moreover have "workflows s' = workflows (s_db x)" by (simp add: s')
  moreover have "\<exists>u \<in> set (tasks s'). t_id u = i \<and> t_state u = FINISHED"
    using t(2) by (intro bexI [OF _ fin]) (simp add: is_owned_def)
  ultimately show ?thesis
    using inv committed_ok_keeps [of x s'] complete_task_inv [OF ok dbi]
    by (auto simp: sys_inv_def committed_ok_def)
qed

lemma sys_inv_insert:
  assumes "sys_inv opts x"
  shows "sys_inv opts (sys_step opts (EvAssignInsert p) x)"
proof -
  have "keeps_terminal (s_db x) (fst (assign_insert (s_pending x p) (s_db x)))"
    by (simp add: keeps_terminal_def assign_insert_keeps)
  then have "committed_ok (x\<lparr>s_db := fst (assign_insert (s_pending x p) (s_db x))\<rparr>)"
    using committed_ok_keeps assms by (auto simp: sys_inv_def)
  then show ?thesis
    using assms assign_insert_inv [of opts "s_db x" "s_pending x p"]
    by (auto simp: sys_inv_def committed_ok_def)
qed

lemma sys_inv_create:
  assumes "sys_inv opts x"
  shows "sys_inv opts (sys_step opts (EvCreate mp ops) x)"
proof (cases "create_workflow mp ops (s_db x)")
  case (Inr r)
  obtain i s' where r: "create_workflow mp ops (s_db x) = Inr (i, s')" using Inr by (cases r) auto
  then have "set (workflows (s_db x)) \<subseteq> set (workflows s')" and "tasks s' = tasks (s_db x)"
    by (auto simp: create_workflow_def split: if_splits)
  then show ?thesis
    using assms create_workflow_inv [OF r, of opts] r
    by (auto simp: sys_inv_def on_db_def committed_ok_def draft_ok_def fits_workflow_def) blast
qed (use assms in \<open>simp add: on_db_def\<close>)

lemma sys_step_inv: "sys_inv opts x \<Longrightarrow> sys_inv opts (sys_step opts e x)"
proof (cases e)
  case (EvAssignRead p)
  assume inv: "sys_inv opts x"
  then show ?thesis
    using EvAssignRead assign_select_drafts [of opts "s_db x"]
    by (auto simp: sys_inv_def committed_ok_def split: sum.splits)
next
  case (EvComplete i own raw mutate)
  assume "sys_inv opts x"
  then show ?thesis using EvComplete by (auto split: sum.splits intro: sys_inv_complete)
next
  case (EvTick d)
  assume "sys_inv opts x"
  then show ?thesis using EvTick by (simp add: sys_inv_def committed_ok_def)
qed (auto simp: on_db_def client_eqs reap_reassign_eq reap_exhaust_eq
     simp del: sys_step.simps(1) sys_step.simps(7)
     intro: sys_inv_benign benign_intros sys_inv_advance_finished sys_inv_advance_failed
       sys_inv_insert sys_inv_create)

lemma sys_step_keeps_terminal:
  assumes "sys_inv opts x" and "t \<in> set (tasks (s_db x))" and "terminal t"
  shows "t \<in> set (tasks (s_db (sys_step opts e x)))"
proof (cases e)
  case (EvComplete i own raw mutate)
  then show ?thesis
    using assms by (auto simp: complete_task_eq split: if_splits sum.splits
        intro!: update_where_keeps dest: is_owned_live)
qed (use assms in \<open>auto simp: on_db_def client_eqs reap_reassign_eq reap_exhaust_eq
       advance_finished_def advance_failed_def create_workflow_def assign_insert_keeps
     split: sum.splits if_splits
     intro: benign_keeps_terminal benign_intros\<close>)

interpretation engine: settling_machine "sys_step opts" "sys_inv opts"
  "\<lambda>t x. t \<in> set (tasks (s_db x)) \<and> terminal t" for opts
  by unfold_locales (auto intro: sys_step_inv sys_step_keeps_terminal)

end
