(* ===== verification/EngineClaims.thy ===== *)
theory EngineClaims
  imports EngineProps
begin

text \<open>
  The properties of the engine, each over the statements of \<open>Engine\<close> and the interleaved
  machine of \<open>EngineRun\<close>. The demo run at the start carries a two-operation workflow to
  SUCCEEDED through a lost race and a reaped lease; the witnesses evaluate on it.
\<close>

section \<open>A concrete run\<close>

definition demo_opts :: options where
  "demo_opts = \<lparr>lease = 10, max_attempts = 3, has_inline = True\<rparr>"

definition demo_od :: "string \<Rightarrow> op_def" where
  "demo_od n = \<lparr>od_operation = n, od_config = Map.empty, od_spec = None\<rparr>"

definition demo_complete :: "nat \<Rightarrow> string \<Rightarrow> nat list event" where
  "demo_complete i own = EvComplete i own ''{}'' (Some (\<lambda>d. Inr (i # d)))"

definition demo_head :: "nat list event list" where
  "demo_head = [EvCreate ''mp'' [demo_od ''encode'', demo_od ''publish-engage''],
     EvAssignRead 0, EvAssignRead 1, EvAssignInsert 0, EvAssignInsert 1,
     EvStart 1 ''a'', EvStart 1 ''b'']"

definition demo_recover :: "nat list event list" where
  "demo_recover = [EvTick 11, EvReapReassign, EvReapExhaust, EvStart 1 ''b'',
     demo_complete 1 ''a'', demo_complete 1 ''b'']"

definition demo_tail :: "nat list event list" where
  "demo_tail = [EvAdvanceFinished, EvAdvanceFailed, EvAssignRead 0, EvAssignInsert 0,
     EvStart 3 ''c'', demo_complete 3 ''c'', EvAdvanceFinished]"

definition demo_mid :: "nat list sys" where
  "demo_mid = run_events (sys_step demo_opts) demo_head (empty_sys 0 [])"

definition demo_done :: "nat list sys" where
  "demo_done = run_events (sys_step demo_opts) demo_recover demo_mid"

definition demo_end :: "nat list sys" where
  "demo_end = run_events (sys_step demo_opts) demo_tail demo_done"

lemmas demo_defs = demo_opts_def demo_od_def demo_complete_def demo_head_def
  demo_recover_def demo_tail_def

lemmas run_simps = on_db_def create_workflow_def assign_select_def lacks_task_def candidate_def
  spec_col_def Let_def assign_insert.simps(2) same_slot_def start_task_def renew_lease_def
  complete_task_eq run_mutation_def fail_task_def task_transition_def update_tasks_def terminal_def affected_def
  is_assigned_def is_owned_def reap_reassign_def reap_exhaust_def reap_pred_def exhaust_pred_def
  expired_def reassigned_def advance_finished_def advance_failed_def cur_task_is_def empty_sys_def

lemma demo_mid_eq:
  "demo_mid = \<lparr>s_db = \<lparr>workflows = [\<lparr>w_id = 1, w_mediapackage = ''mp'',
       w_ops = [demo_od ''encode'', demo_od ''publish-engage''], w_state = WRUNNING, w_cur = 0\<rparr>],
     tasks = [\<lparr>t_id = 1, t_wf = 1, t_op = 0, t_operation = ''encode'', t_config = Map.empty,
       t_state = RUNNING, t_owner = Some ''a'', t_lease = 10, t_result = None, t_attempt = 1,
       t_spec = (None, None, None, None)\<rparr>],
     next_wf = 2, next_task = 3, clock = 0, db_data = []\<rparr>,
     s_pending = (\<lambda>_. []), s_commits = []\<rparr>"
  by (simp add: demo_mid_def demo_defs run_simps fun_upd_idem)

lemma demo_done_eq:
  "demo_done = \<lparr>s_db = \<lparr>workflows = [\<lparr>w_id = 1, w_mediapackage = ''mp'',
       w_ops = [demo_od ''encode'', demo_od ''publish-engage''], w_state = WRUNNING, w_cur = 0\<rparr>],
     tasks = [\<lparr>t_id = 1, t_wf = 1, t_op = 0, t_operation = ''encode'', t_config = Map.empty,
       t_state = FINISHED, t_owner = Some ''b'', t_lease = 21, t_result = Some (Returned ''{}''), t_attempt = 2,
       t_spec = (None, None, None, None)\<rparr>],
     next_wf = 2, next_task = 3, clock = 11, db_data = [1]\<rparr>,
     s_pending = (\<lambda>_. []), s_commits = [1]\<rparr>"
  by (simp add: demo_done_def demo_mid_eq demo_defs run_simps fun_upd_idem)

lemma demo_end_eq:
  "demo_end = \<lparr>s_db = \<lparr>workflows = [\<lparr>w_id = 1, w_mediapackage = ''mp'',
       w_ops = [demo_od ''encode'', demo_od ''publish-engage''], w_state = WSUCCEEDED, w_cur = 2\<rparr>],
     tasks = [\<lparr>t_id = 1, t_wf = 1, t_op = 0, t_operation = ''encode'', t_config = Map.empty,
       t_state = FINISHED, t_owner = Some ''b'', t_lease = 21, t_result = Some (Returned ''{}''), t_attempt = 2,
       t_spec = (None, None, None, None)\<rparr>,
      \<lparr>t_id = 3, t_wf = 1, t_op = 1, t_operation = ''publish-engage'', t_config = Map.empty,
       t_state = FINISHED, t_owner = Some ''c'', t_lease = 21, t_result = Some (Returned ''{}''), t_attempt = 1,
       t_spec = (None, None, None, None)\<rparr>],
     next_wf = 2, next_task = 4, clock = 11, db_data = [3, 1]\<rparr>,
     s_pending = (\<lambda>_. []), s_commits = [3, 1]\<rparr>"
  by (simp add: demo_end_def demo_done_eq demo_defs run_simps fun_upd_idem)

lemma demo_reachable:
  "reachable (sys_step demo_opts) (empty_sys 0 []) demo_mid"
  "reachable (sys_step demo_opts) (empty_sys 0 []) demo_done"
  "reachable (sys_step demo_opts) (empty_sys 0 []) demo_end"
proof -
  show m: "reachable (sys_step demo_opts) (empty_sys 0 []) demo_mid"
    unfolding demo_mid_def by (rule reachable_run [OF reach_start])
  show d: "reachable (sys_step demo_opts) (empty_sys 0 []) demo_done"
    unfolding demo_done_def by (rule reachable_run [OF m])
  show "reachable (sys_step demo_opts) (empty_sys 0 []) demo_end"
    unfolding demo_end_def by (rule reachable_run [OF d])
qed

lemma reachable_sys_inv:
  "reachable (sys_step opts) (empty_sys now d) x \<Longrightarrow> 1 \<le> max_attempts opts \<Longrightarrow> sys_inv opts x"
  by (rule engine.reachable_inv [OF _ empty_sys_inv])


section \<open>Claiming a task\<close>

text \<open>C1: However many over-provisioned workers call \<open>StartTask\<close> for one assigned task, in
  whatever order and mixed with starts of other tasks, exactly one of them is granted it; for a
  task that is not assigned none is.\<close>

theorem start_single_winner:
  assumes "(i, own) \<in> set cs"
  shows "count_list (map fst (race (start_claim l) cs s)) i =
    (if list_ex (is_assigned i) (tasks s) then 1 else 0)"
  using start.race_exactly_one [OF _ assms, of s l] start.race_none [of i s l cs]
  by (simp add: start_free_def)

theorem start_single_winner_witness:
  "count_list (map fst (race (start_claim 5) [(1, ''a''), (2, ''b''), (1, ''c'')]
     (s_db demo_mid))) 1 = 0"
  by (subst start_single_winner [of _ "''c''"]) (simp_all add: demo_mid_eq is_assigned_def)

text \<open>Between two reaps a task is started at most once, whatever else happens meanwhile.\<close>

fun starts_won :: "options \<Rightarrow> nat \<Rightarrow> 'd event list \<Rightarrow> 'd sys \<Rightarrow> string list" where
  "starts_won opts i [] x = []"
| "starts_won opts i (e # es) x =
     (case e of
        EvStart j own \<Rightarrow>
          (if j = i \<and> is_ok (start_task j own (lease opts) (s_db x)) then [own] else [])
      | _ \<Rightarrow> []) @ starts_won opts i es (sys_step opts e x)"

definition taken :: "nat \<Rightarrow> 'd db \<Rightarrow> bool" where
  "taken i s = (i < next_task s \<and> (\<forall>t \<in> set (tasks s). t_id t = i \<longrightarrow> t_state t \<noteq> ASSIGNED))"

lemma taken_update:
  assumes "taken i s" and "\<And>t. p t \<Longrightarrow> t_id (f t) = t_id t \<and> (t_state (f t) = ASSIGNED \<longrightarrow> t_state t = ASSIGNED)"
  shows "taken i (s\<lparr>tasks := update_where p f (tasks s)\<rparr>)"
  using assms by (auto simp: taken_def set_update_where)

lemma taken_data [simp]: "taken i (s\<lparr>db_data := d\<rparr>) = taken i s"
  by (simp add: taken_def)

lemma taken_insert: "taken i s \<Longrightarrow> taken i (fst (assign_insert ds s))"
proof (induction ds arbitrary: s)
  case (Cons d ds)
  show ?case
  proof (cases "list_ex (same_slot d) (tasks s)")
    case True
    have "taken i (s\<lparr>next_task := Suc (next_task s)\<rparr>)" using Cons.prems by (auto simp: taken_def)
    then show ?thesis using Cons.IH by (simp add: assign_insert_hit [OF True])
  next
    case False
    have "taken i (s\<lparr>next_task := Suc (next_task s), tasks := tasks s @ [d\<lparr>t_id := next_task s\<rparr>]\<rparr>)"
      using Cons.prems by (auto simp: taken_def)
    then show ?thesis using Cons.IH by (simp add: assign_insert_miss(1) [OF False refl])
  qed
qed simp

lemma taken_step:
  assumes no: "taken i (s_db x)" and e: "e \<noteq> EvReapReassign"
  shows "taken i (s_db (sys_step opts e x))"
proof (cases e)
  case (EvComplete j own raw mutate)
  have "taken i s'" if ok: "complete_task j own (Inr raw) mutate (s_db x) = Inr s'" for s'
  proof -
    obtain d where s': "s' = ((s_db x)\<lparr>db_data := d\<rparr>)\<lparr>tasks := update_where (is_owned j own)
        (\<lambda>t. t\<lparr>t_state := FINISHED, t_result := Some (Returned raw)\<rparr>) (tasks ((s_db x)\<lparr>db_data := d\<rparr>))\<rparr>"
      using ok by (auto simp: complete_task_eq split: if_splits)
    show ?thesis unfolding s' by (rule taken_update) (simp_all add: no)
  qed
  then show ?thesis using no by (simp add: EvComplete split: sum.splits)
next
  case EvReapExhaust
  have "taken i ((s_db x)\<lparr>tasks := update_where (exhaust_pred opts (s_db x))
      (\<lambda>t. t\<lparr>t_state := FAILED\<rparr>) (tasks (s_db x))\<rparr>)"
    by (rule taken_update [OF no]) simp
  then show ?thesis by (simp add: EvReapExhaust on_db_def reap_exhaust_eq)
next
  case (EvAssignInsert p)
  then show ?thesis using taken_insert [OF no] by simp
next
  case (EvStart j own)
  have "taken i ((s_db x)\<lparr>tasks := update_where (is_assigned j)
      (\<lambda>t. t\<lparr>t_state := RUNNING, t_owner := Some own, t_lease := l\<rparr>) (tasks (s_db x))\<rparr>)" for l
    by (rule taken_update [OF no]) simp
  then show ?thesis using no by (simp add: EvStart on_db_def start_task_eq)
next
  case (EvRenew j own)
  have "taken i ((s_db x)\<lparr>tasks := update_where (is_owned j own)
      (\<lambda>t. t\<lparr>t_lease := l\<rparr>) (tasks (s_db x))\<rparr>)" for l
    by (rule taken_update [OF no]) simp
  then show ?thesis using no by (simp add: EvRenew on_db_def renew_lease_eq)
next
  case (EvFail j own r)
  have "taken i ((s_db x)\<lparr>tasks := update_where (is_owned j own)
      (\<lambda>t. t\<lparr>t_state := FAILED, t_result := Some (ErrorReport r)\<rparr>) (tasks (s_db x))\<rparr>)"
    by (rule taken_update [OF no]) simp
  then show ?thesis using no by (simp add: EvFail on_db_def fail_task_eq)
qed (use assms in \<open>simp_all add: on_db_def advance_finished_def advance_failed_def
       create_workflow_def taken_def split: sum.splits\<close>)

lemma taken_run: "taken i (s_db x) \<Longrightarrow> EvReapReassign \<notin> set es \<Longrightarrow> starts_won opts i es x = []"
proof (induction es arbitrary: x)
  case (Cons e es)
  have "\<not> is_ok (start_task i own (lease opts) (s_db x))" for own
    using Cons.prems(1) by (auto simp: start_task_eq taken_def is_assigned_def)
  then have "starts_won opts i (e # es) x = starts_won opts i es (sys_step opts e x)"
    by (auto split: event.splits)
  then show ?case
    using Cons.IH [OF taken_step [OF Cons.prems(1), of e opts]] Cons.prems(2) by auto
qed simp

lemma start_takes:
  assumes "sys_inv opts x" and "is_ok (start_task i own (lease opts) (s_db x))"
  shows "taken i (s_db (sys_step opts (EvStart i own) x))"
  using assms db_invD(6) [OF sys_invD(1) [OF assms(1)]]
  by (auto simp: on_db_def start_task_eq taken_def set_update_where is_assigned_def split: if_splits)

text \<open>A task is executed by at most one worker between two reaps: in any run from a reachable
  state that contains no reassignment, whatever starts, renewals, completions, assignments and
  advances it interleaves, at most one \<open>StartTask\<close> of a given task succeeds.\<close>

theorem one_execution_between_reaps:
  assumes "reachable (sys_step opts) (empty_sys now d) x" and "1 \<le> max_attempts opts"
    and "EvReapReassign \<notin> set es"
  shows "length (starts_won opts i es x) \<le> 1"
  using reachable_sys_inv [OF assms(1,2)] assms(3)
proof (induction es arbitrary: x)
  case (Cons e es)
  show ?case
  proof (cases "\<exists>own. e = EvStart i own \<and> is_ok (start_task i own (lease opts) (s_db x))")
    case True
    then obtain own where e: "e = EvStart i own" and ok: "is_ok (start_task i own (lease opts) (s_db x))"
      by blast
    have "starts_won opts i es (sys_step opts e x) = []"
      using taken_run [OF start_takes [OF Cons.prems(1) ok]] Cons.prems(2) e by simp
    then show ?thesis using e ok by simp
  next
    case False
    then have "starts_won opts i (e # es) x = starts_won opts i es (sys_step opts e x)"
      by (auto split: event.splits)
    then show ?thesis
      using Cons.IH [OF sys_step_inv [OF Cons.prems(1)]] Cons.prems(2) by simp
  qed
qed simp

section \<open>Terminal writes\<close>

text \<open>C2: Completion is atomic and conditional on ownership: \<open>CompleteTask\<close> succeeds exactly when
  the result marshals, the mutation succeeds and the caller still owns the RUNNING task, and then
  the data mutation and the terminal write appear together; a caller that lost the task gets
  \<open>ErrTaskLost\<close> and an error leaves no state behind.\<close>

theorem complete_task_atomic:
  "(complete_task i own (Inr raw) (Some m) s = Inr s' \<longleftrightarrow>
     owned_now i own s \<and> m (db_data s) = Inr (db_data s') \<and>
     workflows s' = workflows s \<and> clock s' = clock s \<and>
     next_wf s' = next_wf s \<and> next_task s' = next_task s \<and>
     tasks s' = map (\<lambda>t. if is_owned i own t
        then t\<lparr>t_state := FINISHED, t_result := Some (Returned raw)\<rparr> else t) (tasks s)) \<and>
   (complete_task i own (Inr raw) (Some m) s = Inl e \<longleftrightarrow>
     (case m (db_data s) of
        Inl e' \<Rightarrow> e = e'
      | Inr d \<Rightarrow> e = ErrTaskLost \<and> \<not> owned_now i own s)) \<and>
   complete_task i own (Inl e) (Some m) s = Inl e"
  (is "?ok \<and> ?err \<and> ?marshal")
proof (intro conjI)
  have eq: "complete_task i own (Inr raw) (Some m) s = (case m (db_data s) of Inl e \<Rightarrow> Inl e
    | Inr d \<Rightarrow> if owned_now i own s then Inr (s\<lparr>db_data := d, tasks := map (\<lambda>t. if is_owned i own t
        then t\<lparr>t_state := FINISHED, t_result := Some (Returned raw)\<rparr> else t) (tasks s)\<rparr>) else Inl ErrTaskLost)"
    by (simp add: complete_task_eq run_mutation_def owned_now_def update_where_def split: sum.split)
  show ?ok unfolding eq
    by (cases s; cases s'; cases "m (db_data s)") auto
  show ?err unfolding eq by (auto split: sum.splits)
  show ?marshal by (simp add: complete_task_eq)
qed

text \<open>C3: Terminal states are immutable: in every run from a reachable state a FINISHED or FAILED
  row keeps every column, and the trigger makes any other update or delete statement that would
  touch it fail as a whole.\<close>

theorem terminal_rows_immutable:
  assumes "reachable (sys_step opts) (empty_sys now d) x" and "1 \<le> max_attempts opts"
    and "t \<in> set (tasks (s_db x))" and "terminal t" and "p t"
  shows "t \<in> set (tasks (s_db (run_events (sys_step opts) es x))) \<and>
    \<not> is_ok (update_tasks p f (tasks (s_db x))) \<and> \<not> is_ok (delete_tasks p (tasks (s_db x)))"
proof (intro conjI)
  show "t \<in> set (tasks (s_db (run_events (sys_step opts) es x)))"
    using engine.run_settled [OF reachable_sys_inv [OF assms(1,2)]] assms(3,4) by blast
qed (use assms(3-5) in \<open>auto simp: update_tasks_def delete_tasks_def find_None_iff split: option.splits\<close>)

theorem terminal_rows_immutable_witness:
  "hd (tasks (s_db demo_end)) \<in> set (tasks (s_db (run_events (sys_step demo_opts)
     [EvTick 100, EvReapReassign, EvReapExhaust, EvStart 1 ''z''] demo_end))) \<and>
   \<not> is_ok (update_tasks (\<lambda>t. t_id t = 1) (\<lambda>t. t\<lparr>t_state := ASSIGNED\<rparr>) (tasks (s_db demo_end))) \<and>
   \<not> is_ok (delete_tasks (\<lambda>t. t_id t = 1) (tasks (s_db demo_end)))"
  by (rule terminal_rows_immutable [OF demo_reachable(3)])
     (simp_all add: demo_opts_def demo_end_eq terminal_def)

section \<open>Definition order\<close>

text \<open>One task per operation: in every reachable state, also after two orchestrators inserted
  from overlapping reads, task ids are unique, no two tasks share a workflow and operation index,
  and each task runs the operation its workflow's definition names at that index.\<close>

theorem one_task_per_operation:
  assumes "reachable (sys_step opts) (empty_sys now d) x" and "1 \<le> max_attempts opts"
  shows "distinct (map t_id (tasks (s_db x))) \<and>
    distinct (map (\<lambda>t. (t_wf t, t_op t)) (tasks (s_db x))) \<and>
    (\<forall>t \<in> set (tasks (s_db x)). \<exists>w \<in> set (workflows (s_db x)). w_id w = t_wf t \<and>
       t_op t < length (w_ops w) \<and> t_operation t = od_operation (w_ops w ! t_op t))"
  using sys_invD(1) [OF reachable_sys_inv [OF assms]]
  by (auto simp: db_inv_def fits_workflow_def slot_def [abs_def])

text \<open>C4: Operations run strictly in definition order: a reachable workflow's current index never
  passes its definition, it has SUCCEEDED exactly when the index reached the end, every operation
  before the index has a FINISHED task, none after it has a task at all, and a FAILED workflow's
  current task is FAILED.\<close>

theorem strict_definition_order:
  assumes "reachable (sys_step opts) (empty_sys now d) x" and "1 \<le> max_attempts opts"
    and "w \<in> set (workflows (s_db x))"
  shows "w_cur w \<le> length (w_ops w) \<and>
    (w_state w = WSUCCEEDED \<longleftrightarrow> w_cur w = length (w_ops w)) \<and>
    (\<forall>i < w_cur w. \<exists>t \<in> set (tasks (s_db x)). t_wf t = w_id w \<and> t_op t = i \<and> t_state t = FINISHED) \<and>
    (\<forall>t \<in> set (tasks (s_db x)). t_wf t = w_id w \<longrightarrow> t_op t \<le> w_cur w) \<and>
    (w_state w = WFAILED \<longrightarrow> (\<exists>t \<in> set (tasks (s_db x)). t_wf t = w_id w \<and> t_op t = w_cur w \<and>
       t_state t = FAILED))"
proof -
  note inv = sys_invD(1) [OF reachable_sys_inv [OF assms(1,2)]]
  have "t_op t \<le> w_cur w" if t: "t \<in> set (tasks (s_db x))" and eq: "t_wf t = w_id w" for t
  proof -
    obtain v where v: "v \<in> set (workflows (s_db x))" "w_id v = t_wf t" "t_op t \<le> w_cur v"
      using db_invD(7) [OF inv t] by (auto simp: fits_workflow_def)
    then have "v = w" using key_unique [OF db_invD(1) [OF inv] v(1) assms(3)] eq by simp
    then show ?thesis using v(3) by simp
  qed
  then show ?thesis
    using db_invD(5) [OF inv assms(3)] by (auto simp: wf_inv_def slot_in_def)
qed

theorem strict_definition_order_witness:
  "\<exists>w \<in> set (workflows (s_db demo_end)). w_state w = WSUCCEEDED \<and> w_cur w = length (w_ops w)"
  using strict_definition_order [OF demo_reachable(3), of "hd (workflows (s_db demo_end))"]
  by (simp add: demo_opts_def demo_end_eq)


section \<open>Lost owners and exactly-once mutations\<close>

text \<open>A zombie has no rights: once a lease is reaped, then in every continuation in which it
  does not win \<open>StartTask\<close> again the former owner's renewals and failure reports are
  \<open>ErrTaskLost\<close> and its \<open>CompleteTask\<close> never succeeds, whatever it marshals or mutates.\<close>

theorem reaped_owner_is_lost:
  assumes "reachable (sys_step opts) (empty_sys now d) x" and "1 \<le> max_attempts opts"
    and "t \<in> set (tasks (s_db x))" and "reap_pred opts (s_db x) t"
    and "EvStart (t_id t) own \<notin> set es"
    and "s = s_db (run_events (sys_step opts) (EvReapReassign # es) x)"
  shows "renew_lease (t_id t) own l s = Inl ErrTaskLost \<and>
    fail_task (t_id t) own r s = Inl ErrTaskLost \<and>
    \<not> is_ok (complete_task (t_id t) own m mutate s)"
proof -
  note inv = reachable_sys_inv [OF assms(1,2)]
  have "\<not> owned_now (t_id t) own (s_db (sys_step opts EvReapReassign x))"
    using reaped_not_owned [OF sys_invD(1) [OF inv] assms(3,4)]
    by (simp add: on_db_def reap_reassign_eq)
  then have "\<not> owned_now (t_id t) own s"
    unfolding assms(6) run_events.simps(2)
    by (rule not_owned_run [OF sys_step_inv [OF inv] _ assms(5)])
  then show ?thesis by (rule not_owned_lost)
qed

definition demo_lapsed :: "nat list sys" where
  "demo_lapsed = sys_step demo_opts (EvTick 11) demo_mid"

lemma demo_lapsed_reachable: "reachable (sys_step demo_opts) (empty_sys 0 []) demo_lapsed"
  unfolding demo_lapsed_def by (rule reach_step [OF demo_reachable(1)])

text \<open>Every FINISHED row went through a recorded commit.\<close>

definition finished_committed :: "'d sys \<Rightarrow> bool" where
  "finished_committed x =
     (\<forall>t \<in> set (tasks (s_db x)). t_state t = FINISHED \<longrightarrow> t_id t \<in> set (s_commits x))"

lemma finished_update:
  assumes "finished_committed x" and "\<And>t. p t \<Longrightarrow> t_state (f t) = FINISHED \<Longrightarrow> t_state t = FINISHED \<and> t_id (f t) = t_id t"
  shows "finished_committed (x\<lparr>s_db := (s_db x)\<lparr>tasks := update_where p f (tasks (s_db x))\<rparr>\<rparr>)"
  using assms by (auto simp: finished_committed_def set_update_where)

lemma finished_step:
  assumes inv: "sys_inv opts x" and fin: "finished_committed x"
  shows "finished_committed (sys_step opts e x)"
proof (cases e)
  case (EvAssignInsert p)
  have asg: "\<forall>d \<in> set (s_pending x p). t_state d = ASSIGNED"
    using sys_inv_pending [OF inv, of _ p] by (simp add: draft_ok_def)
  have "t_id t \<in> set (s_commits x)"
    if t: "t \<in> set (tasks (fst (assign_insert (s_pending x p) (s_db x))))" "t_state t = FINISHED" for t
    using assign_insert_rows [OF t(1)] assign_insert_state [OF asg, of t "s_db x"] t(2) fin
    by (auto simp: finished_committed_def)
  then show ?thesis by (simp add: EvAssignInsert finished_committed_def)
next
  case (EvComplete j own raw mutate)
  show ?thesis
  proof (cases "complete_task j own (Inr raw) mutate (s_db x)")
    case (Inl e')
    then show ?thesis using fin by (simp add: EvComplete)
  next
    case (Inr s')
    then obtain d where s': "s' = (s_db x)\<lparr>db_data := d, tasks := update_where (is_owned j own)
        (\<lambda>t. t\<lparr>t_state := FINISHED, t_result := Some (Returned raw)\<rparr>) (tasks (s_db x))\<rparr>"
      by (auto simp: complete_task_eq split: if_splits)
    show ?thesis
      using fin Inr by (auto simp: EvComplete finished_committed_def s' set_update_where is_owned_def)
  qed
next
  case EvReapReassign
  show ?thesis using finished_update [OF fin, of "reap_pred opts (s_db x)" "reassigned opts (s_db x)"]
    by (simp add: EvReapReassign on_db_def reap_reassign_eq reassigned_def)
next
  case EvReapExhaust
  show ?thesis using finished_update [OF fin, of "exhaust_pred opts (s_db x)" "\<lambda>t. t\<lparr>t_state := FAILED\<rparr>"]
    by (simp add: EvReapExhaust on_db_def reap_exhaust_eq)
next
  case (EvStart j own)
  show ?thesis using fin finished_update [OF fin, of "is_assigned j"
      "\<lambda>t. t\<lparr>t_state := RUNNING, t_owner := Some own, t_lease := clock (s_db x) + lease opts\<rparr>"]
    by (simp add: EvStart on_db_def start_task_eq)
next
  case (EvRenew j own)
  show ?thesis using fin finished_update [OF fin, of "is_owned j own"
      "\<lambda>t. t\<lparr>t_lease := clock (s_db x) + lease opts\<rparr>"]
    by (simp add: EvRenew on_db_def renew_lease_eq)
next
  case (EvFail j own r)
  show ?thesis using fin finished_update [OF fin, of "is_owned j own"
      "\<lambda>t. t\<lparr>t_state := FAILED, t_result := Some (ErrorReport r)\<rparr>"]
    by (simp add: EvFail on_db_def fail_task_eq)
qed (use fin in \<open>simp_all add: on_db_def advance_finished_def advance_failed_def
       create_workflow_def finished_committed_def split: sum.splits\<close>)

lemma finished_run:
  "sys_inv opts x \<Longrightarrow> finished_committed x \<Longrightarrow> finished_committed (run_events (sys_step opts) es x)"
  by (induction es arbitrary: x) (auto intro: finished_step sys_step_inv)

text \<open>C5: Re-execution is harmless: when every \<open>CompleteTask\<close> of a run from the empty database
  carries a mutation that records its task in the data, the data ends with each FINISHED task
  recorded exactly once and nothing else, however often tasks were reaped, restarted and completed
  again by stale owners.\<close>

theorem mutations_exactly_once:
  assumes "list_all logging_event es" and "1 \<le> max_attempts opts"
    and "x = run_events (sys_step opts) es (empty_sys now [])"
  shows "mset (db_data (s_db x)) = mset (map t_id (filter (\<lambda>t. t_state t = FINISHED) (tasks (s_db x))))"
proof -
  have e: "sys_inv opts (empty_sys now [])" using empty_sys_inv [OF assms(2)] .
  have log: "db_data (s_db x) = s_commits x"
    using logging_run [OF assms(1), of "empty_sys now []" opts] assms(3) by (simp add: empty_sys_def)
  have inv: "sys_inv opts x" using engine.run_inv [OF e] assms(3) by simp
  have "finished_committed x"
    using finished_run [OF e, of es] assms(3) by (simp add: finished_committed_def empty_sys_def)
  then have "set (s_commits x) = t_id ` set (filter (\<lambda>t. t_state t = FINISHED) (tasks (s_db x)))"
    using sys_invD(3) [OF inv] by (auto simp: finished_committed_def committed_ok_def)
  moreover have "distinct (map t_id (filter (\<lambda>t. t_state t = FINISHED) (tasks (s_db x))))"
    using db_invD(2) [OF sys_invD(1) [OF inv]] by (rule distinct_map_filter)
  moreover have "distinct (s_commits x)" using sys_invD(3) [OF inv] by (simp add: committed_ok_def)
  ultimately have "mset (s_commits x) = mset (map t_id (filter (\<lambda>t. t_state t = FINISHED) (tasks (s_db x))))"
    by (metis list.set_map set_eq_iff_mset_eq_distinct)
  then show ?thesis using log by simp
qed

lemma demo_end_run:
  "demo_end = run_events (sys_step demo_opts) (demo_head @ demo_recover @ demo_tail) (empty_sys 0 [])"
  by (simp add: demo_end_def demo_done_def demo_mid_def run_events_append)

theorem mutations_exactly_once_witness:
  "mset (db_data (s_db demo_end)) = {# 1, 3 #}"
  using mutations_exactly_once [OF _ _ demo_end_run]
  by (simp add: demo_defs logging_event_def demo_end_eq)


section \<open>The orchestrator pass\<close>

lemma traverse_error_from: "traverse f xs = Inl e \<Longrightarrow> \<exists>x \<in> set xs. f x = Inl e"
  by (induction xs) (auto simp: bind_result_Inl_iff)

lemma candidate_error:
  "candidate e w = Inl err \<Longrightarrow> w_cur w < length (w_ops w) \<Longrightarrow> err = ErrIntRange"
  by (auto simp: candidate_def Let_def bind_result_Inl_iff spec_col_def split: option.splits if_splits)

lemma running_index:
  "db_inv opts s \<Longrightarrow> w \<in> set (workflows s) \<Longrightarrow> w_state w = WRUNNING \<Longrightarrow> w_cur w < length (w_ops w)"
  using db_invD(5) [of opts s w] by (auto simp: wf_inv_def order_le_less)

lemma assign_error:
  assumes "db_inv opts s" and "assign opts s = Inl e"
  shows "e = ErrIntRange"
proof -
  obtain w where "w \<in> set (workflows s)" "lacks_task (tasks s) w"
      "candidate (clock s + lease opts) w = Inl e"
    using assms(2) traverse_error_from
    by (fastforce simp: assign_def assign_select_def bind_result_Inl_iff)
  then show ?thesis
    using candidate_error running_index [OF assms(1)] by (auto simp: lacks_task_def)
qed

lemma advance_inv: "db_inv opts s \<Longrightarrow> db_inv opts (advance s)"
  unfolding advance_def by (intro advance_failed_inv advance_finished_inv)

lemma advance_tasks [simp]: "tasks (advance s) = tasks s"
  by (simp add: advance_def advance_failed_def advance_finished_def)

lemma assign_inv:
  assumes "assign opts s = Inr (s', created)" and "db_inv opts s" and "1 \<le> max_attempts opts"
  shows "db_inv opts s' \<and> workflows s' = workflows s"
proof -
  obtain ds where "assign_select opts s = Inr ds" and "(s', created) = assign_insert ds s"
    using assms(1) by (auto simp: assign_def)
  then show ?thesis
    using assign_insert_inv [of opts s ds] assign_select_drafts [OF _ assms(3)] assms(2)
    by (metis fst_conv)
qed

lemma traverse_cover: "traverse f xs = Inr ys \<Longrightarrow> x \<in> set xs \<Longrightarrow> \<exists>y \<in> set ys. f x = Inr y"
  by (induction xs arbitrary: ys) auto

definition has_task :: "task list \<Rightarrow> workflow \<Rightarrow> bool" where
  "has_task ts w = list_ex (\<lambda>t. t_wf t = w_id w \<and> t_op t = w_cur w) ts"

text \<open>After an assignment every RUNNING workflow has the task of its current operation.\<close>

lemma assign_covers:
  assumes as: "assign opts s = Inr (s', created)" and w: "w \<in> set (workflows s)" "w_state w = WRUNNING"
  shows "has_task (tasks s') w"
proof -
  obtain ds where sel: "assign_select opts s = Inr ds" and ins: "(s', created) = assign_insert ds s"
    using as by (auto simp: assign_def)
  have s': "s' = fst (assign_insert ds s)" using ins by (metis fst_conv)
  show ?thesis
  proof (cases "lacks_task (tasks s) w")
    case True
    then obtain d where d: "d \<in> set ds" "candidate (clock s + lease opts) w = Inr d"
      using traverse_cover [OF sel [unfolded assign_select_def]] w(1) by auto
    then show ?thesis
      using assign_insert_slot [OF d(1), of s] candidate_slot [OF d(2)]
      by (auto simp: s' has_task_def list_ex_iff same_slot_def)
  next
    case False
    then obtain t where "t \<in> set (tasks s)" "t_wf t = w_id w" "t_op t = w_cur w"
      using w(2) by (auto simp: lacks_task_def list_ex_iff)
    then show ?thesis
      using assign_insert_keeps by (fastforce simp: s' has_task_def list_ex_iff)
  qed
qed

lemma has_task_kept:
  assumes "db_inv opts s" and "has_task (tasks s) w"
  shows "has_task (tasks (fst (provision_all opts ts s))) w"
proof -
  obtain t where t: "t \<in> set (tasks s)" "t_wf t = w_id w" "t_op t = w_cur w"
    using assms(2) by (auto simp: has_task_def list_ex_iff)
  have "row_or_failed t (fst (provision_all opts ts s))"
    by (rule provision_all_row [OF assms(1)]) (simp add: row_or_failed_def t(1))
  then show ?thesis using t(2,3) by (auto simp: row_or_failed_def has_task_def list_ex_iff slot_def)
qed

lemma assigned_from_assign:
  "assign opts s = Inr (s', created) \<Longrightarrow> t \<in> set (tasks s') \<Longrightarrow> t \<in> set (tasks s) \<or> t \<in> set created"
proof -
  assume "assign opts s = Inr (s', created)" and t: "t \<in> set (tasks s')"
  then obtain ds where ins: "assign_insert ds s = (s', created)" by (auto simp: assign_def)
  show ?thesis using assign_insert_rows [of t ds s] t by (simp add: ins)
qed

lemma reap_total:
  "reap opts s = (None,
     provision_all opts (map (reassigned opts s) (filter (reap_pred opts s) (tasks s)))
       (s\<lparr>tasks := update_where (exhaust_pred opts s) (\<lambda>t. t\<lparr>t_state := FAILED\<rparr>)
          (update_where (reap_pred opts s) (reassigned opts s) (tasks s))\<rparr>))"
  by (simp add: reap_def reap_reassign_eq reap_exhaust_eq exhaust_pred_def [abs_def] expired_def)

lemma reap_inv:
  assumes "db_inv opts s" and "reap opts s = (e, s', ds)"
  shows "db_inv opts s'"
proof -
  have "db_inv opts (s\<lparr>tasks := update_where (reap_pred opts s) (reassigned opts s) (tasks s)\<rparr>)"
    (is "db_inv opts ?s1") using db_inv_benign [OF benign_reassign assms(1)] .
  from db_inv_benign [OF benign_exhaust this, of s]
  have "db_inv opts (s\<lparr>tasks := update_where (exhaust_pred opts s) (\<lambda>t. t\<lparr>t_state := FAILED\<rparr>)
      (update_where (reap_pred opts s) (reassigned opts s) (tasks s))\<rparr>)" by simp
  then show ?thesis using provision_all_inv assms(2) by (metis fst_conv prod.inject reap_total)
qed

text \<open>A row the pass leaves ASSIGNED was there before, or it was dispatched to a provisioner.\<close>

definition served :: "'d db \<Rightarrow> dispatch list \<Rightarrow> task \<Rightarrow> bool" where
  "served s ds t =
     (t \<in> set (tasks s) \<or> (t \<in> dispatched ` set ds \<and>
        class_of (t_operation t) \<in> {ClassWorker, ClassInline}))"

lemma reap_served:
  assumes inv: "db_inv opts s" and r: "reap opts s = (e, s', ds)"
    and t: "t \<in> set (tasks s')" "t_state t = ASSIGNED"
  shows "served s ds t"
proof -
  let ?rs = "map (reassigned opts s) (filter (reap_pred opts s) (tasks s))"
  let ?s2 = "s\<lparr>tasks := update_where (exhaust_pred opts s) (\<lambda>t. t\<lparr>t_state := FAILED\<rparr>)
     (update_where (reap_pred opts s) (reassigned opts s) (tasks s))\<rparr>"
  have pr: "(s', ds) = provision_all opts ?rs ?s2" using r by (simp add: reap_total)
  have "db_inv opts (s\<lparr>tasks := update_where (reap_pred opts s) (reassigned opts s) (tasks s)\<rparr>)"
    using db_inv_benign [OF benign_reassign inv] .
  from db_inv_benign [OF benign_exhaust this, of s] have inv2: "db_inv opts ?s2" by simp
  have s': "s' = fst (provision_all opts ?rs ?s2)" and ds: "ds = snd (provision_all opts ?rs ?s2)"
    using pr by (metis fst_conv, metis snd_conv)
  have "t \<in> set (tasks ?s2)"
    using provision_all_from [OF inv2, of t ?rs] t by (auto simp: s')
  then have "t \<in> set (tasks s) \<or> t \<in> set ?rs" using t(2) by (auto simp: set_update_where)
  then show ?thesis
    using provision_all_dispatch [OF inv2, of t ?rs] t by (auto simp: served_def s' ds)
qed

lemma assign_served:
  assumes as: "assign opts s = Inr (s1, created)" and inv: "db_inv opts s" and m: "1 \<le> max_attempts opts"
    and t: "t \<in> set (tasks (fst (provision_all opts created s1)))" "t_state t = ASSIGNED"
  shows "served s (snd (provision_all opts created s1)) t"
proof -
  have inv1: "db_inv opts s1" using assign_inv [OF as inv m] by simp
  have "t \<in> set (tasks s1)" using provision_all_from [OF inv1 t(1)] t(2) by auto
  then show ?thesis
    using assigned_from_assign [OF as, of t] provision_all_dispatch [OF inv1 _ t] by (auto simp: served_def)
qed


text \<open>One pass leaves nobody stranded: \<open>Engine.Step\<close> only ever fails on an out-of-range
  resource dimension, and otherwise every RUNNING workflow has the task of its current operation and
  every task the pass leaves ASSIGNED was ASSIGNED before or was handed to a provisioner that can run
  it, the operation's execution class being decided (undecided, unknown and unhosted operations are
  FAILED instead of waiting for a worker that never comes).\<close>

theorem engine_step_strands_nobody:
  assumes "db_inv opts s" and "1 \<le> max_attempts opts" and "engine_step opts s = (e, s', ds)"
  shows "db_inv opts s' \<and> (e = None \<or> e = Some ErrIntRange) \<and>
    (e = None \<longrightarrow>
      (\<forall>w \<in> set (workflows s'). w_state w = WRUNNING \<longrightarrow>
        (\<exists>t \<in> set (tasks s'). t_wf t = w_id w \<and> t_op t = w_cur w)) \<and>
      (\<forall>t \<in> set (tasks s'). t_state t = ASSIGNED \<longrightarrow>
        t \<in> set (tasks s) \<or> (t \<in> dispatched ` set ds \<and>
          class_of (t_operation t) \<in> {ClassWorker, ClassInline})))"
proof -
  obtain s1 d1 where r: "reap opts s = (None, s1, d1)" by (simp add: reap_total split: prod.splits) (metis surj_pair)
  have inv1: "db_inv opts (advance s1)" using advance_inv reap_inv [OF assms(1) r] by blast
  show ?thesis
  proof (cases "assign opts (advance s1)")
    case (Inl err)
    then have "e = Some err" and "s' = advance s1"
      using assms(3) r by (simp_all add: engine_step_def assign_and_provision_def)
    then show ?thesis using assign_error [OF inv1 Inl] inv1 by simp
  next
    case (Inr p)
    obtain s2 created where as: "assign opts (advance s1) = Inr (s2, created)" using Inr by (cases p) auto
    let ?p = "provision_all opts created s2"
    have e: "e = None" and s': "s' = fst ?p" and ds: "ds = d1 @ snd ?p"
      using assms(3) r as by (auto simp: engine_step_def assign_and_provision_def split: prod.splits)
    have inv2: "db_inv opts s2" and ws: "workflows s2 = workflows (advance s1)"
      using assign_inv [OF as inv1 assms(2)] by simp_all
    have "has_task (tasks s') w" if "w \<in> set (workflows s')" "w_state w = WRUNNING" for w
      using that assign_covers [OF as, of w] has_task_kept [OF inv2]
      by (simp add: s' provision_all_workflows ws)
    moreover have "served s ds t" if "t \<in> set (tasks s')" "t_state t = ASSIGNED" for t
      using assign_served [OF as inv1 assms(2), of t] reap_served [OF assms(1) r, of t] that
      by (auto simp: s' ds served_def)
    moreover have "db_inv opts s'" using provision_all_inv [OF inv2] s' by simp
    ultimately show ?thesis using e by (auto simp: served_def has_task_def list_ex_iff)
  qed
qed

definition demo_created :: "nat list db" where
  "demo_created = s_db (sys_step demo_opts (EvCreate ''mp'' [demo_od ''publish-engage'']) (empty_sys 0 []))"

lemma demo_created_inv: "db_inv demo_opts demo_created"
  unfolding demo_created_def
  by (rule sys_invD(1) [OF sys_step_inv [OF empty_sys_inv]]) (simp add: demo_opts_def)

definition poisons :: "op_def \<Rightarrow> bool" where
  "poisons od = (\<exists>sp. od_spec od = Some sp \<and> 2147483647 < cpu_millis sp)"

definition poisoned :: "'d db \<Rightarrow> bool" where
  "poisoned s = (\<exists>w \<in> set (workflows s). lacks_task (tasks s) w \<and> poisons (w_ops w ! w_cur w))"

lemma candidate_poison: "poisons (w_ops w ! w_cur w) \<Longrightarrow> \<not> is_ok (candidate e w)"
  by (auto simp: poisons_def candidate_def Let_def spec_col_def)

lemma poisoned_assign:
  assumes "poisoned s" and "db_inv opts s"
  shows "assign opts s = Inl ErrIntRange"
proof -
  obtain w where w: "w \<in> set (filter (lacks_task (tasks s)) (workflows s))"
      and p: "poisons (w_ops w ! w_cur w)"
    using assms(1) by (auto simp: poisoned_def)
  have "\<not> is_ok (assign_select opts s)"
    unfolding assign_select_def by (rule traverse_error [OF w]) (rule candidate_poison [OF p])
  then obtain e where "assign opts s = Inl e"
    by (cases "assign_select opts s") (auto simp: assign_def)
  then show ?thesis using assign_error [OF assms(2)] by simp
qed

lemma advance_keeps_lacking:
  "w \<in> set (workflows s) \<Longrightarrow> lacks_task (tasks s) w \<Longrightarrow> w \<in> set (workflows (advance s))"
  by (auto simp: advance_def advance_finished_def advance_failed_def lacks_task_def list_ex_iff
      cur_task_is_def intro!: update_where_keeps)

lemma lacks_task_slots: "map slot ts' = map slot ts \<Longrightarrow> lacks_task ts' w = lacks_task ts w"
proof -
  assume eq: "map slot ts' = map slot ts"
  have "list_ex (\<lambda>t. t_wf t = w_id w \<and> t_op t = w_cur w) ts = ((w_id w, w_cur w) \<in> set (map slot ts))" for ts
    by (force simp: list_ex_iff slot_def)
  then show ?thesis by (simp only: lacks_task_def eq)
qed


lemma update_slots: "benign opts p f \<Longrightarrow> map slot (update_where p f ts) = map slot ts"
  by (rule map_update_where) (simp add: benign_def)

lemma provision_slots:
  "provision opts u s = (s', ds) \<Longrightarrow> map slot (tasks s') = map slot (tasks s)"
proof (elim provision_cases)
  fix reason assume "s' = fail_unrunnable opts u reason s"
  then show ?thesis
    by (auto simp: fail_unrunnable_def start_task_eq fail_task_eq ignore_error_def
        update_slots [OF benign_start] update_slots [OF benign_fail])
qed simp

lemma provision_all_slots: "map slot (tasks (fst (provision_all opts ts s))) = map slot (tasks s)"
proof (induction ts arbitrary: s)
  case (Cons u ts)
  obtain s1 d1 where p: "provision opts u s = (s1, d1)" by force
  show ?case using Cons.IH [of s1] provision_slots [OF p] by (simp add: provision_all_Cons [OF p])
qed simp

lemma reap_frame:
  "reap opts s = (e, s', ds) \<Longrightarrow> map slot (tasks s') = map slot (tasks s) \<and> workflows s' = workflows s"
  by (auto simp: reap_total provision_all_slots provision_all_workflows
      update_slots [OF benign_reassign] update_slots [OF benign_exhaust] dest!: arg_cong [of _ _ fst])

lemma poisoned_step:
  assumes "poisoned s" and "db_inv opts s" and "engine_step opts s = (e, s', ds)"
  shows "poisoned s' \<and> db_inv opts s' \<and> e = Some ErrIntRange \<and> map slot (tasks s') = map slot (tasks s)"
proof -
  obtain s1 d1 where r: "reap opts s = (None, s1, d1)"
    by (simp add: reap_total split: prod.splits) (metis surj_pair)
  note frame = reap_frame [OF r]
  have slots: "map slot (tasks (advance s1)) = map slot (tasks s)" using frame by simp
  have inv1: "db_inv opts (advance s1)" using advance_inv reap_inv [OF assms(2) r] by blast
  have p1: "poisoned (advance s1)"
    using assms(1) advance_keeps_lacking [of _ s1] lacks_task_slots [OF slots] frame
      lacks_task_slots [of "tasks s1" "tasks s"] by (auto simp: poisoned_def)
  show ?thesis
    using assms(3) r poisoned_assign [OF p1 inv1] inv1 p1 slots
    by (simp add: engine_step_def assign_and_provision_def)
qed

text \<open>Passes at arbitrary later times.\<close>

fun passes :: "options \<Rightarrow> nat list \<Rightarrow> 'd db \<Rightarrow> 'd db" where
  "passes opts [] s = s"
| "passes opts (d # ds) s =
     passes opts ds ((fst (snd (engine_step opts s)))\<lparr>clock := clock s + int d\<rparr>)"

lemma poisoned_clock [simp]: "poisoned (s\<lparr>clock := c\<rparr>) = poisoned s"
  by (simp add: poisoned_def)

text \<open>One oversized definition wedges the engine: while a RUNNING workflow lacks its task and its
  current operation's \<open>spec\<close> has a dimension beyond the 32-bit column, \<open>assignSQL\<close> (one
  statement for all workflows) fails, so no pass, however often repeated, creates a task for any
  workflow.\<close>


theorem oversized_spec_wedges_engine:
  assumes "db_inv opts s" and "w \<in> set (workflows s)" and "lacks_task (tasks s) w"
    and "od_spec (w_ops w ! w_cur w) = Some sp" and "2147483647 < cpu_millis sp"
  shows "fst (engine_step opts (passes opts ds s)) = Some ErrIntRange \<and>
    map (\<lambda>t. (t_wf t, t_op t)) (tasks (passes opts ds s)) = map (\<lambda>t. (t_wf t, t_op t)) (tasks s)"
proof -
  have "fst (engine_step opts (passes opts ds s)) = Some ErrIntRange \<and>
      map slot (tasks (passes opts ds s)) = map slot (tasks s)"
    if "poisoned s" and "db_inv opts s" for s :: "'a db"
    using that
  proof (induction ds arbitrary: s)
    case Nil
    obtain e s' d where "engine_step opts s = (e, s', d)" by (rule prod_cases3)
    then show ?case using poisoned_step [OF Nil] by simp
  next
    case (Cons d ds)
    obtain e s' d' where "engine_step opts s = (e, s', d')" by (rule prod_cases3)
    then show ?case using poisoned_step [OF Cons.prems] Cons.IH [of "s'\<lparr>clock := clock s + int d\<rparr>"] by simp
  qed
  moreover have "poisoned s" using assms(2-5) by (auto simp: poisoned_def poisons_def)
  ultimately show ?thesis using assms(1) by (simp add: slot_def [abs_def])
qed

definition demo_big :: op_def where
  "demo_big = (demo_od ''encode'')\<lparr>od_spec := Some \<lparr>cpu_millis = 3000000000, memory_mb = 0, gpu = 0, runtime_s = 0\<rparr>\<rparr>"

definition demo_poisoned :: "nat list db" where
  "demo_poisoned = s_db (run_events (sys_step demo_opts)
     [EvCreate ''good'' [demo_od ''encode''], EvCreate ''bad'' [demo_big]] (empty_sys 0 []))"

section \<open>Bounded recovery\<close>

text \<open>A round in which every worker is silent: the leases run out and the reaper passes.\<close>

definition silent_round :: "options \<Rightarrow> 'd db \<Rightarrow> 'd db" where
  "silent_round opts s =
     (let s0 = s\<lparr>clock := clock s + lease opts + 1\<rparr>
      in case reap_reassign opts s0 of
           Inl e \<Rightarrow> s0
         | Inr (s1, rs) \<Rightarrow> (case reap_exhaust opts s1 of Inl e \<Rightarrow> s1 | Inr s2 \<Rightarrow> s2))"

definition live :: "task \<Rightarrow> bool" where
  "live t = (t_state t = ASSIGNED \<or> t_state t = RUNNING)"

text \<open>What a silent round makes of one row.\<close>

definition silent_row :: "options \<Rightarrow> int \<Rightarrow> task \<Rightarrow> task" where
  "silent_row opts now t =
     (if live t \<and> t_lease t < now
      then if t_attempt t < max_attempts opts
           then t\<lparr>t_state := ASSIGNED, t_owner := None, t_attempt := t_attempt t + 1,
                  t_lease := now + lease opts\<rparr>
           else t\<lparr>t_state := FAILED\<rparr>
      else t)"

lemma silent_round_eq:
  assumes "0 \<le> lease opts"
  shows "silent_round opts s = s\<lparr>clock := clock s + lease opts + 1,
    tasks := map (silent_row opts (clock s + lease opts + 1)) (tasks s)\<rparr>"
  using assms
  by (auto simp: silent_round_def Let_def reap_reassign_eq reap_exhaust_eq update_where_def
      silent_row_def live_def reap_pred_def exhaust_pred_def expired_def reassigned_def)

lemma silent_row_lapse:
  assumes "live t" and "t_lease t \<le> now + lease opts"
  shows "live (silent_row opts (now + lease opts + 1) t) =
      (t_attempt t < max_attempts opts) \<and>
    (t_attempt t < max_attempts opts \<longrightarrow>
      t_attempt (silent_row opts (now + lease opts + 1) t) = t_attempt t + 1 \<and>
      t_lease (silent_row opts (now + lease opts + 1) t) \<le> (now + lease opts + 1) + lease opts) \<and>
    (\<not> t_attempt t < max_attempts opts \<longrightarrow>
      t_state (silent_row opts (now + lease opts + 1) t) = FAILED) \<and>
    t_id (silent_row opts (now + lease opts + 1) t) = t_id t \<and>
    slot (silent_row opts (now + lease opts + 1) t) = slot t"
  using assms by (auto simp: silent_row_def live_def slot_def)

lemma silent_row_failed: "t_state t = FAILED \<Longrightarrow> silent_row opts now t = t"
  by (simp add: silent_row_def live_def)

text \<open>C7: Recovery is bounded: a task whose workers all fall silent is re-assigned at most until
  its attempts are used up; after as many lapsed rounds as it has attempts left (and one more) its
  row is FAILED, and the next \<open>advance\<close> fails its workflow.\<close>

theorem silent_task_fails:
  assumes "db_inv opts s" and "0 \<le> lease opts" and "t \<in> set (tasks s)" and "live t"
    and "t_lease t \<le> clock s + lease opts"
    and "n = Suc (nat (max_attempts opts - t_attempt t))"
  shows "(\<exists>u \<in> set (tasks ((silent_round opts ^^ n) s)).
      t_id u = t_id t \<and> slot u = slot t \<and> t_state u = FAILED) \<and>
    (\<forall>w \<in> set (workflows s). w_id w = t_wf t \<and> w_cur w = t_op t \<and> w_state w = WRUNNING \<longrightarrow>
      w\<lparr>w_state := WFAILED\<rparr> \<in> set (workflows (advance_failed ((silent_round opts ^^ n) s))))"
proof -
  have ws: "workflows ((silent_round opts ^^ k) s) = workflows s" for k
    by (induction k) (simp_all add: silent_round_eq [OF assms(2)])
  have "\<exists>u \<in> set (tasks ((silent_round opts ^^ Suc k) s)). t_id u = t_id t \<and> slot u = slot t \<and> t_state u = FAILED"
    if "live t" and "t \<in> set (tasks s)" and "t_lease t \<le> clock s + lease opts"
      and "nat (max_attempts opts - t_attempt t) = k" for k t and s :: "'a db"
    using that
  proof (induction k arbitrary: s t)
    case 0
    let ?u = "silent_row opts (clock s + lease opts + 1) t"
    have "?u \<in> set (tasks (silent_round opts s))" using 0 by (simp add: silent_round_eq [OF assms(2)])
    then show ?case using silent_row_lapse [OF 0(1,3)] 0(4) by (auto intro!: bexI [of _ ?u])
  next
    case (Suc k)
    let ?u = "silent_row opts (clock s + lease opts + 1) t"
    have u: "?u \<in> set (tasks (silent_round opts s))"
      using Suc.prems by (simp add: silent_round_eq [OF assms(2)])
    have more: "t_attempt t < max_attempts opts" using Suc.prems(4) by simp
    have "\<exists>v \<in> set (tasks ((silent_round opts ^^ Suc k) (silent_round opts s))).
        t_id v = t_id ?u \<and> slot v = slot ?u \<and> t_state v = FAILED"
      using silent_row_lapse [OF Suc.prems(1,3)] more Suc.prems(4)
      by (intro Suc.IH [OF _ u]) (auto simp: silent_round_eq [OF assms(2)])
    then show ?case
      using silent_row_lapse [OF Suc.prems(1,3)] by (simp add: funpow_swap1)
  qed
  from this [OF assms(4,3,5) refl] obtain u where u: "u \<in> set (tasks ((silent_round opts ^^ n) s))"
      "t_id u = t_id t" "slot u = slot t" "t_state u = FAILED"
    using assms(6) by blast
  have "w\<lparr>w_state := WFAILED\<rparr> \<in> set (workflows (advance_failed ((silent_round opts ^^ n) s)))"
    if w: "w \<in> set (workflows s)" "w_id w = t_wf t" "w_cur w = t_op t" "w_state w = WRUNNING" for w
  proof -
    have "cur_task_is (tasks ((silent_round opts ^^ n) s)) FAILED w"
      using u w by (auto simp: cur_task_is_def list_ex_iff slot_def)
    then show ?thesis
      using update_where_hit [of w "workflows s", OF w(1)] w(4) by (simp add: advance_failed_def ws)
  qed
  then show ?thesis using u by blast
qed

theorem silent_task_fails_witness:
  "\<exists>u \<in> set (tasks ((silent_round demo_opts ^^ 3) (s_db demo_mid))). t_id u = 1 \<and> t_state u = FAILED"
proof -
  let ?t = "hd (tasks (s_db demo_mid))"
  have t: "?t \<in> set (tasks (s_db demo_mid))" "live ?t" "t_id ?t = 1" "3 = Suc (nat (max_attempts demo_opts - t_attempt ?t))"
    "t_lease ?t \<le> clock (s_db demo_mid) + lease demo_opts" "0 \<le> lease demo_opts" "1 \<le> max_attempts demo_opts"
    by (simp_all add: demo_mid_eq demo_opts_def live_def)
  show ?thesis
    using silent_task_fails [OF sys_invD(1) [OF reachable_sys_inv [OF demo_reachable(1) t(7)]] t(6,1,2,5,4)] t(3)
    by metis
qed


section \<open>The abstract life cycle\<close>

text \<open>
  What a client of the engine sees of a workflow: the operation it is doing, or how it ended.
  A step is labelled with the outcome of that operation.
\<close>

datatype life = Doing nat | Done | Dead

inductive life_step :: "nat \<Rightarrow> bool \<Rightarrow> life \<Rightarrow> life \<Rightarrow> bool" for n where
  next_op: "Suc i < n \<Longrightarrow> life_step n True (Doing i) (Doing (Suc i))"
| last_op: "Suc i = n \<Longrightarrow> life_step n True (Doing i) Done"
| failed_op: "i < n \<Longrightarrow> life_step n False (Doing i) Dead"

inductive_cases life_step_doneE: "life_step n b Done l"
inductive_cases life_step_deadE: "life_step n b Dead l"

definition life_of :: "workflow \<Rightarrow> life" where
  "life_of w = (case w_state w of WRUNNING \<Rightarrow> Doing (w_cur w) | WSUCCEEDED \<Rightarrow> Done | WFAILED \<Rightarrow> Dead)"

definition life_moves :: "task list \<Rightarrow> workflow \<Rightarrow> workflow \<Rightarrow> bool" where
  "life_moves ts w w' =
     (w_id w' = w_id w \<and> w_ops w' = w_ops w \<and> w_mediapackage w' = w_mediapackage w \<and>
      (life_of w' = life_of w \<or>
       (\<exists>b. life_step (length (w_ops w)) b (life_of w) (life_of w') \<and>
          slot_in ts (w_id w) (w_cur w) (if b then FINISHED else FAILED))))"

lemma life_moves_refl: "life_moves ts w w"
  by (simp add: life_moves_def)

lemma life_moves_finished:
  assumes "wf_inv ts w" and "cur_task_is ts FINISHED w \<and> w_state w = WRUNNING"
  shows "life_moves ts w (w\<lparr>w_cur := w_cur w + 1,
    w_state := (if length (w_ops w) \<le> w_cur w + 1 then WSUCCEEDED else WRUNNING)\<rparr>)"
  using assms unfolding life_moves_def
  by (auto simp: life_of_def cur_task_is_iff wf_inv_def order_le_less
      intro!: exI [of _ True] next_op last_op)

lemma life_moves_failed:
  assumes "wf_inv ts w" and "cur_task_is ts FAILED w \<and> w_state w = WRUNNING"
  shows "life_moves ts w (w\<lparr>w_state := WFAILED\<rparr>)"
  using assms unfolding life_moves_def
  by (auto simp: life_of_def cur_task_is_iff wf_inv_def order_le_less intro!: exI [of _ False] failed_op)

lemma life_update:
  assumes "w \<in> set ws" and "p w \<Longrightarrow> life_moves ts w (g w)"
  shows "\<exists>w' \<in> set (update_where p g ws). life_moves ts w w'"
  using update_where_memI [OF assms(1), of p g] assms(2) life_moves_refl
  by (intro bexI [of _ "if p w then g w else w"]) auto

text \<open>C6: Refinement of the life cycle: every event of the machine, on every workflow row, is
  either invisible or exactly one step of the abstract life cycle, licensed by the outcome of the
  workflow's current task; no event forgets a workflow, skips an operation, changes a definition or
  revives a workflow that ended.\<close>

theorem life_cycle_refinement:
  assumes "reachable (sys_step opts) (empty_sys now d) x" and "1 \<le> max_attempts opts"
    and "w \<in> set (workflows (s_db x))"
  shows "\<exists>w' \<in> set (workflows (s_db (sys_step opts e x))).
    w_id w' = w_id w \<and> w_ops w' = w_ops w \<and> w_mediapackage w' = w_mediapackage w \<and>
    (life_of w' = life_of w \<or>
     (\<exists>b. life_step (length (w_ops w)) b (life_of w) (life_of w') \<and>
        (\<exists>t \<in> set (tasks (s_db x)). t_wf t = w_id w \<and> t_op t = w_cur w \<and>
           t_state t = (if b then FINISHED else FAILED))))"
proof -
  note inv = reachable_sys_inv [OF assms(1,2)]
  have wfi: "wf_inv (tasks (s_db x)) w" using db_invD(5) [OF sys_invD(1) [OF inv] assms(3)] .
  have "\<exists>w' \<in> set (workflows (s_db (sys_step opts e x))). life_moves (tasks (s_db x)) w w'"
  proof (cases "workflows (s_db (sys_step opts e x)) = workflows (s_db x)")
    case True
    then show ?thesis using assms(3) life_moves_refl by metis
  next
    case False
    then show ?thesis
    proof (cases e)
      case EvAdvanceFinished
      then show ?thesis
        by (simp add: advance_finished_def) (rule life_update [OF assms(3)], rule life_moves_finished [OF wfi, simplified])
    next
      case EvAdvanceFailed
      then show ?thesis
        by (simp add: advance_failed_def) (rule life_update [OF assms(3)], rule life_moves_failed [OF wfi])
    next
      case (EvCreate mp ops)
      have "w \<in> set (workflows (s_db (sys_step opts e x)))"
        using assms(3) by (auto simp: EvCreate on_db_def create_workflow_def)
      then show ?thesis using life_moves_refl by blast
    next
      case (EvComplete i own raw m)
      then show ?thesis using False by (auto simp: complete_task_eq split: sum.splits if_splits)
    next
      case (EvAssignInsert p)
      have "db_inv opts (s_db x)" using sys_invD(1) [OF inv] .
      then show ?thesis
        using False EvAssignInsert assign_insert_inv [of opts "s_db x" "s_pending x p"] sys_inv_pending [OF inv]
        by simp
    qed (use False in \<open>auto simp: on_db_def client_eqs reap_reassign_eq reap_exhaust_eq
          split: sum.splits if_splits\<close>)
  qed
  then show ?thesis unfolding life_moves_def slot_in_def .
qed

theorem life_cycle_refinement_witness:
  "\<exists>w' \<in> set (workflows (s_db (sys_step demo_opts EvAdvanceFinished demo_done))). w_id w' = 1"
  using life_cycle_refinement [OF demo_reachable(2), of "hd (workflows (s_db demo_done))" EvAdvanceFinished]
  by (auto simp: demo_opts_def demo_done_eq simp del: sys_step.simps)

section \<open>The class table\<close>

text \<open>The class table is total and unambiguous: it names 98 operations, each once, 33 of them
  for workers, 61 inline and 4 undecided, and \<open>ClassOf\<close> answers UNKNOWN exactly for names outside
  it.\<close>

theorem class_table_counts:
  "length op_class = 98 \<and> distinct (map fst op_class) \<and>
   map (\<lambda>c. length (filter (\<lambda>p. snd p = c) op_class)) [ClassWorker, ClassInline, ClassUnclear] = [33, 61, 4] \<and>
   (class_of operation = ClassUnknown \<longleftrightarrow> operation \<notin> fst ` set op_class) \<and>
   map class_of (map fst op_class) = map snd op_class"
proof (intro conjI)
  show "length op_class = 98" by code_simp
  show "map (\<lambda>c. length (filter (\<lambda>p. snd p = c) op_class)) [ClassWorker, ClassInline, ClassUnclear] = [33, 61, 4]"
    by code_simp
  show "class_of operation = ClassUnknown \<longleftrightarrow> operation \<notin> fst ` set op_class"
    by (rule class_of_unknown_iff)
  show "map class_of (map fst op_class) = map snd op_class" using class_of_mem by auto
qed (rule op_class_keys)

end
