(* ===== verification/Executor.thy ===== *)
theory Executor
  imports EngineProps
begin

text \<open>
  The one task life cycle of \<open>internal/engine/inline.go\<close>, shared by the worker binary and
  the inline runner. What happens to the tables while the body runs (other workers, the reaper,
  the clock) is the list \<open>envs\<close> of changes between lease renewals; the renewal goroutine
  renews after each and stops at its first error. \<open>body\<close> is the operation: it fails with a
  reason, or returns the marshalled result and the mutation.
\<close>

datatype 'd body_outcome =
    BodyFailed string
  | BodyReturned "(engine_error, string) result" "'d mutation"

fun renew_loop ::
  "nat \<Rightarrow> string \<Rightarrow> int \<Rightarrow> ('d db \<Rightarrow> 'd db) list \<Rightarrow> 'd db \<Rightarrow> engine_error option \<times> 'd db" where
  "renew_loop i own l [] s = (None, s)"
| "renew_loop i own l (env # envs) s =
     (case renew_lease i own l (env s) of
        Inl e \<Rightarrow> (Some e, fold (\<lambda>f. f) envs (env s))
      | Inr s' \<Rightarrow> renew_loop i own l envs s')"

text \<open>\<open>ExecuteTask\<close>'s return value (\<open>None\<close> is \<open>nil\<close>) and the tables it leaves.\<close>

definition execute_task ::
  "nat \<Rightarrow> string \<Rightarrow> int \<Rightarrow> 'd body_outcome \<Rightarrow> ('d db \<Rightarrow> 'd db) list \<Rightarrow> 'd db
     \<Rightarrow> engine_error option \<times> 'd db" where
  "execute_task i own l body envs s =
     (case start_task i own l s of
        Inl e \<Rightarrow> (if e = ErrTaskLost then None else Some e, s)
      | Inr s1 \<Rightarrow>
          (case renew_loop i own l envs s1 of
             (Some e, s2) \<Rightarrow> (None, s2)
           | (None, s2) \<Rightarrow>
               (case body of
                  BodyFailed reason \<Rightarrow>
                    (case fail_task i own reason s2 of
                       Inl e \<Rightarrow> (if e = ErrTaskLost then None else Some (ErrOther reason), s2)
                     | Inr s3 \<Rightarrow> (Some (ErrOther reason), s3))
                | BodyReturned result mutate \<Rightarrow>
                    (case complete_task i own result mutate s2 of
                       Inl e \<Rightarrow> (if e = ErrTaskLost then None else Some e, s2)
                     | Inr s3 \<Rightarrow> (None, s3)))))"

text \<open>\<open>InlineRunner\<close>: its operation table, its owner prefix and the execution counter.\<close>

record 'd inline_runner =
  r_owner :: string
  r_lease :: int
  r_ops :: "string \<rightharpoonup> (task \<Rightarrow> 'd db \<Rightarrow> 'd body_outcome)"
  r_seq :: nat

definition inline_owner :: "string \<Rightarrow> nat \<Rightarrow> nat \<Rightarrow> string" where
  "inline_owner prefix i n = prefix @ ''-t'' @ dec i @ ''-e'' @ dec n"

definition inline_provision ::
  "task \<Rightarrow> ('d db \<Rightarrow> 'd db) list \<Rightarrow> 'd inline_runner \<Rightarrow> 'd db \<Rightarrow> 'd inline_runner \<times> 'd db" where
  "inline_provision t envs r s =
     (let own = inline_owner (r_owner r) (t_id t) (Suc (r_seq r)); r' = r\<lparr>r_seq := Suc (r_seq r)\<rparr>
      in case r_ops r (t_operation t) of
           None \<Rightarrow>
             (case start_task (t_id t) own (r_lease r) s of
                Inl e \<Rightarrow> (r', s)
              | Inr s1 \<Rightarrow> (r', ignore_error s1 (fail_task (t_id t) own
                  (''inline operation '' @ go_quote (t_operation t) @ '' not implemented in this core'') s1)))
         | Some op \<Rightarrow>
             (r', snd (execute_task (t_id t) own (r_lease r) (op t s) envs s)))"

section \<open>Properties\<close>

text \<open>Renewal only moves the lease of the row this owner owns.\<close>

lemma renew_owner_only:
  assumes "renew_lease i own l s = Inr s'"
  shows "tasks s' = update_where (is_owned i own) (\<lambda>t. t\<lparr>t_lease := clock s + l\<rparr>) (tasks s)"
    and "workflows s' = workflows s" and "db_data s' = db_data s"
  using assms by (auto simp: renew_lease_eq split: if_splits)

lemma renew_loop_lost:
  "fst (renew_loop i own l envs s) = Some e \<Longrightarrow> e = ErrTaskLost"
  by (induction i own l envs s rule: renew_loop.induct)
     (auto simp: renew_lease_eq split: sum.splits if_splits)

text \<open>A task taken from this owner stays lost however the environment continues.\<close>

definition env_keeps_lost :: "nat \<Rightarrow> string \<Rightarrow> ('d db \<Rightarrow> 'd db) \<Rightarrow> bool" where
  "env_keeps_lost i own f = (\<forall>s. \<not> owned_now i own s \<longrightarrow> \<not> owned_now i own (f s))"

lemma renew_loop_not_owned:
  assumes "\<not> owned_now i own (env s)"
  shows "renew_loop i own l (env # envs) s = (Some ErrTaskLost, fold (\<lambda>f. f) envs (env s))"
  using assms by (simp add: owned_now_def renew_lease_eq)


lemma renew_loop_taken:
  assumes "\<And>u. \<not> owned_now i own (f u)"
  shows "\<exists>u. renew_loop i own l (pre @ f # post) s = (Some ErrTaskLost, fold (\<lambda>g. g) post (f u))"
proof (induction pre arbitrary: s)
  case Nil
  show ?case using renew_loop_not_owned [of i own f s l post] assms by auto
next
  case (Cons g pre)
  show ?case
  proof (cases "renew_lease i own l (g s)")
    case (Inl e)
    then have "e = ErrTaskLost" by (simp add: renew_lease_eq split: if_splits)
    then show ?thesis
      using Inl by (auto intro: exI [of _ "fold (\<lambda>g. g) pre (g s)"])
  next
    case (Inr s')
    then show ?thesis using Cons.IH [of s'] by simp
  qed
qed

text \<open>
  What holds of the tables beside the task rows is kept by an execution when its environment and its
  mutation keep it.
\<close>

lemma fold_envs_keep:
  "\<forall>f \<in> set envs. \<forall>u. P (db_data u) \<longrightarrow> P (db_data (f u)) \<Longrightarrow> P (db_data s) \<Longrightarrow>
     P (db_data (fold (\<lambda>f. f) envs s))"
  by (induction envs arbitrary: s) auto

lemma client_data:
  "start_task i own l s = Inr s' \<Longrightarrow> db_data s' = db_data s"
  "renew_lease i own l s = Inr s' \<Longrightarrow> db_data s' = db_data s"
  "fail_task i own reason s = Inr s' \<Longrightarrow> db_data s' = db_data s"
  by (auto simp: start_task_eq renew_lease_eq fail_task_eq split: if_splits)

lemma renew_loop_keeps:
  "\<forall>f \<in> set envs. \<forall>u. P (db_data u) \<longrightarrow> P (db_data (f u)) \<Longrightarrow> P (db_data s) \<Longrightarrow>
     P (db_data (snd (renew_loop i own l envs s)))"
proof (induction envs arbitrary: s)
  case (Cons f envs)
  have f: "P (db_data (f s))" and rest: "\<forall>g \<in> set envs. \<forall>u. P (db_data u) \<longrightarrow> P (db_data (g u))"
    using Cons.prems by auto
  show ?case
  proof (cases "renew_lease i own l (f s)")
    case (Inl e)
    then show ?thesis using fold_envs_keep [OF rest f] by simp
  next
    case (Inr s')
    then have "P (db_data s')" using client_data(2) f by metis
    then show ?thesis using Cons.IH [OF rest] Inr by simp
  qed
qed simp

lemma execute_task_keeps:
  assumes "P (db_data s)" and "\<forall>f \<in> set envs. \<forall>u. P (db_data u) \<longrightarrow> P (db_data (f u))"
    and "\<And>raw m d d'. body = BodyReturned raw (Some m) \<Longrightarrow> m d = Inr d' \<Longrightarrow> P d \<Longrightarrow> P d'"
  shows "P (db_data (snd (execute_task i own l body envs s)))"
proof (cases "start_task i own l s")
  case (Inl e)
  then show ?thesis using assms(1) by (simp add: execute_task_def)
next
  case (Inr s1)
  obtain e s2 where loop: "renew_loop i own l envs s1 = (e, s2)" by force
  have s2: "P (db_data s2)"
    using renew_loop_keeps [OF assms(2), of s1 i own l] client_data(1) [OF Inr] assms(1) loop by simp
  have "P (db_data s3)" if "body = BodyReturned raw m" "complete_task i own raw m s2 = Inr s3" for raw m s3
    using that s2 assms(3)
    by (cases m) (auto simp: complete_task_eq run_mutation_def split: if_splits)
  moreover have "P (db_data s3)" if "fail_task i own reason s2 = Inr s3" for reason s3
    using client_data(3) [OF that] s2 by simp
  ultimately show ?thesis
    using s2 by (auto simp: execute_task_def Inr loop split: option.split body_outcome.split sum.split)
qed

text \<open>The lost-task posture: when anything takes the task away while its body runs (a reap
  followed by another worker's start, say), \<open>ExecuteTask\<close> returns nil and writes nothing more,
  whatever the body went on to return: the tables it leaves are exactly what the interference and
  what came after it made of them, with no completion, no mutation and no FAILED report.\<close>

theorem lost_execution_is_silent:
  assumes "is_ok (start_task i own l s)" and "\<And>u. \<not> owned_now i own (f u)"
  shows "\<exists>u. execute_task i own l body (pre @ f # post) s = (None, fold (\<lambda>g. g) post (f u))"
proof -
  obtain s1 where s1: "start_task i own l s = Inr s1" using assms(1) by (auto simp: is_ok_iff)
  obtain u where "renew_loop i own l (pre @ f # post) s1 = (Some ErrTaskLost, fold (\<lambda>g. g) post (f u))"
    using renew_loop_taken [of i own f l pre post s1] assms(2) by blast
  then show ?thesis using s1 by (auto simp: execute_task_def)
qed

definition reap_all :: "'d db \<Rightarrow> 'd db" where
  "reap_all s = s\<lparr>tasks := map (\<lambda>t. t\<lparr>t_state := ASSIGNED, t_owner := None\<rparr>) (tasks s)\<rparr>"

definition demo_task :: task where
  "demo_task = \<lparr>t_id = 7, t_wf = 1, t_op = 0, t_operation = ''encode'', t_config = Map.empty,
     t_state = ASSIGNED, t_owner = None, t_lease = 5, t_result = None, t_attempt = 1,
     t_spec = (None, None, None, None)\<rparr>"

definition demo_db :: "nat list db" where
  "demo_db = \<lparr>workflows = [], tasks = [demo_task], next_wf = 2, next_task = 8, clock = 0, db_data = []\<rparr>"

text \<open>An execution's mutation is visible only with its own terminal write: as long as the
  environment leaves the data alone, data that changed means that the task's row is FINISHED, by this
  owner.\<close>

theorem mutation_only_with_finish:
  assumes "\<And>f u. f \<in> set envs \<Longrightarrow> db_data (f u) = db_data u"
    and "execute_task i own l body envs s = (e, s')" and "db_data s' \<noteq> db_data s"
  shows "\<exists>t \<in> set (tasks s'). t_id t = i \<and> t_owner t = Some own \<and> t_state t = FINISHED"
proof -
  have fold_data: "db_data (fold (\<lambda>g. g) fs u) = db_data u" if "set fs \<subseteq> set envs" for fs u
    using that by (induction fs arbitrary: u) (auto simp: assms(1))
  have loop_data: "db_data (snd (renew_loop i own l fs u)) = db_data u" if "set fs \<subseteq> set envs" for fs u
    using that
  proof (induction fs arbitrary: u)
    case (Cons f fs)
    show ?case
    proof (cases "renew_lease i own l (f u)")
      case (Inl e)
      then show ?thesis using fold_data [of fs] Cons.prems by (simp add: assms(1))
    next
      case (Inr u')
      then show ?thesis
        using Cons.IH [of u'] Cons.prems renew_owner_only(3) [OF Inr] by (simp add: assms(1))
    qed
  qed simp
  obtain s1 where s1: "start_task i own l s = Inr s1"
    using assms(2,3) by (cases "start_task i own l s") (auto simp: execute_task_def)
  have d1: "db_data s1 = db_data s" using s1 by (auto simp: start_task_eq split: if_splits)
  obtain r s2 where loop: "renew_loop i own l envs s1 = (r, s2)" by force
  have d2: "db_data s2 = db_data s" using loop_data [of envs s1] loop d1 by simp
  have r: "r = None" using assms(2,3) s1 loop d2 by (cases r) (auto simp: execute_task_def)
  show ?thesis
  proof (cases body)
    case (BodyFailed reason)
    then show ?thesis using assms(2,3) s1 loop r d2
      by (auto simp: execute_task_def fail_task_eq split: sum.splits if_splits)
  next
    case (BodyReturned result mutate)
    then obtain s3 where fin: "complete_task i own result mutate s2 = Inr s3" and "s' = s3"
      using assms(2,3) s1 loop r d2
      by (cases "complete_task i own result mutate s2") (auto simp: execute_task_def split: if_splits)
    then obtain raw d t where s': "s' = s2\<lparr>db_data := d, tasks := update_where (is_owned i own)
        (\<lambda>t. t\<lparr>t_state := FINISHED, t_result := Some (Returned raw)\<rparr>) (tasks s2)\<rparr>"
      and t: "t \<in> set (tasks s2)" "is_owned i own t"
      by (auto simp: complete_task_eq split: if_splits)
    show ?thesis
      using update_where_hit [of t "tasks s2" "is_owned i own"
          "\<lambda>t. t\<lparr>t_state := FINISHED, t_result := Some (Returned raw)\<rparr>"] t
      by (intro bexI [rotated]) (auto simp: s' is_owned_def)
  qed
qed

lemma dec_no_e: "CHR ''e'' \<notin> set (dec n)"
  using dec_digits [of "CHR ''e''" n] by (auto simp: digit_val_def)

lemma dec_no_dash: "CHR ''-'' \<notin> set (dec n)"
  using dec_digits [of "CHR ''-''" n] by (auto simp: digit_val_def)

text \<open>Every inline execution has an owner of its own: the owner strings of two executions of one
  runner agree only if both the task and the execution number agree, so the single-winner start
  separates twins of one task.\<close>

theorem inline_owner_inject:
  "inline_owner prefix i n = inline_owner prefix j m \<longleftrightarrow> i = j \<and> n = m"
proof
  assume "inline_owner prefix i n = inline_owner prefix j m"
  then have eq: "dec i @ ''-e'' @ dec n = dec j @ ''-e'' @ dec m" by (simp add: inline_owner_def)
  have cut: "takeWhile (\<lambda>c. c \<noteq> CHR ''-'') (dec k @ ''-e'' @ ys) = dec k" for k ys
    using dec_no_dash [of k] by (simp add: takeWhile_append)
  have "dec i = dec j" using arg_cong [OF eq, of "takeWhile (\<lambda>c. c \<noteq> CHR ''-'')"] by (simp only: cut)
  with eq show "i = j \<and> n = m" by simp
qed simp

end
