(* ===== verification/Acl.thy ===== *)
theory Acl
  imports Interfaces
begin

text \<open>
  The access-control store of \<open>internal/acl\<close>: the \<open>acl_policy\<close> and \<open>acl_entry\<close>
  tables, the full-replace write \<open>SetTx\<close>, the read-back \<open>Get\<close>, the decision
  \<open>Evaluate\<close>, and the SQL expression that pins a policy into a role array (it occurs in
  \<open>projectEventSQL\<close>, \<open>projectSeriesSQL\<close> and \<open>PublishTx\<close>). Role arrays are only ever
  tested for overlap and united, so they are sets of roles. \<open>order by\<close> sorts in the
  database's collation and is the parameter \<open>order_by\<close>.
\<close>

section \<open>Data\<close>

datatype scope = ScopeEvent | ScopeSeries
datatype acl_state = StateAbsent | StateEmpty | StatePopulated

record entry =
  role :: string
  action :: string
  allow :: bool

type_synonym policy_key = "scope \<times> string"

record acl_db =
  acl_policy :: "policy_key list"
  acl_entry :: "(policy_key \<times> entry) list"

datatype acl_error = EmptyRoleOrAction entry

section \<open>Operations\<close>

definition insert_ignore :: "'a \<Rightarrow> 'a list \<Rightarrow> 'a list" where
  "insert_ignore x xs = (if x \<in> set xs then xs else xs @ [x])"

fun insert_entries ::
  "policy_key \<Rightarrow> entry list \<Rightarrow> (policy_key \<times> entry) list
     \<Rightarrow> (acl_error, (policy_key \<times> entry) list) result" where
  "insert_entries k [] rows = Inr rows"
| "insert_entries k (e # es) rows =
     (if role e = [] \<or> action e = [] then Inl (EmptyRoleOrAction e)
      else insert_entries k es (insert_ignore (k, e) rows))"

definition set_tx :: "policy_key \<Rightarrow> entry list \<Rightarrow> acl_db \<Rightarrow> (acl_error, acl_db) result" where
  "set_tx k es db =
     bind_result (insert_entries k es (filter (\<lambda>(k', e). k' \<noteq> k) (acl_entry db))) (\<lambda>rows.
       Inr \<lparr>acl_policy = insert_ignore k (acl_policy db), acl_entry = rows\<rparr>)"

definition entries_of :: "policy_key \<Rightarrow> acl_db \<Rightarrow> entry list" where
  "entries_of k db = map snd (filter (\<lambda>(k', e). k' = k) (acl_entry db))"

definition get_acl ::
  "(entry list \<Rightarrow> entry list) \<Rightarrow> policy_key \<Rightarrow> acl_db \<Rightarrow> entry list \<times> acl_state" where
  "get_acl order_by k db =
     (if k \<notin> set (acl_policy db) then ([], StateAbsent)
      else let out = order_by (entries_of k db)
           in if length out = 0 then ([], StateEmpty) else (out, StatePopulated))"

fun evaluate_loop :: "entry list \<Rightarrow> string list \<Rightarrow> string \<Rightarrow> bool \<Rightarrow> bool" where
  "evaluate_loop [] roles act allowed = allowed"
| "evaluate_loop (e # es) roles act allowed =
     (if action e \<noteq> act \<or> role e \<notin> set roles then evaluate_loop es roles act allowed
      else if \<not> allow e then False
      else evaluate_loop es roles act True)"

definition evaluate :: "entry list \<Rightarrow> acl_state \<Rightarrow> string list \<Rightarrow> string \<Rightarrow> bool" where
  "evaluate es st roles act =
     (if st \<noteq> StatePopulated then False else evaluate_loop es roles act False)"

text \<open>The pin: roles with an allow and no deny of the action; and the state it is stamped with.\<close>

definition pin_roles :: "policy_key \<Rightarrow> string \<Rightarrow> acl_db \<Rightarrow> string set" where
  "pin_roles k act db =
     (let es = entries_of k db
      in set (map role (filter (\<lambda>a. action a = act \<and> allow a \<and>
           \<not> list_ex (\<lambda>d. role d = role a \<and> action d = act \<and> \<not> allow d) es) es)))"

definition state_of :: "policy_key \<Rightarrow> acl_db \<Rightarrow> acl_state" where
  "state_of k db =
     (if k \<notin> set (acl_policy db) then StateAbsent
      else if entries_of k db = [] then StateEmpty else StatePopulated)"

section \<open>Laws\<close>

lemma set_insert_ignore [simp]: "set (insert_ignore x xs) = insert x (set xs)"
  by (auto simp: insert_ignore_def)

lemma distinct_insert_ignore [simp]: "distinct (insert_ignore x xs) = distinct xs"
  by (auto simp: insert_ignore_def)

lemma insert_entries_Inr:
  "insert_entries k es rows = Inr rows' \<Longrightarrow>
     set rows' = set rows \<union> Pair k ` set es \<and> (distinct rows \<longrightarrow> distinct rows') \<and>
     filter (\<lambda>(k', e). k' \<noteq> k) rows' = filter (\<lambda>(k', e). k' \<noteq> k) rows"
proof (induction es arbitrary: rows)
  case (Cons e es)
  have "filter (\<lambda>(k', e). k' \<noteq> k) (insert_ignore (k, e) rows) = filter (\<lambda>(k', e). k' \<noteq> k) rows"
    by (simp add: insert_ignore_def)
  then show ?case
    using Cons.IH [of "insert_ignore (k, e) rows"] Cons.prems by (simp split: if_splits)
qed simp

lemma insert_entries_ok_iff:
  "is_ok (insert_entries k es rows) \<longleftrightarrow> (\<forall>e \<in> set es. role e \<noteq> [] \<and> action e \<noteq> [])"
  by (induction k es rows rule: insert_entries.induct) auto

lemma entries_of_other:
  assumes "filter (\<lambda>(k', e). k' \<noteq> k) rows' = filter (\<lambda>(k', e). k' \<noteq> k) rows" and "j \<noteq> k"
  shows "filter (\<lambda>(k', e). k' = j) rows' = filter (\<lambda>(k', e). k' = j) rows"
proof -
  have "filter (\<lambda>(k', e). k' = j) xs = filter (\<lambda>(k', e). k' = j) (filter (\<lambda>(k', e). k' \<noteq> k) xs)" for xs
    using assms(2) by (auto simp: filter_filter intro: filter_cong)
  then show ?thesis using assms(1) by metis
qed

lemma set_tx_Inr:
  assumes "set_tx k es db = Inr db'"
  shows "set (entries_of k db') = set es" and "k \<in> set (acl_policy db')"
    and "j \<noteq> k \<Longrightarrow> entries_of j db' = entries_of j db"
    and "set (acl_policy db') = insert k (set (acl_policy db))"
    and "distinct (acl_entry db) \<Longrightarrow> distinct (acl_entry db')"
proof -
  obtain rows where ins: "insert_entries k es (filter (\<lambda>(k', e). k' \<noteq> k) (acl_entry db)) = Inr rows"
    and db': "db' = \<lparr>acl_policy = insert_ignore k (acl_policy db), acl_entry = rows\<rparr>"
    using assms by (auto simp: set_tx_def)
  note r = insert_entries_Inr [OF ins]
  show "set (entries_of k db') = set es" 
  proof -
    have "set (filter (\<lambda>(k', e). k' = k) rows) = Pair k ` set es" using r by auto
    then show ?thesis by (simp only: db' entries_of_def acl_db.simps set_map) force
  qed
  show "k \<in> set (acl_policy db')" by (simp add: db')
  show "set (acl_policy db') = insert k (set (acl_policy db))" by (simp add: db')
  show "distinct (acl_entry db) \<Longrightarrow> distinct (acl_entry db')" using r by (simp add: db')
  have "filter (\<lambda>(k', e). k' \<noteq> k) rows = filter (\<lambda>(k', e). k' \<noteq> k) (acl_entry db)"
    using r by (simp add: filter_filter split_def)
  then show "j \<noteq> k \<Longrightarrow> entries_of j db' = entries_of j db"
    using entries_of_other [of k rows "acl_entry db" j] by (simp add: db' entries_of_def)
qed

lemma set_tx_ok_iff: "is_ok (set_tx k es db) \<longleftrightarrow> (\<forall>e \<in> set es. role e \<noteq> [] \<and> action e \<noteq> [])"
  using insert_entries_ok_iff [of k es "filter (\<lambda>(k', e). k' \<noteq> k) (acl_entry db)"]
  by (auto simp: set_tx_def is_ok_iff)

lemma set_empty_iff: "set xs = set ys \<Longrightarrow> xs = [] \<longleftrightarrow> ys = []"
  by (cases xs; cases ys) auto

lemma state_of_set: "set_tx k es db = Inr db' \<Longrightarrow> state_of k db' = (if es = [] then StateEmpty else StatePopulated)"
  using set_tx_Inr(1,2) [of k es db db'] set_empty_iff [of "entries_of k db'" es] by (auto simp: state_of_def)

lemma evaluate_loop_iff:
  "evaluate_loop es roles act allowed \<longleftrightarrow>
     (\<forall>e \<in> set es. action e = act \<and> role e \<in> set roles \<longrightarrow> allow e) \<and>
     (allowed \<or> (\<exists>e \<in> set es. action e = act \<and> role e \<in> set roles))"
  by (induction es roles act allowed rule: evaluate_loop.induct) auto

lemma mem_pin_roles:
  "r \<in> pin_roles k act db \<longleftrightarrow>
     (\<exists>a \<in> set (entries_of k db). role a = r \<and> action a = act \<and> allow a) \<and>
     \<not> (\<exists>d \<in> set (entries_of k db). role d = r \<and> action d = act \<and> \<not> allow d)"
  by (auto simp: pin_roles_def Let_def list_ex_iff)

lemma pin_roles_cong: "set (entries_of k db) = set (entries_of k db') \<Longrightarrow> pin_roles k act db = pin_roles k act db'"
  by (auto simp: mem_pin_roles)

lemma state_of_not_populated: "state_of k db \<noteq> StatePopulated \<Longrightarrow> entries_of k db = [] \<or> k \<notin> set (acl_policy db)"
  by (auto simp: state_of_def split: if_splits)


section \<open>The policy store as an overwrite store\<close>

definition policy_of :: "policy_key \<Rightarrow> acl_db \<Rightarrow> entry set option" where
  "policy_of k db = (if k \<in> set (acl_policy db) then Some (set (entries_of k db)) else None)"

interpretation acl: overwrite_store set_tx set policy_of
proof unfold_locales
  fix k j es and db db' :: acl_db
  assume ok: "set_tx k es db = Inr db'"
  show "policy_of k db' = Some (set es)" using set_tx_Inr(1,2) [OF ok] by (simp add: policy_of_def)
  show "j \<noteq> k \<Longrightarrow> policy_of j db' = policy_of j db"
    using set_tx_Inr(3,4) [OF ok] by (simp add: policy_of_def)
qed

text \<open>Policies round-trip by full replacement: after any sequence of accepted writes, reading a
  scope back yields exactly the rules of its last write, allows and denies alike and each once, and
  the state tells a policy that was never set from an empty one; a rule with an empty role or action
  rejects the whole write.\<close>

theorem acl_last_write_read_back:
  assumes "write_all set_tx ws \<lparr>acl_policy = [], acl_entry = []\<rparr> = Inr db"
    and "\<And>xs. mset (order_by xs) = mset xs"
  shows "(case last_write k ws of
      None \<Rightarrow> get_acl order_by k db = ([], StateAbsent)
    | Some es \<Rightarrow> set (fst (get_acl order_by k db)) = set es \<and> distinct (fst (get_acl order_by k db)) \<and>
        snd (get_acl order_by k db) = (if es = [] then StateEmpty else StatePopulated)) \<and>
    (is_ok (set_tx k es' db) \<longleftrightarrow> list_all (\<lambda>e. role e \<noteq> [] \<and> action e \<noteq> []) es')"
proof (intro conjI)
  have dist: "write_all set_tx ws' s = Inr db' \<Longrightarrow> distinct (acl_entry s) \<Longrightarrow> distinct (acl_entry db')" for ws' s db'
    by (induction set_tx ws' s rule: write_all.induct) (auto dest: set_tx_Inr(5))
  have d: "distinct (acl_entry db)" using dist [OF assms(1)] by simp
  then have de: "distinct (entries_of k db)"
    by (force simp: entries_of_def distinct_map inj_on_def)
  have ord: "set (order_by xs) = set xs" "distinct (order_by xs) = distinct xs" for xs :: "entry list"
    using assms(2) [of xs] by (auto dest: mset_eq_setD mset_eq_imp_distinct_iff)
  show "case last_write k ws of
      None \<Rightarrow> get_acl order_by k db = ([], StateAbsent)
    | Some es \<Rightarrow> set (fst (get_acl order_by k db)) = set es \<and> distinct (fst (get_acl order_by k db)) \<and>
        snd (get_acl order_by k db) = (if es = [] then StateEmpty else StatePopulated)"
  proof (cases "last_write k ws")
    case None
    then have "policy_of k db = None" using acl.look_last_write [OF assms(1), of k] by (simp add: policy_of_def)
    then show ?thesis using None by (simp add: policy_of_def get_acl_def split: if_splits)
  next
    case (Some es)
    then have "policy_of k db = Some (set es)" using acl.look_last_write [OF assms(1), of k] by simp
    then have k: "k \<in> set (acl_policy db)" and es: "set (entries_of k db) = set es"
      by (auto simp: policy_of_def split: if_splits)
    then show ?thesis
      using Some ord de set_empty_iff [of "order_by (entries_of k db)" es]
      by (auto simp: get_acl_def Let_def)
  qed
  show "is_ok (set_tx k es' db) \<longleftrightarrow> list_all (\<lambda>e. role e \<noteq> [] \<and> action e \<noteq> []) es'"
    by (simp add: set_tx_ok_iff list_all_iff)
qed

definition demo_entry :: "string \<Rightarrow> bool \<Rightarrow> entry" where
  "demo_entry r a = \<lparr>role = r, action = ''read'', allow = a\<rparr>"

section \<open>The decision\<close>

lemma evaluate_deny_iff:
  "evaluate es st roles act \<longleftrightarrow>
     st = StatePopulated \<and>
     (\<exists>e \<in> set es. action e = act \<and> role e \<in> set roles \<and> allow e) \<and>
     \<not> (\<exists>e \<in> set es. action e = act \<and> role e \<in> set roles \<and> \<not> allow e)"
  by (auto simp: evaluate_def evaluate_loop_iff)

text \<open>C8: Deny vetoes, independently of the order rules are read in: \<open>Evaluate\<close> grants exactly when
  the policy is populated, some held role is allowed the action and no held role is denied it; ABSENT
  and EMPTY policies grant nothing.\<close>

theorem evaluate_deny_vetoes:
  "evaluate es st roles act \<longleftrightarrow>
     st = StatePopulated \<and>
     (\<exists>e \<in> set es. action e = act \<and> role e \<in> set roles \<and> allow e) \<and>
     \<not> (\<exists>e \<in> set es. action e = act \<and> role e \<in> set roles \<and> \<not> allow e)"
  by (rule evaluate_deny_iff)

lemma pin_overlap_iff:
  "(\<exists>r \<in> set roles. r \<in> pin_roles k act db) \<longleftrightarrow>
      (\<exists>r \<in> set roles. evaluate (entries_of k db) StatePopulated [r] act)"
proof -
  have "r \<in> pin_roles k act db \<longleftrightarrow> evaluate (entries_of k db) StatePopulated [r] act" for r
    unfolding mem_pin_roles evaluate_deny_iff by auto
  then show ?thesis by simp
qed

lemma evaluate_pin_iff:
  "evaluate (entries_of k db) StatePopulated roles act \<longleftrightarrow>
      (\<exists>r \<in> set roles. r \<in> pin_roles k act db) \<and>
      \<not> (\<exists>e \<in> set (entries_of k db). action e = act \<and> role e \<in> set roles \<and> \<not> allow e)"
  (is "_ \<longleftrightarrow> ?pin \<and> \<not> ?veto")
proof (cases ?veto)
  case False
  have "?pin \<longleftrightarrow> (\<exists>e \<in> set (entries_of k db). action e = act \<and> role e \<in> set roles \<and> allow e)"
  proof
    assume ?pin
    then obtain r where "r \<in> set roles" "r \<in> pin_roles k act db" by blast
    then show "\<exists>e \<in> set (entries_of k db). action e = act \<and> role e \<in> set roles \<and> allow e"
      unfolding mem_pin_roles by blast
  next
    assume "\<exists>e \<in> set (entries_of k db). action e = act \<and> role e \<in> set roles \<and> allow e"
    then obtain e where e: "e \<in> set (entries_of k db)" "action e = act" "role e \<in> set roles" "allow e" by blast
    have "role e \<in> pin_roles k act db"
      unfolding mem_pin_roles using e False by (intro conjI) (blast, metis)
    with e(3) show ?pin by blast
  qed
  then show ?thesis using False by (simp add: evaluate_deny_iff)
qed (simp add: evaluate_deny_iff)

lemma pin_grants_denied:
  "let db = \<lparr>acl_policy = [(ScopeEvent, ''e'')],
             acl_entry = [((ScopeEvent, ''e''), demo_entry ''A'' True), ((ScopeEvent, ''e''), demo_entry ''B'' False)]\<rparr>
   in ''A'' \<in> pin_roles (ScopeEvent, ''e'') ''read'' db \<and>
      \<not> evaluate (entries_of (ScopeEvent, ''e'') db) (state_of (ScopeEvent, ''e'') db) [''A'', ''B''] ''read''"
  by code_simp

text \<open>The pin against the decision: a principal's roles overlap the pinned array exactly when some
  single role of it would be granted by \<open>Evaluate\<close>; so \<open>Evaluate\<close> grants exactly when the pin
  overlaps and no role of the principal is denied, and for a principal with an allowed and a denied
  role the pin grants what \<open>Evaluate\<close> refuses.\<close>

theorem pin_against_evaluate:
  "((\<exists>r \<in> set roles. r \<in> pin_roles k act db) \<longleftrightarrow>
      (\<exists>r \<in> set roles. evaluate (entries_of k db) StatePopulated [r] act)) \<and>
   (evaluate (entries_of k db) StatePopulated roles act \<longleftrightarrow>
      (\<exists>r \<in> set roles. r \<in> pin_roles k act db) \<and>
      \<not> (\<exists>e \<in> set (entries_of k db). action e = act \<and> role e \<in> set roles \<and> \<not> allow e)) \<and>
   (let db = \<lparr>acl_policy = [(ScopeEvent, ''e'')],
              acl_entry = [((ScopeEvent, ''e''), demo_entry ''A'' True), ((ScopeEvent, ''e''), demo_entry ''B'' False)]\<rparr>
    in ''A'' \<in> pin_roles (ScopeEvent, ''e'') ''read'' db \<and>
       \<not> evaluate (entries_of (ScopeEvent, ''e'') db) (state_of (ScopeEvent, ''e'') db) [''A'', ''B''] ''read'')"
  by (rule conjI [OF pin_overlap_iff conjI [OF evaluate_pin_iff pin_grants_denied]])

end
