(* ===== verification/Catalog.thy ===== *)
theory Catalog
  imports Acl "HOL-Library.AList"
begin

text \<open>
  The stored model and its search projection: the tables of
  \<open>internal/mediapackage/schema.sql\<close> and \<open>internal/search/schema.sql\<close> as association
  lists from primary key to row, every write of \<open>internal/mediapackage\<close> (\<open>metadata.go\<close>,
  \<open>write.go\<close>, \<open>InsertElement\<close>) and the projection of \<open>internal/search/project.go\<close> that each
  write refreshes in its own transaction. A transaction that fails is an \<open>Inl\<close> and leaves nothing.

  Ids are the canonical text of their uuids. The \<open>fts\<close> column is represented by the text it
  indexes. Columns that only record when a row was written are left out, except \<open>deleted_at\<close>
  and the element's \<open>created_at\<close>, which the code reads.
\<close>

section \<open>Rows\<close>

record mp_row =
  mp_title :: "string option"
  mp_start :: "int option"
  mp_duration :: "int option"
  mp_series :: "string option"
  mp_deleted :: "int option"

record md_row =
  md_creators :: "string list"
  md_contributors :: "string list"
  md_language :: "string option"
  md_description :: "string option"
  md_subjects :: "string list"
  md_location :: "string option"
  md_license :: "string option"
  md_created :: "int option"
  md_status :: "string option"

record series_row =
  s_title :: "string option"
  s_contributors :: "string list"
  s_organizers :: "string list"
  s_language :: "string option"
  s_description :: "string option"
  s_subjects :: "string list"
  s_created :: "int option"
  s_deleted :: "int option"

record pub_row =
  pub_id :: string
  pub_acl_read :: "string set"
  pub_acl_state :: acl_state

record element_row =
  el_mp :: string
  el_kind :: string
  el_flavor :: string
  el_mimetype :: "string option"
  el_sha256 :: string
  el_size :: int
  el_source :: "string option"
  el_created_at :: int

record snapshot_row =
  sn_mp :: string
  sn_version :: nat
  sn_manifest :: string
  sn_source :: "string option"

record event_row =
  se_title :: "string option"
  se_series :: "string option"
  se_series_title :: "string option"
  se_status :: "string option"
  se_presenters :: "string list"
  se_contributors :: "string list"
  se_location :: "string option"
  se_language :: "string option"
  se_description :: "string option"
  se_subjects :: "string list"
  se_license :: "string option"
  se_start :: "int option"
  se_created :: "int option"
  se_duration :: "int option"
  se_acl_state :: acl_state
  se_acl_read :: "string set"
  se_acl_write :: "string set"
  se_published :: bool
  se_pub_read :: "string set"
  se_text :: string

record listed_series =
  ss_title :: "string option"
  ss_contributors :: "string list"
  ss_organizers :: "string list"
  ss_language :: "string option"
  ss_description :: "string option"
  ss_subjects :: "string list"
  ss_created :: "int option"
  ss_acl_state :: acl_state
  ss_acl_read :: "string set"
  ss_acl_write :: "string set"
  ss_pub_read :: "string set"
  ss_has_published :: bool
  ss_text :: string

record catalog =
  c_now :: int
  c_acl :: acl_db
  c_mp :: "(string \<times> mp_row) list"
  c_md :: "(string \<times> md_row) list"
  c_series :: "(string \<times> series_row) list"
  c_pub :: "((string \<times> string) \<times> pub_row) list"
  c_pubel :: "(string \<times> string) list"
  c_el :: "(string \<times> element_row) list"
  c_tag :: "(string \<times> string) list"
  c_snap :: "snapshot_row list"
  c_se :: "(string \<times> event_row) list"
  c_ss :: "(string \<times> listed_series) list"

datatype cat_error =
    NoRows
  | ForeignKey
  | UniqueViolation
  | AclRejected acl_error

definition map_error :: "('e \<Rightarrow> 'f) \<Rightarrow> ('e, 'a) result \<Rightarrow> ('f, 'a) result" where
  "map_error f r = (case r of Inl e \<Rightarrow> Inl (f e) | Inr a \<Rightarrow> Inr a)"

section \<open>The projection\<close>

definition text_of :: "string option \<Rightarrow> string" where
  "text_of t = (case t of None \<Rightarrow> [] | Some x \<Rightarrow> x)"

fun join_with :: "string \<Rightarrow> string list \<Rightarrow> string" where
  "join_with sep [] = []"
| "join_with sep [x] = x"
| "join_with sep (x # y # zs) = x @ sep @ join_with sep (y # zs)"

definition no_md :: md_row where
  "no_md = \<lparr>md_creators = [], md_contributors = [], md_language = None, md_description = None,
     md_subjects = [], md_location = None, md_license = None, md_created = None, md_status = None\<rparr>"

text \<open>A left join on \<open>mp_metadata\<close> with the \<open>coalesce(.., '{}')\<close> of its array columns.\<close>

definition md_of :: "catalog \<Rightarrow> string \<Rightarrow> md_row" where
  "md_of c i = (case map_of (c_md c) i of None \<Rightarrow> no_md | Some md \<Rightarrow> md)"

definition series_title_of :: "catalog \<Rightarrow> string option \<Rightarrow> string option" where
  "series_title_of c sid =
     (case sid of None \<Rightarrow> None | Some s \<Rightarrow>
        (case map_of (c_series c) s of None \<Rightarrow> None | Some r \<Rightarrow> s_title r))"

definition engage_player :: string where
  "engage_player = ''engage-player''"

definition published :: "catalog \<Rightarrow> string \<Rightarrow> bool" where
  "published c i = list_ex (\<lambda>((mp, ch), r). mp = i) (c_pub c)"

definition engage_pin :: "catalog \<Rightarrow> string \<Rightarrow> string set" where
  "engage_pin c i =
     (case map_of (c_pub c) (i, engage_player) of None \<Rightarrow> {} | Some p \<Rightarrow> pub_acl_read p)"

definition event_row_of :: "catalog \<Rightarrow> string \<Rightarrow> mp_row \<Rightarrow> event_row" where
  "event_row_of c i m =
     (let md = md_of c i; st = series_title_of c (mp_series m); k = (ScopeEvent, i)
      in \<lparr>se_title = mp_title m, se_series = mp_series m, se_series_title = st,
          se_status = md_status md, se_presenters = md_creators md,
          se_contributors = md_contributors md, se_location = md_location md,
          se_language = md_language md, se_description = md_description md,
          se_subjects = md_subjects md, se_license = md_license md,
          se_start = (case mp_start m of None \<Rightarrow> md_created md | Some t \<Rightarrow> Some t),
          se_created = md_created md, se_duration = mp_duration m,
          se_acl_state = state_of k (c_acl c),
          se_acl_read = pin_roles k ''read'' (c_acl c),
          se_acl_write = pin_roles k ''write'' (c_acl c),
          se_published = published c i, se_pub_read = engage_pin c i,
          se_text = text_of (mp_title m) @ '' '' @ join_with '' '' (md_creators md) @ '' '' @
            join_with '' '' (md_contributors md) @ '' '' @ text_of (md_description md) @ '' '' @
            join_with '' '' (md_subjects md) @ '' '' @ text_of (md_location md) @ '' '' @
            text_of st\<rparr>)"

text \<open>\<open>projectEventSQL\<close>: insert .. select .. on conflict do update.\<close>

definition project_event_row :: "string \<Rightarrow> catalog \<Rightarrow> catalog" where
  "project_event_row i c =
     (case map_of (c_mp c) i of
        None \<Rightarrow> c
      | Some m \<Rightarrow> c\<lparr>c_se := AList.update i (event_row_of c i m) (c_se c)\<rparr>)"

definition member_published :: "string \<Rightarrow> string \<times> event_row \<Rightarrow> bool" where
  "member_published sid er = (se_series (snd er) = Some sid \<and> se_published (snd er))"

definition series_pins :: "(string \<times> event_row) list \<Rightarrow> string \<Rightarrow> string set" where
  "series_pins se sid = \<Union> (set (map (\<lambda>er. se_pub_read (snd er)) (filter (member_published sid) se)))"

definition listed_series_of :: "catalog \<Rightarrow> string \<Rightarrow> series_row \<Rightarrow> listed_series" where
  "listed_series_of c sid s =
     (let k = (ScopeSeries, sid)
      in \<lparr>ss_title = s_title s, ss_contributors = s_contributors s, ss_organizers = s_organizers s,
          ss_language = s_language s, ss_description = s_description s,
          ss_subjects = s_subjects s, ss_created = s_created s,
          ss_acl_state = state_of k (c_acl c),
          ss_acl_read = pin_roles k ''read'' (c_acl c),
          ss_acl_write = pin_roles k ''write'' (c_acl c),
          ss_pub_read = series_pins (c_se c) sid,
          ss_has_published = list_ex (member_published sid) (c_se c),
          ss_text = text_of (s_title s) @ '' '' @ join_with '' '' (s_contributors s) @ '' '' @
            join_with '' '' (s_organizers s) @ '' '' @ text_of (s_description s) @ '' '' @
            join_with '' '' (s_subjects s)\<rparr>)"

text \<open>\<open>projectSeriesSQL\<close>.\<close>

definition project_series_row :: "string \<Rightarrow> catalog \<Rightarrow> catalog" where
  "project_series_row sid c =
     (case map_of (c_series c) sid of
        None \<Rightarrow> c
      | Some s \<Rightarrow> c\<lparr>c_ss := AList.update sid (listed_series_of c sid s) (c_ss c)\<rparr>)"

text \<open>The unexported \<open>projectSeries\<close>: a tombstoned or vanished series has no row.\<close>

definition refresh_series :: "string \<Rightarrow> catalog \<Rightarrow> catalog" where
  "refresh_series sid c =
     (case map_of (c_series c) sid of
        None \<Rightarrow> c\<lparr>c_ss := AList.delete sid (c_ss c)\<rparr>
      | Some s \<Rightarrow>
          (if s_deleted s \<noteq> None then c\<lparr>c_ss := AList.delete sid (c_ss c)\<rparr>
           else project_series_row sid c))"

definition project_event :: "string \<Rightarrow> catalog \<Rightarrow> (cat_error, catalog) result" where
  "project_event i c =
     (case map_of (c_mp c) i of
        None \<Rightarrow> Inl NoRows
      | Some m \<Rightarrow>
          (let c1 = (if mp_deleted m \<noteq> None then c\<lparr>c_se := AList.delete i (c_se c)\<rparr>
                     else project_event_row i c)
           in Inr (case mp_series m of None \<Rightarrow> c1 | Some sid \<Rightarrow> refresh_series sid c1)))"

definition live_members :: "string \<Rightarrow> catalog \<Rightarrow> string list" where
  "live_members sid c =
     map fst (filter (\<lambda>(i, m). mp_series m = Some sid \<and> mp_deleted m = None) (c_mp c))"

definition project_series :: "string \<Rightarrow> catalog \<Rightarrow> catalog" where
  "project_series sid c = refresh_series sid (fold project_event_row (live_members sid c) c)"

definition rebuild :: "catalog \<Rightarrow> catalog" where
  "rebuild c =
     (let c0 = c\<lparr>c_se := [], c_ss := []\<rparr>;
          c1 = fold project_event_row (map fst (filter (\<lambda>(i, m). mp_deleted m = None) (c_mp c))) c0
      in fold project_series_row (map fst (filter (\<lambda>(i, s). s_deleted s = None) (c_series c))) c1)"

section \<open>Writes\<close>

definition set_acl_event :: "string \<Rightarrow> entry list \<Rightarrow> catalog \<Rightarrow> (cat_error, catalog) result" where
  "set_acl_event i es c =
     bind_result (map_error AclRejected (set_tx (ScopeEvent, i) es (c_acl c)))
       (\<lambda>a. project_event i (c\<lparr>c_acl := a\<rparr>))"

definition set_acl_series :: "string \<Rightarrow> entry list \<Rightarrow> catalog \<Rightarrow> (cat_error, catalog) result" where
  "set_acl_series sid es c =
     bind_result (map_error AclRejected (set_tx (ScopeSeries, sid) es (c_acl c)))
       (\<lambda>a. Inr (project_series sid (c\<lparr>c_acl := a\<rparr>)))"

definition set_acl :: "scope \<Rightarrow> string \<Rightarrow> entry list \<Rightarrow> catalog \<Rightarrow> (cat_error, catalog) result" where
  "set_acl sc i es c =
     (case sc of ScopeEvent \<Rightarrow> set_acl_event i es c | ScopeSeries \<Rightarrow> set_acl_series i es c)"

fun set_all_tx :: "string list \<Rightarrow> entry list \<Rightarrow> acl_db \<Rightarrow> (acl_error, acl_db) result" where
  "set_all_tx [] es a = Inr a"
| "set_all_tx (i # ids) es a =
     bind_result (set_tx (ScopeEvent, i) es a) (set_all_tx ids es)"

definition set_series_acl ::
  "string \<Rightarrow> entry list \<Rightarrow> bool \<Rightarrow> catalog \<Rightarrow> (cat_error, catalog) result" where
  "set_series_acl sid es override c =
     bind_result (map_error AclRejected (set_tx (ScopeSeries, sid) es (c_acl c))) (\<lambda>a.
     bind_result (map_error AclRejected
         (if override then set_all_tx (live_members sid c) es a else Inr a)) (\<lambda>a'.
       Inr (project_series sid (c\<lparr>c_acl := a'\<rparr>))))"

definition null_if_empty :: "string \<Rightarrow> string option" where
  "null_if_empty s = (if s = [] then None else Some s)"

record metadata =
  m_creators :: "string list"
  m_contributors :: "string list"
  m_language :: string
  m_description :: string
  m_subjects :: "string list"
  m_location :: string
  m_license :: string
  m_created :: "int option"
  m_series :: string
  m_status :: string

definition md_row_of :: "metadata \<Rightarrow> md_row" where
  "md_row_of md =
     \<lparr>md_creators = m_creators md, md_contributors = m_contributors md,
      md_language = null_if_empty (m_language md), md_description = null_if_empty (m_description md),
      md_subjects = m_subjects md, md_location = null_if_empty (m_location md),
      md_license = null_if_empty (m_license md), md_created = m_created md,
      md_status = null_if_empty (m_status md)\<rparr>"

definition series_known :: "catalog \<Rightarrow> string option \<Rightarrow> bool" where
  "series_known c sid = (case sid of None \<Rightarrow> True | Some s \<Rightarrow> map_of (c_series c) s \<noteq> None)"

definition set_metadata :: "string \<Rightarrow> metadata \<Rightarrow> catalog \<Rightarrow> (cat_error, catalog) result" where
  "set_metadata i md c =
     (case map_of (c_mp c) i of
        None \<Rightarrow> Inl ForeignKey
      | Some m \<Rightarrow>
          (let sid = null_if_empty (m_series md)
           in if \<not> series_known c sid then Inl ForeignKey
              else project_event i (c\<lparr>c_md := AList.update i (md_row_of md) (c_md c),
                     c_mp := AList.update i (m\<lparr>mp_series := sid\<rparr>) (c_mp c)\<rparr>)))"

definition set_event_dc ::
  "string \<Rightarrow> string \<Rightarrow> int option \<Rightarrow> metadata \<Rightarrow> catalog \<Rightarrow> (cat_error, catalog) result" where
  "set_event_dc i title start md c =
     (let sid = null_if_empty (m_series md)
      in case map_of (c_mp c) i of
           None \<Rightarrow> Inl ForeignKey
         | Some m \<Rightarrow>
             (if mp_deleted m = None \<and> \<not> series_known c sid then Inl ForeignKey
              else project_event i (c\<lparr>c_md := AList.update i (md_row_of md) (c_md c),
                     c_mp := (if mp_deleted m = None
                              then AList.update i (m\<lparr>mp_title := null_if_empty title,
                                     mp_start := start, mp_series := sid\<rparr>) (c_mp c)
                              else c_mp c)\<rparr>)))"

definition get_event_dc ::
  "string \<Rightarrow> catalog \<Rightarrow> (cat_error, string \<times> int option \<times> metadata) result" where
  "get_event_dc i c =
     (case map_of (c_mp c) i of
        None \<Rightarrow> Inl NoRows
      | Some m \<Rightarrow>
          (if mp_deleted m \<noteq> None then Inl NoRows
           else let md = md_of c i
             in Inr (text_of (mp_title m), mp_start m,
                  \<lparr>m_creators = md_creators md, m_contributors = md_contributors md,
                   m_language = text_of (md_language md), m_description = text_of (md_description md),
                   m_subjects = md_subjects md, m_location = text_of (md_location md),
                   m_license = text_of (md_license md), m_created = md_created md,
                   m_series = text_of (mp_series m), m_status = text_of (md_status md)\<rparr>)))"

record series_metadata =
  sm_title :: string
  sm_contributors :: "string list"
  sm_organizers :: "string list"
  sm_language :: string
  sm_description :: string
  sm_subjects :: "string list"
  sm_created :: "int option"

definition put_series :: "string \<Rightarrow> series_metadata \<Rightarrow> catalog \<Rightarrow> catalog" where
  "put_series sid md c =
     project_series sid (c\<lparr>c_series := AList.update sid
       \<lparr>s_title = null_if_empty (sm_title md), s_contributors = sm_contributors md,
        s_organizers = sm_organizers md, s_language = null_if_empty (sm_language md),
        s_description = null_if_empty (sm_description md), s_subjects = sm_subjects md,
        s_created = sm_created md,
        s_deleted = (case map_of (c_series c) sid of None \<Rightarrow> None | Some r \<Rightarrow> s_deleted r)\<rparr>
       (c_series c)\<rparr>)"

definition get_series_dc :: "string \<Rightarrow> catalog \<Rightarrow> series_metadata option" where
  "get_series_dc sid c =
     (case map_of (c_series c) sid of
        None \<Rightarrow> None
      | Some r \<Rightarrow>
          (if s_deleted r \<noteq> None then None
           else Some \<lparr>sm_title = text_of (s_title r), sm_contributors = s_contributors r,
                  sm_organizers = s_organizers r, sm_language = text_of (s_language r),
                  sm_description = text_of (s_description r), sm_subjects = s_subjects r,
                  sm_created = s_created r\<rparr>))"

text \<open>\<open>PublishTx\<close>; \<open>pid\<close> is the fresh uuid, kept only when the row is new.\<close>

definition publish_tx ::
  "string \<Rightarrow> string \<Rightarrow> string \<Rightarrow> catalog \<Rightarrow> (cat_error, string \<times> catalog) result" where
  "publish_tx pid i channel c =
     (if map_of (c_mp c) i = None then Inl ForeignKey
      else let k = (ScopeEvent, i);
               pid' = (case map_of (c_pub c) (i, channel) of None \<Rightarrow> pid | Some p \<Rightarrow> pub_id p)
        in Inr (pid', c\<lparr>c_pub := AList.update (i, channel)
              \<lparr>pub_id = pid', pub_acl_read = pin_roles k ''read'' (c_acl c),
               pub_acl_state = state_of k (c_acl c)\<rparr> (c_pub c)\<rparr>))"

definition publish :: "string \<Rightarrow> string \<Rightarrow> string \<Rightarrow> catalog \<Rightarrow> (cat_error, catalog) result" where
  "publish pid i channel c = bind_result (publish_tx pid i channel c) (\<lambda>(p, c'). project_event i c')"

text \<open>
  \<open>TombstoneEvent\<close>: mark the row, drop the publications (\<open>publication_element\<close> cascades), then
  tags, elements and snapshots. Another event's publication still holding one of the elements makes
  the element delete violate its foreign key.
\<close>

definition elements_held :: "string \<Rightarrow> catalog \<Rightarrow> string list" where
  "elements_held i c = map fst (filter (\<lambda>(e, r). el_mp r = i) (c_el c))"

definition retracted_pubs :: "string \<Rightarrow> catalog \<Rightarrow> string list" where
  "retracted_pubs i c = map (\<lambda>(k, r). pub_id r) (filter (\<lambda>((mp, ch), r). mp = i) (c_pub c))"

definition remaining_pubel :: "string \<Rightarrow> catalog \<Rightarrow> (string \<times> string) list" where
  "remaining_pubel i c = filter (\<lambda>(p, e). p \<notin> set (retracted_pubs i c)) (c_pubel c)"

definition retract_event :: "string \<Rightarrow> mp_row \<Rightarrow> catalog \<Rightarrow> catalog" where
  "retract_event i m c =
     c\<lparr>c_mp := AList.update i (m\<lparr>mp_deleted := Some (c_now c)\<rparr>) (c_mp c),
       c_pub := filter (\<lambda>((mp, ch), r). mp \<noteq> i) (c_pub c),
       c_pubel := remaining_pubel i c,
       c_tag := filter (\<lambda>(e, t). e \<notin> set (elements_held i c)) (c_tag c),
       c_el := filter (\<lambda>(e, r). el_mp r \<noteq> i) (c_el c),
       c_snap := filter (\<lambda>s. sn_mp s \<noteq> i) (c_snap c)\<rparr>"

definition tombstone_event :: "string \<Rightarrow> catalog \<Rightarrow> (cat_error, bool \<times> catalog) result" where
  "tombstone_event i c =
     (case map_of (c_mp c) i of
        None \<Rightarrow> Inr (False, c)
      | Some m \<Rightarrow>
          (if mp_deleted m \<noteq> None then Inr (False, c)
           else if list_ex (\<lambda>(p, e). e \<in> set (elements_held i c)) (remaining_pubel i c) then Inl ForeignKey
           else bind_result (project_event i (retract_event i m c)) (\<lambda>c'. Inr (True, c'))))"

definition tombstone_series :: "string \<Rightarrow> catalog \<Rightarrow> bool \<times> catalog" where
  "tombstone_series sid c =
     (case map_of (c_series c) sid of
        None \<Rightarrow> (False, c)
      | Some s \<Rightarrow>
          (if s_deleted s \<noteq> None then (False, c)
           else (True, project_series sid (c\<lparr>c_series :=
                   AList.update sid (s\<lparr>s_deleted := Some (c_now c)\<rparr>) (c_series c)\<rparr>))))"

text \<open>The first transaction of \<open>Materialise\<close>: the mediapackage row and its projection.\<close>

definition materialise_row ::
  "string \<Rightarrow> string \<Rightarrow> int option \<Rightarrow> int \<Rightarrow> catalog \<Rightarrow> (cat_error, catalog) result" where
  "materialise_row i title start duration c =
     project_event i (if map_of (c_mp c) i \<noteq> None then c
       else c\<lparr>c_mp := c_mp c @ [(i, \<lparr>mp_title = null_if_empty title, mp_start = start,
              mp_duration = (if duration = 0 then None else Some duration),
              mp_series = None, mp_deleted = None\<rparr>)]\<rparr>)"

definition insert_element ::
  "string \<Rightarrow> element_row \<Rightarrow> string list \<Rightarrow> bool \<Rightarrow> catalog \<Rightarrow> (cat_error, catalog) result" where
  "insert_element i el tags idempotent c =
     (if map_of (c_el c) i \<noteq> None \<and> \<not> idempotent then Inl UniqueViolation
      else if map_of (c_el c) i = None \<and> map_of (c_mp c) (el_mp el) = None then Inl ForeignKey
      else Inr (c\<lparr>c_el := (if map_of (c_el c) i = None then c_el c @ [(i, el)] else c_el c),
                 c_tag := fold (\<lambda>t ts. insert_ignore (i, t) ts) tags (c_tag c)\<rparr>))"

definition elements_of ::
  "((string \<times> element_row) list \<Rightarrow> (string \<times> element_row) list) \<Rightarrow> string \<Rightarrow> catalog
     \<Rightarrow> (string \<times> element_row) list" where
  "elements_of order_by i c = order_by (filter (\<lambda>(e, r). el_mp r = i) (c_el c))"

definition element_tags :: "(string list \<Rightarrow> string list) \<Rightarrow> string \<Rightarrow> catalog \<Rightarrow> string \<Rightarrow> string list" where
  "element_tags order_by i c e =
     (case map_of (c_el c) e of
        None \<Rightarrow> []
      | Some r \<Rightarrow> if el_mp r = i then order_by (map snd (filter (\<lambda>(x, t). x = e) (c_tag c))) else [])"

definition get_element :: "string \<Rightarrow> catalog \<Rightarrow> (cat_error, element_row) result" where
  "get_element i c = (case map_of (c_el c) i of None \<Rightarrow> Inl NoRows | Some r \<Rightarrow> Inr r)"

text \<open>\<open>FlavorMatches\<close>: \<open>strings.SplitN(.., "/", 2)\<close> is a cut at the first slash.\<close>

definition flavor_matches :: "string \<Rightarrow> string \<Rightarrow> bool" where
  "flavor_matches pattern flavor =
     (case (cut_at CHR ''/'' pattern, cut_at CHR ''/'' flavor) of
        ((p0, p1, pok), (f0, f1, fok)) \<Rightarrow>
          (if \<not> pok \<or> \<not> fok then pattern = flavor
           else (p0 = ''*'' \<or> p0 = f0) \<and> (p1 = ''*'' \<or> p1 = f1)))"

end
