(* ===== verification/CatalogProps.thy ===== *)
theory CatalogProps
  imports Catalog
begin

text \<open>
  The projection against the authoritative tables: what a row of either listing must be
  (\<open>derived_event\<close>, \<open>derived_series\<close>), the proof that every write of \<open>Catalog\<close> keeps both
  listings in step with them, and the one kind of write that does not: moving a published event
  out of a series.
\<close>

section \<open>What the listings should hold\<close>

definition derived_event :: "catalog \<Rightarrow> string \<Rightarrow> event_row option" where
  "derived_event c i =
     (case map_of (c_mp c) i of
        None \<Rightarrow> None
      | Some m \<Rightarrow> if mp_deleted m = None then Some (event_row_of c i m) else None)"

definition derived_series :: "catalog \<Rightarrow> string \<Rightarrow> listed_series option" where
  "derived_series c s =
     (case map_of (c_series c) s of
        None \<Rightarrow> None
      | Some r \<Rightarrow> if s_deleted r = None then Some (listed_series_of c s r) else None)"

definition keys_ok :: "catalog \<Rightarrow> bool" where
  "keys_ok c =
     (distinct (map fst (c_mp c)) \<and> distinct (map fst (c_series c)) \<and>
      distinct (map fst (c_se c)) \<and> distinct (map fst (c_ss c)))"

definition in_sync :: "catalog \<Rightarrow> bool" where
  "in_sync c =
     (keys_ok c \<and> (\<forall>i. map_of (c_se c) i = derived_event c i) \<and>
      (\<forall>s. map_of (c_ss c) s = derived_series c s))"

text \<open>The members of a series as \<open>projectSeriesSQL\<close> sees them.\<close>

definition members :: "(string \<Rightarrow> event_row option) \<Rightarrow> string \<Rightarrow> event_row set" where
  "members f s = {r. \<exists>i. f i = Some r \<and> se_series r = Some s \<and> se_published r}"

lemma members_list:
  assumes "distinct (map fst se)"
  shows "snd ` set (filter (member_published s) se) = members (map_of se) s"
  using assms by (force simp: members_def member_published_def map_of_eq_Some_iff image_iff)

lemma series_pins_members:
  "distinct (map fst se) \<Longrightarrow> series_pins se s = \<Union> (se_pub_read ` members (map_of se) s)"
  using members_list [of se s] by (simp add: series_pins_def image_image [symmetric])

lemma has_published_members:
  "distinct (map fst se) \<Longrightarrow> list_ex (member_published s) se \<longleftrightarrow> members (map_of se) s \<noteq> {}"
  using members_list [of se s] by (auto simp: list_ex_iff)

section \<open>Frames\<close>

lemma event_row_of_frame [simp]:
  "event_row_of (c\<lparr>c_se := x\<rparr>) i m = event_row_of c i m"
  "event_row_of (c\<lparr>c_ss := y\<rparr>) i m = event_row_of c i m"
  by (simp_all add: event_row_of_def md_of_def series_title_of_def published_def engage_pin_def
      split: option.split)

lemma derived_event_frame [simp]:
  "derived_event (c\<lparr>c_se := x\<rparr>) = derived_event c"
  "derived_event (c\<lparr>c_ss := y\<rparr>) = derived_event c"
  by (auto simp: derived_event_def fun_eq_iff split: option.split)

lemma derived_series_ss [simp]: "derived_series (c\<lparr>c_ss := y\<rparr>) = derived_series c"
  by (auto simp: derived_series_def listed_series_of_def fun_eq_iff split: option.split)

lemma se_series_row [simp]: "se_series (event_row_of c i m) = mp_series m"
  by (simp add: event_row_of_def Let_def)

lemma se_published_row [simp]: "se_published (event_row_of c i m) = published c i"
  by (simp add: event_row_of_def Let_def)

lemma derived_series_cong:
  assumes "map_of (c_series c) s = map_of (c_series c') s"
    and "entries_of (ScopeSeries, s) (c_acl c) = entries_of (ScopeSeries, s) (c_acl c')"
    and "(ScopeSeries, s) \<in> set (acl_policy (c_acl c)) \<longleftrightarrow> (ScopeSeries, s) \<in> set (acl_policy (c_acl c'))"
    and "members (map_of (c_se c)) s = members (map_of (c_se c')) s"
    and "distinct (map fst (c_se c))" and "distinct (map fst (c_se c'))"
  shows "derived_series c s = derived_series c' s"
  using assms
  by (simp add: derived_series_def listed_series_of_def pin_roles_def state_of_def
      series_pins_members has_published_members Let_def split: option.split)

section \<open>The refreshes\<close>

lemma distinct_update_keys: "distinct (map fst xs) \<Longrightarrow> distinct (map fst (AList.update k v xs))"
  by (rule AList.distinct_update)

lemmas table_simps = AList.update_conv' AList.delete_conv' distinct_update_keys AList.distinct_delete

lemma project_event_rows:
  "\<exists>se. fold project_event_row is c = c\<lparr>c_se := se\<rparr> \<and>
     (distinct (map fst (c_se c)) \<longrightarrow> distinct (map fst se)) \<and>
     map_of se = (\<lambda>j. if j \<in> set is \<and> map_of (c_mp c) j \<noteq> None
                     then Some (event_row_of c j (the (map_of (c_mp c) j)))
                     else map_of (c_se c) j)"
proof (induction "is" arbitrary: c)
  case Nil
  show ?case by (intro exI [of _ "c_se c"]) simp
next
  case (Cons i "is")
  show ?case
  proof (cases "map_of (c_mp c) i")
    case None
    have 1: "project_event_row i c = c" using None by (simp add: project_event_row_def)
    obtain se where se: "fold project_event_row is c = c\<lparr>c_se := se\<rparr>"
        "distinct (map fst (c_se c)) \<longrightarrow> distinct (map fst se)"
        "map_of se = (\<lambda>j. if j \<in> set is \<and> map_of (c_mp c) j \<noteq> None
            then Some (event_row_of c j (the (map_of (c_mp c) j))) else map_of (c_se c) j)"
      using Cons.IH [of c] by blast
    show ?thesis using se None 1 by (intro exI [of _ se]) (auto simp: fun_eq_iff)
  next
    case (Some m)
    define c1 where "c1 = c\<lparr>c_se := AList.update i (event_row_of c i m) (c_se c)\<rparr>"
    have 1: "project_event_row i c = c1" using Some by (simp add: project_event_row_def c1_def)
    obtain se where se: "fold project_event_row is c1 = c1\<lparr>c_se := se\<rparr>"
        "distinct (map fst (c_se c1)) \<longrightarrow> distinct (map fst se)"
        "map_of se = (\<lambda>j. if j \<in> set is \<and> map_of (c_mp c1) j \<noteq> None
            then Some (event_row_of c1 j (the (map_of (c_mp c1) j))) else map_of (c_se c1) j)"
      using Cons.IH [of c1] by blast
    show ?thesis using se Some 1
      by (intro exI [of _ se]) (auto simp: fun_eq_iff c1_def table_simps)
  qed
qed

lemma refresh_series_eq:
  "\<exists>ss. refresh_series s c = c\<lparr>c_ss := ss\<rparr> \<and>
     (distinct (map fst (c_ss c)) \<longrightarrow> distinct (map fst ss)) \<and>
     map_of ss = (map_of (c_ss c))(s := derived_series c s)"
proof (cases "map_of (c_series c) s")
  case None
  then show ?thesis
    by (intro exI [of _ "AList.delete s (c_ss c)"])
       (simp add: refresh_series_def derived_series_def table_simps)
next
  case (Some r)
  show ?thesis
  proof (cases "s_deleted r = None")
    case True
    then show ?thesis using Some
      by (intro exI [of _ "AList.update s (listed_series_of c s r) (c_ss c)"])
         (simp add: refresh_series_def project_series_row_def derived_series_def table_simps)
  next
    case False
    then show ?thesis using Some
      by (intro exI [of _ "AList.delete s (c_ss c)"])
         (auto simp: refresh_series_def derived_series_def table_simps)
  qed
qed

section \<open>The two refreshes restore the listings\<close>

text \<open>\<open>c\<close> is the state after the base write, still with the listings of \<open>c0\<close>.\<close>

definition series_base_same :: "catalog \<Rightarrow> catalog \<Rightarrow> string \<Rightarrow> bool" where
  "series_base_same c c0 s =
     (map_of (c_series c) s = map_of (c_series c0) s \<and>
      entries_of (ScopeSeries, s) (c_acl c) = entries_of (ScopeSeries, s) (c_acl c0) \<and>
      ((ScopeSeries, s) \<in> set (acl_policy (c_acl c)) \<longleftrightarrow> (ScopeSeries, s) \<in> set (acl_policy (c_acl c0))))"

text \<open>The series rows other than \<open>t\<close> are still right when the events they list are.\<close>

lemma sync_finish:
  assumes sync: "in_sync c0" and keys: "keys_ok c" and ss: "c_ss c = c_ss c0"
    and ev: "\<And>i. map_of (c_se c) i = derived_event c i"
    and other: "\<And>s. Some s \<noteq> t \<Longrightarrow> series_base_same c c0 s \<and>
       members (derived_event c) s = members (derived_event c0) s"
  shows "in_sync (case t of None \<Rightarrow> c | Some s \<Rightarrow> refresh_series s c)"
proof -
  have k0: "distinct (map fst (c_se c0))" and kc: "distinct (map fst (c_se c))"
    using sync keys by (auto simp: in_sync_def keys_ok_def)
  have mo: "map_of (c_se c) = derived_event c" "map_of (c_se c0) = derived_event c0"
    using ev sync by (auto simp: in_sync_def fun_eq_iff)
  have ser: "derived_series c s = map_of (c_ss c) s" if "Some s \<noteq> t" for s
  proof -
    have "derived_series c s = derived_series c0 s"
      using other [OF that] k0 kc by (intro derived_series_cong) (auto simp: series_base_same_def mo)
    then show ?thesis using sync ss by (simp add: in_sync_def)
  qed
  show ?thesis
  proof (cases t)
    case None
    then show ?thesis using keys ev ser by (simp add: in_sync_def)
  next
    case (Some s)
    obtain x where x: "refresh_series s c = c\<lparr>c_ss := x\<rparr>"
        "distinct (map fst (c_ss c)) \<longrightarrow> distinct (map fst x)"
        "map_of x = (map_of (c_ss c))(s := derived_series c s)"
      using refresh_series_eq by blast
    have "keys_ok (c\<lparr>c_ss := x\<rparr>)" using keys x(2) by (simp add: keys_ok_def)
    then show ?thesis using Some ev ser x by (auto simp: in_sync_def)
  qed
qed

lemma derived_row: "map_of (c_mp c) i = Some m \<Longrightarrow> derived_event c i = (if mp_deleted m = None then Some (event_row_of c i m) else None)"
  by (simp add: derived_event_def)

text \<open>No member of another series is lost when the rewritten event was not a published one of it.\<close>

lemma members_same:
  assumes other: "\<And>j. j \<noteq> i \<Longrightarrow> f j = g j"
    and fi: "\<And>r. f i = Some r \<Longrightarrow> se_series r \<noteq> Some s \<or> \<not> se_published r"
    and gi: "\<And>r. g i = Some r \<Longrightarrow> se_series r \<noteq> Some s \<or> \<not> se_published r"
  shows "members f s = members g s"
  unfolding members_def using assms by (intro Collect_cong) metis

definition leaves_series :: "catalog \<Rightarrow> string \<Rightarrow> string option \<Rightarrow> bool" where
  "leaves_series c i sid =
     (case map_of (c_se c) i of
        None \<Rightarrow> False
      | Some r \<Rightarrow> se_published r \<and> se_series r \<noteq> None \<and> se_series r \<noteq> sid)"

lemma project_event_sync:
  assumes pe: "project_event i c = Inr c'" and sync: "in_sync c0" and m: "map_of (c_mp c) i = Some m"
    and keys: "keys_ok c" and se: "c_se c = c_se c0" and ss: "c_ss c = c_ss c0"
    and others: "\<And>j. j \<noteq> i \<Longrightarrow> derived_event c j = derived_event c0 j"
    and base: "\<And>s. series_base_same c c0 s"
    and stays: "\<not> leaves_series c0 i (mp_series m)"
  shows "in_sync c'"
proof -
  define x where "x = (if mp_deleted m \<noteq> None then AList.delete i (c_se c)
    else AList.update i (event_row_of c i m) (c_se c))"
  have c': "c' = (case mp_series m of None \<Rightarrow> c\<lparr>c_se := x\<rparr> | Some s \<Rightarrow> refresh_series s (c\<lparr>c_se := x\<rparr>))"
    using pe m by (auto simp: project_event_def project_event_row_def x_def Let_def split: option.splits)
  have mo: "map_of (c_se c0) j = derived_event c0 j" for j using sync by (simp add: in_sync_def)
  have ev: "map_of x j = derived_event c j" for j
    using others [of j] mo [of j] m by (auto simp: x_def table_simps derived_row se)
  have keysx: "keys_ok (c\<lparr>c_se := x\<rparr>)" using keys by (simp add: keys_ok_def x_def table_simps)
  show ?thesis unfolding c'
  proof (rule sync_finish [OF sync keysx])
    fix s assume s: "Some s \<noteq> mp_series m"
    have "members (derived_event c) s = members (derived_event c0) s"
    proof (rule members_same [of i])
      show "derived_event c j = derived_event c0 j" if "j \<noteq> i" for j using others [OF that] .
      show "se_series r \<noteq> Some s \<or> \<not> se_published r" if "derived_event c i = Some r" for r
        using that s m by (auto simp: derived_row split: if_splits)
      show "se_series r \<noteq> Some s \<or> \<not> se_published r" if "derived_event c0 i = Some r" for r
        using stays that s mo [of i] by (auto simp: leaves_series_def)
    qed
    then show "series_base_same (c\<lparr>c_se := x\<rparr>) c0 s \<and>
        members (derived_event (c\<lparr>c_se := x\<rparr>)) s = members (derived_event c0) s"
      using base [of s] by (simp add: series_base_same_def)
  qed (simp_all add: ss ev)
qed

lemma live_members_iff:
  "keys_ok c \<Longrightarrow> i \<in> set (live_members s c) \<longleftrightarrow>
     (\<exists>m. map_of (c_mp c) i = Some m \<and> mp_series m = Some s \<and> mp_deleted m = None)"
  by (force simp: live_members_def keys_ok_def map_of_eq_Some_iff image_iff)

lemma project_series_sync:
  assumes sync: "in_sync c0" and keys: "keys_ok c" and se: "c_se c = c_se c0" and ss: "c_ss c = c_ss c0"
    and mp: "c_mp c = c_mp c0"
    and others: "\<And>j. j \<notin> set (live_members s c) \<Longrightarrow> derived_event c j = derived_event c0 j"
    and base: "\<And>t. t \<noteq> s \<Longrightarrow> series_base_same c c0 t"
  shows "in_sync (project_series s c)"
proof -
  obtain x where x: "fold project_event_row (live_members s c) c = c\<lparr>c_se := x\<rparr>"
      "distinct (map fst (c_se c)) \<longrightarrow> distinct (map fst x)"
      "map_of x = (\<lambda>j. if j \<in> set (live_members s c) \<and> map_of (c_mp c) j \<noteq> None
          then Some (event_row_of c j (the (map_of (c_mp c) j))) else map_of (c_se c) j)"
    using project_event_rows by blast
  have mo: "map_of (c_se c0) j = derived_event c0 j" for j using sync by (simp add: in_sync_def)
  have ev: "map_of x j = derived_event c j" for j
    using others [of j] mo [of j] live_members_iff [OF keys, of j s]
    by (auto simp: x(3) se derived_row)
  have keysx: "keys_ok (c\<lparr>c_se := x\<rparr>)" using keys x(2) by (simp add: keys_ok_def)
  have "in_sync (case Some s of None \<Rightarrow> c\<lparr>c_se := x\<rparr> | Some s \<Rightarrow> refresh_series s (c\<lparr>c_se := x\<rparr>))"
  proof (rule sync_finish [OF sync keysx])
    fix t assume t: "Some t \<noteq> Some s"
    have live: "derived_event d j = Some r \<Longrightarrow> se_series r = Some t \<Longrightarrow> j \<notin> set (live_members s c)"
      if "c_mp d = c_mp c" for d j r
      using that t live_members_iff [OF keys, of j s]
      by (auto simp: derived_event_def split: option.splits if_splits)
    have "members (derived_event c) t = members (derived_event c0) t"
      unfolding members_def using live [of c] live [of c0] others mp by (intro Collect_cong) metis
    then show "series_base_same (c\<lparr>c_se := x\<rparr>) c0 t \<and>
        members (derived_event (c\<lparr>c_se := x\<rparr>)) t = members (derived_event c0) t"
      using base [of t] t by (simp add: series_base_same_def)
  qed (simp_all add: ss ev)
  then show ?thesis by (simp add: project_series_def x(1))
qed


section \<open>Rebuild\<close>

lemma listed_series_of_frame [simp]: "listed_series_of (c\<lparr>c_ss := y\<rparr>) s r = listed_series_of c s r"
  by (simp add: listed_series_of_def)

lemma project_series_rows:
  "\<exists>ss. fold project_series_row ks c = c\<lparr>c_ss := ss\<rparr> \<and>
     (distinct (map fst (c_ss c)) \<longrightarrow> distinct (map fst ss)) \<and>
     map_of ss = (\<lambda>j. if j \<in> set ks \<and> map_of (c_series c) j \<noteq> None
                     then Some (listed_series_of c j (the (map_of (c_series c) j)))
                     else map_of (c_ss c) j)"
proof (induction ks arbitrary: c)
  case Nil
  show ?case by (intro exI [of _ "c_ss c"]) simp
next
  case (Cons i ks)
  show ?case
  proof (cases "map_of (c_series c) i")
    case None
    have 1: "project_series_row i c = c" using None by (simp add: project_series_row_def)
    obtain ss where ss: "fold project_series_row ks c = c\<lparr>c_ss := ss\<rparr>"
        "distinct (map fst (c_ss c)) \<longrightarrow> distinct (map fst ss)"
        "map_of ss = (\<lambda>j. if j \<in> set ks \<and> map_of (c_series c) j \<noteq> None
            then Some (listed_series_of c j (the (map_of (c_series c) j))) else map_of (c_ss c) j)"
      using Cons.IH [of c] by blast
    show ?thesis using ss None 1 by (intro exI [of _ ss]) (auto simp: fun_eq_iff)
  next
    case (Some r)
    define c1 where "c1 = c\<lparr>c_ss := AList.update i (listed_series_of c i r) (c_ss c)\<rparr>"
    have 1: "project_series_row i c = c1" using Some by (simp add: project_series_row_def c1_def)
    obtain ss where ss: "fold project_series_row ks c1 = c1\<lparr>c_ss := ss\<rparr>"
        "distinct (map fst (c_ss c1)) \<longrightarrow> distinct (map fst ss)"
        "map_of ss = (\<lambda>j. if j \<in> set ks \<and> map_of (c_series c1) j \<noteq> None
            then Some (listed_series_of c1 j (the (map_of (c_series c1) j))) else map_of (c_ss c1) j)"
      using Cons.IH [of c1] by blast
    show ?thesis using ss Some 1
      by (intro exI [of _ ss]) (auto simp: fun_eq_iff c1_def table_simps)
  qed
qed

lemma rebuild_eq:
  assumes "keys_ok c"
  shows "\<exists>se ss. rebuild c = c\<lparr>c_se := se, c_ss := ss\<rparr> \<and> distinct (map fst se) \<and> distinct (map fst ss) \<and>
    map_of se = derived_event c \<and> map_of ss = derived_series (c\<lparr>c_se := se\<rparr>)"
proof -
  let ?live = "map fst (filter (\<lambda>(i, m). mp_deleted m = None) (c_mp c))"
  let ?lives = "map fst (filter (\<lambda>(i, s). s_deleted s = None) (c_series c))"
  have live: "i \<in> set ?live \<longleftrightarrow> (\<exists>m. map_of (c_mp c) i = Some m \<and> mp_deleted m = None)" for i
    using assms by (force simp: keys_ok_def map_of_eq_Some_iff)
  have lives: "i \<in> set ?lives \<longleftrightarrow> (\<exists>r. map_of (c_series c) i = Some r \<and> s_deleted r = None)" for i
    using assms by (force simp: keys_ok_def map_of_eq_Some_iff)
  let ?c0 = "c\<lparr>c_se := [], c_ss := []\<rparr>"
  obtain se where se: "fold project_event_row ?live ?c0 = ?c0\<lparr>c_se := se\<rparr>"
      "distinct (map fst (c_se ?c0)) \<longrightarrow> distinct (map fst se)"
      "map_of se = (\<lambda>j. if j \<in> set ?live \<and> map_of (c_mp ?c0) j \<noteq> None
          then Some (event_row_of ?c0 j (the (map_of (c_mp ?c0) j))) else map_of (c_se ?c0) j)"
    using project_event_rows [of ?live ?c0] by blast
  let ?c1 = "c\<lparr>c_se := se, c_ss := []\<rparr>"
  obtain ss where ss: "fold project_series_row ?lives ?c1 = ?c1\<lparr>c_ss := ss\<rparr>"
      "distinct (map fst (c_ss ?c1)) \<longrightarrow> distinct (map fst ss)"
      "map_of ss = (\<lambda>j. if j \<in> set ?lives \<and> map_of (c_series ?c1) j \<noteq> None
          then Some (listed_series_of ?c1 j (the (map_of (c_series ?c1) j))) else map_of (c_ss ?c1) j)"
    using project_series_rows [of ?lives ?c1] by blast
  have "map_of se j = derived_event c j" for j
    using live [of j] se(3) by (auto simp: derived_event_def split: option.split)
  moreover have "map_of ss j = derived_series (c\<lparr>c_se := se\<rparr>) j" for j
    using lives [of j] ss(3) by (auto simp: derived_series_def split: option.split)
  moreover have "rebuild c = c\<lparr>c_se := se, c_ss := ss\<rparr>"
  proof -
    have c1: "?c0\<lparr>c_se := se\<rparr> = ?c1" by (cases c) simp
    have "?c1\<lparr>c_ss := ss\<rparr> = c\<lparr>c_se := se, c_ss := ss\<rparr>" by (cases c) simp
    then show ?thesis by (simp only: rebuild_def Let_def se(1) c1 ss(1))
  qed
  ultimately show ?thesis using se(2) ss(2) by (intro exI [of _ se] exI [of _ ss]) (simp add: fun_eq_iff)
qed

lemma rebuild_agrees:
  assumes "in_sync c"
  shows "map_of (c_se (rebuild c)) = map_of (c_se c) \<and> map_of (c_ss (rebuild c)) = map_of (c_ss c)"
proof -
  have keys: "keys_ok c" using assms by (simp add: in_sync_def)
  obtain se ss where r: "rebuild c = c\<lparr>c_se := se, c_ss := ss\<rparr>" "distinct (map fst se)"
      "map_of se = derived_event c" "map_of ss = derived_series (c\<lparr>c_se := se\<rparr>)"
    using rebuild_eq [OF keys] by blast
  have mo: "map_of (c_se c) = derived_event c" "map_of (c_ss c) = derived_series c"
    using assms by (auto simp: in_sync_def fun_eq_iff)
  have "derived_series (c\<lparr>c_se := se\<rparr>) s = derived_series c s" for s
    using r(2) keys by (intro derived_series_cong) (simp_all add: r(3) mo keys_ok_def)
  then show ?thesis using r mo by (simp add: fun_eq_iff)
qed

section \<open>The writes as a machine\<close>

datatype cat_event =
    WriteAcl scope string "entry list"
  | WriteSeriesAcl string "entry list" bool
  | WriteMetadata string metadata
  | WriteEventDC string string "int option" metadata
  | WriteSeries string series_metadata
  | WritePublication string string string
  | DeleteEvent string
  | DeleteSeries string
  | WriteRow string string "int option" int
  | WriteElement string element_row "string list" bool
  | Clock int

definition committed :: "catalog \<Rightarrow> (cat_error, catalog) result \<Rightarrow> catalog" where
  "committed c r = (case r of Inl e \<Rightarrow> c | Inr c' \<Rightarrow> c')"

fun cat_step :: "cat_event \<Rightarrow> catalog \<Rightarrow> catalog" where
  "cat_step (WriteAcl sc i es) c = committed c (set_acl sc i es c)"
| "cat_step (WriteSeriesAcl s es ov) c = committed c (set_series_acl s es ov c)"
| "cat_step (WriteMetadata i md) c = committed c (set_metadata i md c)"
| "cat_step (WriteEventDC i title start md) c = committed c (set_event_dc i title start md c)"
| "cat_step (WriteSeries s md) c = put_series s md c"
| "cat_step (WritePublication p i ch) c = committed c (publish p i ch c)"
| "cat_step (DeleteEvent i) c = committed c (bind_result (tombstone_event i c) (\<lambda>(b, c'). Inr c'))"
| "cat_step (DeleteSeries s) c = snd (tombstone_series s c)"
| "cat_step (WriteRow i title start dur) c = committed c (materialise_row i title start dur c)"
| "cat_step (WriteElement i el tags idem) c = committed c (insert_element i el tags idem c)"
| "cat_step (Clock n) c = c\<lparr>c_now := n\<rparr>"

text \<open>The guard: a metadata write does not take a published event out of the series it lists in.\<close>

fun keeps_series :: "cat_event \<Rightarrow> catalog \<Rightarrow> bool" where
  "keeps_series (WriteMetadata i md) c = (\<not> leaves_series c i (null_if_empty (m_series md)))"
| "keeps_series (WriteEventDC i title start md) c = (\<not> leaves_series c i (null_if_empty (m_series md)))"
| "keeps_series _ c = True"

definition empty_catalog :: "int \<Rightarrow> catalog" where
  "empty_catalog now = \<lparr>c_now = now, c_acl = \<lparr>acl_policy = [], acl_entry = []\<rparr>, c_mp = [], c_md = [],
     c_series = [], c_pub = [], c_pubel = [], c_el = [], c_tag = [], c_snap = [], c_se = [], c_ss = []\<rparr>"

lemma empty_in_sync: "in_sync (empty_catalog now)"
  by (simp add: in_sync_def keys_ok_def empty_catalog_def derived_event_def derived_series_def)


section \<open>Every write but a published move keeps the listings right\<close>

lemma committed_keeps: "P c \<Longrightarrow> (\<And>d. r = Inr d \<Longrightarrow> P d) \<Longrightarrow> P (committed c r)"
  by (cases r) (auto simp: committed_def)

lemma map_error_Inr [simp]: "map_error f r = Inr a \<longleftrightarrow> r = Inr a"
  by (cases r) (auto simp: map_error_def)

lemma derived_event_same:
  assumes "map_of (c_mp c) j = map_of (c_mp c0) j" and "map_of (c_md c) j = map_of (c_md c0) j"
    and "\<And>m t. map_of (c_mp c0) j = Some m \<Longrightarrow> mp_series m = Some t \<Longrightarrow> mp_deleted m = None \<Longrightarrow>
      series_title_of c (Some t) = series_title_of c0 (Some t)"
    and "entries_of (ScopeEvent, j) (c_acl c) = entries_of (ScopeEvent, j) (c_acl c0)"
    and "(ScopeEvent, j) \<in> set (acl_policy (c_acl c)) \<longleftrightarrow> (ScopeEvent, j) \<in> set (acl_policy (c_acl c0))"
    and "published c j = published c0 j" and "engage_pin c j = engage_pin c0 j"
  shows "derived_event c j = derived_event c0 j"
proof (cases "map_of (c_mp c0) j")
  case (Some m)
  show ?thesis
  proof (cases "mp_deleted m = None")
    case True
    have "series_title_of c (mp_series m) = series_title_of c0 (mp_series m)"
      using assms(3) [OF Some _ True] by (cases "mp_series m") (simp_all add: series_title_of_def)
    then show ?thesis
      using assms Some True
      by (simp add: derived_event_def event_row_of_def md_of_def pin_roles_def state_of_def Let_def)
  qed (use Some assms(1) in \<open>auto simp: derived_event_def\<close>)
qed (use assms(1) in \<open>simp add: derived_event_def\<close>)

lemma series_base_same_refl [simp]: "series_base_same c c s"
  by (simp add: series_base_same_def)

lemma keys_ok_frame [simp]:
  "keys_ok (c\<lparr>c_acl := a\<rparr>) = keys_ok c" "keys_ok (c\<lparr>c_md := x\<rparr>) = keys_ok c"
  "keys_ok (c\<lparr>c_pub := y\<rparr>) = keys_ok c" "keys_ok (c\<lparr>c_pubel := z\<rparr>) = keys_ok c"
  "keys_ok (c\<lparr>c_el := e\<rparr>) = keys_ok c" "keys_ok (c\<lparr>c_tag := g\<rparr>) = keys_ok c"
  "keys_ok (c\<lparr>c_snap := n\<rparr>) = keys_ok c" "keys_ok (c\<lparr>c_now := w\<rparr>) = keys_ok c"
  by (simp_all add: keys_ok_def)

lemma in_sync_keys: "in_sync c \<Longrightarrow> keys_ok c"
  by (simp add: in_sync_def)

text \<open>An event stays in its series when its row keeps the series it lists under.\<close>

lemma leaves_series_self:
  "in_sync c \<Longrightarrow> map_of (c_mp c) i = Some m \<Longrightarrow> \<not> leaves_series c i (mp_series m)"
  by (auto simp: leaves_series_def in_sync_def derived_event_def split: option.splits if_splits)

lemma project_event_known: "project_event i c = Inr c' \<Longrightarrow> \<exists>m. map_of (c_mp c) i = Some m"
  by (auto simp: project_event_def split: option.splits)

lemma set_acl_event_sync:
  assumes "set_acl_event i es c = Inr c'" and sync: "in_sync c"
  shows "in_sync c'"
proof -
  obtain a where a: "set_tx (ScopeEvent, i) es (c_acl c) = Inr a"
    and pe: "project_event i (c\<lparr>c_acl := a\<rparr>) = Inr c'"
    using assms(1) by (auto simp: set_acl_event_def)
  obtain m where m: "map_of (c_mp c) i = Some m" using project_event_known [OF pe] by auto
  show ?thesis
  proof (rule project_event_sync [OF pe sync])
    show "map_of (c_mp (c\<lparr>c_acl := a\<rparr>)) i = Some m" using m by simp
    show "derived_event (c\<lparr>c_acl := a\<rparr>) j = derived_event c j" if "j \<noteq> i" for j
      using that set_tx_Inr(3,4) [OF a]
      by (intro derived_event_same) (auto simp: series_title_of_def published_def engage_pin_def)
    show "series_base_same (c\<lparr>c_acl := a\<rparr>) c s" for s
      using set_tx_Inr(3,4) [OF a] by (auto simp: series_base_same_def)
  qed (simp_all add: leaves_series_self [OF sync m] in_sync_keys [OF sync])
qed

lemma set_acl_series_sync:
  assumes "set_acl_series s es c = Inr c'" and sync: "in_sync c"
  shows "in_sync c'"
proof -
  obtain a where a: "set_tx (ScopeSeries, s) es (c_acl c) = Inr a"
    and c': "c' = project_series s (c\<lparr>c_acl := a\<rparr>)"
    using assms(1) by (auto simp: set_acl_series_def)
  show ?thesis unfolding c'
  proof (rule project_series_sync [OF sync])
    show "derived_event (c\<lparr>c_acl := a\<rparr>) j = derived_event c j" for j
      using set_tx_Inr(3,4) [OF a]
      by (intro derived_event_same) (auto simp: series_title_of_def published_def engage_pin_def)
    show "series_base_same (c\<lparr>c_acl := a\<rparr>) c t" if "t \<noteq> s" for t
      using that set_tx_Inr(3,4) [OF a] by (auto simp: series_base_same_def)
  qed (simp_all add: in_sync_keys [OF sync])
qed

lemma set_all_tx_other:
  "set_all_tx is es a = Inr a' \<Longrightarrow> k \<notin> Pair ScopeEvent ` set is \<Longrightarrow>
     entries_of k a' = entries_of k a \<and> (k \<in> set (acl_policy a') \<longleftrightarrow> k \<in> set (acl_policy a))"
proof (induction "is" arbitrary: a)
  case (Cons i "is")
  obtain b where b: "set_tx (ScopeEvent, i) es a = Inr b" "set_all_tx is es b = Inr a'"
    using Cons.prems(1) by auto
  then show ?case
    using Cons.IH [OF b(2)] Cons.prems(2) set_tx_Inr(3,4) [OF b(1)] by auto
qed simp

lemma live_members_acl [simp]: "live_members s (c\<lparr>c_acl := a\<rparr>) = live_members s c"
  by (simp add: live_members_def)

lemma set_series_acl_sync:
  assumes "set_series_acl s es ov c = Inr c'" and sync: "in_sync c"
  shows "in_sync c'"
proof -
  obtain a b where a: "set_tx (ScopeSeries, s) es (c_acl c) = Inr a"
    and b: "(if ov then set_all_tx (live_members s c) es a else Inr a) = Inr b"
    and c': "c' = project_series s (c\<lparr>c_acl := b\<rparr>)"
    using assms(1) unfolding set_series_acl_def bind_result_Inr_iff map_error_Inr by auto
  have other: "entries_of k b = entries_of k (c_acl c) \<and>
      (k \<in> set (acl_policy b) \<longleftrightarrow> k \<in> set (acl_policy (c_acl c)))"
    if "k \<noteq> (ScopeSeries, s)" and "k \<notin> Pair ScopeEvent ` set (live_members s c)" for k
    using that b set_all_tx_other [of "live_members s c" es a b k] set_tx_Inr(3,4) [OF a]
    by (auto split: if_splits)
  show ?thesis unfolding c'
  proof (rule project_series_sync [OF sync])
    show "derived_event (c\<lparr>c_acl := b\<rparr>) j = derived_event c j"
      if "j \<notin> set (live_members s (c\<lparr>c_acl := b\<rparr>))" for j
      using that other [of "(ScopeEvent, j)"]
      by (intro derived_event_same) (auto simp: series_title_of_def published_def engage_pin_def)
    show "series_base_same (c\<lparr>c_acl := b\<rparr>) c t" if "t \<noteq> s" for t
      using that other [of "(ScopeSeries, t)"] by (auto simp: series_base_same_def)
  qed (simp_all add: in_sync_keys [OF sync])
qed


lemma keys_ok_mp: "keys_ok c \<Longrightarrow> keys_ok (c\<lparr>c_mp := AList.update i m (c_mp c)\<rparr>)"
  by (simp add: keys_ok_def table_simps)

lemma keys_ok_series: "keys_ok c \<Longrightarrow> keys_ok (c\<lparr>c_series := AList.update i m (c_series c)\<rparr>)"
  by (simp add: keys_ok_def table_simps)

text \<open>A write to the rows of one event, followed by its projection.\<close>

lemma event_write_sync:
  assumes pe: "project_event i (c\<lparr>c_md := md, c_mp := mp\<rparr>) = Inr c'" and sync: "in_sync c"
    and m: "map_of mp i = Some m" and mp: "\<And>j. j \<noteq> i \<Longrightarrow> map_of mp j = map_of (c_mp c) j"
    and md: "\<And>j. j \<noteq> i \<Longrightarrow> map_of md j = map_of (c_md c) j"
    and keys: "distinct (map fst mp)" and stays: "\<not> leaves_series c i (mp_series m)"
  shows "in_sync c'"
proof (rule project_event_sync [OF pe sync _ _ _ _ _ _ stays])
  show "derived_event (c\<lparr>c_md := md, c_mp := mp\<rparr>) j = derived_event c j" if "j \<noteq> i" for j
    using mp [OF that] md [OF that]
    by (intro derived_event_same) (auto simp: series_title_of_def published_def engage_pin_def)
  show "keys_ok (c\<lparr>c_md := md, c_mp := mp\<rparr>)" using in_sync_keys [OF sync] keys by (simp add: keys_ok_def)
qed (simp_all add: m series_base_same_def)

lemma set_metadata_sync:
  assumes ok: "set_metadata i md c = Inr c'" and sync: "in_sync c"
    and stays: "\<not> leaves_series c i (null_if_empty (m_series md))"
  shows "in_sync c'"
proof -
  obtain m where m: "map_of (c_mp c) i = Some m"
    and pe: "project_event i (c\<lparr>c_md := AList.update i (md_row_of md) (c_md c),
      c_mp := AList.update i (m\<lparr>mp_series := null_if_empty (m_series md)\<rparr>) (c_mp c)\<rparr>) = Inr c'"
    using ok by (auto simp: set_metadata_def Let_def split: option.splits if_splits)
  show ?thesis
    using in_sync_keys [OF sync] stays
    by (intro event_write_sync [OF pe sync]) (auto simp: table_simps keys_ok_def)
qed

lemma set_event_dc_sync:
  assumes ok: "set_event_dc i title start md c = Inr c'" and sync: "in_sync c"
    and stays: "\<not> leaves_series c i (null_if_empty (m_series md))"
  shows "in_sync c'"
proof -
  obtain m where m: "map_of (c_mp c) i = Some m"
    and pe: "project_event i (c\<lparr>c_md := AList.update i (md_row_of md) (c_md c),
      c_mp := (if mp_deleted m = None then AList.update i (m\<lparr>mp_title := null_if_empty title,
        mp_start := start, mp_series := null_if_empty (m_series md)\<rparr>) (c_mp c) else c_mp c)\<rparr>) = Inr c'"
    using ok by (auto simp: set_event_dc_def Let_def split: option.splits if_splits)
  show ?thesis
  proof (cases "mp_deleted m = None")
    case True
    then show ?thesis
      using in_sync_keys [OF sync] stays pe
      by (intro event_write_sync [OF pe sync]) (auto simp: table_simps keys_ok_def)
  next
    case False
    then show ?thesis
      using in_sync_keys [OF sync] leaves_series_self [OF sync m] m
      by (intro event_write_sync [OF pe sync]) (auto simp: table_simps keys_ok_def)
  qed
qed

lemma series_write_sync:
  assumes sync: "in_sync c"
  shows "in_sync (project_series s (c\<lparr>c_series := AList.update s r (c_series c)\<rparr>))"
proof (rule project_series_sync [OF sync])
  let ?c = "c\<lparr>c_series := AList.update s r (c_series c)\<rparr>"
  have keys: "keys_ok ?c" using in_sync_keys [OF sync] by (rule keys_ok_series)
  then show "keys_ok ?c" .
  show "derived_event ?c j = derived_event c j" if "j \<notin> set (live_members s ?c)" for j
    using that live_members_iff [OF keys, of j s]
    by (intro derived_event_same) (auto simp: series_title_of_def published_def engage_pin_def table_simps)
  show "series_base_same ?c c t" if "t \<noteq> s" for t using that by (simp add: series_base_same_def table_simps)
qed simp_all

lemma put_series_sync: "in_sync c \<Longrightarrow> in_sync (put_series s md c)"
  unfolding put_series_def by (rule series_write_sync)

lemma tombstone_series_sync: "in_sync c \<Longrightarrow> in_sync (snd (tombstone_series s c))"
  by (auto simp: tombstone_series_def series_write_sync split: option.split)

text \<open>A publication row written for an event, with whatever references, and the event projected again.\<close>

lemma publication_sync:
  assumes pe: "project_event i (c\<lparr>c_pub := AList.update (i, ch) row (c_pub c), c_pubel := x\<rparr>) = Inr c'"
    and sync: "in_sync c"
  shows "in_sync c'"
proof -
  let ?d = "c\<lparr>c_pub := AList.update (i, ch) row (c_pub c), c_pubel := x\<rparr>"
  obtain m where m: "map_of (c_mp c) i = Some m" using project_event_known [OF pe] by auto
  have pub: "list_ex (\<lambda>((mp, c), r). mp = j) (AList.update (i, ch) row xs) = list_ex (\<lambda>((mp, c), r). mp = j) xs"
    if "j \<noteq> i" for j and xs :: "((string \<times> string) \<times> pub_row) list"
    using that by (induction xs) auto
  show ?thesis
  proof (rule project_event_sync [OF pe sync _ _ _ _ _ _ leaves_series_self [OF sync m]])
    show "derived_event ?d j = derived_event c j" if "j \<noteq> i" for j
      using that pub [OF that]
      by (intro derived_event_same) (auto simp: series_title_of_def published_def engage_pin_def table_simps)
    show "keys_ok ?d" using in_sync_keys [OF sync] by (simp add: keys_ok_def)
  qed (simp_all add: m series_base_same_def)
qed

lemma publish_sync:
  assumes ok: "publish p i ch c = Inr c'" and sync: "in_sync c"
  shows "in_sync c'"
proof -
  obtain row where "project_event i (c\<lparr>c_pub := AList.update (i, ch) row (c_pub c), c_pubel := c_pubel c\<rparr>) = Inr c'"
    using ok by (auto simp: publish_def publish_tx_def Let_def split: if_splits)
  then show ?thesis using publication_sync sync by blast
qed

lemma map_of_filter_key: "P k \<Longrightarrow> map_of (filter (\<lambda>(k', r). P k') xs) k = map_of xs k"
  by (induction xs) auto

lemma tombstone_event_found:
  assumes "tombstone_event i c = Inr (True, c')"
  obtains m where "map_of (c_mp c) i = Some m" and "mp_deleted m = None"
    and "project_event i (retract_event i m c) = Inr c'"
  using assms by (auto simp: tombstone_event_def split: option.splits if_splits)

lemma tombstone_event_sync:
  assumes ok: "tombstone_event i c = Inr (b, c')" and sync: "in_sync c"
  shows "in_sync c'"
proof (cases b)
  case False
  then have "c' = c" using ok by (auto simp: tombstone_event_def split: option.splits if_splits)
  then show ?thesis using sync by simp
next
  case True
  then have ok': "tombstone_event i c = Inr (True, c')" using ok by simp
  obtain m where m: "map_of (c_mp c) i = Some m" and pe: "project_event i (retract_event i m c) = Inr c'"
    using tombstone_event_found [OF ok'] by blast
  define c1 where "c1 = retract_event i m c"
  note c1 = c1_def [unfolded retract_event_def]
  have pub: "list_ex (\<lambda>((mp, ch), r). mp = j) (filter (\<lambda>((mp, ch), r). mp \<noteq> i) xs) =
      list_ex (\<lambda>((mp, ch), r). mp = j) xs"
    if "j \<noteq> i" for j and xs :: "((string \<times> string) \<times> pub_row) list"
    using that by (induction xs) auto
  have pin: "map_of (filter (\<lambda>((mp, ch), r). mp \<noteq> i) xs) (j, ch) = map_of xs (j, ch)"
    if "j \<noteq> i" for j ch and xs :: "((string \<times> string) \<times> pub_row) list"
    using that by (induction xs) auto
  show ?thesis
  proof (rule project_event_sync [OF pe [folded c1_def] sync])
    show "map_of (c_mp c1) i = Some (m\<lparr>mp_deleted := Some (c_now c)\<rparr>)" by (simp add: c1 table_simps)
    show "derived_event c1 j = derived_event c j" if "j \<noteq> i" for j
      using that pub [OF that] pin [OF that]
      by (intro derived_event_same) (simp_all add: c1 series_title_of_def published_def engage_pin_def table_simps)
    show "keys_ok c1" using in_sync_keys [OF sync] by (simp add: c1 keys_ok_def table_simps)
    show "\<not> leaves_series c i (mp_series (m\<lparr>mp_deleted := Some (c_now c)\<rparr>))"
      using leaves_series_self [OF sync m] by simp
  qed (simp_all add: c1 series_base_same_def)
qed

lemma materialise_row_sync:
  assumes ok: "materialise_row i title start dur c = Inr c'" and sync: "in_sync c"
  shows "in_sync c'"
proof (cases "map_of (c_mp c) i")
  case (Some m)
  then have "project_event i (c\<lparr>c_md := c_md c, c_mp := c_mp c\<rparr>) = Inr c'"
    using ok by (simp add: materialise_row_def)
  then show ?thesis
    using event_write_sync [OF _ sync, of i "c_mp c" "c_md c" c' m] Some leaves_series_self [OF sync Some]
      in_sync_keys [OF sync] by (simp add: keys_ok_def)
next
  case None
  let ?m = "\<lparr>mp_title = null_if_empty title, mp_start = start,
    mp_duration = (if dur = 0 then None else Some dur), mp_series = None, mp_deleted = None\<rparr>"
  have "project_event i (c\<lparr>c_md := c_md c, c_mp := c_mp c @ [(i, ?m)]\<rparr>) = Inr c'"
    using ok None by (simp add: materialise_row_def)
  moreover have "\<not> leaves_series c i None"
    using sync None by (simp add: leaves_series_def in_sync_def derived_event_def)
  moreover have "i \<notin> fst ` set (c_mp c)" using None by (simp add: map_of_eq_None_iff)
  ultimately show ?thesis
    using event_write_sync [OF _ sync, of i "c_mp c @ [(i, ?m)]" "c_md c" c' ?m] None in_sync_keys [OF sync]
    by (auto simp: keys_ok_def map_add_def split: option.splits)
qed

lemma frame_sync:
  assumes "in_sync c" and "c_acl d = c_acl c" and "c_mp d = c_mp c" and "c_md d = c_md c"
    and "c_series d = c_series c" and "c_pub d = c_pub c" and "c_se d = c_se c" and "c_ss d = c_ss c"
  shows "in_sync d"
proof -
  have "derived_event d = derived_event c" and "derived_series d = derived_series c"
    using assms by (auto simp: derived_event_def derived_series_def event_row_of_def listed_series_of_def
        md_of_def series_title_of_def published_def engage_pin_def fun_eq_iff split: option.split)
  then show ?thesis using assms by (simp add: in_sync_def keys_ok_def)
qed

lemma cat_step_sync:
  assumes sync: "in_sync c" and "keeps_series e c"
  shows "in_sync (cat_step e c)"
proof (cases e)
  case (WriteAcl sc i es)
  then show ?thesis
    using set_acl_event_sync [OF _ sync] set_acl_series_sync [OF _ sync]
    by (auto simp: committed_def set_acl_def sync split: sum.split scope.split)
next
  case (WriteSeriesAcl s es ov)
  then show ?thesis using set_series_acl_sync [OF _ sync] by (auto simp: committed_def sync split: sum.split)
next
  case (WriteMetadata i md)
  then show ?thesis using assms set_metadata_sync [OF _ sync] by (auto simp: committed_def split: sum.split)
next
  case (WriteEventDC i title start md)
  then show ?thesis using assms set_event_dc_sync [OF _ sync] by (auto simp: committed_def split: sum.split)
next
  case (WritePublication p i ch)
  then show ?thesis using publish_sync [OF _ sync] by (auto simp: committed_def sync split: sum.split)
next
  case (DeleteEvent i)
  then show ?thesis using tombstone_event_sync [OF _ sync]
    by (cases "tombstone_event i c") (auto simp: committed_def sync split: prod.splits)
next
  case (WriteRow i title start dur)
  then show ?thesis using materialise_row_sync [OF _ sync] by (auto simp: committed_def sync split: sum.split)
next
  case (WriteElement i el tags idem)
  have "in_sync d" if "insert_element i el tags idem c = Inr d" for d
    using that by (intro frame_sync [OF sync]) (auto simp: insert_element_def split: if_splits)
  then show ?thesis using WriteElement by (auto simp: committed_def sync split: sum.split)
next
  case (Clock n)
  then show ?thesis by (simp add: frame_sync [OF sync])
qed (simp_all add: put_series_sync tombstone_series_sync sync)

interpretation catalog: guarded_machine cat_step in_sync keeps_series
  by unfold_locales (rule cat_step_sync)


section \<open>Properties\<close>

text \<open>C9: The projection never drifts: after any run of writes from the empty store, in which no
  metadata write takes a published event out of its series, both listings hold, key by key, exactly
  the rows a full \<open>Rebuild\<close> from the authoritative tables would produce.\<close>

theorem projection_never_drifts:
  assumes "guarded_run keeps_series cat_step es (empty_catalog now)"
    and "c = run_events cat_step es (empty_catalog now)"
  shows "map_of (c_se (rebuild c)) = map_of (c_se c) \<and> map_of (c_ss (rebuild c)) = map_of (c_ss c) \<and>
    (\<forall>i. map_of (c_se c) i = derived_event c i) \<and> (\<forall>s. map_of (c_ss c) s = derived_series c s)"
proof -
  have "in_sync c" unfolding assms(2) by (rule catalog.guarded_run_inv [OF empty_in_sync assms(1)])
  then show ?thesis using rebuild_agrees by (auto simp: in_sync_def)
qed

definition demo_md :: "string \<Rightarrow> metadata" where
  "demo_md s = \<lparr>m_creators = [], m_contributors = [], m_language = [], m_description = [],
     m_subjects = [], m_location = [], m_license = [], m_created = None, m_series = s, m_status = []\<rparr>"

definition demo_sm :: series_metadata where
  "demo_sm = \<lparr>sm_title = ''T'', sm_contributors = [], sm_organizers = [], sm_language = [],
     sm_description = [], sm_subjects = [], sm_created = None\<rparr>"

definition demo_writes :: "cat_event list" where
  "demo_writes = [WriteSeries ''A'' demo_sm, WriteSeries ''B'' demo_sm, WriteRow ''e1'' ''t'' None 5,
     WriteMetadata ''e1'' (demo_md ''A''),
     WriteAcl ScopeEvent ''e1'' [\<lparr>role = ''R'', action = ''read'', allow = True\<rparr>],
     WritePublication ''p1'' ''e1'' engage_player]"

theorem projection_never_drifts_witness:
  "map_of (c_ss (rebuild (run_events cat_step (butlast demo_writes) (empty_catalog 0)))) =
   map_of (c_ss (run_events cat_step (butlast demo_writes) (empty_catalog 0)))"
  using projection_never_drifts [OF _ refl, of "butlast demo_writes" 0]
  by (auto simp: demo_writes_def leaves_series_def demo_md_def demo_sm_def empty_catalog_def put_series_def
      project_series_def refresh_series_def project_series_row_def live_members_def materialise_row_def
      project_event_def project_event_row_def committed_def event_row_of_def published_def Let_def)


text \<open>Moving a published event to another series leaves the old series' row stale: it still reports
  a published member and still offers that member's pinned roles, where a rebuild reports neither.\<close>

theorem published_move_leaves_stale_series:
  "let c = run_events cat_step demo_writes (empty_catalog 0);
       d = cat_step (WriteMetadata ''e1'' (demo_md ''B'')) c;
       stale = map_of (c_ss d) ''A''; fresh = map_of (c_ss (rebuild d)) ''A''
   in map_option ss_has_published stale = Some True \<and> map_option ss_has_published fresh = Some False \<and>
      map_option (\<lambda>r. ''R'' \<in> ss_pub_read r) stale = Some True \<and>
      map_option (\<lambda>r. ''R'' \<in> ss_pub_read r) fresh = Some False"
  by code_simp

text \<open>Refreshes touch nothing but the listings.\<close>

lemma refresh_series_only: "\<exists>ss. refresh_series s c = c\<lparr>c_ss := ss\<rparr>"
  using refresh_series_eq by blast

lemma project_series_only: "\<exists>se ss. project_series s c = c\<lparr>c_se := se, c_ss := ss\<rparr>"
proof -
  obtain se where "fold project_event_row (live_members s c) c = c\<lparr>c_se := se\<rparr>"
    using project_event_rows by blast
  then show ?thesis using refresh_series_only [of s "c\<lparr>c_se := se\<rparr>"] by (auto simp: project_series_def)
qed

lemma project_event_only:
  assumes "project_event i c = Inr c'"
  shows "\<exists>se ss. c' = c\<lparr>c_se := se, c_ss := ss\<rparr>"
proof -
  obtain m where m: "map_of (c_mp c) i = Some m" using project_event_known [OF assms] by blast
  define se where "se = (if mp_deleted m \<noteq> None then AList.delete i (c_se c)
    else AList.update i (event_row_of c i m) (c_se c))"
  have c': "c' = (case mp_series m of None \<Rightarrow> c\<lparr>c_se := se\<rparr> | Some s \<Rightarrow> refresh_series s (c\<lparr>c_se := se\<rparr>))"
    using assms m by (auto simp: project_event_def project_event_row_def se_def Let_def split: option.splits)
  show ?thesis
  proof (cases "mp_series m")
    case None
    then have "c' = c\<lparr>c_se := se, c_ss := c_ss c\<rparr>" using c' by (cases c) simp
    then show ?thesis by blast
  next
    case (Some s)
    then show ?thesis using c' refresh_series_only [of s "c\<lparr>c_se := se\<rparr>"] by auto
  qed
qed

lemma project_event_frame:
  assumes "project_event i c = Inr c'"
  shows "c_pub c' = c_pub c" "c_mp c' = c_mp c" "c_md c' = c_md c" "c_el c' = c_el c" "c_tag c' = c_tag c"
    "c_snap c' = c_snap c" "c_pubel c' = c_pubel c" "c_series c' = c_series c" "c_acl c' = c_acl c"
  using project_event_only [OF assms] by auto

lemma project_series_frame [simp]:
  "c_pub (project_series s c) = c_pub c" "c_mp (project_series s c) = c_mp c"
  "c_el (project_series s c) = c_el c" "c_pubel (project_series s c) = c_pubel c"
  using project_series_only [of s c] by auto

fun touches_pin :: "string \<Rightarrow> string \<Rightarrow> cat_event \<Rightarrow> bool" where
  "touches_pin i ch (WritePublication p j ch') = (j = i \<and> ch' = ch)"
| "touches_pin i ch (DeleteEvent j) = (j = i)"
| "touches_pin i ch _ = False"

lemma pin_step:
  assumes "\<not> touches_pin i ch e"
  shows "map_of (c_pub (cat_step e c)) (i, ch) = map_of (c_pub c) (i, ch)"
proof (cases e)
  case (WriteAcl sc j es)
  then show ?thesis
    by (auto simp: committed_def set_acl_def set_acl_event_def set_acl_series_def
        dest: project_event_frame(1) split: sum.split scope.split)
next
  case (WriteSeriesAcl s es ov)
  then show ?thesis by (auto simp: committed_def set_series_acl_def split: sum.split)
next
  case (WriteMetadata j md)
  then show ?thesis
    by (auto simp: committed_def set_metadata_def Let_def dest!: project_event_frame(1)
        split: sum.split option.splits if_splits)
next
  case (WriteEventDC j title start md)
  then show ?thesis
    by (auto simp: committed_def set_event_dc_def Let_def dest!: project_event_frame(1)
        split: sum.split option.splits if_splits)
next
  case (WritePublication p j ch')
  then show ?thesis using assms
    by (auto simp: committed_def publish_def publish_tx_def Let_def table_simps
        dest!: project_event_frame(1) split: sum.split if_splits)
next
  case (DeleteEvent j)
  have "map_of (filter (\<lambda>((mp, ch), r). mp \<noteq> j) xs) (i, ch) = map_of xs (i, ch)"
    if "j \<noteq> i" for xs :: "((string \<times> string) \<times> pub_row) list"
    using that by (induction xs) auto
  then show ?thesis using assms DeleteEvent
    by (auto simp: committed_def tombstone_event_def retract_event_def
        dest!: project_event_frame(1) split: sum.split option.splits if_splits)
next
  case (WriteRow j title start dur)
  then show ?thesis
    by (auto simp: committed_def materialise_row_def dest!: project_event_frame(1)
        split: sum.split if_splits)
next
  case (WriteElement j el tags idem)
  then show ?thesis by (auto simp: committed_def insert_element_def split: sum.split)
qed (simp_all add: put_series_def tombstone_series_def split: option.split)

text \<open>The publish-time pin: \<open>Publish\<close> stores the roles that are allowed and not denied read at
  that instant, with the policy's state, and whatever policies, metadata, series and other
  publications are written afterwards, the pin stays as it is until that channel is published again
  or the event is deleted.\<close>

theorem pin_is_publish_time:
  assumes "publish p i ch c = Inr c1" and "list_all (\<lambda>e. \<not> touches_pin i ch e) es"
  shows "map_option (\<lambda>r. (pub_acl_read r, pub_acl_state r)) (map_of (c_pub (run_events cat_step es c1)) (i, ch)) =
    Some (pin_roles (ScopeEvent, i) ''read'' (c_acl c), state_of (ScopeEvent, i) (c_acl c))"
proof -
  have "map_of (c_pub (run_events cat_step es c1)) (i, ch) = map_of (c_pub c1) (i, ch)"
    using assms(2) by (induction es arbitrary: c1) (auto simp: pin_step)
  then show ?thesis
    using assms(1) by (auto simp: publish_def publish_tx_def Let_def table_simps
        dest!: project_event_frame(1) split: if_splits)
qed

definition demo_published :: catalog where
  "demo_published = run_events cat_step (butlast demo_writes) (empty_catalog 0)"

lemma demo_published_sync: "in_sync demo_published"
proof -
  have "guarded_run keeps_series cat_step (butlast demo_writes) (empty_catalog 0)" by code_simp
  then show ?thesis
    unfolding demo_published_def by (rule catalog.guarded_run_inv [OF empty_in_sync])
qed



text \<open>Metadata round-trips: for a live event, what \<open>SetEventDC\<close> wrote is what \<open>GetEventDC\<close> reads
  back as the base of the next partial edit, field by field, empty fields included.\<close>

theorem event_dc_round_trip:
  assumes "set_event_dc i title start md c = Inr c'"
    and "map_option mp_deleted (map_of (c_mp c) i) = Some None"
  shows "get_event_dc i c' = Inr (title, start, md)"
proof -
  have t: "text_of (null_if_empty x) = x" for x by (simp add: null_if_empty_def text_of_def)
  obtain m where m: "map_of (c_mp c) i = Some m" "mp_deleted m = None" using assms(2) by auto
  then have pe: "project_event i (c\<lparr>c_md := AList.update i (md_row_of md) (c_md c),
      c_mp := AList.update i (m\<lparr>mp_title := null_if_empty title, mp_start := start,
        mp_series := null_if_empty (m_series md)\<rparr>) (c_mp c)\<rparr>) = Inr c'"
    using assms(1) by (auto simp: set_event_dc_def Let_def split: if_splits)
  show ?thesis
    using m by (simp add: get_event_dc_def project_event_frame [OF pe] table_simps md_of_def md_row_of_def t Let_def)
qed

end
