(* ===== verification/Query.thy ===== *)
theory Query
  imports CatalogProps
begin

text \<open>
  The query layer of \<open>internal/search\<close> (\<open>query.go\<close>, \<open>display.go\<close>): principals, the split of
  the synthetic episode roles, pruning, and the listings with their visibility clauses. Postgres'
  text matching, collations and time parsing are parameters (\<open>query_env\<close>): \<open>fts_match\<close> is
  \<open>fts @@ to_tsquery\<close> on the indexed text, \<open>similar\<close> is \<open>word_similarity >= 0.4\<close>,
  \<open>order_events\<close>/\<open>order_series\<close> sort. A clause on a NULL column is NULL, which excludes the row.
\<close>

section \<open>Principals\<close>

datatype surface = AdminEvents | APIEvents | AdminSeries | APISeries | EngageEpisode | EngageSeries

record principal =
  p_roles :: "string list"

definition admin_roles :: "string list" where
  "admin_roles = [''ROLE_ADMIN'', ''ROLE_GLOBAL_ADMIN'']"

definition is_admin :: "principal \<Rightarrow> bool" where
  "is_admin p = list_ex (\<lambda>r. r \<in> set admin_roles) (p_roles p)"

datatype grant = GrantRead string | GrantWrite string

text \<open>\<open>^ROLE_EPISODE_(.+)_(READ|WRITE)$\<close>; \<open>.\<close> does not match a newline.\<close>

definition episode_prefix :: string where
  "episode_prefix = ''ROLE_EPISODE_''"

definition strip_suffix :: "string \<Rightarrow> string \<Rightarrow> string option" where
  "strip_suffix suf s = (if has_suffix s suf then Some (take (length s - length suf) s) else None)"

definition episode_grant :: "string \<Rightarrow> grant option" where
  "episode_grant r =
     (if \<not> has_prefix r episode_prefix then None
      else let rest = drop (length episode_prefix) r;
               good = (\<lambda>i. i \<noteq> [] \<and> CHR 0x0A \<notin> set i)
        in case strip_suffix ''_READ'' rest of
             Some i \<Rightarrow> if good i then Some (GrantRead i) else None
           | None \<Rightarrow>
               (case strip_suffix ''_WRITE'' rest of
                  Some i \<Rightarrow> if good i then Some (GrantWrite i) else None
                | None \<Rightarrow> None))"

fun split_roles :: "string list \<Rightarrow> string list \<times> string list \<times> string list" where
  "split_roles [] = ([], [], [])"
| "split_roles (r # rs) =
     (case split_roles rs of (plain, rd, wr) \<Rightarrow>
       (case episode_grant r of
          Some (GrantRead i) \<Rightarrow> (plain, i # rd, wr)
        | Some (GrantWrite i) \<Rightarrow> (plain, rd, i # wr)
        | None \<Rightarrow> (r # plain, rd, wr)))"

definition prune :: "catalog \<Rightarrow> string list \<Rightarrow> string list" where
  "prune c roles =
     (if roles = [] then roles
      else remdups (filter (\<lambda>r. r \<in> set roles) (map (\<lambda>(k, e). role e) (acl_entry (c_acl c)))))"

definition overlaps :: "string set \<Rightarrow> string list \<Rightarrow> bool" where
  "overlaps A roles = list_ex (\<lambda>r. r \<in> A) roles"

section \<open>Queries\<close>

record query =
  q_surface :: surface
  q_filters :: "(string \<times> string) list"
  q_text :: string
  q_sort :: "(string \<times> bool) list"
  q_limit :: int
  q_offset :: int
  q_by_id :: string

record item =
  it_id :: string
  it_title :: string

record listing =
  l_items :: "item list"
  l_total :: nat

datatype query_error =
    NotAnEventSurface
  | NotASeriesSurface
  | BadStartDate string
  | UnknownFilter string
  | UnsortableField string
  | NegativeOffset

record query_env =
  fts_match :: "string \<Rightarrow> string \<Rightarrow> bool"
  similar :: "string \<Rightarrow> string \<Rightarrow> bool"
  parse_time :: "string \<Rightarrow> int option"
  order_events :: "bool \<Rightarrow> (string \<times> bool) list \<Rightarrow> (string \<times> event_row) list \<Rightarrow> (string \<times> event_row) list"
  order_series :: "bool \<Rightarrow> (string \<times> listed_series) list \<Rightarrow> (string \<times> listed_series) list"

definition events_clause ::
  "catalog \<Rightarrow> principal \<Rightarrow> surface \<Rightarrow> (query_error, string \<times> event_row \<Rightarrow> bool) result" where
  "events_clause c p sf =
     (if is_admin p then Inr (\<lambda>_. True)
      else case split_roles (p_roles p) of (plain, rd, wr) \<Rightarrow>
        let pruned = prune c plain
        in case sf of
             AdminEvents \<Rightarrow> Inr (\<lambda>(i, r). (overlaps (se_acl_read r) pruned \<or> i \<in> set rd) \<and>
                                            (overlaps (se_acl_write r) pruned \<or> i \<in> set wr))
           | APIEvents \<Rightarrow> Inr (\<lambda>(i, r). overlaps (se_acl_read r) pruned \<or> i \<in> set rd)
           | EngageEpisode \<Rightarrow> Inr (\<lambda>(i, r). overlaps (se_pub_read r) pruned \<or> i \<in> set rd)
           | _ \<Rightarrow> Inl NotAnEventSurface)"

definition event_filter ::
  "query_env \<Rightarrow> string \<times> string \<Rightarrow> (query_error, event_row \<Rightarrow> bool) result" where
  "event_filter env nv =
     (case nv of (name, v) \<Rightarrow>
        if name = ''series'' then Inr (\<lambda>r. se_series r = Some v)
        else if name = ''status'' then Inr (\<lambda>r. se_status r = Some v)
        else if name = ''location'' then Inr (\<lambda>r. se_location r = Some v)
        else if name = ''language'' then Inr (\<lambda>r. se_language r = Some v)
        else if name = ''presentersBibliographic'' \<or> name = ''presenters''
          then Inr (\<lambda>r. v \<in> set (se_presenters r))
        else if name = ''startDate'' then
          (case cut_at CHR ''/'' v of (from, to, ok) \<Rightarrow>
            if \<not> ok then Inl (BadStartDate v)
            else case parse_time env from of
                None \<Rightarrow> Inl (BadStartDate from)
              | Some a \<Rightarrow> (case parse_time env to of
                  None \<Rightarrow> Inl (BadStartDate to)
                | Some b \<Rightarrow> Inr (\<lambda>r. case se_start r of None \<Rightarrow> False | Some t \<Rightarrow> a \<le> t \<and> t \<le> b)))
        else Inl (UnknownFilter name))"

text \<open>\<open>strings.Fields\<close>: the maximal runs of non-space.\<close>

fun fields_acc :: "string \<Rightarrow> string \<Rightarrow> string list" where
  "fields_acc acc [] = (if acc = [] then [] else [rev acc])"
| "fields_acc acc (x # xs) =
     (if is_space x then (if acc = [] then fields_acc [] xs else rev acc # fields_acc [] xs)
      else fields_acc (x # acc) xs)"

definition fields :: "string \<Rightarrow> string list" where
  "fields s = fields_acc [] s"

definition quote_term :: "string \<Rightarrow> string" where
  "quote_term t = [CHR 0x27] @ concat (map (\<lambda>x. if x = CHR 0x27 then [CHR 0x27, CHR 0x27]
      else if x = CHR 0x5C then [] else [x]) t) @ [CHR 0x27]"

fun tsquery_parts :: "string list \<Rightarrow> string list" where
  "tsquery_parts [] = []"
| "tsquery_parts [t] = [quote_term t @ '':*'']"
| "tsquery_parts (t # u # ts) = quote_term t # tsquery_parts (u # ts)"

text \<open>The fallback to similarity is decided over the whole table, before any visibility clause.\<close>

definition fulltext ::
  "query_env \<Rightarrow> (string \<times> string option) list \<Rightarrow> string \<Rightarrow> (string \<times> string option) \<Rightarrow> bool" where
  "fulltext env corpus text =
     (let terms = fields (trim_space text); tsq = join_with '' & '' (tsquery_parts terms)
      in if trim_space text = [] then (\<lambda>_. True)
         else if list_ex (\<lambda>(txt, title). fts_match env txt tsq) corpus
              then (\<lambda>(txt, title). fts_match env txt tsq)
              else (\<lambda>(txt, title). list_all (\<lambda>t. similar env t (text_of title)) terms))"

definition sort_column :: "string \<Rightarrow> string option" where
  "sort_column f =
     (if f = ''title'' then Some ''title'' else if f = ''start_date'' \<or> f = ''date'' then Some ''start_date''
      else if f = ''created'' then Some ''created'' else None)"

fun sort_keys :: "(string \<times> bool) list \<Rightarrow> (query_error, (string \<times> bool) list) result" where
  "sort_keys [] = Inr []"
| "sort_keys ((f, d) # ks) =
     (case sort_column f of
        None \<Rightarrow> Inl (UnsortableField f)
      | Some col \<Rightarrow> bind_result (sort_keys ks) (\<lambda>rest. Inr ((col, d) # rest)))"

definition page_of :: "int \<Rightarrow> int \<Rightarrow> 'a list \<Rightarrow> 'a list" where
  "page_of limit offset xs = take (nat limit) (drop (nat offset) xs)"

definition events :: "query_env \<Rightarrow> catalog \<Rightarrow> principal \<Rightarrow> query \<Rightarrow> (query_error, listing) result" where
  "events env c p q =
     bind_result (events_clause c p (q_surface q)) (\<lambda>visible.
     bind_result (traverse (event_filter env) (q_filters q)) (\<lambda>flts.
     bind_result (sort_keys (q_sort q)) (\<lambda>keys.
       let engage = (q_surface q = EngageEpisode);
           corpus = map (\<lambda>(i, r). (se_text r, se_title r)) (c_se c);
           text = fulltext env corpus (q_text q);
           cond = (\<lambda>(i, r). visible (i, r) \<and> (engage \<longrightarrow> se_published r) \<and>
                    (q_by_id q = [] \<or> i = q_by_id q) \<and> list_all (\<lambda>f. f r) flts \<and>
                    text (se_text r, se_title r));
           rows = filter cond (c_se c);
           limit = (if q_limit q \<le> 0 then 100 else q_limit q)
       in if q_offset q < 0 then Inl NegativeOffset
          else Inr \<lparr>l_items = map (\<lambda>(i, r). \<lparr>it_id = i, it_title = text_of (se_title r)\<rparr>)
                       (page_of limit (q_offset q) (order_events env engage keys rows)),
                    l_total = length rows\<rparr>)))"

definition series_clause ::
  "catalog \<Rightarrow> principal \<Rightarrow> surface \<Rightarrow> (query_error, listed_series \<Rightarrow> bool) result" where
  "series_clause c p sf =
     (if is_admin p then Inr (\<lambda>_. True)
      else let pruned = prune c (fst (split_roles (p_roles p)))
        in case sf of
             AdminSeries \<Rightarrow> Inr (\<lambda>r. overlaps (ss_acl_read r) pruned \<and> overlaps (ss_acl_write r) pruned)
           | APISeries \<Rightarrow> Inr (\<lambda>r. overlaps (ss_acl_read r) pruned)
           | EngageSeries \<Rightarrow> Inr (\<lambda>r. overlaps (ss_pub_read r) pruned)
           | _ \<Rightarrow> Inl NotASeriesSurface)"

definition series_query :: "query_env \<Rightarrow> catalog \<Rightarrow> principal \<Rightarrow> query \<Rightarrow> (query_error, listing) result" where
  "series_query env c p q =
     bind_result (series_clause c p (q_surface q)) (\<lambda>visible.
       let engage = (q_surface q = EngageSeries);
           corpus = map (\<lambda>(i, r). (ss_text r, ss_title r)) (c_ss c);
           text = fulltext env corpus (q_text q);
           rows = filter (\<lambda>(i, r). visible r \<and> (engage \<longrightarrow> ss_has_published r) \<and>
                    text (ss_text r, ss_title r)) (c_ss c);
           limit = (if q_limit q \<le> 0 then 100 else q_limit q)
       in if q_offset q < 0 then Inl NegativeOffset
          else Inr \<lparr>l_items = map (\<lambda>(i, r). \<lparr>it_id = i, it_title = text_of (ss_title r)\<rparr>)
                       (page_of limit (q_offset q) (order_series env engage rows)),
                    l_total = length rows\<rparr>)"

text \<open>\<open>SeriesSubstring\<close>; \<open>ilike\<close> is the parameter (pattern characters of \<open>q\<close> are Postgres').\<close>

definition series_substring ::
  "query_env \<Rightarrow> (string \<Rightarrow> string \<Rightarrow> bool) \<Rightarrow> catalog \<Rightarrow> principal \<Rightarrow> string \<Rightarrow> int \<Rightarrow> int
     \<Rightarrow> (query_error, listing) result" where
  "series_substring env ilike c p q limit0 offset =
     (let pruned = prune c (fst (split_roles (p_roles p)));
          rows = filter (\<lambda>(i, r). ss_has_published r \<and>
                   (case ss_title r of None \<Rightarrow> False | Some t \<Rightarrow> ilike t (''%'' @ q @ ''%'')) \<and>
                   (is_admin p \<or> overlaps (ss_pub_read r) pruned)) (c_ss c);
          limit = (if limit0 \<le> 0 then 20 else limit0)
      in if offset < 0 then Inl NegativeOffset
         else Inr \<lparr>l_items = map (\<lambda>(i, r). \<lparr>it_id = i, it_title = text_of (ss_title r)\<rparr>)
                      (page_of limit offset (order_series env True rows)),
                   l_total = length rows\<rparr>)"

section \<open>Display rows\<close>

record event_display =
  ed_id :: string
  ed_title :: string
  ed_series :: string
  ed_series_title :: string
  ed_status :: string
  ed_presenters :: "string list"
  ed_contributors :: "string list"
  ed_location :: string
  ed_language :: string
  ed_description :: string
  ed_subjects :: "string list"
  ed_license :: string
  ed_start :: "int option"
  ed_created :: "int option"
  ed_duration :: "int option"
  ed_published :: bool

definition display_of :: "string \<Rightarrow> event_row \<Rightarrow> event_display" where
  "display_of i r =
     \<lparr>ed_id = i, ed_title = text_of (se_title r), ed_series = text_of (se_series r),
      ed_series_title = text_of (se_series_title r), ed_status = text_of (se_status r),
      ed_presenters = se_presenters r, ed_contributors = se_contributors r,
      ed_location = text_of (se_location r), ed_language = text_of (se_language r),
      ed_description = text_of (se_description r), ed_subjects = se_subjects r,
      ed_license = text_of (se_license r), ed_start = se_start r, ed_created = se_created r,
      ed_duration = se_duration r, ed_published = se_published r\<rparr>"

definition events_display :: "catalog \<Rightarrow> string list \<Rightarrow> string \<Rightarrow> event_display option" where
  "events_display c is =
     map_of (map (\<lambda>(i, r). (i, display_of i r)) (filter (\<lambda>(i, r). i \<in> set is) (c_se c)))"

definition event_display_by_id :: "catalog \<Rightarrow> string \<Rightarrow> (cat_error, event_display) result" where
  "event_display_by_id c i =
     (case events_display c [i] i of None \<Rightarrow> Inl NoRows | Some d \<Rightarrow> Inr d)"


record series_display =
  sd_id :: string
  sd_title :: string
  sd_contributors :: "string list"
  sd_organizers :: "string list"
  sd_language :: string
  sd_description :: string
  sd_subjects :: "string list"
  sd_created :: "int option"

definition series_display_by_id :: "catalog \<Rightarrow> string \<Rightarrow> (cat_error, series_display) result" where
  "series_display_by_id c i =
     (case map_of (c_ss c) i of
        None \<Rightarrow> Inl NoRows
      | Some r \<Rightarrow> Inr \<lparr>sd_id = i, sd_title = text_of (ss_title r), sd_contributors = ss_contributors r,
          sd_organizers = ss_organizers r, sd_language = text_of (ss_language r),
          sd_description = text_of (ss_description r), sd_subjects = ss_subjects r,
          sd_created = ss_created r\<rparr>)"

text \<open>\<open>FilterOptions\<close>: the 11 keys of the filter contract; deliberately not ACL-scoped.\<close>

datatype filter_value = Options "(string \<times> string) list" | Period

definition distinct_values :: "(event_row \<Rightarrow> string option) \<Rightarrow> catalog \<Rightarrow> string list" where
  "distinct_values col c = remdups (concat (map (\<lambda>(i, r). case col r of None \<Rightarrow> [] | Some v \<Rightarrow> [v]) (c_se c)))"

definition to_options :: "string list \<Rightarrow> (string \<times> string) list" where
  "to_options vals = map (\<lambda>v. (v, v)) vals"

definition yes_no :: filter_value where
  "yes_no = Options [(''true'', ''YES''), (''false'', ''NO'')]"

definition filter_options :: "catalog \<Rightarrow> (string \<times> filter_value) list" where
  "filter_options c =
     [(''agent'', Options []),
      (''comments'', Options [(''NONE'', ''NONE''), (''OPEN'', ''OPEN''), (''RESOLVED'', ''RESOLVED'')]),
      (''isPublished'', yes_no),
      (''language'', Options (to_options (distinct_values se_language c))),
      (''location'', Options (to_options (distinct_values se_location c))),
      (''needsCutting'', yes_no),
      (''readAccess'', Options []),
      (''series'', Options (map (\<lambda>(i, r). (i, text_of (ss_title r))) (c_ss c))),
      (''startDate'', Period),
      (''status'', Options (to_options (distinct_values se_status c))),
      (''writeAccess'', Options [])]"

section \<open>Pruning and splitting\<close>

definition vocabulary :: "catalog \<Rightarrow> string set" where
  "vocabulary c = (\<lambda>(k, e). role e) ` set (acl_entry (c_acl c))"

lemma set_prune: "set (prune c roles) = set roles \<inter> vocabulary c"
  by (auto simp: prune_def vocabulary_def)

lemma overlaps_iff: "overlaps A roles \<longleftrightarrow> A \<inter> set roles \<noteq> {}"
  by (auto simp: overlaps_def list_ex_iff)

lemma overlaps_prune: "A \<subseteq> vocabulary c \<Longrightarrow> overlaps A (prune c roles) = overlaps A roles"
  by (auto simp: overlaps_iff set_prune)

lemma pin_vocabulary: "pin_roles k act (c_acl c) \<subseteq> vocabulary c"
  by (force simp: mem_pin_roles entries_of_def vocabulary_def)

lemma split_roles_sets:
  "set (fst (split_roles rs)) = {r \<in> set rs. episode_grant r = None}"
  "set (fst (snd (split_roles rs))) = {i. \<exists>r \<in> set rs. episode_grant r = Some (GrantRead i)}"
  "set (snd (snd (split_roles rs))) = {i. \<exists>r \<in> set rs. episode_grant r = Some (GrantWrite i)}"
  by (induction rs) (auto split: prod.splits option.splits grant.splits)

section \<open>Visibility in terms of the authoritative tables\<close>

definition plain_overlap :: "string set \<Rightarrow> principal \<Rightarrow> bool" where
  "plain_overlap A p = list_ex (\<lambda>r. episode_grant r = None \<and> r \<in> A) (p_roles p)"

definition holds_grant :: "grant \<Rightarrow> principal \<Rightarrow> bool" where
  "holds_grant g p = list_ex (\<lambda>r. episode_grant r = Some g) (p_roles p)"

definition may_act :: "catalog \<Rightarrow> principal \<Rightarrow> string \<Rightarrow> (string \<Rightarrow> grant) \<Rightarrow> string \<Rightarrow> bool" where
  "may_act c p act g i = (plain_overlap (pin_roles (ScopeEvent, i) act (c_acl c)) p \<or> holds_grant (g i) p)"

fun may_list :: "catalog \<Rightarrow> principal \<Rightarrow> surface \<Rightarrow> string \<Rightarrow> bool" where
  "may_list c p AdminEvents i =
     (is_admin p \<or> (may_act c p ''read'' GrantRead i \<and> may_act c p ''write'' GrantWrite i))"
| "may_list c p APIEvents i = (is_admin p \<or> may_act c p ''read'' GrantRead i)"
| "may_list c p EngageEpisode i =
     (published c i \<and>
      (is_admin p \<or> plain_overlap (engage_pin c i) p \<or> holds_grant (GrantRead i) p))"
| "may_list c p sf i = is_admin p"

text \<open>
  What pruning takes away from that rule. \<open>Prune\<close> keeps the held roles that some policy names today;
  a pin is as old as its publication, so it may name roles that no policy names any more. An event is
  pruned from the engage listing when the principal is no administrator, holds no direct grant, and every
  pinned role it holds is such a role.
\<close>

definition in_vocabulary :: "catalog \<Rightarrow> string \<Rightarrow> bool" where
  "in_vocabulary c r = list_ex (\<lambda>(k, e). role e = r) (acl_entry (c_acl c))"

definition pruned_away :: "catalog \<Rightarrow> principal \<Rightarrow> surface \<Rightarrow> string \<Rightarrow> bool" where
  "pruned_away c p sf i =
     (sf = EngageEpisode \<and> \<not> is_admin p \<and> \<not> holds_grant (GrantRead i) p \<and>
      list_all (\<lambda>r. episode_grant r = None \<and> r \<in> engage_pin c i \<longrightarrow> \<not> in_vocabulary c r) (p_roles p))"

lemma in_vocabulary_iff: "in_vocabulary c r \<longleftrightarrow> r \<in> vocabulary c"
  by (force simp: in_vocabulary_def vocabulary_def list_ex_iff)

lemma not_pruned_away: "engage_pin c i \<subseteq> vocabulary c \<Longrightarrow> may_list c p sf i \<Longrightarrow> \<not> pruned_away c p sf i"
  by (cases sf) (auto simp: pruned_away_def plain_overlap_def list_ex_iff list_all_iff in_vocabulary_iff)

lemma clause_may_list:
  assumes "events_clause c p sf = Inr visible" and "derived_event c i = Some r"
  shows "visible (i, r) \<and> (sf = EngageEpisode \<longrightarrow> se_published r) \<longleftrightarrow>
    may_list c p sf i \<and> \<not> pruned_away c p sf i"
proof -
  obtain m where r: "r = event_row_of c i m"
    using assms(2) by (auto simp: derived_event_def split: option.splits if_splits)
  have cols: "se_acl_read r = pin_roles (ScopeEvent, i) ''read'' (c_acl c)"
    "se_acl_write r = pin_roles (ScopeEvent, i) ''write'' (c_acl c)"
    "se_pub_read r = engage_pin c i" "se_published r = published c i"
    by (simp_all add: r event_row_of_def Let_def)
  obtain plain rd wr where sp: "split_roles (p_roles p) = (plain, rd, wr)" by (rule prod_cases3)
  have plain: "overlaps A (prune c plain) = plain_overlap (A \<inter> vocabulary c) p" for A
    using split_roles_sets(1) [of "p_roles p"]
    by (auto simp: sp overlaps_iff set_prune plain_overlap_def list_ex_iff)
  have rd: "i \<in> set rd \<longleftrightarrow> holds_grant (GrantRead i) p" and wr: "i \<in> set wr \<longleftrightarrow> holds_grant (GrantWrite i) p"
    using split_roles_sets(2,3) [of "p_roles p"] by (auto simp: sp holds_grant_def list_ex_iff)
  have pins: "pin_roles k act (c_acl c) \<inter> vocabulary c = pin_roles k act (c_acl c)" for k act
    using pin_vocabulary by blast
  have voc: "plain_overlap (A \<inter> vocabulary c) p \<longleftrightarrow>
      \<not> list_all (\<lambda>r. episode_grant r = None \<and> r \<in> A \<longrightarrow> \<not> in_vocabulary c r) (p_roles p)" for A
    by (auto simp: plain_overlap_def list_ex_iff list_all_iff in_vocabulary_iff)
  have mono: "plain_overlap (A \<inter> vocabulary c) p \<Longrightarrow> plain_overlap A p" for A
    by (auto simp: plain_overlap_def list_ex_iff)
  show ?thesis
  proof (cases "sf = EngageEpisode")
    case True
    then show ?thesis
      using assms(1) mono [of "engage_pin c i"]
      by (auto simp: events_clause_def sp Let_def cols plain rd pruned_away_def voc [symmetric] split: if_splits)
  next
    case False
    then show ?thesis
      using assms(1)
      by (cases sf) (auto simp: events_clause_def sp Let_def cols plain rd wr pins may_act_def pruned_away_def
          split: if_splits)
  qed
qed

lemma fulltext_empty [simp]: "fulltext env corpus [] = (\<lambda>_. True)"
  by (simp add: fulltext_def Let_def)

definition visible_rows :: "(string \<times> event_row \<Rightarrow> bool) \<Rightarrow> surface \<Rightarrow> catalog \<Rightarrow> (string \<times> event_row) list" where
  "visible_rows visible sf c =
     filter (\<lambda>(i, r). visible (i, r) \<and> (sf = EngageEpisode \<longrightarrow> se_published r)) (c_se c)"

lemma events_unfiltered:
  assumes "events env c p q = Inr l"
    and "q_filters q = []" and "q_text q = []" and "q_by_id q = []"
  obtains visible keys where "events_clause c p (q_surface q) = Inr visible"
    and "l_total l = length (visible_rows visible (q_surface q) c)"
    and "map it_id (l_items l) = map fst (page_of (if q_limit q \<le> 0 then 100 else q_limit q) (q_offset q)
           (order_events env (q_surface q = EngageEpisode) keys (visible_rows visible (q_surface q) c)))"
proof -
  obtain visible keys where v: "events_clause c p (q_surface q) = Inr visible"
    and k: "sort_keys (q_sort q) = Inr keys"
    using assms(1) by (auto simp: events_def)
  have "l = \<lparr>l_items = map (\<lambda>(i, r). \<lparr>it_id = i, it_title = text_of (se_title r)\<rparr>)
      (page_of (if q_limit q \<le> 0 then 100 else q_limit q) (q_offset q)
        (order_events env (q_surface q = EngageEpisode) keys (visible_rows visible (q_surface q) c))),
      l_total = length (visible_rows visible (q_surface q) c)\<rparr>"
    using assms(1) unfolding events_def v k assms(2-4) visible_rows_def
    by (simp only: bind_result.simps traverse.simps fulltext_empty Let_def list.pred_inject
        case_prod_unfold split: if_splits) auto
  then show ?thesis using that [OF v, of keys] by (simp add: comp_def case_prod_unfold)
qed

lemma visible_rows_mem:
  assumes "in_sync c" and "events_clause c p sf = Inr visible"
  shows "(i, r) \<in> set (visible_rows visible sf c) \<longleftrightarrow> derived_event c i = Some r \<and> may_list c p sf i \<and> \<not> pruned_away c p sf i"
proof -
  have keys: "distinct (map fst (c_se c))" and mo: "map_of (c_se c) i = derived_event c i"
    using assms(1) by (auto simp: in_sync_def keys_ok_def)
  have "(i, r) \<in> set (c_se c) \<longleftrightarrow> derived_event c i = Some r"
    using map_of_eq_Some_iff [OF keys, of i r] mo by simp
  then show ?thesis using clause_may_list [OF assms(2), of i r] by (auto simp: visible_rows_def)
qed

lemma page_of_props:
  "set (page_of lim off xs) \<subseteq> set xs" "distinct xs \<Longrightarrow> distinct (page_of lim off xs)"
  "length (page_of lim off xs) = min (nat lim) (length xs - nat off)"
  "map f (page_of lim off xs) = page_of lim off (map f xs)"
  by (auto simp: page_of_def take_map drop_map dest: in_set_takeD in_set_dropD)

text \<open>C11: Listings are exact, with the one exception named. Over a store whose projection is in step, an
  unfiltered event listing is decided by the authoritative tables: the events the principal may list are
  the live ones it may read and write on the admin surface, may read on the API, and on the engage surface
  the published ones whose pin names a role it holds (or to which it holds a direct grant; administrators
  see all). The listing counts and pages exactly those, no event twice, less the events pruned away: on
  the engage surface, those whose only pinned roles among the principal's are roles that no policy names
  any more. When every pinned role is still in some policy nothing is pruned and the listing is exactly
  the rule of \<open>query.go\<close>, published and read on the pin; otherwise the code hides events from a
  principal whom their pin admits. Assumed is that sorting permutes the rows.\<close>

theorem listing_is_exact:
  assumes "in_sync c" and "events env c p q = Inr l"
    and "q_filters q = []" and "q_text q = []" and "q_by_id q = []"
    and "\<And>b ks xs. mset (order_events env b ks xs) = mset xs"
  shows "let may = {i. derived_event c i \<noteq> None \<and> may_list c p (q_surface q) i};
      pruned = {i \<in> may. pruned_away c p (q_surface q) i}
    in l_total l = card (may - pruned) \<and>
      it_id ` set (l_items l) \<subseteq> may - pruned \<and>
      distinct (map it_id (l_items l)) \<and>
      length (l_items l) = min (if q_limit q \<le> 0 then 100 else nat (q_limit q)) (l_total l - nat (q_offset q)) \<and>
      ((\<forall>i \<in> may. engage_pin c i \<subseteq> vocabulary c) \<longrightarrow> pruned = {})"
proof -
  let ?M = "{i. derived_event c i \<noteq> None \<and> may_list c p (q_surface q) i}"
  let ?V = "?M - {i \<in> ?M. pruned_away c p (q_surface q) i}"
  obtain visible keys where cl: "events_clause c p (q_surface q) = Inr visible"
    and tot: "l_total l = length (visible_rows visible (q_surface q) c)"
    and items: "map it_id (l_items l) = map fst (page_of (if q_limit q \<le> 0 then 100 else q_limit q) (q_offset q)
           (order_events env (q_surface q = EngageEpisode) keys (visible_rows visible (q_surface q) c)))"
    using events_unfiltered [OF assms(2-5)] by blast
  define rows where "rows = visible_rows visible (q_surface q) c"
  define sorted where "sorted = order_events env (q_surface q = EngageEpisode) keys rows"
  define lim where "lim = (if q_limit q \<le> 0 then 100 else q_limit q)"
  have items': "map it_id (l_items l) = page_of lim (q_offset q) (map fst sorted)"
    using items by (simp add: rows_def sorted_def lim_def page_of_props(4))
  have "mset sorted = mset rows" by (simp add: sorted_def assms(6))
  then have ms: "mset (map fst sorted) = mset (map fst rows)" by simp
  have V: "set (map fst rows) = ?V"
    using visible_rows_mem [OF assms(1) cl] by (force simp: rows_def)
  have d: "distinct (map fst rows)"
    using assms(1) by (simp add: rows_def visible_rows_def in_sync_def keys_ok_def distinct_map_filter)
  have ds: "distinct (map fst sorted)" using d mset_eq_imp_distinct_iff [OF ms] by simp
  have card: "card ?V = length rows" using distinct_card [OF d] V by simp
  have sub: "it_id ` set (l_items l) \<subseteq> ?V"
    using arg_cong [OF items', of set] page_of_props(1) [of lim "q_offset q" "map fst sorted"]
      mset_eq_setD [OF ms] V by simp
  have dist: "distinct (map it_id (l_items l))"
    unfolding items' using ds by (rule page_of_props(2))
  have len: "length (l_items l) = min (nat lim) (length rows - nat (q_offset q))"
    using arg_cong [OF items', of length] mset_eq_length [OF ms] by (simp add: page_of_props(3))
  have none: "(\<forall>i \<in> ?M. engage_pin c i \<subseteq> vocabulary c) \<longrightarrow> {i \<in> ?M. pruned_away c p (q_surface q) i} = {}"
    using not_pruned_away by auto
  show ?thesis unfolding Let_def
  proof (intro conjI)
    show "l_total l = card ?V" using tot by (simp only: card rows_def)
    show "length (l_items l) = min (if q_limit q \<le> 0 then 100 else nat (q_limit q)) (l_total l - nat (q_offset q))"
      using len tot by (simp add: rows_def lim_def)
  qed (fact sub dist none)+
qed

definition demo_env :: query_env where
  "demo_env = \<lparr>fts_match = (\<lambda>_ _. True), similar = (\<lambda>_ _. True), parse_time = (\<lambda>_. None),
     order_events = (\<lambda>_ _ xs. xs), order_series = (\<lambda>_ xs. xs)\<rparr>"

definition demo_query :: "surface \<Rightarrow> query" where
  "demo_query sf = \<lparr>q_surface = sf, q_filters = [], q_text = [], q_sort = [], q_limit = 0, q_offset = 0, q_by_id = []\<rparr>"

theorem listing_is_exact_witness:
  "card {i. derived_event demo_published i \<noteq> None \<and> may_list demo_published \<lparr>p_roles = [''R'']\<rparr> APIEvents i} = 1"
proof -
  let ?r = "events demo_env demo_published \<lparr>p_roles = [''R'']\<rparr> (demo_query APIEvents)"
  have "(case ?r of Inl e \<Rightarrow> False | Inr l \<Rightarrow> l_total l = 1)" by code_simp
  then obtain l where l: "?r = Inr l" and t: "l_total l = 1" by (auto split: sum.splits)
  show ?thesis
    using listing_is_exact [OF demo_published_sync l] t
    by (simp add: demo_query_def demo_env_def Let_def pruned_away_def)
qed

end
