(* ===== verification/Serve.thy ===== *)
theory Serve
  imports Query
begin

text \<open>
  Delivery (\<open>internal/serve\<close>): the D-044 authorization over publication pins, the element handler
  with its conditional and range requests, and the publication listing. The object store is the
  parameter \<open>has_object\<close> (a digest is present); HTTP dates are the parameters \<open>http_date\<close>
  (format) and \<open>parse_http_date\<close>; the principal is what \<open>authn\<close> resolved for the request.
\<close>

section \<open>Authorization\<close>

record pin =
  pin_mp :: string
  pin_channel :: string
  pin_read :: "string set"
  pin_state :: acl_state

definition episode_read_role :: "string \<Rightarrow> string" where
  "episode_read_role mp = ''ROLE_EPISODE_'' @ mp @ ''_READ''"

fun pins_grant :: "pin list \<Rightarrow> string list \<Rightarrow> bool" where
  "pins_grant [] roles = False"
| "pins_grant (q # qs) roles =
     (if episode_read_role (pin_mp q) \<in> set roles then True
      else if list_ex (\<lambda>r. r \<in> pin_read q) roles then True
      else pins_grant qs roles)"

definition authorized :: "pin list \<Rightarrow> principal \<Rightarrow> bool" where
  "authorized pins p = (if is_admin p then True else pins_grant pins (p_roles p))"

text \<open>\<open>pinsForElement\<close>: the join of \<open>publication_element\<close> with \<open>publication\<close>.\<close>

definition pins_for_element :: "catalog \<Rightarrow> string \<Rightarrow> pin list" where
  "pins_for_element c e =
     concat (map (\<lambda>(pid, el). if el \<noteq> e then [] else
       concat (map (\<lambda>((mp, ch), r). if pub_id r = pid
         then [\<lparr>pin_mp = mp, pin_channel = ch, pin_read = pub_acl_read r, pin_state = pub_acl_state r\<rparr>] else [])
         (c_pub c))) (c_pubel c))"

section \<open>Conditional requests and ranges\<close>

definition etag_of :: "string \<Rightarrow> string" where
  "etag_of sha = [CHR 0x22] @ sha @ [CHR 0x22]"

definition if_none_match_hits :: "string \<Rightarrow> string \<Rightarrow> bool" where
  "if_none_match_hits header etag =
     (if trim_space header = ''*'' then True
      else list_ex (\<lambda>part. trim_prefix (trim_space part) ''W/'' = etag) (split_on CHR '','' header))"

datatype range_verdict = RangeIgnore | RangeSingle int int | RangeUnsatisfiable

definition parse_range :: "string \<Rightarrow> int \<Rightarrow> range_verdict" where
  "parse_range spec0 size_bytes =
     (let spec1 = trim_space spec0
      in if \<not> has_prefix spec1 ''bytes='' then RangeIgnore
         else let spec = trim_prefix spec1 ''bytes=''
           in if CHR '','' \<in> set spec then RangeIgnore
              else case cut_at CHR ''-'' spec of (f0, l0, ok) \<Rightarrow>
                if \<not> ok then RangeIgnore
                else let first = trim_space f0; last = trim_space l0
                  in if first = [] \<and> last \<noteq> [] then
                       (case parse_int64 last of
                          None \<Rightarrow> RangeIgnore
                        | Some n \<Rightarrow> if n \<le> 0 then RangeIgnore
                            else let n' = (if size_bytes < n then size_bytes else n)
                              in RangeSingle (size_bytes - n') (size_bytes - 1))
                     else if first \<noteq> [] then
                       (case parse_int64 first of
                          None \<Rightarrow> RangeIgnore
                        | Some s \<Rightarrow>
                            if size_bytes \<le> s then RangeUnsatisfiable
                            else if last = [] then RangeSingle s (size_bytes - 1)
                            else case parse_int64 last of
                                None \<Rightarrow> RangeIgnore
                              | Some e \<Rightarrow> if e < s then RangeIgnore
                                  else RangeSingle s (if size_bytes - 1 < e then size_bytes - 1 else e))
                     else RangeIgnore)"

section \<open>The element handler\<close>

record request =
  rq_principal :: principal
  rq_if_none_match :: string
  rq_if_modified_since :: string
  rq_range :: string
  rq_download :: bool

datatype body = ErrorText string | NoBody | WholeObject string | ObjectRange string int int

record response =
  rs_status :: int
  rs_headers :: "(string \<times> string) list"
  rs_body :: body

definition go_quoted :: "string \<Rightarrow> string" where
  "go_quoted s = [CHR 0x22] @
     concat (map (\<lambda>x. if x = CHR 0x22 \<or> x = CHR 0x5C then [CHR 0x5C, x] else [x]) s) @ [CHR 0x22]"

definition http_error :: "int \<Rightarrow> string \<Rightarrow> response" where
  "http_error st msg = \<lparr>rs_status = st, rs_headers = [], rs_body = ErrorText msg\<rparr>"

record serve_env =
  has_object :: "string \<Rightarrow> bool"
  http_date :: "int \<Rightarrow> string"
  parse_http_date :: "string \<Rightarrow> int option"

definition element_headers :: "serve_env \<Rightarrow> string \<Rightarrow> element_row \<Rightarrow> bool \<Rightarrow> (string \<times> string) list" where
  "element_headers env i el download =
     [(''ETag'', etag_of (el_sha256 el)), (''Accept-Ranges'', ''bytes''),
      (''Content-Type'', (case el_mimetype el of None \<Rightarrow> ''application/octet-stream'' | Some m \<Rightarrow> m)),
      (''X-Content-SHA256'', el_sha256 el)] @
     (if download
      then let b = path_base (text_of (el_source el));
               name = (if b = [] \<or> b = ''.'' \<or> b = ''/'' then i else b)
        in [(''Content-Disposition'', ''attachment; filename='' @ go_quoted name)]
      else []) @
     [(''Last-Modified'', http_date env (el_created_at el))]"

text \<open>\<open>created_at\<close> is in whole seconds, as \<open>Truncate(time.Second)\<close> makes it.\<close>

definition not_modified :: "serve_env \<Rightarrow> element_row \<Rightarrow> request \<Rightarrow> bool" where
  "not_modified env el rq =
     (if rq_if_none_match rq \<noteq> [] then if_none_match_hits (rq_if_none_match rq) (etag_of (el_sha256 el))
      else if rq_if_modified_since rq \<noteq> [] then
        (case parse_http_date env (rq_if_modified_since rq) of
           None \<Rightarrow> False | Some t \<Rightarrow> el_created_at el \<le> t)
      else False)"

definition send_bytes ::
  "serve_env \<Rightarrow> element_row \<Rightarrow> (string \<times> string) list \<Rightarrow> int \<Rightarrow> int \<Rightarrow> bool \<Rightarrow> response" where
  "send_bytes env el hdrs start stop partial =
     (if \<not> has_object env (el_sha256 el)
      then \<lparr>rs_status = 502, rs_headers = hdrs,
             rs_body = ErrorText ''element exists but its object is missing from CAS''\<rparr>
      else \<lparr>rs_status = (if partial then 206 else 200),
             rs_headers = hdrs @ [(''Content-Length'', dec_int (stop - start + 1))],
             rs_body = (if partial then ObjectRange (el_sha256 el) start stop else WholeObject (el_sha256 el))\<rparr>)"

definition serve_element :: "serve_env \<Rightarrow> catalog \<Rightarrow> string \<Rightarrow> request \<Rightarrow> response" where
  "serve_element env c i rq =
     (case get_element i c of
        Inl e \<Rightarrow> http_error 404 ''no such element''
      | Inr el \<Rightarrow>
          (if \<not> authorized (pins_for_element c i) (rq_principal rq) then http_error 403 ''forbidden''
           else
             let hdrs = element_headers env i el (rq_download rq); size_bytes = el_size el
             in if not_modified env el rq then \<lparr>rs_status = 304, rs_headers = hdrs, rs_body = NoBody\<rparr>
                else if rq_range rq = [] then send_bytes env el hdrs 0 (size_bytes - 1) False
                else case parse_range (rq_range rq) size_bytes of
                    RangeUnsatisfiable \<Rightarrow>
                      \<lparr>rs_status = 416, rs_headers = hdrs @ [(''Content-Range'', ''bytes */'' @ dec_int size_bytes)],
                       rs_body = NoBody\<rparr>
                  | RangeSingle s e \<Rightarrow>
                      send_bytes env el (hdrs @ [(''Content-Range'',
                        ''bytes '' @ dec_int s @ ''-'' @ dec_int e @ ''/'' @ dec_int size_bytes)]) s e True
                  | RangeIgnore \<Rightarrow> send_bytes env el hdrs 0 (size_bytes - 1) False))"

section \<open>The publication listing\<close>

record publication =
  pb_channel :: string
  pb_elements :: "string list"

text \<open>
  The rows of the join, ordered by channel and element id (\<open>order_rows\<close>); the loop folds
  consecutive rows of one channel into one publication.
\<close>

definition publication_rows :: "catalog \<Rightarrow> string \<Rightarrow> (pin \<times> string) list" where
  "publication_rows c mp =
     concat (map (\<lambda>((m, ch), r). if m \<noteq> mp then [] else
       map (\<lambda>(pid, e). (\<lparr>pin_mp = mp, pin_channel = ch, pin_read = pub_acl_read r, pin_state = pub_acl_state r\<rparr>, e))
         (filter (\<lambda>(pid, e). pid = pub_id r) (c_pubel c))) (c_pub c))"

fun collect :: "principal \<Rightarrow> (pin \<times> string) list \<Rightarrow> publication list \<Rightarrow> publication list" where
  "collect p [] pubs = pubs"
| "collect p ((q, e) # rows) pubs =
     (if \<not> authorized [q] p then collect p rows pubs
      else let pubs1 = (if pubs = [] \<or> pb_channel (last pubs) \<noteq> pin_channel q
                        then pubs @ [\<lparr>pb_channel = pin_channel q, pb_elements = []\<rparr>] else pubs)
        in collect p rows (butlast pubs1 @
             [(last pubs1)\<lparr>pb_elements := pb_elements (last pubs1) @ [e]\<rparr>]))"

definition serve_publications ::
  "((pin \<times> string) list \<Rightarrow> (pin \<times> string) list) \<Rightarrow> catalog \<Rightarrow> string \<Rightarrow> principal \<Rightarrow> publication list" where
  "serve_publications order_rows c mp p = collect p (order_rows (publication_rows c mp)) []"


section \<open>Properties\<close>

lemma pins_grant_iff:
  "pins_grant pins roles \<longleftrightarrow>
     (\<exists>q \<in> set pins. episode_read_role (pin_mp q) \<in> set roles \<or> pin_read q \<inter> set roles \<noteq> {})"
  by (induction pins roles rule: pins_grant.induct) (auto simp: list_ex_iff)

lemma authorized_iff:
  "authorized pins p \<longleftrightarrow> is_admin p \<or>
     (\<exists>q \<in> set pins. episode_read_role (pin_mp q) \<in> set (p_roles p) \<or> pin_read q \<inter> set (p_roles p) \<noteq> {})"
  by (simp add: authorized_def pins_grant_iff)

lemma authorized_single: "authorized pins p \<longleftrightarrow> is_admin p \<or> (\<exists>q \<in> set pins. authorized [q] p)"
  by (auto simp: authorized_iff)

lemma mem_pins:
  "q \<in> set (pins_for_element c e) \<longleftrightarrow>
     (\<exists>mp ch r. ((mp, ch), r) \<in> set (c_pub c) \<and> (pub_id r, e) \<in> set (c_pubel c) \<and>
        q = \<lparr>pin_mp = mp, pin_channel = ch, pin_read = pub_acl_read r, pin_state = pub_acl_state r\<rparr>)"
proof
  assume "q \<in> set (pins_for_element c e)"
  then show "\<exists>mp ch r. ((mp, ch), r) \<in> set (c_pub c) \<and> (pub_id r, e) \<in> set (c_pubel c) \<and>
        q = \<lparr>pin_mp = mp, pin_channel = ch, pin_read = pub_acl_read r, pin_state = pub_acl_state r\<rparr>"
    by (auto simp: pins_for_element_def split: if_splits)
next
  assume "\<exists>mp ch r. ((mp, ch), r) \<in> set (c_pub c) \<and> (pub_id r, e) \<in> set (c_pubel c) \<and>
        q = \<lparr>pin_mp = mp, pin_channel = ch, pin_read = pub_acl_read r, pin_state = pub_acl_state r\<rparr>"
  then obtain mp ch r where r: "((mp, ch), r) \<in> set (c_pub c)" "(pub_id r, e) \<in> set (c_pubel c)"
      "q = \<lparr>pin_mp = mp, pin_channel = ch, pin_read = pub_acl_read r, pin_state = pub_acl_state r\<rparr>"
    by blast
  then show "q \<in> set (pins_for_element c e)"
    unfolding pins_for_element_def set_concat set_map
    by (intro UN_I UnionI [OF imageI [OF r(2)]]) (auto intro!: bexI [OF _ r(1)])
qed

lemma send_bytes_status: "rs_status (send_bytes env el h a b pt) = (if has_object env (el_sha256 el) then if pt then 206 else 200 else 502)"
  by (simp add: send_bytes_def)

definition carries_bytes :: "response \<Rightarrow> bool" where
  "carries_bytes r = (case rs_body r of WholeObject s \<Rightarrow> True | ObjectRange s a b \<Rightarrow> True | _ \<Rightarrow> False)"

text \<open>C12: Delivery is fail-closed and pin-based: element bytes are sent only when the principal is an
  admin, or some publication containing the element pins a role it holds, or it holds the episode
  read role of that publication's event; an existing element nobody authorized answers 403 whatever
  the conditional and range headers say, and a refusal carries no header of the element.\<close>

theorem bytes_only_if_pinned:
  "(carries_bytes (serve_element env c i rq) \<longrightarrow>
      is_admin (rq_principal rq) \<or>
      (\<exists>mp ch r. ((mp, ch), r) \<in> set (c_pub c) \<and> (pub_id r, i) \<in> set (c_pubel c) \<and>
         (pub_acl_read r \<inter> set (p_roles (rq_principal rq)) \<noteq> {} \<or>
          episode_read_role mp \<in> set (p_roles (rq_principal rq))))) \<and>
   (rs_status (serve_element env c i rq) = 403 \<longleftrightarrow>
      map_of (c_el c) i \<noteq> None \<and> \<not> authorized (pins_for_element c i) (rq_principal rq)) \<and>
   (rs_status (serve_element env c i rq) = 403 \<longrightarrow> rs_headers (serve_element env c i rq) = [])"
proof (intro conjI)
  let ?r = "serve_element env c i rq"
  show "carries_bytes ?r \<longrightarrow> is_admin (rq_principal rq) \<or>
      (\<exists>mp ch r. ((mp, ch), r) \<in> set (c_pub c) \<and> (pub_id r, i) \<in> set (c_pubel c) \<and>
         (pub_acl_read r \<inter> set (p_roles (rq_principal rq)) \<noteq> {} \<or>
          episode_read_role mp \<in> set (p_roles (rq_principal rq))))"
  proof
    assume "carries_bytes ?r"
    then have "authorized (pins_for_element c i) (rq_principal rq)"
      by (auto simp: serve_element_def carries_bytes_def http_error_def split: sum.splits if_splits)
    then show "is_admin (rq_principal rq) \<or>
      (\<exists>mp ch r. ((mp, ch), r) \<in> set (c_pub c) \<and> (pub_id r, i) \<in> set (c_pubel c) \<and>
         (pub_acl_read r \<inter> set (p_roles (rq_principal rq)) \<noteq> {} \<or>
          episode_read_role mp \<in> set (p_roles (rq_principal rq))))"
    proof (cases "is_admin (rq_principal rq)")
      case False
      then obtain q where q: "q \<in> set (pins_for_element c i)"
        "episode_read_role (pin_mp q) \<in> set (p_roles (rq_principal rq)) \<or> pin_read q \<inter> set (p_roles (rq_principal rq)) \<noteq> {}"
        using \<open>authorized (pins_for_element c i) (rq_principal rq)\<close> unfolding authorized_iff by blast
      obtain mp ch r where "((mp, ch), r) \<in> set (c_pub c)" "(pub_id r, i) \<in> set (c_pubel c)"
        "q = \<lparr>pin_mp = mp, pin_channel = ch, pin_read = pub_acl_read r, pin_state = pub_acl_state r\<rparr>"
        using q(1) unfolding mem_pins by blast
      then show ?thesis using q(2) by (intro disjI2 exI [of _ mp] exI [of _ ch] exI [of _ r]) auto
    qed simp
  qed
  show "rs_status ?r = 403 \<longleftrightarrow>
      map_of (c_el c) i \<noteq> None \<and> \<not> authorized (pins_for_element c i) (rq_principal rq)"
    by (auto simp: serve_element_def get_element_def http_error_def send_bytes_status Let_def
        split: option.splits range_verdict.splits)
  show "rs_status ?r = 403 \<longrightarrow> rs_headers ?r = []"
    by (auto simp: serve_element_def get_element_def http_error_def send_bytes_status Let_def
        split: option.splits range_verdict.splits)
qed


definition demo_serve :: "string set \<Rightarrow> catalog" where
  "demo_serve pinned = demo_published\<lparr>
     c_el := [(''el'', \<lparr>el_mp = ''e1'', el_kind = ''track'', el_flavor = ''a/b'', el_mimetype = None,
        el_sha256 = ''ab'', el_size = 10, el_source = None, el_created_at = 5\<rparr>)],
     c_pub := [((''e1'', engage_player), \<lparr>pub_id = ''p1'', pub_acl_read = pinned, pub_acl_state = StatePopulated\<rparr>)],
     c_pubel := [(''p1'', ''el'')]\<rparr>"

definition demo_serve_env :: serve_env where
  "demo_serve_env = \<lparr>has_object = (\<lambda>_. True), http_date = (\<lambda>_. ''d''), parse_http_date = (\<lambda>_. None)\<rparr>"

definition demo_request :: "string list \<Rightarrow> string \<Rightarrow> request" where
  "demo_request roles rng = \<lparr>rq_principal = \<lparr>p_roles = roles\<rparr>, rq_if_none_match = [],
     rq_if_modified_since = [], rq_range = rng, rq_download = False\<rparr>"

theorem bytes_only_if_pinned_witness:
  "\<not> carries_bytes (serve_element demo_serve_env (demo_serve {''R''}) ''el'' (demo_request [''S''] [])) \<and>
   carries_bytes (serve_element demo_serve_env (demo_serve {''R''}) ''el'' (demo_request [''R''] []))"
proof
  show "\<not> carries_bytes (serve_element demo_serve_env (demo_serve {''R''}) ''el'' (demo_request [''S''] []))"
  proof
    assume b: "carries_bytes (serve_element demo_serve_env (demo_serve {''R''}) ''el'' (demo_request [''S''] []))"
    from conjunct1 [OF bytes_only_if_pinned, THEN mp, OF b] show False
      by (simp add: demo_request_def demo_serve_def is_admin_def admin_roles_def episode_read_role_def)
  qed
qed code_simp

section \<open>Ranges\<close>

lemma parse_range_single:
  assumes "parse_range spec n = RangeSingle s e" and "0 < n"
  shows "0 \<le> s \<and> s \<le> e \<and> e < n"
proof -
  obtain f0 l0 ok where cut: "cut_at CHR ''-'' (trim_prefix (trim_space spec) ''bytes='') = (f0, l0, ok)"
    by (rule prod_cases3)
  have nodash: "CHR ''-'' \<notin> set (trim_space f0)"
    using cut_at_fst [of "CHR ''-''" "trim_prefix (trim_space spec) ''bytes=''"] set_trim_space [of f0] cut by auto
  note pos = parse_int64_unsigned [OF _ nodash]
  show ?thesis
    using assms pos
    by (auto simp: parse_range_def Let_def cut split: if_splits option.splits)
qed

text \<open>Range bounds: whatever the \<open>Range\<close> header says, a single range accepted for a non-empty
  element lies inside it, and one is refused as unsatisfiable only for a first position at or past
  the end; for an empty element a suffix range is accepted with the impossible range 0 to -1 and
  answered 206 instead of 416.\<close>

theorem range_within_element:
  "(\<forall>s e. parse_range spec n = RangeSingle s e \<longrightarrow> 0 < n \<longrightarrow> 0 \<le> s \<and> s \<le> e \<and> e < n) \<and>
   (parse_range spec n = RangeUnsatisfiable \<longrightarrow>
      (\<exists>k f0 l0. cut_at CHR ''-'' (trim_prefix (trim_space spec) ''bytes='') = (f0, l0, True) \<and>
         parse_int64 (trim_space f0) = Some k \<and> n \<le> k)) \<and>
   parse_range ''bytes=-5'' 0 = RangeSingle 0 (- 1)"
proof (intro conjI allI impI)
  show "0 \<le> s" "s \<le> e" "e < n" if "parse_range spec n = RangeSingle s e" "0 < n" for s e
    using parse_range_single [OF that] by simp_all
  show "\<exists>k f0 l0. cut_at CHR ''-'' (trim_prefix (trim_space spec) ''bytes='') = (f0, l0, True) \<and>
      parse_int64 (trim_space f0) = Some k \<and> n \<le> k" if "parse_range spec n = RangeUnsatisfiable"
  proof -
    obtain f0 l0 ok where cut: "cut_at CHR ''-'' (trim_prefix (trim_space spec) ''bytes='') = (f0, l0, ok)"
      by (rule prod_cases3)
    then show ?thesis using that
      by (auto simp: parse_range_def Let_def split: if_splits option.splits)
  qed
qed code_simp

section \<open>Revalidation\<close>

text \<open>Revalidation works: the ETag the handler emitted for an element, sent back verbatim in
  \<open>If-None-Match\<close> by an authorized client, is answered 304 without a body, whatever range or date
  header comes with it (digests are hexadecimal, so free of commas and blanks).\<close>

theorem emitted_etag_revalidates:
  assumes "map_of (c_el c) i = Some el" and "authorized (pins_for_element c i) (rq_principal rq)"
    and "CHR '','' \<notin> set (el_sha256 el)" and "rq_if_none_match rq = etag_of (el_sha256 el)"
  shows "serve_element env c i rq =
    \<lparr>rs_status = 304, rs_headers = element_headers env i el (rq_download rq), rs_body = NoBody\<rparr>"
proof -
  have tr: "trim_space (etag_of x) = etag_of x" for x
    by (rule trim_space_id) (simp add: etag_of_def is_space_def)
  have "split_on CHR '','' (etag_of (el_sha256 el)) = [etag_of (el_sha256 el)]"
    using assms(3) by (intro split_on_notin) (simp add: etag_of_def)
  moreover have "trim_prefix (etag_of x) ''W/'' = etag_of x" for x
    by (simp add: etag_of_def trim_prefix_def)
  ultimately have "not_modified env el rq"
    using assms(4) tr by (simp add: not_modified_def if_none_match_hits_def) (simp add: etag_of_def)
  then show ?thesis using assms(1,2) by (simp add: serve_element_def get_element_def Let_def)
qed

section \<open>Listings against delivery\<close>

definition listed_pairs :: "publication list \<Rightarrow> (string \<times> string) list" where
  "listed_pairs pubs = concat (map (\<lambda>b. map (Pair (pb_channel b)) (pb_elements b)) pubs)"

lemma listed_pairs_append: "listed_pairs (xs @ ys) = listed_pairs xs @ listed_pairs ys"
  by (simp add: listed_pairs_def)

lemma collect_pairs:
  "listed_pairs (collect p rows pubs) =
     listed_pairs pubs @ map (\<lambda>(q, e). (pin_channel q, e)) (filter (\<lambda>(q, e). authorized [q] p) rows)"
proof (induction p rows pubs rule: collect.induct)
  case (2 p q e rows pubs)
  show ?case
  proof (cases "authorized [q] p")
    case True
    define pubs1 where "pubs1 = (if pubs = [] \<or> pb_channel (last pubs) \<noteq> pin_channel q
      then pubs @ [\<lparr>pb_channel = pin_channel q, pb_elements = []\<rparr>] else pubs)"
    let ?pubs2 = "butlast pubs1 @ [(last pubs1)\<lparr>pb_elements := pb_elements (last pubs1) @ [e]\<rparr>]"
    have ne: "pubs1 \<noteq> []" and ch: "pb_channel (last pubs1) = pin_channel q"
      by (auto simp: pubs1_def)
    have p1: "listed_pairs pubs1 = listed_pairs pubs" by (simp add: pubs1_def listed_pairs_def)
    have "listed_pairs ?pubs2 = listed_pairs (butlast pubs1 @ [last pubs1]) @ [(pin_channel q, e)]"
      by (simp add: listed_pairs_append) (simp add: listed_pairs_def ch)
    also have "\<dots> = listed_pairs pubs @ [(pin_channel q, e)]"
      using ne p1 by simp
    finally show ?thesis
      using 2(2) [of pubs1] True pubs1_def by (simp add: Let_def)
  qed (use 2(1) in simp)
qed simp

lemma publication_rows_pins:
  "(q, e) \<in> set (publication_rows c mp) \<Longrightarrow> q \<in> set (pins_for_element c e) \<and> pin_mp q = mp"
  unfolding mem_pins by (fastforce simp: publication_rows_def split: if_splits)

text \<open>The publication listing follows the delivery rule: for every principal it lists, channel by
  channel, exactly the elements of the publications whose own pin authorizes it, each as often as it
  is referenced, and everything listed can be fetched.\<close>

theorem publications_listed_by_pin:
  assumes "\<And>xs. mset (order_rows xs) = mset xs"
  shows "mset (listed_pairs (serve_publications order_rows c mp p)) =
      mset (map (\<lambda>(q, e). (pin_channel q, e)) (filter (\<lambda>(q, e). authorized [q] p) (publication_rows c mp))) \<and>
    (\<forall>(ch, e) \<in> set (listed_pairs (serve_publications order_rows c mp p)). authorized (pins_for_element c e) p)"
proof -
  have eq: "listed_pairs (serve_publications order_rows c mp p) =
      map (\<lambda>(q, e). (pin_channel q, e)) (filter (\<lambda>(q, e). authorized [q] p) (order_rows (publication_rows c mp)))"
    unfolding serve_publications_def collect_pairs by (simp add: listed_pairs_def)
  have s: "set (order_rows xs) = set xs" for xs using mset_eq_setD [OF assms] .
  have "authorized (pins_for_element c e) p" if l: "(ch, e) \<in> set (listed_pairs (serve_publications order_rows c mp p))" for ch e
  proof -
    obtain q where "(q, e) \<in> set (publication_rows c mp)" and a: "authorized [q] p"
      using l unfolding eq by (auto simp: s)
    then have "q \<in> set (pins_for_element c e)" using publication_rows_pins by blast
    then show ?thesis using a authorized_single [of "pins_for_element c e" p] by blast
  qed
  moreover have "mset (listed_pairs (serve_publications order_rows c mp p)) =
      mset (map (\<lambda>(q, e). (pin_channel q, e)) (filter (\<lambda>(q, e). authorized [q] p) (publication_rows c mp)))"
    unfolding eq by (simp add: assms)
  ultimately show ?thesis by blast
qed

lemma strip_suffix_Some: "strip_suffix suf s = Some x \<Longrightarrow> s = x @ suf"
proof -
  assume a: "strip_suffix suf s = Some x"
  then obtain t where t: "rev s = rev suf @ t" and x: "x = take (length s - length suf) s"
    by (auto simp: strip_suffix_def has_suffix_def has_prefix_iff split: if_splits)
  have "s = rev t @ suf" using arg_cong [OF t, of rev] by simp
  then show ?thesis using x by simp
qed

lemma grant_read_role: "episode_grant r = Some (GrantRead i) \<Longrightarrow> r = episode_read_role i"
proof -
  assume g: "episode_grant r = Some (GrantRead i)"
  then obtain t where t: "r = episode_prefix @ t"
    by (auto simp: episode_grant_def has_prefix_iff split: if_splits)
  then have "strip_suffix ''_READ'' t = Some i"
    using g by (auto simp: episode_grant_def Let_def split: option.splits if_splits)
  then show ?thesis using strip_suffix_Some [of "''_READ''" t i] t
    by (simp add: episode_read_role_def episode_prefix_def)
qed

text \<open>Who can see it can fetch it: an event that the engage listing shows to a principal, or would show but
  for pruning, delivers that principal every element of its engage-player publication.\<close>

theorem listed_is_deliverable:
  assumes "may_list c p EngageEpisode i"
    and "map_of (c_pub c) (i, engage_player) = Some r" and "(pub_id r, e) \<in> set (c_pubel c)"
  shows "authorized (pins_for_element c e) p"
proof -
  let ?q = "\<lparr>pin_mp = i, pin_channel = engage_player, pin_read = pub_acl_read r, pin_state = pub_acl_state r\<rparr>"
  have q: "?q \<in> set (pins_for_element c e)"
    unfolding mem_pins using assms(2,3) map_of_SomeD by fastforce
  consider "is_admin p" | "plain_overlap (engage_pin c i) p" | "holds_grant (GrantRead i) p"
    using assms(1) by auto
  then show ?thesis
  proof cases
    case 2
    then have "pin_read ?q \<inter> set (p_roles p) \<noteq> {}"
      using assms(2) by (auto simp: plain_overlap_def list_ex_iff engage_pin_def)
    then show ?thesis using q unfolding authorized_iff by blast
  next
    case 3
    then have "episode_read_role (pin_mp ?q) \<in> set (p_roles p)"
      using grant_read_role by (auto simp: holds_grant_def list_ex_iff)
    then show ?thesis using q unfolding authorized_iff by blast
  qed (simp add: authorized_iff)
qed

text \<open>But not the converse: pruning against the live vocabulary hides a published event whose pinned
  role no policy names any more. After the policy of a published event is replaced, the pin still
  authorizes delivery to role R while the engage listing shows R nothing.\<close>

theorem deliverable_but_not_listed:
  "let c = cat_step (WriteAcl ScopeEvent ''e1'' [])
             (run_events cat_step demo_writes (empty_catalog 0));
       c' = cat_step (WriteElement ''el'' \<lparr>el_mp = ''e1'', el_kind = ''track'', el_flavor = ''a/b'',
              el_mimetype = None, el_sha256 = ''ab'', el_size = 10, el_source = None, el_created_at = 5\<rparr> [] False) c;
       d = c'\<lparr>c_pubel := [(''p1'', ''el'')]\<rparr>; p = \<lparr>p_roles = [''R'']\<rparr>
   in authorized (pins_for_element d ''el'') p \<and> se_published (the (map_of (c_se d) ''e1'')) \<and>
      (case events demo_env d p (demo_query EngageEpisode) of Inl e \<Rightarrow> False | Inr l \<Rightarrow> l_total l = 0)"
  by code_simp

end
