(* ===== verification/Gc.thy ===== *)
theory Gc
  imports Catalog
begin

text \<open>
  Content-addressed storage (\<open>internal/cas\<close>) and its mark-sweep collector (\<open>internal/gc\<close>). The
  object store is the association list from digest to bytes, behind the key layout of
  \<open>objectKey\<close>; \<open>sha256\<close> is a parameter. A sweep reads the mark set once, then handles the listed
  objects one by one; \<open>env x\<close> is what other writers commit between the expiry test of object \<open>x\<close>
  and the recheck before its delete (the window of one round-trip between recheck and delete, which
  the package documents as its known limit, is not interleaved). \<open>del_fails\<close> says which deletes
  the store refuses.
\<close>

section \<open>The object store\<close>

type_synonym objects = "(string \<times> string) list"

definition object_key :: "string \<Rightarrow> string" where
  "object_key sha = ''sha256/'' @ take 2 sha @ ''/'' @ sha"

text \<open>\<open>List\<close> recovers the digest after the last slash of the key.\<close>

definition key_digest :: "string \<Rightarrow> string" where
  "key_digest k = (if CHR ''/'' \<in> set k then rev (takeWhile (\<lambda>x. x \<noteq> CHR ''/'') (rev k)) else k)"

definition cas_exists :: "objects \<Rightarrow> string \<Rightarrow> bool" where
  "cas_exists st sha = (map_of st (object_key sha) \<noteq> None)"

definition put_file :: "(string \<Rightarrow> string) \<Rightarrow> string \<Rightarrow> objects \<Rightarrow> string \<times> objects" where
  "put_file sha256 bytes st =
     (let sha = sha256 bytes
      in if cas_exists st sha then (sha, st) else (sha, st @ [(object_key sha, bytes)]))"

definition cas_get :: "objects \<Rightarrow> string \<Rightarrow> string option" where
  "cas_get st sha = map_of st (object_key sha)"

text \<open>\<open>GetRange\<close> for a range inside the object, inclusive at both ends.\<close>

definition cas_get_range :: "objects \<Rightarrow> string \<Rightarrow> nat \<Rightarrow> nat \<Rightarrow> string option" where
  "cas_get_range st sha s e = map_option (\<lambda>b. take (Suc e - s) (drop s b)) (cas_get st sha)"

definition cas_list :: "objects \<Rightarrow> string list" where
  "cas_list st = map (\<lambda>(k, b). key_digest k) st"

definition cas_delete :: "string \<Rightarrow> objects \<Rightarrow> objects" where
  "cas_delete sha st = AList.delete (object_key sha) st"

section \<open>The collector\<close>

record gc_db =
  g_now :: int
  g_objects :: objects
  g_tables :: "string list"
  g_elements :: "string list"
  g_manifests :: "(string \<times> string option) list"
  g_url_map :: "string list"
  g_candidates :: "(string \<times> int) list"

datatype gc_error = TableAbsent string | DeleteFailed string

record gc_report =
  r_objects :: nat
  r_referenced :: nat
  r_candidates :: nat
  r_swept :: nat

definition has_url_map :: "gc_db \<Rightarrow> bool" where
  "has_url_map s = (''migration_url_map'' \<in> set (g_tables s))"

definition mark_set :: "gc_db \<Rightarrow> (gc_error, string set \<times> bool) result" where
  "mark_set s =
     (if ''mp_element'' \<notin> set (g_tables s) then Inl (TableAbsent ''mp_element'')
      else if ''mp_snapshot'' \<notin> set (g_tables s) then Inl (TableAbsent ''mp_snapshot'')
      else Inr (set (g_elements s) \<union> set (map fst (g_manifests s)) \<union>
                set (concat (map (\<lambda>(m, src). case src of None \<Rightarrow> [] | Some x \<Rightarrow> [x]) (g_manifests s))) \<union>
                (if has_url_map s then set (g_url_map s) else {}), has_url_map s))"

text \<open>\<open>markExistsSQL\<close>: whether a digest is referenced right now.\<close>

definition referenced :: "bool \<Rightarrow> string \<Rightarrow> gc_db \<Rightarrow> bool" where
  "referenced url_map sha s =
     (sha \<in> set (g_elements s) \<or>
      list_ex (\<lambda>(m, src). m = sha \<or> src = Some sha) (g_manifests s) \<or>
      (url_map \<and> sha \<in> set (g_url_map s)))"

definition add_candidate :: "string \<Rightarrow> gc_db \<Rightarrow> gc_db" where
  "add_candidate sha s =
     (if map_of (g_candidates s) sha = None
      then s\<lparr>g_candidates := g_candidates s @ [(sha, g_now s)]\<rparr> else s)"

definition drop_candidate :: "string \<Rightarrow> gc_db \<Rightarrow> gc_db" where
  "drop_candidate sha s = s\<lparr>g_candidates := AList.delete sha (g_candidates s)\<rparr>"

definition grace_over :: "int \<Rightarrow> string \<Rightarrow> gc_db \<Rightarrow> bool" where
  "grace_over grace sha s =
     (case map_of (g_candidates s) sha of None \<Rightarrow> False | Some t \<Rightarrow> grace \<le> g_now s - t)"

datatype verdict = Referenced | Waiting | Swept | Refused

definition sweep_object ::
  "(string \<Rightarrow> gc_db \<Rightarrow> gc_db) \<Rightarrow> (string \<Rightarrow> bool) \<Rightarrow> int \<Rightarrow> string set \<Rightarrow> bool \<Rightarrow> string \<Rightarrow> gc_db
     \<Rightarrow> verdict \<times> gc_db" where
  "sweep_object env del_fails grace mark url_map sha s =
     (if sha \<in> mark then (Referenced, drop_candidate sha s)
      else let s1 = add_candidate sha s
        in if \<not> grace_over grace sha s1 then (Waiting, s1)
           else let s2 = env sha s1
             in if referenced url_map sha s2 then (Referenced, drop_candidate sha s2)
                else if del_fails sha then (Refused, s2)
                else (Swept, drop_candidate sha (s2\<lparr>g_objects := cas_delete sha (g_objects s2)\<rparr>)))"

fun count_verdict :: "verdict \<Rightarrow> gc_report \<Rightarrow> gc_report" where
  "count_verdict Referenced r = r\<lparr>r_objects := Suc (r_objects r), r_referenced := Suc (r_referenced r)\<rparr>"
| "count_verdict Waiting r = r\<lparr>r_objects := Suc (r_objects r), r_candidates := Suc (r_candidates r)\<rparr>"
| "count_verdict Swept r = r\<lparr>r_objects := Suc (r_objects r), r_swept := Suc (r_swept r)\<rparr>"
| "count_verdict Refused r = r\<lparr>r_objects := Suc (r_objects r)\<rparr>"

fun sweep_loop ::
  "(string \<Rightarrow> gc_db \<Rightarrow> gc_db) \<Rightarrow> (string \<Rightarrow> bool) \<Rightarrow> int \<Rightarrow> string set \<Rightarrow> bool \<Rightarrow> string list
     \<Rightarrow> gc_report \<Rightarrow> gc_db \<Rightarrow> gc_error option \<times> gc_report \<times> gc_db" where
  "sweep_loop env del_fails grace mark url_map [] r s = (None, r, s)"
| "sweep_loop env del_fails grace mark url_map (sha # shas) r s =
     (case sweep_object env del_fails grace mark url_map sha s of
        (v, s') \<Rightarrow>
          if v = Refused then (Some (DeleteFailed sha), count_verdict v r, s')
          else sweep_loop env del_fails grace mark url_map shas (count_verdict v r) s')"

definition empty_report :: gc_report where
  "empty_report = \<lparr>r_objects = 0, r_referenced = 0, r_candidates = 0, r_swept = 0\<rparr>"

definition sweep ::
  "(string \<Rightarrow> gc_db \<Rightarrow> gc_db) \<Rightarrow> (string \<Rightarrow> bool) \<Rightarrow> int \<Rightarrow> gc_db \<Rightarrow> gc_error option \<times> gc_report \<times> gc_db" where
  "sweep env del_fails grace s =
     (case mark_set s of
        Inl e \<Rightarrow> (Some e, empty_report, s)
      | Inr (mark, url_map) \<Rightarrow>
          sweep_loop env del_fails grace mark url_map (cas_list (g_objects s)) empty_report s)"

section \<open>Storage laws\<close>

lemma key_digest_object_key: "CHR ''/'' \<notin> set sha \<Longrightarrow> key_digest (object_key sha) = sha"
proof -
  assume a: "CHR ''/'' \<notin> set sha"
  have "rev (object_key sha) = rev sha @ CHR ''/'' # rev (take 2 sha) @ rev ''sha256/''"
    by (simp add: object_key_def)
  then have "takeWhile (\<lambda>x. x \<noteq> CHR ''/'') (rev (object_key sha)) = rev sha"
    using a by (simp add: takeWhile_append)
  then show ?thesis by (simp add: key_digest_def) (simp add: object_key_def)
qed

lemma object_key_inject:
  assumes "CHR ''/'' \<notin> set a" and "CHR ''/'' \<notin> set b"
  shows "object_key a = object_key b \<longleftrightarrow> a = b"
  using key_digest_object_key [OF assms(1)] key_digest_object_key [OF assms(2)] by metis

fun put_all :: "(string \<Rightarrow> string) \<Rightarrow> string list \<Rightarrow> objects \<Rightarrow> objects" where
  "put_all sha256 [] st = st"
| "put_all sha256 (b # bs) st = put_all sha256 bs (snd (put_file sha256 b st))"


definition stored :: "(string \<Rightarrow> string) \<Rightarrow> string set \<Rightarrow> objects \<Rightarrow> bool" where
  "stored sha256 D st =
     (set st = (\<lambda>b. (object_key (sha256 b), b)) ` D \<and> distinct (map fst st) \<and> finite D)"

lemma stored_get:
  assumes "stored sha256 D st" and "inj_on (\<lambda>b. object_key (sha256 b)) (insert b D)"
  shows "map_of st (object_key (sha256 b)) = (if b \<in> D then Some b else None)"
proof (cases "b \<in> D")
  case True
  then have "(object_key (sha256 b), b) \<in> set st" using assms(1) by (auto simp: stored_def)
  then show ?thesis using assms(1) True by (simp add: stored_def)
next
  case False
  then have "object_key (sha256 b) \<notin> fst ` set st"
    using assms by (auto simp: stored_def inj_on_def)
  then show ?thesis using False by (simp add: map_of_eq_None_iff)
qed

lemma stored_put:
  assumes "stored sha256 D st" and inj: "inj_on (\<lambda>b. object_key (sha256 b)) (insert b D)"
  shows "stored sha256 (insert b D) (snd (put_file sha256 b st))"
proof (cases "b \<in> D")
  case True
  then show ?thesis using stored_get [OF assms] assms(1)
    by (simp add: put_file_def cas_exists_def insert_absorb Let_def)
next
  case False
  then have "object_key (sha256 b) \<notin> fst ` set st"
    using stored_get [OF assms] by (simp add: map_of_eq_None_iff)
  moreover have "\<not> cas_exists st (sha256 b)" using stored_get [OF assms] False by (simp add: cas_exists_def)
  then have "snd (put_file sha256 b st) = st @ [(object_key (sha256 b), b)]"
    by (simp add: put_file_def Let_def)
  ultimately show ?thesis using assms(1) by (simp add: stored_def)
qed

lemma stored_put_all:
  "stored sha256 D st \<Longrightarrow> inj_on (\<lambda>b. object_key (sha256 b)) (set bs \<union> D) \<Longrightarrow>
     stored sha256 (set bs \<union> D) (put_all sha256 bs st)"
proof (induction bs arbitrary: D st)
  case (Cons b bs)
  have "stored sha256 (insert b D) (snd (put_file sha256 b st))"
    using Cons.prems by (intro stored_put) (auto intro: inj_on_subset)
  from Cons.IH [OF this] Cons.prems(2) show ?case by simp
qed simp

text \<open>Storing deduplicates: after any sequence of puts of contents whose digests do not collide, the
  store reads back each content under its digest, holds one object per distinct content, and putting
  a content again changes nothing.\<close>

theorem cas_deduplicates:
  assumes "inj_on sha256 (set bs)" and "\<And>b. CHR ''/'' \<notin> set (sha256 b)"
    and "st = put_all sha256 bs []" and "b \<in> set bs"
  shows "cas_get st (sha256 b) = Some b \<and> length st = card (set bs) \<and>
    set (cas_list st) = sha256 ` set bs \<and> put_file sha256 b st = (sha256 b, st)"
proof -
  have inj: "inj_on (\<lambda>b. object_key (sha256 b)) (set bs)"
    using assms(1,2) object_key_inject by (auto simp: inj_on_def)
  have s: "stored sha256 (set bs) st"
    using stored_put_all [of sha256 "{}" "[]" bs] inj assms(3) by (simp add: stored_def)
  have g: "map_of st (object_key (sha256 b)) = Some b"
    using stored_get [OF s, of b] inj assms(4) by (simp add: insert_absorb)
  have "length st = card (set st)"
    using s by (metis distinct_card distinct_map length_map stored_def)
  also have "\<dots> = card (set bs)"
    using s by (simp add: stored_def card_image inj_on_def)
  finally have l: "length st = card (set bs)" .
  have "set (cas_list st) = sha256 ` set bs"
    using s assms(2) by (auto simp: cas_list_def stored_def image_image key_digest_object_key)
  then show ?thesis using g l by (simp add: cas_get_def put_file_def cas_exists_def)
qed

section \<open>What a sweep may delete\<close>

definition present :: "string \<Rightarrow> gc_db \<Rightarrow> bool" where
  "present sha s = (sha \<in> set (cas_list (g_objects s)))"


definition well_keyed :: "gc_db \<Rightarrow> bool" where
  "well_keyed s = (\<forall>(k, b) \<in> set (g_objects s). \<exists>x. CHR ''/'' \<notin> set x \<and> k = object_key x)"

lemma present_iff:
  assumes "well_keyed s" and "CHR ''/'' \<notin> set sha"
  shows "present sha s \<longleftrightarrow> object_key sha \<in> fst ` set (g_objects s)"
  using assms key_digest_object_key by (force simp: present_def cas_list_def well_keyed_def)

lemma delete_other:
  assumes "CHR ''/'' \<notin> set sha" and "present sha s" and "well_keyed s"
    and "CHR ''/'' \<notin> set x" and "x \<noteq> sha"
  shows "present sha (drop_candidate x (s\<lparr>g_objects := cas_delete x (g_objects s)\<rparr>))"
    and "well_keyed (drop_candidate x (s\<lparr>g_objects := cas_delete x (g_objects s)\<rparr>))"
proof -
  show wk: "well_keyed (drop_candidate x (s\<lparr>g_objects := cas_delete x (g_objects s)\<rparr>))"
    using assms(3) by (auto simp: well_keyed_def drop_candidate_def cas_delete_def AList.delete_eq)
  have "object_key x \<noteq> object_key sha" using object_key_inject assms(1,4,5) by blast
  then show "present sha (drop_candidate x (s\<lparr>g_objects := cas_delete x (g_objects s)\<rparr>))"
    using assms(2) unfolding present_iff [OF wk assms(1)] present_iff [OF assms(3,1)]
    by (force simp: drop_candidate_def cas_delete_def AList.delete_eq)
qed

lemma candidate_frame [simp]:
  "present sha (drop_candidate x s) = present sha s" "well_keyed (drop_candidate x s) = well_keyed s"
  "present sha (add_candidate x s) = present sha s" "well_keyed (add_candidate x s) = well_keyed s"
  by (simp_all add: present_def well_keyed_def drop_candidate_def add_candidate_def)

text \<open>What \<open>env\<close> may do: anything but remove objects or store them under malformed keys.\<close>

definition writers_only :: "(string \<Rightarrow> gc_db \<Rightarrow> gc_db) \<Rightarrow> bool" where
  "writers_only env =
     (\<forall>x u. (well_keyed u \<longrightarrow> well_keyed (env x u)) \<and> (\<forall>sha. present sha u \<longrightarrow> present sha (env x u)))"

lemma sweep_object_other:
  assumes "writers_only env" and "well_keyed s" and "CHR ''/'' \<notin> set sha" and "CHR ''/'' \<notin> set x"
    and "present sha s" and "x \<noteq> sha"
  shows "present sha (snd (sweep_object env del_fails grace mark um x s)) \<and>
    well_keyed (snd (sweep_object env del_fails grace mark um x s))"
proof -
  have e: "well_keyed (env x (add_candidate x s))" "present sha (env x (add_candidate x s))"
    using assms(1,2,5) by (auto simp: writers_only_def)
  show ?thesis
    using delete_other [OF assms(3) e(2,1) assms(4,6)] e assms(2,5) by (simp add: sweep_object_def Let_def)
qed

text \<open>Object \<open>sha\<close> survives the whole sweep if it survives its own turn, whenever that comes.\<close>

lemma sweep_loop_survives:
  assumes "writers_only env" and "CHR ''/'' \<notin> set sha"
    and turn: "\<And>u. I u \<Longrightarrow> present sha u \<Longrightarrow> well_keyed u \<Longrightarrow>
        present sha (snd (sweep_object env del_fails grace mark um sha u)) \<and>
        well_keyed (snd (sweep_object env del_fails grace mark um sha u))"
    and keep: "\<And>x u. I u \<Longrightarrow> CHR ''/'' \<notin> set x \<Longrightarrow> I (snd (sweep_object env del_fails grace mark um x u))"
  shows "\<forall>x \<in> set shas. CHR ''/'' \<notin> set x \<Longrightarrow> I s \<Longrightarrow> well_keyed s \<Longrightarrow> present sha s \<Longrightarrow>
    present sha (snd (snd (sweep_loop env del_fails grace mark um shas r s)))"
proof (induction shas arbitrary: r s)
  case (Cons x shas)
  obtain v s' where o: "sweep_object env del_fails grace mark um x s = (v, s')" by force
  have x: "CHR ''/'' \<notin> set x" using Cons.prems(1) by simp
  have p: "present sha s' \<and> well_keyed s'"
  proof (cases "x = sha")
    case True
    then show ?thesis using turn [OF Cons.prems(2,4,3)] o by simp
  next
    case False
    from sweep_object_other [OF assms(1) Cons.prems(3) assms(2) x Cons.prems(4) False, of del_fails grace mark um]
    show ?thesis by (simp add: o)
  qed
  moreover have "I s'" using keep [OF Cons.prems(2) x] o by simp
  ultimately have "present sha (snd (snd (sweep_loop env del_fails grace mark um shas (count_verdict v r) s')))"
    using Cons.prems(1) by (intro Cons.IH) simp_all
  then show ?case using p by (simp add: o)
qed simp

lemma listed_keys: "well_keyed s \<Longrightarrow> x \<in> set (cas_list (g_objects s)) \<Longrightarrow> CHR ''/'' \<notin> set x"
  using key_digest_object_key by (force simp: cas_list_def well_keyed_def)

text \<open>C13: The collector never deletes what is referenced: an object that is in the mark set when a sweep
  starts, or whose reference is committed by a concurrent writer any time before the recheck of that
  object, is still stored after the sweep, whatever the other writers do, and even with no grace.\<close>

theorem referenced_never_swept:
  assumes "well_keyed s" and "present sha s" and "writers_only env"
    and "mark_set s = Inr (mark, um)" and "sha \<in> mark \<or> (\<forall>u. referenced um sha (env sha u))"
  shows "present sha (snd (snd (sweep env del_fails grace s)))"
proof -
  have sl: "CHR ''/'' \<notin> set sha" using listed_keys [OF assms(1)] assms(2) by (simp add: present_def)
  have turn: "present sha (snd (sweep_object env del_fails grace mark um sha u)) \<and>
      well_keyed (snd (sweep_object env del_fails grace mark um sha u))"
    if "present sha u" "well_keyed u" for u
    using that assms(3,5) by (auto simp: sweep_object_def Let_def writers_only_def)
  have "present sha (snd (snd (sweep_loop env del_fails grace mark um (cas_list (g_objects s)) empty_report s)))"
    using listed_keys [OF assms(1)] assms(1,2) turn
    by (intro sweep_loop_survives [where I = "\<lambda>_. True", OF assms(3) sl]) auto
  then show ?thesis by (simp add: sweep_def assms(4))
qed

text \<open>Grace from the dereference: an object no earlier sweep found unreferenced, or found so less than
  the grace ago, survives this sweep, referenced or not; so reclaiming takes two sweeps at least the
  grace apart, and a put whose reference is still uncommitted is safe for that long.\<close>

theorem young_candidate_survives:
  assumes "well_keyed s" and "present sha s" and "writers_only env"
    and "\<And>x u. g_now (env x u) = g_now u \<and> g_candidates (env x u) = g_candidates u"
    and "case map_of (g_candidates s) sha of None \<Rightarrow> 0 < grace | Some t \<Rightarrow> g_now s - t < grace \<and> 0 < grace"
  shows "present sha (snd (snd (sweep env del_fails grace s)))"
proof (cases "mark_set s")
  case (Inl e)
  then show ?thesis using assms(2) by (simp add: sweep_def)
next
  case (Inr p)
  obtain mark um where m: "mark_set s = Inr (mark, um)" using Inr by (cases p) auto
  have sl: "CHR ''/'' \<notin> set sha" using listed_keys [OF assms(1)] assms(2) by (simp add: present_def)
  define I where "I = (\<lambda>u :: gc_db. case map_of (g_candidates u) sha of None \<Rightarrow> 0 < grace
    | Some t \<Rightarrow> g_now u - t < grace \<and> 0 < grace)"
  have add: "I (add_candidate x u)" "I (drop_candidate x u)" if "I u" for x and u :: gc_db
    using that by (auto simp: I_def add_candidate_def drop_candidate_def map_add_def AList.delete_conv'
        split: option.splits)
  have env: "I (env x u)" if "I u" for x u
    using that assms(4) by (auto simp: I_def split: option.splits)
  have obj: "I (u\<lparr>g_objects := ob\<rparr>)" if "I u" for u ob
    using that by (auto simp: I_def split: option.splits)
  have keep: "I (snd (sweep_object env del_fails grace mark um x u))" if "I u" for x u
    using that add env obj by (auto simp: sweep_object_def Let_def)
  have turn: "present sha (snd (sweep_object env del_fails grace mark um sha u)) \<and>
      well_keyed (snd (sweep_object env del_fails grace mark um sha u))"
    if "I u" "present sha u" "well_keyed u" for u
    using that add(1) [OF that(1), of sha]
    by (auto simp: sweep_object_def Let_def grace_over_def I_def split: option.splits)
  have "present sha (snd (snd (sweep_loop env del_fails grace mark um (cas_list (g_objects s)) empty_report s)))"
    using listed_keys [OF assms(1)] assms(1,2,5) keep turn
    by (intro sweep_loop_survives [where I = I, OF assms(3) sl]) (auto simp: I_def)
  then show ?thesis by (simp add: sweep_def m)
qed


definition demo_gc :: gc_db where
  "demo_gc = \<lparr>g_now = 0, g_objects = [(object_key ''aa1'', ''bytes'')], g_tables = [''mp_element'', ''mp_snapshot''],
     g_elements = [], g_manifests = [], g_url_map = [], g_candidates = []\<rparr>"

definition add_reference :: "string \<Rightarrow> gc_db \<Rightarrow> gc_db" where
  "add_reference sha s = s\<lparr>g_elements := sha # g_elements s\<rparr>"

lemma demo_gc_facts: "well_keyed demo_gc" "present ''aa1'' demo_gc" "mark_set demo_gc = Inr ({}, False)"
proof -
  have "\<exists>x. CHR ''/'' \<notin> set x \<and> object_key ''aa1'' = object_key x" by (intro exI [of _ "''aa1''"]) simp
  then show "well_keyed demo_gc" by (simp add: well_keyed_def demo_gc_def)
qed code_simp+

theorem referenced_never_swept_witness:
  "present ''aa1'' (snd (snd (sweep (\<lambda>_. add_reference ''aa1'') (\<lambda>_. False) 0 demo_gc)))"
  by (rule referenced_never_swept [OF demo_gc_facts(1,2) _ demo_gc_facts(3)])
     (simp_all add: writers_only_def well_keyed_def present_def add_reference_def referenced_def)

text \<open>The grace is not measured from the last dereference: candidacy is only cleared by a sweep, so an
  object swept as candidate at time 0, referenced from 1 to 99 and dereferenced at 99 is reclaimed by
  the sweep at 100 under a grace of 100, one tick after its dereference.\<close>

theorem grace_ignores_unseen_references:
  "let s1 = snd (snd (sweep (\<lambda>_ s. s) (\<lambda>_. False) 100 demo_gc));
       s2 = (add_reference ''aa1'' s1)\<lparr>g_now := 99\<rparr>;
       s3 = s2\<lparr>g_elements := [], g_now := 100\<rparr>
   in referenced False ''aa1'' s2 \<and> present ''aa1'' s3 \<and>
      \<not> present ''aa1'' (snd (snd (sweep (\<lambda>_ s. s) (\<lambda>_. False) 100 s3)))"
  by code_simp

end
