(* ===== verification/Jose.thy ===== *)
theory Jose
  imports Interfaces Complex_Main "HOL-Library.AList"
begin

text \<open>
  The token core of \<open>internal/jose\<close>: base64url, compact JWS parsing, the RSA and HMAC
  verifications with their algorithm allowlists (\<open>jose.go\<close>, \<open>hmac.go\<close>), the claim checks,
  key sets and the caching key fetcher (\<open>fetch.go\<close>). Times are the nanoseconds of Go's
  \<open>time.Time\<close> counted from its internal epoch, with the wrap-around of \<open>time.Unix\<close> and the
  saturation of \<open>Add\<close>. The JSON codec and the cryptographic primitives of the standard library
  are a parameter (\<open>primitives\<close>); everything this package decides around them is written out.
\<close>

section \<open>base64url without padding\<close>

text \<open>The alphabet \<open>A-Za-z0-9-_\<close>, by the byte of each digit.\<close>

definition b64_char :: "nat \<Rightarrow> char" where
  "b64_char v =
     char_of (if v < 26 then v + 65 else if v < 52 then v + 71 else if v < 62 then v - 4
              else if v = 62 then 45 else 95)"

definition b64_val :: "char \<Rightarrow> nat option" where
  "b64_val c =
     (let n = (of_char c :: nat) in
      if 65 \<le> n \<and> n \<le> 90 then Some (n - 65)
      else if 97 \<le> n \<and> n \<le> 122 then Some (n - 71)
      else if 48 \<le> n \<and> n \<le> 57 then Some (n + 4)
      else if n = 45 then Some 62
      else if n = 95 then Some 63
      else None)"

fun b64_groups :: "nat list \<Rightarrow> string" where
  "b64_groups [] = []"
| "b64_groups [a] = [b64_char (a div 4), b64_char (a mod 4 * 16)]"
| "b64_groups [a, b] =
     [b64_char (a div 4), b64_char (a mod 4 * 16 + b div 16), b64_char (b mod 16 * 4)]"
| "b64_groups (a # b # c # r) =
     [b64_char (a div 4), b64_char (a mod 4 * 16 + b div 16),
      b64_char (b mod 16 * 4 + c div 64), b64_char (c mod 64)] @ b64_groups r"

definition b64_encode :: "string \<Rightarrow> string" where
  "b64_encode s = b64_groups (map of_char s)"

text \<open>The decoder skips line breaks, refuses any other foreign byte, a lone trailing digit
  included, and ignores the unused low bits of the last digit.\<close>

fun b64_bytes :: "nat list \<Rightarrow> nat list option" where
  "b64_bytes [] = Some []"
| "b64_bytes [a] = None"
| "b64_bytes [a, b] = Some [a * 4 + b div 16]"
| "b64_bytes [a, b, c] = Some [a * 4 + b div 16, b mod 16 * 16 + c div 4]"
| "b64_bytes (a # b # c # d # r) =
     (case b64_bytes r of
        None \<Rightarrow> None
      | Some t \<Rightarrow> Some ([a * 4 + b div 16, b mod 16 * 16 + c div 4, c mod 4 * 64 + d] @ t))"

definition b64_decode :: "string \<Rightarrow> string option" where
  "b64_decode s =
     (let vs = map b64_val (filter (\<lambda>c. c \<noteq> CHR 0x0A \<and> c \<noteq> CHR 0x0D) s)
      in if None \<in> set vs then None else map_option (map char_of) (b64_bytes (map the vs)))"

lemma of_char_b64_char:
  "v < 64 \<Longrightarrow> (of_char (b64_char v) :: nat) =
     (if v < 26 then v + 65 else if v < 52 then v + 71 else if v < 62 then v - 4
      else if v = 62 then 45 else 95)"
  by (simp add: b64_char_def)

lemma b64_val_b64_char [simp]: "v < 64 \<Longrightarrow> b64_val (b64_char v) = Some v"
  by (auto simp: b64_val_def Let_def of_char_b64_char)

lemma b64_char_not:
  assumes "v < 64"
  shows "b64_char v \<noteq> CHR 0x0A" and "b64_char v \<noteq> CHR 0x0D" and "b64_char v \<noteq> CHR ''.''"
proof -
  have "b64_val (b64_char v) \<noteq> None" using assms by simp
  moreover have "b64_val CHR 0x0A = None" "b64_val CHR 0x0D = None" "b64_val CHR ''.'' = None"
    by (simp_all add: b64_val_def)
  ultimately show "b64_char v \<noteq> CHR 0x0A" and "b64_char v \<noteq> CHR 0x0D" and "b64_char v \<noteq> CHR ''.''"
    by metis+
qed

lemma b64_groups_digits:
  assumes "\<forall>a \<in> set bs. a < 256"
  shows "\<exists>vs. (\<forall>v \<in> set vs. v < 64) \<and> b64_groups bs = map b64_char vs \<and> b64_bytes vs = Some bs"
  using assms
proof (induction bs rule: b64_groups.induct)
  case 1
  show ?case by (rule exI [of _ "[]"]) simp
next
  case (2 a)
  then show ?case by (intro exI [of _ "[a div 4, a mod 4 * 16]"]) auto
next
  case (3 a b)
  then show ?case
    by (intro exI [of _ "[a div 4, a mod 4 * 16 + b div 16, b mod 16 * 4]"]) auto
next
  case (4 a b c r)
  then obtain vs where vs: "\<forall>v \<in> set vs. v < 64" "b64_groups r = map b64_char vs"
    "b64_bytes vs = Some r" by auto
  have "c mod 64 < 64" "c div 64 < 4" "b div 16 < 16" "a div 4 < 64" using 4 by auto
  then show ?case using vs 4
    by (intro exI [of _ "[a div 4, a mod 4 * 16 + b div 16, b mod 16 * 4 + c div 64, c mod 64] @ vs"])
       auto
qed

lemma b64_encode_digits:
  obtains vs where "\<forall>v \<in> set vs. v < 64" and "b64_encode s = map b64_char vs"
    and "b64_bytes vs = Some (map of_char s)"
proof -
  have "\<forall>a \<in> set (map of_char s). (a :: nat) < 256" by (auto simp: of_char_def)
  then show ?thesis using that b64_groups_digits unfolding b64_encode_def by blast
qed

lemma b64_round_trip [simp]: "b64_decode (b64_encode s) = Some s"
proof -
  obtain vs where lt: "\<forall>v \<in> set vs. v < 64" and enc: "b64_encode s = map b64_char vs"
    and bs: "b64_bytes vs = Some (map of_char s)" by (rule b64_encode_digits)
  have f: "filter (\<lambda>c. c \<noteq> CHR 0x0A \<and> c \<noteq> CHR 0x0D) (b64_encode s) = b64_encode s"
    unfolding enc using lt by (auto simp: filter_id_conv b64_char_not)
  have v: "map b64_val (b64_encode s) = map Some vs"
    unfolding enc using lt by (auto simp: b64_char_not)
  show ?thesis by (simp add: b64_decode_def Let_def f v bs image_iff comp_def)
qed

lemma b64_no_dot: "CHR ''.'' \<notin> set (b64_encode s)"
proof -
  obtain vs where "\<forall>v \<in> set vs. v < 64" and "b64_encode s = map b64_char vs"
    by (rule b64_encode_digits)
  then show ?thesis using b64_char_not(3) by (fastforce simp: image_iff)
qed

section \<open>JSON values\<close>

text \<open>
  \<open>json.Unmarshal\<close> into \<open>any\<close>: a finite \<open>float64\<close> is a rational; an object keeps its members in
  document order, and a Go map holds the last one of a repeated name.
\<close>

datatype json =
    JNull
  | JBool bool
  | JNum rat
  | JStr string
  | JArr "json list"
  | JObj "(string \<times> json) list"

type_synonym claims = "(string \<times> json) list"

definition claim :: "claims \<Rightarrow> string \<Rightarrow> json option" where
  "claim m k = map_of (rev m) k"

text \<open>The comma-ok assertions \<open>v, _ := m[k].(string)\<close> and their array and object forms.\<close>

definition as_string :: "json option \<Rightarrow> string option" where
  "as_string v = (case v of Some (JStr s) \<Rightarrow> Some s | _ \<Rightarrow> None)"

definition as_array :: "json option \<Rightarrow> json list option" where
  "as_array v = (case v of Some (JArr xs) \<Rightarrow> Some xs | _ \<Rightarrow> None)"

definition as_object :: "json option \<Rightarrow> claims option" where
  "as_object v = (case v of Some (JObj m) \<Rightarrow> Some m | _ \<Rightarrow> None)"

definition str_or_empty :: "string option \<Rightarrow> string" where
  "str_or_empty v = (case v of Some s \<Rightarrow> s | None \<Rightarrow> [])"

definition claim_string :: "claims \<Rightarrow> string \<Rightarrow> string" where
  "claim_string m k = str_or_empty (as_string (claim m k))"

fun strings_of :: "json list \<Rightarrow> string list" where
  "strings_of [] = []"
| "strings_of (JStr s # xs) = s # strings_of xs"
| "strings_of (_ # xs) = strings_of xs"

lemma strings_of_map_JStr [simp]: "strings_of (map JStr xs) = xs"
  by (induction xs) auto

text \<open>
  Decoding into a struct: member names match under simple case folding (\<open>k\<close> also matches the
  Kelvin sign and \<open>s\<close> the long s), \<open>null\<close> leaves the field alone and a value of another type
  fails the whole decoding.
\<close>

definition lower :: "char \<Rightarrow> char" where
  "lower c = (let n = (of_char c :: nat) in if 65 \<le> n \<and> n \<le> 90 then char_of (n + 32) else c)"

fun fold_name :: "string \<Rightarrow> string" where
  "fold_name [] = []"
| "fold_name (c # cs) =
     (if has_prefix (c # cs) [CHR 0xE2, CHR 0x84, CHR 0xAA] then CHR ''k'' # fold_name (drop 2 cs)
      else if has_prefix (c # cs) [CHR 0xC5, CHR 0xBF] then CHR ''s'' # fold_name (drop 1 cs)
      else lower c # fold_name cs)"

fun field_string :: "string \<Rightarrow> claims \<Rightarrow> string \<Rightarrow> string option" where
  "field_string name [] acc = Some acc"
| "field_string name ((k, v) # m) acc =
     (if fold_name k = name
      then (case v of JStr s \<Rightarrow> field_string name m s | JNull \<Rightarrow> field_string name m acc | _ \<Rightarrow> None)
      else field_string name m acc)"

definition struct_members :: "json \<Rightarrow> claims option" where
  "struct_members v = (case v of JObj m \<Rightarrow> Some m | JNull \<Rightarrow> Some [] | _ \<Rightarrow> None)"

section \<open>Primitives and errors\<close>

datatype hash = SHA256 | SHA384 | SHA512

record rsa_key =
  key_n :: nat
  key_e :: int

record primitives =
  json_decode :: "string \<Rightarrow> json option"
  json_encode :: "json \<Rightarrow> string option"
  digest :: "hash \<Rightarrow> string \<Rightarrow> string"
  rsa_verify :: "rsa_key \<Rightarrow> hash \<Rightarrow> string \<Rightarrow> string \<Rightarrow> bool"
  hmac_sha256 :: "string \<Rightarrow> string \<Rightarrow> string"
  int64_overflow :: "rat \<Rightarrow> int"

datatype jose_error =
    Malformed
  | AlgRejected string
  | BadSig
  | ExpMissing
  | TokenExpired
  | IatInFuture
  | NotYetValid
  | IssuerMismatch
  | NoExpectedAudience
  | AudienceMismatch
  | AzpMismatch
  | UnparseableJWKS
  | FetchFailed
  | FetchStatus int
  | KidNotFound string
  | EncodeFailed

section \<open>Compact JWS\<close>

definition allowed_algs :: "(string \<times> hash) list" where
  "allowed_algs = [(''RS256'', SHA256), (''RS384'', SHA384), (''RS512'', SHA512)]"

record header =
  h_alg :: string
  h_kid :: string
  h_typ :: string

definition decode_segment :: "primitives \<Rightarrow> string \<Rightarrow> (jose_error, claims) result" where
  "decode_segment P seg =
     (case b64_decode seg of
        None \<Rightarrow> Inl Malformed
      | Some raw \<Rightarrow>
          (case json_decode P raw of
             None \<Rightarrow> Inl Malformed
           | Some v \<Rightarrow> (case struct_members v of None \<Rightarrow> Inl Malformed | Some m \<Rightarrow> Inr m)))"

definition peek_claims :: "primitives \<Rightarrow> string \<Rightarrow> (jose_error, claims) result" where
  "peek_claims P token =
     (case split_on CHR ''.'' token of
        [h, p, s] \<Rightarrow> decode_segment P p
      | _ \<Rightarrow> Inl Malformed)"

definition signing_input :: "string \<Rightarrow> string \<Rightarrow> string" where
  "signing_input h p = h @ ''.'' @ p"

definition verify :: "primitives \<Rightarrow> string \<Rightarrow> rsa_key \<Rightarrow> (jose_error, claims) result" where
  "verify P token key =
     (case split_on CHR ''.'' token of
        [h, p, s] \<Rightarrow>
          (case decode_segment P h of
             Inl e \<Rightarrow> Inl Malformed
           | Inr hdr \<Rightarrow>
               (let alg = claim_string hdr ''alg'' in
                case map_of allowed_algs alg of
                  None \<Rightarrow> Inl (AlgRejected alg)
                | Some hash \<Rightarrow>
                    (case b64_decode s of
                       None \<Rightarrow> Inl Malformed
                     | Some sig \<Rightarrow>
                         if \<not> rsa_verify P key hash (digest P hash (signing_input h p)) sig
                         then Inl BadSig
                         else decode_segment P p)))
      | _ \<Rightarrow> Inl Malformed)"

definition parse_header :: "primitives \<Rightarrow> string \<Rightarrow> (jose_error, header) result" where
  "parse_header P token =
     (case split_on CHR ''.'' token of
        [h, p, s] \<Rightarrow>
          (case b64_decode h of
             None \<Rightarrow> Inl Malformed
           | Some raw \<Rightarrow>
               (case Option.bind (json_decode P raw) struct_members of
                  None \<Rightarrow> Inl Malformed
                | Some m \<Rightarrow>
                    (case (field_string ''alg'' m [], field_string ''kid'' m [], field_string ''typ'' m []) of
                       (Some a, Some k, Some t) \<Rightarrow> Inr \<lparr>h_alg = a, h_kid = k, h_typ = t\<rparr>
                     | _ \<Rightarrow> Inl Malformed)))
      | _ \<Rightarrow> Inl Malformed)"

section \<open>Claim checks\<close>

text \<open>
  A \<open>time.Time\<close> is its nanoseconds since the internal epoch. \<open>time.Unix\<close> shifts the seconds with
  64-bit wrap-around, \<open>Add\<close> saturates the seconds; converting a \<open>float64\<close> outside the 64-bit range
  is left to the implementation by the language (\<open>int64_overflow\<close>).
\<close>

definition giga :: int where
  "giga = 1000000000"

definition unix_to_internal :: int where
  "unix_to_internal = 62135596800"

definition wrap64 :: "int \<Rightarrow> int" where
  "wrap64 n = (n + max_int64 + 1) mod (2 * (max_int64 + 1)) - (max_int64 + 1)"

definition clamp64 :: "int \<Rightarrow> int" where
  "clamp64 n = max (- max_int64 - 1) (min max_int64 n)"

definition time_unix :: "int \<Rightarrow> int" where
  "time_unix secs = wrap64 (secs + unix_to_internal) * giga"

definition unix_of :: "int \<Rightarrow> int" where
  "unix_of t = wrap64 (t div giga - unix_to_internal)"

definition time_add :: "int \<Rightarrow> int \<Rightarrow> int" where
  "time_add t d = clamp64 ((t + d) div giga) * giga + (t + d) mod giga"

definition int64_of_float :: "primitives \<Rightarrow> rat \<Rightarrow> int" where
  "int64_of_float P f =
     (let n = (if f \<ge> 0 then \<lfloor>f\<rfloor> else \<lceil>f\<rceil>) in
      if - max_int64 - 1 \<le> n \<and> n \<le> max_int64 then n else int64_overflow P f)"

definition numeric_date :: "primitives \<Rightarrow> json option \<Rightarrow> int option" where
  "numeric_date P v =
     (case v of Some (JNum f) \<Rightarrow> Some (time_unix (int64_of_float P f)) | _ \<Rightarrow> None)"

definition after_limit :: "int option \<Rightarrow> int \<Rightarrow> bool" where
  "after_limit t limit = (case t of Some t \<Rightarrow> limit < t | None \<Rightarrow> False)"

definition check_time :: "primitives \<Rightarrow> claims \<Rightarrow> int \<Rightarrow> int \<Rightarrow> (jose_error, unit) result" where
  "check_time P m now skew =
     (case numeric_date P (claim m ''exp'') of
        None \<Rightarrow> Inl ExpMissing
      | Some expiry \<Rightarrow>
          if time_add expiry skew < now then Inl TokenExpired
          else if after_limit (numeric_date P (claim m ''iat'')) (time_add now skew) then Inl IatInFuture
          else if after_limit (numeric_date P (claim m ''nbf'')) (time_add now skew) then Inl NotYetValid
          else Inr ())"

definition check_issuer :: "claims \<Rightarrow> string \<Rightarrow> (jose_error, unit) result" where
  "check_issuer m issuer =
     (if claim_string m ''iss'' \<noteq> issuer \<or> issuer = [] then Inl IssuerMismatch else Inr ())"

definition audiences :: "claims \<Rightarrow> string list" where
  "audiences m =
     (case claim m ''aud'' of
        Some (JStr s) \<Rightarrow> [s]
      | Some (JArr xs) \<Rightarrow> strings_of xs
      | _ \<Rightarrow> [])"

definition check_audience :: "claims \<Rightarrow> string \<Rightarrow> (jose_error, unit) result" where
  "check_audience m client =
     (if client = [] then Inl NoExpectedAudience
      else if client \<notin> set (audiences m) then Inl AudienceMismatch
      else if 1 < length (audiences m) then
        (case as_string (claim m ''azp'') of
           Some azp \<Rightarrow> if azp \<noteq> client then Inl AzpMismatch else Inr ()
         | None \<Rightarrow> Inr ())
      else Inr ())"

section \<open>HMAC tokens\<close>

definition sign_hs256 :: "primitives \<Rightarrow> claims \<Rightarrow> string \<Rightarrow> (jose_error, string) result" where
  "sign_hs256 P m secret =
     (case json_encode P (JObj [(''alg'', JStr ''HS256''), (''typ'', JStr ''JWT'')]) of
        None \<Rightarrow> Inl EncodeFailed
      | Some hj \<Rightarrow>
          (case json_encode P (JObj m) of
             None \<Rightarrow> Inl EncodeFailed
           | Some cj \<Rightarrow>
               (let input = signing_input (b64_encode hj) (b64_encode cj)
                in Inr (input @ ''.'' @ b64_encode (hmac_sha256 P secret input)))))"

definition verify_hs256 :: "primitives \<Rightarrow> string \<Rightarrow> string \<Rightarrow> (jose_error, claims) result" where
  "verify_hs256 P token secret =
     (case split_on CHR ''.'' token of
        [h, p, s] \<Rightarrow>
          (case decode_segment P h of
             Inl e \<Rightarrow> Inl Malformed
           | Inr hdr \<Rightarrow>
               (let alg = claim_string hdr ''alg'' in
                if alg \<noteq> ''HS256'' then Inl (AlgRejected alg)
                else (case b64_decode s of
                        None \<Rightarrow> Inl Malformed
                      | Some sig \<Rightarrow>
                          if sig \<noteq> hmac_sha256 P secret (signing_input h p) then Inl BadSig
                          else decode_segment P p)))
      | _ \<Rightarrow> Inl Malformed)"

section \<open>Key sets\<close>

definition signed64 :: "nat \<Rightarrow> int" where
  "signed64 n = wrap64 (int n)"

definition big_endian :: "string \<Rightarrow> nat" where
  "big_endian s = foldl (\<lambda>acc c. acc * 256 + of_char c) 0 s"

record jwk =
  jwk_kty :: string
  jwk_kid :: string
  jwk_n :: string
  jwk_e :: string

definition decode_jwk :: "json \<Rightarrow> jwk option" where
  "decode_jwk v =
     (case struct_members v of
        None \<Rightarrow> None
      | Some m \<Rightarrow>
          (case (field_string ''kty'' m [], field_string ''kid'' m [],
                 field_string ''n'' m [], field_string ''e'' m []) of
             (Some t, Some k, Some n, Some e) \<Rightarrow>
               Some \<lparr>jwk_kty = t, jwk_kid = k, jwk_n = n, jwk_e = e\<rparr>
           | _ \<Rightarrow> None))"

fun decode_all :: "json list \<Rightarrow> jwk list option" where
  "decode_all [] = Some []"
| "decode_all (v # vs) =
     (case (decode_jwk v, decode_all vs) of (Some k, Some ks) \<Rightarrow> Some (k # ks) | _ \<Rightarrow> None)"

text \<open>The \<open>keys\<close> member of the document; of several, the last is taken.\<close>

fun field_keys :: "claims \<Rightarrow> jwk list \<Rightarrow> jwk list option" where
  "field_keys [] acc = Some acc"
| "field_keys ((k, v) # m) acc =
     (if fold_name k = ''keys''
      then (case v of
              JArr xs \<Rightarrow> Option.bind (decode_all xs) (field_keys m)
            | JNull \<Rightarrow> field_keys m []
            | _ \<Rightarrow> None)
      else field_keys m acc)"

definition add_key :: "jwk \<Rightarrow> (string \<times> rsa_key) list \<Rightarrow> (string \<times> rsa_key) list" where
  "add_key k keys =
     (if jwk_kty k \<noteq> ''RSA'' \<or> jwk_n k = [] \<or> jwk_e k = [] then keys
      else (case (b64_decode (jwk_n k), b64_decode (jwk_e k)) of
              (Some n, Some e) \<Rightarrow>
                (jwk_kid k, \<lparr>key_n = big_endian n, key_e = signed64 (big_endian e)\<rparr>) # keys
            | _ \<Rightarrow> keys))"

text \<open>The map from key id to key is a list with the latest entry in front.\<close>

definition parse_jwks :: "primitives \<Rightarrow> string \<Rightarrow> (jose_error, (string \<times> rsa_key) list) result" where
  "parse_jwks P doc =
     (case Option.bind (json_decode P doc) struct_members of
        None \<Rightarrow> Inl UnparseableJWKS
      | Some m \<Rightarrow>
          (case field_keys m [] of
             None \<Rightarrow> Inl UnparseableJWKS
           | Some ks \<Rightarrow> Inr (foldl (\<lambda>keys k. add_key k keys) [] ks)))"

section \<open>The key fetcher\<close>

datatype fetch_reply = Unreachable | Answered int string

record cached_set =
  cs_keys :: "(string \<times> rsa_key) list"
  cs_fetched :: int

type_synonym key_cache = "(string \<times> cached_set) list"

definition body_limit :: nat where
  "body_limit = 1048576"

definition fetch_set :: "primitives \<Rightarrow> fetch_reply \<Rightarrow> (jose_error, (string \<times> rsa_key) list) result" where
  "fetch_set P reply =
     (case reply of
        Unreachable \<Rightarrow> Inl FetchFailed
      | Answered code body \<Rightarrow>
          if code \<noteq> 200 then Inl (FetchStatus code) else parse_jwks P (take body_limit body))"

definition default_ttl :: int where
  "default_ttl = 5 * 60 * giga"

definition cached_key :: "key_cache \<Rightarrow> string \<Rightarrow> string \<Rightarrow> rsa_key option" where
  "cached_key cache url kid = Option.bind (map_of cache url) (\<lambda>cs. map_of (cs_keys cs) kid)"

definition fresh_set :: "int \<Rightarrow> int \<Rightarrow> key_cache \<Rightarrow> string \<Rightarrow> bool" where
  "fresh_set ttl now cache url =
     (case map_of cache url of
        None \<Rightarrow> False
      | Some cs \<Rightarrow> now - cs_fetched cs < (if ttl = 0 then default_ttl else ttl))"

text \<open>\<open>now\<close> is the clock at the cache check, \<open>fin\<close> the clock once the reply has been read.\<close>

definition fetch_key ::
  "primitives \<Rightarrow> int \<Rightarrow> int \<Rightarrow> int \<Rightarrow> fetch_reply \<Rightarrow> string \<Rightarrow> string \<Rightarrow> key_cache
     \<Rightarrow> (jose_error, rsa_key) result \<times> key_cache" where
  "fetch_key P ttl now fin reply url kid cache =
     (if fresh_set ttl now cache url \<and> cached_key cache url kid \<noteq> None
      then (Inr (the (cached_key cache url kid)), cache)
      else (case fetch_set P reply of
              Inl e \<Rightarrow>
                (case cached_key cache url kid of
                   Some k \<Rightarrow> (Inr k, cache)
                 | None \<Rightarrow> (Inl e, cache))
            | Inr keys \<Rightarrow>
                (case map_of keys kid of
                   Some k \<Rightarrow> Inr k
                 | None \<Rightarrow> Inl (KidNotFound kid),
                 AList.update url \<lparr>cs_keys = keys, cs_fetched = fin\<rparr> cache)))"

section \<open>What a verified token is\<close>

lemma split_three:
  "split_on c t = [a, b, d] \<Longrightarrow> t = a @ c # b @ c # d"
  by (auto dest!: split_on_join split_on_single)

lemma verify_sound:
  assumes "verify P token key = Inr m"
  obtains h p s hdr hash sig where "token = h @ CHR ''.'' # p @ CHR ''.'' # s"
    and "decode_segment P h = Inr hdr" and "map_of allowed_algs (claim_string hdr ''alg'') = Some hash"
    and "b64_decode s = Some sig"
    and "rsa_verify P key hash (digest P hash (signing_input h p)) sig"
    and "decode_segment P p = Inr m"
  using assms unfolding verify_def
  by (auto simp: Let_def dest!: split_three split: list.splits sum.splits option.splits if_splits)

lemma verify_alg:
  assumes "verify P token key = Inr m"
  obtains h p s hdr hash where "split_on CHR ''.'' token = [h, p, s]" and "decode_segment P h = Inr hdr"
    and "map_of allowed_algs (claim_string hdr ''alg'') = Some hash"
  using assms unfolding verify_def
  by (auto simp: Let_def split: list.splits sum.splits option.splits if_splits)

lemma verify_peek: "verify P token key = Inr m \<Longrightarrow> peek_claims P token = Inr m"
  unfolding verify_def peek_claims_def
  by (auto simp: Let_def split: list.splits sum.splits option.splits if_splits)

lemma verify_hs256_alg:
  assumes "verify_hs256 P token secret = Inr m"
  obtains h p s hdr where "split_on CHR ''.'' token = [h, p, s]" and "decode_segment P h = Inr hdr"
    and "claim_string hdr ''alg'' = ''HS256''"
  using assms unfolding verify_hs256_def
  by (auto simp: Let_def split: list.splits sum.splits option.splits if_splits)

lemma algs_disjoint: "map_of allowed_algs ''HS256'' = None"
  by (simp add: allowed_algs_def)

lemma no_alg_confusion_aux:
  assumes "verify P token key = Inr m"
  shows "\<not> is_ok (verify_hs256 P token secret)"
proof
  assume "is_ok (verify_hs256 P token secret)"
  then obtain m' where "verify_hs256 P token secret = Inr m'" by (auto simp: is_ok_iff)
  with assms show False
    by (elim verify_alg verify_hs256_alg) (auto simp: algs_disjoint)
qed

lemma decode_segment_b64:
  "json_decode P raw = Some (JObj m) \<Longrightarrow> decode_segment P (b64_encode raw) = Inr m"
  by (simp add: decode_segment_def struct_members_def)

lemma split_token:
  "CHR ''.'' \<notin> set a \<Longrightarrow> CHR ''.'' \<notin> set b \<Longrightarrow> CHR ''.'' \<notin> set d \<Longrightarrow>
     split_on CHR ''.'' (signing_input a b @ CHR ''.'' # d) = [a, b, d]"
  by (simp add: signing_input_def split_on_append split_on_notin)

lemma hs256_round_trip:
  assumes "json_encode P (JObj [(''alg'', JStr ''HS256''), (''typ'', JStr ''JWT'')]) = Some hj"
    and "json_decode P hj = Some (JObj [(''alg'', JStr ''HS256''), (''typ'', JStr ''JWT'')])"
    and "json_encode P (JObj m) = Some cj" and "json_decode P cj = Some (JObj m')"
  shows "\<exists>token. sign_hs256 P m secret = Inr token \<and> verify_hs256 P token secret = Inr m'"
  using assms
  by (simp add: sign_hs256_def verify_hs256_def Let_def split_token b64_no_dot decode_segment_b64
      claim_string_def claim_def as_string_def str_or_empty_def)

lemma decode_all_fails: "x \<in> set xs \<Longrightarrow> decode_jwk x = None \<Longrightarrow> decode_all xs = None"
  by (induction xs) (auto split: option.splits)

text \<open>One entry with a member of the wrong type fails the whole set; it is not skipped.\<close>

lemma mistyped_jwk_fails_the_set:
  assumes "json_decode P doc = Some (JObj [(''keys'', JArr xs)])"
    and "x \<in> set xs" and "decode_jwk x = None"
  shows "parse_jwks P doc = Inl UnparseableJWKS"
proof -
  have "fold_name ''keys'' = ''keys''" by code_simp
  then show ?thesis
    using assms by (simp add: parse_jwks_def struct_members_def decode_all_fails)
qed

section \<open>Keys handed out were published\<close>

text \<open>
  The fetcher as a machine: an event is a key request with the reply its fetch would get; the hist
  keeps the key sets each URL has answered.
\<close>

record key_request =
  kr_ttl :: int
  kr_now :: int
  kr_fin :: int
  kr_reply :: fetch_reply
  kr_url :: string
  kr_kid :: string

type_synonym fetch_log = "(string \<times> (string \<times> rsa_key) list) list"

definition run_request :: "primitives \<Rightarrow> key_request \<Rightarrow> key_cache \<Rightarrow> (jose_error, rsa_key) result \<times> key_cache" where
  "run_request P q cache =
     fetch_key P (kr_ttl q) (kr_now q) (kr_fin q) (kr_reply q) (kr_url q) (kr_kid q) cache"

definition log_reply :: "primitives \<Rightarrow> key_request \<Rightarrow> fetch_log \<Rightarrow> fetch_log" where
  "log_reply P q hist =
     (case fetch_set P (kr_reply q) of Inr keys \<Rightarrow> (kr_url q, keys) # hist | Inl e \<Rightarrow> hist)"

definition fetch_step :: "primitives \<Rightarrow> key_request \<Rightarrow> key_cache \<times> fetch_log \<Rightarrow> key_cache \<times> fetch_log" where
  "fetch_step P q s = (snd (run_request P q (fst s)), log_reply P q (snd s))"

definition from_log :: "key_cache \<times> fetch_log \<Rightarrow> bool" where
  "from_log s = list_all (\<lambda>(url, cs). (url, cs_keys cs) \<in> set (snd s)) (fst s)"

lemma from_log_lookup:
  "from_log (cache, hist) \<Longrightarrow> map_of cache url = Some cs \<Longrightarrow> (url, cs_keys cs) \<in> set hist"
  by (auto simp: from_log_def list_all_iff dest!: map_of_SomeD)

lemma set_AList_update: "x \<in> set (AList.update k v al) \<Longrightarrow> x = (k, v) \<or> x \<in> set al"
  by (induction al) (auto split: if_splits)

lemma from_log_update:
  "from_log (cache, hist) \<Longrightarrow>
     from_log (AList.update url \<lparr>cs_keys = keys, cs_fetched = fin\<rparr> cache, (url, keys) # hist)"
  by (fastforce simp: from_log_def list_all_iff dest!: set_AList_update)

lemma from_log_weaken: "from_log (cache, hist) \<Longrightarrow> from_log (cache, x # hist)"
  by (fastforce simp: from_log_def list_all_iff)

lemma fetch_step_from_log: "from_log s \<Longrightarrow> from_log (fetch_step P q s)"
  by (cases s)
     (auto simp: fetch_step_def run_request_def fetch_key_def log_reply_def
       intro: from_log_update from_log_weaken split: sum.splits option.splits)

interpretation fetcher: invariant_machine "fetch_step P" from_log for P
  by unfold_locales (rule fetch_step_from_log)

lemma fetch_key_source:
  assumes "from_log (cache, hist)" and "fst (run_request P q cache) = Inr k"
  shows "\<exists>keys. (kr_url q, keys) \<in> set (log_reply P q hist) \<and> map_of keys (kr_kid q) = Some k"
proof -
  have "(\<exists>cs. map_of cache (kr_url q) = Some cs \<and> map_of (cs_keys cs) (kr_kid q) = Some k) \<or>
        (\<exists>keys. fetch_set P (kr_reply q) = Inr keys \<and> map_of keys (kr_kid q) = Some k)"
    using assms(2)
    by (auto simp: run_request_def fetch_key_def cached_key_def Option.bind_eq_Some_conv
        split: if_splits sum.splits option.splits)
  then show ?thesis
  proof
    assume "\<exists>cs. map_of cache (kr_url q) = Some cs \<and> map_of (cs_keys cs) (kr_kid q) = Some k"
    then show ?thesis
      using from_log_lookup [OF assms(1)] by (fastforce simp: log_reply_def split: sum.splits)
  next
    assume "\<exists>keys. fetch_set P (kr_reply q) = Inr keys \<and> map_of keys (kr_kid q) = Some k"
    then show ?thesis by (auto simp: log_reply_def)
  qed
qed

end
