(* ===== verification/Lti.thy ===== *)
theory Lti
  imports Jose Query
begin

text \<open>
  LTI 1.3 core launch, \<open>internal/lti\<close>: the platform registry (\<open>lti.go\<close>), the single-use flow
  store in memory and in Postgres (\<open>store.go\<close>), the projection of a launch into roles
  (\<open>roles.go\<close>), login initiation and launch validation (\<open>launch.go\<close>). Random bytes, clock readings
  and the database's replies are arguments.
\<close>

section \<open>Registry\<close>

record platform =
  pf_issuer :: string
  pf_client :: string
  pf_deployments :: "string list"
  pf_jwks :: string
  pf_auth :: string

datatype store_error = StoreDown | DuplicateKey

datatype lti_error =
    NoState
  | StateMismatch
  | StoreFailed store_error
  | StateSpent
  | TokenError jose_error
  | NoPlatform string string
  | AmbiguousIssuer string nat
  | NonceMissing
  | NonceSpent
  | UnregisteredDeployment string
  | WrongMessageType string
  | WrongVersion string
  | TargetLinkMissing
  | ResourceLinkMissing
  | RolesMissing

definition has_deployment :: "platform \<Rightarrow> string \<Rightarrow> bool" where
  "has_deployment p d = list_ex (\<lambda>x. x = d) (pf_deployments p)"

definition lookup_platform :: "platform list \<Rightarrow> string \<Rightarrow> string \<Rightarrow> (lti_error, platform) result" where
  "lookup_platform ps issuer client =
     (let found = filter (\<lambda>p. pf_issuer p = issuer \<and> (client = [] \<or> pf_client p = client)) ps in
      case found of
        [p] \<Rightarrow> Inr p
      | [] \<Rightarrow> Inl (NoPlatform issuer client)
      | _ \<Rightarrow> Inl (AmbiguousIssuer issuer (length found)))"

lemma lookup_platform_mem:
  assumes "lookup_platform ps issuer client = Inr p"
  shows "p \<in> set ps" and "pf_issuer p = issuer"
proof -
  have "filter (\<lambda>p. pf_issuer p = issuer \<and> (client = [] \<or> pf_client p = client)) ps = [p]"
    using assms by (simp add: lookup_platform_def Let_def split: list.splits)
  then have "p \<in> set (filter (\<lambda>p. pf_issuer p = issuer \<and> (client = [] \<or> pf_client p = client)) ps)"
    by simp
  then show "p \<in> set ps" and "pf_issuer p = issuer" by auto
qed

section \<open>Flow stores\<close>

datatype flow_kind = KindState | KindNonce

fun kind_name :: "flow_kind \<Rightarrow> string" where
  "kind_name KindState = ''state''"
| "kind_name KindNonce = ''nonce''"

definition flow_ttl :: int where
  "flow_ttl = 10 * 60 * giga"

definition new_value :: "string \<Rightarrow> string" where
  "new_value bytes = b64_encode bytes"

type_synonym mem_flow = "(string \<times> int) list"

definition flow_key :: "flow_kind \<Rightarrow> string \<Rightarrow> string" where
  "flow_key kind v = kind_name kind @ CHR 0x00 # v"

definition mem_mint ::
  "int \<Rightarrow> flow_kind \<Rightarrow> string \<Rightarrow> int \<Rightarrow> mem_flow \<Rightarrow> (store_error, unit) result \<times> mem_flow" where
  "mem_mint now kind v ttl m = (Inr (), AList.update (flow_key kind v) (time_add now ttl) m)"

definition mem_spend ::
  "int \<Rightarrow> flow_kind \<Rightarrow> string \<Rightarrow> mem_flow \<Rightarrow> (store_error, bool) result \<times> mem_flow" where
  "mem_spend now kind v m =
     (case map_of m (flow_key kind v) of
        None \<Rightarrow> (Inr False, m)
      | Some expiry \<Rightarrow> (Inr (now < expiry), AList.delete (flow_key kind v) m))"

text \<open>
  The table \<open>lti_flow\<close>, with its primary key. A statement is served, refused before it ran
  (an unreachable database, a value that is not text), or runs and loses its reply; \<open>now\<close> is the database's clock.
\<close>

record flow_row =
  fl_kind :: flow_kind
  fl_value :: string
  fl_expires :: int

datatype db_reply = Served | Refused | ReplyLost

definition flow_row_is :: "flow_kind \<Rightarrow> string \<Rightarrow> flow_row \<Rightarrow> bool" where
  "flow_row_is kind v r = (fl_kind r = kind \<and> fl_value r = v)"

definition pg_mint ::
  "db_reply \<times> int \<Rightarrow> flow_kind \<Rightarrow> string \<Rightarrow> int \<Rightarrow> flow_row list
     \<Rightarrow> (store_error, unit) result \<times> flow_row list" where
  "pg_mint e kind v ttl rows =
     (case e of (reply, now) \<Rightarrow>
        if reply = Refused then (Inl StoreDown, rows)
        else if list_ex (flow_row_is kind v) rows
        then (Inl (if reply = Served then DuplicateKey else StoreDown), rows)
        else (if reply = Served then Inr () else Inl StoreDown,
              rows @ [\<lparr>fl_kind = kind, fl_value = v, fl_expires = now + ttl\<rparr>]))"

definition pg_spend ::
  "db_reply \<times> int \<Rightarrow> flow_kind \<Rightarrow> string \<Rightarrow> flow_row list
     \<Rightarrow> (store_error, bool) result \<times> flow_row list" where
  "pg_spend e kind v rows =
     (case e of (reply, now) \<Rightarrow>
        if reply = Refused then (Inl StoreDown, rows)
        else (if reply = ReplyLost then Inl StoreDown
              else (case find (flow_row_is kind v) rows of
                      None \<Rightarrow> Inr False
                    | Some r \<Rightarrow> Inr (now < fl_expires r)),
              filter (\<lambda>r. \<not> flow_row_is kind v r) rows))"

section \<open>Role mapping\<close>

definition membership_prefix :: string where
  "membership_prefix = ''http://purl.imsglobal.org/vocab/lis/v2/membership#''"

definition lti_prefix :: string where
  "lti_prefix = ''ROLE_LTI_''"

definition is_upper_alnum :: "char \<Rightarrow> bool" where
  "is_upper_alnum c = (let n = (of_char c :: nat) in (65 \<le> n \<and> n \<le> 90) \<or> (48 \<le> n \<and> n \<le> 57))"

definition role_allowed :: "string \<Rightarrow> bool" where
  "role_allowed r =
     (has_prefix r lti_prefix \<and>
      (let rest = drop (length lti_prefix) r in
       1 \<le> length rest \<and> length rest \<le> 64 \<and> list_all (\<lambda>c. is_upper_alnum c \<or> c = CHR ''_'') rest))"

text \<open>
  \<open>strings.ToUpper\<close> as far as \<open>sanitizeRe\<close> can tell: the dotless i and the long s become ASCII
  letters, every other character outside ASCII stays outside it.
\<close>

definition upper :: "char \<Rightarrow> char" where
  "upper c = (let n = (of_char c :: nat) in if 97 \<le> n \<and> n \<le> 122 then char_of (n - 32) else c)"

fun to_upper :: "string \<Rightarrow> string" where
  "to_upper [] = []"
| "to_upper (c # cs) =
     (if has_prefix (c # cs) [CHR 0xC4, CHR 0xB1] then CHR ''I'' # to_upper (drop 1 cs)
      else if has_prefix (c # cs) [CHR 0xC5, CHR 0xBF] then CHR ''S'' # to_upper (drop 1 cs)
      else upper c # to_upper cs)"

text \<open>\<open>ReplaceAllString(s, "_")\<close> of \<open>[^A-Z0-9]+\<close>: each maximal run becomes one underscore.\<close>

fun collapse :: "bool \<Rightarrow> string \<Rightarrow> string" where
  "collapse in_run [] = []"
| "collapse in_run (c # cs) =
     (if is_upper_alnum c then c # collapse False cs
      else if in_run then collapse True cs
      else CHR ''_'' # collapse True cs)"

definition trim_underscores :: "string \<Rightarrow> string" where
  "trim_underscores s = rev (dropWhile (\<lambda>c. c = CHR ''_'') (rev (dropWhile (\<lambda>c. c = CHR ''_'') s)))"

definition sanitize :: "string \<Rightarrow> string" where
  "sanitize s = take 48 (trim_underscores (collapse False (to_upper s)))"

record launch =
  la_issuer :: string
  la_client :: string
  la_deployment :: string
  la_subject :: string
  la_roles :: "string list"
  la_context :: string
  la_label :: string
  la_resource :: string
  la_target :: string
  la_claims :: claims

definition emit_role :: "string \<Rightarrow> string list \<Rightarrow> string list" where
  "emit_role r acc = (if role_allowed r \<and> r \<notin> set acc then acc @ [r] else acc)"

definition emit_uri :: "string \<Rightarrow> string list \<Rightarrow> string list" where
  "emit_uri uri acc =
     (if \<not> has_prefix uri membership_prefix then acc
      else let s = sanitize (drop (length membership_prefix) uri)
           in if s \<noteq> [] then emit_role (lti_prefix @ s) acc else acc)"

definition map_roles :: "launch \<Rightarrow> string list" where
  "map_roles l =
     (let out = fold emit_uri (la_roles l) (emit_role ''ROLE_LTI_USER'' [])
      in if la_context l = [] then out
         else let s = sanitize (la_context l)
              in if s \<noteq> [] then emit_role (''ROLE_LTI_CONTEXT_'' @ s) out else out)"

section \<open>Login initiation\<close>

record login_form =
  lf_well_formed :: bool
  lf_iss :: string
  lf_hint :: string
  lf_client :: string
  lf_message_hint :: string
  lf_https :: bool
  lf_host :: string

text \<open>The redirect is its endpoint and its query parameters, in the order \<open>Encode\<close> writes them.\<close>

datatype login_response =
    LoginError int string
  | LoginRedirect string bool string "(string \<times> string) list"

definition redirect_uri :: "string \<Rightarrow> login_form \<Rightarrow> string" where
  "redirect_uri path f =
     (if lf_https f then ''https'' else ''http'') @ ''://'' @ lf_host f @
     (if path = [] then ''/lti/launch'' else path)"

definition auth_request :: "platform \<Rightarrow> string \<Rightarrow> login_form \<Rightarrow> string \<Rightarrow> string \<Rightarrow> (string \<times> string) list" where
  "auth_request p path f state nonce =
     [(''client_id'', pf_client p), (''login_hint'', lf_hint f)] @
     (if lf_message_hint f \<noteq> [] then [(''lti_message_hint'', lf_message_hint f)] else []) @
     [(''nonce'', nonce), (''prompt'', ''none''), (''redirect_uri'', redirect_uri path f),
      (''response_mode'', ''form_post''), (''response_type'', ''id_token''), (''scope'', ''openid''),
      (''state'', state)]"

text \<open>Go ranges over the two values in an arbitrary order; the first failure ends the login.\<close>

fun mint_all ::
  "('e \<Rightarrow> flow_kind \<Rightarrow> string \<Rightarrow> int \<Rightarrow> 's \<Rightarrow> (store_error, unit) result \<times> 's)
     \<Rightarrow> ('e \<times> flow_kind \<times> string) list \<Rightarrow> 's \<Rightarrow> bool \<times> 's" where
  "mint_all mint [] s = (True, s)"
| "mint_all mint ((e, k, v) # vs) s =
     (case mint e k v flow_ttl s of (Inl err, s') \<Rightarrow> (False, s') | (Inr u, s') \<Rightarrow> mint_all mint vs s')"

definition mint_order :: "bool \<Rightarrow> 'e \<Rightarrow> 'e \<Rightarrow> string \<Rightarrow> string \<Rightarrow> ('e \<times> flow_kind \<times> string) list" where
  "mint_order state_first e1 e2 state nonce =
     (if state_first then [(e1, KindState, state), (e2, KindNonce, nonce)]
      else [(e1, KindNonce, nonce), (e2, KindState, state)])"

definition login ::
  "('e \<Rightarrow> flow_kind \<Rightarrow> string \<Rightarrow> int \<Rightarrow> 's \<Rightarrow> (store_error, unit) result \<times> 's) \<Rightarrow> platform list
     \<Rightarrow> string \<Rightarrow> login_form \<Rightarrow> string \<Rightarrow> string \<Rightarrow> bool \<Rightarrow> 'e \<Rightarrow> 'e \<Rightarrow> 's \<Rightarrow> login_response \<times> 's" where
  "login mint ps path f random1 random2 state_first e1 e2 s =
     (if \<not> lf_well_formed f then (LoginError 400 ''malformed request'', s)
      else if lf_iss f = [] \<or> lf_hint f = []
      then (LoginError 400 ''iss and login_hint are required'', s)
      else (case lookup_platform ps (lf_iss f) (lf_client f) of
              Inl e \<Rightarrow> (LoginError 403 ''unknown platform'', s)
            | Inr p \<Rightarrow>
                (let state = new_value random1; nonce = new_value random2 in
                 case mint_all mint (mint_order state_first e1 e2 state nonce) s of
                   (False, s') \<Rightarrow> (LoginError 500 ''flow store unavailable'', s')
                 | (True, s') \<Rightarrow>
                     (LoginRedirect state (lf_https f) (pf_auth p)
                        (auth_request p path f state nonce), s'))))"

section \<open>Launch validation\<close>

definition claim_uri :: "string \<Rightarrow> string" where
  "claim_uri x = ''https://purl.imsglobal.org/spec/lti/claim/'' @ x"

text \<open>The registration the unverified issuer selects, and the header that selects the key.\<close>

definition trust_anchor :: "primitives \<Rightarrow> platform list \<Rightarrow> string \<Rightarrow> (lti_error, platform \<times> header) result" where
  "trust_anchor P ps token =
     (case peek_claims P token of
        Inl e \<Rightarrow> Inl (TokenError e)
      | Inr peek \<Rightarrow>
          bind_result (lookup_platform ps (claim_string peek ''iss'') [])
            (\<lambda>p. case parse_header P token of Inl e \<Rightarrow> Inl (TokenError e) | Inr h \<Rightarrow> Inr (p, h)))"

definition as_token_error :: "(jose_error, 'a) result \<Rightarrow> (lti_error, 'a) result" where
  "as_token_error r = (case r of Inl e \<Rightarrow> Inl (TokenError e) | Inr a \<Rightarrow> Inr a)"

definition verified_claims ::
  "primitives \<Rightarrow> platform \<Rightarrow> int \<Rightarrow> int \<Rightarrow> rsa_key \<Rightarrow> string \<Rightarrow> (lti_error, claims) result" where
  "verified_claims P p now skew key token =
     bind_result (as_token_error (verify P token key)) (\<lambda>m.
     bind_result (as_token_error (check_issuer m (pf_issuer p))) (\<lambda>_.
     bind_result (as_token_error (check_audience m (pf_client p))) (\<lambda>_.
     bind_result (as_token_error (check_time P m now skew)) (\<lambda>_.
     if claim_string m ''nonce'' = [] then Inl NonceMissing else Inr m))))"

definition launch_from_claims :: "claims \<Rightarrow> platform \<Rightarrow> launch" where
  "launch_from_claims m p =
     (let rl = as_object (claim m (claim_uri ''resource_link''));
          ctx = as_object (claim m (claim_uri ''context'')) in
      \<lparr>la_issuer = pf_issuer p, la_client = pf_client p,
       la_deployment = claim_string m (claim_uri ''deployment_id''),
       la_subject = claim_string m ''sub'',
       la_roles = (case as_array (claim m (claim_uri ''roles'')) of Some xs \<Rightarrow> strings_of xs | None \<Rightarrow> []),
       la_context = (case ctx of Some c \<Rightarrow> claim_string c ''id'' | None \<Rightarrow> []),
       la_label = (case ctx of Some c \<Rightarrow> claim_string c ''label'' | None \<Rightarrow> []),
       la_resource = (case rl of Some c \<Rightarrow> claim_string c ''id'' | None \<Rightarrow> []),
       la_target = claim_string m (claim_uri ''target_link_uri''),
       la_claims = m\<rparr>)"

definition message_checks :: "platform \<Rightarrow> claims \<Rightarrow> (lti_error, launch) result" where
  "message_checks p m =
     (let dep = claim_string m (claim_uri ''deployment_id'');
          mt = claim_string m (claim_uri ''message_type'');
          v = claim_string m (claim_uri ''version'') in
      if dep = [] \<or> \<not> has_deployment p dep then Inl (UnregisteredDeployment dep)
      else if mt \<noteq> ''LtiResourceLinkRequest'' then Inl (WrongMessageType mt)
      else if v \<noteq> ''1.3.0'' then Inl (WrongVersion v)
      else if claim_string m (claim_uri ''target_link_uri'') = [] then Inl TargetLinkMissing
      else if (case as_object (claim m (claim_uri ''resource_link'')) of
                 Some rl \<Rightarrow> claim_string rl ''id'' = [] | None \<Rightarrow> True) then Inl ResourceLinkMissing
      else if as_array (claim m (claim_uri ''roles'')) = None then Inl RolesMissing
      else Inr (launch_from_claims m p))"

text \<open>
  What one call of \<open>validate\<close> meets: what each spend meets, the clock of the time checks, the skew
  (a zero skew is the default), and the clocks and reply of a key fetch.
\<close>

record 'e launch_env =
  le_state :: 'e
  le_nonce :: 'e
  le_now :: int
  le_skew :: int
  le_ttl :: int
  le_fetch_now :: int
  le_fetch_fin :: int
  le_reply :: fetch_reply

definition skew_of :: "int \<Rightarrow> int" where
  "skew_of s = (if s \<noteq> 0 then s else 60 * giga)"

definition validate ::
  "primitives \<Rightarrow> ('e \<Rightarrow> flow_kind \<Rightarrow> string \<Rightarrow> 's \<Rightarrow> (store_error, bool) result \<times> 's) \<Rightarrow> platform list
     \<Rightarrow> 'e launch_env \<Rightarrow> string \<Rightarrow> string \<Rightarrow> string \<Rightarrow> 's \<Rightarrow> key_cache
     \<Rightarrow> (lti_error, launch) result \<times> 's \<times> key_cache" where
  "validate P spend ps env token state cookie s c =
     (if state = [] then (Inl NoState, s, c)
      else if cookie \<noteq> [] \<and> cookie \<noteq> state then (Inl StateMismatch, s, c)
      else (case spend (le_state env) KindState state s of
        (Inl e, s1) \<Rightarrow> (Inl (StoreFailed e), s1, c)
      | (Inr ok, s1) \<Rightarrow>
          if \<not> ok then (Inl StateSpent, s1, c)
          else (case trust_anchor P ps token of
            Inl e \<Rightarrow> (Inl e, s1, c)
          | Inr (p, h) \<Rightarrow>
              (case fetch_key P (le_ttl env) (le_fetch_now env) (le_fetch_fin env) (le_reply env)
                      (pf_jwks p) (h_kid h) c of
                (Inl e, c1) \<Rightarrow> (Inl (TokenError e), s1, c1)
              | (Inr key, c1) \<Rightarrow>
                  (case verified_claims P p (le_now env) (skew_of (le_skew env)) key token of
                     Inl e \<Rightarrow> (Inl e, s1, c1)
                   | Inr m \<Rightarrow>
                       (case spend (le_nonce env) KindNonce (claim_string m ''nonce'') s1 of
                          (Inl e, s2) \<Rightarrow> (Inl (StoreFailed e), s2, c1)
                        | (Inr ok, s2) \<Rightarrow>
                            if \<not> ok then (Inl NonceSpent, s2, c1)
                            else (message_checks p m, s2, c1)))))))"

text \<open>The HTTP handler in front of it: every rejection is the same 401.\<close>

record launch_request =
  lr_post :: bool
  lr_well_formed :: bool
  lr_token :: string
  lr_state :: string
  lr_cookie :: string

datatype launch_response = LaunchError int string | Launched launch

definition handle_launch ::
  "primitives \<Rightarrow> ('e \<Rightarrow> flow_kind \<Rightarrow> string \<Rightarrow> 's \<Rightarrow> (store_error, bool) result \<times> 's) \<Rightarrow> platform list
     \<Rightarrow> 'e launch_env \<Rightarrow> launch_request \<Rightarrow> 's \<Rightarrow> key_cache \<Rightarrow> launch_response \<times> 's \<times> key_cache" where
  "handle_launch P spend ps env r s c =
     (if \<not> lr_post r then (LaunchError 405 ''method not allowed'', s, c)
      else if \<not> lr_well_formed r then (LaunchError 400 ''malformed request'', s, c)
      else (case validate P spend ps env (lr_token r) (lr_state r) (lr_cookie r) s c of
              (Inl e, s', c') \<Rightarrow> (LaunchError 401 ''launch rejected'', s', c')
            | (Inr l, s', c') \<Rightarrow> (Launched l, s', c')))"

end
