(* ===== verification/LtiProps.thy ===== *)
theory LtiProps
  imports Lti
begin

text \<open>
  What the launch path guarantees: the bound on launch roles, what an accepted launch has passed,
  single use of state and nonce over whole runs (through the contract \<open>flow_store\<close>, interpreted
  on both stores), the agreement of the two stores, and that a login is followed by its launch.
\<close>

section \<open>The role bound\<close>

lemma set_collapse: "c \<in> set (collapse b s) \<Longrightarrow> is_upper_alnum c \<or> c = CHR ''_''"
  by (induction b s rule: collapse.induct) (auto split: if_splits)

lemma set_trim_underscores: "set (trim_underscores s) \<subseteq> set s"
  by (auto simp: trim_underscores_def dest!: set_dropWhileD)

lemma set_sanitize: "c \<in> set (sanitize s) \<Longrightarrow> is_upper_alnum c \<or> c = CHR ''_''"
  unfolding sanitize_def using set_trim_underscores by (blast dest: in_set_takeD set_collapse)

lemma length_sanitize: "length (sanitize s) \<le> 48"
  by (simp add: sanitize_def)

lemma role_allowed_append:
  "role_allowed (lti_prefix @ t) \<longleftrightarrow>
     t \<noteq> [] \<and> length t \<le> 64 \<and> list_all (\<lambda>c. is_upper_alnum c \<or> c = CHR ''_'') t"
  by (auto simp: role_allowed_def Suc_le_eq)

text \<open>The filter never has anything to drop: every role the mapping composes is inside the bound.\<close>

lemma membership_role_allowed: "sanitize s \<noteq> [] \<Longrightarrow> role_allowed (lti_prefix @ sanitize s)"
  using length_sanitize [of s] set_sanitize [of _ s]
  by (auto simp: role_allowed_append list_all_iff)

lemma context_role_allowed: "role_allowed (''ROLE_LTI_CONTEXT_'' @ sanitize s)"
proof -
  have "''ROLE_LTI_CONTEXT_'' @ sanitize s = lti_prefix @ ''CONTEXT_'' @ sanitize s"
    by (simp add: lti_prefix_def)
  moreover have "list_all (\<lambda>c. is_upper_alnum c \<or> c = CHR ''_'') ''CONTEXT_''" by code_simp
  ultimately show ?thesis
    using length_sanitize [of s] set_sanitize [of _ s]
    by (simp only: role_allowed_append) (auto simp: list_all_iff)
qed

lemma emit_role_allowed: "list_all role_allowed acc \<Longrightarrow> list_all role_allowed (emit_role r acc)"
  by (simp add: emit_role_def)

lemma emit_uri_allowed: "list_all role_allowed acc \<Longrightarrow> list_all role_allowed (emit_uri u acc)"
  by (simp add: emit_uri_def Let_def emit_role_allowed)

lemma fold_emit_allowed: "list_all role_allowed acc \<Longrightarrow> list_all role_allowed (fold emit_uri us acc)"
  by (induction us arbitrary: acc) (auto intro: emit_uri_allowed)

lemma map_roles_allowed: "list_all role_allowed (map_roles l)"
  by (simp add: map_roles_def Let_def fold_emit_allowed emit_role_allowed)

lemma allowed_not_admin: "role_allowed r \<Longrightarrow> r \<notin> set admin_roles"
  by (auto simp: role_allowed_def admin_roles_def lti_prefix_def)

lemma allowed_no_grant: "role_allowed r \<Longrightarrow> episode_grant r = None"
  by (auto simp: role_allowed_def episode_grant_def lti_prefix_def episode_prefix_def has_prefix_iff)

lemma split_roles_allowed: "list_all role_allowed rs \<Longrightarrow> split_roles rs = (rs, [], [])"
  by (induction rs) (auto simp: allowed_no_grant)

lemma is_admin_allowed: "list_all role_allowed rs \<Longrightarrow> \<not> is_admin \<lparr>p_roles = rs\<rparr>"
  by (auto simp: is_admin_def list_ex_iff list_all_iff dest: allowed_not_admin)

lemma emit_role_keeps: "x \<in> set acc \<Longrightarrow> x \<in> set (emit_role r acc)"
  by (simp add: emit_role_def)

lemma fold_emit_keeps: "x \<in> set acc \<Longrightarrow> x \<in> set (fold emit_uri us acc)"
  by (induction us arbitrary: acc) (auto simp: emit_uri_def Let_def intro: emit_role_keeps)

lemma user_role_always: "''ROLE_LTI_USER'' \<in> set (map_roles l)"
proof -
  have "role_allowed ''ROLE_LTI_USER''" by code_simp
  then have "''ROLE_LTI_USER'' \<in> set (fold emit_uri (la_roles l) (emit_role ''ROLE_LTI_USER'' []))"
    by (intro fold_emit_keeps) (simp add: emit_role_def)
  then show ?thesis by (simp add: map_roles_def Let_def emit_role_keeps)
qed

lemma map_roles_not_Nil: "map_roles l \<noteq> []"
  using user_role_always [of l] by auto

text \<open>Context handles are shared between contexts that sanitize alike, and between platforms.\<close>

lemma context_handles_collide:
  "\<exists>c d. c \<noteq> d \<and> map_roles (l\<lparr>la_context := c\<rparr>) = map_roles (l\<lparr>la_context := d\<rparr>)"
proof (intro exI conjI)
  show "''math-1'' \<noteq> ''MATH 1''" by simp
  have "sanitize ''math-1'' = sanitize ''MATH 1''" by code_simp
  then show "map_roles (l\<lparr>la_context := ''math-1''\<rparr>) = map_roles (l\<lparr>la_context := ''MATH 1''\<rparr>)"
    by (simp add: map_roles_def)
qed

lemma context_handle_ignores_platform:
  "map_roles (l\<lparr>la_issuer := i, la_client := c, la_deployment := d\<rparr>) = map_roles l"
  by (simp add: map_roles_def Let_def)

section \<open>What an accepted launch has passed\<close>

lemma as_token_error_Inr [simp]: "as_token_error r = Inr a \<longleftrightarrow> r = Inr a"
  by (simp add: as_token_error_def split: sum.splits)

lemma verified_claims_iff:
  "verified_claims P p now skew key token = Inr m \<longleftrightarrow>
     verify P token key = Inr m \<and> check_issuer m (pf_issuer p) = Inr () \<and>
     check_audience m (pf_client p) = Inr () \<and> check_time P m now skew = Inr () \<and>
     claim_string m ''nonce'' \<noteq> []"
  by (auto simp: verified_claims_def)

lemma trust_anchor_Inr:
  "trust_anchor P ps token = Inr (p, h) \<longleftrightarrow>
     (\<exists>m. peek_claims P token = Inr m \<and> lookup_platform ps (claim_string m ''iss'') [] = Inr p \<and>
        parse_header P token = Inr h)"
  by (cases "parse_header P token") (auto simp: trust_anchor_def split: sum.splits)

lemma message_checks_Inr:
  "message_checks p m = Inr l \<longleftrightarrow>
     l = launch_from_claims m p \<and>
     claim_string m (claim_uri ''deployment_id'') \<noteq> [] \<and>
     has_deployment p (claim_string m (claim_uri ''deployment_id'')) \<and>
     claim_string m (claim_uri ''message_type'') = ''LtiResourceLinkRequest'' \<and>
     claim_string m (claim_uri ''version'') = ''1.3.0'' \<and>
     claim_string m (claim_uri ''target_link_uri'') \<noteq> [] \<and>
     (\<exists>rl. as_object (claim m (claim_uri ''resource_link'')) = Some rl \<and> claim_string rl ''id'' \<noteq> []) \<and>
     as_array (claim m (claim_uri ''roles'')) \<noteq> None"
  by (auto simp: message_checks_def Let_def split: option.splits)

lemma validate_accepts:
  assumes "validate P spend ps env token state cookie s c = (Inr l, s', c')"
  obtains s1 c1 p h key m where
    "state \<noteq> []" and "cookie = [] \<or> cookie = state"
    and "spend (le_state env) KindState state s = (Inr True, s1)"
    and "trust_anchor P ps token = Inr (p, h)"
    and "fetch_key P (le_ttl env) (le_fetch_now env) (le_fetch_fin env) (le_reply env)
           (pf_jwks p) (h_kid h) c = (Inr key, c')"
    and "verified_claims P p (le_now env) (skew_of (le_skew env)) key token = Inr m"
    and "spend (le_nonce env) KindNonce (claim_string m ''nonce'') s1 = (Inr True, s')"
    and "message_checks p m = Inr l"
  using assms unfolding validate_def
  by (auto split: if_splits sum.splits prod.splits)

lemma la_claims_launch [simp]: "la_claims (launch_from_claims m p) = m"
  and la_issuer_launch [simp]: "la_issuer (launch_from_claims m p) = pf_issuer p"
  and la_client_launch [simp]: "la_client (launch_from_claims m p) = pf_client p"
  and la_deployment_launch [simp]:
    "la_deployment (launch_from_claims m p) = claim_string m (claim_uri ''deployment_id'')"
  by (simp_all add: launch_from_claims_def Let_def)

lemma lookup_issuer_unique:
  assumes "lookup_platform ps iss [] = Inr p"
  shows "filter (\<lambda>q. pf_issuer q = pf_issuer p) ps = [p]"
proof -
  have "filter (\<lambda>q. pf_issuer q = iss) ps = [p]"
    using assms by (simp add: lookup_platform_def Let_def split: list.splits)
  moreover have "pf_issuer p = iss" using assms by (rule lookup_platform_mem)
  ultimately show ?thesis by simp
qed

section \<open>Single use\<close>

text \<open>
  The contract of a flow store: a value is spendable only while it is known, a successful spend
  makes it unknown, and only minting it makes it known.
\<close>

locale flow_store =
  fixes mint :: "'e \<Rightarrow> flow_kind \<Rightarrow> string \<Rightarrow> int \<Rightarrow> 's \<Rightarrow> (store_error, unit) result \<times> 's"
    and spend :: "'e \<Rightarrow> flow_kind \<Rightarrow> string \<Rightarrow> 's \<Rightarrow> (store_error, bool) result \<times> 's"
    and known :: "flow_kind \<Rightarrow> string \<Rightarrow> 's \<Rightarrow> bool"
  assumes spend_known: "fst (spend e k v s) = Inr True \<Longrightarrow> known k v s"
    and spend_gone: "fst (spend e k v s) = Inr True \<Longrightarrow> \<not> known k v (snd (spend e k v s))"
    and spend_adds_nothing: "known k' v' (snd (spend e k v s)) \<Longrightarrow> known k' v' s"
    and mint_adds_one: "known k' v' (snd (mint e k v ttl s)) \<Longrightarrow> known k' v' s \<or> (k' = k \<and> v' = v)"

text \<open>A run: values minted by logins, and launches, in any order; it returns the accepted launches.\<close>

datatype 'e flow_event =
    MintEvent 'e flow_kind string int
  | LaunchEvent "'e launch_env" string string string

fun flow_run ::
  "primitives \<Rightarrow> ('e \<Rightarrow> flow_kind \<Rightarrow> string \<Rightarrow> int \<Rightarrow> 's \<Rightarrow> (store_error, unit) result \<times> 's)
     \<Rightarrow> ('e \<Rightarrow> flow_kind \<Rightarrow> string \<Rightarrow> 's \<Rightarrow> (store_error, bool) result \<times> 's) \<Rightarrow> platform list
     \<Rightarrow> 'e flow_event list \<Rightarrow> 's \<Rightarrow> key_cache \<Rightarrow> (string \<times> launch) list" where
  "flow_run P mint spend ps [] s c = []"
| "flow_run P mint spend ps (MintEvent e k v ttl # es) s c =
     flow_run P mint spend ps es (snd (mint e k v ttl s)) c"
| "flow_run P mint spend ps (LaunchEvent env token state cookie # es) s c =
     (case validate P spend ps env token state cookie s c of
        (Inl e, s', c') \<Rightarrow> flow_run P mint spend ps es s' c'
      | (Inr l, s', c') \<Rightarrow> (state, l) # flow_run P mint spend ps es s' c')"

fun mints :: "flow_kind \<Rightarrow> string \<Rightarrow> 'e flow_event \<Rightarrow> bool" where
  "mints k v (MintEvent e k' v' ttl) = (k' = k \<and> v' = v)"
| "mints k v (LaunchEvent env token state cookie) = False"

fun spent_by :: "flow_kind \<Rightarrow> string \<times> launch \<Rightarrow> string" where
  "spent_by KindState (state, l) = state"
| "spent_by KindNonce (state, l) = claim_string (la_claims l) ''nonce''"

definition spent_values :: "flow_kind \<Rightarrow> (string \<times> launch) list \<Rightarrow> string list" where
  "spent_values k acc = map (spent_by k) acc"

lemma spent_values_simps [simp]:
  "spent_values k [] = []"
  "spent_values k (a # acc) = spent_by k a # spent_values k acc"
  by (simp_all add: spent_values_def)

context flow_store
begin

lemma validate_adds_nothing:
  "known k v (fst (snd (validate P spend ps env token state cookie s c))) \<Longrightarrow> known k v s"
  unfolding validate_def
  by (auto split: if_splits sum.splits prod.splits dest!: arg_cong [of _ _ snd] spend_adds_nothing)

lemma accepted_known:
  assumes "validate P spend ps env token state cookie s c = (Inr l, s', c')"
  shows "known k (spent_by k (state, l)) s"
  using assms
proof (rule validate_accepts)
  fix s1 p h key m
  assume st: "spend (le_state env) KindState state s = (Inr True, s1)"
    and no: "spend (le_nonce env) KindNonce (claim_string m ''nonce'') s1 = (Inr True, s')"
    and l: "message_checks p m = Inr l"
  have "known KindState state s" using spend_known [of "le_state env" KindState state s] st by simp
  moreover have "known KindNonce (claim_string m ''nonce'') s1"
    using spend_known [of "le_nonce env" KindNonce "claim_string m ''nonce''" s1] no by simp
  then have "known KindNonce (claim_string m ''nonce'') s"
    using spend_adds_nothing [of KindNonce "claim_string m ''nonce''" "le_state env" KindState state s] st
    by simp
  ultimately show ?thesis using l by (cases k) (auto simp: message_checks_Inr)
qed

lemma accepted_gone:
  assumes "validate P spend ps env token state cookie s c = (Inr l, s', c')"
  shows "\<not> known k (spent_by k (state, l)) s'"
  using assms
proof (rule validate_accepts)
  fix s1 p h key m
  assume st: "spend (le_state env) KindState state s = (Inr True, s1)"
    and no: "spend (le_nonce env) KindNonce (claim_string m ''nonce'') s1 = (Inr True, s')"
    and l: "message_checks p m = Inr l"
  have "\<not> known KindState state s1" using spend_gone [of "le_state env" KindState state s] st by simp
  then have "\<not> known KindState state s'"
    using spend_adds_nothing [of KindState state "le_nonce env" KindNonce "claim_string m ''nonce''" s1] no
    by auto
  moreover have "\<not> known KindNonce (claim_string m ''nonce'') s'"
    using spend_gone [of "le_nonce env" KindNonce "claim_string m ''nonce''" s1] no by simp
  ultimately show ?thesis using l by (cases k) (auto simp: message_checks_Inr)
qed

lemma unknown_not_spent:
  "\<not> list_ex (mints k v) es \<Longrightarrow> \<not> known k v s \<Longrightarrow>
     v \<notin> set (spent_values k (flow_run P mint spend ps es s c))"
proof (induction es arbitrary: s c)
  case (Cons ev es)
  show ?case
  proof (cases ev)
    case (MintEvent e k' v' ttl)
    then have "\<not> known k v (snd (mint e k' v' ttl s))" using Cons.prems mint_adds_one [of k v e k' v' ttl s] by auto
    then show ?thesis using Cons MintEvent by simp
  next
    case (LaunchEvent env token state cookie)
    obtain r s' c' where r: "validate P spend ps env token state cookie s c = (r, s', c')"
      by (metis prod_cases3)
    have "\<not> known k v s'"
      using Cons.prems(2) validate_adds_nothing [of k v P ps env token state cookie s c] r by auto
    then have ih: "v \<notin> set (spent_values k (flow_run P mint spend ps es s' c'))"
      using Cons.IH Cons.prems(1) by simp
    show ?thesis
    proof (cases r)
      case (Inr l)
      then have "known k (spent_by k (state, l)) s" using accepted_known r by blast
      then have "spent_by k (state, l) \<noteq> v" using Cons.prems(2) by auto
      then show ?thesis using ih LaunchEvent Inr r by simp
    qed (use ih LaunchEvent r in simp)
  qed
qed simp

lemma spent_at_most_once:
  "\<not> list_ex (mints k v) es \<Longrightarrow>
     count_list (spent_values k (flow_run P mint spend ps es s c)) v \<le> 1"
proof (induction es arbitrary: s c)
  case (Cons ev es)
  show ?case
  proof (cases ev)
    case (LaunchEvent env token state cookie)
    obtain r s' c' where r: "validate P spend ps env token state cookie s c = (r, s', c')"
      by (metis prod_cases3)
    show ?thesis
    proof (cases r)
      case (Inr l)
      note run = LaunchEvent Inr r
      have "count_list (spent_values k (flow_run P mint spend ps es s' c')) v = 0"
        if "spent_by k (state, l) = v"
        using unknown_not_spent [of k v es s' P ps c'] accepted_gone [of P ps env token state cookie s c l s' c' k]
          Cons.prems that run by (simp add: count_list_0_iff)
      then show ?thesis using Cons run by auto
    qed (use Cons LaunchEvent r in simp)
  qed (use Cons in simp)
qed simp

end

section \<open>The two stores\<close>

definition pg_known :: "flow_kind \<Rightarrow> string \<Rightarrow> flow_row list \<Rightarrow> bool" where
  "pg_known k v rows = list_ex (flow_row_is k v) rows"

definition mem_known :: "flow_kind \<Rightarrow> string \<Rightarrow> mem_flow \<Rightarrow> bool" where
  "mem_known k v m = (map_of m (flow_key k v) \<noteq> None)"

lemma kind_name_inject [simp]: "kind_name k = kind_name k' \<longleftrightarrow> k = k'"
  by (cases k; cases k') auto

lemma kind_name_length [simp]: "length (kind_name k) = 5"
  by (cases k) auto

lemma flow_key_inject [simp]: "flow_key k v = flow_key k' v' \<longleftrightarrow> k = k' \<and> v = v'"
  by (simp add: flow_key_def)

lemma find_row_filter:
  "(k', v') \<noteq> (k, v) \<Longrightarrow>
     find (flow_row_is k' v') (filter (\<lambda>r. \<not> flow_row_is k v r) rows) = find (flow_row_is k' v') rows"
  by (induction rows) (auto simp: flow_row_is_def)

lemma find_row_gone: "find (flow_row_is k v) (filter (\<lambda>r. \<not> flow_row_is k v r) rows) = None"
  by (induction rows) auto

lemma find_row_append:
  "find p (xs @ ys) = (case find p xs of Some x \<Rightarrow> Some x | None \<Rightarrow> find p ys)"
  by (induction xs) auto

lemma pg_known_find: "pg_known k v rows \<longleftrightarrow> find (flow_row_is k v) rows \<noteq> None"
  by (auto simp: pg_known_def list_ex_iff find_None_iff)

interpretation pg_flow: flow_store pg_mint pg_spend pg_known
proof unfold_locales
  fix k v k' v' s ttl and e :: "db_reply \<times> int"
  show "fst (pg_spend e k v s) = Inr True \<Longrightarrow> pg_known k v s"
    by (auto simp: pg_spend_def pg_known_find split: prod.splits if_splits option.splits)
  show "fst (pg_spend e k v s) = Inr True \<Longrightarrow> \<not> pg_known k v (snd (pg_spend e k v s))"
    by (auto simp: pg_spend_def pg_known_def list_ex_iff split: prod.splits if_splits option.splits)
  show "pg_known k' v' (snd (pg_spend e k v s)) \<Longrightarrow> pg_known k' v' s"
    by (auto simp: pg_spend_def pg_known_def list_ex_iff split: prod.splits if_splits)
  show "pg_known k' v' (snd (pg_mint e k v ttl s)) \<Longrightarrow> pg_known k' v' s \<or> (k' = k \<and> v' = v)"
    by (auto simp: pg_mint_def pg_known_def list_ex_iff flow_row_is_def split: prod.splits if_splits)
qed

interpretation mem_flow: flow_store mem_mint mem_spend mem_known
proof unfold_locales
  fix k v k' v' s ttl e
  show "fst (mem_spend e k v s) = Inr True \<Longrightarrow> mem_known k v s"
    by (auto simp: mem_spend_def mem_known_def split: option.splits)
  show "fst (mem_spend e k v s) = Inr True \<Longrightarrow> \<not> mem_known k v (snd (mem_spend e k v s))"
    by (auto simp: mem_spend_def mem_known_def AList.delete_conv' split: option.splits)
  show "mem_known k' v' (snd (mem_spend e k v s)) \<Longrightarrow> mem_known k' v' s"
    by (auto simp: mem_spend_def mem_known_def AList.delete_conv' split: option.splits if_splits)
  show "mem_known k' v' (snd (mem_mint e k v ttl s)) \<Longrightarrow> mem_known k' v' s \<or> (k' = k \<and> v' = v)"
    by (auto simp: mem_mint_def mem_known_def AList.update_conv' split: if_splits)
qed

text \<open>At one instant the spends of a table are a race with one winner per value.\<close>

definition spend_claim ::
  "int \<Rightarrow> flow_kind \<times> string \<Rightarrow> nat \<Rightarrow> flow_row list \<Rightarrow> bool \<times> flow_row list" where
  "spend_claim now kv caller rows =
     (case pg_spend (Served, now) (fst kv) (snd kv) rows of (r, rows') \<Rightarrow> (r = Inr True, rows'))"

definition live_value :: "int \<Rightarrow> flow_kind \<times> string \<Rightarrow> flow_row list \<Rightarrow> bool" where
  "live_value now kv rows =
     (case find (flow_row_is (fst kv) (snd kv)) rows of Some r \<Rightarrow> now < fl_expires r | None \<Rightarrow> False)"

interpretation spends: single_winner "spend_claim now" "live_value now" for now
proof unfold_locales
  fix k :: "flow_kind \<times> string" and k' own s
  show "fst (spend_claim now k own s) \<longleftrightarrow> live_value now k s"
    by (simp add: spend_claim_def live_value_def pg_spend_def split: option.splits)
  show "\<not> live_value now k (snd (spend_claim now k own s))"
    by (simp add: spend_claim_def live_value_def pg_spend_def find_row_gone)
  show "live_value now k' (snd (spend_claim now k own s)) \<Longrightarrow> live_value now k' s"
    by (cases "k' = k")
       (auto simp: spend_claim_def live_value_def pg_spend_def find_row_gone find_row_filter prod_eq_iff)
  show "k' \<noteq> k \<Longrightarrow> live_value now k' s \<Longrightarrow> live_value now k' (snd (spend_claim now k own s))"
    by (auto simp: spend_claim_def live_value_def pg_spend_def find_row_filter prod_eq_iff)
qed

section \<open>The stores agree\<close>

datatype flow_op = OpMint int flow_kind string int | OpSpend int flow_kind string

fun run_mem :: "flow_op list \<Rightarrow> mem_flow \<Rightarrow> bool list" where
  "run_mem [] m = []"
| "run_mem (OpMint now k v ttl # ops) m = run_mem ops (snd (mem_mint now k v ttl m))"
| "run_mem (OpSpend now k v # ops) m =
     (case mem_spend now k v m of (r, m') \<Rightarrow> (r = Inr True) # run_mem ops m')"

fun run_pg :: "flow_op list \<Rightarrow> flow_row list \<Rightarrow> bool list" where
  "run_pg [] rows = []"
| "run_pg (OpMint now k v ttl # ops) rows = run_pg ops (snd (pg_mint (Served, now) k v ttl rows))"
| "run_pg (OpSpend now k v # ops) rows =
     (case pg_spend (Served, now) k v rows of (r, rows') \<Rightarrow> (r = Inr True) # run_pg ops rows')"

text \<open>Every mint is of a value never seen before, within the range of the clock.\<close>

fun fresh_mints :: "(flow_kind \<times> string) list \<Rightarrow> flow_op list \<Rightarrow> bool" where
  "fresh_mints seen [] = True"
| "fresh_mints seen (OpMint now k v ttl # ops) =
     ((k, v) \<notin> set seen \<and> time_add now ttl = now + ttl \<and> fresh_mints ((k, v) # seen) ops)"
| "fresh_mints seen (OpSpend now k v # ops) = fresh_mints seen ops"

definition same_store :: "mem_flow \<Rightarrow> flow_row list \<Rightarrow> bool" where
  "same_store m rows \<longleftrightarrow>
     (\<forall>k v. map_of m (flow_key k v) = map_option fl_expires (find (flow_row_is k v) rows))"

lemma same_store_spend:
  assumes "same_store m rows"
  shows "fst (mem_spend now k v m) = fst (pg_spend (Served, now) k v rows)"
    and "same_store (snd (mem_spend now k v m)) (snd (pg_spend (Served, now) k v rows))"
proof -
  have eq: "map_of m (flow_key k' v') = map_option fl_expires (find (flow_row_is k' v') rows)" for k' v'
    using assms by (simp add: same_store_def)
  show "fst (mem_spend now k v m) = fst (pg_spend (Served, now) k v rows)"
    by (auto simp: mem_spend_def pg_spend_def eq split: option.splits)
  have "map_of (snd (mem_spend now k v m)) (flow_key k' v') =
          map_option fl_expires (find (flow_row_is k' v') (snd (pg_spend (Served, now) k v rows)))" for k' v'
  proof (cases "(k', v') = (k, v)")
    case True
    then show ?thesis
      by (auto simp: mem_spend_def pg_spend_def find_row_gone AList.delete_conv' eq split: option.splits)
  next
    case False
    then show ?thesis
      by (auto simp: mem_spend_def pg_spend_def find_row_filter AList.delete_conv' eq split: option.splits)
  qed
  then show "same_store (snd (mem_spend now k v m)) (snd (pg_spend (Served, now) k v rows))"
    by (simp add: same_store_def)
qed

lemma same_store_mint:
  assumes "same_store m rows" and "\<not> pg_known k v rows" and "time_add now ttl = now + ttl"
  shows "same_store (snd (mem_mint now k v ttl m)) (snd (pg_mint (Served, now) k v ttl rows))"
proof -
  have none: "find (flow_row_is k v) rows = None" using assms(2) by (simp add: pg_known_find)
  have row: "snd (pg_mint (Served, now) k v ttl rows) =
      rows @ [\<lparr>fl_kind = k, fl_value = v, fl_expires = now + ttl\<rparr>]"
    using assms(2) by (simp add: pg_mint_def pg_known_def)
  show ?thesis
    unfolding row using assms(1,3) none
    by (auto simp: same_store_def mem_mint_def AList.update_conv' find_row_append flow_row_is_def
        split: option.splits)
qed

lemma run_stores_agree:
  assumes "same_store m rows" and "fresh_mints seen ops"
    and "\<And>k v. pg_known k v rows \<Longrightarrow> (k, v) \<in> set seen"
  shows "run_mem ops m = run_pg ops rows"
  using assms
proof (induction ops arbitrary: m rows seen)
  case (Cons op ops)
  show ?case
  proof (cases op)
    case (OpMint now k v ttl)
    then have fr: "(k, v) \<notin> set seen" "time_add now ttl = now + ttl" "fresh_mints ((k, v) # seen) ops"
      using Cons.prems(2) by auto
    have same: "same_store (snd (mem_mint now k v ttl m)) (snd (pg_mint (Served, now) k v ttl rows))"
      using Cons.prems(1,3) fr by (intro same_store_mint) auto
    have "run_mem ops (snd (mem_mint now k v ttl m)) = run_pg ops (snd (pg_mint (Served, now) k v ttl rows))"
      using Cons.IH [OF same fr(3)] pg_flow.mint_adds_one Cons.prems(3) by fastforce
    then show ?thesis by (simp add: OpMint)
  next
    case (OpSpend now k v)
    have "run_mem ops (snd (mem_spend now k v m)) = run_pg ops (snd (pg_spend (Served, now) k v rows))"
      using Cons.IH [OF same_store_spend(2) [OF Cons.prems(1)]] Cons.prems(2,3) OpSpend
        pg_flow.spend_adds_nothing by fastforce
    then show ?thesis
      using same_store_spend(1) [OF Cons.prems(1), of now k v] by (simp add: OpSpend case_prod_beta)
  qed
qed simp

end
