(* ===== verification/LtiClaims.thy ===== *)
theory LtiClaims
  imports LtiProps
begin

text \<open>
  The properties of the token core and the launch path, each with a concrete instance: a platform
  with one registration, one RSA key and one signed launch.
\<close>

section \<open>A concrete platform\<close>

definition demo_platform :: platform where
  "demo_platform = \<lparr>pf_issuer = ''lms'', pf_client = ''tool'', pf_deployments = [''d1''],
     pf_jwks = ''lms/keys'', pf_auth = ''lms/auth''\<rparr>"

definition demo_random :: "nat \<Rightarrow> string" where
  "demo_random n = replicate n CHR ''r''"

definition demo_claims :: claims where
  "demo_claims =
     [(''iss'', JStr ''lms''), (''aud'', JStr ''tool''), (''exp'', JNum 1000), (''sub'', JStr ''ann''),
      (''nonce'', JStr (new_value (demo_random 2))),
      (claim_uri ''deployment_id'', JStr ''d1''),
      (claim_uri ''message_type'', JStr ''LtiResourceLinkRequest''),
      (claim_uri ''version'', JStr ''1.3.0''),
      (claim_uri ''target_link_uri'', JStr ''/watch''),
      (claim_uri ''resource_link'', JObj [(''id'', JStr ''rl'')]),
      (claim_uri ''context'', JObj [(''id'', JStr ''math-1'')]),
      (claim_uri ''roles'', JArr [JStr (membership_prefix @ ''Instructor''), JStr ''ROLE_ADMIN''])]"

definition demo_docs :: "(string \<times> json) list" where
  "demo_docs =
     [(''H'', JObj [(''alg'', JStr ''RS256''), (''kid'', JStr ''k'')]),
      (''C'', JObj demo_claims),
      (''J'', JObj [(''keys'', JArr [JObj [(''kty'', JStr ''RSA''), (''kid'', JStr ''k''),
                (''n'', JStr (b64_encode ''N'')), (''e'', JStr (b64_encode ''E''))]])])]"

definition demo_primitives :: primitives where
  "demo_primitives =
     \<lparr>json_decode = map_of demo_docs,
      json_encode = (\<lambda>v. map_option fst (find (\<lambda>(d, u). u = v) demo_docs)),
      digest = (\<lambda>h s. s), rsa_verify = (\<lambda>k h d s. key_n k = 78 \<and> s = ''S''),
      hmac_sha256 = (\<lambda>k s. k @ s), int64_overflow = (\<lambda>_. 0)\<rparr>"

definition demo_token :: string where
  "demo_token = b64_encode ''H'' @ ''.'' @ b64_encode ''C'' @ ''.'' @ b64_encode ''S''"

definition demo_login :: login_form where
  "demo_login = \<lparr>lf_well_formed = True, lf_iss = ''lms'', lf_hint = ''u'', lf_client = [],
     lf_message_hint = [], lf_https = True, lf_host = ''core''\<rparr>"

definition demo_key :: rsa_key where
  "demo_key = \<lparr>key_n = 78, key_e = 69\<rparr>"

definition demo_launch_env :: "(db_reply \<times> int) launch_env" where
  "demo_launch_env = \<lparr>le_state = (Served, 20), le_nonce = (Served, 30), le_now = time_unix 900,
     le_skew = 0, le_ttl = 0, le_fetch_now = 0, le_fetch_fin = 0, le_reply = Answered 200 ''J''\<rparr>"

definition demo_rows :: "flow_row list" where
  "demo_rows =
     snd (login pg_mint [demo_platform] [] demo_login (demo_random 3) (demo_random 2) True
            (Served, 0) (Served, 10) [])"

definition demo_launch :: launch where
  "demo_launch = launch_from_claims demo_claims demo_platform"

definition demo_cache :: key_cache where
  "demo_cache = [(''lms/keys'', \<lparr>cs_keys = [(''k'', demo_key)], cs_fetched = 0\<rparr>)]"

lemma demo_split:
  "split_on CHR ''.'' demo_token = [b64_encode ''H'', b64_encode ''C'', b64_encode ''S'']"
  by (simp add: demo_token_def split_on_append split_on_notin b64_no_dot)

lemma demo_decode:
  "json_decode demo_primitives ''C'' = Some (JObj demo_claims)"
  "json_decode demo_primitives ''H'' = Some (JObj [(''alg'', JStr ''RS256''), (''kid'', JStr ''k'')])"
  by (simp_all add: demo_primitives_def demo_docs_def)

lemma demo_claim_values:
  "claim_string demo_claims ''iss'' = ''lms''"
  "claim_string demo_claims ''nonce'' = new_value (demo_random 2)"
  "claim demo_claims ''aud'' = Some (JStr ''tool'')"
  "claim demo_claims ''exp'' = Some (JNum 1000)"
  "claim demo_claims ''iat'' = None" "claim demo_claims ''nbf'' = None"
  by (simp_all add: claim_string_def claim_def demo_claims_def as_string_def str_or_empty_def claim_uri_def)

lemma demo_header: "parse_header demo_primitives demo_token =
    Inr \<lparr>h_alg = ''RS256'', h_kid = ''k'', h_typ = []\<rparr>"
proof -
  have "map fold_name [''alg'', ''kid''] = [''alg'', ''kid'']" by code_simp
  then show ?thesis by (simp add: parse_header_def demo_split demo_decode struct_members_def)
qed

lemma demo_anchor: "trust_anchor demo_primitives [demo_platform] demo_token =
    Inr (demo_platform, \<lparr>h_alg = ''RS256'', h_kid = ''k'', h_typ = []\<rparr>)"
  by (simp add: trust_anchor_def peek_claims_def demo_split decode_segment_b64 demo_decode
      demo_claim_values demo_header lookup_platform_def demo_platform_def)

lemma demo_verify: "verify demo_primitives demo_token demo_key = Inr demo_claims"
  by (simp add: verify_def demo_split decode_segment_b64 demo_decode claim_string_def claim_def
      as_string_def str_or_empty_def allowed_algs_def)
     (simp add: demo_primitives_def demo_key_def)

lemma demo_time: "check_time demo_primitives demo_claims (time_unix 900) (60 * giga) = Inr ()"
  by (simp add: check_time_def demo_claim_values numeric_date_def after_limit_def int64_of_float_def
      max_int64_def time_unix_def time_add_def wrap64_def clamp64_def unix_to_internal_def giga_def)

lemma demo_verified:
  "verified_claims demo_primitives demo_platform (time_unix 900) (skew_of 0) demo_key demo_token =
     Inr demo_claims"
proof -
  have "new_value (demo_random 2) \<noteq> []"
    by (simp add: new_value_def demo_random_def b64_encode_def numeral_2_eq_2)
  then show ?thesis
    by (simp add: verified_claims_iff demo_verify demo_claim_values demo_time skew_of_def
        check_issuer_def check_audience_def audiences_def demo_platform_def)
qed

lemma demo_message: "message_checks demo_platform demo_claims = Inr demo_launch"
  by (simp add: message_checks_def demo_launch_def claim_string_def claim_def demo_claims_def
      as_string_def str_or_empty_def as_object_def as_array_def claim_uri_def has_deployment_def
      demo_platform_def Let_def)

lemma demo_keys: "parse_jwks demo_primitives ''J'' = Inr [(''k'', demo_key)]"
proof -
  have "map fold_name [''keys'', ''kty'', ''kid'', ''n'', ''e''] = [''keys'', ''kty'', ''kid'', ''n'', ''e'']"
    by code_simp
  moreover have "json_decode demo_primitives ''J'' =
      Some (JObj [(''keys'', JArr [JObj [(''kty'', JStr ''RSA''), (''kid'', JStr ''k''),
        (''n'', JStr (b64_encode ''N'')), (''e'', JStr (b64_encode ''E''))]])])"
    by (simp add: demo_primitives_def demo_docs_def)
  moreover have "b64_encode ''N'' \<noteq> []" "b64_encode ''E'' \<noteq> []" by (simp_all add: b64_encode_def)
  ultimately show ?thesis
    by (simp add: parse_jwks_def struct_members_def decode_jwk_def add_key_def demo_key_def
        big_endian_def signed64_def wrap64_def max_int64_def)
qed

lemma demo_fetch: "fetch_key demo_primitives 0 0 0 (Answered 200 ''J'') ''lms/keys'' ''k'' [] =
    (Inr demo_key, demo_cache)"
  by (simp add: fetch_key_def fresh_set_def cached_key_def fetch_set_def body_limit_def demo_keys
      demo_cache_def)

section \<open>From a login to its launch\<close>

lemma pg_mint_served:
  "pg_mint (Served, t) k v ttl rows = (Inr u, rows') \<Longrightarrow>
     find (flow_row_is k v) rows = None \<and>
     rows' = rows @ [\<lparr>fl_kind = k, fl_value = v, fl_expires = t + ttl\<rparr>]"
  using pg_known_find [of k v rows]
  by (auto simp: pg_mint_def pg_known_def split: if_splits)

lemma login_mints:
  assumes "login pg_mint ps path f r1 r2 ord (Served, t1) (Served, t2) rows =
      (LoginRedirect state secure ep params, rows')"
  obtains ts tn where "state = new_value r1" and "min t1 t2 \<le> ts" and "min t1 t2 \<le> tn"
    and "find (flow_row_is KindState (new_value r1)) rows' =
           Some \<lparr>fl_kind = KindState, fl_value = new_value r1, fl_expires = ts + flow_ttl\<rparr>"
    and "find (flow_row_is KindNonce (new_value r2)) rows' =
           Some \<lparr>fl_kind = KindNonce, fl_value = new_value r2, fl_expires = tn + flow_ttl\<rparr>"
proof (cases ord)
  case True
  with assms have st: "state = new_value r1"
    and m: "mint_all pg_mint [((Served, t1), KindState, new_value r1), ((Served, t2), KindNonce, new_value r2)]
             rows = (True, rows')"
    by (auto simp: login_def Let_def mint_order_def split: if_splits sum.splits prod.splits bool.splits)
  show ?thesis
    using m by (intro that [OF st, of t1 t2])
      (auto split: prod.splits sum.splits dest!: pg_mint_served
        simp: find_row_append flow_row_is_def split: option.splits)
next
  case False
  with assms have st: "state = new_value r1"
    and m: "mint_all pg_mint [((Served, t1), KindNonce, new_value r2), ((Served, t2), KindState, new_value r1)]
             rows = (True, rows')"
    by (auto simp: login_def Let_def mint_order_def split: if_splits sum.splits prod.splits bool.splits)
  show ?thesis
    using m by (intro that [OF st, of t2 t1])
      (auto split: prod.splits sum.splits dest!: pg_mint_served
        simp: find_row_append flow_row_is_def split: option.splits)
qed

lemma new_value_not_Nil: "r \<noteq> [] \<Longrightarrow> new_value r \<noteq> []"
  using b64_round_trip [of r] by (auto simp: new_value_def b64_decode_def)

lemma demo_login_ok: "login pg_mint [demo_platform] [] demo_login (demo_random 3) (demo_random 2) True
    (Served, 0) (Served, 10) [] =
  (LoginRedirect (new_value (demo_random 3)) True ''lms/auth''
     (auth_request demo_platform [] demo_login (new_value (demo_random 3)) (new_value (demo_random 2))),
   demo_rows)"
  by (simp add: demo_rows_def login_def demo_login_def lookup_platform_def demo_platform_def
      mint_order_def pg_mint_def flow_row_is_def Let_def)

lemma demo_spends:
  "pg_spend (Served, 20) KindState (new_value (demo_random 3)) demo_rows =
     (Inr True, [\<lparr>fl_kind = KindNonce, fl_value = new_value (demo_random 2), fl_expires = 10 + flow_ttl\<rparr>])"
  "pg_spend (Served, 30) KindNonce (new_value (demo_random 2))
     [\<lparr>fl_kind = KindNonce, fl_value = new_value (demo_random 2), fl_expires = 10 + flow_ttl\<rparr>] =
     (Inr True, [])"
  by (simp_all add: demo_rows_def login_def demo_login_def lookup_platform_def demo_platform_def
      mint_order_def pg_mint_def pg_spend_def flow_row_is_def Let_def flow_ttl_def giga_def)

lemma demo_validate:
  "validate demo_primitives pg_spend [demo_platform] demo_launch_env demo_token
     (new_value (demo_random 3)) [] demo_rows [] = (Inr demo_launch, [], demo_cache)"
proof -
  have "new_value (demo_random 3) \<noteq> []" by (rule new_value_not_Nil) (simp add: demo_random_def)
  then show ?thesis
    by (simp add: validate_def demo_launch_env_def demo_spends demo_anchor demo_verified demo_claim_values
        demo_message) (simp add: demo_platform_def demo_fetch demo_verified [unfolded demo_platform_def]
        demo_claim_values demo_spends demo_message [unfolded demo_platform_def])
qed

section \<open>Properties\<close>

text \<open>A login followed, within the ten minutes of the flow, by a launch whose token carries the
  minted nonce and passes the platform's checks is accepted: neither store nor validation order
  loses a legitimate launch.\<close>

theorem login_then_launch:
  assumes login: "login pg_mint ps path f r1 r2 ord (Served, t1) (Served, t2) rows =
      (LoginRedirect state secure endpoint params, rows')"
    and r1: "r1 \<noteq> []" and cookie: "cookie = [] \<or> cookie = state"
    and spends: "le_state env = (Served, now1)" "le_nonce env = (Served, now2)"
    and in_time: "now1 < min t1 t2 + flow_ttl" "now2 < min t1 t2 + flow_ttl"
    and anchor: "trust_anchor P ps token = Inr (p, h)"
    and key: "fst (fetch_key P (le_ttl env) (le_fetch_now env) (le_fetch_fin env) (le_reply env)
               (pf_jwks p) (h_kid h) c) = Inr key"
    and token: "verified_claims P p (le_now env) (skew_of (le_skew env)) key token = Inr m"
    and nonce: "claim_string m ''nonce'' = new_value r2"
    and message: "message_checks p m = Inr l"
  shows "fst (validate P pg_spend ps env token state cookie rows' c) = Inr l"
proof -
  obtain ts tn where st: "state = new_value r1" and le: "min t1 t2 \<le> ts" "min t1 t2 \<le> tn"
    and fs: "find (flow_row_is KindState (new_value r1)) rows' =
           Some \<lparr>fl_kind = KindState, fl_value = new_value r1, fl_expires = ts + flow_ttl\<rparr>"
    and fn: "find (flow_row_is KindNonce (new_value r2)) rows' =
           Some \<lparr>fl_kind = KindNonce, fl_value = new_value r2, fl_expires = tn + flow_ttl\<rparr>"
    using login by (rule login_mints)
  define rows1 where "rows1 = filter (\<lambda>r. \<not> flow_row_is KindState state r) rows'"
  have "pg_spend (Served, now1) KindState state rows' = (Inr True, rows1)"
    using in_time(1) le(1) fs by (simp add: pg_spend_def st rows1_def)
  moreover have "find (flow_row_is KindNonce (new_value r2)) rows1 =
      find (flow_row_is KindNonce (new_value r2)) rows'"
    by (simp add: rows1_def find_row_filter)
  then have "fst (pg_spend (Served, now2) KindNonce (new_value r2) rows1) = Inr True"
    using in_time(2) le(2) fn by (simp add: pg_spend_def)
  moreover obtain c' where "fetch_key P (le_ttl env) (le_fetch_now env) (le_fetch_fin env)
      (le_reply env) (pf_jwks p) (h_kid h) c = (Inr key, c')"
    using key by (metis prod.collapse)
  ultimately show ?thesis
    using new_value_not_Nil [OF r1] cookie
    by (auto simp: validate_def spends anchor token nonce message st split: prod.splits)
qed

text \<open>C15: An accepted launch comes from the one registration of its issuer: its claims are those of a
  token whose signature verifies, under an allowed algorithm, with a key fetched from that
  registration's key set, and they pass the issuer, audience and time checks and name a
  registered deployment. An issuer with two registrations can therefore never launch.\<close>

theorem accepted_launch_verified:
  assumes "validate P spend ps env token state cookie s c = (Inr l, s', c')"
  shows "\<exists>p key h. filter (\<lambda>q. pf_issuer q = la_issuer l) ps = [p] \<and> parse_header P token = Inr h \<and>
     fst (fetch_key P (le_ttl env) (le_fetch_now env) (le_fetch_fin env) (le_reply env)
            (pf_jwks p) (h_kid h) c) = Inr key \<and>
     verify P token key = Inr (la_claims l) \<and>
     check_issuer (la_claims l) (pf_issuer p) = Inr () \<and>
     check_audience (la_claims l) (pf_client p) = Inr () \<and>
     check_time P (la_claims l) (le_now env) (skew_of (le_skew env)) = Inr () \<and>
     la_deployment l \<in> set (pf_deployments p)"
  using assms
proof (rule validate_accepts)
  fix s1 c1 p h key m
  assume anchor: "trust_anchor P ps token = Inr (p, h)"
    and key: "fetch_key P (le_ttl env) (le_fetch_now env) (le_fetch_fin env) (le_reply env)
           (pf_jwks p) (h_kid h) c = (Inr key, c')"
    and claims: "verified_claims P p (le_now env) (skew_of (le_skew env)) key token = Inr m"
    and message: "message_checks p m = Inr l"
  have l: "l = launch_from_claims m p" "has_deployment p (claim_string m (claim_uri ''deployment_id''))"
    using message by (simp_all add: message_checks_Inr)
  have "filter (\<lambda>q. pf_issuer q = pf_issuer p) ps = [p]" and "parse_header P token = Inr h"
    using anchor by (auto simp: trust_anchor_Inr dest: lookup_issuer_unique)
  then show ?thesis
    using key claims l
    by (intro exI [of _ p] exI [of _ key] exI [of _ h])
       (simp add: verified_claims_iff has_deployment_def list_ex_iff)
qed

theorem accepted_launch_verified_witness:
  "\<exists>p key h. filter (\<lambda>q. pf_issuer q = la_issuer demo_launch) [demo_platform] = [p] \<and>
     parse_header demo_primitives demo_token = Inr h \<and>
     fst (fetch_key demo_primitives (le_ttl demo_launch_env) (le_fetch_now demo_launch_env)
            (le_fetch_fin demo_launch_env) (le_reply demo_launch_env) (pf_jwks p) (h_kid h) []) = Inr key \<and>
     verify demo_primitives demo_token key = Inr (la_claims demo_launch) \<and>
     check_issuer (la_claims demo_launch) (pf_issuer p) = Inr () \<and>
     check_audience (la_claims demo_launch) (pf_client p) = Inr () \<and>
     check_time demo_primitives (la_claims demo_launch) (le_now demo_launch_env)
       (skew_of (le_skew demo_launch_env)) = Inr () \<and>
     la_deployment demo_launch \<in> set (pf_deployments p)"
  by (rule accepted_launch_verified [OF demo_validate])

text \<open>C14: Over any interleaving of logins and launches against the shared table, a state or nonce that
  is not minted again backs at most one accepted launch, whatever statements fail or lose their
  reply: a replayed launch is rejected.\<close>

theorem launch_values_single_use:
  assumes "\<not> list_ex (mints kind v) es"
  shows "count_list (spent_values kind (flow_run P pg_mint pg_spend ps es rows cache)) v \<le> 1"
  using assms by (rule pg_flow.spent_at_most_once)

theorem launch_values_single_use_witness:
  "count_list (spent_values KindNonce
     (flow_run demo_primitives pg_mint pg_spend [demo_platform]
        [LaunchEvent demo_launch_env demo_token (new_value (demo_random 3)) [],
         LaunchEvent demo_launch_env demo_token (new_value (demo_random 3)) []] demo_rows []))
     (new_value (demo_random 2)) \<le> 1"
  by (rule launch_values_single_use) simp

text \<open>Whatever a platform asserts, every role of a launch stays inside
  \<open>ROLE_LTI_[A-Z0-9_]{1,64}\<close>: it is no administrator role and no episode grant.\<close>

theorem launch_role_bound:
  assumes "r \<in> set (map_roles l)"
  shows "role_allowed r \<and> r \<notin> set admin_roles \<and> episode_grant r = None"
  using assms map_roles_allowed [of l]
  by (auto simp: list_all_iff allowed_no_grant dest: allowed_not_admin)

text \<open>Until a value is minted twice, the in-memory store of the tests and the shared table answer
  every sequence of mints and spends alike.\<close>

theorem flow_stores_agree:
  assumes "fresh_mints [] ops"
  shows "run_mem ops [] = run_pg ops []"
  by (rule run_stores_agree [OF _ assms]) (simp_all add: same_store_def pg_known_def)

text \<open>No token passes both verifications, whatever the keys: an RSA-signed token is never taken
  for a session, nor a session for a platform's or issuer's token.\<close>

theorem no_alg_confusion:
  assumes "verify P token key = Inr m"
  shows "\<not> is_ok (verify_hs256 P token secret)"
  using assms by (rule no_alg_confusion_aux)

text \<open>Over any run of the caching fetcher, with endpoints failing at will, a key is handed out for
  a URL and key id only if that URL has answered a key set with that id and key.\<close>

theorem fetched_keys_were_published:
  assumes "run_events (fetch_step P) requests ([], []) = (cache, answers)"
    and "fst (run_request P q cache) = Inr k"
  shows "\<exists>keys. (kr_url q, keys) \<in> set (log_reply P q answers) \<and> map_of keys (kr_kid q) = Some k"
proof -
  have "from_log (run_events (fetch_step P) requests ([], []))"
    by (rule fetcher.run_inv) (simp add: from_log_def)
  then show ?thesis using assms by (auto intro: fetch_key_source)
qed

definition demo_request_key :: "fetch_reply \<Rightarrow> key_request" where
  "demo_request_key reply = \<lparr>kr_ttl = 0, kr_now = 0, kr_fin = 0, kr_reply = reply,
     kr_url = ''lms/keys'', kr_kid = ''k''\<rparr>"

end
