(* ===== verification/Authn.thy ===== *)
theory Authn
  imports LtiProps
begin

text \<open>
  From a request to a principal: the operated issuer's bearer tokens (\<open>internal/oidcauth\<close>), the
  stateless LTI session cookie (\<open>internal/authn/session.go\<close>) and the resolution chain
  (\<open>internal/authn/authn.go\<close>). The replies of the issuer's endpoints and the clock are arguments.
\<close>

section \<open>The operated issuer\<close>

record oidc_config =
  oc_issuer :: string
  oc_client :: string
  oc_roles_claim :: string
  oc_username_claim :: string
  oc_skew :: int

text \<open>\<open>New\<close> fills the defaults in.\<close>

definition new_oidc :: "oidc_config \<Rightarrow> oidc_config" where
  "new_oidc c =
     c\<lparr>oc_roles_claim := (if oc_roles_claim c = [] then ''roles'' else oc_roles_claim c),
       oc_username_claim := (if oc_username_claim c = [] then ''preferred_username'' else oc_username_claim c),
       oc_skew := (if oc_skew c = 0 then 60 * giga else oc_skew c)\<rparr>"

record acts_as =
  aa_username :: string
  aa_roles :: "string list"

record identity =
  id_subject :: string
  id_username :: string
  id_roles :: "string list"
  id_acts_as :: "acts_as option"

datatype oidc_error =
    DiscoveryFailed
  | DiscoveryStatus int
  | DiscoveryUnreadable
  | DiscoveryUnparseable
  | DiscoveryIssuer string
  | DiscoveryNoKeys
  | OidcToken jose_error
  | NoRolesClaim
  | MalformedActsAs
  | IncompleteActsAs

record validator =
  v_uri :: string
  v_fetched :: int
  v_keys :: key_cache

datatype discovery_reply = DiscoveryDown | DiscoveryAnswer int string | DiscoveryCut

record oidc_env =
  oe_now :: int
  oe_disc_now :: int
  oe_disc_fin :: int
  oe_disc :: discovery_reply
  oe_key_now :: int
  oe_key_fin :: int
  oe_key :: fetch_reply

definition discovery_doc :: "primitives \<Rightarrow> string \<Rightarrow> (string \<times> string) option" where
  "discovery_doc P body =
     (case Option.bind (json_decode P (take body_limit body)) struct_members of
        None \<Rightarrow> None
      | Some m \<Rightarrow>
          (case (field_string ''issuer'' m [], field_string ''jwks_uri'' m []) of
             (Some i, Some u) \<Rightarrow> Some (i, u)
           | _ \<Rightarrow> None))"

definition discover_jwks ::
  "primitives \<Rightarrow> oidc_config \<Rightarrow> oidc_env \<Rightarrow> validator \<Rightarrow> (oidc_error, string) result \<times> validator" where
  "discover_jwks P cfg e v =
     (if v_uri v \<noteq> [] \<and> oe_disc_now e - v_fetched v < 60 * 60 * giga then (Inr (v_uri v), v)
      else (case oe_disc e of
              DiscoveryDown \<Rightarrow> (if v_uri v \<noteq> [] then Inr (v_uri v) else Inl DiscoveryFailed, v)
            | DiscoveryCut \<Rightarrow> (Inl DiscoveryUnreadable, v)
            | DiscoveryAnswer code body \<Rightarrow>
                if code \<noteq> 200
                then (if v_uri v \<noteq> [] then Inr (v_uri v) else Inl (DiscoveryStatus code), v)
                else (case discovery_doc P body of
                        None \<Rightarrow> (Inl DiscoveryUnparseable, v)
                      | Some (issuer, uri) \<Rightarrow>
                          if issuer \<noteq> oc_issuer cfg then (Inl (DiscoveryIssuer issuer), v)
                          else if uri = [] then (Inl DiscoveryNoKeys, v)
                          else (Inr uri, v\<lparr>v_uri := uri, v_fetched := oe_disc_fin e\<rparr>))))"

fun walk_path :: "json \<Rightarrow> string list \<Rightarrow> json option" where
  "walk_path v [] = Some v"
| "walk_path (JObj m) (s # ss) = (case claim m s of None \<Rightarrow> None | Some v \<Rightarrow> walk_path v ss)"
| "walk_path _ (s # ss) = None"

definition nonempty_strings :: "json list \<Rightarrow> string list" where
  "nonempty_strings xs = filter (\<lambda>s. s \<noteq> []) (strings_of xs)"

definition roles_at :: "claims \<Rightarrow> string \<Rightarrow> string list option" where
  "roles_at m path =
     (case as_array (walk_path (JObj m) (split_on CHR ''.'' path)) of
        None \<Rightarrow> None
      | Some xs \<Rightarrow> if nonempty_strings xs = [] then None else Some (nonempty_strings xs))"

definition acts_as_of :: "claims \<Rightarrow> (oidc_error, acts_as option) result" where
  "acts_as_of m =
     (case claim m ''act_as'' of
        None \<Rightarrow> Inr None
      | Some raw \<Rightarrow>
          (case as_object (Some raw) of
             None \<Rightarrow> Inl MalformedActsAs
           | Some obj \<Rightarrow>
               (let user = claim_string obj ''username'';
                    roles = (case as_array (claim obj ''roles'') of
                               Some xs \<Rightarrow> nonempty_strings xs | None \<Rightarrow> [])
                in if user = [] \<or> roles = [] then Inl IncompleteActsAs
                   else Inr (Some \<lparr>aa_username = user, aa_roles = roles\<rparr>))))"

definition identity_of :: "oidc_config \<Rightarrow> claims \<Rightarrow> (oidc_error, identity) result" where
  "identity_of cfg m =
     (case roles_at m (oc_roles_claim cfg) of
        None \<Rightarrow> Inl NoRolesClaim
      | Some roles \<Rightarrow>
          (let subject = claim_string m ''sub'';
               user = claim_string m (oc_username_claim cfg) in
           bind_result (acts_as_of m)
             (\<lambda>aa. Inr \<lparr>id_subject = subject, id_username = (if user = [] then subject else user),
                       id_roles = roles, id_acts_as = aa\<rparr>)))"

definition as_oidc_error :: "(jose_error, 'a) result \<Rightarrow> (oidc_error, 'a) result" where
  "as_oidc_error r = (case r of Inl e \<Rightarrow> Inl (OidcToken e) | Inr a \<Rightarrow> Inr a)"

definition checked_identity ::
  "primitives \<Rightarrow> oidc_config \<Rightarrow> int \<Rightarrow> rsa_key \<Rightarrow> string \<Rightarrow> (oidc_error, identity) result" where
  "checked_identity P cfg now key token =
     bind_result (as_oidc_error (verify P token key)) (\<lambda>m.
     bind_result (as_oidc_error (check_issuer m (oc_issuer cfg))) (\<lambda>_.
     bind_result (as_oidc_error (check_audience m (oc_client cfg))) (\<lambda>_.
     bind_result (as_oidc_error (check_time P m now (oc_skew cfg))) (\<lambda>_.
     identity_of cfg m))))"

definition validate_oidc ::
  "primitives \<Rightarrow> oidc_config \<Rightarrow> oidc_env \<Rightarrow> string \<Rightarrow> validator \<Rightarrow> (oidc_error, identity) result \<times> validator" where
  "validate_oidc P cfg e token v =
     (case discover_jwks P cfg e v of
        (Inl err, v1) \<Rightarrow> (Inl err, v1)
      | (Inr uri, v1) \<Rightarrow>
          (case parse_header P token of
             Inl err \<Rightarrow> (Inl (OidcToken err), v1)
           | Inr h \<Rightarrow>
               (case fetch_key P 0 (oe_key_now e) (oe_key_fin e) (oe_key e) uri (h_kid h) (v_keys v1) of
                  (Inl err, c) \<Rightarrow> (Inl (OidcToken err), v1\<lparr>v_keys := c\<rparr>)
                | (Inr key, c) \<Rightarrow> (checked_identity P cfg (oe_now e) key token, v1\<lparr>v_keys := c\<rparr>))))"

section \<open>The session cookie\<close>

record session_codec =
  sc_secret :: string
  sc_ttl :: int

definition session_ttl :: "session_codec \<Rightarrow> int" where
  "session_ttl c = (if sc_ttl c > 0 then sc_ttl c else 2 * 60 * 60 * giga)"

definition session_skew :: int where
  "session_skew = 30 * giga"

datatype session_error = RoleOutsideBound | SigningFailed jose_error

text \<open>The members in the order \<open>json.Marshal\<close> writes a map.\<close>

definition session_claims :: "session_codec \<Rightarrow> int \<Rightarrow> string \<Rightarrow> string list \<Rightarrow> claims" where
  "session_claims c now user roles =
     [(''exp'', JNum (of_int (unix_of (time_add now (session_ttl c))))),
      (''iat'', JNum (of_int (unix_of now))),
      (''roles'', JArr (map JStr roles)),
      (''sub'', JStr user)]"

definition mint_session ::
  "primitives \<Rightarrow> session_codec \<Rightarrow> int \<Rightarrow> string \<Rightarrow> string list \<Rightarrow> (session_error, string) result" where
  "mint_session P c now user roles =
     (if \<not> list_all role_allowed roles then Inl RoleOutsideBound
      else (case sign_hs256 P (session_claims c now user roles) (sc_secret c) of
              Inl e \<Rightarrow> Inl (SigningFailed e)
            | Inr v \<Rightarrow> Inr v))"

fun allowed_roles :: "json list \<Rightarrow> string list option" where
  "allowed_roles [] = Some []"
| "allowed_roles (JStr r # xs) =
     (if role_allowed r then map_option (\<lambda>rs. r # rs) (allowed_roles xs) else None)"
| "allowed_roles (_ # xs) = None"

definition validate_session ::
  "primitives \<Rightarrow> session_codec \<Rightarrow> int \<Rightarrow> string \<Rightarrow> (string list \<times> string) option" where
  "validate_session P c now value =
     (case verify_hs256 P value (sc_secret c) of
        Inl e \<Rightarrow> None
      | Inr m \<Rightarrow>
          if \<not> is_ok (check_time P m now session_skew) then None
          else (case as_array (claim m ''roles'') of
                  None \<Rightarrow> None
                | Some xs \<Rightarrow>
                    if xs = [] then None
                    else (case allowed_roles xs of
                            None \<Rightarrow> None
                          | Some roles \<Rightarrow> Some (roles, claim_string m ''sub''))))"

text \<open>
  The launch hook. \<open>parse_url\<close> is \<open>net/url.Parse\<close> as far as it is used: the decoded path and the
  raw query of a URL that parses.
\<close>

datatype launch_reply = MintFailed | SessionRedirect string bool string

definition redirect_target :: "(string \<Rightarrow> (string \<times> string) option) \<Rightarrow> string \<Rightarrow> string" where
  "redirect_target parse_url uri =
     (case parse_url uri of
        Some (path, query) \<Rightarrow>
          if path \<noteq> [] then path @ (if query \<noteq> [] then ''?'' @ query else []) else ''/''
      | None \<Rightarrow> ''/'')"

definition session_on_launch ::
  "primitives \<Rightarrow> (string \<Rightarrow> (string \<times> string) option) \<Rightarrow> session_codec \<Rightarrow> int \<Rightarrow> bool \<Rightarrow> launch \<Rightarrow> launch_reply" where
  "session_on_launch P parse_url c now https l =
     (case mint_session P c now (la_subject l) (map_roles l) of
        Inl e \<Rightarrow> MintFailed
      | Inr v \<Rightarrow> SessionRedirect v https (redirect_target parse_url (la_target l)))"

text \<open>A path of two leading slashes is kept: the redirect then names another host.\<close>

lemma redirect_leaves_site:
  "parse_url uri = Some (''//'' @ host @ path, []) \<Longrightarrow>
     redirect_target parse_url uri = ''//'' @ host @ path"
  by (simp add: redirect_target_def)

section \<open>The resolution chain\<close>

record auth_config =
  ac_oidc :: "oidc_config option"
  ac_service_roles :: "string list"
  ac_dev_seam :: bool
  ac_service_users :: "(string \<times> string) list"
  ac_session :: "session_codec option"

record http_auth =
  ha_authorization :: string
  ha_cookie :: "string option"
  ha_x_roles :: string
  ha_basic :: "(string \<times> string) option"

datatype auth_method = ByOidc | ByLti | ByDevSeam | Anonymous

record auth_info =
  ai_username :: string
  ai_method :: auth_method

type_synonym resolved = "principal \<times> auth_info \<times> bool"

definition anonymous_resolved :: resolved where
  "anonymous_resolved =
     (\<lparr>p_roles = [''ROLE_ANONYMOUS'']\<rparr>, \<lparr>ai_username = [], ai_method = Anonymous\<rparr>, False)"

definition bearer_token :: "http_auth \<Rightarrow> string option" where
  "bearer_token r =
     (let h = ha_authorization r in
      if 7 < length h \<and> map lower (take 7 h) = ''bearer '' then Some (trim_space (drop 7 h)) else None)"

definition sudo_role :: string where
  "sudo_role = ''ROLE_SUDO''"

definition has_role :: "string list \<Rightarrow> string \<Rightarrow> bool" where
  "has_role roles want = list_ex (\<lambda>r. r = want) roles"

definition oidc_principal :: "identity \<Rightarrow> resolved" where
  "oidc_principal i =
     (case id_acts_as i of
        Some aa \<Rightarrow>
          if \<not> has_role (id_roles i) sudo_role then anonymous_resolved
          else (\<lparr>p_roles = aa_roles aa\<rparr>, \<lparr>ai_username = aa_username aa, ai_method = ByOidc\<rparr>, True)
      | None \<Rightarrow> (\<lparr>p_roles = id_roles i\<rparr>, \<lparr>ai_username = id_username i, ai_method = ByOidc\<rparr>, True))"

definition dev_roles :: "string \<Rightarrow> string list" where
  "dev_roles h = filter (\<lambda>x. x \<noteq> []) (map trim_space (split_on CHR '','' h))"

definition dev_principal :: "auth_config \<Rightarrow> http_auth \<Rightarrow> resolved" where
  "dev_principal cfg r =
     (if ac_dev_seam cfg \<and> ha_x_roles r \<noteq> [] \<and> dev_roles (ha_x_roles r) \<noteq> []
      then (\<lparr>p_roles = dev_roles (ha_x_roles r)\<rparr>, \<lparr>ai_username = [], ai_method = ByDevSeam\<rparr>, True)
      else anonymous_resolved)"

definition resolve ::
  "primitives \<Rightarrow> auth_config \<Rightarrow> oidc_env \<Rightarrow> int \<Rightarrow> http_auth \<Rightarrow> validator \<Rightarrow> resolved \<times> validator" where
  "resolve P cfg e now r v =
     (case bearer_token r of
        Some token \<Rightarrow>
          (case ac_oidc cfg of
             None \<Rightarrow> (anonymous_resolved, v)
           | Some oc \<Rightarrow>
               (case validate_oidc P oc e token v of
                  (Inl err, v') \<Rightarrow> (anonymous_resolved, v')
                | (Inr i, v') \<Rightarrow> (oidc_principal i, v')))
      | None \<Rightarrow>
          (case (ac_session cfg, ha_cookie r) of
             (Some codec, Some value) \<Rightarrow>
               (case validate_session P codec now value of
                  Some (roles, user) \<Rightarrow>
                    ((\<lparr>p_roles = roles\<rparr>, \<lparr>ai_username = user, ai_method = ByLti\<rparr>, True), v)
                | None \<Rightarrow> (anonymous_resolved, v))
           | _ \<Rightarrow> (dev_principal cfg r, v)))"

definition default_service_roles :: "string list" where
  "default_service_roles = [''ROLE_ADMIN'', ''ROLE_GLOBAL_ADMIN'', ''ROLE_CAPTURE_AGENT'']"

definition service ::
  "primitives \<Rightarrow> auth_config \<Rightarrow> oidc_env \<Rightarrow> http_auth \<Rightarrow> validator \<Rightarrow> bool \<times> validator" where
  "service P cfg e r v =
     (case bearer_token r of
        Some token \<Rightarrow>
          (case ac_oidc cfg of
             None \<Rightarrow> (False, v)
           | Some oc \<Rightarrow>
               (case validate_oidc P oc e token v of
                  (Inl err, v') \<Rightarrow> (False, v')
                | (Inr i, v') \<Rightarrow>
                    (list_ex (\<lambda>have_role. has_role
                       (if ac_service_roles cfg = [] then default_service_roles else ac_service_roles cfg)
                       have_role) (id_roles i), v')))
      | None \<Rightarrow>
          (if ac_dev_seam cfg
           then (case ha_basic r of
                   None \<Rightarrow> False
                 | Some (user, pass) \<Rightarrow>
                     (case map_of (ac_service_users cfg) user of
                        None \<Rightarrow> False
                      | Some want \<Rightarrow> pass = want))
           else False, v))"

end
