(* ===== verification/AuthnClaims.thy ===== *)
theory AuthnClaims
  imports Authn LtiClaims Serve
begin

text \<open>
  The properties of the resolution chain: the session cookie carries a launch's roles for exactly
  its lifetime, every principal comes from the credential that was presented, and a session
  principal reaches only what its launch roles are pinned to.
\<close>

section \<open>Clock arithmetic in range\<close>

lemma wrap64_id: "- max_int64 - 1 \<le> n \<Longrightarrow> n \<le> max_int64 \<Longrightarrow> wrap64 n = n"
  by (simp add: wrap64_def max_int64_def)

lemma time_add_id:
  assumes "- max_int64 - 1 \<le> (t + d) div giga" and "(t + d) div giga \<le> max_int64"
  shows "time_add t d = t + d"
  using assms by (simp add: time_add_def clamp64_def)

lemma int64_of_int [simp]:
  "- max_int64 - 1 \<le> n \<Longrightarrow> n \<le> max_int64 \<Longrightarrow> int64_of_float P (of_int n) = n"
  by (simp add: int64_of_float_def)

definition clock_range :: "int \<Rightarrow> bool" where
  "clock_range t = (0 \<le> t \<and> t \<le> 4611686018427387904 * giga)"

lemma clock_range_div: "clock_range t \<Longrightarrow> 0 \<le> t div giga \<and> t div giga \<le> 4611686018427387904"
  by (auto simp: clock_range_def giga_def)

lemma numeric_date_unix_of:
  assumes "clock_range t"
  shows "numeric_date P (Some (JNum (of_int (unix_of t)))) = Some (t div giga * giga)"
proof -
  have r: "0 \<le> t div giga" "t div giga \<le> 4611686018427387904" using clock_range_div [OF assms] by auto
  then have u: "unix_of t = t div giga - unix_to_internal"
    unfolding unix_of_def by (intro wrap64_id) (auto simp: max_int64_def unix_to_internal_def)
  have "int64_of_float P (of_int (unix_of t)) = unix_of t"
    using r u by (intro int64_of_int) (auto simp: max_int64_def unix_to_internal_def)
  moreover have "wrap64 (unix_of t + unix_to_internal) = t div giga"
    using r u by (simp add: wrap64_id max_int64_def)
  ultimately show ?thesis by (simp add: numeric_date_def time_unix_def)
qed

lemma floor_second: "t div giga * giga \<le> t" "0 \<le> t \<Longrightarrow> 0 \<le> t div giga * giga"
  by (simp_all add: giga_def)

lemma time_add_clock:
  assumes "clock_range t" and "0 \<le> d" and "d \<le> 100 * giga"
  shows "time_add t d = t + d"
  using assms by (intro time_add_id) (auto simp: clock_range_def giga_def max_int64_def)

section \<open>Sessions\<close>

lemma allowed_roles_map: "allowed_roles (map JStr rs) = (if list_all role_allowed rs then Some rs else None)"
  by (induction rs) auto

lemma allowed_roles_sound: "allowed_roles xs = Some rs \<Longrightarrow> list_all role_allowed rs"
  by (induction xs arbitrary: rs rule: allowed_roles.induct) (auto split: if_splits)

lemma validate_session_allowed:
  "validate_session P c now value = Some (roles, user) \<Longrightarrow> list_all role_allowed roles"
  by (auto simp: validate_session_def dest: allowed_roles_sound split: sum.splits if_splits option.splits)

lemma session_claims_fields:
  "claim (session_claims c now user roles) ''exp'' =
     Some (JNum (of_int (unix_of (time_add now (session_ttl c)))))"
  "claim (session_claims c now user roles) ''iat'' = Some (JNum (of_int (unix_of now)))"
  "claim (session_claims c now user roles) ''nbf'' = None"
  "claim (session_claims c now user roles) ''roles'' = Some (JArr (map JStr roles))"
  "claim_string (session_claims c now user roles) ''sub'' = user"
  by (simp_all add: session_claims_def claim_def claim_string_def as_string_def str_or_empty_def)

definition session_end :: "session_codec \<Rightarrow> int \<Rightarrow> int" where
  "session_end c t = (t + session_ttl c) div giga * giga + session_skew"

lemma session_ttl_pos: "0 < session_ttl c"
  by (simp add: session_ttl_def giga_def)

lemma session_time:
  assumes "clock_range t0" and "clock_range (t0 + session_ttl c)" and "clock_range t1" and "t0 \<le> t1"
  shows "is_ok (check_time P (session_claims c t0 user roles) t1 session_skew) \<longleftrightarrow> t1 \<le> session_end c t0"
proof -
  have add: "time_add t0 (session_ttl c) = t0 + session_ttl c"
    using assms(2) by (intro time_add_id) (auto simp: max_int64_def dest!: clock_range_div)
  let ?e = "(t0 + session_ttl c) div giga * giga"
  have "clock_range ?e"
    using assms(2) floor_second [of "t0 + session_ttl c"] by (auto simp: clock_range_def)
  then have e: "time_add ?e session_skew = session_end c t0"
    using time_add_clock [of ?e session_skew] by (simp add: session_end_def session_skew_def giga_def)
  have n: "time_add t1 session_skew = t1 + session_skew"
    using assms(3) by (intro time_add_clock) (auto simp: session_skew_def giga_def)
  have "t0 div giga * giga \<le> t1 + session_skew"
    using floor_second(1) [of t0] assms(4) by (simp add: session_skew_def giga_def)
  then show ?thesis
    by (auto simp: check_time_def session_claims_fields add numeric_date_unix_of [OF assms(2)]
        numeric_date_unix_of [OF assms(1)] e n after_limit_def numeric_date_def [of P None])
qed

lemma session_round_trip_aux:
  assumes enc: "json_encode P (JObj [(''alg'', JStr ''HS256''), (''typ'', JStr ''JWT'')]) = Some hj"
    and dec: "json_decode P hj = Some (JObj [(''alg'', JStr ''HS256''), (''typ'', JStr ''JWT'')])"
    and encc: "json_encode P (JObj (session_claims c t0 user roles)) = Some cj"
    and decc: "json_decode P cj = Some (JObj (session_claims c t0 user roles))"
    and roles: "list_all role_allowed roles" "roles \<noteq> []"
  shows "\<exists>v. mint_session P c t0 user roles = Inr v \<and>
     validate_session P c t1 v =
       (if is_ok (check_time P (session_claims c t0 user roles) t1 session_skew)
        then Some (roles, user) else None)"
proof -
  obtain v where "sign_hs256 P (session_claims c t0 user roles) (sc_secret c) = Inr v"
    and "verify_hs256 P v (sc_secret c) = Inr (session_claims c t0 user roles)"
    using hs256_round_trip [OF enc dec encc decc] by blast
  then show ?thesis
    using roles
    by (simp add: mint_session_def validate_session_def session_claims_fields as_array_def allowed_roles_map)
qed

section \<open>Where a principal comes from\<close>

lemma oidc_principal_ok:
  "oidc_principal i = (p, info, True) \<Longrightarrow>
     ai_method info = ByOidc \<and>
     (id_acts_as i = None \<and> p_roles p = id_roles i \<or>
      (\<exists>aa. id_acts_as i = Some aa \<and> sudo_role \<in> set (id_roles i) \<and> p_roles p = aa_roles aa))"
  by (auto simp: oidc_principal_def anonymous_resolved_def has_role_def list_ex_iff
      split: option.splits if_splits)

lemma dev_principal_ok:
  "dev_principal cfg r = (p, info, True) \<Longrightarrow>
     ai_method info = ByDevSeam \<and> ac_dev_seam cfg \<and> p_roles p = dev_roles (ha_x_roles r)"
  by (auto simp: dev_principal_def anonymous_resolved_def split: if_splits)

lemma anonymous_not_ok [simp]: "anonymous_resolved \<noteq> (p, info, True)" "(p, info, True) \<noteq> anonymous_resolved"
  by (simp_all add: anonymous_resolved_def)

fun provenance :: "primitives \<Rightarrow> auth_config \<Rightarrow> oidc_env \<Rightarrow> int \<Rightarrow> http_auth \<Rightarrow> validator \<Rightarrow>
    auth_method \<Rightarrow> string list \<Rightarrow> bool" where
  "provenance P cfg e now r v ByOidc roles =
     (\<exists>token oc i. bearer_token r = Some token \<and> ac_oidc cfg = Some oc \<and>
        fst (validate_oidc P oc e token v) = Inr i \<and>
        (id_acts_as i = None \<and> roles = id_roles i \<or>
         (\<exists>aa. id_acts_as i = Some aa \<and> sudo_role \<in> set (id_roles i) \<and> roles = aa_roles aa)))"
| "provenance P cfg e now r v ByLti roles =
     (bearer_token r = None \<and>
      (\<exists>codec value user. ac_session cfg = Some codec \<and> ha_cookie r = Some value \<and>
         validate_session P codec now value = Some (roles, user)))"
| "provenance P cfg e now r v ByDevSeam roles =
     (bearer_token r = None \<and> (ac_session cfg = None \<or> ha_cookie r = None) \<and> ac_dev_seam cfg \<and>
      roles = dev_roles (ha_x_roles r))"
| "provenance P cfg e now r v Anonymous roles = False"

lemma resolve_provenance:
  assumes "fst (resolve P cfg e now r v) = (p, info, True)"
  shows "provenance P cfg e now r v (ai_method info) (p_roles p)"
proof (cases "bearer_token r")
  case (Some token)
  then obtain oc i where "ac_oidc cfg = Some oc" and "fst (validate_oidc P oc e token v) = Inr i"
    and "oidc_principal i = (p, info, True)"
    using assms by (auto simp: resolve_def split: option.splits sum.splits prod.splits)
  then show ?thesis using Some oidc_principal_ok [of i p info] by auto
next
  case None
  show ?thesis
  proof (cases "ac_session cfg = None \<or> ha_cookie r = None")
    case True
    then have "dev_principal cfg r = (p, info, True)"
      using assms None by (auto simp: resolve_def split: option.splits)
    then show ?thesis using None True dev_principal_ok [of cfg r p info] by auto
  next
    case False
    then show ?thesis
      using assms None by (auto simp: resolve_def split: option.splits prod.splits)
  qed
qed

lemma lti_principal_allowed:
  assumes "fst (resolve P cfg e now r v) = (p, info, True)" and "ai_method info = ByLti"
  shows "list_all role_allowed (p_roles p)"
  using resolve_provenance [OF assms(1)] assms(2) by (auto dest: validate_session_allowed)

section \<open>A concrete deployment\<close>

definition demo_codec :: session_codec where
  "demo_codec = \<lparr>sc_secret = ''secret'', sc_ttl = 0\<rparr>"

definition demo_session_header :: json where
  "demo_session_header = JObj [(''alg'', JStr ''HS256''), (''typ'', JStr ''JWT'')]"

definition demo_session :: json where
  "demo_session = JObj (session_claims demo_codec (time_unix 0) ''ann'' [''ROLE_LTI_USER''])"

definition demo_session_primitives :: primitives where
  "demo_session_primitives = demo_primitives
     \<lparr>json_encode := (\<lambda>v. if v = demo_session_header then Some ''H'' else Some ''S''),
      json_decode := (\<lambda>d. if d = ''H'' then Some demo_session_header
                         else if d = ''S'' then Some demo_session else None)\<rparr>"

definition demo_auth :: auth_config where
  "demo_auth = \<lparr>ac_oidc = None, ac_service_roles = [], ac_dev_seam = True, ac_service_users = [],
     ac_session = Some demo_codec\<rparr>"

definition demo_env_oidc :: oidc_env where
  "demo_env_oidc = \<lparr>oe_now = 0, oe_disc_now = 0, oe_disc_fin = 0, oe_disc = DiscoveryDown,
     oe_key_now = 0, oe_key_fin = 0, oe_key = Unreachable\<rparr>"

definition demo_validator :: validator where
  "demo_validator = \<lparr>v_uri = [], v_fetched = 0, v_keys = []\<rparr>"

definition demo_http :: "string option \<Rightarrow> http_auth" where
  "demo_http cookie = \<lparr>ha_authorization = [], ha_cookie = cookie, ha_x_roles = ''ROLE_ADMIN'',
     ha_basic = None\<rparr>"

lemma demo_session_codec:
  "json_encode demo_session_primitives demo_session_header = Some ''H''"
  "json_decode demo_session_primitives ''H'' = Some demo_session_header"
  "json_encode demo_session_primitives demo_session = Some ''S''"
  "json_decode demo_session_primitives ''S'' = Some demo_session"
  by (simp_all add: demo_session_primitives_def demo_session_def demo_session_header_def session_claims_def)

lemma demo_session_range:
  "clock_range (time_unix 0)" "clock_range (time_unix 0 + session_ttl demo_codec)"
  "clock_range (time_unix 60)" "time_unix 0 \<le> time_unix 60"
  "time_unix 60 \<le> session_end demo_codec (time_unix 0)"
  by (simp_all add: clock_range_def time_unix_def wrap64_def max_int64_def unix_to_internal_def
      giga_def session_ttl_def demo_codec_def session_end_def session_skew_def)

lemma demo_user_role: "list_all role_allowed [''ROLE_LTI_USER'']"
  by code_simp

section \<open>Properties\<close>

text \<open>A session minted for a launch's roles is a valid cookie for exactly its lifetime: until the
  whole second its expiry falls in, plus the skew, it gives back those roles and that user, and
  nothing afterwards. The JSON codec is assumed to read back the two documents the mint writes.\<close>

theorem session_round_trip:
  assumes "json_encode P (JObj [(''alg'', JStr ''HS256''), (''typ'', JStr ''JWT'')]) = Some hj"
    and "json_decode P hj = Some (JObj [(''alg'', JStr ''HS256''), (''typ'', JStr ''JWT'')])"
    and "json_encode P (JObj (session_claims c t0 user roles)) = Some cj"
    and "json_decode P cj = Some (JObj (session_claims c t0 user roles))"
    and "list_all role_allowed roles" and "roles \<noteq> []"
    and "clock_range t0" and "clock_range (t0 + session_ttl c)" and "clock_range t1" and "t0 \<le> t1"
  shows "\<exists>v. mint_session P c t0 user roles = Inr v \<and>
     validate_session P c t1 v = (if t1 \<le> session_end c t0 then Some (roles, user) else None)"
  using session_round_trip_aux [OF assms(1-6), of t1] by (simp only: session_time [OF assms(7-10)])

text \<open>C16: The credential that is presented decides. A resolved principal has the roles of a validated
  bearer token (or, only if that token's own roles hold the sudo grant, of its signed acts-as
  claim), or those of a valid session cookie when no bearer was sent, or those of the development
  header when the seam is enabled and neither was sent: an invalid credential never falls through.\<close>

theorem presented_credential_decides:
  assumes "fst (resolve P cfg e now r v) = (p, info, True)"
  shows "provenance P cfg e now r v (ai_method info) (p_roles p)"
  using assms by (rule resolve_provenance)

theorem presented_credential_decides_witness:
  "provenance demo_primitives demo_auth demo_env_oidc 0 (demo_http None) demo_validator ByDevSeam [''ROLE_ADMIN'']"
proof -
  have "fst (resolve demo_primitives demo_auth demo_env_oidc 0 (demo_http None) demo_validator) =
      (\<lparr>p_roles = [''ROLE_ADMIN'']\<rparr>, \<lparr>ai_username = [], ai_method = ByDevSeam\<rparr>, True)"
    by code_simp
  from presented_credential_decides [OF this] show ?thesis by simp
qed

text \<open>A session principal receives an element's bytes only through a publication that pins one of
  its launch roles for reading: no administrator bypass and no episode grant can apply to it.\<close>

theorem lti_session_delivery:
  assumes "fst (resolve P cfg e now r v) = (p, info, True)" and "ai_method info = ByLti"
  shows "authorized pins p \<longleftrightarrow> (\<exists>q \<in> set pins. \<exists>x \<in> set (p_roles p). x \<in> pin_read q)"
proof -
  have a: "list_all role_allowed (p_roles p)" using assms by (rule lti_principal_allowed)
  have "\<not> is_admin p" using is_admin_allowed [OF a] by (simp add: is_admin_def)
  moreover have "\<not> role_allowed (episode_read_role mp)" for mp
    by (simp add: role_allowed_def episode_read_role_def lti_prefix_def)
  then have "episode_read_role mp \<notin> set (p_roles p)" for mp using a by (auto simp: list_all_iff)
  ultimately show ?thesis unfolding authorized_iff by auto
qed

end
