(* ===== verification/Rexp.thy ===== *)
theory Rexp
  imports Prelude
begin

text \<open>
  The part of Go's \<open>regexp\<close> the repository uses: leftmost-first matching with greedy and lazy
  repetition, word boundaries and capture groups. \<open>run_re r\<close> lists, in order of preference, the
  states a match of \<open>r\<close> can end in; a state is the byte before, the bytes after and the captures
  so far. Under \<open>(?i)\<close> the letters k and s also match the Kelvin sign and the long s.
\<close>

datatype re =
    Eps
  | Cls "char \<Rightarrow> bool"
  | Cat re re
  | Or re re
  | Rep bool re
  | Edge
  | EndText
  | Group re

type_synonym re_state = "char option \<times> string \<times> string list"

definition word_char :: "char \<Rightarrow> bool" where
  "word_char c = (let n = (of_char c :: nat) in
     (48 \<le> n \<and> n \<le> 57) \<or> (65 \<le> n \<and> n \<le> 90) \<or> n = 95 \<or> (97 \<le> n \<and> n \<le> 122))"

definition space_char :: "char \<Rightarrow> bool" where
  "space_char c = (c \<in> {CHR 0x09, CHR 0x0A, CHR 0x0C, CHR 0x0D, CHR 0x20})"

definition at_edge :: "char option \<Rightarrow> string \<Rightarrow> bool" where
  "at_edge prev rest =
     ((case prev of None \<Rightarrow> False | Some c \<Rightarrow> word_char c) \<noteq>
      (case rest of [] \<Rightarrow> False | c # cs \<Rightarrow> word_char c))"

primrec repeat_re :: "nat \<Rightarrow> (re_state \<Rightarrow> re_state list) \<Rightarrow> bool \<Rightarrow> re_state \<Rightarrow> re_state list" where
  "repeat_re 0 f greedy s = [s]"
| "repeat_re (Suc n) f greedy s =
     (if greedy then concat (map (repeat_re n f greedy) (f s)) @ [s]
      else s # concat (map (repeat_re n f greedy) (f s)))"

text \<open>Every repeated expression consumes a byte, so the remaining length bounds the repetitions.\<close>

primrec run_re :: "re \<Rightarrow> re_state \<Rightarrow> re_state list" where
  "run_re Eps s = [s]"
| "run_re (Cls P) s =
     (case s of (p, x, g) \<Rightarrow> (case x of [] \<Rightarrow> [] | c # cs \<Rightarrow> if P c then [(Some c, cs, g)] else []))"
| "run_re (Cat a b) s = concat (map (run_re b) (run_re a s))"
| "run_re (Or a b) s = run_re a s @ run_re b s"
| "run_re (Rep greedy r) s = repeat_re (length (fst (snd s))) (run_re r) greedy s"
| "run_re Edge s = (case s of (p, x, g) \<Rightarrow> if at_edge p x then [s] else [])"
| "run_re EndText s = (case s of (p, x, g) \<Rightarrow> if x = [] then [s] else [])"
| "run_re (Group r) s =
     (case s of (p, x, g) \<Rightarrow>
        map (\<lambda>(p', x', g'). (p', x', g' @ [take (length x - length x') x])) (run_re r s))"

text \<open>\<open>FindStringSubmatch\<close> of an expression anchored at the start, and \<open>MatchString\<close> of a free one.\<close>

definition submatch :: "re \<Rightarrow> string \<Rightarrow> string list option" where
  "submatch r s = (case run_re r (None, s, []) of [] \<Rightarrow> None | (p, x, g) # ss \<Rightarrow> Some g)"

fun search_from :: "re \<Rightarrow> char option \<Rightarrow> string \<Rightarrow> bool" where
  "search_from r prev s =
     (run_re r (prev, s, []) \<noteq> [] \<or>
      (case s of [] \<Rightarrow> False | c # cs \<Rightarrow> search_from r (Some c) cs))"

declare search_from.simps [simp del]

definition occurs :: "re \<Rightarrow> string \<Rightarrow> bool" where
  "occurs r s = search_from r None s"

section \<open>Combinators\<close>

fun seq :: "re list \<Rightarrow> re" where
  "seq [] = Eps"
| "seq [r] = r"
| "seq (r # rs) = Cat r (seq rs)"

fun any_of :: "re list \<Rightarrow> re" where
  "any_of [] = Cls (\<lambda>_. False)"
| "any_of [r] = r"
| "any_of (r # rs) = Or r (any_of rs)"

definition opt :: "re \<Rightarrow> re" where
  "opt r = Or r Eps"

definition some_of :: "re \<Rightarrow> re" where
  "some_of r = Cat r (Rep True r)"

definition lit :: "string \<Rightarrow> re" where
  "lit s = seq (map (\<lambda>c. Cls (\<lambda>d. d = c)) s)"

definition kelvin :: re where
  "kelvin = lit [CHR 0xE2, CHR 0x84, CHR 0xAA]"

definition long_s :: re where
  "long_s = lit [CHR 0xC5, CHR 0xBF]"

definition lower_ascii :: "char \<Rightarrow> char" where
  "lower_ascii c = (let n = (of_char c :: nat) in if 65 \<le> n \<and> n \<le> 90 then char_of (n + 32) else c)"

text \<open>A case-insensitive keyword, given in lower case, and the class \<open>\w\<close> under \<open>(?i)\<close>.\<close>

definition kw :: "string \<Rightarrow> re" where
  "kw s = seq (map (\<lambda>c. let here = Cls (\<lambda>d. lower_ascii d = c) in
     if c = CHR ''k'' then Or here kelvin else if c = CHR ''s'' then Or here long_s else here) s)"

definition word_or :: "string \<Rightarrow> re" where
  "word_or extra = any_of [Cls (\<lambda>c. word_char c \<or> c \<in> set extra), kelvin, long_s]"

definition sp :: re where
  "sp = some_of (Cls space_char)"

definition any :: re where
  "any = Cls (\<lambda>_. True)"

section \<open>Laws\<close>

text \<open>A match consumes a prefix: the remaining bytes are a suffix of those before it.\<close>

definition suffix_of :: "string \<Rightarrow> string \<Rightarrow> bool" where
  "suffix_of x y = (\<exists>u. y = u @ x)"

lemma suffix_of_refl [simp]: "suffix_of x x"
  by (simp add: suffix_of_def)

lemma suffix_of_trans: "suffix_of x y \<Longrightarrow> suffix_of y z \<Longrightarrow> suffix_of x z"
  by (auto simp: suffix_of_def)

definition later :: "re_state \<Rightarrow> re_state \<Rightarrow> bool" where
  "later s t = suffix_of (fst (snd t)) (fst (snd s))"

lemma later_refl [simp]: "later s s"
  by (simp add: later_def)

lemma later_trans: "later s u \<Longrightarrow> later u t \<Longrightarrow> later s t"
  by (auto simp: later_def intro: suffix_of_trans)

lemma repeat_re_later:
  assumes step: "\<And>s t. t \<in> set (f s) \<Longrightarrow> later s t"
  shows "t \<in> set (repeat_re n f greedy s) \<Longrightarrow> later s t"
proof (induction n arbitrary: s)
  case (Suc n)
  then consider "t = s" | u where "u \<in> set (f s)" "t \<in> set (repeat_re n f greedy u)"
    by (auto split: if_splits)
  then show ?case using Suc.IH step later_trans by cases (simp, blast)
qed simp

lemma run_re_later: "t \<in> set (run_re r s) \<Longrightarrow> later s t"
proof (induction r arbitrary: s t)
  case (Cls P)
  then show ?case by (auto simp: later_def suffix_of_def split: prod.splits list.splits if_splits)
next
  case (Cat a b)
  then obtain u where "u \<in> set (run_re a s)" "t \<in> set (run_re b u)" by auto
  then show ?case using Cat.IH later_trans by blast
next
  case (Rep greedy r)
  then show ?case using repeat_re_later [of "run_re r"] by simp
next
  case (Group r)
  then obtain u where "u \<in> set (run_re r s)" "fst (snd t) = fst (snd u)"
    by (cases s) (auto split: prod.splits)
  then show ?case using Group.IH [of u s] by (simp add: later_def)
qed (auto split: prod.splits if_splits)

end
