(* ===== verification/Classify.thy ===== *)
theory Classify
  imports Rexp
begin

text \<open>
  The static plan check of the migrations, \<open>internal/schemastep/classify.go\<close>: splitting a script
  into statements, the lock class of a statement and \<open>Check\<close> over a plan; the serve-read set is
  \<open>internal/serveset\<close>'s. Expressions are written with the combinators of \<open>Rexp\<close>.
\<close>

section \<open>Splitting a script\<close>

fun index_of :: "string \<Rightarrow> string \<Rightarrow> nat option" where
  "index_of s pat =
     (if has_prefix s pat then Some 0
      else (case s of [] \<Rightarrow> None | c # cs \<Rightarrow> map_option Suc (index_of cs pat)))"

declare index_of.simps [simp del]

text \<open>How far a quoted literal reaches after its opening quote; a doubled quote is part of it.\<close>

fun quoted_length :: "string \<Rightarrow> nat" where
  "quoted_length [] = 0"
| "quoted_length (c # cs) =
     (if c \<noteq> CHR 0x27 then Suc (quoted_length cs)
      else (case cs of
              [] \<Rightarrow> 1
            | d # ds \<Rightarrow> if d = CHR 0x27 then Suc (Suc (quoted_length ds)) else 1))"

definition tag_char :: "char \<Rightarrow> bool" where
  "tag_char c = (let n = (of_char c :: nat) in
     (65 \<le> n \<and> n \<le> 90) \<or> (97 \<le> n \<and> n \<le> 122) \<or> n = 95)"

definition dollar_tag :: "string \<Rightarrow> string" where
  "dollar_tag s =
     (case s of
        [] \<Rightarrow> []
      | c # cs \<Rightarrow>
          (let name = takeWhile tag_char cs; rest = dropWhile tag_char cs in
           if c = CHR ''$'' \<and> has_prefix rest ''$'' then c # name @ ''$'' else []))"

definition flush :: "string \<Rightarrow> string list" where
  "flush buf = (let s = trim_space buf in if s = [] then [] else [s])"

text \<open>One turn of the loop on a non-empty rest: what joins the buffer, whether a statement ends
  there, and what is left.\<close>

definition split_turn :: "string \<Rightarrow> string \<times> bool \<times> string" where
  "split_turn rest =
     (if has_prefix rest ''--'' then ([], False, dropWhile (\<lambda>c. c \<noteq> CHR 0x0A) rest)
      else if has_prefix rest ''/*'' then
        (case index_of (drop 2 rest) ''*/'' of
           None \<Rightarrow> ([], False, [])
         | Some e \<Rightarrow> ([], False, drop (2 + e + 2) rest))
      else if hd rest = CHR 0x27 then
        (let j = 1 + quoted_length (tl rest) in (take j rest, False, drop j rest))
      else if hd rest = CHR ''$'' \<and> dollar_tag rest \<noteq> [] then
        (let tag = dollar_tag rest in
         case index_of (drop (length tag) rest) tag of
           None \<Rightarrow> (rest, False, [])
         | Some e \<Rightarrow> (let n = length tag + e + length tag in (take n rest, False, drop n rest)))
      else if hd rest = CHR '';'' then ([], True, tl rest)
      else ([hd rest], False, tl rest))"

lemma drop_shorter: "0 < n \<Longrightarrow> xs \<noteq> [] \<Longrightarrow> length (drop n xs) < length xs"
  by (cases xs) auto

lemma dropWhile_shorter: "xs \<noteq> [] \<Longrightarrow> P (hd xs) \<Longrightarrow> length (dropWhile P xs) < length xs"
  using length_dropWhile_le [of P "tl xs"] by (cases xs) auto

lemma split_turn_shorter:
  assumes "rest \<noteq> []"
  shows "length (snd (snd (split_turn rest))) < length rest"
proof -
  have comment: "has_prefix rest ''--'' \<Longrightarrow> length (dropWhile (\<lambda>c. c \<noteq> CHR 0x0A) rest) < length rest"
    by (intro dropWhile_shorter) (auto simp: has_prefix_iff)
  have dropped: "0 < n \<Longrightarrow> length (drop n rest) < length rest" for n
    using assms by (rule drop_shorter [rotated])
  have tag: "dollar_tag rest \<noteq> [] \<Longrightarrow> 0 < length (dollar_tag rest) + e + length (dollar_tag rest)" for e
    by (cases "dollar_tag rest") auto
  show ?thesis
    using comment dropped tag assms
    by (simp add: split_turn_def Let_def case_prod_beta split: option.split)
qed

function split_loop :: "string \<Rightarrow> string \<Rightarrow> string list" where
  "split_loop rest buf =
     (if rest = [] then flush buf
      else (case split_turn rest of (add, ends, rest') \<Rightarrow>
        if ends then flush buf @ split_loop rest' [] else split_loop rest' (buf @ add)))"
  by auto
termination
  by (relation "measure (length \<circ> fst)") (auto, (metis split_turn_shorter snd_conv)+)

declare split_loop.simps [simp del]

definition split_statements :: "string \<Rightarrow> string list" where
  "split_statements sql = split_loop sql []"

section \<open>Lock classes\<close>

datatype stmt_class = ReaderSafe | MetadataAEL | RewriteAEL | UnknownClass

text \<open>\<open>strings.ToLower\<close> as far as ASCII text can tell: the Kelvin sign and the dotted I lower to ASCII.\<close>

fun sql_lower :: "string \<Rightarrow> string" where
  "sql_lower [] = []"
| "sql_lower (c # cs) =
     (if has_prefix (c # cs) [CHR 0xE2, CHR 0x84, CHR 0xAA] then CHR ''k'' # sql_lower (drop 2 cs)
      else if has_prefix (c # cs) [CHR 0xC4, CHR 0xB0]
      then [CHR ''i'', CHR 0xCC, CHR 0x87] @ sql_lower (drop 1 cs)
      else lower_ascii c # sql_lower cs)"

definition trim_quotes :: "string \<Rightarrow> string" where
  "trim_quotes s = rev (dropWhile (\<lambda>c. c = CHR 0x22) (rev (dropWhile (\<lambda>c. c = CHR 0x22) s)))"

definition unqualify :: "string \<Rightarrow> string" where
  "unqualify name = sql_lower (trim_quotes (rev (takeWhile (\<lambda>c. c \<noteq> CHR ''.'') (rev name))))"

definition qname :: re where
  "qname = some_of (word_or ''.\"'')"

definition ident :: re where
  "ident = some_of (word_or [CHR 0x22])"

definition kws :: "string list \<Rightarrow> re" where
  "kws ws = seq (map (\<lambda>w. Cat (kw w) sp) ws)"

definition re_alter_table :: re where
  "re_alter_table =
     seq [kws [''alter'', ''table''], opt (kws [''if'', ''exists'']), opt (kws [''only'']), Group qname, sp,
          Group (Rep True any), EndText]"

definition re_table_word :: re where
  "re_table_word =
     seq [Group (any_of [Cat (kw ''truncate'') (opt (Cat sp (kw ''table''))), kw ''cluster'',
                         seq [kw ''vacuum'', sp, kw ''full''],
                         seq [kw ''drop'', sp, kw ''table'', opt (seq [sp, kw ''if'', sp, kw ''exists''])]]),
          sp, opt (kws [''only'']), Group qname]"

definition re_create_table :: re where
  "re_create_table =
     seq [kws [''create''], opt (kws [''unlogged'']), kws [''table''], opt (kws [''if'', ''not'', ''exists'']),
          Group qname]"

definition re_create_index :: re where
  "re_create_index =
     seq [kws [''create''], opt (kws [''unique'']), kws [''index''], opt (kws [''concurrently'']),
          opt (kws [''if'', ''not'', ''exists'']), Rep True (word_or ''.\"''), Rep True (Cls space_char),
          kws [''on''], opt (kws [''only'']), Group qname]"

definition re_create_trigger :: re where
  "re_create_trigger =
     seq [kws [''create''], opt (kws [''or'', ''replace'']), opt (kws [''constraint'']), kws [''trigger''],
          Rep False any, Cls space_char, kws [''on''], Group qname]"

definition re_drop_trigger :: re where
  "re_drop_trigger =
     seq [kws [''drop'', ''trigger''], opt (kws [''if'', ''exists'']), qname, sp, kws [''on''], Group qname]"

definition re_dml :: re where
  "re_dml =
     seq [any_of [seq [kw ''insert'', sp, kw ''into''], kw ''update'', seq [kw ''delete'', sp, kw ''from''],
                  seq [kw ''merge'', sp, kw ''into'']],
          sp, opt (kws [''only'']), Group qname]"

definition re_grant :: re where
  "re_grant =
     seq [any_of [kw ''grant'', kw ''revoke''], Edge, Rep False any, Edge, kws [''on''],
          opt (kws [''table'']), Group qname]"

definition re_const_default :: re where
  "re_const_default =
     seq [Edge, kws [''default''],
          any_of [Cat (opt (lit ''-'')) (Cls (\<lambda>c. c \<in> set ''0123456789'')), lit [CHR 0x27],
                  Cat (kw ''true'') Edge, Cat (kw ''false'') Edge, Cat (kw ''null'') Edge]]"

definition re_any_default :: re where
  "re_any_default = seq [Edge, kw ''default'', Edge]"

definition re_alter_type :: re where
  "re_alter_type =
     seq [Edge, kws [''alter'', ''column''], ident, sp, opt (kws [''set'', ''data'']), kw ''type'', Edge]"

definition re_set_not_null :: re where
  "re_set_not_null = seq [Edge, kws [''set'', ''not''], kw ''null'', Edge]"

definition re_drop_column :: re where
  "re_drop_column = seq [Edge, kws [''drop''], kw ''column'', Edge]"

definition re_validate :: re where
  "re_validate = seq [Edge, kws [''validate''], kw ''constraint'', Edge]"

definition add_named :: "re \<Rightarrow> re" where
  "add_named what = seq [Edge, kws [''add''], opt (seq [kws [''constraint''], ident, sp]), what, Edge]"

definition re_add_fk :: re where
  "re_add_fk = add_named (seq [kws [''foreign''], kw ''key''])"

definition re_add_scan :: re where
  "re_add_scan =
     add_named (any_of [kw ''check'', kw ''unique'', seq [kws [''primary''], kw ''key''], kw ''exclude''])"

definition re_not_valid :: re where
  "re_not_valid = seq [Edge, kws [''not''], kw ''valid'', Edge]"

definition re_using_index :: re where
  "re_using_index = seq [Edge, kws [''using''], kw ''index'', Edge]"

definition re_add_column :: re where
  "re_add_column =
     seq [kws [''add''], opt (kws [''column'']), opt (kws [''if'', ''not'', ''exists'']), ident, Cls space_char]"

definition re_drop_constraint :: re where
  "re_drop_constraint = seq [Edge, kws [''drop''], kw ''constraint'', Edge]"

definition re_set_drop_default :: re where
  "re_set_drop_default =
     seq [Edge, kws [''alter'', ''column''], ident, sp, any_of [kw ''set'', kw ''drop''], sp, kw ''default'', Edge]"

definition re_concurrent_index :: re where
  "re_concurrent_index =
     seq [kws [''create''], opt (kws [''unique'']), kws [''index''], kw ''concurrently'', Cls space_char]"

definition classify_action :: "string \<Rightarrow> stmt_class" where
  "classify_action a =
     (if occurs re_alter_type a then RewriteAEL
      else if occurs re_set_not_null a then RewriteAEL
      else if occurs re_drop_column a then RewriteAEL
      else if has_prefix a ''rename'' then RewriteAEL
      else if occurs re_validate a then ReaderSafe
      else if occurs re_add_fk a then ReaderSafe
      else if occurs re_add_scan a then
        (if occurs re_not_valid a \<or> occurs re_using_index a then MetadataAEL else RewriteAEL)
      else if submatch re_add_column a \<noteq> None then
        (if occurs re_any_default a \<and> \<not> occurs re_const_default a then RewriteAEL else MetadataAEL)
      else if occurs re_drop_constraint a then MetadataAEL
      else if occurs re_set_drop_default a then MetadataAEL
      else UnknownClass)"

definition safe_prefixes :: "string list" where
  "safe_prefixes =
     [''create or replace function'', ''create function'', ''create extension'', ''create sequence'',
      ''create schema'', ''create type'', ''comment on'', ''drop index concurrently'', ''select'',
      ''with'', ''set '']"

text \<open>The first expression of a table that matches decides, with one of its captures.\<close>

definition simple_forms :: "(re \<times> stmt_class \<times> nat) list" where
  "simple_forms =
     [(re_table_word, RewriteAEL, 1), (re_create_table, ReaderSafe, 0), (re_create_index, ReaderSafe, 0),
      (re_create_trigger, ReaderSafe, 0), (re_drop_trigger, MetadataAEL, 0), (re_dml, ReaderSafe, 0),
      (re_grant, ReaderSafe, 0)]"

fun first_form :: "(re \<times> stmt_class \<times> nat) list \<Rightarrow> string \<Rightarrow> (stmt_class \<times> string) option" where
  "first_form [] s = None"
| "first_form ((r, cls, i) # fs) s =
     (case submatch r s of
        Some g \<Rightarrow> Some (cls, unqualify (g ! i))
      | None \<Rightarrow> first_form fs s)"

definition classify_statement :: "string \<Rightarrow> stmt_class \<times> string" where
  "classify_statement stmt =
     (let s = trim_space stmt; low = sql_lower s in
      case submatch re_alter_table s of
        Some g \<Rightarrow> (classify_action (sql_lower (trim_space (g ! 1))), unqualify (g ! 0))
      | None \<Rightarrow>
          (case first_form simple_forms s of
             Some r \<Rightarrow> r
           | None \<Rightarrow>
               if list_ex (has_prefix low) safe_prefixes then (ReaderSafe, []) else (UnknownClass, [])))"

section \<open>Steps and the check\<close>

definition serve_tables :: "string list" where
  "serve_tables = [''mp_element'', ''publication'', ''publication_element'', ''migration_url_map'']"

definition in_serve_set :: "string \<Rightarrow> bool" where
  "in_serve_set t = list_ex (\<lambda>x. x = t) serve_tables"

datatype step_kind = KindTxDDL | KindGuardedDDL | KindConcurrentIndex | KindBatchedDML

text \<open>The batch of a step is a function on the database, in \<open>Schemastep\<close>; the check does not see it.\<close>

record plan_step =
  ps_n :: int
  ps_name :: string
  ps_kind :: step_kind
  ps_sql :: string
  ps_index :: string

datatype check_error =
    NotConcurrent int string
  | MetadataNoTable int string
  | NeedsGuard int string
  | RewriteNoTable int string
  | RewriteOnSet int string string
  | CannotClassify int string

definition first_line :: "string \<Rightarrow> string" where
  "first_line s0 =
     (let more = [CHR '' '', CHR 0xE2, CHR 0x80, CHR 0xA6];
          s1 = trim_space s0;
          s2 = (if CHR 0x0A \<in> set s1 then takeWhile (\<lambda>c. c \<noteq> CHR 0x0A) s1 @ more else s1) in
      if 120 < length s2 then take 120 s2 @ more else s2)"

definition check_statement :: "plan_step \<Rightarrow> string \<Rightarrow> (check_error, unit) result" where
  "check_statement st stmt =
     (case classify_statement stmt of (cls, table) \<Rightarrow>
        (let in_set = (table \<noteq> [] \<and> in_serve_set table) in
         case cls of
           ReaderSafe \<Rightarrow> Inr ()
         | MetadataAEL \<Rightarrow>
             (if table = [] then Inl (MetadataNoTable (ps_n st) (first_line stmt))
              else if in_set \<and> ps_kind st \<noteq> KindGuardedDDL then Inl (NeedsGuard (ps_n st) table)
              else Inr ())
         | RewriteAEL \<Rightarrow>
             (if table = [] then Inl (RewriteNoTable (ps_n st) (first_line stmt))
              else if in_set then Inl (RewriteOnSet (ps_n st) table (first_line stmt))
              else Inr ())
         | UnknownClass \<Rightarrow>
             (if table = [] \<or> in_set then Inl (CannotClassify (ps_n st) (first_line stmt)) else Inr ())))"

fun check_statements :: "plan_step \<Rightarrow> string list \<Rightarrow> (check_error, unit) result" where
  "check_statements st [] = Inr ()"
| "check_statements st (s # ss) = bind_result (check_statement st s) (\<lambda>_. check_statements st ss)"

definition check_concurrent :: "plan_step \<Rightarrow> (check_error, unit) result" where
  "check_concurrent st =
     (case find (\<lambda>s. submatch re_concurrent_index s = None) (split_statements (ps_sql st)) of
        Some s \<Rightarrow> Inl (NotConcurrent (ps_n st) (first_line s))
      | None \<Rightarrow> Inr ())"

definition check_step :: "plan_step \<Rightarrow> (check_error, unit) result" where
  "check_step st =
     (case ps_kind st of
        KindBatchedDML \<Rightarrow> Inr ()
      | KindConcurrentIndex \<Rightarrow> check_concurrent st
      | _ \<Rightarrow> check_statements st (split_statements (ps_sql st)))"

fun check_plan :: "plan_step list \<Rightarrow> (check_error, unit) result" where
  "check_plan [] = Inr ()"
| "check_plan (st # sts) = bind_result (check_step st) (\<lambda>_. check_plan sts)"

end
