(* ===== verification/Schemastep.thy ===== *)
theory Schemastep
  imports Classify "HOL-Library.AList"
begin

text \<open>
  The migration runner of \<open>internal/schemastep/schemastep.go\<close> over the ledger \<open>schema_migration\<close>,
  and the serve role's grants of \<open>internal/serveset\<close>. What a statement does to the schema is a
  parameter (\<open>postgres\<close>); the runner's commits, its reads of the ledger and its retries are
  written out, its waiting for the advisory lock included: the lock's answers are part of the
  environment of the run. Runs that hold the lock are serialised, so a run is a function; it is a
  partial one, since the wait, the retries and the batches are loops.
\<close>

section \<open>The database\<close>

datatype pg_error = LockNotAvailable | SqlError string

datatype index_state = IndexAbsent | IndexValid | IndexInvalid

text \<open>
  \<open>pg_script\<close> runs a script inside a transaction; \<open>pg_build\<close> is one \<open>CREATE INDEX CONCURRENTLY\<close>,
  which can fail and still leave an index behind.
\<close>

record 'd postgres =
  pg_script :: "string \<Rightarrow> 'd \<Rightarrow> (pg_error, 'd) result"
  pg_build :: "string \<Rightarrow> 'd \<Rightarrow> pg_error option \<times> 'd"
  pg_index :: "string \<Rightarrow> 'd \<Rightarrow> index_state"
  pg_drop_index :: "string \<Rightarrow> 'd \<Rightarrow> (pg_error, 'd) result"
  pg_sha :: "string \<Rightarrow> string"
  pg_batch :: "int \<Rightarrow> 'd \<Rightarrow> (pg_error, bool \<times> 'd) result"

record 'd mdb =
  ledger :: "((string \<times> int) \<times> (string \<times> string)) list"
  schema_of :: 'd

datatype run_error =
    PlanRefused check_error
  | LockPollFailed pg_error
  | HistoryEdited int string string
  | StepFailed pg_error
  | StillBlocked nat
  | RunCancelled
  | NoIndexName

text \<open>
  The answer of one poll of \<open>pg_try_advisory_lock\<close>: the query fails, the lock is granted, or another
  session holds it; then the run sleeps, and is cancelled in the sleep or polls again.
\<close>

datatype lock_poll = PollFailed pg_error | PollGranted | PollHeld bool

text \<open>
  What the environment does to a run: the answers to its polls for the lock, in their order, and to the
  attempts of a guarded step the lock conflicts and the cancellation.
\<close>

record run_env =
  re_lock :: "nat \<Rightarrow> lock_poll"
  re_blocked :: "int \<Rightarrow> nat \<Rightarrow> bool"
  re_cancel :: "int \<Rightarrow> nat \<Rightarrow> bool"

definition guard_attempts :: nat where
  "guard_attempts = 20"

definition step_sha :: "'d postgres \<Rightarrow> plan_step \<Rightarrow> string" where
  "step_sha P s = (if ps_kind s = KindBatchedDML then [] else pg_sha P (ps_sql s))"

definition short_sha :: "string \<Rightarrow> string" where
  "short_sha s = (if 12 < length s then take 12 s else if s = [] then ''(empty)'' else s)"

section \<open>Executing a step\<close>

text \<open>The script and its ledger row, in one transaction; the row violates the key if it is there.\<close>

definition tx_attempt :: "'d postgres \<Rightarrow> string \<Rightarrow> plan_step \<Rightarrow> string \<Rightarrow> 'd mdb \<Rightarrow> (pg_error, 'd mdb) result" where
  "tx_attempt P pkg s sha db =
     (case pg_script P (ps_sql s) (schema_of db) of
        Inl e \<Rightarrow> Inl e
      | Inr d \<Rightarrow>
          (if map_of (ledger db) (pkg, ps_n s) \<noteq> None then Inl (SqlError ''unique_violation'')
           else Inr (db\<lparr>ledger := ledger db @ [((pkg, ps_n s), (ps_name s, sha))], schema_of := d\<rparr>)))"

text \<open>Attempt \<open>i\<close>: a guarded one runs under \<open>lock_timeout\<close> and gives up when it is blocked.\<close>

definition tx_try ::
  "'d postgres \<Rightarrow> run_env \<Rightarrow> string \<Rightarrow> plan_step \<Rightarrow> string \<Rightarrow> bool \<Rightarrow> nat \<Rightarrow> 'd mdb \<Rightarrow> (pg_error, 'd mdb) result" where
  "tx_try P env pkg s sha guarded i db =
     (if guarded \<and> re_blocked env (ps_n s) i then Inl LockNotAvailable else tx_attempt P pkg s sha db)"

partial_function (option) tx_loop ::
  "'d postgres \<Rightarrow> run_env \<Rightarrow> string \<Rightarrow> plan_step \<Rightarrow> string \<Rightarrow> bool \<Rightarrow> nat \<Rightarrow> nat \<Rightarrow> 'd mdb
     \<Rightarrow> (run_error, 'd mdb) result option" where
  "tx_loop P env pkg s sha guarded attempts i db =
     (if \<not> i < attempts then Some (Inl (StillBlocked attempts))
      else if 0 < i \<and> re_cancel env (ps_n s) i then Some (Inl RunCancelled)
      else (case tx_try P env pkg s sha guarded i db of
              Inr db' \<Rightarrow> Some (Inr db')
            | Inl e \<Rightarrow>
                if \<not> guarded \<or> e \<noteq> LockNotAvailable then Some (Inl (StepFailed e))
                else tx_loop P env pkg s sha guarded attempts (Suc i) db))"

definition run_tx_ddl ::
  "'d postgres \<Rightarrow> run_env \<Rightarrow> string \<Rightarrow> plan_step \<Rightarrow> string \<Rightarrow> bool \<Rightarrow> 'd mdb \<Rightarrow> ((run_error, unit) result \<times> 'd mdb) option" where
  "run_tx_ddl P env pkg s sha guarded db =
     (case tx_loop P env pkg s sha guarded (if guarded then guard_attempts else 1) 0 db of
        None \<Rightarrow> None
      | Some (Inl e) \<Rightarrow> Some (Inl e, db)
      | Some (Inr db') \<Rightarrow> Some (Inr (), db'))"

definition record_step :: "string \<Rightarrow> plan_step \<Rightarrow> string \<Rightarrow> 'd mdb \<Rightarrow> 'd mdb" where
  "record_step pkg s sha db =
     (if map_of (ledger db) (pkg, ps_n s) \<noteq> None then db
      else db\<lparr>ledger := ledger db @ [((pkg, ps_n s), (ps_name s, sha))]\<rparr>)"

definition build_index ::
  "'d postgres \<Rightarrow> string \<Rightarrow> plan_step \<Rightarrow> string \<Rightarrow> 'd mdb \<Rightarrow> (run_error, unit) result \<times> 'd mdb" where
  "build_index P pkg s sha db =
     (case pg_build P (ps_sql s) (schema_of db) of
        (Some e, d) \<Rightarrow> (Inl (StepFailed e), db\<lparr>schema_of := d\<rparr>)
      | (None, d) \<Rightarrow> (Inr (), record_step pkg s sha (db\<lparr>schema_of := d\<rparr>)))"

definition run_concurrent_index ::
  "'d postgres \<Rightarrow> string \<Rightarrow> plan_step \<Rightarrow> string \<Rightarrow> 'd mdb \<Rightarrow> (run_error, unit) result \<times> 'd mdb" where
  "run_concurrent_index P pkg s sha db =
     (if ps_index s = [] then (Inl NoIndexName, db)
      else (case pg_index P (ps_index s) (schema_of db) of
              IndexInvalid \<Rightarrow>
                (case pg_drop_index P (ps_index s) (schema_of db) of
                   Inl e \<Rightarrow> (Inl (StepFailed e), db)
                 | Inr d \<Rightarrow> build_index P pkg s sha (db\<lparr>schema_of := d\<rparr>))
            | IndexAbsent \<Rightarrow> build_index P pkg s sha db
            | IndexValid \<Rightarrow> (Inr (), record_step pkg s sha db)))"

text \<open>The batches run until one reports that it is done; a step that never does never returns.\<close>

partial_function (option) batch_loop ::
  "('d \<Rightarrow> (pg_error, bool \<times> 'd) result) \<Rightarrow> 'd \<Rightarrow> ((run_error, unit) result \<times> 'd) option" where
  "batch_loop b d =
     (case b d of
        Inl e \<Rightarrow> Some (Inl (StepFailed e), d)
      | Inr (fin, d') \<Rightarrow> if fin then Some (Inr (), d') else batch_loop b d')"

definition run_batched ::
  "'d postgres \<Rightarrow> string \<Rightarrow> plan_step \<Rightarrow> string \<Rightarrow> 'd mdb \<Rightarrow> ((run_error, unit) result \<times> 'd mdb) option" where
  "run_batched P pkg s sha db =
     (case batch_loop (pg_batch P (ps_n s)) (schema_of db) of
        None \<Rightarrow> None
      | Some (Inl e, d) \<Rightarrow> Some (Inl e, db\<lparr>schema_of := d\<rparr>)
      | Some (Inr u, d) \<Rightarrow> Some (Inr (), record_step pkg s sha (db\<lparr>schema_of := d\<rparr>)))"

definition run_step ::
  "'d postgres \<Rightarrow> run_env \<Rightarrow> string \<Rightarrow> plan_step \<Rightarrow> string \<Rightarrow> 'd mdb \<Rightarrow> ((run_error, unit) result \<times> 'd mdb) option" where
  "run_step P env pkg s sha db =
     (case ps_kind s of
        KindTxDDL \<Rightarrow> run_tx_ddl P env pkg s sha False db
      | KindGuardedDDL \<Rightarrow> run_tx_ddl P env pkg s sha True db
      | KindConcurrentIndex \<Rightarrow> Some (run_concurrent_index P pkg s sha db)
      | KindBatchedDML \<Rightarrow> run_batched P pkg s sha db)"

section \<open>A run\<close>

text \<open>The ledger is read once, before the first step.\<close>

definition applied_steps :: "string \<Rightarrow> 'd mdb \<Rightarrow> int \<Rightarrow> string option" where
  "applied_steps pkg db n = map_option snd (map_of (ledger db) (pkg, n))"

fun run_steps ::
  "'d postgres \<Rightarrow> run_env \<Rightarrow> string \<Rightarrow> (int \<Rightarrow> string option) \<Rightarrow> plan_step list \<Rightarrow> nat \<Rightarrow> 'd mdb
     \<Rightarrow> ((run_error, nat) result \<times> 'd mdb) option" where
  "run_steps P env pkg applied [] executed db = Some (Inr executed, db)"
| "run_steps P env pkg applied (s # ss) executed db =
     (case applied (ps_n s) of
        Some prev \<Rightarrow>
          if ps_kind s \<noteq> KindBatchedDML \<and> prev \<noteq> step_sha P s
          then Some (Inl (HistoryEdited (ps_n s) (short_sha prev) (short_sha (step_sha P s))), db)
          else run_steps P env pkg applied ss executed db
      | None \<Rightarrow>
          (case run_step P env pkg s (step_sha P s) db of
             None \<Rightarrow> None
           | Some (Inl e, db') \<Rightarrow> Some (Inl e, db')
           | Some (Inr u, db') \<Rightarrow> run_steps P env pkg applied ss (Suc executed) db'))"

text \<open>The wait for the advisory lock: poll and sleep, until an answer, an error or the cancellation.\<close>

partial_function (option) lock_loop :: "(nat \<Rightarrow> lock_poll) \<Rightarrow> nat \<Rightarrow> (run_error, unit) result option" where
  "lock_loop polls n =
     (case polls n of
        PollFailed e \<Rightarrow> Some (Inl (LockPollFailed e))
      | PollGranted \<Rightarrow> Some (Inr ())
      | PollHeld cancelled \<Rightarrow> if cancelled then Some (Inl RunCancelled) else lock_loop polls (Suc n))"

definition run_plan ::
  "'d postgres \<Rightarrow> run_env \<Rightarrow> string \<Rightarrow> plan_step list \<Rightarrow> 'd mdb
     \<Rightarrow> ((run_error, nat) result \<times> 'd mdb) option" where
  "run_plan P env pkg steps db =
     (case check_plan steps of
        Inl e \<Rightarrow> Some (Inl (PlanRefused e), db)
      | Inr u \<Rightarrow>
          (case lock_loop (re_lock env) 0 of
             None \<Rightarrow> None
           | Some (Inl e) \<Rightarrow> Some (Inl e, db)
           | Some (Inr v) \<Rightarrow> run_steps P env pkg (applied_steps pkg db) steps 0 db))"

section \<open>The serve role\<close>

record role_db =
  rd_role :: "string option"
  rd_usage :: bool
  rd_tables :: "string list"
  rd_select :: "string list"

definition sql_escape :: "string \<Rightarrow> string" where
  "sql_escape s = concat (map (\<lambda>c. if c = CHR 0x27 then [c, c] else [c]) s)"

fun grant_tables :: "string list \<Rightarrow> role_db \<Rightarrow> role_db" where
  "grant_tables [] db = db"
| "grant_tables (t # ts) db =
     (if t \<notin> set (rd_tables db) then grant_tables ts db
      else if t \<in> set (rd_select db) then grant_tables ts db
      else grant_tables ts (db\<lparr>rd_select := rd_select db @ [t]\<rparr>))"

text \<open>\<open>racing\<close>: another replica's \<open>create role\<close> with that password came first.\<close>

definition ensure_role :: "string option \<Rightarrow> string \<Rightarrow> role_db \<Rightarrow> role_db" where
  "ensure_role racing password db =
     (let db1 = (if rd_role db \<noteq> None then db
                 else db\<lparr>rd_role := Some (case racing of Some p \<Rightarrow> p | None \<Rightarrow> password)\<rparr>);
          db2 = (if rd_usage db1 then db1 else db1\<lparr>rd_usage := True\<rparr>)
      in grant_tables serve_tables db2)"

end
