(* ===== verification/SchemastepProps.thy ===== *)
theory SchemastepProps
  imports Schemastep
begin

text \<open>
  What the migration runner guarantees: an accepted plan takes no rewrite lock the classifier sees on
  the serve-read set, a completed plan is skipped by every later boot, a crash at any commit is
  resumed to the same database, and batched steps with a decreasing measure end.
\<close>

section \<open>The plan check\<close>

lemma check_plan_step: "check_plan sts = Inr () \<Longrightarrow> st \<in> set sts \<Longrightarrow> check_step st = Inr ()"
  by (induction sts) auto

lemma check_statements_each:
  "check_statements st ss = Inr () \<Longrightarrow> s \<in> set ss \<Longrightarrow> check_statement st s = Inr ()"
  by (induction ss) auto

definition is_transactional :: "plan_step \<Rightarrow> bool" where
  "is_transactional st = (ps_kind st = KindTxDDL \<or> ps_kind st = KindGuardedDDL)"

lemma check_statement_serve:
  assumes "check_statement st s = Inr ()" and "in_serve_set (snd (classify_statement s))"
  shows "fst (classify_statement s) = ReaderSafe \<or>
         (fst (classify_statement s) = MetadataAEL \<and> ps_kind st = KindGuardedDDL)"
proof -
  have "\<not> in_serve_set []" by (simp add: in_serve_set_def serve_tables_def)
  then have "snd (classify_statement s) \<noteq> []" using assms(2) by auto
  then show ?thesis
    using assms by (cases "fst (classify_statement s)") (auto simp: check_statement_def case_prod_beta split: if_splits)
qed

section \<open>What a step does to the ledger\<close>

lemma tx_attempt_Inr:
  "tx_attempt P pkg s sha db = Inr db' \<longleftrightarrow>
     (\<exists>d. pg_script P (ps_sql s) (schema_of db) = Inr d \<and> map_of (ledger db) (pkg, ps_n s) = None \<and>
        db' = db\<lparr>ledger := ledger db @ [((pkg, ps_n s), (ps_name s, sha))], schema_of := d\<rparr>)"
  by (cases "map_of (ledger db) (pkg, ps_n s)") (auto simp: tx_attempt_def split: sum.splits)

text \<open>The retry loop ends, since its counter reaches the number of attempts.\<close>

lemma tx_loop_returns: "\<exists>r. tx_loop P env pkg s sha g a i db = Some r"
proof (induction "a - i" arbitrary: i rule: less_induct)
  case less
  then show ?case using less.hyps [of "Suc i"] by (subst tx_loop.simps) (auto split: sum.splits)
qed

lemma tx_loop_Inr: "tx_loop P env pkg s sha g a i db = Some (Inr db') \<Longrightarrow> tx_attempt P pkg s sha db = Inr db'"
proof (induction "a - i" arbitrary: i rule: less_induct)
  case less
  show ?case
    using less.prems less.hyps [OF diff_less_mono2 [OF lessI]]
    by (subst (asm) tx_loop.simps) (auto simp: tx_try_def split: if_splits sum.splits)
qed

lemma all_from:
  fixes i a :: nat
  assumes "i < a"
  shows "(\<forall>j. i \<le> j \<and> j < a \<longrightarrow> Q j) \<longleftrightarrow> Q i \<and> (\<forall>j. Suc i \<le> j \<and> j < a \<longrightarrow> Q j)"
proof (intro iffI conjI allI impI)
  fix j assume q: "Q i \<and> (\<forall>j. Suc i \<le> j \<and> j < a \<longrightarrow> Q j)" and j: "i \<le> j \<and> j < a"
  show "Q j"
  proof (cases "j = i")
    case False
    then have "Suc i \<le> j" using j by simp
    then show ?thesis using q j by blast
  qed (use q in simp)
qed (use assms in simp_all)

text \<open>It gives up exactly when every attempt met the lock and no cancellation came between them.\<close>

lemma tx_loop_blocked:
  assumes "i \<le> a"
  shows "tx_loop P env pkg s sha True a i db = Some (Inl (StillBlocked n)) \<longleftrightarrow>
    n = a \<and> (\<forall>j. i \<le> j \<and> j < a \<longrightarrow>
      tx_try P env pkg s sha True j db = Inl LockNotAvailable \<and> (0 < j \<longrightarrow> \<not> re_cancel env (ps_n s) j))"
  using assms
proof (induction "a - i" arbitrary: i rule: less_induct)
  case less
  let ?ok = "\<lambda>j. tx_try P env pkg s sha True j db = Inl LockNotAvailable \<and> (0 < j \<longrightarrow> \<not> re_cancel env (ps_n s) j)"
  show ?case
  proof (cases "i < a")
    case False
    then show ?thesis using less.prems by (subst tx_loop.simps) auto
  next
    case True
    note split = all_from [OF True, of ?ok]
    have IH: "tx_loop P env pkg s sha True a (Suc i) db = Some (Inl (StillBlocked n)) \<longleftrightarrow>
        n = a \<and> (\<forall>j. Suc i \<le> j \<and> j < a \<longrightarrow> ?ok j)"
      using less.hyps [of "Suc i"] True by simp
    have "tx_loop P env pkg s sha True a i db = Some (Inl (StillBlocked n)) \<longleftrightarrow>
        ?ok i \<and> tx_loop P env pkg s sha True a (Suc i) db = Some (Inl (StillBlocked n))"
      using True tx_loop.simps [of P env pkg s sha True a i db]
      by (cases "tx_try P env pkg s sha True i db") auto
    then show ?thesis unfolding split IH by blast
  qed
qed

text \<open>An environment that grants the lock at some poll and neither blocks nor cancels.\<close>

definition granted_at :: "run_env \<Rightarrow> nat \<Rightarrow> bool" where
  "granted_at env n = (re_lock env n = PollGranted \<and> list_all (\<lambda>m. re_lock env m = PollHeld False) [0..<n])"

definition calm :: "run_env \<Rightarrow> bool" where
  "calm env = ((\<exists>n. granted_at env n) \<and> (\<forall>n i. \<not> re_blocked env n i \<and> \<not> re_cancel env n i))"

lemma lock_loop_held:
  "list_all (\<lambda>m. polls m = PollHeld False) [i..<i + k] \<Longrightarrow> lock_loop polls i = lock_loop polls (i + k)"
proof (induction k arbitrary: i)
  case (Suc k)
  have held: "polls i = PollHeld False" using Suc.prems by (auto simp: list_all_iff)
  have "list_all (\<lambda>m. polls m = PollHeld False) [Suc i..<Suc i + k]"
    using Suc.prems by (auto simp: list_all_iff)
  from Suc.IH [OF this] have "lock_loop polls (Suc i) = lock_loop polls (i + Suc k)" by simp
  moreover have "lock_loop polls i = lock_loop polls (Suc i)" using held by (subst lock_loop.simps) simp
  ultimately show ?case by simp
qed simp

lemma lock_loop_granted: "granted_at env n \<Longrightarrow> lock_loop (re_lock env) 0 = Some (Inr ())"
  using lock_loop_held [of "re_lock env" 0 n] lock_loop.simps [of "re_lock env" n] by (simp add: granted_at_def)

lemma lock_loop_Some: "lock_loop polls i = Some r \<Longrightarrow> \<exists>n. polls n \<noteq> PollHeld False"
proof (erule lock_loop.raw_induct [rotated])
  fix lock_loop :: "(nat \<Rightarrow> lock_poll) \<Rightarrow> nat \<Rightarrow> (run_error, unit) result option" and polls n r
  assume "\<And>polls n r. lock_loop polls n = Some r \<Longrightarrow> \<exists>n. polls n \<noteq> PollHeld False"
    and "(case polls n of PollFailed e \<Rightarrow> Some (Inl (LockPollFailed e)) | PollGranted \<Rightarrow> Some (Inr ())
       | PollHeld cancelled \<Rightarrow> if cancelled then Some (Inl RunCancelled) else lock_loop polls (Suc n)) = Some r"
  then show "\<exists>n. polls n \<noteq> PollHeld False"
    by (cases "polls n = PollHeld False") auto
qed

lemma lock_loop_ends:
  assumes "polls n \<noteq> PollHeld False" shows "lock_loop polls 0 \<noteq> None"
proof -
  define k where "k = (LEAST n. polls n \<noteq> PollHeld False)"
  have k: "polls k \<noteq> PollHeld False" unfolding k_def using assms by (rule LeastI)
  have "polls m = PollHeld False" if "m < k" for m using not_less_Least [OF that [unfolded k_def]] by simp
  then have "lock_loop polls 0 = lock_loop polls (0 + k)"
    by (intro lock_loop_held) (simp add: list_all_iff)
  moreover have "lock_loop polls k \<noteq> None"
    using k by (subst lock_loop.simps) (auto split: lock_poll.split)
  ultimately show ?thesis by simp
qed

lemma lock_loop_None: "lock_loop polls 0 = None \<longleftrightarrow> (\<forall>n. polls n = PollHeld False)"
  using lock_loop_Some [of polls 0] lock_loop_ends [of polls] by (cases "lock_loop polls 0") auto

lemma lock_loop_Inr: "lock_loop (re_lock env) 0 = Some (Inr u) \<Longrightarrow> \<exists>n. granted_at env n"
proof -
  assume a: "lock_loop (re_lock env) 0 = Some (Inr u)"
  then obtain n where "re_lock env n \<noteq> PollHeld False" using lock_loop_None [of "re_lock env"] by auto
  define k where "k = (LEAST n. re_lock env n \<noteq> PollHeld False)"
  have "list_all (\<lambda>m. re_lock env m = PollHeld False) [0..<k]"
    using not_less_Least by (fastforce simp: k_def list_all_iff)
  moreover have "re_lock env k \<noteq> PollHeld False"
    unfolding k_def using \<open>re_lock env n \<noteq> PollHeld False\<close> by (rule LeastI)
  moreover have "lock_loop (re_lock env) k = Some (Inr u)"
    using a lock_loop_held [of "re_lock env" 0 k] calculation(1) by simp
  ultimately show ?thesis
    by (subst (asm) lock_loop.simps) (auto simp: granted_at_def split: lock_poll.splits if_splits)
qed

lemma run_tx_calm:
  assumes "tx_attempt P pkg s sha db = Inr db'" and "calm env"
  shows "run_tx_ddl P env pkg s sha g db = Some (Inr (), db')"
  using assms unfolding run_tx_ddl_def
  by (subst tx_loop.simps) (auto simp: guard_attempts_def calm_def tx_try_def)

lemma run_tx_Inr:
  "run_tx_ddl P env pkg s sha g db = Some (Inr u, db') \<Longrightarrow> tx_attempt P pkg s sha db = Inr db'"
  by (auto simp: run_tx_ddl_def dest: tx_loop_Inr split: option.splits sum.splits)

definition recorded :: "'d mdb \<Rightarrow> string \<Rightarrow> int \<Rightarrow> (string \<times> string) option" where
  "recorded db pkg n = map_of (ledger db) (pkg, n)"

lemma recorded_schema [simp]: "recorded (db\<lparr>schema_of := d\<rparr>) pkg n = recorded db pkg n"
  by (simp add: recorded_def)

lemma record_step_recorded:
  "recorded (record_step pkg s sha db) p n =
     (if (p, n) = (pkg, ps_n s) \<and> recorded db pkg (ps_n s) = None then Some (ps_name s, sha)
      else recorded db p n)"
  by (auto simp: record_step_def recorded_def map_of_append map_add_def split: option.splits)

lemma record_step_schema [simp]: "schema_of (record_step pkg s sha db) = schema_of db"
  by (simp add: record_step_def)

lemma tx_attempt_recorded:
  "tx_attempt P pkg s sha db = Inr db' \<Longrightarrow>
     recorded db' p n =
       (if (p, n) = (pkg, ps_n s) then Some (ps_name s, sha) else recorded db p n)"
  by (auto simp: tx_attempt_Inr recorded_def map_of_append map_add_def split: option.splits)

lemma build_index_Inr:
  "build_index P pkg s sha db = (Inr u, db') \<longleftrightarrow>
     (\<exists>d. pg_build P (ps_sql s) (schema_of db) = (None, d) \<and>
        db' = record_step pkg s sha (db\<lparr>schema_of := d\<rparr>))"
  by (auto simp: build_index_def split: prod.splits option.splits)

lemma run_batched_Inr:
  "run_batched P pkg s sha db = Some (Inr u, db') \<longleftrightarrow>
     (\<exists>d. batch_loop (pg_batch P (ps_n s)) (schema_of db) = Some (Inr (), d) \<and>
        db' = record_step pkg s sha (db\<lparr>schema_of := d\<rparr>))"
  by (auto simp: run_batched_def split: option.splits prod.splits sum.splits)

lemma run_step_recorded:
  assumes "run_step P env pkg s sha db = Some (Inr u, db')" and "recorded db pkg (ps_n s) = None"
  shows "recorded db' p n =
           (if (p, n) = (pkg, ps_n s) then Some (ps_name s, sha) else recorded db p n)"
  using assms
  by (auto simp: run_step_def run_concurrent_index_def run_batched_Inr build_index_Inr record_step_recorded
      dest!: run_tx_Inr tx_attempt_recorded [where p = p and n = n]
      split: step_kind.splits if_splits index_state.splits sum.splits)

lemma applied_recorded: "applied_steps pkg db n = map_option snd (recorded db pkg n)"
  by (simp add: applied_steps_def recorded_def)

section \<open>Completed plans are skipped\<close>

text \<open>What a ledger says of a step it holds and the plan has not edited.\<close>

definition holds_step :: "'d postgres \<Rightarrow> (int \<Rightarrow> string option) \<Rightarrow> plan_step \<Rightarrow> bool" where
  "holds_step P applied s =
     (case applied (ps_n s) of
        None \<Rightarrow> False
      | Some prev \<Rightarrow> ps_kind s = KindBatchedDML \<or> prev = step_sha P s)"

lemma run_steps_skips:
  assumes "list_all (holds_step P applied) steps"
  shows "run_steps P env pkg applied steps k db = Some (Inr k, db)"
  using assms by (induction steps) (auto simp: holds_step_def split: option.splits)

lemma run_steps_keeps:
  assumes "run_steps P env pkg applied steps k db = Some (Inr m, db')" and "n \<notin> ps_n ` set steps"
    and "distinct (map ps_n steps)"
    and "\<And>s. s \<in> set steps \<Longrightarrow> applied (ps_n s) = None \<Longrightarrow> recorded db pkg (ps_n s) = None"
  shows "recorded db' pkg n = recorded db pkg n"
  using assms
proof (induction steps arbitrary: k db)
  case (Cons s ss)
  show ?case
  proof (cases "applied (ps_n s)")
    case None
    then obtain db1 where step: "run_step P env pkg s (step_sha P s) db = Some (Inr (), db1)"
      and rest: "run_steps P env pkg applied ss (Suc k) db1 = Some (Inr m, db')"
      using Cons.prems(1) by (auto split: option.splits prod.splits sum.splits)
    have fresh: "recorded db pkg (ps_n s) = None" using Cons.prems(4) None by simp
    have r: "recorded db1 pkg j = recorded db pkg j" if "j \<noteq> ps_n s" for j
      using run_step_recorded [OF step fresh, of pkg j] that by simp
    have "recorded db1 pkg (ps_n t) = None" if "t \<in> set ss" "applied (ps_n t) = None" for t
    proof -
      have "ps_n s \<notin> ps_n ` set ss" using Cons.prems(3) by simp
      then have "ps_n t \<noteq> ps_n s" using that(1) by (metis imageI)
      then show ?thesis using Cons.prems(4) [of t] that r by simp
    qed
    then have "recorded db' pkg n = recorded db1 pkg n"
      using Cons.prems(2,3) by (intro Cons.IH [OF rest]) auto
    then show ?thesis using r Cons.prems(2) by simp
  next
    case (Some prev)
    then show ?thesis using Cons by (auto split: if_splits)
  qed
qed simp

lemma run_steps_completes:
  assumes "run_steps P env pkg applied steps k db = Some (Inr m, db')"
    and "distinct (map ps_n steps)"
    and "\<And>s. s \<in> set steps \<Longrightarrow> applied (ps_n s) = map_option snd (recorded db pkg (ps_n s))"
  shows "list_all (holds_step P (applied_steps pkg db')) steps"
  using assms
proof (induction steps arbitrary: k db)
  case (Cons s ss)
  have fresh: "applied (ps_n t) = None \<Longrightarrow> recorded db pkg (ps_n t) = None" if "t \<in> set (s # ss)" for t
    using Cons.prems(3) [OF that] by simp
  have head_not: "ps_n s \<notin> ps_n ` set ss" using Cons.prems(2) by simp
  show ?case
  proof (cases "applied (ps_n s)")
    case None
    then obtain db1 where step: "run_step P env pkg s (step_sha P s) db = Some (Inr (), db1)"
      and rest: "run_steps P env pkg applied ss (Suc k) db1 = Some (Inr m, db')"
      using Cons.prems(1) by (auto split: option.splits prod.splits sum.splits)
    have r: "recorded db1 pkg j = (if j = ps_n s then Some (ps_name s, step_sha P s) else recorded db pkg j)" for j
      using run_step_recorded [OF step, of pkg j] fresh [of s] None by simp
    have same: "applied (ps_n t) = map_option snd (recorded db1 pkg (ps_n t))" if "t \<in> set ss" for t
    proof -
      have "ps_n t \<noteq> ps_n s" using that head_not by (metis imageI)
      then show ?thesis using Cons.prems(3) [of t] that r by simp
    qed
    have "recorded db' pkg (ps_n s) = recorded db1 pkg (ps_n s)"
      using Cons.prems(2) head_not same by (intro run_steps_keeps [OF rest]) auto
    then have "holds_step P (applied_steps pkg db') s"
      by (simp add: holds_step_def applied_recorded r)
    moreover have "list_all (holds_step P (applied_steps pkg db')) ss"
      using Cons.prems(2) same by (intro Cons.IH [OF rest]) auto
    ultimately show ?thesis by simp
  next
    case (Some prev)
    then have ok: "ps_kind s = KindBatchedDML \<or> prev = step_sha P s"
      and rest: "run_steps P env pkg applied ss k db = Some (Inr m, db')"
      using Cons.prems(1) by (auto split: if_splits)
    have "recorded db' pkg (ps_n s) = recorded db pkg (ps_n s)"
      using Cons.prems(2) head_not fresh by (intro run_steps_keeps [OF rest]) auto
    then have "holds_step P (applied_steps pkg db') s"
      using Some ok Cons.prems(3) [of s] by (auto simp: holds_step_def applied_recorded)
    moreover have "list_all (holds_step P (applied_steps pkg db')) ss"
      using Cons.prems(2,3) by (intro Cons.IH [OF rest]) auto
    ultimately show ?thesis by simp
  qed
qed simp

section \<open>Batches\<close>

text \<open>The schema after \<open>n\<close> batches in a row that reported work left.\<close>

fun after_batches :: "('d \<Rightarrow> (pg_error, bool \<times> 'd) result) \<Rightarrow> nat \<Rightarrow> 'd \<Rightarrow> 'd option" where
  "after_batches b 0 d = Some d"
| "after_batches b (Suc n) d =
     (case b d of Inl e \<Rightarrow> None | Inr (fin, d') \<Rightarrow> if fin then None else after_batches b n d')"

lemma batch_loop_Some: "batch_loop b d = Some r \<Longrightarrow> \<exists>n. after_batches b n d = None"
proof (erule batch_loop.raw_induct [rotated])
  fix batch_loop :: "('d \<Rightarrow> (pg_error, bool \<times> 'd) result) \<Rightarrow> 'd \<Rightarrow> ((run_error, unit) result \<times> 'd) option"
    and b :: "'d \<Rightarrow> (pg_error, bool \<times> 'd) result" and d r
  assume IH: "\<And>b d r. batch_loop b d = Some r \<Longrightarrow> \<exists>n. after_batches b n d = None"
    and step: "(case b d of Inl e \<Rightarrow> Some (Inl (StepFailed e), d)
       | Inr (fin, d') \<Rightarrow> if fin then Some (Inr (), d') else batch_loop b d') = Some r"
  show "\<exists>n. after_batches b n d = None"
  proof (cases "\<exists>d'. b d = Inr (False, d')")
    case True
    then obtain d' where d': "b d = Inr (False, d')" by blast
    then obtain n where "after_batches b n d' = None" using IH [of b d' r] step by auto
    then show ?thesis using d' by (intro exI [of _ "Suc n"]) simp
  next
    case False
    then have "after_batches b (Suc 0) d = None" by (auto split: sum.split)
    then show ?thesis by blast
  qed
qed

lemma batch_loop_returns: "after_batches b n d = None \<Longrightarrow> batch_loop b d \<noteq> None"
proof (induction n arbitrary: d)
  case (Suc n)
  then show ?case by (subst batch_loop.simps) (auto split: sum.splits prod.splits if_splits)
qed simp

lemma batch_loop_None: "batch_loop b d = None \<longleftrightarrow> (\<forall>n. after_batches b n d \<noteq> None)"
  using batch_loop_Some [of b d] batch_loop_returns [of b _ d] by (cases "batch_loop b d") auto

text \<open>A measure that every unfinished batch decreases bounds their number.\<close>

lemma after_batches_bound:
  assumes "\<And>d d'. b d = Inr (False, d') \<Longrightarrow> left d' < (left d :: nat)" and "after_batches b n d = Some d'"
  shows "left d' + n \<le> left d"
  using assms(2)
proof (induction n arbitrary: d)
  case (Suc n)
  then obtain d1 where d1: "b d = Inr (False, d1)" "after_batches b n d1 = Some d'"
    by (auto split: sum.splits prod.splits if_splits)
  then show ?case using Suc.IH [of d1] assms(1) [of d d1] by simp
qed simp

section \<open>When a run does not return\<close>

lemma run_step_None:
  "run_step P env pkg s sha db = None \<longleftrightarrow>
     ps_kind s = KindBatchedDML \<and> (\<forall>n. after_batches (pg_batch P (ps_n s)) n (schema_of db) \<noteq> None)"
proof -
  have "run_tx_ddl P env pkg s sha g db \<noteq> None" for g
    using tx_loop_returns [of P env pkg s sha g "if g then guard_attempts else 1" 0 db] unfolding run_tx_ddl_def
    by (elim exE) (simp only: option.case split: sum.split, simp)
  moreover have "run_batched P pkg s sha db = None \<longleftrightarrow> batch_loop (pg_batch P (ps_n s)) (schema_of db) = None"
    by (auto simp: run_batched_def split: option.split sum.split)
  ultimately show ?thesis by (cases "ps_kind s") (auto simp: run_step_def batch_loop_None)
qed

text \<open>The step at which a run of the steps is caught for ever.\<close>

definition caught_at ::
  "'d postgres \<Rightarrow> run_env \<Rightarrow> string \<Rightarrow> (int \<Rightarrow> string option) \<Rightarrow> plan_step list \<Rightarrow> nat \<Rightarrow> 'd mdb \<Rightarrow> plan_step \<Rightarrow> bool" where
  "caught_at P env pkg applied steps k db s =
     (\<exists>pre rest m d. steps = pre @ s # rest \<and> run_steps P env pkg applied pre k db = Some (Inr m, d) \<and>
        applied (ps_n s) = None \<and> ps_kind s = KindBatchedDML \<and>
        (\<forall>n. after_batches (pg_batch P (ps_n s)) n (schema_of d) \<noteq> None))"

lemma run_steps_None:
  "run_steps P env pkg applied steps k db = None \<longleftrightarrow> (\<exists>s. caught_at P env pkg applied steps k db s)"
proof
  show "run_steps P env pkg applied steps k db = None \<Longrightarrow> \<exists>s. caught_at P env pkg applied steps k db s"
  proof (induction steps arbitrary: k db)
    case (Cons s ss)
    have lift: "\<exists>t. caught_at P env pkg applied (s # ss) k db t"
      if "run_steps P env pkg applied ss k1 db1 = None" and "run_steps P env pkg applied [s] k db = Some (Inr k1, db1)"
      for k1 db1
    proof -
      from Cons.IH [OF that(1)] obtain t pre rest m d where t: "ss = pre @ t # rest"
          "run_steps P env pkg applied pre k1 db1 = Some (Inr m, d)" "applied (ps_n t) = None"
          "ps_kind t = KindBatchedDML" "\<forall>n. after_batches (pg_batch P (ps_n t)) n (schema_of d) \<noteq> None"
        unfolding caught_at_def by blast
      have "run_steps P env pkg applied (s # pre) k db = Some (Inr m, d)"
        using that(2) t(2) by (auto split: option.splits prod.splits sum.splits if_splits)
      moreover have "s # ss = (s # pre) @ t # rest" using t(1) by simp
      ultimately show ?thesis unfolding caught_at_def using t(3-5) by blast
    qed
    show ?case
    proof (cases "applied (ps_n s)")
      case (Some prev)
      then have "run_steps P env pkg applied ss k db = None" "run_steps P env pkg applied [s] k db = Some (Inr k, db)"
        using Cons.prems by (auto split: if_splits)
      then show ?thesis by (rule lift)
    next
      case None
      note free = None
      show ?thesis
      proof (cases "run_step P env pkg s (step_sha P s) db")
        case None
        have "run_steps P env pkg applied [] k db = Some (Inr k, db)" by simp
        moreover have "s # ss = [] @ s # ss" by simp
        ultimately show ?thesis
          unfolding caught_at_def using None free run_step_None by blast
      next
        case (Some r)
        then obtain db1 where r: "r = (Inr (), db1)" and "run_steps P env pkg applied ss (Suc k) db1 = None"
          using Cons.prems free by (auto split: prod.splits sum.splits)
        moreover have "run_steps P env pkg applied [s] k db = Some (Inr (Suc k), db1)" using Some r free by simp
        ultimately show ?thesis using lift by blast
      qed
    qed
  qed simp
next
  have "run_steps P env pkg applied (pre @ s # rest) k db = None"
    if "run_steps P env pkg applied pre k db = Some (Inr m, d)" and "applied (ps_n s) = None"
      and "run_step P env pkg s (step_sha P s) d = None" for s pre rest m d
    using that(1)
  proof (induction pre arbitrary: k db)
    case Nil
    then show ?case using that(2,3) by simp
  qed (auto split: option.splits prod.splits sum.splits if_splits)
  then show "\<exists>s. caught_at P env pkg applied steps k db s \<Longrightarrow> run_steps P env pkg applied steps k db = None"
    unfolding caught_at_def run_step_None by (elim exE conjE) simp
qed

section \<open>Crashes\<close>

text \<open>
  The states a crash during a step can leave. A build cut short leaves an invalid index, which
  dropping takes back to where the build started.
\<close>

inductive mid_step :: "'d postgres \<Rightarrow> plan_step \<Rightarrow> 'd \<Rightarrow> 'd \<Rightarrow> bool" for P s where
  untouched: "mid_step P s d d"
| dropped: "ps_kind s = KindConcurrentIndex \<Longrightarrow> pg_index P (ps_index s) d = IndexInvalid \<Longrightarrow>
    pg_drop_index P (ps_index s) d = Inr d0 \<Longrightarrow> mid_step P s d d0"
| built: "ps_kind s = KindConcurrentIndex \<Longrightarrow> mid_step P s d d0 \<Longrightarrow>
    pg_index P (ps_index s) d0 = IndexAbsent \<Longrightarrow> pg_build P (ps_sql s) d0 = (None, d1) \<Longrightarrow>
    mid_step P s d d1"
| cut_short: "ps_kind s = KindConcurrentIndex \<Longrightarrow> mid_step P s d d0 \<Longrightarrow>
    pg_index P (ps_index s) d0 = IndexAbsent \<Longrightarrow> pg_index P (ps_index s) d1 = IndexInvalid \<Longrightarrow>
    pg_drop_index P (ps_index s) d1 = Inr d0 \<Longrightarrow> mid_step P s d d1"
| batch: "ps_kind s = KindBatchedDML \<Longrightarrow> mid_step P s d d0 \<Longrightarrow>
    pg_batch P (ps_n s) d0 = Inr (fin, d1) \<Longrightarrow> mid_step P s d d1"

text \<open>Documented behaviour: a build that succeeds is valid, a drop leaves no index, and (the contract
  of a batch's author) a batch that reported done has nothing left to do.\<close>

definition lawful :: "'d postgres \<Rightarrow> plan_step list \<Rightarrow> bool" where
  "lawful P steps \<longleftrightarrow>
     (\<forall>s d d'. s \<in> set steps \<longrightarrow> pg_build P (ps_sql s) d = (None, d') \<longrightarrow>
        pg_index P (ps_index s) d' = IndexValid) \<and>
     (\<forall>s d d'. s \<in> set steps \<longrightarrow> pg_drop_index P (ps_index s) d = Inr d' \<longrightarrow>
        pg_index P (ps_index s) d' = IndexAbsent) \<and>
     (\<forall>s d d'. s \<in> set steps \<longrightarrow> pg_batch P (ps_n s) d = Inr (True, d') \<longrightarrow>
        pg_batch P (ps_n s) d' = Inr (True, d'))"

lemma lawful_build:
  "lawful P steps \<Longrightarrow> s \<in> set steps \<Longrightarrow> pg_build P (ps_sql s) d = (None, d') \<Longrightarrow>
     pg_index P (ps_index s) d' = IndexValid"
  and lawful_drop:
  "lawful P steps \<Longrightarrow> s \<in> set steps \<Longrightarrow> pg_drop_index P (ps_index s) d = Inr d' \<Longrightarrow>
     pg_index P (ps_index s) d' = IndexAbsent"
  and lawful_batch:
  "lawful P steps \<Longrightarrow> s \<in> set steps \<Longrightarrow> pg_batch P (ps_n s) d = Inr (True, d') \<Longrightarrow>
     pg_batch P (ps_n s) d' = Inr (True, d')"
  by (auto simp: lawful_def)

lemma lawful_Cons: "lawful P (s # ss) \<Longrightarrow> lawful P ss"
  by (auto simp: lawful_def)

text \<open>Where an index step would end from a schema, and that it ends there from every crash state.\<close>

definition index_goal :: "'d postgres \<Rightarrow> plan_step \<Rightarrow> 'd \<Rightarrow> 'd \<Rightarrow> bool" where
  "index_goal P s d e =
     (case pg_index P (ps_index s) d of
        IndexInvalid \<Rightarrow>
          (case pg_drop_index P (ps_index s) d of
             Inl err \<Rightarrow> False
           | Inr d0 \<Rightarrow> pg_build P (ps_sql s) d0 = (None, e))
      | IndexAbsent \<Rightarrow> pg_build P (ps_sql s) d = (None, e)
      | IndexValid \<Rightarrow> e = d)"

lemma run_concurrent_index_Inr:
  "run_concurrent_index P pkg s sha db = (Inr u, db') \<longleftrightarrow>
     ps_index s \<noteq> [] \<and>
     (\<exists>e. index_goal P s (schema_of db) e \<and> db' = record_step pkg s sha (db\<lparr>schema_of := e\<rparr>))"
  by (auto simp: run_concurrent_index_def index_goal_def build_index_Inr
      split: index_state.splits sum.splits)

lemma index_goal_mid:
  assumes "mid_step P s d d'" and "ps_kind s = KindConcurrentIndex" and "lawful P steps" "s \<in> set steps"
    and "index_goal P s d e"
  shows "index_goal P s d' e"
  using assms
proof (induction rule: mid_step.induct)
  case (dropped d d0)
  then show ?case using lawful_drop [of P steps s d d0] by (simp add: index_goal_def)
next
  case (built d d0 d1)
  then have "index_goal P s d0 e" by simp
  then have "e = d1" using built by (simp add: index_goal_def)
  then show ?case using built lawful_build [of P steps s d0 d1] by (simp add: index_goal_def)
next
  case (cut_short d d0 d1)
  then have "index_goal P s d0 e" by simp
  then show ?case using cut_short by (simp add: index_goal_def)
qed simp_all

lemma batch_loop_mid:
  assumes "mid_step P s d d'" and "ps_kind s = KindBatchedDML" and "lawful P steps" "s \<in> set steps"
    and "batch_loop (pg_batch P (ps_n s)) d = Some (Inr (), e)"
  shows "batch_loop (pg_batch P (ps_n s)) d' = Some (Inr (), e)"
  using assms
proof (induction rule: mid_step.induct)
  case (batch d d0 fin d1)
  then have run: "batch_loop (pg_batch P (ps_n s)) d0 = Some (Inr (), e)" by simp
  show ?case
  proof (cases fin)
    case True
    then have "e = d1" and "pg_batch P (ps_n s) d1 = Inr (True, d1)"
      using run batch lawful_batch [of P steps s d0 d1] by (auto simp: batch_loop.simps)
    then show ?thesis by (subst batch_loop.simps) simp
  next
    case False
    then show ?thesis using run batch by (subst (asm) batch_loop.simps) simp
  qed
qed simp_all

text \<open>A step that succeeded from a state succeeds, to the same state, after a crash in it.\<close>

lemma step_resumes:
  assumes "run_step P env pkg s sha db = Some (Inr (), db1)"
    and "mid_step P s (schema_of db) d" and "lawful P steps" "s \<in> set steps" and "calm env'"
  shows "run_step P env' pkg s sha (db\<lparr>schema_of := d\<rparr>) = Some (Inr (), db1)"
proof (cases "ps_kind s")
  case KindTxDDL
  then have "d = schema_of db" using assms(2) by (auto elim: mid_step.cases)
  then show ?thesis
    using assms(1,5) KindTxDDL by (auto simp: run_step_def dest!: run_tx_Inr intro: run_tx_calm)
next
  case KindGuardedDDL
  then have "d = schema_of db" using assms(2) by (auto elim: mid_step.cases)
  then show ?thesis
    using assms(1,5) KindGuardedDDL by (auto simp: run_step_def dest!: run_tx_Inr intro: run_tx_calm)
next
  case KindConcurrentIndex
  then show ?thesis
    using assms(1) index_goal_mid [OF assms(2) KindConcurrentIndex assms(3,4)]
    by (auto simp: run_step_def run_concurrent_index_Inr)
next
  case KindBatchedDML
  then show ?thesis
    using assms(1) batch_loop_mid [OF assms(2) KindBatchedDML assms(3,4)]
    by (auto simp: run_step_def run_batched_Inr)
qed

text \<open>The states a crash during a run can leave, from the ledger the run read at its start.\<close>

inductive crashed :: "'d postgres \<Rightarrow> run_env \<Rightarrow> string \<Rightarrow> (int \<Rightarrow> string option) \<Rightarrow> plan_step list \<Rightarrow>
    'd mdb \<Rightarrow> 'd mdb \<Rightarrow> bool" for P env pkg applied where
  at_end: "crashed P env pkg applied [] db db"
| in_step: "applied (ps_n s) = None \<Longrightarrow> mid_step P s (schema_of db) d \<Longrightarrow>
    crashed P env pkg applied (s # ss) db (db\<lparr>schema_of := d\<rparr>)"
| past_skip: "applied (ps_n s) \<noteq> None \<Longrightarrow> crashed P env pkg applied ss db db' \<Longrightarrow>
    crashed P env pkg applied (s # ss) db db'"
| past_step: "applied (ps_n s) = None \<Longrightarrow>
    run_step P env pkg s (step_sha P s) db = Some (Inr (), db1) \<Longrightarrow>
    crashed P env pkg applied ss db1 db' \<Longrightarrow> crashed P env pkg applied (s # ss) db db'"

definition reads_ledger :: "string \<Rightarrow> (int \<Rightarrow> string option) \<Rightarrow> plan_step list \<Rightarrow> 'd mdb \<Rightarrow> bool" where
  "reads_ledger pkg applied steps db =
     list_all (\<lambda>s. applied (ps_n s) = applied_steps pkg db (ps_n s)) steps"

lemma reads_ledger_step:
  assumes "reads_ledger pkg applied (s # ss) db" and "distinct (map ps_n (s # ss))"
    and "run_step P env pkg s (step_sha P s) db = Some (Inr (), db1)" and "applied (ps_n s) = None"
  shows "reads_ledger pkg applied ss db1"
    and "applied_steps pkg db1 (ps_n s) = Some (step_sha P s)"
proof -
  have fresh: "recorded db pkg (ps_n s) = None"
    using assms(1,4) by (simp add: reads_ledger_def applied_recorded)
  have r: "recorded db1 pkg j = (if j = ps_n s then Some (ps_name s, step_sha P s) else recorded db pkg j)" for j
    using run_step_recorded [OF assms(3) fresh, of pkg j] by simp
  show "applied_steps pkg db1 (ps_n s) = Some (step_sha P s)" by (simp add: applied_recorded r)
  have "ps_n t \<noteq> ps_n s" if "t \<in> set ss" for t using assms(2) that by (metis distinct.simps(2) imageI list.simps(9) list.set_map)
  then show "reads_ledger pkg applied ss db1"
    using assms(1) by (auto simp: reads_ledger_def list_all_iff applied_recorded r)
qed

lemma crashed_keeps:
  assumes "crashed P env pkg applied steps db db'" and "reads_ledger pkg applied steps db"
    and "distinct (map ps_n steps)" and "n \<notin> ps_n ` set steps"
  shows "applied_steps pkg db' n = applied_steps pkg db n"
  using assms
proof (induction rule: crashed.induct)
  case (past_step s db db1 ss db')
  have "applied_steps pkg db' n = applied_steps pkg db1 n"
    using past_step reads_ledger_step(1) [OF past_step.prems(1,2) past_step.hyps(2,1)] by simp
  moreover have "recorded db pkg (ps_n s) = None"
    using past_step.prems(1) past_step.hyps(1) by (simp add: reads_ledger_def applied_recorded)
  ultimately show ?case
    using run_step_recorded [OF past_step.hyps(2), of pkg n] past_step.prems(3)
    by (auto simp: applied_recorded)
qed (auto simp: applied_recorded reads_ledger_def)

text \<open>Success does not depend on the conflicts met on the way.\<close>

lemma run_step_calm:
  assumes "run_step P env pkg s sha db = Some (Inr (), db1)" and "calm env'"
  shows "run_step P env' pkg s sha db = Some (Inr (), db1)"
  using assms
  by (cases "ps_kind s") (auto simp: run_step_def dest!: run_tx_Inr intro: run_tx_calm)

lemma run_steps_calm:
  assumes "run_steps P env pkg applied steps k db = Some (Inr m, fin)" and "calm env'"
    and "\<And>s. s \<in> set steps \<Longrightarrow> applied' (ps_n s) = applied (ps_n s)"
  shows "\<exists>m'. run_steps P env' pkg applied' steps k' db = Some (Inr m', fin)"
  using assms
proof (induction steps arbitrary: k k' db)
  case (Cons s ss)
  have eq: "applied' (ps_n s) = applied (ps_n s)" using Cons.prems(3) by simp
  show ?case
  proof (cases "applied (ps_n s)")
    case None
    then obtain db1 where step: "run_step P env pkg s (step_sha P s) db = Some (Inr (), db1)"
      and rest: "run_steps P env pkg applied ss (Suc k) db1 = Some (Inr m, fin)"
      using Cons.prems(1) by (auto split: option.splits prod.splits sum.splits)
    show ?thesis
      using Cons.IH [OF rest Cons.prems(2), of "Suc k'"] Cons.prems(3) run_step_calm [OF step Cons.prems(2)]
        eq None by simp
  next
    case (Some prev)
    then have rest: "run_steps P env pkg applied ss k db = Some (Inr m, fin)"
      and ok: "ps_kind s = KindBatchedDML \<or> prev = step_sha P s"
      using Cons.prems(1) by (auto split: if_splits)
    show ?thesis
      using Cons.IH [OF rest Cons.prems(2), of k'] Cons.prems(3) ok eq Some by simp
  qed
qed simp

lemma crash_resumes:
  assumes "crashed P env pkg applied steps db db'"
    and "run_steps P env pkg applied steps k db = Some (Inr m, fin)"
    and "reads_ledger pkg applied steps db" and "distinct (map ps_n steps)"
    and "lawful P steps" and "calm env'"
    and "\<And>s. s \<in> set steps \<Longrightarrow> applied' (ps_n s) = applied_steps pkg db' (ps_n s)"
  shows "\<exists>m'. run_steps P env' pkg applied' steps k' db' = Some (Inr m', fin)"
  using assms
proof (induction arbitrary: k k' rule: crashed.induct)
  case (in_step s db d ss)
  then obtain db1 where step: "run_step P env pkg s (step_sha P s) db = Some (Inr (), db1)"
    and rest: "run_steps P env pkg applied ss (Suc k) db1 = Some (Inr m, fin)"
    by (auto split: option.splits prod.splits sum.splits)
  have resumed: "run_step P env' pkg s (step_sha P s) (db\<lparr>schema_of := d\<rparr>) = Some (Inr (), db1)"
    using step_resumes [OF step in_step.hyps(2) in_step.prems(4) _ in_step.prems(5)] by simp
  have same: "applied' (ps_n t) = applied (ps_n t)" if "t \<in> set (s # ss)" for t
    using in_step.prems(2,6) that by (auto simp: reads_ledger_def list_all_iff applied_recorded)
  show ?case
    using run_steps_calm [OF rest in_step.prems(5), of applied' "Suc k'"] same resumed in_step.hyps(1) by simp
next
  case (past_skip s ss db db')
  then obtain prev where prev: "applied (ps_n s) = Some prev" by auto
  then have ok: "ps_kind s = KindBatchedDML \<or> prev = step_sha P s"
    and rest: "run_steps P env pkg applied ss k db = Some (Inr m, fin)"
    using past_skip.prems(1) by (auto split: if_splits)
  have rl: "reads_ledger pkg applied ss db" using past_skip.prems(2) by (simp add: reads_ledger_def)
  have "applied_steps pkg db' (ps_n s) = applied_steps pkg db (ps_n s)"
    using crashed_keeps [OF past_skip.hyps(2) rl] past_skip.prems(3) by simp
  then have "applied' (ps_n s) = Some prev"
    using past_skip.prems(2,6) prev by (simp add: reads_ledger_def)
  then show ?case
    using past_skip.IH [OF rest rl _ lawful_Cons [OF past_skip.prems(4)] past_skip.prems(5), of k']
      past_skip.prems(3,6) ok by simp
next
  case (past_step s db db1 ss db')
  then have rest: "run_steps P env pkg applied ss (Suc k) db1 = Some (Inr m, fin)"
    by simp
  note rl = reads_ledger_step [OF past_step.prems(2,3) past_step.hyps(2,1)]
  have "applied_steps pkg db' (ps_n s) = applied_steps pkg db1 (ps_n s)"
    using crashed_keeps [OF past_step.hyps(3) rl(1)] past_step.prems(3) by simp
  then have "applied' (ps_n s) = Some (step_sha P s)" using past_step.prems(6) rl(2) by simp
  then show ?case
    using past_step.IH [OF rest rl(1) _ lawful_Cons [OF past_step.prems(4)] past_step.prems(5), of k']
      past_step.prems(3,6) by simp
qed simp

section \<open>The serve role\<close>

lemma grant_tables_keeps [simp]:
  "rd_role (grant_tables ts db) = rd_role db" "rd_usage (grant_tables ts db) = rd_usage db"
  "rd_tables (grant_tables ts db) = rd_tables db"
  by (induction ts db rule: grant_tables.induct) auto

lemma grant_tables_select:
  "set (rd_select (grant_tables ts db)) = set (rd_select db) \<union> (set ts \<inter> set (rd_tables db))"
  by (induction ts db rule: grant_tables.induct) auto

lemma grant_tables_idle: "set ts \<inter> set (rd_tables db) \<subseteq> set (rd_select db) \<Longrightarrow> grant_tables ts db = db"
  by (induction ts db rule: grant_tables.induct) auto

text \<open>Exactly the serve-read set's existing tables are granted, and a second boot changes nothing.\<close>

lemma ensure_role_grants:
  "set (rd_select (ensure_role racing pw db)) =
     set (rd_select db) \<union> (set serve_tables \<inter> set (rd_tables db))"
  by (simp add: ensure_role_def Let_def grant_tables_select)

lemma ensure_role_idempotent:
  "ensure_role racing' pw' (ensure_role racing pw db) = ensure_role racing pw db"
proof -
  let ?d = "ensure_role racing pw db"
  have "rd_role ?d \<noteq> None" and "rd_usage ?d" by (simp_all add: ensure_role_def Let_def)
  then have "ensure_role racing' pw' ?d = grant_tables serve_tables ?d"
    by (simp add: ensure_role_def [of racing' pw' ?d] Let_def)
  also have "\<dots> = ?d"
    by (rule grant_tables_idle) (auto simp: ensure_role_def Let_def grant_tables_select)
  finally show ?thesis .
qed

text \<open>An escaped password is one literal: the quote that ends it is the one written after it.\<close>

lemma sql_escape_literal:
  "hd (rest @ [CHR '' '']) \<noteq> CHR 0x27 \<Longrightarrow>
     quoted_length (sql_escape s @ CHR 0x27 # rest) = length (sql_escape s) + 1"
  by (induction s) (auto simp: sql_escape_def split: list.splits)

end
