(* ===== verification/SchemastepClaims.thy ===== *)
theory SchemastepClaims
  imports SchemastepProps
begin

text \<open>
  The properties of the migration runner and its plan check, on a concrete plan: a table, a
  concurrent index and a batched backfill. The demonstration schema is the index's state and the
  number of rows still to be filled.
\<close>

section \<open>A concrete plan\<close>

definition demo_pg :: "(index_state \<times> nat) postgres" where
  "demo_pg = \<lparr>pg_script = (\<lambda>sql d. Inr d), pg_build = (\<lambda>sql d. (None, (IndexValid, snd d))),
     pg_index = (\<lambda>i d. fst d), pg_drop_index = (\<lambda>i d. Inr (IndexAbsent, snd d)),
     pg_sha = (\<lambda>sql. sql), pg_batch = (\<lambda>n d. Inr (snd d \<le> 1, (fst d, snd d - 1)))\<rparr>"

definition demo_step :: "int \<Rightarrow> step_kind \<Rightarrow> string \<Rightarrow> plan_step" where
  "demo_step n kind sql = \<lparr>ps_n = n, ps_name = [], ps_kind = kind, ps_sql = sql, ps_index = ''i''\<rparr>"

definition demo_plan :: "plan_step list" where
  "demo_plan =
     [demo_step 0 KindTxDDL ''create table t (x int)'',
      demo_step 1 KindConcurrentIndex ''create index concurrently i on t (x)'',
      demo_step 2 KindBatchedDML []]"

definition calm_env :: run_env where
  "calm_env = \<lparr>re_lock = (\<lambda>n. if n < 2 then PollHeld False else PollGranted), re_blocked = (\<lambda>_ _. False), re_cancel = (\<lambda>_ _. False)\<rparr>"

definition demo_mdb :: "(index_state \<times> nat) mdb" where
  "demo_mdb = \<lparr>ledger = [], schema_of = (IndexAbsent, 2)\<rparr>"

definition demo_ledger :: "((string \<times> int) \<times> (string \<times> string)) list" where
  "demo_ledger =
     [((''t'', 0), ([], ''create table t (x int)'')),
      ((''t'', 1), ([], ''create index concurrently i on t (x)'')), ((''t'', 2), ([], []))]"

definition demo_migrated :: "(index_state \<times> nat) mdb" where
  "demo_migrated = \<lparr>ledger = demo_ledger, schema_of = (IndexValid, 0)\<rparr>"

lemma demo_check: "check_plan demo_plan = Inr ()"
  by code_simp

lemma demo_batches:
  "batch_loop (\<lambda>d. Inr (snd d \<le> 1, (fst d, snd d - 1))) (IndexValid, 2 :: nat) =
     Some (Inr (), (IndexValid, 0))"
  by (subst batch_loop.simps, simp, subst batch_loop.simps, simp)

lemma demo_distinct: "distinct (map ps_n demo_plan)"
  by (simp add: demo_plan_def demo_step_def)

lemma calm_env_calm: "calm calm_env"
  by (auto simp: calm_def granted_at_def calm_env_def list_all_iff intro!: exI [of _ 2])

definition demo_first :: plan_step where
  "demo_first = demo_step 0 KindTxDDL ''create table t (x int)''"

definition demo_after_first :: "(index_state \<times> nat) mdb" where
  "demo_after_first = \<lparr>ledger = [((''t'', 0), ([], ''create table t (x int)''))], schema_of = (IndexAbsent, 2)\<rparr>"

lemma demo_first_step:
  "run_step demo_pg calm_env ''t'' demo_first (step_sha demo_pg demo_first) demo_mdb = Some (Inr (), demo_after_first)"
proof -
  have "tx_attempt demo_pg ''t'' demo_first (step_sha demo_pg demo_first) demo_mdb = Inr demo_after_first" by code_simp
  from run_tx_calm [OF this calm_env_calm] show ?thesis by (simp add: run_step_def demo_first_def demo_step_def)
qed

lemma demo_rest:
  "run_steps demo_pg calm_env ''t'' (applied_steps ''t'' demo_mdb) (tl demo_plan) 1 demo_after_first =
     Some (Inr 3, demo_migrated)"
  by code_simp (simp add: demo_batches [simplified] record_step_def)

lemma demo_run: "run_plan demo_pg calm_env ''t'' demo_plan demo_mdb = Some (Inr 3, demo_migrated)"
proof -
  obtain n where "granted_at calm_env n" using calm_env_calm by (auto simp: calm_def)
  then have "lock_loop (re_lock calm_env) 0 = Some (Inr ())" by (rule lock_loop_granted)
  moreover have "demo_plan = demo_first # tl demo_plan" by (simp add: demo_plan_def demo_first_def)
  moreover have "applied_steps ''t'' demo_mdb (ps_n demo_first) = None" by (simp add: applied_steps_def demo_mdb_def)
  ultimately show ?thesis
    using demo_rest demo_first_step demo_check run_steps.simps(2) [of demo_pg calm_env "''t''" _ demo_first "tl demo_plan" 0 demo_mdb]
    by (simp add: run_plan_def)
qed

text \<open>A crash inside the index build, before its ledger row: the index is left invalid.\<close>

definition demo_crash :: "(index_state \<times> nat) mdb" where
  "demo_crash = \<lparr>ledger = [((''t'', 0), ([], ''create table t (x int)''))], schema_of = (IndexInvalid, 2)\<rparr>"

lemma demo_lawful: "lawful demo_pg demo_plan"
  by (auto simp: lawful_def demo_pg_def)

lemma demo_crashed: "crashed demo_pg calm_env ''t'' (applied_steps ''t'' demo_mdb) demo_plan demo_mdb demo_crash"
proof -
  let ?a = "applied_steps ''t'' demo_mdb"
  let ?s0 = "demo_step 0 KindTxDDL ''create table t (x int)''"
  let ?s1 = "demo_step 1 KindConcurrentIndex ''create index concurrently i on t (x)''"
  define db1 where "db1 = demo_after_first"
  have free: "?a n = None" for n by (simp add: applied_steps_def demo_mdb_def)
  have "run_step demo_pg calm_env ''t'' ?s0 (step_sha demo_pg ?s0) demo_mdb = Some (Inr (), db1)"
    using demo_first_step by (simp add: db1_def demo_first_def)
  moreover have "mid_step demo_pg ?s1 (schema_of db1) (IndexInvalid, 2)"
    by (rule mid_step.cut_short [OF _ mid_step.untouched])
       (simp_all add: demo_step_def demo_pg_def db1_def demo_after_first_def)
  then have "crashed demo_pg calm_env ''t'' ?a (?s1 # rest) db1 (db1\<lparr>schema_of := (IndexInvalid, 2)\<rparr>)" for rest
    by (intro crashed.in_step free)
  ultimately show ?thesis
    unfolding demo_plan_def demo_crash_def
    using crashed.past_step [OF free] by (fastforce simp: db1_def demo_after_first_def)
qed

text \<open>Three plans that take a rewrite lock on a table of the serve-read set.\<close>

definition demo_truncate :: plan_step where
  "demo_truncate = demo_step 1 KindTxDDL ''truncate other, mp_element''"

definition demo_volatile :: plan_step where
  "demo_volatile = demo_step 2 KindGuardedDDL
     ''alter table publication add a int default 0, add b int default f()''"

definition demo_masked :: plan_step where
  "demo_masked = demo_step 3 KindTxDDL ''alter table publication validate constraint c, add check (a)''"

lemma blind_truncate: "check_step demo_truncate = Inr ()"
  by code_simp

lemma blind_volatile: "check_step demo_volatile = Inr ()"
  by code_simp

lemma blind_masked: "check_step demo_masked = Inr ()"
  by code_simp

section \<open>Properties\<close>

text \<open>C19: A plan \<open>Check\<close> accepts contains, in its transactional steps, no statement classified as
  targeting a table of the serve-read set other than reader-safe ones and, in guarded steps only,
  brief metadata locks: nothing classified as a rewrite or not classified touches the set.\<close>

theorem accepted_plan_spares_serve_set:
  assumes "check_plan steps = Inr ()" and "st \<in> set steps" and "is_transactional st"
    and "s \<in> set (split_statements (ps_sql st))" and "in_serve_set (snd (classify_statement s))"
  shows "fst (classify_statement s) = ReaderSafe \<or>
         (fst (classify_statement s) = MetadataAEL \<and> ps_kind st = KindGuardedDDL)"
proof -
  have "check_step st = Inr ()" using assms(1,2) by (rule check_plan_step)
  then have "check_statement st s = Inr ()"
    using assms(3,4) by (auto simp: check_step_def is_transactional_def intro: check_statements_each)
  then show ?thesis using assms(5) by (rule check_statement_serve)
qed

theorem accepted_plan_spares_serve_set_witness:
  "fst (classify_statement ''alter table publication add x int'') = ReaderSafe \<or>
   (fst (classify_statement ''alter table publication add x int'') = MetadataAEL \<and>
    ps_kind (demo_step 3 KindGuardedDDL ''alter table publication add x int'') = KindGuardedDDL)"
proof -
  let ?st = "demo_step 3 KindGuardedDDL ''alter table publication add x int''"
  have "check_plan [?st] = Inr ()" and "is_transactional ?st"
    and "''alter table publication add x int'' \<in> set (split_statements (ps_sql ?st))"
    and "in_serve_set (snd (classify_statement ''alter table publication add x int''))"
    by code_simp+
  then show ?thesis by (intro accepted_plan_spares_serve_set [of "[?st]" ?st]) simp_all
qed

text \<open>The check has blind spots: it accepts plans that truncate a table of the serve-read set named
  second, that add a column with a volatile default after one with a constant default, and that
  hide an unvalidated check constraint behind a \<open>validate constraint\<close>.\<close>

theorem check_blind_spots:
  "map check_plan [[demo_truncate], [demo_volatile], [demo_masked]] = [Inr (), Inr (), Inr ()]"
  by (simp add: blind_truncate blind_volatile blind_masked)

text \<open>A plan that completed is skipped as a whole by every later boot, also by a replica that waited
  for the lock: no step is executed and the database is not changed.\<close>

theorem later_boot_skips:
  assumes "run_plan P env pkg steps db = Some (Inr k, db')" and "distinct (map ps_n steps)"
    and "granted_at env' n"
  shows "run_plan P env' pkg steps db' = Some (Inr 0, db')"
proof -
  have ok: "check_plan steps = Inr ()"
    and run: "run_steps P env pkg (applied_steps pkg db) steps 0 db = Some (Inr k, db')"
    using assms(1) by (auto simp: run_plan_def split: sum.splits option.splits)
  have "list_all (holds_step P (applied_steps pkg db')) steps"
    by (rule run_steps_completes [OF run assms(2)]) (simp add: applied_recorded)
  then show ?thesis by (simp add: run_plan_def ok run_steps_skips lock_loop_granted [OF assms(3)])
qed

text \<open>C17: A run that crashes at any of its commits, also inside a concurrent index build or between two
  batches, is resumed by the next boot to exactly the database the uninterrupted run leaves. It is
  assumed that a successful build is a valid index, that a dropped one is gone, and that a batch
  which reported done has nothing left to do.\<close>

theorem crashed_run_resumes:
  assumes "run_plan P env pkg steps db = Some (Inr k, fin)"
    and "crashed P env pkg (applied_steps pkg db) steps db db'"
    and "distinct (map ps_n steps)" and "lawful P steps" and "calm env'"
  shows "\<exists>m. run_plan P env' pkg steps db' = Some (Inr m, fin)"
proof -
  have ok: "check_plan steps = Inr ()"
    and run: "run_steps P env pkg (applied_steps pkg db) steps 0 db = Some (Inr k, fin)"
    using assms(1) by (auto simp: run_plan_def split: sum.splits option.splits)
  obtain n where "granted_at env' n" using assms(5) by (auto simp: calm_def)
  then have lock: "lock_loop (re_lock env') 0 = Some (Inr ())" by (rule lock_loop_granted)
  have "reads_ledger pkg (applied_steps pkg db) steps db" by (simp add: reads_ledger_def list_all_iff)
  from crash_resumes [OF assms(2) run this assms(3-5)] show ?thesis by (simp add: run_plan_def ok lock)
qed

theorem crashed_run_resumes_witness:
  "\<exists>m. run_plan demo_pg calm_env ''t'' demo_plan demo_crash = Some (Inr m, demo_migrated)"
  by (rule crashed_run_resumes [OF demo_run demo_crashed demo_distinct demo_lawful])
     (rule calm_env_calm)

text \<open>C18: When a run returns. A run whose plan is accepted fails to return in exactly two ways: every poll for
  the advisory lock finds it held by another session and the run is never cancelled, or, the lock
  granted, the run reaches an unapplied batched step whose batches report work left for ever. Every
  other loop ends: a guarded step makes at most 20 attempts, and gives up, changing nothing, exactly when
  each of the 20 met the lock and no cancellation came between them. A measure that every unfinished batch
  decreases bounds the number of batches, so such a step ends.\<close>

theorem run_returns:
  "(run_plan P env pkg steps db = None \<longleftrightarrow>
      check_plan steps = Inr () \<and>
      ((\<forall>n. re_lock env n = PollHeld False) \<or>
       (\<exists>n s. granted_at env n \<and> caught_at P env pkg (applied_steps pkg db) steps 0 db s))) \<and>
   (run_tx_ddl P env pkg st sha True db0 = Some (Inl (StillBlocked m), db1) \<longleftrightarrow>
      m = 20 \<and> db1 = db0 \<and>
      (\<forall>i < 20. tx_try P env pkg st sha True i db0 = Inl LockNotAvailable \<and>
         (0 < i \<longrightarrow> \<not> re_cancel env (ps_n st) i))) \<and>
   ((\<forall>d d'. pg_batch P j d = Inr (False, d') \<longrightarrow> left d' < (left d :: nat)) \<longrightarrow>
      (\<forall>d. after_batches (pg_batch P j) (Suc (left d)) d = None \<and> batch_loop (pg_batch P j) d \<noteq> None))"
proof (intro conjI impI allI)
  have granted: "lock_loop (re_lock env) 0 = Some (Inr ()) \<longleftrightarrow> (\<exists>n. granted_at env n)"
    using lock_loop_Inr lock_loop_granted by blast
  have "run_plan P env pkg steps db = None \<longleftrightarrow> check_plan steps = Inr () \<and>
      (lock_loop (re_lock env) 0 = None \<or>
       (lock_loop (re_lock env) 0 = Some (Inr ()) \<and>
        run_steps P env pkg (applied_steps pkg db) steps 0 db = None))"
    by (auto simp: run_plan_def split: sum.splits option.splits)
  then show "run_plan P env pkg steps db = None \<longleftrightarrow>
      check_plan steps = Inr () \<and>
      ((\<forall>n. re_lock env n = PollHeld False) \<or>
       (\<exists>n s. granted_at env n \<and> caught_at P env pkg (applied_steps pkg db) steps 0 db s))"
    unfolding granted lock_loop_None run_steps_None by blast
  have "run_tx_ddl P env pkg st sha True db0 = Some (Inl (StillBlocked m), db1) \<longleftrightarrow>
      tx_loop P env pkg st sha True 20 0 db0 = Some (Inl (StillBlocked m)) \<and> db1 = db0"
    by (auto simp: run_tx_ddl_def guard_attempts_def split: option.splits sum.splits)
  then show "run_tx_ddl P env pkg st sha True db0 = Some (Inl (StillBlocked m), db1) \<longleftrightarrow>
      m = 20 \<and> db1 = db0 \<and>
      (\<forall>i < 20. tx_try P env pkg st sha True i db0 = Inl LockNotAvailable \<and>
         (0 < i \<longrightarrow> \<not> re_cancel env (ps_n st) i))"
    using tx_loop_blocked [of 0 20 P env pkg st sha db0 m] by auto
next
  fix d
  assume left: "\<forall>d d'. pg_batch P j d = Inr (False, d') \<longrightarrow> left d' < left d"
  show none: "after_batches (pg_batch P j) (Suc (left d)) d = None"
  proof (rule ccontr)
    assume "after_batches (pg_batch P j) (Suc (left d)) d \<noteq> None"
    then obtain d' where "after_batches (pg_batch P j) (Suc (left d)) d = Some d'" by blast
    from after_batches_bound [OF _ this, of left] left show False by simp
  qed
  show "batch_loop (pg_batch P j) d \<noteq> None" using none by (rule batch_loop_returns)
qed

text \<open>The demonstration run returns, since its batches count rows down; it waits for ever when the lock is
  never granted.\<close>

theorem run_returns_witness:
  "run_plan demo_pg calm_env ''t'' demo_plan demo_mdb \<noteq> None \<and>
   run_plan demo_pg (calm_env\<lparr>re_lock := (\<lambda>n. PollHeld False)\<rparr>) ''t'' demo_plan demo_mdb = None"
proof
  note R = run_returns [of demo_pg _ "''t''" demo_plan demo_mdb "hd demo_plan" "[]" demo_mdb 0 demo_mdb]
  have "\<forall>d d'. pg_batch demo_pg j d = Inr (False, d') \<longrightarrow> snd d' < snd d" for j by (auto simp: demo_pg_def)
  then have "after_batches (pg_batch demo_pg j) (Suc (snd d)) d = None" for j d
    by (rule R [THEN conjunct2, THEN conjunct2, THEN mp, THEN spec, THEN conjunct1])
  then have "\<not> caught_at demo_pg calm_env ''t'' a demo_plan 0 demo_mdb s" for a s
    unfolding caught_at_def by metis
  moreover have "re_lock calm_env 2 \<noteq> PollHeld False" by (simp add: calm_env_def)
  ultimately show "run_plan demo_pg calm_env ''t'' demo_plan demo_mdb \<noteq> None"
    using R [THEN conjunct1, of calm_env] by metis
  let ?busy = "calm_env\<lparr>re_lock := (\<lambda>n. PollHeld False)\<rparr>"
  have "\<forall>n. re_lock ?busy n = PollHeld False" by simp
  then show "run_plan demo_pg ?busy ''t'' demo_plan demo_mdb = None"
    using R [THEN conjunct1, of ?busy] demo_check by metis
qed

end
