(* ===== verification/Definitions.thy ===== *)
theory Definitions
  imports Engine Interfaces "HOL-Library.AList" "HOL-Library.Char_ord" "HOL-Library.List_Lexorder"
begin

text \<open>
  The workflow-definition authoring surface of \<open>internal/definitions\<close>: \<open>Parse\<close>, the loader that
  carries a directory of YAML files into the \<open>workflow_definition\<close> table, and the read-through
  registry execution reads. The YAML decoder (\<open>yaml.v3\<close>) and the hash of the file bytes (hex
  SHA-256) are the parameters \<open>decode\<close> and \<open>hash\<close>. A pass of the loader takes what the
  directory listing and the file reads returned and which upserts the database refused.
\<close>

section \<open>Parse\<close>

record op_doc =
  opd_operation :: string
  opd_config :: "(string \<rightharpoonup> string) option"
  opd_spec :: "spec option"

record file_doc =
  fd_id :: string
  fd_operations :: "op_doc list"

datatype def_error =
    Undecodable
  | NoId
  | NoOperations string
  | NamelessOperation string nat
  | IncludeRejected string
  | DirUnreadable
  | ReadFailed string
  | DuplicateId string string string
  | StoreFailed string
  | QueryFailed
  | StoredUnparseable string def_error
  | StoredUnderKey string string

definition op_of_doc :: "op_doc \<Rightarrow> op_def" where
  "op_of_doc d = \<lparr>od_operation = opd_operation d,
     od_config = (case opd_config d of None \<Rightarrow> Map.empty | Some c \<Rightarrow> c), od_spec = opd_spec d\<rparr>"

fun parse_ops :: "string \<Rightarrow> nat \<Rightarrow> op_doc list \<Rightarrow> (def_error, definition_ops) result" where
  "parse_ops i n [] = Inr []"
| "parse_ops i n (d # ds) =
     (if opd_operation d = [] then Inl (NamelessOperation i n)
      else if opd_operation d = ''include'' then Inl (IncludeRejected i)
      else bind_result (parse_ops i (Suc n) ds) (\<lambda>ops. Inr (op_of_doc d # ops)))"

definition parse ::
  "(string \<Rightarrow> file_doc option) \<Rightarrow> string \<Rightarrow> (def_error, string \<times> definition_ops) result" where
  "parse decode raw =
     (case decode raw of
        None \<Rightarrow> Inl Undecodable
      | Some doc \<Rightarrow>
          (if fd_id doc = [] then Inl NoId
           else if fd_operations doc = [] then Inl (NoOperations (fd_id doc))
           else bind_result (parse_ops (fd_id doc) 0 (fd_operations doc)) (\<lambda>ops.
             Inr (fd_id doc, ops))))"

section \<open>The loader\<close>

record def_row =
  dr_yaml :: string
  dr_hash :: string
  dr_updated :: int

type_synonym def_table = "(string \<times> def_row) list"

record dir_entry =
  de_name :: string
  de_is_dir :: bool
  de_content :: "string option"

datatype def_log =
    FileRejected string def_error
  | DefinitionLoaded string string string bool
  | StoringFailed string string
  | PollFailed def_error

record loader =
  ld_applied :: "string \<rightharpoonup> string"
  ld_errored :: "string \<rightharpoonup> string"
  ld_log :: "def_log list"

definition new_loader :: loader where
  "new_loader = \<lparr>ld_applied = Map.empty, ld_errored = Map.empty, ld_log = []\<rparr>"

text \<open>
  The conditional upsert: whether \<open>RowsAffected() = 1\<close>, and the table after it.
\<close>

definition upsert_definition ::
  "int \<Rightarrow> string \<Rightarrow> string \<Rightarrow> string \<Rightarrow> def_table \<Rightarrow> bool \<times> def_table" where
  "upsert_definition now i raw h t =
     (let row = \<lparr>dr_yaml = raw, dr_hash = h, dr_updated = now\<rparr>
      in case map_of t i of
           None \<Rightarrow> (True, t @ [(i, row)])
         | Some r \<Rightarrow> if dr_hash r = h then (False, t) else (True, AList.update i row t))"

definition file_error :: "string \<Rightarrow> string \<Rightarrow> def_error \<Rightarrow> loader \<Rightarrow> loader" where
  "file_error name h e l =
     (if go_get (ld_errored l) name = h \<and> h \<noteq> [] then l
      else l\<lparr>ld_errored := (ld_errored l)(name \<mapsto> h), ld_log := ld_log l @ [FileRejected name e]\<rparr>)"

record pending =
  pe_file :: string
  pe_id :: string
  pe_raw :: string
  pe_hash :: string

record scan =
  sc_loader :: loader
  sc_ids :: "(string \<times> string) list"
  sc_apply :: "pending list"

text \<open>A file the pass does not accept: the error itself at boot, a log line at run time.\<close>

definition reject :: "bool \<Rightarrow> string \<Rightarrow> string \<Rightarrow> def_error \<Rightarrow> scan \<Rightarrow> def_error option \<times> scan" where
  "reject strict name h e sc =
     (if strict then (Some e, sc) else (None, sc\<lparr>sc_loader := file_error name h e (sc_loader sc)\<rparr>))"

definition accept :: "string \<Rightarrow> string \<Rightarrow> string \<Rightarrow> string \<Rightarrow> scan \<Rightarrow> scan" where
  "accept name i raw h sc =
     (let l = (sc_loader sc)\<lparr>ld_errored := (ld_errored (sc_loader sc))(name := None)\<rparr>
      in sc\<lparr>sc_loader := l, sc_ids := sc_ids sc @ [(i, name)],
           sc_apply := (if go_get (ld_applied l) name = h then sc_apply sc
             else sc_apply sc @ [\<lparr>pe_file = name, pe_id = i, pe_raw = raw, pe_hash = h\<rparr>])\<rparr>)"

definition scan_file ::
  "(string \<Rightarrow> file_doc option) \<Rightarrow> (string \<Rightarrow> string) \<Rightarrow> bool \<Rightarrow> string \<times> string option \<Rightarrow> scan
     \<Rightarrow> def_error option \<times> scan" where
  "scan_file decode hash strict f sc =
     (case f of (name, content) \<Rightarrow>
       (case content of
          None \<Rightarrow> reject strict name [] (ReadFailed name) sc
        | Some raw \<Rightarrow>
            (case parse decode raw of
               Inl e \<Rightarrow> reject strict name (hash raw) e sc
             | Inr (i, ops) \<Rightarrow>
                 (case map_of (sc_ids sc) i of
                    Some other \<Rightarrow> reject strict name (hash raw) (DuplicateId i other name) sc
                  | None \<Rightarrow> (None, accept name i raw (hash raw) sc)))))"

fun scan_files ::
  "(string \<Rightarrow> file_doc option) \<Rightarrow> (string \<Rightarrow> string) \<Rightarrow> bool \<Rightarrow> (string \<times> string option) list \<Rightarrow> scan
     \<Rightarrow> def_error option \<times> scan" where
  "scan_files decode hash strict [] sc = (None, sc)"
| "scan_files decode hash strict (f # fs) sc =
     (case scan_file decode hash strict f sc of
        (Some e, sc') \<Rightarrow> (Some e, sc')
      | (None, sc') \<Rightarrow> scan_files decode hash strict fs sc')"

definition mark_stored :: "pending \<Rightarrow> bool \<Rightarrow> loader \<Rightarrow> loader" where
  "mark_stored p wrote l =
     l\<lparr>ld_applied := (ld_applied l)(pe_file p \<mapsto> pe_hash p),
       ld_log := ld_log l @ [DefinitionLoaded (pe_id p) (pe_file p) (pe_hash p) wrote]\<rparr>"

fun apply_pending ::
  "bool \<Rightarrow> (string \<Rightarrow> bool) \<Rightarrow> int \<Rightarrow> pending list \<Rightarrow> loader \<Rightarrow> def_table
     \<Rightarrow> def_error option \<times> loader \<times> def_table" where
  "apply_pending strict fails now [] l t = (None, l, t)"
| "apply_pending strict fails now (p # ps) l t =
     (if fails (pe_id p)
      then if strict then (Some (StoreFailed (pe_id p)), l, t)
           else apply_pending strict fails now ps
                  (l\<lparr>ld_log := ld_log l @ [StoringFailed (pe_id p) (pe_file p)]\<rparr>) t
      else case upsert_definition now (pe_id p) (pe_raw p) (pe_hash p) t of
        (wrote, t') \<Rightarrow> apply_pending strict fails now ps (mark_stored p wrote l) t')"

definition is_yaml :: "dir_entry \<Rightarrow> bool" where
  "is_yaml e = (\<not> de_is_dir e \<and> (has_suffix (de_name e) ''.yaml'' \<or> has_suffix (de_name e) ''.yml''))"

definition yaml_files :: "dir_entry list \<Rightarrow> (string \<times> string option) list" where
  "yaml_files es = sort_key fst (map (\<lambda>e. (de_name e, de_content e)) (filter is_yaml es))"

definition load ::
  "(string \<Rightarrow> file_doc option) \<Rightarrow> (string \<Rightarrow> string) \<Rightarrow> bool \<Rightarrow> (string \<Rightarrow> bool) \<Rightarrow> int
     \<Rightarrow> dir_entry list option \<Rightarrow> loader \<Rightarrow> def_table \<Rightarrow> def_error option \<times> loader \<times> def_table" where
  "load decode hash strict fails now dir l t =
     (case dir of
        None \<Rightarrow> (Some DirUnreadable, l, t)
      | Some es \<Rightarrow>
          (case scan_files decode hash strict (yaml_files es)
                  \<lparr>sc_loader = l, sc_ids = [], sc_apply = []\<rparr> of
             (Some e, sc) \<Rightarrow> (Some e, sc_loader sc, t)
           | (None, sc) \<Rightarrow> apply_pending strict fails now (sc_apply sc) (sc_loader sc) t))"

definition load_once ::
  "(string \<Rightarrow> file_doc option) \<Rightarrow> (string \<Rightarrow> string) \<Rightarrow> (string \<Rightarrow> bool) \<Rightarrow> int
     \<Rightarrow> dir_entry list option \<Rightarrow> loader \<Rightarrow> def_table \<Rightarrow> def_error option \<times> loader \<times> def_table" where
  "load_once decode hash = load decode hash True"

text \<open>One tick of \<open>Watch\<close>: an error of the pass is logged and the loop goes on.\<close>

definition watch_tick ::
  "(string \<Rightarrow> file_doc option) \<Rightarrow> (string \<Rightarrow> string) \<Rightarrow> (string \<Rightarrow> bool) \<Rightarrow> int
     \<Rightarrow> dir_entry list option \<Rightarrow> loader \<times> def_table \<Rightarrow> loader \<times> def_table" where
  "watch_tick decode hash fails now dir lt =
     (case load decode hash False fails now dir (fst lt) (snd lt) of
        (None, l, t) \<Rightarrow> (l, t)
      | (Some e, l, t) \<Rightarrow> (l\<lparr>ld_log := ld_log l @ [PollFailed e]\<rparr>, t))"

section \<open>The registry\<close>

record reg_entry =
  re_def :: definition_ops
  re_hash :: string
  re_ok :: bool
  re_at :: int

record registry =
  rg_ttl :: int
  rg_cache :: "string \<rightharpoonup> reg_entry"

definition registry_default_ttl :: int where
  "registry_default_ttl = 2000000000"

definition reg_ttl :: "registry \<Rightarrow> int" where
  "reg_ttl r = (if rg_ttl r \<le> 0 then registry_default_ttl else rg_ttl r)"

definition reg_put :: "string \<Rightarrow> reg_entry \<Rightarrow> registry \<Rightarrow> registry" where
  "reg_put i e r = r\<lparr>rg_cache := (rg_cache r)(i \<mapsto> e)\<rparr>"

text \<open>
  \<open>query\<close> is what the row query returned, \<open>None\<close> when it failed; \<open>now\<close> is the clock when the
  cache is tested and \<open>later\<close> the clock when the entry is put.
\<close>

definition registry_miss ::
  "(string \<Rightarrow> file_doc option) \<Rightarrow> int \<Rightarrow> (string \<Rightarrow> def_row option option) \<Rightarrow> string \<Rightarrow> registry
     \<Rightarrow> (def_error, definition_ops \<times> bool) result \<times> registry" where
  "registry_miss decode later query i r =
     (case query i of
        None \<Rightarrow> (Inl QueryFailed, r)
      | Some None \<Rightarrow>
          (Inr ([], False), reg_put i \<lparr>re_def = [], re_hash = [], re_ok = False, re_at = later\<rparr> r)
      | Some (Some row) \<Rightarrow>
          (case parse decode (dr_yaml row) of
             Inl e \<Rightarrow> (Inl (StoredUnparseable i e), r)
           | Inr (j, ops) \<Rightarrow>
               (if j \<noteq> i then (Inl (StoredUnderKey i j), r)
                else (Inr (ops, True),
                      reg_put i \<lparr>re_def = ops, re_hash = dr_hash row, re_ok = True, re_at = later\<rparr> r))))"

definition registry_definition ::
  "(string \<Rightarrow> file_doc option) \<Rightarrow> int \<Rightarrow> int \<Rightarrow> (string \<Rightarrow> def_row option option) \<Rightarrow> string \<Rightarrow> registry
     \<Rightarrow> (def_error, definition_ops \<times> bool) result \<times> registry" where
  "registry_definition decode now later query i r =
     (case rg_cache r i of
        Some e \<Rightarrow>
          if now - re_at e < reg_ttl r then (Inr (re_def e, re_ok e), r)
          else registry_miss decode later query i r
      | None \<Rightarrow> registry_miss decode later query i r)"

end
