(* ===== verification/DefinitionsProps.thy ===== *)
theory DefinitionsProps
  imports Definitions
begin

text \<open>
  The lemmas of the definition loader: what \<open>Parse\<close> guarantees, what a scan of the directory
  collects and what the upserts make of it, the table invariant every pass of every replica keeps,
  and the system of several loaders, one table and one registry as a machine.
\<close>

section \<open>Parsed definitions\<close>

definition ops_valid :: "definition_ops \<Rightarrow> bool" where
  "ops_valid ops =
     (ops \<noteq> [] \<and> list_all (\<lambda>d. od_operation d \<noteq> [] \<and> od_operation d \<noteq> ''include'') ops)"

lemma parse_ops_Inr:
  "parse_ops i n ds = Inr ops \<Longrightarrow>
     length ops = length ds \<and> list_all (\<lambda>d. od_operation d \<noteq> [] \<and> od_operation d \<noteq> ''include'') ops"
  by (induction i n ds arbitrary: ops rule: parse_ops.induct) (auto simp: op_of_doc_def split: if_splits)

lemma parse_Inr:
  assumes "parse decode raw = Inr (i, ops)"
  shows "i \<noteq> [] \<and> ops_valid ops"
  using assms by (auto simp: parse_def ops_valid_def dest: parse_ops_Inr split: option.splits if_splits)

section \<open>What a scan collects\<close>

definition accepts :: "(string \<Rightarrow> file_doc option) \<Rightarrow> string \<times> string option \<Rightarrow> string \<Rightarrow> string \<Rightarrow> bool" where
  "accepts decode f i raw = (snd f = Some raw \<and> (\<exists>ops. parse decode raw = Inr (i, ops)))"

text \<open>The id a file declares, when it can be read and parsed.\<close>

definition declared :: "(string \<Rightarrow> file_doc option) \<Rightarrow> string \<times> string option \<Rightarrow> string option" where
  "declared decode f =
     (case snd f of None \<Rightarrow> None | Some raw \<Rightarrow>
        (case parse decode raw of Inl e \<Rightarrow> None | Inr (i, ops) \<Rightarrow> Some i))"

lemma declared_iff: "declared decode f = Some i \<longleftrightarrow> (\<exists>raw. accepts decode f i raw)"
  by (auto simp: declared_def accepts_def split: option.splits sum.splits)

text \<open>A pending upsert comes from a file of the directory.\<close>

definition pending_from ::
  "(string \<Rightarrow> file_doc option) \<Rightarrow> (string \<Rightarrow> string) \<Rightarrow> (string \<times> string option) list \<Rightarrow> pending \<Rightarrow> bool" where
  "pending_from decode hash fs p =
     (pe_hash p = hash (pe_raw p) \<and>
      (\<exists>f \<in> set fs. fst f = pe_file p \<and> accepts decode f (pe_id p) (pe_raw p)))"

definition scan_ok ::
  "(string \<Rightarrow> file_doc option) \<Rightarrow> (string \<Rightarrow> string) \<Rightarrow> (string \<times> string option) list \<Rightarrow> scan \<Rightarrow> bool" where
  "scan_ok decode hash fs sc =
     (list_all (pending_from decode hash fs) (sc_apply sc) \<and>
      distinct (map pe_id (sc_apply sc)) \<and> set (map pe_id (sc_apply sc)) \<subseteq> fst ` set (sc_ids sc))"

lemma scan_file_cases:
  assumes "scan_file decode hash strict f sc = (e, sc')"
  obtains (rejected) name h x where "reject strict name h x sc = (e, sc')"
  | (accepted) i raw where "accepts decode f i raw" and "i \<notin> fst ` set (sc_ids sc)" and "e = None"
      and "sc' = accept (fst f) i raw (hash raw) sc"
proof (cases "declared decode f")
  case None
  then show thesis
    using assms rejected
    by (auto simp: scan_file_def declared_def case_prod_beta split: option.splits sum.splits)
next
  case (Some i)
  then obtain raw ops where raw: "snd f = Some raw" and p: "parse decode raw = Inr (i, ops)"
    by (auto simp: declared_iff accepts_def)
  then have acc: "accepts decode f i raw" by (auto simp: accepts_def)
  show thesis
  proof (cases "map_of (sc_ids sc) i")
    case None
    then have fresh: "i \<notin> fst ` set (sc_ids sc)" by (simp add: map_of_eq_None_iff)
    show thesis
      using assms accepted [OF acc fresh] raw p None by (simp add: scan_file_def case_prod_beta)
  next
    case (Some other)
    then show thesis
      using assms rejected raw p by (simp add: scan_file_def case_prod_beta)
  qed
qed

lemma reject_frame:
  "reject strict name h x sc = (e, sc') \<Longrightarrow>
     sc_apply sc' = sc_apply sc \<and> sc_ids sc' = sc_ids sc \<and> (e \<noteq> None \<longleftrightarrow> strict)"
  by (auto simp: reject_def split: if_splits)

lemma scan_file_ok:
  assumes "scan_file decode hash strict f sc = (e, sc')" and "f \<in> set fs" and "scan_ok decode hash fs sc"
  shows "scan_ok decode hash fs sc'"
  using assms(1)
proof (cases rule: scan_file_cases)
  case (rejected name h x)
  then show ?thesis using assms(3) reject_frame by (metis scan_ok_def)
next
  case (accepted i raw)
  then have "pending_from decode hash fs \<lparr>pe_file = fst f, pe_id = i, pe_raw = raw, pe_hash = hash raw\<rparr>"
    using assms(2) by (auto simp: pending_from_def)
  moreover have "i \<notin> pe_id ` set (sc_apply sc)"
    using accepted(2) assms(3) by (auto simp: scan_ok_def)
  ultimately show ?thesis
    using assms(3) by (auto simp: accepted(4) accept_def Let_def scan_ok_def)
qed

lemma scan_files_ok:
  assumes "scan_files decode hash strict gs sc = (e, sc')" and "set gs \<subseteq> set fs" and "scan_ok decode hash fs sc"
  shows "scan_ok decode hash fs sc'"
  using assms
  by (induction gs arbitrary: sc) (auto dest: scan_file_ok split: prod.splits option.splits)

lemma scan_file_lenient: "scan_file decode hash False f sc = (e, sc') \<Longrightarrow> e = None"
  by (auto elim: scan_file_cases dest: reject_frame)

lemma scan_files_lenient: "fst (scan_files decode hash False fs sc) = None"
  by (induction fs arbitrary: sc) (auto dest: scan_file_lenient split: prod.splits option.splits)

section \<open>What the upserts do\<close>

lemma upsert_lookup:
  "map_of (snd (upsert_definition now i raw h t)) j =
     (if j = i \<and> (\<forall>r. map_of t i = Some r \<longrightarrow> dr_hash r \<noteq> h)
      then Some \<lparr>dr_yaml = raw, dr_hash = h, dr_updated = now\<rparr> else map_of t j)"
  by (auto simp: upsert_definition_def Let_def map_add_def update_conv' split: option.splits)

lemma distinct_upsert:
  "distinct (map fst t) \<Longrightarrow> distinct (map fst (snd (upsert_definition now i raw h t)))"
  by (auto simp: upsert_definition_def Let_def map_of_eq_None_iff distinct_update split: option.splits)

lemma apply_lenient: "fst (apply_pending False fails now ps l t) = None"
  by (induction ps arbitrary: l t) (auto split: prod.splits)

lemma apply_distinct:
  "apply_pending strict fails now ps l t = (e, l', t') \<Longrightarrow> distinct (map fst t) \<Longrightarrow> distinct (map fst t')"
  by (induction ps arbitrary: l t)
     (auto simp: case_prod_beta split: if_splits dest: distinct_upsert)

lemma apply_lookup:
  assumes "apply_pending strict fails now ps l t = (e, l', t')" and "distinct (map pe_id ps)"
  shows "map_of t' i = map_of t i \<or>
    (\<exists>p \<in> set ps. pe_id p = i \<and> (\<forall>r. map_of t i = Some r \<longrightarrow> dr_hash r \<noteq> pe_hash p) \<and>
       map_of t' i = Some \<lparr>dr_yaml = pe_raw p, dr_hash = pe_hash p, dr_updated = now\<rparr>)"
  using assms
proof (induction ps arbitrary: l t)
  case (Cons p ps)
  show ?case
  proof (cases "fails (pe_id p)")
    case True
    then show ?thesis using Cons by (auto split: if_splits)
  next
    case False
    obtain wrote t1 where u: "upsert_definition now (pe_id p) (pe_raw p) (pe_hash p) t = (wrote, t1)" by force
    have look: "map_of t1 j = (if j = pe_id p \<and> (\<forall>r. map_of t (pe_id p) = Some r \<longrightarrow> dr_hash r \<noteq> pe_hash p)
        then Some \<lparr>dr_yaml = pe_raw p, dr_hash = pe_hash p, dr_updated = now\<rparr> else map_of t j)" for j
      using upsert_lookup [of now "pe_id p" "pe_raw p" "pe_hash p" t j] u by simp
    have rest: "apply_pending strict fails now ps (mark_stored p wrote l) t1 = (e, l', t')"
      using Cons.prems(1) False u by simp
    note IH = Cons.IH [OF rest]
    show ?thesis
    proof (cases "i = pe_id p")
      case True
      then have "\<forall>q \<in> set ps. pe_id q \<noteq> i" using Cons.prems(2) by (auto simp: image_iff)
      then have "map_of t' i = map_of t1 i" using IH Cons.prems(2) by auto
      then show ?thesis using look [of i] True by auto
    next
      case False
      then show ?thesis using IH Cons.prems(2) look [of i] by auto
    qed
  qed
qed simp

lemma apply_all_stored:
  assumes "apply_pending True fails now ps l t = (None, l', t')" and "distinct (map pe_id ps)" and "p \<in> set ps"
  shows "\<exists>r. map_of t' (pe_id p) = Some r \<and> dr_hash r = pe_hash p"
  using assms
proof (induction ps arbitrary: l t)
  case (Cons q ps)
  obtain wrote t1 where u: "upsert_definition now (pe_id q) (pe_raw q) (pe_hash q) t = (wrote, t1)" by force
  have rest: "apply_pending True fails now ps (mark_stored q wrote l) t1 = (None, l', t')"
    using Cons.prems(1) u by (auto split: if_splits)
  show ?case
  proof (cases "p = q")
    case True
    have "\<exists>r. map_of t1 (pe_id p) = Some r \<and> dr_hash r = pe_hash p"
      using upsert_lookup [of now "pe_id q" "pe_raw q" "pe_hash q" t "pe_id q"] u True
      by (cases "map_of t (pe_id q)") (auto split: if_splits)
    moreover have "map_of t' (pe_id p) = map_of t1 (pe_id p)"
      using apply_lookup [OF rest, of "pe_id p"] Cons.prems(2) True by (auto simp: image_iff)
    ultimately show ?thesis by simp
  next
    case False
    then show ?thesis using Cons.IH [OF rest] Cons.prems by auto
  qed
qed simp


section \<open>A pass over the directory\<close>

lemma load_cases:
  assumes "load decode hash strict fails now (Some es) l t = (e, l', t')"
  obtains (rejected) "strict" and "t' = t" and "e \<noteq> None"
  | (applied) ps l1 where "list_all (pending_from decode hash (yaml_files es)) ps" and "distinct (map pe_id ps)"
      and "apply_pending strict fails now ps l1 t = (e, l', t')"
proof -
  let ?sc = "\<lparr>sc_loader = l, sc_ids = [], sc_apply = []\<rparr>"
  obtain e1 sc where sc: "scan_files decode hash strict (yaml_files es) ?sc = (e1, sc)" by force
  have ok: "scan_ok decode hash (yaml_files es) sc"
    using scan_files_ok [OF sc order_refl] by (simp add: scan_ok_def)
  show thesis
  proof (cases e1)
    case None
    then have "apply_pending strict fails now (sc_apply sc) (sc_loader sc) t = (e, l', t')"
      using assms sc by (simp add: load_def)
    then show thesis using applied ok by (auto simp: scan_ok_def)
  next
    case (Some x)
    then have "strict" using sc scan_files_lenient [of decode hash "yaml_files es" ?sc] by (cases strict) auto
    then show thesis using rejected assms sc Some by (auto simp: load_def)
  qed
qed

lemma mem_yaml_files:
  "f \<in> set (yaml_files es) \<longleftrightarrow> (\<exists>en \<in> set es. is_yaml en \<and> f = (de_name en, de_content en))"
  by (auto simp: yaml_files_def)

definition good_row :: "(string \<Rightarrow> file_doc option) \<Rightarrow> (string \<Rightarrow> string) \<Rightarrow> string \<times> def_row \<Rightarrow> bool" where
  "good_row decode hash ir =
     (dr_hash (snd ir) = hash (dr_yaml (snd ir)) \<and>
      (case parse decode (dr_yaml (snd ir)) of Inl e \<Rightarrow> False | Inr (j, ops) \<Rightarrow> j = fst ir))"

definition good_table :: "(string \<Rightarrow> file_doc option) \<Rightarrow> (string \<Rightarrow> string) \<Rightarrow> def_table \<Rightarrow> bool" where
  "good_table decode hash t = (distinct (map fst t) \<and> list_all (good_row decode hash) t)"

lemma load_lookup:
  assumes "load decode hash strict fails now (Some es) l t = (e, l', t')"
  shows "map_of t' i = map_of t i \<or>
    (\<exists>en \<in> set es. \<exists>raw ops. is_yaml en \<and> de_content en = Some raw \<and> parse decode raw = Inr (i, ops) \<and>
       (\<forall>r. map_of t i = Some r \<longrightarrow> dr_hash r \<noteq> hash raw) \<and>
       map_of t' i = Some \<lparr>dr_yaml = raw, dr_hash = hash raw, dr_updated = now\<rparr>)"
  using assms
proof (cases rule: load_cases)
  case (applied ps l1)
  from apply_lookup [OF applied(3,2), of i] show ?thesis
  proof
    assume "\<exists>p \<in> set ps. pe_id p = i \<and> (\<forall>r. map_of t i = Some r \<longrightarrow> dr_hash r \<noteq> pe_hash p) \<and>
       map_of t' i = Some \<lparr>dr_yaml = pe_raw p, dr_hash = pe_hash p, dr_updated = now\<rparr>"
    then obtain p where p: "p \<in> set ps" "pe_id p = i" "\<forall>r. map_of t i = Some r \<longrightarrow> dr_hash r \<noteq> pe_hash p"
      "map_of t' i = Some \<lparr>dr_yaml = pe_raw p, dr_hash = pe_hash p, dr_updated = now\<rparr>" by blast
    then have "pending_from decode hash (yaml_files es) p" using applied(1) by (simp add: list_all_iff)
    then show ?thesis using p by (fastforce simp: pending_from_def accepts_def mem_yaml_files)
  qed simp
qed simp

lemma load_good:
  assumes "load decode hash strict fails now dir l t = (e, l', t')" and "good_table decode hash t"
  shows "good_table decode hash t'"
proof (cases dir)
  case None
  then show ?thesis using assms by (simp add: load_def)
next
  case (Some es)
  note ld = assms(1) [unfolded Some]
  have d: "distinct (map fst t')"
    using ld
  proof (cases rule: load_cases)
    case rejected
    then show ?thesis using assms(2) by (simp add: good_table_def)
  next
    case (applied ps l1)
    then show ?thesis using apply_distinct assms(2) by (auto simp: good_table_def)
  qed
  have "good_row decode hash (i, r)" if "(i, r) \<in> set t'" for i r
  proof -
    have "map_of t' i = Some r" using d that by simp
    then show ?thesis
      using load_lookup [OF ld, of i] assms(2)
      by (auto simp: good_table_def list_all_iff good_row_def dest!: map_of_SomeD)
  qed
  then show ?thesis using d by (auto simp: good_table_def list_all_iff)
qed

text \<open>Successive ticks of one replica's \<open>Watch\<close> in which no statement fails.\<close>

definition run_ticks ::
  "(string \<Rightarrow> file_doc option) \<Rightarrow> (string \<Rightarrow> string) \<Rightarrow> (int \<times> dir_entry list) list \<Rightarrow> loader \<times> def_table
     \<Rightarrow> loader \<times> def_table" where
  "run_ticks decode hash ticks lt =
     fold (\<lambda>(now, es). watch_tick decode hash (\<lambda>i. False) now (Some es)) ticks lt"

section \<open>Replicas, one table, their registries\<close>

record defs_sys =
  ds_loaders :: "nat \<Rightarrow> loader"
  ds_registries :: "nat \<Rightarrow> registry"
  ds_table :: def_table
  ds_answers :: "(string \<times> (def_error, definition_ops \<times> bool) result) list"

datatype def_event =
    BootPass nat "string \<Rightarrow> bool" int "dir_entry list option"
  | WatchPass nat "string \<Rightarrow> bool" int "dir_entry list option"
  | Lookup nat int int bool string

text \<open>
  A boot starts replica \<open>n\<close> with fresh maps; a lookup names the two clock readings and whether the
  row query reaches the database.
\<close>

fun def_step ::
  "(string \<Rightarrow> file_doc option) \<Rightarrow> (string \<Rightarrow> string) \<Rightarrow> def_event \<Rightarrow> defs_sys \<Rightarrow> defs_sys" where
  "def_step decode hash (BootPass n fails now dir) s =
     (case load_once decode hash fails now dir new_loader (ds_table s) of
        (e, l, t) \<Rightarrow> s\<lparr>ds_loaders := (ds_loaders s)(n := l), ds_table := t,
          ds_registries := (ds_registries s)(n := \<lparr>rg_ttl = 0, rg_cache = Map.empty\<rparr>)\<rparr>)"
| "def_step decode hash (WatchPass n fails now dir) s =
     (case watch_tick decode hash fails now dir (ds_loaders s n, ds_table s) of
        (l, t) \<Rightarrow> s\<lparr>ds_loaders := (ds_loaders s)(n := l), ds_table := t\<rparr>)"
| "def_step decode hash (Lookup n now later up i) s =
     (case registry_definition decode now later (\<lambda>j. if up then Some (map_of (ds_table s) j) else None) i
             (ds_registries s n) of
        (a, r) \<Rightarrow> s\<lparr>ds_registries := (ds_registries s)(n := r), ds_answers := ds_answers s @ [(i, a)]\<rparr>)"

definition empty_defs :: defs_sys where
  "empty_defs = \<lparr>ds_loaders = (\<lambda>n. new_loader), ds_registries = (\<lambda>n. \<lparr>rg_ttl = 0, rg_cache = Map.empty\<rparr>),
     ds_table = [], ds_answers = []\<rparr>"

definition answer_ok ::
  "(string \<Rightarrow> file_doc option) \<Rightarrow> string \<Rightarrow> (def_error, definition_ops \<times> bool) result \<Rightarrow> bool" where
  "answer_ok decode i a =
     (case a of Inl e \<Rightarrow> e = QueryFailed
      | Inr (ops, ok) \<Rightarrow> if ok then \<exists>raw. parse decode raw = Inr (i, ops) else ops = [])"

definition good_cache :: "(string \<Rightarrow> file_doc option) \<Rightarrow> registry \<Rightarrow> bool" where
  "good_cache decode r = (\<forall>i e. rg_cache r i = Some e \<longrightarrow> answer_ok decode i (Inr (re_def e, re_ok e)))"

definition defs_inv :: "(string \<Rightarrow> file_doc option) \<Rightarrow> (string \<Rightarrow> string) \<Rightarrow> defs_sys \<Rightarrow> bool" where
  "defs_inv decode hash s =
     (good_table decode hash (ds_table s) \<and> (\<forall>n. good_cache decode (ds_registries s n)) \<and>
      list_all (\<lambda>(i, a). answer_ok decode i a) (ds_answers s))"

lemma good_table_row:
  assumes "good_table decode hash t" and "map_of t i = Some r"
  shows "\<exists>ops. parse decode (dr_yaml r) = Inr (i, ops)"
proof -
  have "good_row decode hash (i, r)"
    using assms map_of_SomeD by (fastforce simp: good_table_def list_all_iff)
  then show ?thesis by (auto simp: good_row_def split: sum.splits)
qed

lemma good_cache_put:
  "good_cache decode r \<Longrightarrow> answer_ok decode i (Inr (re_def e, re_ok e)) \<Longrightarrow> good_cache decode (reg_put i e r)"
  by (simp add: good_cache_def reg_put_def)

lemma miss_good:
  assumes "good_cache decode r" and "good_table decode hash t"
    and "registry_miss decode later (\<lambda>j. if up then Some (map_of t j) else None) i r = (a, r')"
  shows "answer_ok decode i a \<and> good_cache decode r'"
proof (cases "up \<and> map_of t i \<noteq> None")
  case True
  then obtain row ops where "map_of t i = Some row" and "parse decode (dr_yaml row) = Inr (i, ops)"
    using good_table_row [OF assms(2)] by blast
  then show ?thesis
    using assms True by (auto simp: registry_miss_def answer_ok_def intro!: good_cache_put)
next
  case False
  then show ?thesis
    using assms by (auto simp: registry_miss_def answer_ok_def intro!: good_cache_put split: if_splits)
qed

lemma lookup_good:
  assumes "good_cache decode r" and "good_table decode hash t"
    and "registry_definition decode now later (\<lambda>j. if up then Some (map_of t j) else None) i r = (a, r')"
  shows "answer_ok decode i a \<and> good_cache decode r'"
  using assms miss_good [OF assms(1,2), of later up i a r']
  by (auto simp: registry_definition_def good_cache_def split: option.splits if_splits)

lemma def_step_inv:
  assumes "defs_inv decode hash s"
  shows "defs_inv decode hash (def_step decode hash ev s)"
proof (cases ev)
  case (BootPass n fails now dir)
  obtain e l t where ld: "load_once decode hash fails now dir new_loader (ds_table s) = (e, l, t)"
    using prod_cases3 by blast
  then have "good_table decode hash t"
    using assms load_good by (auto simp: load_once_def defs_inv_def)
  then show ?thesis using assms by (simp add: BootPass ld defs_inv_def good_cache_def)
next
  case (WatchPass n fails now dir)
  obtain e l t where ld: "load decode hash False fails now dir (ds_loaders s n) (ds_table s) = (e, l, t)"
    using prod_cases3 by blast
  then have "good_table decode hash t" using assms load_good by (auto simp: defs_inv_def)
  then show ?thesis
    using assms by (cases e) (simp_all add: WatchPass watch_tick_def ld defs_inv_def)
next
  case (Lookup n now later up i)
  obtain a r where lk: "registry_definition decode now later
      (\<lambda>j. if up then Some (map_of (ds_table s) j) else None) i (ds_registries s n) = (a, r)" by force
  then have "answer_ok decode i a \<and> good_cache decode r"
    using lookup_good [of decode "ds_registries s n" hash "ds_table s"] assms by (auto simp: defs_inv_def)
  then show ?thesis using assms by (simp add: Lookup lk defs_inv_def)
qed

interpretation definition_replicas: invariant_machine "def_step decode hash" "defs_inv decode hash"
  for decode hash
  by unfold_locales (rule def_step_inv)

lemma empty_defs_inv: "defs_inv decode hash empty_defs"
  by (simp add: defs_inv_def empty_defs_def good_table_def good_cache_def)

section \<open>The registry against the uncached answer\<close>

definition direct_answer ::
  "(string \<Rightarrow> file_doc option) \<Rightarrow> def_table \<Rightarrow> string \<Rightarrow> (def_error, definition_ops \<times> bool) result" where
  "direct_answer decode t i =
     (case map_of t i of
        None \<Rightarrow> Inr ([], False)
      | Some row \<Rightarrow>
          (case parse decode (dr_yaml row) of
             Inl e \<Rightarrow> Inl (StoredUnparseable i e)
           | Inr (j, ops) \<Rightarrow> if j \<noteq> i then Inl (StoredUnderKey i j) else Inr (ops, True)))"

record timed_lookup =
  tl_id :: string
  tl_now :: int
  tl_query :: int
  tl_put :: int

text \<open>Lookups against a table whose contents over time are \<open>hist\<close>.\<close>

fun serve_lookups ::
  "(string \<Rightarrow> file_doc option) \<Rightarrow> (int \<Rightarrow> def_table) \<Rightarrow> timed_lookup list \<Rightarrow> registry
     \<Rightarrow> (timed_lookup \<times> (def_error, definition_ops \<times> bool) result) list" where
  "serve_lookups decode hist [] r = []"
| "serve_lookups decode hist (k # ks) r =
     (case registry_definition decode (tl_now k) (tl_put k)
             (\<lambda>i. Some (map_of (hist (tl_query k)) i)) (tl_id k) r of
        (a, r') \<Rightarrow> (k, a) # serve_lookups decode hist ks r')"

definition cache_dated :: "(string \<Rightarrow> file_doc option) \<Rightarrow> (int \<Rightarrow> def_table) \<Rightarrow> int \<Rightarrow> int \<Rightarrow> registry \<Rightarrow> bool" where
  "cache_dated decode hist d ttl r =
     (reg_ttl r = ttl \<and> (\<forall>i e. rg_cache r i = Some e \<longrightarrow>
        (\<exists>s. re_at e - d \<le> s \<and> s \<le> re_at e \<and> Inr (re_def e, re_ok e) = direct_answer decode (hist s) i)))"

lemma reg_ttl_put [simp]: "reg_ttl (reg_put i e r) = reg_ttl r"
  by (simp add: reg_ttl_def reg_put_def)

lemma miss_direct:
  assumes "registry_miss decode later (\<lambda>i. Some (map_of t i)) i r = (a, r')"
  shows "a = direct_answer decode t i \<and>
     (r' = r \<or> (\<exists>e. r' = reg_put i e r \<and> re_at e = later \<and> a = Inr (re_def e, re_ok e)))"
  using assms
  by (auto simp: registry_miss_def direct_answer_def split: option.splits sum.splits if_splits)

lemma served_dated:
  assumes "cache_dated decode hist d ttl r" and "\<forall>k \<in> set ks. tl_query k \<le> tl_put k \<and> tl_put k \<le> tl_query k + d"
    and "(k, a) \<in> set (serve_lookups decode hist ks r)"
  shows "\<exists>s. (s = tl_query k \<or> tl_now k - ttl - d < s) \<and> a = direct_answer decode (hist s) (tl_id k)"
  using assms
proof (induction ks arbitrary: r)
  case (Cons q qs)
  obtain b r1 where q: "registry_definition decode (tl_now q) (tl_put q)
      (\<lambda>i. Some (map_of (hist (tl_query q)) i)) (tl_id q) r = (b, r1)" by force
  let ?hit = "\<exists>e. rg_cache r (tl_id q) = Some e \<and> tl_now q - re_at e < ttl"
  have "cache_dated decode hist d ttl r1 \<and>
      (\<exists>s. (s = tl_query q \<or> tl_now q - ttl - d < s) \<and> b = direct_answer decode (hist s) (tl_id q))"
  proof (cases ?hit)
    case True
    then obtain e where e: "rg_cache r (tl_id q) = Some e" "tl_now q - re_at e < ttl" by blast
    then have "b = Inr (re_def e, re_ok e)" "r1 = r"
      using q Cons.prems(1) by (auto simp: registry_definition_def cache_dated_def)
    moreover obtain s where "re_at e - d \<le> s" "Inr (re_def e, re_ok e) = direct_answer decode (hist s) (tl_id q)"
      using Cons.prems(1) e(1) unfolding cache_dated_def by blast
    ultimately show ?thesis using e(2) Cons.prems(1) by (intro conjI exI [of _ s]) auto
  next
    case False
    then have m: "registry_miss decode (tl_put q) (\<lambda>i. Some (map_of (hist (tl_query q)) i)) (tl_id q) r = (b, r1)"
      using q Cons.prems(1) by (auto simp: registry_definition_def cache_dated_def split: option.splits if_splits)
    note md = miss_direct [OF m]
    have lat: "tl_put q - d \<le> tl_query q" "tl_query q \<le> tl_put q" using Cons.prems(2) by auto
    have "cache_dated decode hist d ttl r1"
    proof (cases "r1 = r")
      case False
      then obtain e where "r1 = reg_put (tl_id q) e r" "re_at e = tl_put q" "b = Inr (re_def e, re_ok e)"
        using md by blast
      then show ?thesis
        using Cons.prems(1) md lat unfolding cache_dated_def
        by (auto simp: reg_put_def reg_ttl_def)
    qed (use Cons.prems(1) in simp)
    then show ?thesis using md by blast
  qed
  then show ?case using Cons.IH [of r1] Cons.prems(2,3) q by auto
qed simp

end
