(* ===== verification/DefinitionsClaims.thy ===== *)
theory DefinitionsClaims
  imports DefinitionsProps
begin

text \<open>
  What the definition surface promises: a strict boot, a run-time pass that keeps the last good row,
  replicas that write one table, a registry that hands the engine only definitions it can start and
  is stale for a bounded time, and the case in which the loader's latch keeps a file from being
  applied again.
\<close>

section \<open>The strict scan\<close>

definition pending_of :: "(string \<Rightarrow> file_doc option) \<Rightarrow> (string \<Rightarrow> string) \<Rightarrow> string \<times> string option \<Rightarrow> pending" where
  "pending_of decode hash f =
     \<lparr>pe_file = fst f, pe_id = the (declared decode f), pe_raw = the (snd f), pe_hash = hash (the (snd f))\<rparr>"

definition clean_files :: "(string \<Rightarrow> file_doc option) \<Rightarrow> (string \<times> string option) list \<Rightarrow> bool" where
  "clean_files decode fs =
     (list_all (\<lambda>f. declared decode f \<noteq> None) fs \<and> distinct (map (declared decode) fs))"

lemma strict_scan_file:
  "(\<exists>i. declared decode f = Some i \<and> i \<notin> fst ` set (sc_ids sc) \<and>
      scan_file decode hash True f sc = (None, accept (fst f) i (the (snd f)) (hash (the (snd f))) sc)) \<or>
   ((declared decode f = None \<or> the (declared decode f) \<in> fst ` set (sc_ids sc)) \<and>
      (\<exists>e. scan_file decode hash True f sc = (Some e, sc)))"
proof (cases "declared decode f")
  case None
  then show ?thesis
    by (auto simp: scan_file_def declared_def reject_def case_prod_beta split: option.splits sum.splits)
next
  case (Some i)
  then obtain raw ops where f: "snd f = Some raw" "parse decode raw = Inr (i, ops)"
    by (auto simp: declared_iff accepts_def)
  show ?thesis
  proof (cases "map_of (sc_ids sc) i")
    case None
    then have "i \<notin> fst ` set (sc_ids sc)" by (simp add: map_of_eq_None_iff)
    then show ?thesis using f Some None by (simp add: scan_file_def case_prod_beta)
  next
    case (Some other)
    then have "i \<in> fst ` set (sc_ids sc)" by (metis map_of_eq_None_iff option.distinct(1))
    then show ?thesis
      using f Some \<open>declared decode f = Some i\<close> by (simp add: scan_file_def reject_def case_prod_beta)
  qed
qed

lemma strict_scan_iff:
  "fst (scan_files decode hash True fs sc) = None \<longleftrightarrow>
     clean_files decode fs \<and> (\<forall>f \<in> set fs. the (declared decode f) \<notin> fst ` set (sc_ids sc))"
proof (induction fs arbitrary: sc)
  case Nil
  then show ?case by (simp add: clean_files_def)
next
  case (Cons f fs)
  from strict_scan_file [of decode f sc hash] show ?case
  proof (elim disjE exE conjE)
    fix i assume i: "declared decode f = Some i" "i \<notin> fst ` set (sc_ids sc)"
      and s: "scan_file decode hash True f sc = (None, accept (fst f) i (the (snd f)) (hash (the (snd f))) sc)"
    have "(Some i \<notin> declared decode ` set fs) = (\<forall>g \<in> set fs. the (declared decode g) \<noteq> i)"
      if "\<forall>g \<in> set fs. declared decode g \<noteq> None"
      using that by (auto simp: image_iff) (metis option.sel)+
    then show ?thesis
      using i by (simp add: s Cons.IH clean_files_def accept_def Let_def list_all_iff) blast
  qed (auto simp: clean_files_def)
qed

lemma strict_scan_result:
  assumes "scan_files decode hash True fs sc = (None, sc')"
    and "ld_applied (sc_loader sc) = Map.empty" and "\<And>raw. hash raw \<noteq> []"
  shows "sc_apply sc' = sc_apply sc @ map (pending_of decode hash) fs \<and>
    ld_applied (sc_loader sc') = Map.empty \<and>
    (ld_errored (sc_loader sc) = Map.empty \<longrightarrow> ld_errored (sc_loader sc') = Map.empty)"
  using assms(1,2)
proof (induction fs arbitrary: sc)
  case (Cons f fs)
  from strict_scan_file [of decode f sc hash] Cons.prems(1)
  obtain i where i: "declared decode f = Some i"
    and s: "scan_file decode hash True f sc = (None, accept (fst f) i (the (snd f)) (hash (the (snd f))) sc)"
    by auto
  let ?a = "accept (fst f) i (the (snd f)) (hash (the (snd f))) sc"
  have a: "sc_apply ?a = sc_apply sc @ [pending_of decode hash f]" "ld_applied (sc_loader ?a) = Map.empty"
    "ld_errored (sc_loader sc) = Map.empty \<longrightarrow> ld_errored (sc_loader ?a) = Map.empty"
    using Cons.prems(2) assms(3) [of "the (snd f)"] i
    by (auto simp: accept_def Let_def go_get_def pending_of_def)
  have "scan_files decode hash True fs ?a = (None, sc')" using Cons.prems(1) s by simp
  from Cons.IH [OF this a(2)] show ?case using a by simp
qed simp

lemma apply_strict_iff:
  "fst (apply_pending True fails now ps l t) = None \<longleftrightarrow> list_all (\<lambda>p. \<not> fails (pe_id p)) ps"
  by (induction ps arbitrary: l t) (auto simp: case_prod_beta)

lemma apply_latches:
  assumes "apply_pending True fails now ps l t = (None, l', t')" and "distinct (map pe_file ps)"
  shows "ld_errored l' = ld_errored l \<and> (\<forall>p \<in> set ps. ld_applied l' (pe_file p) = Some (pe_hash p)) \<and>
    (\<forall>f. f \<notin> pe_file ` set ps \<longrightarrow> ld_applied l' f = ld_applied l f)"
  using assms
proof (induction ps arbitrary: l t)
  case (Cons p ps)
  have step: "apply_pending True fails now ps
      (mark_stored p (fst (upsert_definition now (pe_id p) (pe_raw p) (pe_hash p) t)) l)
      (snd (upsert_definition now (pe_id p) (pe_raw p) (pe_hash p) t)) = (None, l', t')"
    using Cons.prems(1) by (simp add: case_prod_beta split: if_splits)
  show ?case using Cons.IH [OF step] Cons.prems(2) by (auto simp: mark_stored_def)
qed simp

lemma apply_present:
  assumes "\<forall>p \<in> set ps. \<exists>r. map_of t (pe_id p) = Some r \<and> dr_hash r = pe_hash p"
  shows "snd (snd (apply_pending strict fails now ps l t)) = t"
  using assms
proof (induction ps arbitrary: l)
  case (Cons p ps)
  obtain r where "map_of t (pe_id p) = Some r" "dr_hash r = pe_hash p" using Cons.prems by auto
  then have "upsert_definition now (pe_id p) (pe_raw p) (pe_hash p) t = (False, t)"
    by (simp add: upsert_definition_def Let_def)
  then show ?case using Cons by (cases strict) auto
qed simp

lemma quiet_scan:
  assumes "clean_files decode fs"
    and "\<forall>f \<in> set fs. ld_applied l (fst f) = Some (hash (the (snd f)))" and "ld_errored l = Map.empty"
    and "\<forall>f \<in> set fs. the (declared decode f) \<notin> fst ` set ids"
  shows "\<exists>ids'. scan_files decode hash strict fs \<lparr>sc_loader = l, sc_ids = ids, sc_apply = []\<rparr> =
    (None, \<lparr>sc_loader = l, sc_ids = ids', sc_apply = []\<rparr>)"
  using assms
proof (induction fs arbitrary: ids)
  case (Cons f fs)
  obtain i where i: "declared decode f = Some i" using Cons.prems(1) by (auto simp: clean_files_def)
  then obtain raw ops where f: "snd f = Some raw" "parse decode raw = Inr (i, ops)"
    by (auto simp: declared_iff accepts_def)
  have "map_of ids i = None" using Cons.prems(4) i by (simp add: map_of_eq_None_iff)
  then have s: "scan_file decode hash strict f \<lparr>sc_loader = l, sc_ids = ids, sc_apply = []\<rparr> =
      (None, \<lparr>sc_loader = l, sc_ids = ids @ [(i, fst f)], sc_apply = []\<rparr>)"
    using Cons.prems(2,3) f
    by (simp add: scan_file_def case_prod_beta accept_def Let_def go_get_def)
  have "the (declared decode g) \<noteq> i" if "g \<in> set fs" for g
    using that Cons.prems(1) i by (fastforce simp: clean_files_def list_all_iff)
  then show ?case using Cons.IH [of "ids @ [(i, fst f)]"] Cons.prems s by (simp add: clean_files_def)
qed simp

lemma clean_distinct:
  "clean_files decode fs \<Longrightarrow> distinct (map pe_id (map (pending_of decode hash) fs))"
proof (induction fs)
  case (Cons f fs)
  have "the (declared decode f) \<noteq> the (declared decode g)" if "g \<in> set fs" for g
    using that Cons.prems by (fastforce simp: clean_files_def list_all_iff)
  then have "the (declared decode f) \<notin> (\<lambda>g. the (declared decode g)) ` set fs" by blast
  moreover have "distinct (map (\<lambda>g. the (declared decode g)) fs)"
    using Cons by (simp add: clean_files_def pending_of_def comp_def)
  ultimately show ?case by (simp add: pending_of_def comp_def)
qed simp

lemma clean_boot:
  assumes "load_once decode hash fails now (Some es) new_loader t = (e, l', t')"
    and "clean_files decode (yaml_files es)" and "\<And>raw. hash raw \<noteq> []"
  shows "\<exists>l1. ld_applied l1 = Map.empty \<and> ld_errored l1 = Map.empty \<and>
    apply_pending True fails now (map (pending_of decode hash) (yaml_files es)) l1 t = (e, l', t')"
proof -
  let ?sc = "\<lparr>sc_loader = new_loader, sc_ids = [], sc_apply = []\<rparr>"
  have "fst (scan_files decode hash True (yaml_files es) ?sc) = None"
    using strict_scan_iff [of decode hash "yaml_files es" ?sc] assms(2) by simp
  then obtain sc where sc: "scan_files decode hash True (yaml_files es) ?sc = (None, sc)"
    by (metis prod.collapse)
  have "ld_applied (sc_loader ?sc) = Map.empty" by (simp add: new_loader_def)
  from strict_scan_result [of decode hash "yaml_files es" ?sc sc, OF sc this assms(3)] assms(1) sc
  show ?thesis by (auto simp: load_once_def load_def new_loader_def)
qed

lemma dirty_boot:
  assumes "load_once decode hash fails now (Some es) new_loader t = (e, l', t')"
    and "\<not> clean_files decode (yaml_files es)"
  shows "e \<noteq> None \<and> t' = t"
proof -
  let ?sc = "\<lparr>sc_loader = new_loader, sc_ids = [], sc_apply = []\<rparr>"
  have "fst (scan_files decode hash True (yaml_files es) ?sc) \<noteq> None"
    using strict_scan_iff [of decode hash "yaml_files es" ?sc] assms(2) by simp
  then obtain x sc where "scan_files decode hash True (yaml_files es) ?sc = (Some x, sc)"
    by (metis not_Some_eq prod.collapse)
  then show ?thesis using assms(1) by (auto simp: load_once_def load_def)
qed

lemma boot_facts:
  assumes "load_once decode hash fails now (Some es) new_loader t = (None, l', t')" and "\<And>raw. hash raw \<noteq> []"
  shows "clean_files decode (yaml_files es) \<and> (\<forall>f \<in> set (yaml_files es).
    \<exists>r. map_of t' (the (declared decode f)) = Some r \<and> dr_hash r = hash (the (snd f)))"
proof -
  have clean: "clean_files decode (yaml_files es)" using dirty_boot [OF assms(1)] by blast
  then obtain l1 where ap: "apply_pending True fails now (map (pending_of decode hash) (yaml_files es)) l1 t = (None, l', t')"
    using clean_boot [OF assms(1)] assms(2) by blast
  have "\<exists>r. map_of t' (the (declared decode f)) = Some r \<and> dr_hash r = hash (the (snd f))"
    if "f \<in> set (yaml_files es)" for f
    using apply_all_stored [OF ap clean_distinct [OF clean], of "pending_of decode hash f"] that
    by (simp add: pending_of_def)
  with clean show ?thesis by blast
qed

lemma hash_not_Nil: "\<forall>raw. hash raw \<noteq> [] \<Longrightarrow> [] \<noteq> hash raw" for hash :: "string \<Rightarrow> string"
  by metis

section \<open>A concrete directory\<close>

definition demo_decode :: "string \<Rightarrow> file_doc option" where
  "demo_decode raw =
     (if raw = ''A'' then Some \<lparr>fd_id = ''x'', fd_operations =
        [\<lparr>opd_operation = ''inspect'', opd_config = None, opd_spec = None\<rparr>]\<rparr>
      else if raw = ''B'' then Some \<lparr>fd_id = ''x'', fd_operations =
        [\<lparr>opd_operation = ''encode'', opd_config = None, opd_spec = None\<rparr>]\<rparr>
      else None)"

definition demo_hash :: "string \<Rightarrow> string" where
  "demo_hash raw = CHR ''h'' # raw"

definition yaml_entry :: "string \<Rightarrow> string \<Rightarrow> dir_entry" where
  "yaml_entry name raw = \<lparr>de_name = name, de_is_dir = False, de_content = Some raw\<rparr>"

definition demo_dir :: "dir_entry list" where
  "demo_dir = [yaml_entry ''b.yaml'' ''bad'', yaml_entry ''a.yaml'' ''A'']"

lemma demo_hash_not_Nil: "demo_hash raw \<noteq> []"
  by (simp add: demo_hash_def)

section \<open>Properties\<close>

text \<open>C20: from the empty table on, whatever the replicas' directories hold, whichever passes and
  statements fail and however lookups interleave with them, a registry answer is either a failed row
  query, a missing definition, or a definition with at least one operation, none of them nameless or
  an \<open>include\<close>, which the engine accepts for a new workflow.\<close>

theorem registry_never_poisoned:
  assumes "reachable (def_step decode hash) empty_defs s" and "(i, a) \<in> set (ds_answers s)"
  shows "case a of Inl e \<Rightarrow> e = QueryFailed
    | Inr (ops, ok) \<Rightarrow> if ok then ops_valid ops \<and> (\<exists>n d'. create_workflow mp ops d = Inr (n, d')) else ops = []"
proof -
  have "defs_inv decode hash s"
    using definition_replicas.reachable_inv [OF assms(1)] empty_defs_inv by blast
  then have "answer_ok decode i a" using assms(2) by (auto simp: defs_inv_def list_all_iff)
  moreover have "ops_valid ops \<and> (\<exists>n d'. create_workflow mp ops d = Inr (n, d'))"
    if "parse decode raw = Inr (i, ops)" for ops raw
    using parse_Inr [OF that] by (simp add: ops_valid_def create_workflow_def)
  ultimately show ?thesis by (auto simp: answer_ok_def split: sum.splits if_splits)
qed

definition demo_served :: defs_sys where
  "demo_served = run_events (def_step demo_decode demo_hash)
     [BootPass 0 (\<lambda>i. False) 5 (Some [yaml_entry ''a.yaml'' ''A'']), Lookup 0 6 6 True ''x''] empty_defs"

lemma demo_served_answers:
  "ds_answers demo_served =
     [(''x'', Inr ([\<lparr>od_operation = ''inspect'', od_config = Map.empty, od_spec = None\<rparr>], True))]"
  by (simp add: demo_served_def empty_defs_def load_once_def load_def yaml_files_def yaml_entry_def is_yaml_def
      has_suffix_def scan_file_def accept_def parse_def demo_decode_def demo_hash_def new_loader_def go_get_def
      upsert_definition_def mark_stored_def op_of_doc_def registry_definition_def registry_miss_def Let_def)

theorem registry_never_poisoned_witness:
  "ops_valid [\<lparr>od_operation = ''inspect'', od_config = Map.empty, od_spec = None\<rparr>] \<and>
   (\<exists>n d'. create_workflow ''m'' [\<lparr>od_operation = ''inspect'', od_config = Map.empty, od_spec = None\<rparr>]
      (\<lparr>workflows = [], tasks = [], next_wf = 0, next_task = 0, clock = 0, db_data = ()\<rparr> :: unit db) =
      Inr (n, d'))"
proof -
  have r: "reachable (def_step demo_decode demo_hash) empty_defs demo_served"
    unfolding demo_served_def by (rule reachable_run) (rule reach_start)
  show ?thesis
    using registry_never_poisoned [OF r, of "''x''"
      "Inr ([\<lparr>od_operation = ''inspect'', od_config = Map.empty, od_spec = None\<rparr>], True)" "''m''"
      "\<lparr>workflows = [], tasks = [], next_wf = 0, next_task = 0, clock = 0, db_data = ()\<rparr>"]
    by (simp add: demo_served_answers)
qed

text \<open>C21: a run-time pass over a readable directory never fails, and a row of the table is either
  the row that was there or the bytes and hash of a file of the directory that parses to its id and
  differs from it; so a file that stopped parsing, an unreadable file or a removed one leaves the last
  good row of its id in place.\<close>

theorem runtime_keeps_last_good:
  assumes "load decode hash False fails now (Some es) l t = (e, l', t')"
  shows "e = None \<and> (map_of t' i = map_of t i \<or>
    (\<exists>en \<in> set es. \<exists>raw ops. is_yaml en \<and> de_content en = Some raw \<and> parse decode raw = Inr (i, ops) \<and>
       (\<forall>r. map_of t i = Some r \<longrightarrow> dr_hash r \<noteq> hash raw) \<and>
       map_of t' i = Some \<lparr>dr_yaml = raw, dr_hash = hash raw, dr_updated = now\<rparr>))"
proof -
  have "e = None"
    using assms
  proof (cases rule: load_cases)
    case (applied ps l1)
    then show ?thesis using apply_lenient [of fails now ps l1 t] by simp
  qed simp
  then show ?thesis using load_lookup [OF assms, of i] by blast
qed

definition demo_table :: def_table where
  "demo_table = [(''x'', \<lparr>dr_yaml = ''A'', dr_hash = ''hA'', dr_updated = 3\<rparr>)]"

lemma demo_broken_pass:
  "load demo_decode demo_hash False (\<lambda>i. False) 9 (Some [yaml_entry ''a.yaml'' ''bad'']) new_loader demo_table =
     (None, file_error ''a.yaml'' ''hbad'' Undecodable new_loader, demo_table)"
  by (simp add: load_def yaml_files_def yaml_entry_def is_yaml_def has_suffix_def scan_file_def parse_def
      demo_decode_def reject_def demo_hash_def)

theorem runtime_keeps_last_good_witness:
  "map_of demo_table ''x'' = Some \<lparr>dr_yaml = ''A'', dr_hash = ''hA'', dr_updated = 3\<rparr> \<and>
   snd (snd (load demo_decode demo_hash False (\<lambda>i. False) 9 (Some [yaml_entry ''a.yaml'' ''bad'']) new_loader
     demo_table)) = demo_table"
  using runtime_keeps_last_good [OF demo_broken_pass, of "''x''"]
  by (simp only: demo_broken_pass) (simp add: demo_table_def)

text \<open>The boot pass succeeds exactly when every file can be read and parsed, no two declare one id
  and no statement fails; then every file's id holds a row with the file's hash, and when a file is
  rejected or an id declared twice nothing is written at all.\<close>

theorem boot_is_strict:
  assumes "load_once decode hash fails now (Some es) new_loader t = (e, l', t')" and "\<forall>raw. hash raw \<noteq> []"
  shows "(e = None \<longleftrightarrow> clean_files decode (yaml_files es) \<and>
            list_all (\<lambda>f. \<not> fails (the (declared decode f))) (yaml_files es)) \<and>
         (\<not> clean_files decode (yaml_files es) \<longrightarrow> t' = t) \<and>
         (e = None \<longrightarrow> (\<forall>f \<in> set (yaml_files es).
            \<exists>r. map_of t' (the (declared decode f)) = Some r \<and> dr_hash r = hash (the (snd f))))"
proof (cases "clean_files decode (yaml_files es)")
  case True
  let ?ps = "map (pending_of decode hash) (yaml_files es)"
  obtain l1 where ap: "apply_pending True fails now ?ps l1 t = (e, l', t')"
    using clean_boot [OF assms(1) True] assms(2) by blast
  have "e = None \<longleftrightarrow> list_all (\<lambda>f. \<not> fails (the (declared decode f))) (yaml_files es)"
    using apply_strict_iff [of fails now ?ps l1 t] ap by (simp add: list.pred_map comp_def pending_of_def)
  moreover have "\<forall>f \<in> set (yaml_files es).
      \<exists>r. map_of t' (the (declared decode f)) = Some r \<and> dr_hash r = hash (the (snd f))" if "e = None"
    using boot_facts [OF assms(1) [unfolded that]] assms(2) by blast
  ultimately show ?thesis using True by blast
next
  case False
  then show ?thesis using dirty_boot [OF assms(1)] by blast
qed

text \<open>Two replicas booting on one directory write one table: once the first has booted cleanly, a
  second replica's boot pass and the first one's next run-time passes find nothing to change, and a
  repeated run-time pass neither issues a statement nor logs a line.\<close>

theorem replicas_converge:
  assumes "load_once decode hash fails now (Some es) new_loader t = (None, l1, t1)"
    and "\<forall>raw. hash raw \<noteq> []" and "distinct (map fst (yaml_files es))"
  shows "snd (snd (load_once decode hash fails' later (Some es) new_loader t1)) = t1 \<and>
         watch_tick decode hash fails' later (Some es) (l1, t1) = (l1, t1)"
proof
  let ?fs = "yaml_files es" and ?ps = "map (pending_of decode hash) (yaml_files es)"
  have b: "clean_files decode ?fs" "\<And>f. f \<in> set ?fs \<Longrightarrow>
      \<exists>r. map_of t1 (the (declared decode f)) = Some r \<and> dr_hash r = hash (the (snd f))"
    using boot_facts [OF assms(1)] assms(2) by blast+
  obtain e l t2 where second: "load_once decode hash fails' later (Some es) new_loader t1 = (e, l, t2)"
    using prod_cases3 by blast
  have "\<forall>p \<in> set ?ps. \<exists>r. map_of t1 (pe_id p) = Some r \<and> dr_hash r = pe_hash p"
    using b(2) by (simp add: pending_of_def)
  then have "t2 = t1"
    using clean_boot [OF second b(1)] assms(2) apply_present [of ?ps t1] by (metis snd_conv)
  then show "snd (snd (load_once decode hash fails' later (Some es) new_loader t1)) = t1"
    using second by simp
  obtain l0 where l0: "ld_errored l0 = Map.empty" "apply_pending True fails now ?ps l0 t = (None, l1, t1)"
    using clean_boot [OF assms(1) b(1)] assms(2) by blast
  have "distinct (map pe_file ?ps)" using assms(3) by (simp add: comp_def pending_of_def)
  then have "\<forall>f \<in> set ?fs. ld_applied l1 (fst f) = Some (hash (the (snd f)))" "ld_errored l1 = Map.empty"
    using apply_latches [OF l0(2)] l0(1) by (auto simp: pending_of_def)
  then obtain ids where "scan_files decode hash False ?fs \<lparr>sc_loader = l1, sc_ids = [], sc_apply = []\<rparr> =
      (None, \<lparr>sc_loader = l1, sc_ids = ids, sc_apply = []\<rparr>)"
    using quiet_scan [OF b(1), of l1 hash "[]" False] by auto
  then show "watch_tick decode hash fails' later (Some es) (l1, t1) = (l1, t1)"
    by (simp add: watch_tick_def load_def)
qed

definition demo_booted :: "def_error option \<times> loader \<times> def_table" where
  "demo_booted = load_once demo_decode demo_hash (\<lambda>i. False) 9 (Some [yaml_entry ''a.yaml'' ''A'']) new_loader []"

lemma demo_booted_ok: "fst demo_booted = None"
  by (simp add: demo_booted_def load_once_def load_def yaml_files_def yaml_entry_def is_yaml_def
      has_suffix_def scan_file_def accept_def parse_def demo_decode_def demo_hash_def new_loader_def go_get_def
      upsert_definition_def mark_stored_def op_of_doc_def Let_def)

text \<open>The loader's \<open>applied\<close> latch is keyed by file name and never cleared: after a file was
  applied, then replaced by a differently named file for the same id, restoring the first file leaves
  the second one's content in the table, with no error logged, although the directory holds only the
  first.\<close>

theorem restored_file_not_applied:
  assumes "parse decode raw1 = Inr (i, ops1)" and "parse decode raw2 = Inr (i, ops2)"
    and "hash raw1 \<noteq> hash raw2" and "\<forall>raw. hash raw \<noteq> []"
    and "n1 \<noteq> n2" and "is_yaml (yaml_entry n1 raw1)" and "is_yaml (yaml_entry n2 raw2)"
  shows "\<exists>l. run_ticks decode hash [(t1, [yaml_entry n1 raw1]), (t2, [yaml_entry n2 raw2]), (t3, [yaml_entry n1 raw1])]
      (new_loader, []) =
      (l, [(i, \<lparr>dr_yaml = raw2, dr_hash = hash raw2, dr_updated = t2\<rparr>)]) \<and>
    list_all (\<lambda>x. case x of DefinitionLoaded _ _ _ _ \<Rightarrow> True | _ \<Rightarrow> False) (ld_log l)"
  using assms hash_not_Nil [OF assms(4)]
  by (simp add: run_ticks_def watch_tick_def load_def yaml_files_def scan_file_def accept_def new_loader_def go_get_def
      upsert_definition_def mark_stored_def Let_def yaml_entry_def)

text \<open>A registry answer is the uncached answer against the table as it was at the query itself or
  less than the cache lifetime plus the longest query before the lookup, whatever the table did in
  between and whichever ids were asked for.\<close>

theorem registry_staleness_bound:
  assumes "\<forall>k \<in> set ks. tl_query k \<le> tl_put k \<and> tl_put k \<le> tl_query k + d"
    and "(k, a) \<in> set (serve_lookups decode hist ks \<lparr>rg_ttl = ttl, rg_cache = Map.empty\<rparr>)"
  shows "\<exists>s. (s = tl_query k \<or> tl_now k - (if ttl \<le> 0 then registry_default_ttl else ttl) - d < s) \<and>
    a = direct_answer decode (hist s) (tl_id k)"
proof -
  have "cache_dated decode hist d (if ttl \<le> 0 then registry_default_ttl else ttl) \<lparr>rg_ttl = ttl, rg_cache = Map.empty\<rparr>"
    by (simp add: cache_dated_def reg_ttl_def)
  from served_dated [OF this assms] show ?thesis .
qed

definition demo_hist :: "int \<Rightarrow> def_table" where
  "demo_hist s = (if s < 10 then [] else demo_table)"

definition demo_lookups :: "timed_lookup list" where
  "demo_lookups = [\<lparr>tl_id = ''x'', tl_now = 9, tl_query = 9, tl_put = 12\<rparr>,
     \<lparr>tl_id = ''x'', tl_now = 13, tl_query = 13, tl_put = 13\<rparr>]"

end
