(* ===== verification/Fanout.thy ===== *)
theory Fanout
  imports Engine Interfaces
begin

text \<open>
  The resident worker of \<open>internal/worker/fanout.go\<close>: the spec-arithmetic admission ledger and the
  discovery loop with its concurrent slots. Shared state is the ledger, the slot channel and the
  in-flight and cooldown maps; each admitted task is a routine that runs the one-shot body, then
  performs its deferred clean-up as three separate steps, so every interleaving of the loop with the
  routines is a run of \<open>fan_step\<close>. Dimensions are Go's 64-bit ints; a ledger entry is a sum of at
  most \<open>MaxSlots\<close> int32 columns or configured defaults and does not wrap.
\<close>

section \<open>Admission\<close>

record admitter =
  ad_cap :: spec
  ad_used :: spec

definition no_spec :: spec where
  "no_spec = \<lparr>cpu_millis = 0, memory_mb = 0, gpu = 0, runtime_s = 0\<rparr>"

definition fits :: "int \<Rightarrow> int \<Rightarrow> int \<Rightarrow> bool \<Rightarrow> bool" where
  "fits used cand capacity zero_unconstrained =
     (if capacity \<le> 0 then zero_unconstrained \<or> cand \<le> 0 else used + cand \<le> capacity)"

definition admit_add :: "spec \<Rightarrow> spec \<Rightarrow> spec" where
  "admit_add u s = u\<lparr>cpu_millis := cpu_millis u + cpu_millis s, memory_mb := memory_mb u + memory_mb s,
     gpu := gpu u + gpu s\<rparr>"

definition try_admit :: "spec \<Rightarrow> admitter \<Rightarrow> bool \<times> admitter" where
  "try_admit s a =
     (if \<not> fits (cpu_millis (ad_used a)) (cpu_millis s) (cpu_millis (ad_cap a)) True \<or>
         \<not> fits (memory_mb (ad_used a)) (memory_mb s) (memory_mb (ad_cap a)) True \<or>
         \<not> fits (gpu (ad_used a)) (gpu s) (gpu (ad_cap a)) False
      then (False, a) else (True, a\<lparr>ad_used := admit_add (ad_used a) s\<rparr>))"

definition release :: "spec \<Rightarrow> admitter \<Rightarrow> admitter" where
  "release s a = a\<lparr>ad_used := (ad_used a)\<lparr>cpu_millis := cpu_millis (ad_used a) - cpu_millis s,
     memory_mb := memory_mb (ad_used a) - memory_mb s, gpu := gpu (ad_used a) - gpu s\<rparr>\<rparr>"

definition defaulted :: "spec \<Rightarrow> spec \<Rightarrow> spec" where
  "defaulted s def = s\<lparr>cpu_millis := (if cpu_millis s = 0 then cpu_millis def else cpu_millis s),
     memory_mb := (if memory_mb s = 0 then memory_mb def else memory_mb s),
     gpu := (if gpu s = 0 then gpu def else gpu s)\<rparr>"

section \<open>The loop and its slots\<close>

record fanout =
  fo_capacity :: spec
  fo_default :: spec
  fo_max_slots :: int
  fo_poll :: int
  fo_implemented :: "string list"

text \<open>The defaults \<open>RunFanout\<close> fills in: one slot, a second between polls.\<close>

definition max_slots :: "fanout \<Rightarrow> nat" where
  "max_slots f = (if fo_max_slots f \<le> 0 then 1 else nat (fo_max_slots f))"

definition poll_interval :: "fanout \<Rightarrow> int" where
  "poll_interval f = (if fo_poll f \<le> 0 then 1000000000 else fo_poll f)"

text \<open>A routine's phase: in its body, body returned, ledger released, slot given back.\<close>

datatype phase = InBody | Ended | Released | Freed

record routine =
  ro_task :: nat
  ro_spec :: spec
  ro_phase :: phase

record fan_state =
  fs_admitter :: admitter
  fs_slots :: nat
  fs_inflight :: "nat list"
  fs_cooldown :: "(nat \<times> int) list"
  fs_routines :: "routine list"

definition fan_start :: "fanout \<Rightarrow> fan_state" where
  "fan_start f = \<lparr>fs_admitter = \<lparr>ad_cap = fo_capacity f, ad_used = no_spec\<rparr>, fs_slots = 0,
     fs_inflight = [], fs_cooldown = [], fs_routines = []\<rparr>"

text \<open>The discovery query: the first 50 assigned tasks of an operation this worker claims.\<close>

definition candidates :: "fanout \<Rightarrow> 'd db \<Rightarrow> (nat \<times> spec) list" where
  "candidates f s =
     map (\<lambda>t. (t_id t, case t_spec t of (c, m, g, r) \<Rightarrow>
            \<lparr>cpu_millis = (case c of None \<Rightarrow> 0 | Some x \<Rightarrow> x), memory_mb = (case m of None \<Rightarrow> 0 | Some x \<Rightarrow> x),
             gpu = (case g of None \<Rightarrow> 0 | Some x \<Rightarrow> x), runtime_s = 0\<rparr>))
       (take 50 (sort_key t_id
         (filter (\<lambda>t. t_state t = ASSIGNED \<and> t_operation t \<in> set (fo_implemented f)) (tasks s))))"

definition busy :: "int \<Rightarrow> nat \<Rightarrow> fan_state \<Rightarrow> bool" where
  "busy now i s = (i \<in> set (fs_inflight s) \<or> (case map_of (fs_cooldown s) i of None \<Rightarrow> False | Some t \<Rightarrow> now < t))"

text \<open>One candidate of a poll; whether it was admitted.\<close>

definition consider_task :: "fanout \<Rightarrow> int \<Rightarrow> nat \<times> spec \<Rightarrow> fan_state \<Rightarrow> bool \<times> fan_state" where
  "consider_task f now c s =
     (if busy now (fst c) s then (False, s)
      else let spc = defaulted (snd c) (fo_default f) in
        case try_admit spc (fs_admitter s) of
          (False, a) \<Rightarrow> (False, s)
        | (True, a) \<Rightarrow>
            (if fs_slots s < max_slots f
             then (True, s\<lparr>fs_admitter := a, fs_slots := Suc (fs_slots s),
                    fs_inflight := fst c # fs_inflight s,
                    fs_routines := fs_routines s @ [\<lparr>ro_task = fst c, ro_spec = spc, ro_phase = InBody\<rparr>]\<rparr>)
             else (False, s\<lparr>fs_admitter := release spc a\<rparr>)))"

text \<open>
  The routine of task \<open>i\<close>: its body returns (a failure starts the cooldown), then the deferred steps.
\<close>

definition in_phase :: "nat \<Rightarrow> phase \<Rightarrow> routine \<Rightarrow> bool" where
  "in_phase i p r = (ro_task r = i \<and> ro_phase r = p)"

definition routine_of :: "nat \<Rightarrow> phase \<Rightarrow> fan_state \<Rightarrow> routine option" where
  "routine_of i p s = find (in_phase i p) (fs_routines s)"

definition move_routine :: "nat \<Rightarrow> phase \<Rightarrow> phase \<Rightarrow> fan_state \<Rightarrow> fan_state" where
  "move_routine i p q s =
     s\<lparr>fs_routines := update_where (in_phase i p) (\<lambda>r. r\<lparr>ro_phase := q\<rparr>) (fs_routines s)\<rparr>"

datatype fan_event =
    Consider int "nat \<times> spec"
  | BodyReturns int nat bool
  | ReleaseSpec nat
  | FreeSlot nat
  | Forget nat

fun fan_step :: "fanout \<Rightarrow> fan_event \<Rightarrow> fan_state \<Rightarrow> fan_state" where
  "fan_step f (Consider now c) s = snd (consider_task f now c s)"
| "fan_step f (BodyReturns now i failed) s =
     (case routine_of i InBody s of
        None \<Rightarrow> s
      | Some r \<Rightarrow> (move_routine i InBody Ended s)\<lparr>fs_cooldown :=
          (if failed then (i, now + poll_interval f) # fs_cooldown s else fs_cooldown s)\<rparr>)"
| "fan_step f (ReleaseSpec i) s =
     (case routine_of i Ended s of
        None \<Rightarrow> s
      | Some r \<Rightarrow> (move_routine i Ended Released s)\<lparr>fs_admitter := release (ro_spec r) (fs_admitter s)\<rparr>)"
| "fan_step f (FreeSlot i) s =
     (case routine_of i Released s of
        None \<Rightarrow> s
      | Some r \<Rightarrow> (move_routine i Released Freed s)\<lparr>fs_slots := fs_slots s - 1\<rparr>)"
| "fan_step f (Forget i) s =
     (case routine_of i Freed s of
        None \<Rightarrow> s
      | Some r \<Rightarrow> s\<lparr>fs_inflight := removeAll i (fs_inflight s),
          fs_routines := filter (\<lambda>r. \<not> in_phase i Freed r) (fs_routines s)\<rparr>)"

end
