(* ===== verification/FanoutProps.thy ===== *)
theory FanoutProps
  imports Fanout
begin

text \<open>
  The accounting of the fan-out: under every interleaving the ledger is the sum of the specs of the
  routines that have not released theirs, the channel holds one token per routine that has not given
  its slot back, and the in-flight map is the set of routines. Capacity follows for stated specs that
  are not negative, and fails for a negative one.
\<close>

section \<open>Accounting\<close>

definition holding :: "routine \<Rightarrow> bool" where
  "holding r = (ro_phase r = InBody \<or> ro_phase r = Ended)"

definition held :: "(spec \<Rightarrow> int) \<Rightarrow> routine list \<Rightarrow> int" where
  "held dim rs = sum_list (map (\<lambda>r. dim (ro_spec r)) (filter holding rs))"

definition occupied :: "routine list \<Rightarrow> nat" where
  "occupied rs = length (filter (\<lambda>r. ro_phase r \<noteq> Freed) rs)"

definition used_is_held :: "fan_state \<Rightarrow> bool" where
  "used_is_held s =
     (cpu_millis (ad_used (fs_admitter s)) = held cpu_millis (fs_routines s) \<and>
      memory_mb (ad_used (fs_admitter s)) = held memory_mb (fs_routines s) \<and>
      gpu (ad_used (fs_admitter s)) = held gpu (fs_routines s))"

definition fan_inv :: "fanout \<Rightarrow> fan_state \<Rightarrow> bool" where
  "fan_inv f s =
     (distinct (map ro_task (fs_routines s)) \<and> set (fs_inflight s) = ro_task ` set (fs_routines s) \<and>
      fs_slots s = occupied (fs_routines s) \<and> fs_slots s \<le> max_slots f \<and>
      ad_cap (fs_admitter s) = fo_capacity f \<and> used_is_held s)"

lemma held_simps [simp]:
  "held dim [] = 0" "held dim (r # rs) = (if holding r then dim (ro_spec r) else 0) + held dim rs"
  "held dim (xs @ ys) = held dim xs + held dim ys"
  by (simp_all add: held_def)

lemma occupied_simps [simp]:
  "occupied [] = 0" "occupied (r # rs) = (if ro_phase r = Freed then 0 else 1) + occupied rs"
  "occupied (xs @ ys) = occupied xs + occupied ys"
  by (simp_all add: occupied_def)

lemma holding_phase [simp]:
  "holding (r\<lparr>ro_phase := p\<rparr>) = (p = InBody \<or> p = Ended)"
  by (simp add: holding_def)

lemma used_release:
  "used_is_held s \<longleftrightarrow> (\<forall>dim \<in> {cpu_millis, memory_mb, gpu}. dim (ad_used (fs_admitter s)) = held dim (fs_routines s))"
  by (simp add: used_is_held_def)

text \<open>The routine of a task is one element of the list, and a move rewrites just that element.\<close>

lemma routine_split:
  assumes "routine_of i p s = Some r" and "distinct (map ro_task (fs_routines s))"
  obtains xs ys where "fs_routines s = xs @ r # ys" and "ro_task r = i" and "ro_phase r = p"
    and "\<And>q. fs_routines (move_routine i p q s) = xs @ r\<lparr>ro_phase := q\<rparr> # ys"
    and "filter (\<lambda>r. \<not> in_phase i p r) (fs_routines s) = xs @ ys"
    and "i \<notin> ro_task ` set (xs @ ys)"
proof -
  from assms(1) have r: "r \<in> set (fs_routines s)" "in_phase i p r"
    by (auto simp: routine_of_def find_Some_iff)
  then obtain xs ys where split: "fs_routines s = xs @ r # ys" by (meson split_list)
  have i: "ro_task r = i" "ro_phase r = p" using r(2) by (auto simp: in_phase_def)
  have others: "i \<notin> ro_task ` set (xs @ ys)" using assms(2) split i(1) by auto
  then have no: "\<not> in_phase i p u" if "u \<in> set (xs @ ys)" for u using that by (auto simp: in_phase_def)
  have "update_where (in_phase i p) g xs = xs" "update_where (in_phase i p) g ys = ys" for g
    by (rule update_where_none, use no in auto)+
  then have "fs_routines (move_routine i p q s) = xs @ r\<lparr>ro_phase := q\<rparr> # ys" for q
    using r(2) by (simp add: move_routine_def split update_where_def)
  moreover have "filter (\<lambda>r. \<not> in_phase i p r) (fs_routines s) = xs @ ys"
    using no r(2) by (auto simp: split filter_empty_conv intro!: filter_True)
  ultimately show thesis using that split i others by blast
qed

lemma fan_start_inv: "fan_inv f (fan_start f)"
  by (simp add: fan_inv_def fan_start_def used_is_held_def no_spec_def)

lemma try_admit_added:
  "try_admit c a = (True, a') \<Longrightarrow> a' = a\<lparr>ad_used := admit_add (ad_used a) c\<rparr>"
  by (auto simp: try_admit_def split: if_splits)

lemma release_admitted:
  "try_admit c a = (True, a') \<Longrightarrow> release c a' = a"
  by (auto simp: release_def admit_add_def dest!: try_admit_added)

lemma consider_task_cases:
  obtains (same) "consider_task f now c s = (False, s)"
  | (admitted) a where "fst c \<notin> set (fs_inflight s)" and "fs_slots s < max_slots f"
      and "try_admit (defaulted (snd c) (fo_default f)) (fs_admitter s) = (True, a)"
      and "consider_task f now c s = (True, s\<lparr>fs_admitter := a, fs_slots := Suc (fs_slots s),
             fs_inflight := fst c # fs_inflight s, fs_routines := fs_routines s @
               [\<lparr>ro_task = fst c, ro_spec = defaulted (snd c) (fo_default f), ro_phase = InBody\<rparr>]\<rparr>)"
proof (cases "try_admit (defaulted (snd c) (fo_default f)) (fs_admitter s)")
  case (Pair ok a)
  show thesis
  proof (cases "busy now (fst c) s \<or> \<not> ok \<or> \<not> fs_slots s < max_slots f")
    case True
    then show thesis
      using same Pair release_admitted [of "defaulted (snd c) (fo_default f)" "fs_admitter s" a]
      by (cases ok) (auto simp: consider_task_def Let_def)
  next
    case False
    then show thesis using admitted Pair by (auto simp: consider_task_def busy_def Let_def)
  qed
qed

lemma fan_step_inv:
  assumes "fan_inv f s"
  shows "fan_inv f (fan_step f ev s)"
proof (cases ev)
  case (Consider now c)
  show ?thesis
  proof (cases rule: consider_task_cases [of f now c s])
    case same
    then show ?thesis using assms by (simp add: Consider)
  next
    case (admitted a)
    then show ?thesis
      using assms
      by (auto simp: Consider fan_inv_def used_is_held_def admit_add_def holding_def dest!: try_admit_added)
  qed
next
  case (BodyReturns now i failed)
  show ?thesis
  proof (cases "routine_of i InBody s")
    case (Some r)
    have d: "distinct (map ro_task (fs_routines s))" using assms by (simp add: fan_inv_def)
    show ?thesis
      by (rule routine_split [OF Some d])
         (use assms in \<open>auto simp: BodyReturns Some fan_inv_def used_is_held_def holding_def move_routine_def\<close>)
  qed (use assms in \<open>simp add: BodyReturns\<close>)
next
  case (ReleaseSpec i)
  show ?thesis
  proof (cases "routine_of i Ended s")
    case (Some r)
    have d: "distinct (map ro_task (fs_routines s))" using assms by (simp add: fan_inv_def)
    show ?thesis
      by (rule routine_split [OF Some d])
         (use assms in \<open>auto simp: ReleaseSpec Some fan_inv_def used_is_held_def holding_def release_def move_routine_def\<close>)
  qed (use assms in \<open>simp add: ReleaseSpec\<close>)
next
  case (FreeSlot i)
  show ?thesis
  proof (cases "routine_of i Released s")
    case (Some r)
    have d: "distinct (map ro_task (fs_routines s))" using assms by (simp add: fan_inv_def)
    show ?thesis
      by (rule routine_split [OF Some d])
         (use assms in \<open>auto simp: FreeSlot Some fan_inv_def used_is_held_def holding_def move_routine_def\<close>)
  qed (use assms in \<open>simp add: FreeSlot\<close>)
next
  case (Forget i)
  show ?thesis
  proof (cases "routine_of i Freed s")
    case (Some r)
    have d: "distinct (map ro_task (fs_routines s))" using assms by (simp add: fan_inv_def)
    show ?thesis
      by (rule routine_split [OF Some d])
         (use assms in \<open>auto simp: Forget Some fan_inv_def used_is_held_def holding_def\<close>)
  qed (use assms in \<open>simp add: Forget\<close>)
qed

interpretation fan_slots: invariant_machine "fan_step f" "fan_inv f" for f
  by unfold_locales (rule fan_step_inv)

section \<open>Capacity\<close>

definition stated_nonneg :: "spec \<Rightarrow> bool" where
  "stated_nonneg s = (0 \<le> cpu_millis s \<and> 0 \<le> memory_mb s \<and> 0 \<le> gpu s)"

definition within :: "fanout \<Rightarrow> routine list \<Rightarrow> bool" where
  "within f rs =
     ((0 < cpu_millis (fo_capacity f) \<longrightarrow> held cpu_millis rs \<le> cpu_millis (fo_capacity f)) \<and>
      (0 < memory_mb (fo_capacity f) \<longrightarrow> held memory_mb rs \<le> memory_mb (fo_capacity f)) \<and>
      (0 < gpu (fo_capacity f) \<longrightarrow> held gpu rs \<le> gpu (fo_capacity f)) \<and>
      (gpu (fo_capacity f) \<le> 0 \<longrightarrow> list_all (\<lambda>r. gpu (ro_spec r) = 0) rs))"

definition cap_inv :: "fanout \<Rightarrow> fan_state \<Rightarrow> bool" where
  "cap_inv f s =
     (fan_inv f s \<and> list_all (\<lambda>r. stated_nonneg (ro_spec r)) (fs_routines s) \<and> within f (fs_routines s))"

text \<open>The guard of a run: the candidates it considers state no negative dimension.\<close>

fun costs_stated :: "fanout \<Rightarrow> fan_event \<Rightarrow> fan_state \<Rightarrow> bool" where
  "costs_stated f (Consider now c) s = stated_nonneg (defaulted (snd c) (fo_default f))"
| "costs_stated f (BodyReturns now i failed) s = True"
| "costs_stated f (ReleaseSpec i) s = True"
| "costs_stated f (FreeSlot i) s = True"
| "costs_stated f (Forget i) s = True"

lemma within_drop:
  "within f (xs @ r # ys) \<Longrightarrow> stated_nonneg (ro_spec r) \<Longrightarrow> within f (xs @ ys)"
  by (auto simp: within_def stated_nonneg_def split: if_splits)

lemma within_move:
  "within f (xs @ r # ys) \<Longrightarrow> stated_nonneg (ro_spec r) \<Longrightarrow>
     holding (r\<lparr>ro_phase := q\<rparr>) \<longrightarrow> holding r \<Longrightarrow> within f (xs @ r\<lparr>ro_phase := q\<rparr> # ys)"
  by (cases "holding r") (auto simp: within_def stated_nonneg_def)

lemma cap_keeps:
  assumes "cap_inv f s" and "fan_inv f s'"
    and "routine_of i p s = Some r" and "fs_routines s' = fs_routines (move_routine i p q s)"
    and "q = Ended \<longrightarrow> p = InBody" and "q \<noteq> InBody"
  shows "cap_inv f s'"
proof -
  have d: "distinct (map ro_task (fs_routines s))" using assms(1) by (simp add: cap_inv_def fan_inv_def)
  show ?thesis
  proof (rule routine_split [OF assms(3) d])
    fix xs ys
    assume split: "fs_routines s = xs @ r # ys" and ph: "ro_phase r = p"
      and mv: "\<And>q. fs_routines (move_routine i p q s) = xs @ r\<lparr>ro_phase := q\<rparr> # ys"
    have n: "stated_nonneg (ro_spec r)" using assms(1) split by (simp add: cap_inv_def)
    have "holding (r\<lparr>ro_phase := q\<rparr>) \<longrightarrow> holding r"
      using assms(5,6) ph by (auto simp: holding_def)
    then have "within f (xs @ r\<lparr>ro_phase := q\<rparr> # ys)"
      using within_move n assms(1) split by (auto simp: cap_inv_def)
    then show ?thesis using assms(1,2,4) mv split by (auto simp: cap_inv_def)
  qed
qed

lemma consider_within:
  assumes "cap_inv f s" and "stated_nonneg (defaulted (snd c) (fo_default f))"
  shows "cap_inv f (snd (consider_task f now c s))"
proof (cases rule: consider_task_cases [of f now c s])
  case same
  then show ?thesis using assms by simp
next
  case (admitted a)
  have "fan_inv f (snd (consider_task f now c s))"
    using fan_step_inv [of f s "Consider now c"] assms(1) by (simp add: cap_inv_def)
  moreover have "used_is_held s" "ad_cap (fs_admitter s) = fo_capacity f"
    using assms(1) by (auto simp: cap_inv_def fan_inv_def)
  ultimately show ?thesis
    using assms admitted(3,4)
    by (auto simp: cap_inv_def within_def try_admit_def fits_def used_is_held_def stated_nonneg_def holding_def
        split: if_splits)
qed

lemma cap_step_inv:
  assumes "cap_inv f s" and "costs_stated f ev s"
  shows "cap_inv f (fan_step f ev s)"
proof -
  have inv: "fan_inv f (fan_step f ev s)" using fan_step_inv assms(1) by (auto simp: cap_inv_def)
  show ?thesis
  proof (cases ev)
    case (Consider now c)
    then show ?thesis using consider_within assms by simp
  next
    case (BodyReturns now i failed)
    show ?thesis
    proof (cases "routine_of i InBody s")
      case (Some r)
      show ?thesis
        by (rule cap_keeps [OF assms(1) inv Some, of Ended]) (simp_all add: BodyReturns Some)
    qed (use assms in \<open>simp add: BodyReturns\<close>)
  next
    case (ReleaseSpec i)
    show ?thesis
    proof (cases "routine_of i Ended s")
      case (Some r)
      show ?thesis
        by (rule cap_keeps [OF assms(1) inv Some, of Released]) (simp_all add: ReleaseSpec Some)
    qed (use assms in \<open>simp add: ReleaseSpec\<close>)
  next
    case (FreeSlot i)
    show ?thesis
    proof (cases "routine_of i Released s")
      case (Some r)
      show ?thesis
        by (rule cap_keeps [OF assms(1) inv Some, of Freed]) (simp_all add: FreeSlot Some)
    qed (use assms in \<open>simp add: FreeSlot\<close>)
  next
    case (Forget i)
    show ?thesis
    proof (cases "routine_of i Freed s")
      case (Some r)
      have d: "distinct (map ro_task (fs_routines s))" using assms(1) by (simp add: cap_inv_def fan_inv_def)
      show ?thesis
        by (rule routine_split [OF Some d])
           (use assms inv within_drop in \<open>auto simp: Forget Some cap_inv_def\<close>)
    qed (use assms in \<open>simp add: Forget\<close>)
  qed
qed

interpretation fan_capacity: guarded_machine "fan_step f" "cap_inv f" "costs_stated f" for f
  by unfold_locales (rule cap_step_inv)

lemma fan_start_cap: "cap_inv f (fan_start f)"
  using fan_start_inv [of f] by (simp add: cap_inv_def fan_start_def within_def)

section \<open>Properties\<close>

definition demo_fanout :: fanout where
  "demo_fanout = \<lparr>fo_capacity = \<lparr>cpu_millis = 1000, memory_mb = 0, gpu = 0, runtime_s = 0\<rparr>,
     fo_default = no_spec, fo_max_slots = 4, fo_poll = 0, fo_implemented = [''encode'']\<rparr>"

definition cpu_spec :: "int \<Rightarrow> spec" where
  "cpu_spec n = no_spec\<lparr>cpu_millis := n\<rparr>"

text \<open>Whatever the loop considers and however the slots' bodies and clean-up steps interleave, the
  ledger is exactly the sum of the specs not yet released, a slot token is held exactly by the routines
  that have not given it back, never more than the configured number, and no task is run by two
  routines; when every routine is done the ledger is back at zero and every slot is free.\<close>

theorem fanout_accounts_exactly:
  assumes "reachable (fan_step f) (fan_start f) s"
  shows "used_is_held s \<and> fs_slots s = occupied (fs_routines s) \<and> fs_slots s \<le> max_slots f \<and>
    distinct (map ro_task (fs_routines s)) \<and> set (fs_inflight s) = ro_task ` set (fs_routines s) \<and>
    (fs_routines s = [] \<longrightarrow> cpu_millis (ad_used (fs_admitter s)) = 0 \<and> memory_mb (ad_used (fs_admitter s)) = 0 \<and>
       gpu (ad_used (fs_admitter s)) = 0 \<and> fs_slots s = 0)"
proof -
  have "fan_inv f s" using fan_slots.reachable_inv [OF assms fan_start_inv] .
  then show ?thesis by (auto simp: fan_inv_def used_is_held_def)
qed

definition demo_fan_run :: "fan_event list" where
  "demo_fan_run = [Consider 0 (1, cpu_spec 600), Consider 0 (2, cpu_spec 600), Consider 0 (3, cpu_spec 400),
     BodyReturns 5 1 True, ReleaseSpec 1, Consider 6 (1, cpu_spec 600), Consider 6 (2, cpu_spec 600)]"

lemma demo_fan_tasks:
  "map (\<lambda>r. (ro_task r, ro_phase r)) (fs_routines (run_events (fan_step demo_fanout) demo_fan_run (fan_start demo_fanout))) =
     [(1, Released), (3, InBody), (2, InBody)]"
  by code_simp

text \<open>C26: as long as no considered candidate states a negative dimension, the routines that hold
  resources fit the configured capacity in every constrained dimension, a worker without a GPU runs no
  task that states one, and at most the configured number of bodies run at once.\<close>

theorem admission_within_capacity:
  assumes "guarded_run (costs_stated f) (fan_step f) es (fan_start f)"
    and "s = run_events (fan_step f) es (fan_start f)"
  shows "within f (fs_routines s) \<and> length (filter (\<lambda>r. ro_phase r = InBody) (fs_routines s)) \<le> max_slots f"
proof -
  have inv: "cap_inv f s" using fan_capacity.guarded_run_inv [OF fan_start_cap assms(1)] assms(2) by simp
  have "length (filter (\<lambda>r. ro_phase r = InBody) rs) \<le> occupied rs" for rs
    by (induction rs) auto
  then show ?thesis using inv le_trans by (fastforce simp: cap_inv_def fan_inv_def)
qed

theorem admission_within_capacity_witness:
  "within demo_fanout (fs_routines (run_events (fan_step demo_fanout) demo_fan_run (fan_start demo_fanout)))"
proof -
  have "guarded_run (costs_stated demo_fanout) (fan_step demo_fanout) demo_fan_run (fan_start demo_fanout)"
    by code_simp
  from admission_within_capacity [OF this refl] show ?thesis by blast
qed

text \<open>A negative stated dimension, which nothing between the YAML file and this ledger rejects,
  buys capacity that does not exist: beside it tasks are admitted whose stated costs together exceed the
  worker's capacity.\<close>

theorem negative_spec_overcommits:
  assumes "0 < k" and "k \<le> c" and "3 \<le> fo_max_slots f" and "fo_capacity f = cpu_spec c" and "fo_default f = no_spec"
  shows "map (\<lambda>r. (ro_task r, cpu_millis (ro_spec r), ro_phase r))
      (fs_routines (run_events (fan_step f)
        [Consider now (1, cpu_spec c), Consider now (2, cpu_spec (- k)), Consider now (3, cpu_spec k)] (fan_start f))) =
    [(1, c, InBody), (2, - k, InBody), (3, k, InBody)] \<and> cpu_millis (fo_capacity f) < c + k"
  using assms
  by (simp add: fan_start_def consider_task_def busy_def try_admit_def fits_def admit_add_def defaulted_def cpu_spec_def
      no_spec_def max_slots_def Let_def)

end
