(* ===== verification/Worker.thy ===== *)
theory Worker
  imports Executor Gc "HOL-Library.Char_ord" "HOL-Library.List_Lexorder" "HOL-Library.Product_Lexorder"
begin

text \<open>
  The one-shot worker of \<open>internal/worker\<close> (\<open>worker.go\<close>, \<open>encode_inspect.go\<close>, \<open>pins.go\<close>): how a
  tool command line is built, the toolchain check, the source selection, and the three operations as
  download, process, upload, with the mutation they hand to \<open>ExecuteTask\<close>. The database the mutation
  writes is the catalog with the elements' technical metadata; the object store is passed along. What the
  worker runs or reads outside the repository is the parameter \<open>worker_env\<close>: the digest of a file, the
  effect of a tool on the scratch files, the decoded ffprobe output, float64 arithmetic, the JSON text
  of a result and the text of an error.
\<close>

section \<open>Tool invocations\<close>

text \<open>\<open>Config.Command\<close>: the argument vector, whose head is the program.\<close>

definition command :: "bool \<Rightarrow> spec \<Rightarrow> string \<Rightarrow> string list \<Rightarrow> string list" where
  "command cap_scopes s bin args =
     (if \<not> cap_scopes \<or> (cpu_millis s \<le> 0 \<and> memory_mb s \<le> 0) then bin # args
      else [''systemd-run'', ''--user'', ''--scope'', ''--collect'', ''--quiet''] @
           (if 0 < cpu_millis s then [''-p'', ''CPUQuota='' @ dec_int (cpu_millis s div 10) @ ''%''] else []) @
           (if 0 < memory_mb s then [''-p'', ''MemoryMax='' @ dec_int (memory_mb s) @ ''M''] else []) @
           [''--'', bin] @ args)"

text \<open>\<open>filepath.Join\<close> of a clean directory and a base name, and \<open>filepath.Ext\<close>.\<close>

definition path_dir :: "string \<Rightarrow> string" where
  "path_dir p = rev (drop 1 (dropWhile (\<lambda>x. x \<noteq> CHR ''/'') (rev p)))"

definition path_join :: "string \<Rightarrow> string \<Rightarrow> string" where
  "path_join dir b =
     (if b = [] \<or> b = ''.'' \<or> b = ''/'' then dir
      else if b = ''..'' then path_dir dir else dir @ ''/'' @ b)"

definition path_ext :: "string \<Rightarrow> string" where
  "path_ext p =
     (let b = rev (takeWhile (\<lambda>x. x \<noteq> CHR ''/'') (rev p))
      in if CHR ''.'' \<in> set b then CHR ''.'' # rev (takeWhile (\<lambda>x. x \<noteq> CHR ''.'') (rev b)) else [])"

section \<open>The worker's surroundings\<close>

type_synonym files = "(string \<times> string) list"

record 'f floats =
  parse_float :: "string \<Rightarrow> 'f option"
  float_zero :: 'f
  float_div :: "'f \<Rightarrow> 'f \<Rightarrow> 'f"
  round_millis :: "'f \<Rightarrow> int"

record stream =
  st_codec :: string
  st_width :: int
  st_height :: int
  st_nb_frames :: string
  st_avg_rate :: string
  st_channels :: int
  st_sample_rate :: string

record probe =
  pr_streams :: "stream list"
  pr_duration :: string

record 'f tech =
  te_duration :: int
  te_width :: int
  te_height :: int
  te_framecount :: int
  te_framerate :: 'f
  te_channels :: int
  te_samplerate :: int

datatype worker_error =
    ToolMissing string
  | ToolchainDrift string string
  | TaskRead engine_error
  | NoScratch
  | ConfigMissing
  | UnpinnedProfile string
  | AmbiguousSource string string string
  | NoSource string
  | DownloadFailed string
  | ToolFailed string
  | NoOutput string
  | ProbeJson string
  | BadDuration string
  | BadFrames string
  | BadSampleRate string
  | NoTracks
  | Unimplemented string

record 'f worker_env =
  we_digest :: "string \<Rightarrow> string option"
  we_exec :: "string list \<Rightarrow> files \<Rightarrow> (string \<times> files) option"
  we_sha256 :: "string \<Rightarrow> string"
  we_probe :: "string \<Rightarrow> probe option"
  we_floats :: "'f floats"
  we_marshal :: "(string \<times> string) list \<Rightarrow> string"
  we_describe :: "worker_error \<Rightarrow> string"

text \<open>\<open>dir\<close> is what \<open>MkdirTemp\<close> returned, \<open>uid\<close> the fresh uuid of the run.\<close>

record worker_config =
  wc_task :: nat
  wc_owner :: string
  wc_tools :: string
  wc_dir :: "string option"
  wc_lease :: int
  wc_spec :: spec
  wc_caps :: bool
  wc_uid :: string

text \<open>\<open>mp_element.tech\<close> is the map \<open>wd_tech\<close> from element id to the column's value.\<close>

record 'f worker_data =
  wd_cat :: catalog
  wd_tech :: "(string \<times> 'f tech) list"

section \<open>The toolchain check\<close>

definition pin_whisper_cli :: string where
  "pin_whisper_cli = ''82433e05609db8f1951345835122c284e09362c7a5423af9fd8f921de6d2f246''"

definition pin_model :: string where
  "pin_model = ''60ed5bc3dd14eea856493d334349b405782ddcaf0028d4b5df4088345fba2efe''"

definition pin_ffmpeg :: string where
  "pin_ffmpeg = ''df401a840625f4fe1e0eacf72663d9d1e200d7bf1f5f942a4804d1471e877f5c''"

definition pin_ffprobe :: string where
  "pin_ffprobe = ''30128a8b03723c7693bc9d04d9bc7470a1cdd9f3d2725e10ed0a6baacf574672''"

definition verify_tool :: "'f worker_env \<Rightarrow> string \<Rightarrow> string \<Rightarrow> (worker_error, unit) result" where
  "verify_tool E path want =
     (case we_digest E path of
        None \<Rightarrow> Inl (ToolMissing path)
      | Some got \<Rightarrow> if got \<noteq> want then Inl (ToolchainDrift path got) else Inr ())"

text \<open>
  The code ranges over a map, so which of several failing tools is reported varies from run to run; the
  order is the parameter \<open>ord\<close>, a permutation of the three pins.
\<close>

definition pinned_tools :: "(string \<times> string) list" where
  "pinned_tools = [(''whisper-cli'', pin_whisper_cli), (''ggml-base.bin'', pin_model), (''ffmpeg'', pin_ffmpeg)]"

fun verify_all :: "'f worker_env \<Rightarrow> string \<Rightarrow> (string \<times> string) list \<Rightarrow> (worker_error, unit) result" where
  "verify_all E dir [] = Inr ()"
| "verify_all E dir ((name, want) # ts) =
     bind_result (verify_tool E (path_join dir name) want) (\<lambda>_. verify_all E dir ts)"

definition verify_toolchain ::
  "((string \<times> string) list \<Rightarrow> (string \<times> string) list) \<Rightarrow> 'f worker_env \<Rightarrow> string \<Rightarrow> (worker_error, unit) result" where
  "verify_toolchain ord E dir = verify_all E dir (ord pinned_tools)"

section \<open>Sources and flavors\<close>

text \<open>\<open>Elements\<close> orders by creation time and id.\<close>

definition by_created :: "(string \<times> element_row) list \<Rightarrow> (string \<times> element_row) list" where
  "by_created = sort_key (\<lambda>(e, r). (el_created_at r, e))"

definition mp_elements :: "string \<Rightarrow> catalog \<Rightarrow> (string \<times> element_row) list" where
  "mp_elements = elements_of by_created"

definition is_source :: "string \<Rightarrow> string \<times> element_row \<Rightarrow> bool" where
  "is_source pattern er = (el_kind (snd er) = ''track'' \<and> flavor_matches pattern (el_flavor (snd er)))"

fun select_source ::
  "string \<Rightarrow> (string \<times> element_row) option \<Rightarrow> (string \<times> element_row) list
     \<Rightarrow> (worker_error, string \<times> element_row) result" where
  "select_source pattern found [] =
     (case found of None \<Rightarrow> Inl (NoSource pattern) | Some s \<Rightarrow> Inr s)"
| "select_source pattern found (er # ers) =
     (if is_source pattern er
      then (case found of
              Some s \<Rightarrow> Inl (AmbiguousSource pattern (fst s) (fst er))
            | None \<Rightarrow> select_source pattern (Some er) ers)
      else select_source pattern found ers)"

definition select_source_track ::
  "(string \<times> element_row) list \<Rightarrow> string \<Rightarrow> (worker_error, string \<times> element_row) result" where
  "select_source_track ers pattern = select_source pattern None ers"

definition apply_flavor :: "string \<Rightarrow> string \<Rightarrow> string" where
  "apply_flavor target source =
     (case (cut_at CHR ''/'' target, cut_at CHR ''/'' source) of
        ((t0, t1, tok), (s0, s1, sok)) \<Rightarrow>
          (if \<not> tok \<or> \<not> sok then target
           else (if t0 = ''*'' then s0 else t0) @ ''/'' @ (if t1 = ''*'' then s1 else t1)))"

text \<open>The comma-separated \<open>target-tags\<close>.\<close>

definition target_tags :: "string \<Rightarrow> string list" where
  "target_tags tt = (if tt = [] then [] else filter (\<lambda>t. t \<noteq> []) (map trim_space (split_on CHR '','' tt)))"

section \<open>Operations\<close>

text \<open>\<open>GetToFile\<close> into a scratch path; creating a file over an existing directory fails.\<close>

definition get_to_file :: "string \<Rightarrow> string \<Rightarrow> string \<Rightarrow> objects \<Rightarrow> files \<Rightarrow> files option" where
  "get_to_file dir sha path st fs =
     (case cas_get st sha of
        None \<Rightarrow> None
      | Some bytes \<Rightarrow> if path = dir \<or> path = path_dir dir then None else Some (AList.update path bytes fs))"

definition run_tool ::
  "'f worker_env \<Rightarrow> worker_config \<Rightarrow> string \<Rightarrow> string list \<Rightarrow> files \<Rightarrow> (worker_error, string \<times> files) result" where
  "run_tool E cfg tool args fs =
     (case we_exec E (command (wc_caps cfg) (wc_spec cfg) (path_join (wc_tools cfg) tool) args) fs of
        None \<Rightarrow> Inl (ToolFailed tool) | Some r \<Rightarrow> Inr r)"

definition scratch :: "worker_config \<Rightarrow> (worker_error, string) result" where
  "scratch cfg = (case wc_dir cfg of None \<Rightarrow> Inl NoScratch | Some dir \<Rightarrow> Inr dir)"

definition download ::
  "string \<Rightarrow> element_row \<Rightarrow> string \<Rightarrow> objects \<Rightarrow> files \<Rightarrow> (worker_error, files) result" where
  "download dir el path st fs =
     (case get_to_file dir (el_sha256 el) path st fs of
        None \<Rightarrow> Inl (DownloadFailed (el_sha256 el)) | Some fs' \<Rightarrow> Inr fs')"

definition output_file :: "string \<Rightarrow> files \<Rightarrow> (worker_error, string) result" where
  "output_file path fs = (case map_of fs path of None \<Rightarrow> Inl (NoOutput path) | Some b \<Rightarrow> Inr b)"

definition language_of :: "(string \<rightharpoonup> string) \<Rightarrow> string" where
  "language_of conf = (if go_get conf ''language'' = [] then ''en'' else go_get conf ''language'')"

definition media_name :: "element_row \<Rightarrow> string" where
  "media_name el =
     (let b = path_base (text_of (el_source el)) in if b = [] \<or> b = ''.'' then ''input'' else b)"

text \<open>\<open>transcribe\<close> up to the upload: the bytes of the subtitle file.\<close>

definition transcribe_run ::
  "'f worker_env \<Rightarrow> worker_config \<Rightarrow> catalog \<Rightarrow> string \<Rightarrow> (string \<rightharpoonup> string) \<Rightarrow> objects
     \<Rightarrow> (worker_error, string) result" where
  "transcribe_run E cfg c mp conf st =
     (if go_get conf ''source-flavor'' = [] \<or> go_get conf ''target-flavor'' = [] then Inl ConfigMissing
      else bind_result (select_source_track (mp_elements mp c) (go_get conf ''source-flavor'')) (\<lambda>src.
      bind_result (scratch cfg) (\<lambda>dir.
      let media = path_join dir (media_name (snd src)); wav = path_join dir ''audio.wav'';
          out = path_join dir ''out''
      in bind_result (download dir (snd src) media st []) (\<lambda>fs1.
         bind_result (run_tool E cfg ''ffmpeg'' [''-i'', media, ''-ar'', ''16000'', ''-ac'', ''1'',
             ''-c:a'', ''pcm_s16le'', wav] fs1) (\<lambda>(o1, fs2).
         bind_result (run_tool E cfg ''whisper-cli'' [wav, ''--model'', path_join (wc_tools cfg) ''ggml-base.bin'',
             ''-ovtt'', ''-oj'', ''--output-file'', out, ''--language'', language_of conf] fs2) (\<lambda>(o2, fs3).
         output_file (out @ ''.vtt'') fs3))))))"

text \<open>\<open>encode\<close> up to the upload: the bytes of the derived media and the source it came from.\<close>

definition encode_run ::
  "'f worker_env \<Rightarrow> worker_config \<Rightarrow> catalog \<Rightarrow> string \<Rightarrow> (string \<rightharpoonup> string) \<Rightarrow> objects
     \<Rightarrow> (worker_error, string \<times> element_row) result" where
  "encode_run E cfg c mp conf st =
     (if go_get conf ''source-flavor'' = [] \<or> go_get conf ''target-flavor'' = [] then Inl ConfigMissing
      else if go_get conf ''encoding-profile'' \<noteq> ''fast.http''
      then Inl (UnpinnedProfile (go_get conf ''encoding-profile''))
      else bind_result (select_source_track (mp_elements mp c) (go_get conf ''source-flavor'')) (\<lambda>src.
      bind_result (scratch cfg) (\<lambda>dir.
      let inp = path_join dir (path_base (text_of (el_source (snd src)))); out = path_join dir ''preview.mp4''
      in bind_result (download dir (snd src) inp st []) (\<lambda>fs1.
         bind_result (run_tool E cfg ''ffmpeg'' [''-nostdin'', ''-nostats'', ''-i'', inp, ''-filter:v'',
             ''crop=in_w/2*2:in_h/2*2'', ''-c:a'', ''aac'', ''-c:v'', ''libx264'', ''-preset'', ''faster'',
             ''-g'', ''30'', ''-pix_fmt'', ''yuv420p'', out] fs1) (\<lambda>(o1, fs2).
         bind_result (output_file out fs2) (\<lambda>bytes. Inr (bytes, snd src)))))))"

text \<open>The element a run records and its tags; \<open>nullif\<close> makes an empty text a null.\<close>

definition derived_element :: "string \<Rightarrow> string \<Rightarrow> string \<Rightarrow> string \<Rightarrow> nat \<Rightarrow> element_row" where
  "derived_element mp flavor mimetype sha bytes =
     \<lparr>el_mp = mp, el_kind = ''track'', el_flavor = flavor, el_mimetype = null_if_empty mimetype,
      el_sha256 = sha, el_size = int bytes, el_source = None, el_created_at = 0\<rparr>"

definition engine_error_of :: "cat_error \<Rightarrow> engine_error" where
  "engine_error_of e =
     ErrOther (case e of NoRows \<Rightarrow> ''no rows'' | ForeignKey \<Rightarrow> ''foreign key'' | UniqueViolation \<Rightarrow> ''unique''
               | AclRejected x \<Rightarrow> ''acl'')"

text \<open>A catalog write as the mutation of a completion; the row's \<open>created_at\<close> is the commit's \<open>now()\<close>.\<close>

definition on_catalog ::
  "(catalog \<Rightarrow> (cat_error, catalog) result) \<Rightarrow> 'f worker_data \<Rightarrow> (engine_error, 'f worker_data) result" where
  "on_catalog f d = bind_result (map_error engine_error_of (f (wd_cat d))) (\<lambda>c. Inr (d\<lparr>wd_cat := c\<rparr>))"

definition insert_mutation :: "string \<Rightarrow> element_row \<Rightarrow> string list \<Rightarrow> 'f worker_data mutation" where
  "insert_mutation uid el tags =
     Some (on_catalog (\<lambda>c. insert_element uid (el\<lparr>el_created_at := c_now c\<rparr>) tags False c))"

type_synonym 'f op_result =
  "(worker_error, (string \<times> string) list \<times> 'f worker_data mutation) result \<times> objects"

definition transcribe ::
  "'f worker_env \<Rightarrow> worker_config \<Rightarrow> catalog \<Rightarrow> string \<Rightarrow> (string \<rightharpoonup> string) \<Rightarrow> objects \<Rightarrow> 'f op_result" where
  "transcribe E cfg c mp conf st =
     (case transcribe_run E cfg c mp conf st of
        Inl e \<Rightarrow> (Inl e, st)
      | Inr bytes \<Rightarrow>
          (case put_file (we_sha256 E) bytes st of (sha, st') \<Rightarrow>
             (Inr ([(''element'', wc_uid cfg), (''sha256'', sha), (''language'', language_of conf),
                    (''engine'', ''WhisperC++'')],
                insert_mutation (wc_uid cfg)
                  (derived_element mp (go_get conf ''target-flavor'') ''text/vtt'' sha (length bytes))
                  [''generator-type:auto'', ''generator:whisperc++'', ''lang:'' @ language_of conf]), st')))"

definition encode ::
  "'f worker_env \<Rightarrow> worker_config \<Rightarrow> catalog \<Rightarrow> string \<Rightarrow> (string \<rightharpoonup> string) \<Rightarrow> objects \<Rightarrow> 'f op_result" where
  "encode E cfg c mp conf st =
     (case encode_run E cfg c mp conf st of
        Inl e \<Rightarrow> (Inl e, st)
      | Inr (bytes, src) \<Rightarrow>
          (case put_file (we_sha256 E) bytes st of (sha, st') \<Rightarrow>
             let flavor = apply_flavor (go_get conf ''target-flavor'') (el_flavor src) in
             (Inr ([(''element'', wc_uid cfg), (''sha256'', sha), (''profile'', go_get conf ''encoding-profile''),
                    (''flavor'', flavor)],
                insert_mutation (wc_uid cfg) (derived_element mp flavor ''video/mp4'' sha (length bytes))
                  (target_tags (go_get conf ''target-tags''))), st')))"

section \<open>Inspect\<close>

definition no_tech :: "'f floats \<Rightarrow> 'f tech" where
  "no_tech F = \<lparr>te_duration = 0, te_width = 0, te_height = 0, te_framecount = 0, te_framerate = float_zero F,
     te_channels = 0, te_samplerate = 0\<rparr>"

definition frame_rate :: "'f floats \<Rightarrow> string \<Rightarrow> 'f \<Rightarrow> 'f" where
  "frame_rate F rate old =
     (case cut_at CHR ''/'' rate of (num, den, ok) \<Rightarrow>
        if ok
        then (case (parse_float F num, parse_float F den) of
                (Some n, Some d) \<Rightarrow> if d \<noteq> float_zero F then float_div F n d else old
              | _ \<Rightarrow> old)
        else old)"

fun probe_streams :: "'f floats \<Rightarrow> stream list \<Rightarrow> 'f tech \<Rightarrow> (worker_error, 'f tech) result" where
  "probe_streams F [] t = Inr t"
| "probe_streams F (s # ss) t =
     (if st_codec s = ''video''
      then bind_result (if st_nb_frames s = [] then Inr (te_framecount t)
                        else case parse_int64 (st_nb_frames s) of
                               None \<Rightarrow> Inl (BadFrames (st_nb_frames s)) | Some n \<Rightarrow> Inr n) (\<lambda>frames.
             probe_streams F ss (t\<lparr>te_width := st_width s, te_height := st_height s, te_framecount := frames,
               te_framerate := frame_rate F (st_avg_rate s) (te_framerate t)\<rparr>))
      else if st_codec s = ''audio''
      then bind_result (if st_sample_rate s = [] then Inr (te_samplerate t)
                        else case parse_int64 (st_sample_rate s) of
                               None \<Rightarrow> Inl (BadSampleRate (st_sample_rate s)) | Some n \<Rightarrow> Inr n) (\<lambda>rate.
             probe_streams F ss (t\<lparr>te_channels := st_channels s, te_samplerate := rate\<rparr>))
      else probe_streams F ss t)"

definition tech_from_probe :: "'f floats \<Rightarrow> probe \<Rightarrow> (worker_error, 'f tech) result" where
  "tech_from_probe F p =
     bind_result (if pr_duration p = [] then Inr 0
                  else case parse_float F (pr_duration p) of
                         None \<Rightarrow> Inl (BadDuration (pr_duration p)) | Some x \<Rightarrow> Inr (round_millis F x)) (\<lambda>ms.
       probe_streams F (pr_streams p) (no_tech F\<lparr>te_duration := ms\<rparr>))"

definition probe_track ::
  "'f worker_env \<Rightarrow> worker_config \<Rightarrow> string \<Rightarrow> objects \<Rightarrow> string \<times> element_row
     \<Rightarrow> (worker_error, string \<times> 'f tech) result" where
  "probe_track E cfg dir st er =
     (let path = path_join dir (fst er @ path_ext (text_of (el_source (snd er)))) in
      bind_result (download dir (snd er) path st []) (\<lambda>fs.
      bind_result (run_tool E cfg ''ffprobe'' [''-v'', ''error'', ''-show_format'', ''-show_streams'', ''-of'',
          ''json'', path] fs) (\<lambda>(out, fs').
      bind_result (case we_probe E out of None \<Rightarrow> Inl (ProbeJson (fst er)) | Some p \<Rightarrow> Inr p) (\<lambda>p.
      bind_result (tech_from_probe (we_floats E) p) (\<lambda>t. Inr (fst er, t))))))"

definition set_element_tech :: "string \<times> 'f tech \<Rightarrow> 'f worker_data \<Rightarrow> 'f worker_data" where
  "set_element_tech et d =
     (if map_of (c_el (wd_cat d)) (fst et) = None then d
      else d\<lparr>wd_tech := AList.update (fst et) (snd et) (wd_tech d)\<rparr>)"

definition element_tech :: "string \<Rightarrow> 'f worker_data \<Rightarrow> (cat_error, 'f tech option) result" where
  "element_tech e d =
     (if map_of (c_el (wd_cat d)) e = None then Inl NoRows else Inr (map_of (wd_tech d) e))"

definition set_duration_if_null :: "string \<Rightarrow> int \<Rightarrow> catalog \<Rightarrow> catalog" where
  "set_duration_if_null mp ms c =
     (case map_of (c_mp c) mp of
        None \<Rightarrow> c
      | Some m \<Rightarrow> if mp_duration m = None
                  then c\<lparr>c_mp := AList.update mp (m\<lparr>mp_duration := Some ms\<rparr>) (c_mp c)\<rparr> else c)"

definition inspect_mutation :: "string \<Rightarrow> (string \<times> 'f tech) list \<Rightarrow> int \<Rightarrow> 'f worker_data mutation" where
  "inspect_mutation mp probed ms =
     Some (\<lambda>d. on_catalog (\<lambda>c. project_event mp (set_duration_if_null mp ms c)) (fold set_element_tech probed d))"

definition max_duration :: "(string \<times> 'f tech) list \<Rightarrow> int" where
  "max_duration probed = fold (\<lambda>(e, t) m. if te_duration t > m then te_duration t else m) probed 0"

definition inspect_run ::
  "'f worker_env \<Rightarrow> worker_config \<Rightarrow> catalog \<Rightarrow> string \<Rightarrow> objects \<Rightarrow> (worker_error, (string \<times> 'f tech) list) result" where
  "inspect_run E cfg c mp st =
     bind_result (scratch cfg) (\<lambda>dir.
     bind_result (traverse (probe_track E cfg dir st)
         (filter (\<lambda>(e, r). el_kind r = ''track'') (mp_elements mp c))) (\<lambda>probed.
       if probed = [] then Inl NoTracks else Inr probed))"

definition inspect ::
  "'f worker_env \<Rightarrow> worker_config \<Rightarrow> catalog \<Rightarrow> string \<Rightarrow> objects \<Rightarrow> 'f op_result" where
  "inspect E cfg c mp st =
     (bind_result (inspect_run E cfg c mp st) (\<lambda>probed.
        Inr ([(''inspected'', dec (length probed)), (''duration_ms'', dec_int (max_duration probed))],
             inspect_mutation mp probed (max_duration probed))), st)"

section \<open>Running one task\<close>

text \<open>
  The body of an operation. \<open>rd\<close> is the database its reads see; the inspect operation checks its own
  tool before it reads anything.
\<close>

definition op_body ::
  "'f worker_env \<Rightarrow> worker_config \<Rightarrow> 'f worker_data db \<Rightarrow> task \<Rightarrow> objects \<Rightarrow> 'f op_result" where
  "op_body E cfg rd t st =
     (let c = wd_cat (db_data rd); with_mp = (\<lambda>f. case mediapackage_id (t_id t) rd of
            Inl e \<Rightarrow> (Inl (TaskRead e), st) | Inr mp \<Rightarrow> f mp)
      in if t_operation t = ''speechtotext'' then with_mp (\<lambda>mp. transcribe E cfg c mp (t_config t) st)
         else if t_operation t = ''encode'' then with_mp (\<lambda>mp. encode E cfg c mp (t_config t) st)
         else if t_operation t = ''inspect''
         then (case verify_tool E (path_join (wc_tools cfg) ''ffprobe'') pin_ffprobe of
                 Inl e \<Rightarrow> (Inl e, st) | Inr _ \<Rightarrow> with_mp (\<lambda>mp. inspect E cfg c mp st))
         else (Inl (Unimplemented (t_operation t)), st))"

definition outcome_of :: "'f worker_env \<Rightarrow> 'f op_result \<Rightarrow> 'f worker_data body_outcome" where
  "outcome_of E r =
     (case fst r of
        Inl e \<Rightarrow> BodyFailed (we_describe E e)
      | Inr (res, mutate) \<Rightarrow> BodyReturned (Inr (we_marshal E res)) mutate)"

datatype worker_run_error = BeforeTask worker_error | TaskError engine_error

text \<open>\<open>Run\<close>: its error, the object store and the database it leaves.\<close>

definition worker_run ::
  "((string \<times> string) list \<Rightarrow> (string \<times> string) list) \<Rightarrow> 'f worker_env \<Rightarrow> worker_config \<Rightarrow> 'f worker_data db
     \<Rightarrow> ('f worker_data db \<Rightarrow> 'f worker_data db) list \<Rightarrow> objects \<Rightarrow> 'f worker_data db
     \<Rightarrow> worker_run_error option \<times> objects \<times> 'f worker_data db" where
  "worker_run ord E cfg rd envs st s =
     (case verify_toolchain ord E (wc_tools cfg) of
        Inl e \<Rightarrow> (Some (BeforeTask e), st, s)
      | Inr _ \<Rightarrow>
          (case get_task (wc_task cfg) s of
             Inl e \<Rightarrow> (Some (BeforeTask (TaskRead e)), st, s)
           | Inr t \<Rightarrow>
               (let r = op_body E cfg rd t st;
                    st' = (if is_ok (start_task (t_id t) (wc_owner cfg) (wc_lease cfg) s) then snd r else st)
                in case execute_task (t_id t) (wc_owner cfg) (wc_lease cfg) (outcome_of E r) envs s of
                     (e, s') \<Rightarrow> (map_option TaskError e, st', s'))))"

end
