(* ===== verification/Ops.thy ===== *)
theory Ops
  imports Worker CatalogProps
begin

text \<open>
  The inline operations of \<open>internal/ops/inline.go\<close>: snapshot with its canonical manifest, the
  reference-based publish, and the reading back of an archived version. JSON encoding and decoding of
  a manifest are the parameters \<open>enc\<close> and \<open>decode\<close>. An operation reads first, and hands the
  completion transaction the mutation that writes.
\<close>

section \<open>Flavor lists\<close>

definition split_list_of :: "string \<Rightarrow> string list" where
  "split_list_of s = filter (\<lambda>p. p \<noteq> []) (map trim_space (split_on CHR '','' s))"

definition matches_any :: "string list \<Rightarrow> string \<Rightarrow> bool" where
  "matches_any patterns flavor = list_ex (\<lambda>p. flavor_matches p flavor) patterns"

section \<open>The archive manifest\<close>

record snapshot_element =
  ne_id :: string
  ne_kind :: string
  ne_flavor :: string
  ne_mimetype :: string
  ne_sha256 :: string
  ne_size :: int
  ne_tags :: "string list"

record snapshot_manifest =
  nm_mediapackage :: string
  nm_title :: string
  nm_duration :: int
  nm_elements :: "snapshot_element list"

definition canonical_key :: "snapshot_element \<Rightarrow> string \<times> string \<times> string" where
  "canonical_key e = (ne_kind e, ne_flavor e, ne_id e)"

definition canonical :: "snapshot_manifest \<Rightarrow> snapshot_manifest" where
  "canonical m = m\<lparr>nm_elements := sort_key canonical_key (nm_elements m)\<rparr>"

datatype op_error =
    OpRead cat_error
  | OpTask engine_error
  | SelectedNothing "string list"
  | ChannelMissing
  | SelectionUnsupported
  | FlavorsMissing

definition manifest_element :: "catalog \<Rightarrow> string \<Rightarrow> string \<times> element_row \<Rightarrow> snapshot_element" where
  "manifest_element c mp er =
     \<lparr>ne_id = fst er, ne_kind = el_kind (snd er), ne_flavor = el_flavor (snd er),
      ne_mimetype = text_of (el_mimetype (snd er)), ne_sha256 = el_sha256 (snd er),
      ne_size = el_size (snd er), ne_tags = sort (element_tags (\<lambda>ts. ts) mp c (fst er))\<rparr>"

definition selected :: "string list \<Rightarrow> string \<Rightarrow> catalog \<Rightarrow> (string \<times> element_row) list" where
  "selected patterns mp c = filter (\<lambda>er. matches_any patterns (el_flavor (snd er))) (mp_elements mp c)"

definition snapshot_patterns :: "(string \<rightharpoonup> string) \<Rightarrow> string list" where
  "snapshot_patterns conf =
     (let ps = split_list_of (go_get conf ''source-flavors'') in if ps = [] then [''*/*''] else ps)"

definition snapshot_manifest_of ::
  "catalog \<Rightarrow> string \<Rightarrow> (string \<rightharpoonup> string) \<Rightarrow> (op_error, snapshot_manifest) result" where
  "snapshot_manifest_of c mp conf =
     (case map_of (c_mp c) mp of
        None \<Rightarrow> Inl (OpRead NoRows)
      | Some m \<Rightarrow>
          (let els = selected (snapshot_patterns conf) mp c in
           if els = [] then Inl (SelectedNothing (snapshot_patterns conf))
           else Inr (canonical \<lparr>nm_mediapackage = mp, nm_title = text_of (mp_title m),
                  nm_duration = (case mp_duration m of None \<Rightarrow> 0 | Some d \<Rightarrow> d),
                  nm_elements = map (manifest_element c mp) els\<rparr>)))"

section \<open>Snapshot\<close>

definition max_version :: "string \<Rightarrow> catalog \<Rightarrow> nat" where
  "max_version mp c = fold max (map sn_version (filter (\<lambda>s. sn_mp s = mp) (c_snap c))) 0"

definition insert_snapshot :: "string \<Rightarrow> string \<Rightarrow> catalog \<Rightarrow> (cat_error, catalog) result" where
  "insert_snapshot mp sha c =
     (if map_of (c_mp c) mp = None then Inl ForeignKey
      else Inr (c\<lparr>c_snap := c_snap c @
        [\<lparr>sn_mp = mp, sn_version = max_version mp c + 1, sn_manifest = sha, sn_source = None\<rparr>]\<rparr>))"

type_synonym 'f inline_result =
  "(op_error, (string \<times> string) list \<times> 'f worker_data mutation) result \<times> objects"

definition snapshot_op ::
  "(snapshot_manifest \<Rightarrow> string) \<Rightarrow> (string \<Rightarrow> string) \<Rightarrow> 'f worker_data db \<Rightarrow> task \<Rightarrow> objects
     \<Rightarrow> 'f inline_result" where
  "snapshot_op enc sha256 rd t st =
     (case mediapackage_id (t_id t) rd of
        Inl e \<Rightarrow> (Inl (OpTask e), st)
      | Inr mp \<Rightarrow>
          (case snapshot_manifest_of (wd_cat (db_data rd)) mp (t_config t) of
             Inl e \<Rightarrow> (Inl e, st)
           | Inr m \<Rightarrow>
               (case put_file sha256 (enc m) st of (sha, st') \<Rightarrow>
                  (Inr ([(''manifest_sha256'', sha), (''elements'', dec (length (nm_elements m)))],
                        Some (on_catalog (insert_snapshot mp sha))), st'))))"

definition load_snapshot ::
  "(string \<Rightarrow> snapshot_manifest option) \<Rightarrow> catalog \<Rightarrow> objects \<Rightarrow> string \<Rightarrow> nat \<Rightarrow> snapshot_manifest option" where
  "load_snapshot decode c st mp version =
     (case find (\<lambda>s. sn_mp s = mp \<and> sn_version s = version) (c_snap c) of
        None \<Rightarrow> None
      | Some s \<Rightarrow> (case cas_get st (sn_manifest s) of None \<Rightarrow> None | Some raw \<Rightarrow> decode raw))"

section \<open>Publish\<close>

fun reference_elements :: "string \<Rightarrow> string list \<Rightarrow> catalog \<Rightarrow> (cat_error, catalog) result" where
  "reference_elements p [] c = Inr c"
| "reference_elements p (e # es) c =
     (if map_of (c_el c) e = None then Inl ForeignKey
      else if (p, e) \<in> set (c_pubel c) then Inl UniqueViolation
      else reference_elements p es (c\<lparr>c_pubel := c_pubel c @ [(p, e)]\<rparr>))"

definition publish_write ::
  "string \<Rightarrow> string \<Rightarrow> string \<Rightarrow> string list \<Rightarrow> catalog \<Rightarrow> (cat_error, catalog) result" where
  "publish_write uid mp channel ids c =
     bind_result (publish_tx uid mp channel c) (\<lambda>(p, c1).
     bind_result (reference_elements p ids (c1\<lparr>c_pubel := filter (\<lambda>(q, e). q \<noteq> p) (c_pubel c1)\<rparr>)) (\<lambda>c2.
       project_event mp c2))"

definition publish_selection ::
  "catalog \<Rightarrow> string \<Rightarrow> (string \<rightharpoonup> string) \<Rightarrow> (op_error, string \<times> string list) result" where
  "publish_selection c mp conf =
     (let channel = go_get conf ''channel-id'';
          patterns = split_list_of (go_get conf ''download-source-flavors'');
          ids = map fst (selected patterns mp c)
      in if channel = [] then Inl ChannelMissing
         else if go_get conf ''download-source-tags'' \<noteq> [] \<or> go_get conf ''streaming-source-flavors'' \<noteq> []
         then Inl SelectionUnsupported
         else if patterns = [] then Inl FlavorsMissing
         else if ids = [] then Inl (SelectedNothing patterns)
         else Inr (channel, ids))"

definition publish_op ::
  "string \<Rightarrow> 'f worker_data db \<Rightarrow> task \<Rightarrow> (op_error, (string \<times> string) list \<times> 'f worker_data mutation) result" where
  "publish_op uid rd t =
     (case mediapackage_id (t_id t) rd of
        Inl e \<Rightarrow> Inl (OpTask e)
      | Inr mp \<Rightarrow>
          bind_result (publish_selection (wd_cat (db_data rd)) mp (t_config t)) (\<lambda>(channel, ids).
            Inr ([(''channel'', channel), (''elements'', dec (length ids))],
                 Some (on_catalog (publish_write uid mp channel ids)))))"

end
