(* ===== verification/OpsProps.thy ===== *)
theory OpsProps
  imports Ops
begin

text \<open>
  Lemmas of the operations' mutations: what a snapshot, a publication, an inserted element and the
  inspect enrichment change, that each leaves the search projection in sync, and that the archive
  manifest is a function of the archived state.
\<close>

section \<open>Elements in order\<close>

lemma set_mp_elements: "set (mp_elements mp c) = {er \<in> set (c_el c). el_mp (snd er) = mp}"
  by (auto simp: mp_elements_def elements_of_def by_created_def)

lemma mset_mp_elements:
  "mset (mp_elements mp c) = mset (filter (\<lambda>(e, r). el_mp r = mp) (c_el c))"
  by (simp add: mp_elements_def elements_of_def by_created_def)

lemma distinct_mp_elements:
  assumes "distinct (map fst (c_el c))"
  shows "distinct (map fst (mp_elements mp c))"
proof -
  have "distinct (map fst (filter (\<lambda>(e, r). el_mp r = mp) (c_el c)))"
    using assms by (rule distinct_map_filter)
  moreover have "mset (map fst (mp_elements mp c)) = mset (map fst (filter (\<lambda>(e, r). el_mp r = mp) (c_el c)))"
    by (simp add: mset_mp_elements)
  ultimately show ?thesis by (metis mset_eq_imp_distinct_iff)
qed

section \<open>The manifest is a function of the archived state\<close>

text \<open>What an archive version records of an element, whatever order rows and tags are stored in.\<close>

definition archived ::
  "catalog \<Rightarrow> string \<Rightarrow> string \<times> element_row \<Rightarrow> string \<times> string \<times> string \<times> string \<times> string \<times> int \<times> string set" where
  "archived c mp er =
     (fst er, el_kind (snd er), el_flavor (snd er), text_of (el_mimetype (snd er)), el_sha256 (snd er),
      el_size (snd er), set (element_tags (\<lambda>ts. ts) mp c (fst er)))"

definition archive_view :: "catalog \<Rightarrow> string \<Rightarrow> (string \<times> string \<times> string \<times> string \<times> string \<times> int \<times> string set) set" where
  "archive_view c mp = archived c mp ` set (mp_elements mp c)"

definition rebuild_element ::
  "string \<times> string \<times> string \<times> string \<times> string \<times> int \<times> string set \<Rightarrow> snapshot_element" where
  "rebuild_element v =
     (case v of (i, k, f, m, s, n, ts) \<Rightarrow>
        \<lparr>ne_id = i, ne_kind = k, ne_flavor = f, ne_mimetype = m, ne_sha256 = s, ne_size = n,
         ne_tags = sorted_list_of_set ts\<rparr>)"

lemma distinct_element_tags:
  assumes "distinct (c_tag c)"
  shows "distinct (element_tags (\<lambda>ts. ts) mp c e)"
proof -
  have "inj_on snd (set (filter (\<lambda>(x, t). x = e) (c_tag c)))" by (auto simp: inj_on_def)
  then have "distinct (map snd (filter (\<lambda>(x, t). x = e) (c_tag c)))"
    using assms by (simp add: distinct_map)
  then show ?thesis by (simp add: element_tags_def split: option.split)
qed

lemma manifest_element_view:
  "distinct (c_tag c) \<Longrightarrow> manifest_element c mp er = rebuild_element (archived c mp er)"
  by (simp add: manifest_element_def rebuild_element_def archived_def sorted_list_of_set_sort_remdups
      distinct_element_tags distinct_remdups_id)

lemma selected_view:
  assumes "distinct (c_tag c)"
  shows "set (map (manifest_element c mp) (selected ps mp c)) =
    rebuild_element ` {v \<in> archive_view c mp. matches_any ps (fst (snd (snd v)))}"
  using manifest_element_view [OF assms]
  by (auto simp: selected_def archive_view_def archived_def image_iff)

lemma distinct_selected:
  assumes "distinct (map fst (c_el c))"
  shows "distinct (map ne_id (map (manifest_element c mp) (selected ps mp c)))"
proof -
  have "distinct (map fst (selected ps mp c))"
    unfolding selected_def using distinct_mp_elements [OF assms] by (rule distinct_map_filter)
  then show ?thesis by (simp add: comp_def manifest_element_def)
qed

lemma canonical_elements_eq:
  assumes "set xs = set ys" and "distinct (map ne_id xs)" and "distinct (map ne_id ys)"
  shows "sort_key canonical_key xs = sort_key canonical_key ys"
proof (rule sort_key_inj_key_eq)
  have "distinct xs" "distinct ys" using assms(2,3) by (simp_all add: distinct_map)
  then show "mset xs = mset (sort_key canonical_key ys)"
    using assms(1) by (simp add: set_eq_iff_mset_eq_distinct)
  have "inj_on ne_id (set xs)" using assms(2) by (simp add: distinct_map)
  then show "inj_on canonical_key (set xs)" by (auto simp: inj_on_def canonical_key_def)
qed simp

section \<open>Version numbers\<close>

definition versions_of :: "string \<Rightarrow> catalog \<Rightarrow> nat list" where
  "versions_of mp c = map sn_version (filter (\<lambda>s. sn_mp s = mp) (c_snap c))"

text \<open>The number a snapshot is given: one more than the highest in use, 1 for the first.\<close>

definition next_version :: "string \<Rightarrow> catalog \<Rightarrow> nat" where
  "next_version mp c = Max (insert 0 (set (versions_of mp c))) + 1"

lemma fold_max: "fold max xs n = Max (insert n (set xs))"
proof (induction xs arbitrary: n)
  case (Cons a xs)
  have "Max (insert (max a n) (set xs)) = max a (Max (insert n (set xs)))"
    by (cases "set xs = {}") (simp_all add: max.assoc)
  then show ?case using Cons [of "max a n"] by (simp add: insert_commute)
qed simp

lemma max_version_next: "max_version mp c + 1 = next_version mp c"
  by (simp add: max_version_def next_version_def fold_max flip: versions_of_def)

lemma next_version_above: "v \<in> set (versions_of mp c) \<Longrightarrow> v < next_version mp c"
  by (simp add: next_version_def less_Suc_eq_le)

lemma insert_snapshot_Inr:
  "insert_snapshot mp sha c = Inr c' \<longleftrightarrow> map_of (c_mp c) mp \<noteq> None \<and>
     c' = c\<lparr>c_snap := c_snap c @ [\<lparr>sn_mp = mp, sn_version = next_version mp c, sn_manifest = sha, sn_source = None\<rparr>]\<rparr>"
  by (auto simp: insert_snapshot_def simp flip: max_version_next)

section \<open>References\<close>

lemma reference_elements_Inr:
  "reference_elements p es c = Inr c' \<Longrightarrow>
     c' = c\<lparr>c_pubel := c_pubel c @ map (Pair p) es\<rparr> \<and> (\<forall>e \<in> set es. map_of (c_el c) e \<noteq> None)"
proof (induction es arbitrary: c)
  case (Cons e es)
  have rest: "reference_elements p es (c\<lparr>c_pubel := c_pubel c @ [(p, e)]\<rparr>) = Inr c'" "map_of (c_el c) e \<noteq> None"
    using Cons.prems by (auto split: if_splits)
  from Cons.IH [OF rest(1)] rest(2) show ?case by simp
qed simp

lemma publish_write_Inr:
  assumes "publish_write uid mp ch ids c = Inr c'"
  obtains row where "project_event mp (c\<lparr>c_pub := AList.update (mp, ch) row (c_pub c),
        c_pubel := filter (\<lambda>(q, e). q \<noteq> pub_id row) (c_pubel c) @ map (Pair (pub_id row)) ids\<rparr>) = Inr c'"
    and "pub_id row = (case map_of (c_pub c) (mp, ch) of None \<Rightarrow> uid | Some p \<Rightarrow> pub_id p)"
    and "pub_acl_read row = pin_roles (ScopeEvent, mp) ''read'' (c_acl c)"
    and "pub_acl_state row = state_of (ScopeEvent, mp) (c_acl c)"
    and "\<forall>e \<in> set ids. map_of (c_el c) e \<noteq> None"
proof -
  let ?p = "case map_of (c_pub c) (mp, ch) of None \<Rightarrow> uid | Some p \<Rightarrow> pub_id p"
  let ?row = "\<lparr>pub_id = ?p, pub_acl_read = pin_roles (ScopeEvent, mp) ''read'' (c_acl c),
    pub_acl_state = state_of (ScopeEvent, mp) (c_acl c)\<rparr>"
  let ?c1 = "c\<lparr>c_pub := AList.update (mp, ch) ?row (c_pub c)\<rparr>"
  obtain c2 where c2: "reference_elements ?p ids (?c1\<lparr>c_pubel := filter (\<lambda>(q, e). q \<noteq> ?p) (c_pubel ?c1)\<rparr>) = Inr c2"
    and pe: "project_event mp c2 = Inr c'"
    using assms by (auto simp: publish_write_def publish_tx_def Let_def split: if_splits)
  show thesis
    using that [of ?row] reference_elements_Inr [OF c2] pe by simp
qed

section \<open>Mutations and the projection\<close>

lemma on_catalog_Inr:
  "on_catalog f d = Inr d' \<longleftrightarrow> (\<exists>c. f (wd_cat d) = Inr c \<and> d' = d\<lparr>wd_cat := c\<rparr>)"
  by (auto simp: on_catalog_def map_error_def split: sum.splits)

lemma insert_element_sync: "insert_element i el tags idem c = Inr c' \<Longrightarrow> in_sync c \<Longrightarrow> in_sync c'"
  by (auto simp: insert_element_def split: if_splits intro: frame_sync)

lemma insert_snapshot_sync: "insert_snapshot mp sha c = Inr c' \<Longrightarrow> in_sync c \<Longrightarrow> in_sync c'"
  by (auto simp: insert_snapshot_def split: if_splits intro: frame_sync)

lemma publish_write_sync:
  assumes "publish_write uid mp ch ids c = Inr c'" and "in_sync c"
  shows "in_sync c'"
  by (rule publish_write_Inr [OF assms(1)]) (use publication_sync assms(2) in blast)

lemma duration_sync:
  assumes "project_event mp (set_duration_if_null mp ms c) = Inr c'" and sync: "in_sync c"
  shows "in_sync c'"
proof -
  obtain m where m: "map_of (c_mp c) mp = Some m"
    using project_event_known [OF assms(1)] by (auto simp: set_duration_if_null_def split: option.splits)
  define m' where "m' = (if mp_duration m = None then m\<lparr>mp_duration := Some ms\<rparr> else m)"
  define x where "x = (if mp_duration m = None then AList.update mp m' (c_mp c) else c_mp c)"
  have "set_duration_if_null mp ms c = c\<lparr>c_md := c_md c, c_mp := x\<rparr>"
    using m by (simp add: set_duration_if_null_def x_def m'_def)
  then have pe: "project_event mp (c\<lparr>c_md := c_md c, c_mp := x\<rparr>) = Inr c'" using assms(1) by simp
  show ?thesis
  proof (rule event_write_sync [OF pe sync])
    show "map_of x mp = Some m'" using m by (simp add: x_def m'_def table_simps)
    show "distinct (map fst x)" using in_sync_keys [OF sync] by (simp add: x_def table_simps keys_ok_def)
    show "\<not> leaves_series c mp (mp_series m')" using leaves_series_self [OF sync m] by (simp add: m'_def)
  qed (simp_all add: x_def table_simps)
qed

lemma set_techs_cat: "wd_cat (fold set_element_tech ets d) = wd_cat d"
  by (induction ets arbitrary: d) (auto simp: set_element_tech_def)

lemma inspect_mutation_sync:
  "inspect_mutation mp probed ms = Some m \<Longrightarrow> m d = Inr d' \<Longrightarrow> in_sync (wd_cat d) \<Longrightarrow> in_sync (wd_cat d')"
  by (auto simp: inspect_mutation_def on_catalog_Inr set_techs_cat) (erule (1) duration_sync)

lemma insert_mutation_sync:
  "insert_mutation uid el tags = Some m \<Longrightarrow> m d = Inr d' \<Longrightarrow> in_sync (wd_cat d) \<Longrightarrow> in_sync (wd_cat d')"
  by (auto simp: insert_mutation_def on_catalog_Inr) (erule (1) insert_element_sync)

lemma op_body_mutation:
  assumes "op_body E cfg rd t st = (Inr (res, mutate), st')"
  shows "(\<exists>uid el tags. mutate = insert_mutation uid el tags) \<or> (\<exists>mp probed ms. mutate = inspect_mutation mp probed ms)"
  using assms
  by (auto simp: op_body_def transcribe_def encode_def inspect_def Let_def case_prod_beta
      split: if_splits sum.splits) blast+

lemma snapshot_op_mutation:
  "snapshot_op enc sha256 rd t st = (Inr (res, mutate), st') \<Longrightarrow> \<exists>mp sha. mutate = Some (on_catalog (insert_snapshot mp sha))"
  by (auto simp: snapshot_op_def case_prod_beta split: sum.splits)

lemma publish_op_mutation:
  "publish_op uid rd t = Inr (res, mutate) \<Longrightarrow> \<exists>mp ch ids. mutate = Some (on_catalog (publish_write uid mp ch ids))"
  by (auto simp: publish_op_def split: sum.splits)

end
