(* ===== verification/OpsClaims.thy ===== *)
theory OpsClaims
  imports OpsProps Serve
begin

text \<open>
  What the inline operations promise: an archive version is appended and reads back as the state it was
  taken of, equal states share their bytes, publishing replaces exactly one reference set, every
  completion keeps the search projection; and what a workflow in flight can do to a deleted event.
\<close>

section \<open>Snapshot\<close>

text \<open>The archive manifest is canonical: two catalogs that agree on a mediapackage's title, its
  duration and what is archived of its elements, in whatever order and at whatever times rows and tags
  were written, give the same manifest, so the second snapshot adds no bytes to the store.\<close>

theorem snapshot_bytes_canonical:
  assumes "map_of (c_mp c) mp = Some m" and "map_of (c_mp d) mp = Some n"
    and "mp_title m = mp_title n" and "mp_duration m = mp_duration n" and "archive_view c mp = archive_view d mp"
    and "distinct (map fst (c_el c))" and "distinct (map fst (c_el d))"
    and "distinct (c_tag c)" and "distinct (c_tag d)"
    and "snapshot_manifest_of c mp conf = Inr a"
  shows "snapshot_manifest_of d mp conf = Inr a \<and>
    snd (put_file sha256 (enc a) (snd (put_file sha256 (enc a) st))) = snd (put_file sha256 (enc a) st)"
proof
  let ?ps = "snapshot_patterns conf"
  have sets: "set (map (manifest_element c mp) (selected ?ps mp c)) =
      set (map (manifest_element d mp) (selected ?ps mp d))"
    using assms(5) by (simp only: selected_view [OF assms(8)] selected_view [OF assms(9)])
  have "sort_key canonical_key (map (manifest_element c mp) (selected ?ps mp c)) =
      sort_key canonical_key (map (manifest_element d mp) (selected ?ps mp d))"
    using distinct_selected [OF assms(6)] distinct_selected [OF assms(7)]
    by (intro canonical_elements_eq [OF sets]) auto
  moreover have "selected ?ps mp d \<noteq> []"
    using sets assms(10) by (auto simp: snapshot_manifest_of_def assms(1) Let_def split: if_splits)
  ultimately show "snapshot_manifest_of d mp conf = Inr a"
    using assms(3,4,10)
    by (auto simp: snapshot_manifest_of_def assms(1,2) Let_def canonical_def split: if_splits)
  show "snd (put_file sha256 (enc a) (snd (put_file sha256 (enc a) st))) = snd (put_file sha256 (enc a) st)"
    by (auto simp: put_file_def cas_exists_def Let_def map_add_def split: option.splits)
qed

definition demo_element :: "string \<Rightarrow> string \<Rightarrow> int \<Rightarrow> string \<times> element_row" where
  "demo_element i flavor at =
     (i, \<lparr>el_mp = ''e1'', el_kind = ''track'', el_flavor = flavor, el_mimetype = None, el_sha256 = ''aa'' @ i,
         el_size = 3, el_source = None, el_created_at = at\<rparr>)"

definition demo_archive :: "int \<Rightarrow> int \<Rightarrow> (string \<times> string) list \<Rightarrow> catalog" where
  "demo_archive t1 t2 tags = (empty_catalog 9)\<lparr>
     c_mp := [(''e1'', \<lparr>mp_title = Some ''T'', mp_start = None, mp_duration = Some 7, mp_series = None, mp_deleted = None\<rparr>)],
     c_el := [demo_element ''x'' ''a/b'' t1, demo_element ''y'' ''a/c'' t2], c_tag := tags\<rparr>"

definition demo_manifest :: snapshot_manifest where
  "demo_manifest =
     (case snapshot_manifest_of (demo_archive 1 2 [(''x'', ''p''), (''x'', ''q'')]) ''e1'' Map.empty of
        Inl e \<Rightarrow> \<lparr>nm_mediapackage = [], nm_title = [], nm_duration = 0, nm_elements = []\<rparr> | Inr a \<Rightarrow> a)"

lemma demo_manifest_ok:
  "snapshot_manifest_of (demo_archive 1 2 [(''x'', ''p''), (''x'', ''q'')]) ''e1'' Map.empty = Inr demo_manifest"
proof -
  have "is_ok (snapshot_manifest_of (demo_archive 1 2 [(''x'', ''p''), (''x'', ''q'')]) ''e1'' Map.empty)"
    by code_simp
  then show ?thesis by (auto simp: demo_manifest_def is_ok_iff)
qed

lemma demo_view:
  "archive_view (demo_archive t1 t2 tags) ''e1'' =
     {(''x'', ''track'', ''a/b'', [], ''aax'', 3, set (map snd (filter (\<lambda>(x, t). x = ''x'') tags))),
      (''y'', ''track'', ''a/c'', [], ''aay'', 3, set (map snd (filter (\<lambda>(x, t). x = ''y'') tags)))}"
proof -
  have "set (mp_elements ''e1'' (demo_archive t1 t2 tags)) = {demo_element ''x'' ''a/b'' t1, demo_element ''y'' ''a/c'' t2}"
    by (auto simp: set_mp_elements demo_archive_def demo_element_def)
  then show ?thesis
    by (simp add: archive_view_def archived_def element_tags_def demo_archive_def demo_element_def text_of_def)
qed

text \<open>C25: committing a snapshot appends one version to its mediapackage, numbered one above the highest in
  use (which need not be gapless: an import keeps the numbers of its source), and writes nothing else to
  the database; the new version reads back as the manifest of the state the snapshot read, and every
  version that could be read before reads the same. Assumed are the JSON round trip of that manifest and
  that the store holds no foreign bytes under its digest.\<close>

theorem snapshot_appends_and_reads_back:
  assumes "snapshot_op enc sha256 rd t st = (Inr (res, Some mutate), st')" and "mutate d = Inr d'"
    and "mediapackage_id (t_id t) rd = Inr mp"
    and "snapshot_manifest_of (wd_cat (db_data rd)) mp (t_config t) = Inr m"
    and "decode (enc m) = Some m" and "cas_get st (sha256 (enc m)) = None \<or> cas_get st (sha256 (enc m)) = Some (enc m)"
  shows "\<exists>k. k = Max (insert 0 (set (versions_of mp (wd_cat d)))) + 1 \<and>
    versions_of mp (wd_cat d') = versions_of mp (wd_cat d) @ [k] \<and> k \<notin> set (versions_of mp (wd_cat d)) \<and>
    d' = d\<lparr>wd_cat := (wd_cat d)\<lparr>c_snap := c_snap (wd_cat d) @
      [\<lparr>sn_mp = mp, sn_version = k, sn_manifest = sha256 (enc m), sn_source = None\<rparr>]\<rparr>\<rparr> \<and>
    load_snapshot decode (wd_cat d') st' mp k = Some m \<and>
    (\<forall>j v x. load_snapshot decode (wd_cat d) st j v = Some x \<longrightarrow> load_snapshot decode (wd_cat d') st' j v = Some x)"
proof -
  have st': "st' = snd (put_file sha256 (enc m) st)"
    and mut: "mutate = on_catalog (insert_snapshot mp (sha256 (enc m)))"
    using assms(1,3,4) by (auto simp: snapshot_op_def case_prod_beta put_file_def Let_def split: if_splits)
  define k where "k = next_version mp (wd_cat d)"
  let ?row = "\<lparr>sn_mp = mp, sn_version = k, sn_manifest = sha256 (enc m), sn_source = None\<rparr>"
  have d': "d' = d\<lparr>wd_cat := (wd_cat d)\<lparr>c_snap := c_snap (wd_cat d) @ [?row]\<rparr>\<rparr>"
    using assms(2) by (auto simp: mut on_catalog_Inr insert_snapshot_Inr k_def)
  have new: "k \<notin> set (versions_of mp (wd_cat d))" using next_version_above [of k mp "wd_cat d"] by (auto simp: k_def)
  then have "find (\<lambda>s. sn_mp s = mp \<and> sn_version s = k) (c_snap (wd_cat d)) = None"
    by (auto simp: find_None_iff versions_of_def image_iff)
  then have "find (\<lambda>s. sn_mp s = mp \<and> sn_version s = k) (c_snap (wd_cat d')) = Some ?row"
    by (simp add: d' find_append)
  moreover have put: "cas_get st' (sha256 (enc m)) = Some (enc m)"
    and keep: "cas_get st x = Some b \<Longrightarrow> cas_get st' x = Some b" for x b
    using assms(6)
    by (auto simp: st' put_file_def cas_exists_def cas_get_def Let_def map_add_def split: option.splits)
  ultimately have "load_snapshot decode (wd_cat d') st' mp k = Some m"
    using assms(5) by (simp add: load_snapshot_def)
  moreover have "load_snapshot decode (wd_cat d') st' j v = Some x"
    if "load_snapshot decode (wd_cat d) st j v = Some x" for j v x
    using that keep by (auto simp: load_snapshot_def d' find_append split: option.splits)
  moreover have "versions_of mp (wd_cat d') = versions_of mp (wd_cat d) @ [k]" by (simp add: d' versions_of_def)
  ultimately show ?thesis using new d' by (simp add: k_def next_version_def)
qed

definition demo_task :: task where
  "demo_task = \<lparr>t_id = 1, t_wf = 0, t_op = 0, t_operation = ''snapshot'', t_config = Map.empty, t_state = RUNNING,
     t_owner = None, t_lease = 0, t_result = None, t_attempt = 1, t_spec = (None, None, None, None)\<rparr>"

definition demo_rd :: "catalog \<Rightarrow> unit worker_data db" where
  "demo_rd c = \<lparr>workflows = [\<lparr>w_id = 0, w_mediapackage = ''e1'', w_ops = [], w_state = WRUNNING, w_cur = 0\<rparr>],
     tasks = [demo_task], next_wf = 1, next_task = 2, clock = 0, db_data = \<lparr>wd_cat = c, wd_tech = []\<rparr>\<rparr>"

definition enc_demo :: "snapshot_manifest \<Rightarrow> string" where
  "enc_demo m = nm_mediapackage m @ CHR ''|'' # concat (map ne_id (nm_elements m))"

definition demo_decoder :: "string \<Rightarrow> snapshot_manifest option" where
  "demo_decoder raw = (if raw = enc_demo demo_manifest then Some demo_manifest else None)"

definition demo_tagged :: catalog where
  "demo_tagged = demo_archive 1 2 [(''x'', ''p''), (''x'', ''q'')]"

theorem snapshot_appends_and_reads_back_witness:
  "\<exists>res f st' d'. snapshot_op enc_demo (\<lambda>b. CHR ''s'' # b) (demo_rd demo_tagged) demo_task [] = (Inr (res, Some f), st') \<and>
     f \<lparr>wd_cat = demo_tagged, wd_tech = []\<rparr> = Inr d' \<and> load_snapshot demo_decoder (wd_cat d') st' ''e1'' 1 = Some demo_manifest"
proof -
  have mp: "mediapackage_id (t_id demo_task) (demo_rd demo_tagged) = Inr ''e1''"
    by (simp add: mediapackage_id_def get_task_def demo_rd_def demo_task_def)
  have m: "snapshot_manifest_of (wd_cat (db_data (demo_rd demo_tagged))) ''e1'' (t_config demo_task) = Inr demo_manifest"
    using demo_manifest_ok by (simp add: demo_rd_def demo_task_def demo_tagged_def)
  obtain sha st' where pf: "put_file (\<lambda>b. CHR ''s'' # b) (enc_demo demo_manifest) [] = (sha, st')" by force
  have op: "snapshot_op enc_demo (\<lambda>b. CHR ''s'' # b) (demo_rd demo_tagged) demo_task [] =
      (Inr ([(''manifest_sha256'', sha), (''elements'', dec (length (nm_elements demo_manifest)))],
        Some (on_catalog (insert_snapshot ''e1'' sha))), st')"
    by (simp add: snapshot_op_def mp m pf)
  obtain d' where d': "on_catalog (insert_snapshot ''e1'' sha) (\<lparr>wd_cat = demo_tagged, wd_tech = []\<rparr> :: unit worker_data) = Inr d'"
    by (auto simp: on_catalog_def insert_snapshot_def demo_tagged_def demo_archive_def map_error_def)
  have "versions_of ''e1'' demo_tagged = []"
    by (simp add: versions_of_def demo_tagged_def demo_archive_def empty_catalog_def)
  then show ?thesis
    using snapshot_appends_and_reads_back [OF op d' mp m, of demo_decoder] op d'
    by (auto simp: demo_decoder_def cas_get_def)
qed

text \<open>C24: publishing replaces the reference set of its channel: afterwards the channel's publication keeps
  its id if it had one, carries the access list in force as its pin (the reading roles and whether the
  list is absent, empty or populated), and refers to exactly the elements whose flavor the patterns
  select. Every other publication row of this and of other events, every other reference and every other
  table but the projection stay as they were; when one of the elements has gone the whole transaction
  fails.\<close>

theorem publish_replaces_references:
  assumes "publish_op uid rd t = Inr (res, Some mutate)" and "mutate d = Inr d'"
  shows "\<exists>mp ch ids row. mediapackage_id (t_id t) rd = Inr mp \<and> ch = go_get (t_config t) ''channel-id'' \<and>
    ids = map fst (selected (split_list_of (go_get (t_config t) ''download-source-flavors'')) mp (wd_cat (db_data rd))) \<and>
    map_of (c_pub (wd_cat d')) (mp, ch) = Some row \<and>
    pub_id row = (case map_of (c_pub (wd_cat d)) (mp, ch) of None \<Rightarrow> uid | Some p \<Rightarrow> pub_id p) \<and>
    pub_acl_read row = pin_roles (ScopeEvent, mp) ''read'' (c_acl (wd_cat d)) \<and>
    pub_acl_state row = state_of (ScopeEvent, mp) (c_acl (wd_cat d)) \<and>
    {e. (pub_id row, e) \<in> set (c_pubel (wd_cat d'))} = set ids \<and>
    (\<forall>e \<in> set ids. map_of (c_el (wd_cat d)) e \<noteq> None) \<and>
    (\<forall>k. k \<noteq> (mp, ch) \<longrightarrow> map_of (c_pub (wd_cat d')) k = map_of (c_pub (wd_cat d)) k) \<and>
    (\<forall>q e. q \<noteq> pub_id row \<longrightarrow> ((q, e) \<in> set (c_pubel (wd_cat d')) \<longleftrightarrow> (q, e) \<in> set (c_pubel (wd_cat d)))) \<and>
    d' = d\<lparr>wd_cat := (wd_cat d)\<lparr>c_pub := c_pub (wd_cat d'), c_pubel := c_pubel (wd_cat d'),
      c_se := c_se (wd_cat d'), c_ss := c_ss (wd_cat d')\<rparr>\<rparr>"
proof -
  obtain mp ch ids where mp: "mediapackage_id (t_id t) rd = Inr mp"
    and sel: "publish_selection (wd_cat (db_data rd)) mp (t_config t) = Inr (ch, ids)"
    and mut: "mutate = on_catalog (publish_write uid mp ch ids)"
    using assms(1) by (auto simp: publish_op_def split: sum.splits)
  have s: "ch = go_get (t_config t) ''channel-id''"
    "ids = map fst (selected (split_list_of (go_get (t_config t) ''download-source-flavors'')) mp (wd_cat (db_data rd)))"
    using sel by (auto simp: publish_selection_def Let_def split: if_splits)
  have pw: "publish_write uid mp ch ids (wd_cat d) = Inr (wd_cat d')"
    using assms(2) by (auto simp: mut on_catalog_Inr)
  have d': "d' = d\<lparr>wd_cat := wd_cat d'\<rparr>" using assms(2) by (auto simp: mut on_catalog_Inr)
  obtain row where pe: "project_event mp (wd_cat d\<lparr>c_pub := AList.update (mp, ch) row (c_pub (wd_cat d)),
      c_pubel := filter (\<lambda>(q, e). q \<noteq> pub_id row) (c_pubel (wd_cat d)) @ map (Pair (pub_id row)) ids\<rparr>) = Inr (wd_cat d')"
    and row: "pub_id row = (case map_of (c_pub (wd_cat d)) (mp, ch) of None \<Rightarrow> uid | Some p \<Rightarrow> pub_id p)"
      "pub_acl_read row = pin_roles (ScopeEvent, mp) ''read'' (c_acl (wd_cat d))"
      "pub_acl_state row = state_of (ScopeEvent, mp) (c_acl (wd_cat d))"
    and fk: "\<forall>e \<in> set ids. map_of (c_el (wd_cat d)) e \<noteq> None"
    by (rule publish_write_Inr [OF pw]) blast
  note f = project_event_frame [OF pe]
  have only: "wd_cat d' = (wd_cat d)\<lparr>c_pub := c_pub (wd_cat d'), c_pubel := c_pubel (wd_cat d'),
      c_se := c_se (wd_cat d'), c_ss := c_ss (wd_cat d')\<rparr>"
    using project_event_only [OF pe] by (elim exE) simp
  have pub: "c_pub (wd_cat d') = AList.update (mp, ch) row (c_pub (wd_cat d))"
    and refs: "c_pubel (wd_cat d') = filter (\<lambda>(q, e). q \<noteq> pub_id row) (c_pubel (wd_cat d)) @ map (Pair (pub_id row)) ids"
    by (simp_all add: f)
  show ?thesis
  proof (intro exI conjI)
    show "mediapackage_id (t_id t) rd = Inr mp" by (rule mp)
    show "map_of (c_pub (wd_cat d')) (mp, ch) = Some row" by (simp add: pub table_simps)
    show "{e. (pub_id row, e) \<in> set (c_pubel (wd_cat d'))} = set ids" by (auto simp: refs)
    show "\<forall>k. k \<noteq> (mp, ch) \<longrightarrow> map_of (c_pub (wd_cat d')) k = map_of (c_pub (wd_cat d)) k"
      by (simp add: pub table_simps)
    show "\<forall>q e. q \<noteq> pub_id row \<longrightarrow> ((q, e) \<in> set (c_pubel (wd_cat d')) \<longleftrightarrow> (q, e) \<in> set (c_pubel (wd_cat d)))"
      by (auto simp: refs)
    show "d' = d\<lparr>wd_cat := (wd_cat d)\<lparr>c_pub := c_pub (wd_cat d'), c_pubel := c_pubel (wd_cat d'),
        c_se := c_se (wd_cat d'), c_ss := c_ss (wd_cat d')\<rparr>\<rparr>"
      using d' only by metis
  qed (fact s row fk)+
qed

definition demo_live :: catalog where
  "demo_live = committed demo_published
     (insert_element ''x'' (snd (demo_element ''x'' ''a/b'' 1)) [] False demo_published)"

definition publish_conf :: "string \<rightharpoonup> string" where
  "publish_conf = [''channel-id'' \<mapsto> ''oaipmh'', ''download-source-flavors'' \<mapsto> ''a/b, */c'']"

definition publish_task :: task where
  "publish_task = demo_task\<lparr>t_operation := ''publish-configure'', t_config := publish_conf, t_state := ASSIGNED\<rparr>"

lemma demo_live_sync: "in_sync demo_live"
  using demo_published_sync insert_element_sync by (auto simp: demo_live_def committed_def split: sum.split)

lemma demo_publish:
  "publish_op ''p9'' (demo_rd demo_live) publish_task =
     Inr ([(''channel'', ''oaipmh''), (''elements'', dec 1)], Some (on_catalog (publish_write ''p9'' ''e1'' ''oaipmh'' [''x''])))"
proof -
  have "mediapackage_id (t_id publish_task) (demo_rd demo_live) = Inr ''e1''"
    by (simp add: mediapackage_id_def get_task_def demo_rd_def demo_task_def publish_task_def)
  moreover have "publish_selection demo_live ''e1'' publish_conf = Inr (''oaipmh'', [''x''])"
    by code_simp
  ultimately show ?thesis by (simp add: publish_op_def demo_rd_def publish_task_def)
qed

lemma demo_publish_ok: "is_ok (publish_write ''p9'' ''e1'' ''oaipmh'' [''x''] demo_live)"
  by code_simp

theorem publish_replaces_references_witness:
  "\<exists>c'. publish_write ''p9'' ''e1'' ''oaipmh'' [''x''] demo_live = Inr c' \<and>
     (\<exists>row. map_of (c_pub c') (''e1'', ''oaipmh'') = Some row \<and> {e. (pub_id row, e) \<in> set (c_pubel c')} = {''x''})"
proof -
  obtain c' where c': "publish_write ''p9'' ''e1'' ''oaipmh'' [''x''] demo_live = Inr c'"
    using demo_publish_ok by (auto simp: is_ok_iff)
  then have "on_catalog (publish_write ''p9'' ''e1'' ''oaipmh'' [''x'']) (\<lparr>wd_cat = demo_live, wd_tech = []\<rparr> :: unit worker_data) =
      Inr \<lparr>wd_cat = c', wd_tech = []\<rparr>"
    by (simp add: on_catalog_Inr)
  from publish_replaces_references [OF demo_publish this]
  obtain mp ch ids row where mp: "mediapackage_id (t_id publish_task) (demo_rd demo_live) = Inr mp"
    and ch: "ch = go_get (t_config publish_task) ''channel-id''"
    and ids: "ids = map fst (selected (split_list_of (go_get (t_config publish_task) ''download-source-flavors'')) mp demo_live)"
    and row: "map_of (c_pub c') (mp, ch) = Some row" "{e. (pub_id row, e) \<in> set (c_pubel c')} = set ids"
    by (auto simp: demo_rd_def)
  have "mp = ''e1''" using mp by (simp add: mediapackage_id_def get_task_def demo_rd_def demo_task_def publish_task_def)
  moreover have "ch = ''oaipmh''" using ch by (simp add: publish_task_def publish_conf_def go_get_def)
  moreover have "map fst (selected (split_list_of (go_get publish_conf ''download-source-flavors'')) ''e1'' demo_live) = [''x'']"
    by code_simp
  ultimately show ?thesis using c' row ids by (auto simp: publish_task_def)
qed

text \<open>What an operation of the worker or of the core can hand to a completion.\<close>

definition op_mutation :: "'f worker_data mutation \<Rightarrow> bool" where
  "op_mutation mutate =
     ((\<exists>(E :: 'f worker_env) cfg rd t st res st'. op_body E cfg rd t st = (Inr (res, mutate), st')) \<or>
      (\<exists>enc sha256 (rd :: 'f worker_data db) t st res st'. snapshot_op enc sha256 rd t st = (Inr (res, mutate), st')) \<or>
      (\<exists>uid (rd :: 'f worker_data db) t res. publish_op uid rd t = Inr (res, mutate)))"

text \<open>Every completion keeps the search projection: when a task of the worker or an inline
  snapshot or publication runs to its end over a database whose projection agrees with the stored
  model, and whatever else happens meanwhile keeps it so, the database it leaves agrees too.\<close>

theorem completions_keep_projection:
  assumes "in_sync (wd_cat (db_data s))"
    and "\<forall>f \<in> set envs. \<forall>u. in_sync (wd_cat (db_data u)) \<longrightarrow> in_sync (wd_cat (db_data (f u)))"
    and "\<forall>raw m. body = BodyReturned raw m \<longrightarrow> op_mutation m"
  shows "in_sync (wd_cat (db_data (snd (execute_task i own l body envs s))))"
proof (rule execute_task_keeps [where P = "\<lambda>d. in_sync (wd_cat d)", OF assms(1,2)])
  fix raw m d d'
  assume b: "body = BodyReturned raw (Some m)" and m: "m d = Inr d'" and sync: "in_sync (wd_cat d)"
  have "op_mutation (Some m)" using assms(3) b by blast
  then consider (worker) "\<exists>uid el tags. Some m = insert_mutation uid el tags"
    | (inspect) "\<exists>mp probed ms. Some m = inspect_mutation mp probed ms"
    | (snapshot) "\<exists>mp sha. m = on_catalog (insert_snapshot mp sha)"
    | (publish) "\<exists>uid mp ch ids. m = on_catalog (publish_write uid mp ch ids)"
    unfolding op_mutation_def using op_body_mutation snapshot_op_mutation publish_op_mutation
    by (metis option.inject)
  then show "in_sync (wd_cat d')"
  proof cases
    case worker
    then show ?thesis using insert_mutation_sync m sync by metis
  next
    case inspect
    then show ?thesis using inspect_mutation_sync m sync by metis
  next
    case snapshot
    then show ?thesis using m sync insert_snapshot_sync by (auto simp: on_catalog_Inr)
  next
    case publish
    then show ?thesis using m sync publish_write_sync by (auto simp: on_catalog_Inr)
  qed
qed

definition demo_ready :: "unit worker_data db" where
  "demo_ready = (demo_rd demo_live)\<lparr>tasks := [publish_task]\<rparr>"

section \<open>Deleted events and workflows in flight\<close>

text \<open>Deleting an event does not stop its workflows, and nothing they commit looks at the deletion:
  an encode completing after the delete inserts its element, a publish step then pins the access list
  that was in force and publishes the element, and any holder of a reading role is served its bytes,
  although no listing shows the event.\<close>

theorem deleted_event_republished:
  assumes "tombstone_event i c = Inr (True, c1)" and "el_mp el = i" and "map_of (c_el c1) uid = None"
    and "r \<in> pin_roles (ScopeEvent, i) ''read'' (c_acl c)" and "r \<in> set (p_roles p)"
  shows "\<exists>c2 c3. insert_element uid el tags False c1 = Inr c2 \<and> publish_write pid i ch [uid] c2 = Inr c3 \<and>
    authorized (pins_for_element c3 uid) p \<and> map_of (c_el c3) uid = Some el \<and> map_of (c_se c3) i = None"
proof -
  obtain m where m: "map_of (c_mp c) i = Some m" and pe: "project_event i (retract_event i m c) = Inr c1"
    by (rule tombstone_event_found [OF assms(1)])
  note f = project_event_frame [OF pe]
  have mp1: "map_of (c_mp c1) i = Some (m\<lparr>mp_deleted := Some (c_now c)\<rparr>)"
    by (simp add: f retract_event_def table_simps)
  have acl: "c_acl c1 = c_acl c" by (simp add: f retract_event_def)
  have "map_of (filter (\<lambda>((mp, ch), r). mp \<noteq> i) (c_pub c)) (i, ch) = None"
    by (auto simp: map_of_eq_None_iff)
  then have pub1: "map_of (c_pub c1) (i, ch) = None" by (simp add: f retract_event_def)
  obtain c2 where c2: "insert_element uid el tags False c1 = Inr c2" "c_el c2 = c_el c1 @ [(uid, el)]"
    "c_mp c2 = c_mp c1" "c_acl c2 = c_acl c1" "c_pub c2 = c_pub c1"
    using assms(2,3) mp1 by (simp add: insert_element_def)
  have uid2: "map_of (c_el c2) uid = Some el"
    using assms(3) by (simp add: c2(2) map_add_def)
  let ?row = "\<lparr>pub_id = pid, pub_acl_read = pin_roles (ScopeEvent, i) ''read'' (c_acl c),
    pub_acl_state = state_of (ScopeEvent, i) (c_acl c)\<rparr>"
  let ?d = "c2\<lparr>c_pub := AList.update (i, ch) ?row (c_pub c2),
    c_pubel := filter (\<lambda>(q, e). q \<noteq> pid) (c_pubel c2) @ [(pid, uid)]\<rparr>"
  have "publish_write pid i ch [uid] c2 = project_event i ?d"
    using mp1 pub1 uid2 c2
    by (auto simp: publish_write_def publish_tx_def Let_def acl)
  moreover obtain c3 where c3: "project_event i ?d = Inr c3" "c_se c3 = AList.delete i (c_se c2)"
    using mp1 c2(3) by (auto simp: project_event_def Let_def refresh_series_def project_series_row_def split: option.split)
  note g = project_event_frame [OF c3(1)]
  have "((i, ch), ?row) \<in> set (AList.update (i, ch) ?row (c_pub c2))"
    by (rule map_of_SomeD) (simp add: table_simps)
  then have "\<lparr>pin_mp = i, pin_channel = ch, pin_read = pub_acl_read ?row, pin_state = pub_acl_state ?row\<rparr>
      \<in> set (pins_for_element c3 uid)"
    unfolding mem_pins by (intro exI [of _ i] exI [of _ ch] exI [of _ ?row]) (simp add: g)
  then have "authorized (pins_for_element c3 uid) p"
    unfolding authorized_iff using assms(4,5)
    by (intro disjI2 bexI) (auto simp: disjoint_iff)
  moreover have "map_of (c_el c3) uid = Some el" using uid2 by (simp add: g)
  moreover have "map_of (c_se c3) i = None" using c3(2) by (simp add: table_simps)
  ultimately show ?thesis using c2(1) c3(1) by auto
qed

end
