(* ===== verification/WorkerClaims.thy ===== *)
theory WorkerClaims
  imports OpsProps
begin

text \<open>
  What the one-shot worker promises: command lines without a shell, a refused toolchain touches nothing,
  an unambiguous source, a recorded element whose bytes are stored, and a clean run that finishes its
  task; and the case in which an element the worker made itself cannot be encoded again.
\<close>

section \<open>Source selection\<close>

lemma select_source_found:
  "select_source pattern (Some s) ers =
     (case filter (is_source pattern) ers of
        [] \<Rightarrow> Inr s | er # rest \<Rightarrow> Inl (AmbiguousSource pattern (fst s) (fst er)))"
  by (induction ers) auto

lemma select_source_filter:
  "select_source_track ers pattern =
     (case filter (is_source pattern) ers of
        [] \<Rightarrow> Inl (NoSource pattern)
      | [s] \<Rightarrow> Inr s
      | s # er # rest \<Rightarrow> Inl (AmbiguousSource pattern (fst s) (fst er)))"
proof -
  have "select_source pattern None ers =
     (case filter (is_source pattern) ers of
        [] \<Rightarrow> Inl (NoSource pattern)
      | [s] \<Rightarrow> Inr s
      | s # er # rest \<Rightarrow> Inl (AmbiguousSource pattern (fst s) (fst er)))"
    by (induction ers) (auto simp: select_source_found split: list.split)
  then show ?thesis by (simp add: select_source_track_def)
qed

section \<open>A concrete worker\<close>

text \<open>Tools that match their pins; ffmpeg writes its last argument.\<close>

definition demo_tools :: "int worker_env" where
  "demo_tools = \<lparr>
     we_digest = map_of (map (\<lambda>(n, d). (path_join ''/t'' n, d)) (pinned_tools @ [(''ffprobe'', pin_ffprobe)])),
     we_exec = (\<lambda>argv fs. Some ([], AList.update (last argv) ''out'' fs)),
     we_sha256 = (\<lambda>b. CHR ''s'' # b), we_probe = (\<lambda>o1. None),
     we_floats = \<lparr>parse_float = (\<lambda>x. None), float_zero = 0, float_div = (\<lambda>a b. a div b), round_millis = (\<lambda>x. x)\<rparr>,
     we_marshal = (\<lambda>r. ''{}''), we_describe = (\<lambda>e. ''failed'')\<rparr>"

definition demo_worker :: worker_config where
  "demo_worker = \<lparr>wc_task = 3, wc_owner = ''w'', wc_tools = ''/t'', wc_dir = Some ''/s/t3'', wc_lease = 5,
     wc_spec = \<lparr>cpu_millis = 0, memory_mb = 0, gpu = 0, runtime_s = 0\<rparr>, wc_caps = False, wc_uid = ''u''\<rparr>"

definition demo_conf :: "string \<rightharpoonup> string" where
  "demo_conf = [''source-flavor'' \<mapsto> ''a/source'', ''target-flavor'' \<mapsto> ''*/preview'', ''encoding-profile'' \<mapsto> ''fast.http'']"

definition demo_source :: "string option \<Rightarrow> element_row" where
  "demo_source url = \<lparr>el_mp = ''m'', el_kind = ''track'', el_flavor = ''a/source'', el_mimetype = None,
     el_sha256 = ''sraw'', el_size = 3, el_source = url, el_created_at = 0\<rparr>"

definition demo_media :: "string option \<Rightarrow> catalog" where
  "demo_media url = (empty_catalog 7)\<lparr>
     c_mp := [(''m'', \<lparr>mp_title = None, mp_start = None, mp_duration = None, mp_series = None, mp_deleted = None\<rparr>)],
     c_el := [(''e'', demo_source url)]\<rparr>"

definition demo_job :: task where
  "demo_job = \<lparr>t_id = 3, t_wf = 0, t_op = 0, t_operation = ''encode'', t_config = demo_conf, t_state = ASSIGNED,
     t_owner = None, t_lease = 0, t_result = None, t_attempt = 1, t_spec = (None, None, None, None)\<rparr>"

definition demo_db :: "string option \<Rightarrow> int worker_data db" where
  "demo_db url = \<lparr>workflows = [\<lparr>w_id = 0, w_mediapackage = ''m'', w_ops = [], w_state = WRUNNING, w_cur = 0\<rparr>],
     tasks = [demo_job], next_wf = 1, next_task = 4, clock = 0, db_data = \<lparr>wd_cat = demo_media url, wd_tech = []\<rparr>\<rparr>"

definition demo_store :: objects where
  "demo_store = [(object_key ''sraw'', ''raw'')]"

definition demo_new_element :: element_row where
  "demo_new_element = derived_element ''m'' ''a/preview'' ''video/mp4'' ''sout'' 3"

lemma demo_encode_run:
  "encode_run demo_tools demo_worker (demo_media (Some ''http://h/x.mov'')) ''m'' demo_conf demo_store =
     Inr (''out'', demo_source (Some ''http://h/x.mov''))"
  by code_simp

lemma demo_op_body:
  "op_body demo_tools demo_worker (demo_db (Some ''http://h/x.mov'')) demo_job demo_store =
     (Inr ([(''element'', ''u''), (''sha256'', ''sout''), (''profile'', ''fast.http''), (''flavor'', ''a/preview'')],
           insert_mutation ''u'' demo_new_element []),
      demo_store @ [(object_key ''sout'', ''out'')])"
proof -
  have mp: "mediapackage_id (t_id demo_job) (demo_db (Some ''http://h/x.mov'')) = Inr ''m''"
    by (simp add: mediapackage_id_def get_task_def demo_db_def demo_job_def)
  have pf: "put_file (we_sha256 demo_tools) ''out'' demo_store = (''sout'', demo_store @ [(object_key ''sout'', ''out'')])"
    by code_simp
  have fl: "apply_flavor (go_get demo_conf ''target-flavor'') (el_flavor (demo_source (Some ''http://h/x.mov''))) = ''a/preview''"
    "go_get demo_conf ''encoding-profile'' = ''fast.http''" "target_tags (go_get demo_conf ''target-tags'') = []"
    by code_simp+
  show ?thesis
    using mp demo_encode_run pf fl
    by (simp add: op_body_def encode_def demo_job_def demo_db_def demo_worker_def demo_new_element_def numeral_3_eq_3 Let_def)
qed

definition demo_after :: "int worker_data" where
  "demo_after = \<lparr>wd_cat = (demo_media (Some ''http://h/x.mov''))\<lparr>c_el :=
     [(''e'', demo_source (Some ''http://h/x.mov'')), (''u'', demo_new_element\<lparr>el_created_at := 7\<rparr>)]\<rparr>, wd_tech = []\<rparr>"

lemma demo_mutation:
  "on_catalog (\<lambda>c. insert_element ''u'' (demo_new_element\<lparr>el_created_at := c_now c\<rparr>) [] False c)
     (db_data (demo_db (Some ''http://h/x.mov''))) = Inr demo_after"
  by (simp add: on_catalog_def map_error_def insert_element_def demo_db_def demo_media_def demo_new_element_def
      derived_element_def demo_after_def empty_catalog_def)

lemma demo_toolchain: "verify_toolchain (\<lambda>xs. xs) demo_tools ''/t'' = Inr ()"
  by code_simp

section \<open>The toolchain\<close>

lemma verify_all_iff:
  "verify_all E dir ts = Inr () \<longleftrightarrow> (\<forall>(name, want) \<in> set ts. we_digest E (path_join dir name) = Some want)"
  by (induction E dir ts rule: verify_all.induct) (auto simp: verify_tool_def split: option.splits if_splits)

text \<open>The toolchain gate: the worker goes on only when every pinned tool hashes to its pin, whichever
  order the pins are checked in, and otherwise reads no task and changes neither the database nor the
  object store.\<close>

theorem toolchain_drift_touches_nothing:
  assumes "\<And>xs. set (ord xs) = set xs"
  shows "(verify_toolchain ord E dir = Inr () \<longleftrightarrow>
      (\<forall>(name, want) \<in> set pinned_tools. we_digest E (path_join dir name) = Some want)) \<and>
    (wc_tools cfg = dir \<and> verify_toolchain ord E dir \<noteq> Inr () \<longrightarrow>
      (\<exists>e. worker_run ord E cfg rd envs st s = (Some (BeforeTask e), st, s)))"
  using verify_all_iff [of E dir "ord pinned_tools"] assms
  by (auto simp: verify_toolchain_def worker_run_def split: sum.split)

definition drifted_tools :: "int worker_env" where
  "drifted_tools = demo_tools\<lparr>we_digest := (we_digest demo_tools)(''/t/ffmpeg'' \<mapsto> ''0000'')\<rparr>"

section \<open>Stored bytes\<close>

lemma put_file_get:
  "put_file h bytes st = (sha, st') \<Longrightarrow> sha = h bytes \<and> cas_exists st' sha \<and>
     (\<forall>x b. cas_get st x = Some b \<longrightarrow> cas_get st' x = Some b) \<and>
     (cas_get st (h bytes) = None \<or> cas_get st (h bytes) = Some bytes \<longrightarrow> cas_get st' sha = Some bytes)"
  by (auto simp: put_file_def cas_exists_def cas_get_def Let_def map_add_def split: if_splits option.splits)

lemma transcribe_cases:
  assumes "transcribe E cfg c mp conf st = (Inr (res, mutate), st')"
  obtains bytes sha where "put_file (we_sha256 E) bytes st = (sha, st')"
    and "transcribe_run E cfg c mp conf st = Inr bytes"
    and "mutate = insert_mutation (wc_uid cfg)
           (derived_element mp (go_get conf ''target-flavor'') ''text/vtt'' sha (length bytes))
           [''generator-type:auto'', ''generator:whisperc++'', ''lang:'' @ language_of conf]"
  using assms by (auto simp: transcribe_def split: sum.splits prod.splits)

lemma encode_cases:
  assumes "encode E cfg c mp conf st = (Inr (res, mutate), st')"
  obtains bytes src sha where "put_file (we_sha256 E) bytes st = (sha, st')"
    and "encode_run E cfg c mp conf st = Inr (bytes, src)"
    and "mutate = insert_mutation (wc_uid cfg)
           (derived_element mp (apply_flavor (go_get conf ''target-flavor'') (el_flavor src)) ''video/mp4'' sha (length bytes))
           (target_tags (go_get conf ''target-tags''))"
  using assms by (auto simp: encode_def Let_def split: sum.splits prod.splits)

text \<open>
  What it means that bytes are a tool's output. The source is the one track of the event whose flavor
  matches; its stored bytes are the only file of the scratch directory when the first tool starts; each
  tool starts on the files the one before it left; and the bytes are those of the file that the last
  tool was told to write.
\<close>

definition source_file :: "worker_config \<Rightarrow> catalog \<Rightarrow> string \<Rightarrow> string \<Rightarrow> objects \<Rightarrow> string \<Rightarrow> element_row \<Rightarrow> files \<Rightarrow> bool" where
  "source_file cfg c mp pattern st dir src fs =
     (wc_dir cfg = Some dir \<and>
      map snd (filter (is_source pattern) (mp_elements mp c)) = [src] \<and>
      (\<exists>path media. cas_get st (el_sha256 src) = Some media \<and> fs = [(path, media)]))"

definition transcribed :: "'f worker_env \<Rightarrow> worker_config \<Rightarrow> catalog \<Rightarrow> string \<Rightarrow> (string \<rightharpoonup> string) \<Rightarrow> objects \<Rightarrow> string \<Rightarrow> bool" where
  "transcribed E cfg c mp conf st bytes =
     (\<exists>dir src inp media wav args o1 fs2 o2 fs3.
        source_file cfg c mp (go_get conf ''source-flavor'') st dir src [(inp, media)] \<and>
        run_tool E cfg ''ffmpeg'' [''-i'', inp, ''-ar'', ''16000'', ''-ac'', ''1'', ''-c:a'', ''pcm_s16le'', wav]
          [(inp, media)] = Inr (o1, fs2) \<and>
        run_tool E cfg ''whisper-cli'' (wav # args) fs2 = Inr (o2, fs3) \<and>
        (\<exists>as bs. args = as @ [''--output-file'', path_join dir ''out'', ''--language'', language_of conf] @ bs) \<and>
        map_of fs3 (path_join dir ''out'' @ ''.vtt'') = Some bytes)"

definition encoded ::
  "'f worker_env \<Rightarrow> worker_config \<Rightarrow> catalog \<Rightarrow> string \<Rightarrow> (string \<rightharpoonup> string) \<Rightarrow> objects \<Rightarrow> element_row \<Rightarrow> string \<Rightarrow> bool" where
  "encoded E cfg c mp conf st src bytes =
     (\<exists>dir inp media args o1 fs2.
        source_file cfg c mp (go_get conf ''source-flavor'') st dir src [(inp, media)] \<and>
        run_tool E cfg ''ffmpeg'' (args @ [path_join dir ''preview.mp4'']) [(inp, media)] = Inr (o1, fs2) \<and>
        (\<exists>as bs. args = as @ [''-i'', inp] @ bs) \<and>
        map_of fs2 (path_join dir ''preview.mp4'') = Some bytes)"

lemma downloaded: "download dir el path st [] = Inr fs \<Longrightarrow> \<exists>media. cas_get st (el_sha256 el) = Some media \<and> fs = [(path, media)]"
  by (auto simp: download_def get_to_file_def split: option.splits if_splits)

lemma the_source:
  "select_source_track ers pattern = Inr s \<Longrightarrow> map snd (filter (is_source pattern) ers) = [snd s]"
  by (auto simp: select_source_filter split: list.splits)

lemma transcribe_run_output:
  assumes "transcribe_run E cfg c mp conf st = Inr bytes"
  shows "transcribed E cfg c mp conf st bytes"
proof -
  obtain src dir fs1 o1 fs2 o2 fs3 where src: "select_source_track (mp_elements mp c) (go_get conf ''source-flavor'') = Inr src"
    and dir: "wc_dir cfg = Some dir"
    and dl: "download dir (snd src) (path_join dir (media_name (snd src))) st [] = Inr fs1"
    and t1: "run_tool E cfg ''ffmpeg'' [''-i'', path_join dir (media_name (snd src)), ''-ar'', ''16000'', ''-ac'', ''1'',
             ''-c:a'', ''pcm_s16le'', path_join dir ''audio.wav''] fs1 = Inr (o1, fs2)"
    and t2: "run_tool E cfg ''whisper-cli'' [path_join dir ''audio.wav'', ''--model'', path_join (wc_tools cfg) ''ggml-base.bin'',
             ''-ovtt'', ''-oj'', ''--output-file'', path_join dir ''out'', ''--language'', language_of conf] fs2 = Inr (o2, fs3)"
    and out: "map_of fs3 (path_join dir ''out'' @ ''.vtt'') = Some bytes"
    using assms
    by (auto simp: transcribe_run_def Let_def scratch_def output_file_def split: if_splits option.splits)
  obtain media where media: "cas_get st (el_sha256 (snd src)) = Some media"
    "fs1 = [(path_join dir (media_name (snd src)), media)]" using downloaded [OF dl] by blast
  have "source_file cfg c mp (go_get conf ''source-flavor'') st dir (snd src) [(path_join dir (media_name (snd src)), media)]"
    using the_source [OF src] dir media(1) by (simp add: source_file_def)
  moreover have "\<exists>as bs. [''--model'', path_join (wc_tools cfg) ''ggml-base.bin'', ''-ovtt'', ''-oj'', ''--output-file'',
      path_join dir ''out'', ''--language'', language_of conf] =
      as @ [''--output-file'', path_join dir ''out'', ''--language'', language_of conf] @ bs"
    by (intro exI [of _ "[''--model'', path_join (wc_tools cfg) ''ggml-base.bin'', ''-ovtt'', ''-oj'']"] exI [of _ "[]"]) simp
  ultimately show ?thesis
    unfolding transcribed_def using t1 [unfolded media(2)] t2 out by blast
qed

lemma encode_run_output:
  assumes "encode_run E cfg c mp conf st = Inr (bytes, src)"
  shows "encoded E cfg c mp conf st src bytes"
proof -
  let ?inp = "\<lambda>dir. path_join dir (path_base (text_of (el_source src)))"
  let ?args = "\<lambda>dir. [''-nostdin'', ''-nostats'', ''-i'', ?inp dir, ''-filter:v'', ''crop=in_w/2*2:in_h/2*2'',
    ''-c:a'', ''aac'', ''-c:v'', ''libx264'', ''-preset'', ''faster'', ''-g'', ''30'', ''-pix_fmt'', ''yuv420p'']"
  obtain e dir fs1 o1 fs2 where src: "select_source_track (mp_elements mp c) (go_get conf ''source-flavor'') = Inr (e, src)"
    and dir: "wc_dir cfg = Some dir"
    and dl: "download dir src (?inp dir) st [] = Inr fs1"
    and t1: "run_tool E cfg ''ffmpeg'' (?args dir @ [path_join dir ''preview.mp4'']) fs1 = Inr (o1, fs2)"
    and out: "map_of fs2 (path_join dir ''preview.mp4'') = Some bytes"
    using assms
    by (auto simp: encode_run_def Let_def scratch_def output_file_def split: if_splits option.splits)
  obtain media where media: "cas_get st (el_sha256 src) = Some media" "fs1 = [(?inp dir, media)]"
    using downloaded [OF dl] by blast
  have "source_file cfg c mp (go_get conf ''source-flavor'') st dir src [(?inp dir, media)]"
    using the_source [OF src] dir media(1) by (simp add: source_file_def)
  moreover have "\<exists>as bs. ?args dir = as @ [''-i'', ?inp dir] @ bs"
    by (rule exI [of _ "[''-nostdin'', ''-nostats'']"]) simp
  ultimately show ?thesis
    unfolding encoded_def using t1 [unfolded media(2)] out by blast
qed

lemma insert_element_Inr:
  "insert_element i el tags False c = Inr c' \<Longrightarrow>
     map_of (c_el c) i = None \<and> map_of (c_mp c) (el_mp el) \<noteq> None \<and>
     c' = c\<lparr>c_el := c_el c @ [(i, el)], c_tag := fold (\<lambda>t ts. insert_ignore (i, t) ts) tags (c_tag c)\<rparr>"
  by (auto simp: insert_element_def split: if_splits)

lemma fold_insert_ignore: "set (fold (\<lambda>t ts. insert_ignore (i, t) ts) tags ts0) = set ts0 \<union> Pair i ` set tags"
  by (induction tags arbitrary: ts0) (auto simp: insert_ignore_def)

lemma put_file_store:
  assumes "put_file h bytes st = (sha, st')" and "cas_get st (h bytes) = None \<or> cas_get st (h bytes) = Some bytes"
  shows "cas_get st' x = (if object_key x = object_key sha then Some bytes else cas_get st x)"
  using assms
  by (auto simp: put_file_def cas_exists_def cas_get_def Let_def map_add_def split: if_splits option.splits)

text \<open>The commit of the mutation built from the bytes a tool wrote.\<close>

lemma committed_element:
  fixes E :: "'f worker_env" and bytes flavor mime sha mp :: string
  defines "el d \<equiv> (derived_element mp flavor mime sha (length bytes))\<lparr>el_created_at := c_now (wd_cat d)\<rparr>"
  assumes put: "put_file (we_sha256 E) bytes st = (sha, st')"
    and mut: "Some mutate = insert_mutation uid (derived_element mp flavor mime sha (length bytes)) tags"
    and "mime \<noteq> []" and "mutate d = Inr d'"
    and free: "\<And>b. cas_get st (we_sha256 E b) = None \<or> cas_get st (we_sha256 E b) = Some b"
  shows "el_flavor (el d) = flavor \<and> el_mimetype (el d) = Some mime \<and> el_mp (el d) = mp \<and> el_kind (el d) = ''track'' \<and>
    el_sha256 (el d) = we_sha256 E bytes \<and> el_size (el d) = int (length bytes) \<and>
    (\<forall>x. cas_get st' x = (if object_key x = object_key (we_sha256 E bytes) then Some bytes else cas_get st x)) \<and>
    map_of (c_el (wd_cat d)) uid = None \<and>
    set (c_tag (wd_cat d')) = set (c_tag (wd_cat d)) \<union> Pair uid ` set tags \<and>
    d' = d\<lparr>wd_cat := (wd_cat d)\<lparr>c_el := c_el (wd_cat d) @ [(uid, el d)], c_tag := c_tag (wd_cat d')\<rparr>\<rparr>"
proof -
  have sha: "sha = we_sha256 E bytes" using put_file_get [OF put] by simp
  have ins: "insert_element uid (el d) tags False (wd_cat d) = Inr (wd_cat d')" and d': "d' = d\<lparr>wd_cat := wd_cat d'\<rparr>"
    using assms(5) mut by (auto simp: el_def insert_mutation_def on_catalog_Inr)
  note ie = insert_element_Inr [OF ins, THEN conjunct1] insert_element_Inr [OF ins, THEN conjunct2, THEN conjunct2]
  have tags: "set (c_tag (wd_cat d')) = set (c_tag (wd_cat d)) \<union> Pair uid ` set tags"
    by (subst ie(2)) (simp add: fold_insert_ignore)
  have only: "wd_cat d' = (wd_cat d)\<lparr>c_el := c_el (wd_cat d) @ [(uid, el d)], c_tag := c_tag (wd_cat d')\<rparr>"
    by (subst (2) ie(2), subst ie(2)) simp
  have store: "\<forall>x. cas_get st' x = (if object_key x = object_key (we_sha256 E bytes) then Some bytes else cas_get st x)"
    using put_file_store [OF put free] sha by simp
  show ?thesis
    by (intro conjI store tags ie(1))
       (use d' only sha assms(4) in \<open>simp_all add: el_def derived_element_def null_if_empty_def\<close>)
qed

text \<open>C22: an element a worker records has the bytes its tool wrote. When the mutation of a transcription or an
  encode commits, the new track's digest and size are those of the output file: for a transcription the
  subtitle file whisper wrote from the audio ffmpeg extracted, for an encode the file ffmpeg wrote, in both
  cases from the stored bytes of the one track of the event that matches the source flavor. The store then
  holds exactly those bytes under that digest and is otherwise what it was. The element has the flavor and
  tags of the configuration; every other element, tag, event, publication and all else of the database stays
  as it was. Assumed is that the store holds no foreign bytes under the digest of the output.\<close>

theorem recorded_element_has_its_bytes:
  assumes "op_body E cfg rd t st = (Inr (res, Some mutate), st')"
    and "t_operation t = ''speechtotext'' \<or> t_operation t = ''encode''" and "mutate d = Inr d'"
    and "\<And>b. cas_get st (we_sha256 E b) = None \<or> cas_get st (we_sha256 E b) = Some b"
  shows "\<exists>mp bytes el tags.
    mediapackage_id (t_id t) rd = Inr mp \<and>
    (if t_operation t = ''speechtotext''
     then transcribed E cfg (wd_cat (db_data rd)) mp (t_config t) st bytes \<and>
       el_flavor el = go_get (t_config t) ''target-flavor'' \<and> el_mimetype el = Some ''text/vtt'' \<and>
       tags = [''generator-type:auto'', ''generator:whisperc++'', ''lang:'' @ language_of (t_config t)]
     else (\<exists>src. encoded E cfg (wd_cat (db_data rd)) mp (t_config t) st src bytes \<and>
         el_flavor el = apply_flavor (go_get (t_config t) ''target-flavor'') (el_flavor src)) \<and>
       el_mimetype el = Some ''video/mp4'' \<and> tags = target_tags (go_get (t_config t) ''target-tags'')) \<and>
    el_mp el = mp \<and> el_kind el = ''track'' \<and> el_sha256 el = we_sha256 E bytes \<and> el_size el = int (length bytes) \<and>
    (\<forall>x. cas_get st' x = (if object_key x = object_key (we_sha256 E bytes) then Some bytes else cas_get st x)) \<and>
    map_of (c_el (wd_cat d)) (wc_uid cfg) = None \<and>
    set (c_tag (wd_cat d')) = set (c_tag (wd_cat d)) \<union> Pair (wc_uid cfg) ` set tags \<and>
    d' = d\<lparr>wd_cat := (wd_cat d)\<lparr>c_el := c_el (wd_cat d) @ [(wc_uid cfg, el)], c_tag := c_tag (wd_cat d')\<rparr>\<rparr>"
proof -
  obtain mp where mp: "mediapackage_id (t_id t) rd = Inr mp"
    using assms(1,2) by (auto simp: op_body_def Let_def split: sum.splits if_splits)
  let ?c = "wd_cat (db_data rd)" and ?conf = "t_config t"
  have finish: ?thesis
    if put: "put_file (we_sha256 E) bytes st = (sha, st')"
      and mut: "Some mutate = insert_mutation (wc_uid cfg) (derived_element mp flavor mime sha (length bytes)) tags"
      and "mime \<noteq> []"
      and out: "if t_operation t = ''speechtotext''
        then transcribed E cfg ?c mp ?conf st bytes \<and> flavor = go_get ?conf ''target-flavor'' \<and> mime = ''text/vtt'' \<and>
          tags = [''generator-type:auto'', ''generator:whisperc++'', ''lang:'' @ language_of ?conf]
        else (\<exists>src. encoded E cfg ?c mp ?conf st src bytes \<and>
            flavor = apply_flavor (go_get ?conf ''target-flavor'') (el_flavor src)) \<and> mime = ''video/mp4'' \<and>
          tags = target_tags (go_get ?conf ''target-tags'')"
    for bytes sha flavor mime tags
    by (intro exI [of _ mp] exI [of _ bytes] exI [of _ tags]
          exI [of _ "(derived_element mp flavor mime sha (length bytes))\<lparr>el_created_at := c_now (wd_cat d)\<rparr>"])
       (use mp out committed_element [OF put mut \<open>mime \<noteq> []\<close> assms(3,4)] in \<open>simp split: if_splits\<close>)
  show ?thesis
  proof (cases "t_operation t = ''speechtotext''")
    case True
    then have "transcribe E cfg ?c mp ?conf st = (Inr (res, Some mutate), st')"
      using assms(1) mp by (simp add: op_body_def)
    then show ?thesis
    proof (rule transcribe_cases)
      fix bytes sha
      assume "put_file (we_sha256 E) bytes st = (sha, st')" and run: "transcribe_run E cfg ?c mp ?conf st = Inr bytes"
        and "Some mutate = insert_mutation (wc_uid cfg)
          (derived_element mp (go_get ?conf ''target-flavor'') ''text/vtt'' sha (length bytes))
          [''generator-type:auto'', ''generator:whisperc++'', ''lang:'' @ language_of ?conf]"
      then show ?thesis using True transcribe_run_output [OF run] by (intro finish) simp_all
    qed
  next
    case False
    then have "encode E cfg ?c mp ?conf st = (Inr (res, Some mutate), st')"
      using assms(1,2) mp by (simp add: op_body_def)
    then show ?thesis
    proof (rule encode_cases)
      fix bytes src sha
      assume "put_file (we_sha256 E) bytes st = (sha, st')" and run: "encode_run E cfg ?c mp ?conf st = Inr (bytes, src)"
        and "Some mutate = insert_mutation (wc_uid cfg)
          (derived_element mp (apply_flavor (go_get ?conf ''target-flavor'') (el_flavor src)) ''video/mp4'' sha (length bytes))
          (target_tags (go_get ?conf ''target-tags''))"
      then show ?thesis using False encode_run_output [OF run] by (intro finish) auto
    qed
  qed
qed

theorem recorded_element_has_its_bytes_witness:
  "\<exists>bytes el. map_of (c_el (wd_cat demo_after)) ''u'' = Some el \<and> el_size el = int (length bytes) \<and>
     (\<exists>src. encoded demo_tools demo_worker (demo_media (Some ''http://h/x.mov'')) ''m'' demo_conf demo_store src bytes) \<and>
     cas_get (demo_store @ [(object_key ''sout'', ''out'')]) (el_sha256 el) = Some bytes"
proof -
  have clean: "cas_get demo_store (we_sha256 demo_tools b) = None \<or> cas_get demo_store (we_sha256 demo_tools b) = Some b" for b
    by (cases b) (auto simp: cas_get_def demo_store_def demo_tools_def object_key_def)
  have "t_operation demo_job = ''speechtotext'' \<or> t_operation demo_job = ''encode''" by (simp add: demo_job_def)
  from recorded_element_has_its_bytes [OF demo_op_body [unfolded insert_mutation_def] this demo_mutation clean]
  obtain mp bytes el tags where mp: "mediapackage_id (t_id demo_job) (demo_db (Some ''http://h/x.mov'')) = Inr mp"
    and src: "\<exists>src. encoded demo_tools demo_worker (demo_media (Some ''http://h/x.mov'')) mp demo_conf demo_store src bytes"
    and el: "el_sha256 el = we_sha256 demo_tools bytes" "el_size el = int (length bytes)"
    and store: "\<forall>x. cas_get (demo_store @ [(object_key ''sout'', ''out'')]) x =
        (if object_key x = object_key (we_sha256 demo_tools bytes) then Some bytes else cas_get demo_store x)"
    and "map_of (c_el (wd_cat (db_data (demo_db (Some ''http://h/x.mov''))))) (wc_uid demo_worker) = None"
    and d': "demo_after = db_data (demo_db (Some ''http://h/x.mov''))\<lparr>wd_cat :=
        (wd_cat (db_data (demo_db (Some ''http://h/x.mov''))))\<lparr>c_el :=
          c_el (wd_cat (db_data (demo_db (Some ''http://h/x.mov'')))) @ [(wc_uid demo_worker, el)],
          c_tag := c_tag (wd_cat demo_after)\<rparr>\<rparr>"
    by (auto simp: demo_job_def demo_db_def)
  have "mp = ''m''" using mp by (simp add: mediapackage_id_def get_task_def demo_db_def demo_job_def)
  moreover have "map_of (c_el (wd_cat demo_after)) ''u'' = Some el"
    by (subst d') (simp add: demo_db_def demo_media_def demo_worker_def)
  ultimately show ?thesis using src el store by auto
qed

section \<open>A run that nothing disturbs\<close>

lemma task_row_unique:
  "distinct (map t_id ts) \<Longrightarrow> find (\<lambda>t. t_id t = i) ts = Some t \<Longrightarrow> u \<in> set ts \<Longrightarrow> t_id u = i \<Longrightarrow> u = t"
  by (auto simp: find_Some_iff) (metis key_unique nth_mem)

lemma found_task: "find (\<lambda>t. t_id t = i) ts = Some t \<Longrightarrow> t \<in> set ts \<and> t_id t = i"
  by (auto simp: find_Some_iff)

lemma undisturbed_execution:
  assumes "get_task i s = Inr t" and "distinct (map t_id (tasks s))" and "t_state t = ASSIGNED"
    and "mutate (db_data s) = Inr d'"
  shows "\<exists>s'. execute_task i own l (BodyReturned (Inr raw) (Some mutate)) [] s = (None, s') \<and> db_data s' = d' \<and>
    (\<forall>u \<in> set (tasks s'). t_id u = i \<longrightarrow> t_state u = FINISHED \<and> t_result u = Some (Returned raw))"
proof -
  have t: "t \<in> set (tasks s)" "t_id t = i"
    using assms(1) found_task by (fastforce simp: get_task_def split: option.splits)+
  have only: "u = t" if "u \<in> set (tasks s)" "t_id u = i" for u
    using key_unique [OF assms(2) that(1) t(1)] that(2) t(2) by simp
  let ?f = "\<lambda>t. t\<lparr>t_state := RUNNING, t_owner := Some own, t_lease := clock s + l\<rparr>"
  let ?g = "\<lambda>t. t\<lparr>t_state := FINISHED, t_result := Some (Returned raw)\<rparr>"
  let ?s1 = "s\<lparr>tasks := update_where (is_assigned i) ?f (tasks s)\<rparr>"
  have a: "is_assigned i t" using t(2) assms(3) by (simp add: is_assigned_def)
  have st: "start_task i own l s = Inr ?s1" using a t(1) by (auto simp: start_task_eq)
  have "?f t \<in> set (tasks ?s1)" using update_where_hit [OF t(1), of "is_assigned i" ?f] a by simp
  then have "\<exists>u \<in> set (tasks ?s1). is_owned i own u"
    using t(2) by (intro bexI [of _ "?f t"]) (simp_all add: is_owned_def)
  then have "complete_task i own (Inr raw) (Some mutate) ?s1 =
      Inr (?s1\<lparr>db_data := d', tasks := update_where (is_owned i own) ?g (tasks ?s1)\<rparr>)"
    using assms(4) by (simp add: complete_task_eq run_mutation_def)
  moreover have "t_state u = FINISHED \<and> t_result u = Some (Returned raw)"
    if "u \<in> set (update_where (is_owned i own) ?g (update_where (is_assigned i) ?f (tasks s)))" "t_id u = i" for u
  proof -
    note mem = that(1)
    obtain w where w: "w \<in> set (update_where (is_assigned i) ?f (tasks s))"
      and u: "u = (if is_owned i own w then ?g w else w)"
      using update_where_memE [OF mem] by blast
    obtain v where v: "v \<in> set (tasks s)" and wv: "w = (if is_assigned i v then ?f v else v)"
      using update_where_memE [OF w] by blast
    have "t_id v = i" using that(2) u wv by (auto split: if_splits)
    then have "v = t" using only v by blast
    then show ?thesis using u wv a t(2) by (simp add: is_owned_def)
  qed
  ultimately show ?thesis using st by (simp add: execute_task_def)
qed

text \<open>C23: a worker whose tools match its pins and whose task nothing takes away finishes it: if the
  operation's body returns and its mutation applies, the run returns no error, the task row is FINISHED
  with the marshalled result, and the database and the object store are the mutation's and the body's.\<close>

theorem clean_run_finishes:
  assumes "verify_toolchain ord E (wc_tools cfg) = Inr ()" and "get_task (wc_task cfg) s = Inr t"
    and "distinct (map t_id (tasks s))" and "t_state t = ASSIGNED"
    and "op_body E cfg rd t st = (Inr (res, Some mutate), st')" and "mutate (db_data s) = Inr d'"
  shows "\<exists>s'. worker_run ord E cfg rd [] st s = (None, st', s') \<and> db_data s' = d' \<and>
    (\<forall>u \<in> set (tasks s'). t_id u = wc_task cfg \<longrightarrow>
       t_state u = FINISHED \<and> t_result u = Some (Returned (we_marshal E res)))"
proof -
  have t: "t \<in> set (tasks s)" "t_id t = wc_task cfg"
    using assms(2) found_task by (fastforce simp: get_task_def split: option.splits)+
  obtain s' where s': "execute_task (wc_task cfg) (wc_owner cfg) (wc_lease cfg)
        (BodyReturned (Inr (we_marshal E res)) (Some mutate)) [] s = (None, s')" "db_data s' = d'"
      "\<forall>u \<in> set (tasks s'). t_id u = wc_task cfg \<longrightarrow>
         t_state u = FINISHED \<and> t_result u = Some (Returned (we_marshal E res))"
    using undisturbed_execution [where mutate = mutate and d' = d', OF assms(2,3,4,6)] by blast
  have "is_ok (start_task (wc_task cfg) (wc_owner cfg) (wc_lease cfg) s)"
    using t assms(4) by (auto simp: start_task_eq is_assigned_def)
  then show ?thesis
    using assms(1,2,5) s' t(2) by (simp add: worker_run_def outcome_of_def Let_def)
qed

theorem clean_run_finishes_witness:
  "\<exists>s'. worker_run (\<lambda>xs. xs) demo_tools demo_worker (demo_db (Some ''http://h/x.mov'')) [] demo_store
       (demo_db (Some ''http://h/x.mov'')) = (None, demo_store @ [(object_key ''sout'', ''out'')], s') \<and>
     (\<forall>u \<in> set (tasks s'). t_id u = 3 \<longrightarrow> t_state u = FINISHED)"
proof -
  have "verify_toolchain (\<lambda>xs. xs) demo_tools (wc_tools demo_worker) = Inr ()"
    using demo_toolchain by (simp add: demo_worker_def)
  moreover have "get_task (wc_task demo_worker) (demo_db (Some ''http://h/x.mov'')) = Inr demo_job"
    by (simp add: get_task_def demo_db_def demo_worker_def demo_job_def)
  ultimately show ?thesis
    using clean_run_finishes [OF _ _ _ _ demo_op_body [unfolded insert_mutation_def] demo_mutation, of "\<lambda>xs. xs"]
    by (auto simp: demo_worker_def demo_job_def demo_db_def)
qed

section \<open>Derived elements as sources\<close>

lemma path_dir_shorter: "length (path_dir p) \<le> length p"
  by (simp add: path_dir_def) (metis diff_le_self le_trans length_dropWhile_le length_rev)

lemma input_path_free: "path_join dir ''input'' \<noteq> dir \<and> path_join dir ''input'' \<noteq> path_dir dir"
proof -
  have "length (path_join dir ''input'') > length dir" by (simp add: path_join_def)
  then show ?thesis using path_dir_shorter [of dir] by (metis leD less_irrefl)
qed

text \<open>An element a worker recorded has no source URL, and encode, unlike transcribe, then downloads
  onto the scratch directory itself: encoding it fails whatever the tools do, although its bytes are
  stored and a transcription would download them.\<close>

theorem derived_source_cannot_be_encoded:
  assumes "go_get conf ''source-flavor'' \<noteq> []" and "go_get conf ''target-flavor'' \<noteq> []"
    and "go_get conf ''encoding-profile'' = ''fast.http''"
    and "select_source_track (mp_elements mp c) (go_get conf ''source-flavor'') = Inr (e, el)"
    and "el = (derived_element mp flavor mime sha n)\<lparr>el_created_at := at\<rparr>"
    and "wc_dir cfg = Some dir" and "cas_get st sha = Some bytes"
  shows "encode_run E cfg c mp conf st = Inl (DownloadFailed sha) \<and>
    download dir el (path_join dir (media_name el)) st [] = Inr [(path_join dir ''input'', bytes)]"
proof
  have base: "path_base (text_of (el_source el)) = ''.''"
    by (simp add: assms(5) derived_element_def text_of_def path_base_def)
  have sha: "el_sha256 el = sha" by (simp add: assms(5) derived_element_def)
  show "encode_run E cfg c mp conf st = Inl (DownloadFailed sha)"
    using assms(1,2,3,4,6,7) base sha
    by (simp add: encode_run_def scratch_def download_def get_to_file_def path_join_def Let_def)
  show "download dir el (path_join dir (media_name el)) st [] = Inr [(path_join dir ''input'', bytes)]"
    using assms(7) base sha input_path_free [of dir]
    by (simp add: download_def get_to_file_def media_name_def Let_def)
qed

section \<open>Command lines\<close>

lemma command_suffix:
  "\<exists>pre. command caps s bin args = pre @ bin # args \<and> (pre = [] \<or> hd pre = ''systemd-run'' \<and> last pre = ''--'')"
  by (auto simp: command_def)

lemma command_plain: "cpu_millis s \<le> 0 \<Longrightarrow> memory_mb s \<le> 0 \<Longrightarrow> command caps s bin args = bin # args"
  by (simp add: command_def)

text \<open>Quota arithmetic rounds down: fewer than ten millis ask systemd for a zero quota.\<close>

lemma small_quota:
  "0 < cpu_millis s \<Longrightarrow> cpu_millis s < 10 \<Longrightarrow> ''CPUQuota=0%'' \<in> set (command True s bin args)"
proof -
  assume a: "0 < cpu_millis s" "cpu_millis s < 10"
  have "dec_int 0 = ''0''" by code_simp
  then show ?thesis using a by (simp add: command_def)
qed

end
