(* ===== verification/Xml.thy ===== *)
theory Xml
  imports Prelude
begin

text \<open>
  The part of Go's \<open>encoding/xml\<close> the repository reads and writes documents with: UTF-8 decoding,
  \<open>EscapeText\<close>, the strict tokenizer and the tree of the first element of a document, which is
  what \<open>Unmarshal\<close> walks. Every syntax error is \<open>None\<close>. Letters outside ASCII in names are looked
  up in the parameter \<open>uname\<close>; \<open>Unmarshal\<close>'s depth limit of 10000 is above any structure read here.
\<close>

section \<open>Runes\<close>

definition byte_val :: "char \<Rightarrow> nat" where
  "byte_val c = of_char c"

definition cont_byte :: "nat \<Rightarrow> bool" where
  "cont_byte y = (128 \<le> y \<and> y \<le> 191)"

text \<open>\<open>utf8.DecodeRune\<close>: the rune, \<open>None\<close> for an invalid sequence, and the bytes it takes.\<close>

definition decode_rune :: "char \<Rightarrow> string \<Rightarrow> nat option \<times> nat" where
  "decode_rune a s =
     (let x = byte_val a
      in if x < 128 then (Some x, 1)
         else case s of
           [] \<Rightarrow> (None, 1)
         | b # s2 \<Rightarrow>
             (let y = byte_val b
              in if 194 \<le> x \<and> x \<le> 223 \<and> cont_byte y then (Some ((x - 192) * 64 + (y - 128)), 2)
                 else case s2 of
                   [] \<Rightarrow> (None, 1)
                 | c # s3 \<Rightarrow>
                     (let z = byte_val c
                      in if 224 \<le> x \<and> x \<le> 239 \<and> cont_byte y \<and> cont_byte z \<and>
                            (x \<noteq> 224 \<or> 160 \<le> y) \<and> (x \<noteq> 237 \<or> y \<le> 159)
                         then (Some ((x - 224) * 4096 + (y - 128) * 64 + (z - 128)), 3)
                         else case s3 of
                           [] \<Rightarrow> (None, 1)
                         | d # s4 \<Rightarrow>
                             (let w = byte_val d
                              in if 240 \<le> x \<and> x \<le> 244 \<and> cont_byte y \<and> cont_byte z \<and> cont_byte w \<and>
                                    (x \<noteq> 240 \<or> 144 \<le> y) \<and> (x \<noteq> 244 \<or> y \<le> 143)
                                 then (Some ((x - 240) * 262144 + (y - 128) * 4096 +
                                             (z - 128) * 64 + (w - 128)), 4)
                                 else (None, 1)))))"

lemma decode_rune_width: "1 \<le> snd (decode_rune a s) \<and> snd (decode_rune a s) \<le> Suc (length s)"
  by (auto simp: decode_rune_def Let_def split: list.splits)

function runes :: "string \<Rightarrow> (nat option \<times> string) list" where
  "runes [] = []"
| "runes (a # s) =
     (fst (decode_rune a s), take (snd (decode_rune a s)) (a # s)) #
     runes (drop (snd (decode_rune a s) - 1) s)"
  by pat_completeness auto
termination by (relation "measure length") auto

lemma runes_concat: "concat (map snd (runes s)) = s"
proof (induction s rule: runes.induct)
  case (2 a s)
  obtain w where w: "snd (decode_rune a s) = Suc w"
    using decode_rune_width [of a s] by (cases "snd (decode_rune a s)") auto
  show ?case using 2 by (simp add: w)
qed simp

text \<open>A rune below 128 is its one byte; any other valid rune has only bytes of at least 128.\<close>

lemma rune_at_least_128:
  "2 \<le> p \<Longrightarrow> 128 \<le> p * 64 + k"
  "1 \<le> p \<or> 32 \<le> q \<Longrightarrow> 128 \<le> p * 4096 + q * 64 + k"
  "1 \<le> p \<or> 16 \<le> q \<Longrightarrow> 128 \<le> p * 262144 + q * 4096 + k1 + k"
  for p q :: nat
  by auto

lemma rune_of:
  assumes "fst (decode_rune a s) = Some n" and "decode_rune a s = (Some m, w)" and "128 \<le> m"
    and "\<forall>b \<in> set (take w (a # s)). 128 \<le> byte_val b"
  shows "128 \<le> n \<and> (\<forall>b \<in> set (take (snd (decode_rune a s)) (a # s)). 128 \<le> byte_val b)"
  using assms by simp

lemma decode_rune_bytes:
  assumes "fst (decode_rune a s) = Some n"
  shows "(n < 128 \<and> take (snd (decode_rune a s)) (a # s) = [a] \<and> byte_val a = n) \<or>
     (128 \<le> n \<and> (\<forall>b \<in> set (take (snd (decode_rune a s)) (a # s)). 128 \<le> byte_val b))"
proof (cases "byte_val a < 128")
  case True
  then show ?thesis using assms by (simp add: decode_rune_def)
next
  case a: False
  then obtain b s2 where s: "s = b # s2"
    using assms by (cases s) (simp_all add: decode_rune_def Let_def)
  show ?thesis
  proof (cases "194 \<le> byte_val a \<and> byte_val a \<le> 223 \<and> cont_byte (byte_val b)")
    case True
    then have "decode_rune a s = (Some ((byte_val a - 192) * 64 + (byte_val b - 128)), 2)"
      using a s by (simp add: decode_rune_def Let_def)
    then have "128 \<le> n \<and> (\<forall>b \<in> set (take (snd (decode_rune a s)) (a # s)). 128 \<le> byte_val b)"
      by (rule rune_of [OF assms]) (use True s in \<open>auto intro!: rune_at_least_128 simp: cont_byte_def\<close>)
    then show ?thesis ..
  next
    case two: False
    then obtain c s3 where s2: "s2 = c # s3"
      using assms a s by (cases s2) (simp_all add: decode_rune_def Let_def split: if_splits)
    show ?thesis
    proof (cases "224 \<le> byte_val a \<and> byte_val a \<le> 239 \<and> cont_byte (byte_val b) \<and> cont_byte (byte_val c) \<and>
        (byte_val a \<noteq> 224 \<or> 160 \<le> byte_val b) \<and> (byte_val a \<noteq> 237 \<or> byte_val b \<le> 159)")
      case True
      then have "decode_rune a s = (Some ((byte_val a - 224) * 4096 + (byte_val b - 128) * 64 + (byte_val c - 128)), 3)"
        using a two s s2 by (simp add: decode_rune_def Let_def)
      then have "128 \<le> n \<and> (\<forall>b \<in> set (take (snd (decode_rune a s)) (a # s)). 128 \<le> byte_val b)"
        by (rule rune_of [OF assms]) (use True s s2 in \<open>auto intro!: rune_at_least_128 simp: cont_byte_def\<close>)
      then show ?thesis ..
    next
      case three: False
      obtain d s4 where s3: "s3 = d # s4"
        using assms a s s2 two three by (cases s3) (simp_all only: decode_rune_def Let_def list.case if_False fst_conv option.distinct simp_thms)
      have "240 \<le> byte_val a \<and> byte_val a \<le> 244 \<and> cont_byte (byte_val b) \<and> cont_byte (byte_val c) \<and>
          cont_byte (byte_val d) \<and> (byte_val a \<noteq> 240 \<or> 144 \<le> byte_val b) \<and>
          (byte_val a \<noteq> 244 \<or> byte_val b \<le> 143)" (is ?four)
        using assms a s s2 s3 two three
        by (simp only: decode_rune_def Let_def list.case if_False split: if_splits) simp_all
      moreover from this have "decode_rune a s = (Some ((byte_val a - 240) * 262144 + (byte_val b - 128) * 4096 +
          (byte_val c - 128) * 64 + (byte_val d - 128)), 4)"
        using a s s2 s3 two three
        by (simp only: decode_rune_def Let_def list.case if_False if_True simp_thms)
      ultimately have "128 \<le> n \<and> (\<forall>b \<in> set (take (snd (decode_rune a s)) (a # s)). 128 \<le> byte_val b)"
        by (intro rune_of [OF assms]) (use s s2 s3 in \<open>auto intro!: rune_at_least_128 simp: cont_byte_def\<close>)
      then show ?thesis ..
    qed
  qed
qed

lemma runes_bytes:
  assumes "(Some n, bs) \<in> set (runes s)"
  shows "(n < 128 \<and> (\<exists>a. bs = [a] \<and> byte_val a = n)) \<or> (128 \<le> n \<and> (\<forall>b \<in> set bs. 128 \<le> byte_val b))"
  using assms
proof (induction s rule: runes.induct)
  case (2 a s)
  then show ?case using decode_rune_bytes [of a s n] by (auto simp del: One_nat_def)
qed simp

text \<open>\<open>isInCharacterRange\<close>.\<close>

definition xml_rune :: "nat \<Rightarrow> bool" where
  "xml_rune r =
     (r = 9 \<or> r = 10 \<or> r = 13 \<or> (32 \<le> r \<and> r \<le> 55295) \<or> (57344 \<le> r \<and> r \<le> 65533) \<or>
      (65536 \<le> r \<and> r \<le> 1114111))"

definition xml_text :: "string \<Rightarrow> bool" where
  "xml_text s = list_all (\<lambda>(r, bs). case r of None \<Rightarrow> False | Some n \<Rightarrow> xml_rune n) (runes s)"

definition utf8_encode :: "nat \<Rightarrow> string" where
  "utf8_encode r0 =
     (let r = (if 55296 \<le> r0 \<and> r0 \<le> 57343 then 65533 else r0)
      in map char_of
        (if r < 128 then [r]
         else if r < 2048 then [192 + r div 64, 128 + r mod 64]
         else if r < 65536 then [224 + r div 4096, 128 + (r div 64) mod 64, 128 + r mod 64]
         else [240 + r div 262144, 128 + (r div 4096) mod 64, 128 + (r div 64) mod 64, 128 + r mod 64]))"

section \<open>\<open>EscapeText\<close>\<close>

definition replacement :: string where
  "replacement = utf8_encode 65533"

definition esc_rune :: "nat option \<times> string \<Rightarrow> string" where
  "esc_rune p =
     (case fst p of
        None \<Rightarrow> replacement
      | Some n \<Rightarrow>
          (if n = 34 then ''&#34;'' else if n = 39 then ''&#39;'' else if n = 38 then ''&amp;''
           else if n = 60 then ''&lt;'' else if n = 62 then ''&gt;''
           else if n = 9 then ''&#x9;'' else if n = 10 then ''&#xA;'' else if n = 13 then ''&#xD;''
           else if xml_rune n then snd p else replacement))"

definition esc :: "string \<Rightarrow> string" where
  "esc s = concat (map esc_rune (runes s))"

section \<open>Character data\<close>

definition max_rune :: nat where
  "max_rune = 1114111"

definition hex_val :: "char \<Rightarrow> nat option" where
  "hex_val c =
     (let n = byte_val c
      in if 48 \<le> n \<and> n \<le> 57 then Some (n - 48)
         else if 97 \<le> n \<and> n \<le> 102 then Some (n - 87)
         else if 65 \<le> n \<and> n \<le> 70 then Some (n - 55) else None)"

fun number_val :: "nat \<Rightarrow> nat \<Rightarrow> string \<Rightarrow> nat option" where
  "number_val base acc [] = Some acc"
| "number_val base acc (c # cs) =
     (case hex_val c of
        None \<Rightarrow> None
      | Some d \<Rightarrow> if d < base then number_val base (base * acc + d) cs else None)"

definition char_reference :: "nat \<Rightarrow> string \<Rightarrow> string option" where
  "char_reference base ds =
     (if ds = [] then None
      else case number_val base 0 ds of
        None \<Rightarrow> None
      | Some n \<Rightarrow> if n \<le> max_rune then Some (utf8_encode n) else None)"

definition entity_text :: "string \<Rightarrow> string option" where
  "entity_text name =
     (if name = ''lt'' then Some ''<'' else if name = ''gt'' then Some ''>''
      else if name = ''amp'' then Some ''&'' else if name = ''apos'' then Some [CHR 0x27]
      else if name = ''quot'' then Some [CHR 0x22]
      else if has_prefix name ''#x'' then char_reference 16 (drop 2 name)
      else if has_prefix name ''#'' then char_reference 10 (drop 1 name) else None)"

text \<open>What follows an ampersand: the text it stands for and what is after the semicolon.\<close>

definition entity :: "string \<Rightarrow> (string \<times> string) option" where
  "entity s =
     (case cut_at CHR '';'' s of
        (name, r, ok) \<Rightarrow>
          (if \<not> ok then None else map_option (\<lambda>t. (t, r)) (entity_text name)))"

lemma cut_at_length: "cut_at c s = (a, b, True) \<Longrightarrow> length b < length s"
  by (induction c s arbitrary: a rule: cut_at.induct)
     (fastforce split: if_splits prod.splits)+

lemma entity_length: "entity s = Some (t, r) \<Longrightarrow> length r < length s"
  by (auto simp: entity_def split: prod.splits if_splits dest: cut_at_length)

text \<open>\<open>Decoder.text\<close>: in character data, in a quoted attribute value, in a CDATA section.\<close>

datatype text_mode = CharData | Quoted char | CData

function text_run :: "text_mode \<Rightarrow> char \<Rightarrow> char \<Rightarrow> string \<Rightarrow> (string \<times> string) option" where
  "text_run m b0 b1 [] = (if m = CData then None else Some ([], []))"
| "text_run m b0 b1 (c # cs) =
     (if b0 = CHR '']'' \<and> b1 = CHR '']'' \<and> c = CHR ''>'' \<and> (m = CData \<or> m = CharData)
      then (if m = CData then Some ([], cs) else None)
      else if c = CHR ''<'' \<and> m \<noteq> CData then (if m = CharData then Some ([], c # cs) else None)
      else if m = Quoted c then Some ([], cs)
      else if c = CHR ''&'' \<and> m \<noteq> CData
      then (case entity cs of
              None \<Rightarrow> None
            | Some (t, r) \<Rightarrow>
                map_option (\<lambda>(d, r'). (t @ d, r')) (text_run m (CHR 0x00) (CHR 0x00) r))
      else map_option (\<lambda>(d, r).
             ((if c = CHR 0x0D then [CHR 0x0A] else if b1 = CHR 0x0D \<and> c = CHR 0x0A then [] else [c]) @ d, r))
             (text_run m b1 c cs))"
  by pat_completeness auto
termination by (relation "measure (\<lambda>(m, b0, b1, s). length s)") (auto dest: entity_length)

lemma text_run_length: "text_run m b0 b1 s = Some (d, r) \<Longrightarrow> length r \<le> length s"
proof (induction m b0 b1 s arbitrary: d rule: text_run.induct)
  case (2 m b0 b1 c cs)
  show ?case
    using 2 entity_length [of cs]
    by (auto simp del: text_run.simps simp: text_run.simps(2) split: if_splits option.splits prod.splits)
       fastforce+
qed (auto split: if_splits)

lemma text_run_consumes:
  "text_run m b0 b1 (c # cs) = Some (d, r) \<Longrightarrow> c \<noteq> CHR ''<'' \<or> m \<noteq> CharData \<Longrightarrow> length r \<le> length cs"
  by (auto simp: text_run.simps(2) split: if_splits option.splits prod.splits
      dest!: text_run_length entity_length)

definition chardata :: "text_mode \<Rightarrow> string \<Rightarrow> (string \<times> string) option" where
  "chardata m s =
     (case text_run m (CHR 0x00) (CHR 0x00) s of
        None \<Rightarrow> None
      | Some (d, r) \<Rightarrow>
          (let d' = (if m = CData then take (length d - 2) d else d)
           in if xml_text d' then Some (d', r) else None))"

lemma chardata_length: "chardata m s = Some (d, r) \<Longrightarrow> length r \<le> length s"
  by (auto simp: chardata_def Let_def split: option.splits prod.splits if_splits dest: text_run_length)

lemma chardata_consumes:
  "chardata m (c # cs) = Some (d, r) \<Longrightarrow> c \<noteq> CHR ''<'' \<or> m \<noteq> CharData \<Longrightarrow> length r \<le> length cs"
  by (auto simp del: text_run.simps simp: chardata_def Let_def split: option.splits prod.splits if_splits
      dest: text_run_consumes)

section \<open>Tokens\<close>

definition xml_space :: "char \<Rightarrow> bool" where
  "xml_space c = (c = CHR 0x20 \<or> c = CHR 0x0D \<or> c = CHR 0x0A \<or> c = CHR 0x09)"

definition name_start :: "char \<Rightarrow> bool" where
  "name_start c =
     (let n = byte_val c in (65 \<le> n \<and> n \<le> 90) \<or> (97 \<le> n \<and> n \<le> 122) \<or> n = 95 \<or> n = 58)"

definition name_byte :: "char \<Rightarrow> bool" where
  "name_byte c =
     (let n = byte_val c in name_start c \<or> (48 \<le> n \<and> n \<le> 57) \<or> n = 45 \<or> n = 46 \<or> 128 \<le> n)"

text \<open>\<open>isName\<close>: ASCII names by their first byte, the others by \<open>uname\<close>.\<close>

definition is_name :: "(string \<Rightarrow> bool) \<Rightarrow> string \<Rightarrow> bool" where
  "is_name uname n =
     (if list_all (\<lambda>c. byte_val c < 128) n then n \<noteq> [] \<and> name_start (hd n) else uname n)"

definition read_name :: "(string \<Rightarrow> bool) \<Rightarrow> string \<Rightarrow> (string \<times> string) option" where
  "read_name uname s =
     (let n = takeWhile name_byte s
      in if n \<noteq> [] \<and> is_name uname n then Some (n, dropWhile name_byte s) else None)"

text \<open>\<open>nsname\<close>: prefix and local part; a second colon is refused.\<close>

definition read_nsname :: "(string \<Rightarrow> bool) \<Rightarrow> string \<Rightarrow> ((string \<times> string) \<times> string) option" where
  "read_nsname uname s =
     (case read_name uname s of
        None \<Rightarrow> None
      | Some (n, r) \<Rightarrow>
          (if 1 < length (filter (\<lambda>c. c = CHR '':'') n) then None
           else case cut_at CHR '':'' n of
             (p, l, ok) \<Rightarrow> if \<not> ok \<or> p = [] \<or> l = [] then Some (([], n), r) else Some ((p, l), r)))"

lemma read_nsname_length: "read_nsname uname s = Some (n, r) \<Longrightarrow> length r < length s"
proof -
  assume "read_nsname uname s = Some (n, r)"
  then have "takeWhile name_byte s \<noteq> []" "r = dropWhile name_byte s"
    by (auto simp: read_nsname_def read_name_def Let_def split: option.splits if_splits prod.splits)
  moreover have "length (takeWhile name_byte s) + length (dropWhile name_byte s) = length s"
    by (metis length_append takeWhile_dropWhile_id)
  ultimately show ?thesis by (cases "takeWhile name_byte s") auto
qed

definition skip_space :: "string \<Rightarrow> string" where
  "skip_space s = dropWhile xml_space s"

lemma skip_space_length: "length (skip_space s) \<le> length s"
  by (simp add: skip_space_def length_dropWhile_le)

definition attribute :: "(string \<Rightarrow> bool) \<Rightarrow> string \<Rightarrow> ((string \<times> string) \<times> string) option" where
  "attribute uname s =
     (case read_nsname uname s of
        None \<Rightarrow> None
      | Some ((p, l), r1) \<Rightarrow>
          (case skip_space r1 of
             [] \<Rightarrow> None
           | e # r2 \<Rightarrow>
               (if e \<noteq> CHR ''='' then None
                else case skip_space r2 of
                  [] \<Rightarrow> None
                | q # r3 \<Rightarrow>
                    (if q \<noteq> CHR 0x22 \<and> q \<noteq> CHR 0x27 then None
                     else map_option (\<lambda>(v, r). ((l, v), r)) (chardata (Quoted q) r3)))))"

lemma attribute_length: "attribute uname s = Some (a, r) \<Longrightarrow> length r < length s"
proof -
  assume a: "attribute uname s = Some (a, r)"
  then obtain n r1 e r2 q r3 d where "read_nsname uname s = Some (n, r1)" "skip_space r1 = e # r2"
      "skip_space r2 = q # r3" "chardata (Quoted q) r3 = Some (d, r)"
    by (auto simp: attribute_def split: option.splits list.splits if_splits prod.splits)
  then show ?thesis
    using read_nsname_length [of uname s n r1] skip_space_length [of r1] skip_space_length [of r2]
      chardata_length [of "Quoted q" r3 d r]
    by simp
qed

text \<open>The attributes of a start tag, whether it is closed at once, and what follows it.\<close>

function attributes :: "(string \<Rightarrow> bool) \<Rightarrow> string \<Rightarrow> ((string \<times> string) list \<times> bool \<times> string) option" where
  "attributes uname s =
     (case skip_space s of
        [] \<Rightarrow> None
      | c # r \<Rightarrow>
          (if c = CHR ''/'' then (case r of [] \<Rightarrow> None | x # r' \<Rightarrow> if x = CHR ''>'' then Some ([], True, r') else None)
           else if c = CHR ''>'' then Some ([], False, r)
           else case attribute uname (c # r) of
             None \<Rightarrow> None
           | Some (a, r') \<Rightarrow>
               (case attributes uname r' of
                  None \<Rightarrow> None
                | Some (as, e, t) \<Rightarrow> Some (a # as, e, t))))"
  by pat_completeness auto
termination
proof (relation "measure (\<lambda>(u, s). length s)", goal_cases)
  case (2 uname s c r x2 a r')
  then show ?case
    using skip_space_length [of s] attribute_length [of uname "c # r" a r'] by auto
qed simp

declare attributes.simps [simp del]

lemma attributes_length: "attributes uname s = Some (as, e, r) \<Longrightarrow> length r < length s"
proof (induction uname s arbitrary: as rule: attributes.induct)
  case (1 uname s)
  from "1.prems" obtain c t where sk: "skip_space s = c # t"
    by (subst (asm) attributes.simps) (simp split: list.splits)
  have len: "Suc (length t) \<le> length s" using skip_space_length [of s] by (simp add: sk)
  show ?case
  proof (cases "c = CHR ''/'' \<or> c = CHR ''>''")
    case True
    then have "length r \<le> length t"
      using "1.prems" by (subst (asm) attributes.simps) (auto simp: sk split: list.splits if_splits)
    then show ?thesis using len by simp
  next
    case False
    then obtain a r' as' where at: "attribute uname (c # t) = Some (a, r')"
        and rec: "attributes uname r' = Some (as', e, r)"
      using "1.prems" by (subst (asm) attributes.simps) (simp add: sk split: option.splits prod.splits)
    have "length r < length r'" using "1.IH" [OF sk _ _ at _ rec] False by simp
    then show ?thesis using attribute_length [OF at] len by simp
  qed
qed

text \<open>The first occurrence of a string: what is before it and after it.\<close>

fun cut_sub :: "string \<Rightarrow> string \<Rightarrow> (string \<times> string) option" where
  "cut_sub p [] = (if p = [] then Some ([], []) else None)"
| "cut_sub p (c # cs) =
     (if has_prefix (c # cs) p then Some ([], drop (length p) (c # cs))
      else map_option (\<lambda>(a, b). (c # a, b)) (cut_sub p cs))"

lemma cut_sub_length: "cut_sub p s = Some (a, b) \<Longrightarrow> p \<noteq> [] \<Longrightarrow> length b < length s"
  by (induction p s arbitrary: a rule: cut_sub.induct) (fastforce split: if_splits)+

text \<open>\<open>procInst\<close>: the value of a pseudo-attribute of the XML declaration.\<close>

function proc_inst :: "string \<Rightarrow> string \<Rightarrow> string" where
  "proc_inst param s =
     (case cut_sub (param @ ''='') s of
        None \<Rightarrow> []
      | Some (a, r) \<Rightarrow>
          (case r of
             [] \<Rightarrow> []
           | q # r' \<Rightarrow>
               (if q = CHR 0x22 \<or> q = CHR 0x27
                then (case cut_at q r' of (v, t, ok) \<Rightarrow> if ok then v else [])
                else proc_inst param r')))"
  by pat_completeness auto
termination
proof (relation "measure (\<lambda>(p, s). length s)", goal_cases)
  case (2 param s x2 a r q r')
  then show ?case using cut_sub_length [of "param @ ''=''" s a r] by auto
qed simp

declare proc_inst.simps [simp del]

definition ascii_lower :: "string \<Rightarrow> string" where
  "ascii_lower s = map (\<lambda>c. let n = byte_val c in if 65 \<le> n \<and> n \<le> 90 then char_of (n + 32) else c) s"

definition declaration_ok :: "string \<Rightarrow> bool" where
  "declaration_ok content =
     ((let v = proc_inst ''version'' content in v = [] \<or> v = ''1.0'') \<and>
      (let e = proc_inst ''encoding'' content in e = [] \<or> ascii_lower e = ''utf-8''))"

definition instruction :: "(string \<Rightarrow> bool) \<Rightarrow> string \<Rightarrow> string option" where
  "instruction uname s =
     (case read_name uname s of
        None \<Rightarrow> None
      | Some (target, r) \<Rightarrow>
          (case cut_sub ''?>'' (skip_space r) of
             None \<Rightarrow> None
           | Some (content, t) \<Rightarrow>
               if target = ''xml'' \<and> \<not> declaration_ok content then None else Some t))"

text \<open>The inside of \<open><!-- .. -->\<close>: two hyphens end it and must be followed by \<open>>\<close>.\<close>

definition comment :: "string \<Rightarrow> string option" where
  "comment s =
     (case cut_sub ''--'' s of
        None \<Rightarrow> None
      | Some (a, r) \<Rightarrow> (case r of [] \<Rightarrow> None | c # t \<Rightarrow> if c = CHR ''>'' then Some t else None))"

text \<open>A directive ends at the first \<open>>\<close> outside quotes, nested brackets and comments.\<close>

function directive :: "char option \<Rightarrow> nat \<Rightarrow> string \<Rightarrow> string option" where
  "directive q depth [] = None"
| "directive q depth (c # cs) =
     (if q = None \<and> c = CHR ''>'' \<and> depth = 0 then Some cs
      else case q of
        Some x \<Rightarrow> directive (if c = x then None else q) depth cs
      | None \<Rightarrow>
          (if c = CHR 0x22 \<or> c = CHR 0x27 then directive (Some c) depth cs
           else if c = CHR ''>'' then directive None (depth - 1) cs
           else if c = CHR ''<'' then
             (if has_prefix cs ''!--''
              then (case cut_sub ''-->'' (drop 3 cs) of
                      None \<Rightarrow> None
                    | Some (a, r) \<Rightarrow> directive None depth r)
              else directive None (Suc depth) cs)
           else directive None depth cs))"
  by pat_completeness auto
termination
  by (relation "measure (\<lambda>(q, d, s). length s)") (auto dest!: cut_sub_length)

datatype token =
    TStart string string "(string \<times> string) list" bool
  | TEnd string string
  | TText string
  | TSkip

definition end_tag :: "(string \<Rightarrow> bool) \<Rightarrow> string \<Rightarrow> (token \<times> string) option" where
  "end_tag uname s =
     (case read_nsname uname s of
        None \<Rightarrow> None
      | Some ((p, l), r) \<Rightarrow>
          (case skip_space r of
             [] \<Rightarrow> None
           | c # t \<Rightarrow> if c = CHR ''>'' then Some (TEnd p l, t) else None))"

definition start_tag :: "(string \<Rightarrow> bool) \<Rightarrow> string \<Rightarrow> (token \<times> string) option" where
  "start_tag uname s =
     (case read_nsname uname s of
        None \<Rightarrow> None
      | Some ((p, l), r) \<Rightarrow> map_option (\<lambda>(as, e, t). (TStart p l as e, t)) (attributes uname r))"

definition declared :: "string \<Rightarrow> (token \<times> string) option" where
  "declared s =
     (if has_prefix s ''-''
      then (if has_prefix s ''--'' then map_option (Pair TSkip) (comment (drop 2 s)) else None)
      else if has_prefix s ''[''
      then (if has_prefix s ''[CDATA['' then map_option (\<lambda>(d, r). (TText d, r)) (chardata CData (drop 7 s))
            else None)
      else (case s of [] \<Rightarrow> None | c # r \<Rightarrow> map_option (Pair TSkip) (directive None 0 r)))"

definition next_token :: "(string \<Rightarrow> bool) \<Rightarrow> string \<Rightarrow> (token \<times> string) option" where
  "next_token uname s =
     (case s of
        [] \<Rightarrow> None
      | c # r \<Rightarrow>
          (if c \<noteq> CHR ''<'' then map_option (\<lambda>(d, t). (TText d, t)) (chardata CharData s)
           else case r of
             [] \<Rightarrow> None
           | x # t \<Rightarrow>
               (if x = CHR ''/'' then end_tag uname t
                else if x = CHR ''?'' then map_option (Pair TSkip) (instruction uname t)
                else if x = CHR ''!'' then declared t
                else start_tag uname r)))"

lemma directive_length: "directive q d s = Some r \<Longrightarrow> length r < length s"
proof (induction q d s rule: directive.induct)
  case (2 q depth c cs)
  then show ?case
    using cut_sub_length [of "''-->''" "drop 3 cs"]
    by (auto split: if_splits option.splits prod.splits) fastforce+
qed simp

lemma instruction_length: "instruction uname s = Some r \<Longrightarrow> length r \<le> length s"
proof -
  assume i: "instruction uname s = Some r"
  then obtain n r0 a where n: "read_name uname s = Some (n, r0)" and c: "cut_sub ''?>'' (skip_space r0) = Some (a, r)"
    by (auto simp: instruction_def split: option.splits prod.splits if_splits)
  have "length r0 \<le> length s"
    using n by (auto simp: read_name_def Let_def length_dropWhile_le split: if_splits)
  then show ?thesis
    using cut_sub_length [OF c] skip_space_length [of r0] by simp
qed

lemma comment_length: "comment s = Some r \<Longrightarrow> length r \<le> length s"
  by (auto simp: comment_def split: option.splits prod.splits list.splits if_splits dest!: cut_sub_length)

lemma declared_length: "declared s = Some (t, r) \<Longrightarrow> length r \<le> length s"
  using comment_length [of "drop 2 s" r] chardata_length [of CData "drop 7 s" _ r]
  by (auto simp: declared_def split: if_splits list.splits dest!: directive_length)

lemma end_tag_length: "end_tag uname s = Some (t, r) \<Longrightarrow> length r \<le> length s"
proof -
  assume "end_tag uname s = Some (t, r)"
  then obtain n r1 c where "read_nsname uname s = Some (n, r1)" "skip_space r1 = c # r"
    by (auto simp: end_tag_def split: option.splits prod.splits list.splits if_splits)
  then show ?thesis using read_nsname_length [of uname s n r1] skip_space_length [of r1] by simp
qed

lemma start_tag_length: "start_tag uname s = Some (t, r) \<Longrightarrow> length r \<le> length s"
  by (auto simp: start_tag_def split: option.splits prod.splits dest!: read_nsname_length attributes_length)

lemma next_token_length: "next_token uname s = Some (t, r) \<Longrightarrow> length r < length s"
  by (auto simp: next_token_def split: list.splits if_splits
      dest!: instruction_length declared_length end_tag_length start_tag_length chardata_consumes)

section \<open>Documents\<close>

datatype xml = Elem string "(string \<times> string) list" "xml list" | Chars string

text \<open>
  An open element is its prefix, name, attributes and the children read so far, last first; \<open>build\<close>
  is the decoder's element stack.
\<close>

type_synonym frame = "string \<times> string \<times> (string \<times> string) list \<times> xml list"

definition add_kid :: "xml \<Rightarrow> frame \<Rightarrow> frame" where
  "add_kid x f = (case f of (p, l, as, ks) \<Rightarrow> (p, l, as, x # ks))"

definition close_frame :: "frame \<Rightarrow> xml" where
  "close_frame f = (case f of (p, l, as, ks) \<Rightarrow> Elem l as (rev ks))"

definition opens :: "frame \<Rightarrow> string \<Rightarrow> string \<Rightarrow> bool" where
  "opens f p l = (case f of (p', l', as, ks) \<Rightarrow> p' = p \<and> l' = l)"

function build :: "(string \<Rightarrow> bool) \<Rightarrow> frame \<Rightarrow> frame list \<Rightarrow> string \<Rightarrow> xml option" where
  "build uname f stk s =
     (case next_token uname s of
        None \<Rightarrow> None
      | Some (t, r) \<Rightarrow>
          (case t of
             TText d \<Rightarrow> build uname (add_kid (Chars d) f) stk r
           | TSkip \<Rightarrow> build uname f stk r
           | TStart p l as e \<Rightarrow>
               (if e then build uname (add_kid (Elem l as []) f) stk r
                else build uname (p, l, as, []) (f # stk) r)
           | TEnd p l \<Rightarrow>
               (if \<not> opens f p l then None
                else case stk of
                  [] \<Rightarrow> Some (close_frame f)
                | g # stk' \<Rightarrow> build uname (add_kid (close_frame f) g) stk' r)))"
  by pat_completeness auto
termination
  by (relation "measure (\<lambda>(u, f, k, s). length s)") (auto dest: next_token_length)

function root_element :: "(string \<Rightarrow> bool) \<Rightarrow> string \<Rightarrow> xml option" where
  "root_element uname s =
     (case next_token uname s of
        None \<Rightarrow> None
      | Some (t, r) \<Rightarrow>
          (case t of
             TText d \<Rightarrow> root_element uname r
           | TSkip \<Rightarrow> root_element uname r
           | TStart p l as e \<Rightarrow>
               (if e then Some (Elem l as []) else build uname (p, l, as, []) [] r)
           | TEnd p l \<Rightarrow> None))"
  by pat_completeness auto
termination
  by (relation "measure (\<lambda>(u, s). length s)") (auto dest: next_token_length)

declare build.simps [simp del] root_element.simps [simp del]

section \<open>Struct fields\<close>

text \<open>
  How \<open>Unmarshal\<close> fills a struct: children by local name in document order, a string field the
  character data directly inside the last of them, an attribute field the last attribute of the name.
\<close>

fun kids_named :: "string \<Rightarrow> xml list \<Rightarrow> xml list" where
  "kids_named n [] = []"
| "kids_named n (Chars d # ks) = kids_named n ks"
| "kids_named n (Elem l as xs # ks) = (if l = n then Elem l as xs # kids_named n ks else kids_named n ks)"

fun xml_kids :: "xml \<Rightarrow> xml list" where
  "xml_kids (Elem l as ks) = ks"
| "xml_kids (Chars d) = []"

fun xml_attrs :: "xml \<Rightarrow> (string \<times> string) list" where
  "xml_attrs (Elem l as ks) = as"
| "xml_attrs (Chars d) = []"

fun xml_chars :: "xml list \<Rightarrow> string" where
  "xml_chars [] = []"
| "xml_chars (Chars d # ks) = d @ xml_chars ks"
| "xml_chars (Elem l as xs # ks) = xml_chars ks"

definition last_or :: "'a \<Rightarrow> 'a list \<Rightarrow> 'a" where
  "last_or d xs = (if xs = [] then d else last xs)"

definition text_field :: "string \<Rightarrow> xml list \<Rightarrow> string" where
  "text_field n ks = last_or [] (map (\<lambda>e. xml_chars (xml_kids e)) (kids_named n ks))"

definition attr_values :: "string \<Rightarrow> (string \<times> string) list \<Rightarrow> string list" where
  "attr_values n as = map snd (filter (\<lambda>(l, v). l = n) as)"

definition attr_field :: "string \<Rightarrow> (string \<times> string) list \<Rightarrow> string" where
  "attr_field n as = last_or [] (attr_values n as)"

text \<open>A path \<open>a>b\<close>: every \<open>b\<close> inside every \<open>a\<close>.\<close>

definition path_kids :: "string \<Rightarrow> string \<Rightarrow> xml list \<Rightarrow> xml list" where
  "path_kids a b ks = concat (map (\<lambda>e. kids_named b (xml_kids e)) (kids_named a ks))"

text \<open>Text read into an \<open>int64\<close>: empty is 0, anything else must parse.\<close>

definition int_field :: "string \<Rightarrow> int option" where
  "int_field s = (if s = [] then Some 0 else parse_int64 (trim_space s))"

section \<open>Reading back what was escaped\<close>

definition plain :: "char \<Rightarrow> bool" where
  "plain c = (c \<notin> {CHR ''<'', CHR ''&'', CHR ''>'', CHR 0x22, CHR 0x27, CHR 0x0D, CHR 0x0A})"

definition prefixing :: "string \<Rightarrow> (string \<times> string) option \<Rightarrow> (string \<times> string) option" where
  "prefixing t = map_option (\<lambda>(d, r). (t @ d, r))"

lemma prefixing_simps [simp]:
  "prefixing t None = None" "prefixing t (Some (d, r)) = Some (t @ d, r)"
  "prefixing [] x = x" "prefixing s (prefixing t x) = prefixing (s @ t) x"
  by (cases x; auto simp: prefixing_def)+

definition reads_text :: "text_mode \<Rightarrow> bool" where
  "reads_text m = (m = CharData \<or> m = Quoted (CHR 0x22))"

lemma text_run_plain:
  "plain c \<Longrightarrow> reads_text m \<Longrightarrow> text_run m b0 b1 (c # cs) = prefixing [c] (text_run m b1 c cs)"
  by (auto simp: plain_def reads_text_def prefixing_def)

lemma text_run_plains:
  "list_all plain bs \<Longrightarrow> reads_text m \<Longrightarrow>
     \<exists>x0 x1. text_run m b0 b1 (bs @ s) = prefixing bs (text_run m x0 x1 s)"
proof (induction bs arbitrary: b0 b1)
  case Nil
  then show ?case by simp metis
next
  case (Cons c bs)
  then obtain x0 x1 where "text_run m b1 c (bs @ s) = prefixing bs (text_run m x0 x1 s)"
    using Cons.prems(1,2) Cons.IH by (meson list.pred_inject(2))
  then have "text_run m b0 b1 ((c # bs) @ s) = prefixing (c # bs) (text_run m x0 x1 s)"
    using Cons.prems by (simp add: text_run_plain del: text_run.simps)
  then show ?case by blast
qed

lemma text_run_entity:
  "entity (e @ s) = Some (t, s) \<Longrightarrow> reads_text m \<Longrightarrow>
     text_run m b0 b1 (CHR ''&'' # e @ s) = prefixing t (text_run m (CHR 0x00) (CHR 0x00) s)"
  by (auto simp: reads_text_def prefixing_def)

lemma char_of_val: "of_char c = n \<Longrightarrow> char_of n = c" for n :: nat
  by auto

lemma special_chars:
  "char_of (34::nat) = CHR 0x22" "char_of (39::nat) = CHR 0x27" "char_of (38::nat) = CHR ''&''"
  "char_of (60::nat) = CHR ''<''" "char_of (62::nat) = CHR ''>''" "char_of (9::nat) = CHR 0x09"
  "char_of (10::nat) = CHR 0x0A" "char_of (13::nat) = CHR 0x0D"
  by (rule char_of_val, simp)+

lemma entities:
  "entity (''#34;'' @ s) = Some ([CHR 0x22], s)" "entity (''#39;'' @ s) = Some ([CHR 0x27], s)"
  "entity (''amp;'' @ s) = Some (''&'', s)" "entity (''lt;'' @ s) = Some (''<'', s)"
  "entity (''gt;'' @ s) = Some (''>'', s)" "entity (''#x9;'' @ s) = Some ([CHR 0x09], s)"
  "entity (''#xA;'' @ s) = Some ([CHR 0x0A], s)" "entity (''#xD;'' @ s) = Some ([CHR 0x0D], s)"
  by (simp_all add: entity_def entity_text_def char_reference_def hex_val_def byte_val_def
      max_rune_def utf8_encode_def special_chars)

lemma byte_val_char_of: "byte_val a = n \<Longrightarrow> a = char_of n"
  by (auto simp: byte_val_def)

text \<open>One escaped rune is read back as its bytes.\<close>

lemma text_run_esc_rune:
  assumes p: "(Some n, bs) \<in> set (runes t)" and ok: "xml_rune n" and m: "reads_text m"
  shows "\<exists>x0 x1. text_run m b0 b1 (esc_rune (Some n, bs) @ s) = prefixing bs (text_run m x0 x1 s)"
proof -
  have ent: "\<exists>x0 x1. text_run m b0 b1 (CHR ''&'' # e @ s) = prefixing u (text_run m x0 x1 s)"
    if "entity (e @ s) = Some (u, s)" for e u
    using text_run_entity [OF that m] by blast
  note meta = ent [OF entities(1)] ent [OF entities(2)] ent [OF entities(3)] ent [OF entities(4)]
    ent [OF entities(5)] ent [OF entities(6)] ent [OF entities(7)] ent [OF entities(8)]
  show ?thesis
  proof (cases "n \<in> {34, 39, 38, 60, 62, 9, 10, 13}")
    case True
    then have bs: "bs = [char_of n]"
      using runes_bytes [OF p] by (auto dest: byte_val_char_of)
    show ?thesis
      using True meta
      by (elim insertE emptyE) (simp_all only: bs esc_rune_def special_chars fst_conv option.case append_Cons
          append_Nil if_True if_False, simp_all)
  next
    case False
    have "list_all plain bs"
      using runes_bytes [OF p] False by (auto simp: plain_def byte_val_def list_all_iff)
    moreover have "esc_rune (Some n, bs) = bs" using False ok by (auto simp: esc_rune_def)
    ultimately show ?thesis using text_run_plains [of bs m b0 b1 s] m by simp
  qed
qed

lemma text_run_esc_runes:
  "set ps \<subseteq> set (runes t) \<Longrightarrow>
     list_all (\<lambda>(r, bs). case r of None \<Rightarrow> False | Some n \<Rightarrow> xml_rune n) ps \<Longrightarrow> reads_text m \<Longrightarrow>
     \<exists>x0 x1. text_run m b0 b1 (concat (map esc_rune ps) @ s) =
       prefixing (concat (map snd ps)) (text_run m x0 x1 s)"
proof (induction ps arbitrary: b0 b1)
  case Nil
  then show ?case by simp metis
next
  case (Cons p ps)
  then obtain n bs where p: "p = (Some n, bs)" and ok: "xml_rune n" by (cases p) (auto split: option.splits)
  obtain x0 x1 where 1: "text_run m b0 b1 (esc_rune p @ (concat (map esc_rune ps) @ s)) =
      prefixing bs (text_run m x0 x1 (concat (map esc_rune ps) @ s))"
    using text_run_esc_rune [of n bs t m b0 b1 "concat (map esc_rune ps) @ s"] Cons.prems ok by (auto simp: p)
  obtain y0 y1 where 2: "text_run m x0 x1 (concat (map esc_rune ps) @ s) =
      prefixing (concat (map snd ps)) (text_run m y0 y1 s)"
    using Cons.IH [of x0 x1] Cons.prems by auto
  have "text_run m b0 b1 (concat (map esc_rune (p # ps)) @ s) =
      prefixing (concat (map snd (p # ps))) (text_run m y0 y1 s)"
    using 1 2 by (simp add: p)
  then show ?case by blast
qed

lemma text_run_esc:
  assumes "xml_text t" and "reads_text m"
  shows "\<exists>x0 x1. text_run m b0 b1 (esc t @ s) = prefixing t (text_run m x0 x1 s)"
  using text_run_esc_runes [of "runes t" t m b0 b1 s] assms
  by (simp add: xml_text_def esc_def runes_concat)

theorem chardata_esc:
  assumes "xml_text t"
  shows "chardata CharData (esc t @ CHR ''<'' # s) = Some (t, CHR ''<'' # s)"
    and "chardata (Quoted (CHR 0x22)) (esc t @ CHR 0x22 # s) = Some (t, s)"
proof -
  obtain x0 x1 where "text_run CharData (CHR 0x00) (CHR 0x00) (esc t @ CHR ''<'' # s) =
      prefixing t (text_run CharData x0 x1 (CHR ''<'' # s))"
    using text_run_esc [OF assms, of CharData] unfolding reads_text_def by blast
  then show "chardata CharData (esc t @ CHR ''<'' # s) = Some (t, CHR ''<'' # s)"
    using assms by (simp add: chardata_def)
  obtain y0 y1 where "text_run (Quoted (CHR 0x22)) (CHR 0x00) (CHR 0x00) (esc t @ CHR 0x22 # s) =
      prefixing t (text_run (Quoted (CHR 0x22)) y0 y1 (CHR 0x22 # s))"
    using text_run_esc [OF assms, of "Quoted (CHR 0x22)"] unfolding reads_text_def by blast
  then show "chardata (Quoted (CHR 0x22)) (esc t @ CHR 0x22 # s) = Some (t, s)"
    using assms by (simp add: chardata_def)
qed

end
