(* ===== verification/Bearer.thy ===== *)
theory Bearer
  imports Xml
begin

text \<open>
  The mediapackage document: the manifest model and \<open>ParseManifest\<close> of
  \<open>internal/mediapackage/mediapackage.go\<close>, the bearer emitter of \<open>internal/ingest/xml.go\<close> and the
  episode derivation of \<open>internal/ingest/dc.go\<close>. An instant is the number of nanoseconds since the
  Unix epoch. Reading a date is the parameter \<open>rfc3339\<close> (\<open>w3c_minute\<close> for the layout without
  seconds); writing one is written out.
\<close>

section \<open>The manifest\<close>

record manifest_el =
  me_id :: string
  me_kind :: string
  me_flavor :: string
  me_mimetype :: string
  me_url :: string
  me_md5 :: string
  me_tags :: "string list"

record manifest =
  mf_id :: string
  mf_title :: string
  mf_start :: "int option"
  mf_duration :: int
  mf_elements :: "manifest_el list"

record text_env =
  uname :: "string \<Rightarrow> bool"
  rfc3339 :: "string \<Rightarrow> int option"
  w3c_minute :: "string \<Rightarrow> int option"

datatype manifest_error = BadXml | NotMediapackage string | BadNumber string | NoMediapackageId | BadStart string

section \<open>Reading\<close>

text \<open>
  The checksum struct is filled by every \<open>checksum\<close> child in turn: a type attribute replaces the
  type read before, the character data always replaces the value.
\<close>

definition xml_checksum :: "xml list \<Rightarrow> string \<times> string" where
  "xml_checksum ks =
     fold (\<lambda>e (ty, v). (last_or ty (attr_values ''type'' (xml_attrs e)), xml_chars (xml_kids e)))
       (kids_named ''checksum'' ks) ([], [])"

fun ints_ok :: "string list \<Rightarrow> bool" where
  "ints_ok [] = True"
| "ints_ok (t # ts) = (int_field t \<noteq> None \<and> ints_ok ts)"

definition parse_element :: "string \<Rightarrow> xml \<Rightarrow> (manifest_error, manifest_el) result" where
  "parse_element kind e =
     (let ks = xml_kids e; as = xml_attrs e; (ty, v) = xml_checksum ks
      in if \<not> ints_ok (map (\<lambda>x. xml_chars (xml_kids x)) (kids_named ''size'' ks)) then Inl (BadNumber ''size'')
         else Inr \<lparr>me_id = attr_field ''id'' as, me_kind = kind, me_flavor = attr_field ''type'' as,
                me_mimetype = text_field ''mimetype'' ks, me_url = text_field ''url'' ks,
                me_md5 = (if ty = ''md5'' then v else []),
                me_tags = map (\<lambda>x. xml_chars (xml_kids x)) (path_kids ''tags'' ''tag'' ks)\<rparr>)"

definition parse_elements :: "xml list \<Rightarrow> (manifest_error, manifest_el list) result" where
  "parse_elements ks =
     bind_result (traverse (parse_element ''track'') (path_kids ''media'' ''track'' ks)) (\<lambda>ts.
     bind_result (traverse (parse_element ''catalog'') (path_kids ''metadata'' ''catalog'' ks)) (\<lambda>cs.
     bind_result (traverse (parse_element ''attachment'') (path_kids ''attachments'' ''attachment'' ks)) (\<lambda>as.
       Inr (ts @ cs @ as))))"

definition parse_duration :: "(string \<times> string) list \<Rightarrow> (manifest_error, int) result" where
  "parse_duration as =
     (let vs = attr_values ''duration'' as
      in if ints_ok vs then Inr (case int_field (last_or [] vs) of None \<Rightarrow> 0 | Some n \<Rightarrow> n)
         else Inl (BadNumber ''duration''))"

definition manifest_of_root :: "text_env \<Rightarrow> xml \<Rightarrow> (manifest_error, manifest) result" where
  "manifest_of_root T x =
     (case x of
        Chars d \<Rightarrow> Inl BadXml
      | Elem l as ks \<Rightarrow>
          (if l \<noteq> ''mediapackage'' then Inl (NotMediapackage l)
           else bind_result (parse_duration as) (\<lambda>dur.
                bind_result (parse_elements ks) (\<lambda>els.
                  let i = attr_field ''id'' as; st = attr_field ''start'' as;
                      m = \<lparr>mf_id = i, mf_title = text_field ''title'' ks, mf_start = None,
                           mf_duration = dur, mf_elements = els\<rparr>
                  in if i = [] then Inl NoMediapackageId
                     else if st = [] then Inr m
                     else case rfc3339 T st of
                       None \<Rightarrow> Inl (BadStart st)
                     | Some t \<Rightarrow> Inr (m\<lparr>mf_start := Some t\<rparr>)))))"

definition parse_manifest :: "text_env \<Rightarrow> string \<Rightarrow> (manifest_error, manifest) result" where
  "parse_manifest T raw =
     (case root_element (uname T) raw of None \<Rightarrow> Inl BadXml | Some x \<Rightarrow> manifest_of_root T x)"

section \<open>Writing\<close>

text \<open>\<open>Format("2006-01-02T15:04:05Z")\<close> of an instant in UTC: the civil date of its day, its time of day.\<close>

definition nanos_per_second :: int where
  "nanos_per_second = 1000000000"

definition whole_second :: "int \<Rightarrow> int" where
  "whole_second t = t - t mod nanos_per_second"

definition civil_date :: "int \<Rightarrow> int \<times> int \<times> int" where
  "civil_date days =
     (let z = days + 719468; era = z div 146097; doe = z mod 146097;
          yoe = (doe - doe div 1460 + doe div 36524 - doe div 146096) div 365;
          doy = doe - (365 * yoe + yoe div 4 - yoe div 100);
          mp = (5 * doy + 2) div 153;
          m = (if mp < 10 then mp + 3 else mp - 9)
      in (yoe + era * 400 + (if m \<le> 2 then 1 else 0), m, doy - (153 * mp + 2) div 5 + 1))"

definition padded :: "nat \<Rightarrow> int \<Rightarrow> string" where
  "padded w n =
     (let ds = dec (nat \<bar>n\<bar>)
      in (if n < 0 then ''-'' else []) @ replicate (w - length ds) CHR ''0'' @ ds)"

definition format_start :: "int \<Rightarrow> string" where
  "format_start t =
     (let secs = t div nanos_per_second; sod = secs mod 86400
      in case civil_date (secs div 86400) of (y, m, d) \<Rightarrow>
        padded 4 y @ ''-'' @ padded 2 m @ ''-'' @ padded 2 d @ ''T'' @
        padded 2 (sod div 3600) @ '':'' @ padded 2 (sod div 60 mod 60) @ '':'' @ padded 2 (sod mod 60) @ ''Z'')"

definition quoted :: "string \<Rightarrow> string" where
  "quoted s = CHR 0x22 # s @ [CHR 0x22]"

definition mp_namespace :: string where
  "mp_namespace = ''http://mediapackage.opencastproject.org''"

definition xml_header :: string where
  "xml_header = ''<?xml version='' @ quoted ''1.0'' @ '' encoding='' @ quoted ''UTF-8'' @
     '' standalone='' @ quoted ''yes'' @ ''?>''"

definition emit_tags :: "string list \<Rightarrow> string" where
  "emit_tags tags =
     (if tags = [] then ''<tags/>''
      else ''<tags>'' @ concat (map (\<lambda>t. ''<tag>'' @ esc t @ ''</tag>'') tags) @ ''</tags>'')"

definition emit_element :: "string \<Rightarrow> bool \<Rightarrow> manifest_el \<Rightarrow> string" where
  "emit_element kind live el =
     ''<'' @ kind @ '' id='' @ quoted (esc (me_id el)) @ '' type='' @ quoted (esc (me_flavor el)) @ ''>'' @
     (if me_mimetype el \<noteq> [] then ''<mimetype>'' @ esc (me_mimetype el) @ ''</mimetype>'' else []) @
     emit_tags (me_tags el) @ ''<url>'' @ esc (me_url el) @ ''</url>'' @
     (if live then ''<live>false</live>'' else []) @ ''</'' @ kind @ ''>''"

definition emit_group :: "string \<Rightarrow> string \<Rightarrow> manifest_el list \<Rightarrow> bool \<Rightarrow> string" where
  "emit_group wrapper kind els live =
     (let members = filter (\<lambda>e. me_kind e = kind) els
      in if members = [] then ''<'' @ wrapper @ ''/>''
         else ''<'' @ wrapper @ ''>'' @ concat (map (emit_element kind live) members) @ ''</'' @ wrapper @ ''>'')"

definition emit_bearer :: "manifest \<Rightarrow> string" where
  "emit_bearer m =
     xml_header @ ''<mediapackage'' @ '' xmlns='' @ quoted mp_namespace @
     (if mf_id m \<noteq> [] then '' id='' @ quoted (esc (mf_id m)) else []) @
     (case mf_start m of None \<Rightarrow> [] | Some t \<Rightarrow> '' start='' @ quoted (format_start t)) @ ''>'' @
     (if mf_title m \<noteq> [] then ''<title>'' @ esc (mf_title m) @ ''</title>'' else []) @
     emit_group ''media'' ''track'' (mf_elements m) True @
     emit_group ''metadata'' ''catalog'' (mf_elements m) False @
     emit_group ''attachments'' ''attachment'' (mf_elements m) False @
     ''<publications/>'' @ ''</mediapackage>''"

section \<open>The episode catalog\<close>

text \<open>The match of \<open>start=([^;\s]+)\s*;\<close>: its group.\<close>

definition re_space :: "char \<Rightarrow> bool" where
  "re_space c = (c \<in> {CHR 0x09, CHR 0x0A, CHR 0x0C, CHR 0x0D, CHR 0x20})"

definition temporal_token :: "string \<Rightarrow> string option" where
  "temporal_token s =
     (let v = takeWhile (\<lambda>c. c \<noteq> CHR '';'' \<and> \<not> re_space c) s;
          r = dropWhile re_space (dropWhile (\<lambda>c. c \<noteq> CHR '';'' \<and> \<not> re_space c) s)
      in if v \<noteq> [] \<and> has_prefix r '';'' then Some v else None)"

fun temporal_start :: "string \<Rightarrow> string option" where
  "temporal_start [] = None"
| "temporal_start (c # cs) =
     (if has_prefix (c # cs) ''start='' \<and> temporal_token (drop 6 (c # cs)) \<noteq> None
      then temporal_token (drop 6 (c # cs)) else temporal_start cs)"

definition dc_created :: "text_env \<Rightarrow> string \<Rightarrow> int option" where
  "dc_created T c =
     (if c = [] then None else case rfc3339 T c of Some t \<Rightarrow> Some t | None \<Rightarrow> w3c_minute T c)"

definition dc_derive :: "text_env \<Rightarrow> string \<Rightarrow> (string \<times> int option) option" where
  "dc_derive T raw =
     (case root_element (uname T) raw of
        None \<Rightarrow> None
      | Some x \<Rightarrow>
          (let ks = xml_kids x; title = trim_space (text_field ''title'' ks);
               created = dc_created T (trim_space (text_field ''created'' ks))
           in Some (title,
                case temporal_start (text_field ''temporal'' ks) of
                  None \<Rightarrow> created
                | Some s \<Rightarrow> (case rfc3339 T s of Some t \<Rightarrow> Some t | None \<Rightarrow> created))))"

end
