(* ===== verification/Ingest.thy ===== *)
theory Ingest
  imports Bearer Worker Authn
begin

text \<open>
  Deposits: \<open>Materialise\<close> and \<open>Load\<close> of \<open>internal/mediapackage/mediapackage.go\<close> and the endpoints of
  \<open>internal/ingest\<close> (\<open>handler.go\<close>, \<open>ingest.go\<close>, \<open>upload.go\<close>). A deposit's state is the object store
  and the database; each element is its own transaction, so a failure leaves what was written before
  it. Fresh uuids, the clock, the decoded form and the parts of a multipart body are arguments.
  Hashes are parameters, as is \<open>uuid_in\<close>, Postgres' reading of a uuid: its canonical text, or refusal.
\<close>

section \<open>The write path\<close>

record deposit_env =
  de_text :: text_env
  de_sha256 :: "string \<Rightarrow> string"
  de_md5 :: "string \<Rightarrow> string"
  uuid_in :: "string \<Rightarrow> string option"

datatype deposit_error =
    NoId
  | BadUuid string
  | Unresolved string
  | ChecksumMismatch string
  | DepositDb cat_error
  | Unparseable manifest_error
  | Unreadable

type_synonym deposited = "objects \<times> catalog"

text \<open>\<open>get_bytes\<close> (\<open>resolve\<close>) maps an element's url to its bytes; it may read the store.\<close>

type_synonym resolver = "objects \<Rightarrow> string \<Rightarrow> string option"

definition new_element :: "string \<Rightarrow> manifest_el \<Rightarrow> string \<Rightarrow> string \<Rightarrow> int \<Rightarrow> element_row" where
  "new_element mp el sha bytes now =
     \<lparr>el_mp = mp, el_kind = me_kind el, el_flavor = me_flavor el, el_mimetype = null_if_empty (me_mimetype el),
      el_sha256 = sha, el_size = int (length bytes), el_source = null_if_empty (me_url el), el_created_at = now\<rparr>"

definition materialise_element ::
  "deposit_env \<Rightarrow> resolver \<Rightarrow> string \<Rightarrow> manifest_el \<Rightarrow> deposited \<Rightarrow> deposit_error option \<times> deposited" where
  "materialise_element E get_bytes mp el s =
     (case s of (st, c) \<Rightarrow>
       (case get_bytes st (me_url el) of
          None \<Rightarrow> (Some (Unresolved (me_url el)), s)
        | Some bytes \<Rightarrow>
            (if me_md5 el \<noteq> [] \<and> de_md5 E bytes \<noteq> me_md5 el then (Some (ChecksumMismatch (me_id el)), s)
             else case put_file (de_sha256 E) bytes st of (sha, st') \<Rightarrow>
               (case uuid_in E (me_id el) of
                  None \<Rightarrow> (Some (BadUuid (me_id el)), (st', c))
                | Some i \<Rightarrow>
                    (case insert_element i (new_element mp el sha bytes (c_now c)) (me_tags el) True c of
                       Inl e \<Rightarrow> (Some (DepositDb e), (st', c))
                     | Inr c' \<Rightarrow> (None, (st', c')))))))"

fun materialise_elements ::
  "deposit_env \<Rightarrow> resolver \<Rightarrow> string \<Rightarrow> manifest_el list \<Rightarrow> deposited \<Rightarrow> deposit_error option \<times> deposited" where
  "materialise_elements E get_bytes mp [] s = (None, s)"
| "materialise_elements E get_bytes mp (el # els) s =
     (case materialise_element E get_bytes mp el s of
        (Some e, s') \<Rightarrow> (Some e, s')
      | (None, s') \<Rightarrow> materialise_elements E get_bytes mp els s')"

definition materialise ::
  "deposit_env \<Rightarrow> resolver \<Rightarrow> manifest \<Rightarrow> deposited \<Rightarrow> deposit_error option \<times> deposited" where
  "materialise E get_bytes m s =
     (if mf_id m = [] then (Some NoId, s)
      else case uuid_in E (mf_id m) of
        None \<Rightarrow> (Some (BadUuid (mf_id m)), s)
      | Some mp \<Rightarrow>
          (case materialise_row mp (mf_title m) (mf_start m) (mf_duration m) (snd s) of
             Inl e \<Rightarrow> (Some (DepositDb e), s)
           | Inr c \<Rightarrow> materialise_elements E get_bytes mp (mf_elements m) (fst s, c)))"

text \<open>\<open>Load\<close> of an archived manifest; \<open>raw\<close> is what reading its file returned.\<close>

definition load_manifest ::
  "deposit_env \<Rightarrow> resolver \<Rightarrow> string option \<Rightarrow> deposited \<Rightarrow> (deposit_error, string) result \<times> deposited" where
  "load_manifest E get_bytes raw s =
     (case raw of
        None \<Rightarrow> (Inl Unreadable, s)
      | Some doc \<Rightarrow>
          (case parse_manifest (de_text E) doc of
             Inl e \<Rightarrow> (Inl (Unparseable e), s)
           | Inr m \<Rightarrow>
               (case materialise E get_bytes m s of
                  (Some e, s') \<Rightarrow> (Inl e, s')
                | (None, s') \<Rightarrow> (Inr (mf_id m), s'))))"

section \<open>Endpoints\<close>

record 'f deposit_state =
  ds_store :: objects
  ds_db :: "'f worker_data db"

datatype reply = Reply string | Refusal nat

text \<open>\<open>stagedURL\<close> and \<open>stagedShaRe\<close>.\<close>

definition staged_url :: "string \<Rightarrow> string \<Rightarrow> string \<Rightarrow> string" where
  "staged_url host sha filename = ''http://'' @ host @ ''/ingest/staged/'' @ sha @ ''/'' @ filename"

definition lower_hex :: "char \<Rightarrow> bool" where
  "lower_hex c = (let n = byte_val c in (48 \<le> n \<and> n \<le> 57) \<or> (97 \<le> n \<and> n \<le> 102))"

definition staged_here :: "string \<Rightarrow> bool" where
  "staged_here s =
     (has_prefix s ''/ingest/staged/'' \<and>
      (let r = drop 15 s in 64 \<le> length r \<and> list_all lower_hex (take 64 r) \<and> has_prefix (drop 64 r) ''/''))"

fun staged_sha :: "string \<Rightarrow> string option" where
  "staged_sha [] = None"
| "staged_sha (c # cs) =
     (if staged_here (c # cs) then Some (take 64 (drop 15 (c # cs))) else staged_sha cs)"

definition resolve_staged :: resolver where
  "resolve_staged st url = (case staged_sha url of None \<Rightarrow> None | Some sha \<Rightarrow> cas_get st sha)"

definition stash_upload :: "deposit_env \<Rightarrow> string \<Rightarrow> objects \<Rightarrow> string \<times> objects" where
  "stash_upload E bytes st = put_file (de_sha256 E) bytes st"

definition create_media_package :: "string \<Rightarrow> int \<Rightarrow> reply" where
  "create_media_package uuid now =
     Reply (emit_bearer \<lparr>mf_id = uuid, mf_title = [], mf_start = Some (whole_second now), mf_duration = 0,
        mf_elements = []\<rparr>)"

definition add_element :: "manifest_el \<Rightarrow> manifest \<Rightarrow> manifest" where
  "add_element el m = m\<lparr>mf_elements := mf_elements m @ [el]\<rparr>"

type_synonym form = "string \<rightharpoonup> string"

definition add_dc_catalog ::
  "deposit_env \<Rightarrow> string \<Rightarrow> string \<Rightarrow> form option \<Rightarrow> objects \<Rightarrow> reply \<times> objects" where
  "add_dc_catalog E uuid host form st =
     (case form of
        None \<Rightarrow> (Refusal 400, st)
      | Some f \<Rightarrow>
          (let mp = go_get f ''mediaPackage''; dc = go_get f ''dublinCore''; flavor = go_get f ''flavor''
           in if mp = [] \<or> dc = [] \<or> flavor = [] then (Refusal 400, st)
              else case parse_manifest (de_text E) mp of
                Inl e \<Rightarrow> (Refusal 400, st)
              | Inr m \<Rightarrow>
                  (case stash_upload E dc st of (sha, st') \<Rightarrow>
                    (Reply (emit_bearer (add_element
                       \<lparr>me_id = uuid, me_kind = ''catalog'', me_flavor = flavor, me_mimetype = ''text/xml'',
                        me_url = staged_url host sha ''dublincore.xml'', me_md5 = [], me_tags = []\<rparr> m)), st'))))"

text \<open>The parts of a multipart body in wire order. A stream that ends or breaks before a file part is refused alike.\<close>

record part =
  pt_name :: string
  pt_filename :: string
  pt_type :: string
  pt_body :: string

definition field_limit :: nat where
  "field_limit = 10 * 2 ^ 20"

definition track_filename :: "string \<Rightarrow> string" where
  "track_filename name =
     (let f = path_base name in if f = [] \<or> f = ''.'' \<or> f = ''/'' then ''track'' else f)"

definition add_track_file ::
  "deposit_env \<Rightarrow> string \<Rightarrow> string \<Rightarrow> form \<Rightarrow> part \<Rightarrow> objects \<Rightarrow> reply \<times> objects" where
  "add_track_file E uuid host seen p st =
     (let mp = go_get seen ''mediaPackage''; flavor = go_get seen ''flavor''
      in if mp = [] \<or> flavor = [] then (Refusal 400, st)
         else case parse_manifest (de_text E) mp of
           Inl e \<Rightarrow> (Refusal 400, st)
         | Inr m \<Rightarrow>
             (case stash_upload E (pt_body p) st of (sha, st') \<Rightarrow>
               (Reply (emit_bearer (add_element
                  \<lparr>me_id = uuid, me_kind = ''track'', me_flavor = flavor,
                   me_mimetype = (if pt_type p = [] then ''application/octet-stream'' else pt_type p),
                   me_url = staged_url host sha (track_filename (pt_filename p)), me_md5 = [], me_tags = []\<rparr> m)), st')))"

fun add_track_parts ::
  "deposit_env \<Rightarrow> string \<Rightarrow> string \<Rightarrow> form \<Rightarrow> part list \<Rightarrow> objects \<Rightarrow> reply \<times> objects" where
  "add_track_parts E uuid host seen [] st = (Refusal 400, st)"
| "add_track_parts E uuid host seen (p # ps) st =
     (if pt_filename p = []
      then add_track_parts E uuid host (seen(pt_name p \<mapsto> take field_limit (pt_body p))) ps st
      else add_track_file E uuid host seen p st)"

definition add_track ::
  "deposit_env \<Rightarrow> string \<Rightarrow> string \<Rightarrow> part list option \<Rightarrow> objects \<Rightarrow> reply \<times> objects" where
  "add_track E uuid host body st =
     (case body of
        None \<Rightarrow> (Refusal 400, st)
      | Some ps \<Rightarrow> add_track_parts E uuid host Map.empty ps st)"

section \<open>\<open>/ingest/ingest\<close>\<close>

definition episode_dc :: "manifest_el \<Rightarrow> bool" where
  "episode_dc el = (me_kind el = ''catalog'' \<and> me_flavor el = ''dublincore/episode'')"

definition derive_episode :: "deposit_env \<Rightarrow> objects \<Rightarrow> manifest \<Rightarrow> manifest option" where
  "derive_episode E st m =
     (case find episode_dc (mf_elements m) of
        None \<Rightarrow> Some m
      | Some el \<Rightarrow>
          (case resolve_staged st (me_url el) of
             None \<Rightarrow> None
           | Some raw \<Rightarrow>
               (case dc_derive (de_text E) raw of
                  None \<Rightarrow> None
                | Some (title, start) \<Rightarrow>
                    Some (m\<lparr>mf_title := (if title \<noteq> [] then title else mf_title m),
                            mf_start := (case start of None \<Rightarrow> mf_start m | Some t \<Rightarrow> Some t)\<rparr>))))"

definition workflow_reply :: "nat \<Rightarrow> string \<Rightarrow> string \<Rightarrow> string" where
  "workflow_reply n wd mp =
     xml_header @ ''<wf:workflow xmlns:wf='' @ quoted ''http://workflow.opencastproject.org'' @
     '' xmlns:mp='' @ quoted mp_namespace @ '' id='' @ quoted (dec n) @ '' state='' @ quoted ''INSTANTIATED'' @
     ''><wf:template>'' @ esc wd @ ''</wf:template><wf:mediaPackageId>'' @ esc mp @
     ''</wf:mediaPackageId></wf:workflow>''"

definition on_deposit :: "'f deposit_state \<Rightarrow> deposited \<Rightarrow> 'f deposit_state" where
  "on_deposit s d =
     s\<lparr>ds_store := fst d, ds_db := (ds_db s)\<lparr>db_data := (db_data (ds_db s))\<lparr>wd_cat := snd d\<rparr>\<rparr>\<rparr>"

definition deposited_of :: "'f deposit_state \<Rightarrow> deposited" where
  "deposited_of s = (ds_store s, wd_cat (db_data (ds_db s)))"

definition start_workflow ::
  "deposit_env \<Rightarrow> string \<Rightarrow> definition_ops \<Rightarrow> string \<Rightarrow> 'f deposit_state \<Rightarrow> reply \<times> 'f deposit_state" where
  "start_workflow E wd ops i s =
     (case uuid_in E i of
        None \<Rightarrow> (Refusal 500, s)
      | Some mp \<Rightarrow>
          (case create_workflow mp ops (ds_db s) of
             Inl e \<Rightarrow> (Refusal 500, s)
           | Inr (n, db) \<Rightarrow> (Reply (workflow_reply n wd i), s\<lparr>ds_db := db\<rparr>)))"

text \<open>A definition source answers with a definition, with none, or fails; it may be absent.\<close>

type_synonym definition_source = "string \<Rightarrow> definition_ops option option"

definition look_up :: "definition_source option \<Rightarrow> string \<Rightarrow> definition_ops option option" where
  "look_up src wd = (case src of None \<Rightarrow> Some None | Some f \<Rightarrow> f wd)"

definition ingest ::
  "deposit_env \<Rightarrow> definition_source option \<Rightarrow> string \<Rightarrow> form option \<Rightarrow> 'f deposit_state
     \<Rightarrow> reply \<times> 'f deposit_state" where
  "ingest E src wd_path form s =
     (case form of
        None \<Rightarrow> (Refusal 400, s)
      | Some f \<Rightarrow>
          (let mp = go_get f ''mediaPackage'';
               wd = (if wd_path = [] then go_get f ''workflowDefinitionId'' else wd_path)
           in if go_get f ''workflowInstanceId'' \<noteq> [] then (Refusal 400, s)
              else if mp = [] then (Refusal 400, s)
              else case look_up src wd of
                None \<Rightarrow> (Refusal 500, s)
              | Some None \<Rightarrow> (Refusal 404, s)
              | Some (Some ops) \<Rightarrow>
                  (case parse_manifest (de_text E) mp of
                     Inl e \<Rightarrow> (Refusal 400, s)
                   | Inr m0 \<Rightarrow>
                       (case derive_episode E (ds_store s) m0 of
                          None \<Rightarrow> (Refusal 400, s)
                        | Some m \<Rightarrow>
                            (case materialise E resolve_staged m (deposited_of s) of
                               (Some e, d) \<Rightarrow> (Refusal 500, on_deposit s d)
                             | (None, d) \<Rightarrow> start_workflow E wd ops (mf_id m) (on_deposit s d))))))"

section \<open>Routing\<close>

record http_deposit =
  hd_method :: string
  hd_path :: string
  hd_host :: string
  hd_auth :: http_auth
  hd_form :: "form option"
  hd_parts :: "part list option"

definition trim_suffix :: "string \<Rightarrow> string \<Rightarrow> string" where
  "trim_suffix s p = (if has_suffix s p then take (length s - length p) s else s)"

text \<open>\<open>fresh\<close> is the uuid minted for the request, \<open>now\<close> the wall clock.\<close>

definition route ::
  "deposit_env \<Rightarrow> definition_source option \<Rightarrow> string \<Rightarrow> int \<Rightarrow> http_deposit \<Rightarrow> 'f deposit_state
     \<Rightarrow> reply \<times> 'f deposit_state" where
  "route E src fresh now r s =
     (let p = trim_suffix (hd_path r) ''/''; get = (hd_method r = ''GET''); post = (hd_method r = ''POST'')
      in if get \<and> p = ''/ingest/createMediaPackage'' then (create_media_package fresh now, s)
         else if post \<and> p = ''/ingest/addDCCatalog''
         then (case add_dc_catalog E fresh (hd_host r) (hd_form r) (ds_store s) of (a, st) \<Rightarrow> (a, s\<lparr>ds_store := st\<rparr>))
         else if post \<and> p = ''/ingest/addTrack''
         then (case add_track E fresh (hd_host r) (hd_parts r) (ds_store s) of (a, st) \<Rightarrow> (a, s\<lparr>ds_store := st\<rparr>))
         else if post \<and> p = ''/ingest/ingest'' then ingest E src [] (hd_form r) s
         else if post \<and> has_prefix p ''/ingest/ingest/''
         then ingest E src (trim_prefix p ''/ingest/ingest/'') (hd_form r) s
         else (Refusal 404, s))"

definition serve_ingest ::
  "primitives \<Rightarrow> auth_config \<Rightarrow> oidc_env \<Rightarrow> deposit_env \<Rightarrow> definition_source option \<Rightarrow> string \<Rightarrow> int
     \<Rightarrow> http_deposit \<Rightarrow> validator \<Rightarrow> 'f deposit_state \<Rightarrow> reply \<times> validator \<times> 'f deposit_state" where
  "serve_ingest P cfg e E src fresh now r v s =
     (case service P cfg e (hd_auth r) v of
        (False, v') \<Rightarrow> (Refusal 403, v', s)
      | (True, v') \<Rightarrow> (case route E src fresh now r s of (a, s') \<Rightarrow> (a, v', s')))"

end
