(* ===== verification/BearerProps.thy ===== *)
theory BearerProps
  imports Bearer
begin

text \<open>
  Reading back what the bearer emitter writes: each piece of the document is shown to add its tree
  to the element being read (\<open>writes\<close>), the pieces compose, and the tree is the manifest again.
\<close>

section \<open>Tags\<close>

definition simple_name :: "string \<Rightarrow> bool" where
  "simple_name n =
     (n \<noteq> [] \<and> name_start (hd n) \<and> list_all (\<lambda>c. name_byte c \<and> byte_val c < 128 \<and> c \<noteq> CHR '':'') n)"

lemma simple_names:
  "simple_name ''mediapackage''" "simple_name ''media''" "simple_name ''metadata''"
  "simple_name ''attachments''" "simple_name ''publications''" "simple_name ''track''"
  "simple_name ''catalog''" "simple_name ''attachment''" "simple_name ''title''"
  "simple_name ''mimetype''" "simple_name ''tags''" "simple_name ''tag''" "simple_name ''url''"
  "simple_name ''live''" "simple_name ''id''" "simple_name ''type''" "simple_name ''start''"
  "simple_name ''xmlns''"
  by code_simp+

lemma takeWhile_name: "simple_name n \<Longrightarrow> \<not> name_byte c \<Longrightarrow> takeWhile name_byte (n @ c # r) = n"
  "simple_name n \<Longrightarrow> \<not> name_byte c \<Longrightarrow> dropWhile name_byte (n @ c # r) = c # r"
  by (auto simp: simple_name_def list_all_iff takeWhile_append dropWhile_append)

lemma read_nsname_simple:
  "simple_name n \<Longrightarrow> \<not> name_byte c \<Longrightarrow> read_nsname u (n @ c # r) = Some (([], n), c # r)"
proof -
  assume n: "simple_name n" and c: "\<not> name_byte c"
  have "filter (\<lambda>x. x = CHR '':'') n = []" and colon: "CHR '':'' \<notin> set n"
    using n by (auto simp: simple_name_def list_all_iff filter_empty_conv)
  moreover have "is_name u n" "n \<noteq> []" using n by (auto simp: simple_name_def is_name_def list_all_iff)
  ultimately show ?thesis
    by (simp add: read_nsname_def read_name_def takeWhile_name [OF n c] Let_def)
qed

lemma not_name_bytes:
  "\<not> name_byte CHR ''>''" "\<not> name_byte CHR ''/''" "\<not> name_byte CHR ''=''" "\<not> name_byte CHR 0x20"
  by (simp_all add: name_byte_def name_start_def byte_val_def Let_def)

lemma not_spaces:
  "\<not> xml_space CHR ''>''" "\<not> xml_space CHR ''/''" "\<not> xml_space CHR ''=''" "\<not> xml_space CHR 0x22"
  by (simp_all add: xml_space_def)

lemma name_start_not:
  "\<not> name_start CHR ''/''" "\<not> name_start CHR ''>''" "\<not> name_start CHR ''?''" "\<not> name_start CHR ''!''"
  "\<not> name_start CHR 0x20" "\<not> name_start CHR 0x0D" "\<not> name_start CHR 0x0A" "\<not> name_start CHR 0x09"
  by (simp_all add: name_start_def byte_val_def Let_def)

lemma simple_name_head:
  assumes "simple_name n"
  obtains c cs where "n = c # cs" and "name_start c"
    and "c \<noteq> CHR ''/''" and "c \<noteq> CHR ''>''" and "c \<noteq> CHR ''?''" and "c \<noteq> CHR ''!''" and "\<not> xml_space c"
proof -
  obtain c cs where n: "n = c # cs" and c: "name_start c"
    using assms by (cases n) (auto simp: simple_name_def)
  have "x \<noteq> c" if "\<not> name_start x" for x using c that by auto
  then show ?thesis using that [OF n c] name_start_not by (auto simp: xml_space_def)
qed

lemma skip_space_simps:
  "\<not> xml_space c \<Longrightarrow> skip_space (c # r) = c # r" "skip_space (CHR 0x20 # r) = skip_space r"
  by (simp_all add: skip_space_def xml_space_def)

lemma attributes_end:
  "attributes u (CHR ''>'' # r) = Some ([], False, r)"
  "attributes u (CHR ''/'' # CHR ''>'' # r) = Some ([], True, r)"
  by (simp_all add: attributes.simps [of u "CHR ''>'' # r"] attributes.simps [of u "CHR ''/'' # CHR ''>'' # r"]
      skip_space_simps not_spaces)

lemma attribute_written:
  assumes "simple_name n" and "xml_text v"
  shows "attribute u (n @ ''='' @ quoted (esc v) @ r) = Some ((n, v), r)"
  using read_nsname_simple [OF assms(1) not_name_bytes(3)] chardata_esc(2) [OF assms(2)]
  by (simp add: attribute_def skip_space_simps not_spaces quoted_def)

lemma attributes_written:
  assumes n: "simple_name n" and v: "xml_text v" and r: "attributes u r = Some (as, e, t)"
  shows "attributes u ('' '' @ n @ ''='' @ quoted (esc v) @ r) = Some ((n, v) # as, e, t)"
proof -
  obtain c cs where c: "n = c # cs" "c \<noteq> CHR ''/''" "c \<noteq> CHR ''>''" "\<not> xml_space c"
    using simple_name_head [OF n] by metis
  show ?thesis
    using attribute_written [OF n v, of u r] c
    by (subst attributes.simps) (simp add: skip_space_simps r)
qed

text \<open>What can follow the name in a tag: its end, or a space before attributes.\<close>

definition tag_end :: "string \<Rightarrow> bool" where
  "tag_end s = (case s of [] \<Rightarrow> False | c # r \<Rightarrow> \<not> name_byte c)"

lemma next_start:
  assumes n: "simple_name n" and "tag_end s" and "attributes u s = Some (as, e, r)"
  shows "next_token u (CHR ''<'' # n @ s) = Some (TStart [] n as e, r)"
proof -
  obtain c cs where c: "n = c # cs" "c \<noteq> CHR ''/''" "c \<noteq> CHR ''?''" "c \<noteq> CHR ''!''"
    using simple_name_head [OF n] by metis
  obtain x xs where s: "s = x # xs" "\<not> name_byte x"
    using assms(2) by (auto simp: tag_end_def split: list.splits)
  have "start_tag u (n @ s) = Some (TStart [] n as e, r)"
    using read_nsname_simple [OF n s(2)] assms(3) by (simp add: start_tag_def s(1))
  then show ?thesis using c by (simp add: next_token_def)
qed

lemma next_end:
  assumes "simple_name n"
  shows "next_token u (''</'' @ n @ CHR ''>'' # r) = Some (TEnd [] n, r)"
  using read_nsname_simple [OF assms not_name_bytes(1)]
  by (simp add: next_token_def end_tag_def skip_space_simps not_spaces)

section \<open>Pieces of a document\<close>

definition add_kids :: "xml list \<Rightarrow> frame \<Rightarrow> frame" where
  "add_kids xs f = fold add_kid xs f"

definition writes :: "(string \<Rightarrow> bool) \<Rightarrow> string \<Rightarrow> xml list \<Rightarrow> bool" where
  "writes u s xs = (\<forall>f stk r. build u f stk (s @ r) = build u (add_kids xs f) stk r)"

definition leaf :: "string \<Rightarrow> string \<Rightarrow> xml" where
  "leaf n t = Elem n [] (if t = [] then [] else [Chars t])"

lemma writes_Nil [intro]: "writes u [] []"
  by (simp add: writes_def add_kids_def)

lemma writes_append [intro]: "writes u s xs \<Longrightarrow> writes u t ys \<Longrightarrow> writes u (s @ t) (xs @ ys)"
  unfolding writes_def by (simp add: add_kids_def del: split_paired_All)

lemma writes_concat:
  "(\<And>x. x \<in> set xs \<Longrightarrow> writes u (f x) [g x]) \<Longrightarrow> writes u (concat (map f xs)) (map g xs)"
proof (induction xs)
  case (Cons x xs)
  then have "writes u (f x @ concat (map f xs)) ([g x] @ map g xs)" by (intro writes_append) auto
  then show ?case by simp
qed (auto intro: writes_Nil)

lemma add_kids_frame: "add_kids xs (p, l, as, ks) = (p, l, as, rev xs @ ks)"
  by (induction xs arbitrary: ks) (simp_all add: add_kids_def add_kid_def)

lemma build_end:
  assumes "simple_name n"
  shows "build u (add_kids xs ([], n, as, [])) (f # stk) (CHR ''<'' # CHR ''/'' # n @ CHR ''>'' # r) =
    build u (add_kid (Elem n as xs) f) stk r"
  using next_end [OF assms, of u r]
  by (subst build.simps) (simp add: add_kids_frame opens_def close_frame_def)

lemma writes_element:
  assumes n: "simple_name n" and a: "tag_end (a @ ''>'')" and as: "\<And>r. attributes u (a @ CHR ''>'' # r) = Some (as, False, r)"
    and s: "writes u s xs"
  shows "writes u (''<'' @ n @ a @ ''>'' @ s @ ''</'' @ n @ ''>'') [Elem n as xs]"
proof -
  have "build u f stk (CHR ''<'' # n @ a @ CHR ''>'' # s @ ''</'' @ n @ CHR ''>'' # r) =
      build u (add_kid (Elem n as xs) f) stk r" for f stk r
  proof -
    have "tag_end (a @ CHR ''>'' # s @ ''</'' @ n @ CHR ''>'' # r)"
      using a by (cases a) (simp_all add: tag_end_def)
    from next_start [OF n this as]
    have "build u f stk (CHR ''<'' # n @ a @ CHR ''>'' # s @ ''</'' @ n @ CHR ''>'' # r) =
        build u ([], n, as, []) (f # stk) (s @ ''</'' @ n @ CHR ''>'' # r)"
      by (subst build.simps) simp
    also have "\<dots> = build u (add_kids xs ([], n, as, [])) (f # stk) (''</'' @ n @ CHR ''>'' # r)"
      using s by (simp add: writes_def)
    finally show ?thesis by (simp add: build_end [OF n])
  qed
  then show ?thesis by (simp add: writes_def add_kids_def)
qed

lemma writes_empty:
  assumes "simple_name n"
  shows "writes u (''<'' @ n @ ''/>'') [Elem n [] []]"
proof -
  have "build u f stk (CHR ''<'' # n @ CHR ''/'' # CHR ''>'' # r) = build u (add_kid (Elem n [] []) f) stk r" for f stk r
    using next_start [OF assms _ attributes_end(2), of r u]
    by (subst build.simps) (simp add: tag_end_def not_name_bytes)
  then show ?thesis by (simp add: writes_def add_kids_def)
qed

lemma next_text:
  assumes "xml_text t" and "t \<noteq> []"
  shows "next_token u (esc t @ CHR ''<'' # r) = Some (TText t, CHR ''<'' # r)"
proof -
  note cd = chardata_esc(1) [OF assms(1), of r]
  have "chardata CharData (CHR ''<'' # x) = Some ([], CHR ''<'' # x)" for x
    by (simp add: chardata_def xml_text_def)
  then obtain c cs where "esc t @ CHR ''<'' # r = c # cs" "c \<noteq> CHR ''<''"
    using cd assms(2) by (cases "esc t @ CHR ''<'' # r") (auto simp del: text_run.simps, metis option.inject prod.inject)
  then show ?thesis using cd by (simp add: next_token_def)
qed

lemma writes_leaf:
  assumes n: "simple_name n" and t: "xml_text t"
  shows "writes u (''<'' @ n @ ''>'' @ esc t @ ''</'' @ n @ ''>'') [leaf n t]"
proof (cases "t = []")
  case True
  have "writes u (''<'' @ n @ [] @ ''>'' @ [] @ ''</'' @ n @ ''>'') [Elem n [] []]"
    by (rule writes_element [OF n]) (auto simp: tag_end_def not_name_bytes attributes_end writes_Nil)
  then show ?thesis by (simp add: True leaf_def esc_def)
next
  case False
  have "build u f stk (CHR ''<'' # n @ CHR ''>'' # esc t @ ''</'' @ n @ CHR ''>'' # r) =
      build u (add_kid (leaf n t) f) stk r" for f stk r
  proof -
    have "build u f stk (CHR ''<'' # n @ CHR ''>'' # esc t @ ''</'' @ n @ CHR ''>'' # r) =
        build u ([], n, [], []) (f # stk) (esc t @ ''</'' @ n @ CHR ''>'' # r)"
      by (subst build.simps) (simp add: next_start [OF n _ attributes_end(1)] tag_end_def not_name_bytes)
    also have "\<dots> = build u (add_kids [Chars t] ([], n, [], [])) (f # stk) (''</'' @ n @ CHR ''>'' # r)"
      by (subst build.simps) (simp add: next_text [OF t False] add_kids_def)
    finally show ?thesis using False by (simp add: build_end [OF n] leaf_def)
  qed
  then show ?thesis by (simp add: writes_def add_kids_def)
qed

section \<open>Plain text\<close>

definition plain_text :: "string \<Rightarrow> bool" where
  "plain_text v = list_all (\<lambda>c. plain c \<and> 32 \<le> byte_val c \<and> byte_val c < 128) v"

lemma runes_ascii: "list_all (\<lambda>c. byte_val c < 128) v \<Longrightarrow> runes v = map (\<lambda>c. (Some (byte_val c), [c])) v"
  by (induction v) (simp_all add: decode_rune_def Let_def)

lemma plain_not:
  "plain c \<Longrightarrow> byte_val c \<notin> {34, 39, 38, 60, 62, 9, 10, 13} \<or> byte_val c = 9"
  by (auto simp: plain_def byte_val_def dest!: char_of_val [of c] simp: special_chars)

lemma plain_text_esc:
  assumes "plain_text v"
  shows "esc v = v" and "xml_text v"
proof -
  have r: "runes v = map (\<lambda>c. (Some (byte_val c), [c])) v"
    using assms by (intro runes_ascii) (auto simp: plain_text_def list_all_iff)
  have "esc_rune (Some (byte_val c), [c]) = [c]" if "c \<in> set v" for c
    using assms that plain_not [of c] by (auto simp: plain_text_def list_all_iff esc_rune_def xml_rune_def)
  then have "map esc_rune (runes v) = map (\<lambda>c. [c]) v" by (simp add: r)
  moreover have "concat (map (\<lambda>c. [c]) w) = w" for w :: string by (induction w) auto
  ultimately show "esc v = v" by (simp add: esc_def)
  show "xml_text v" using assms by (auto simp: xml_text_def r plain_text_def list_all_iff xml_rune_def)
qed

lemma plain_digits: "plain_text (dec n)"
proof -
  have "plain c \<and> 32 \<le> byte_val c \<and> byte_val c < 128" if "digit_val c \<noteq> None" for c
  proof -
    have n: "48 \<le> (of_char c :: int) \<and> (of_char c :: int) \<le> 57"
      using that by (auto simp: digit_val_def Let_def split: if_splits)
    have "int (byte_val c) = of_char c" unfolding byte_val_def by (rule of_nat_of_char)
    then have b: "48 \<le> byte_val c" "byte_val c \<le> 57" using n by linarith+
    then have "plain c" by (auto simp: plain_def byte_val_def)
    then show ?thesis using b by simp
  qed
  then show ?thesis using dec_digits by (auto simp: plain_text_def list_all_iff)
qed

lemma plain_padded: "plain_text (padded w n)"
proof -
  have "plain_text ''-''" and "\<And>k. plain_text (replicate k CHR ''0'')"
    by (simp_all add: plain_text_def plain_def byte_val_def list_all_iff)
  then show ?thesis
    using plain_digits [of "nat \<bar>n\<bar>"] by (simp add: padded_def Let_def plain_text_def)
qed

lemma plain_start: "plain_text (format_start t)"
proof -
  have app: "plain_text (a @ b) \<longleftrightarrow> plain_text a \<and> plain_text b" for a b by (simp add: plain_text_def)
  have "plain_text ''-''" "plain_text '':''" "plain_text ''T''" "plain_text ''Z''"
    by (simp_all add: plain_text_def plain_def byte_val_def)
  moreover obtain y m d where "civil_date (t div nanos_per_second div 86400) = (y, m, d)"
    by (cases "civil_date (t div nanos_per_second div 86400)") auto
  ultimately show ?thesis
    by (simp only: format_start_def Let_def prod.case app plain_padded simp_thms)
qed

lemma plain_namespace: "plain_text mp_namespace" "plain_text ''false''"
  by code_simp+

section \<open>The tree of a bearer document\<close>

definition opt_leaf :: "string \<Rightarrow> string \<Rightarrow> xml list" where
  "opt_leaf n t = (if t = [] then [] else [leaf n t])"

definition tags_tree :: "string list \<Rightarrow> xml" where
  "tags_tree tags = Elem ''tags'' [] (map (leaf ''tag'') tags)"

definition element_tree :: "string \<Rightarrow> bool \<Rightarrow> manifest_el \<Rightarrow> xml" where
  "element_tree kind live el =
     Elem kind [(''id'', me_id el), (''type'', me_flavor el)]
       (opt_leaf ''mimetype'' (me_mimetype el) @ [tags_tree (me_tags el), leaf ''url'' (me_url el)] @
        (if live then [leaf ''live'' ''false''] else []))"

definition group_tree :: "string \<Rightarrow> string \<Rightarrow> manifest_el list \<Rightarrow> bool \<Rightarrow> xml" where
  "group_tree wrapper kind els live =
     Elem wrapper [] (map (element_tree kind live) (filter (\<lambda>e. me_kind e = kind) els))"

definition bearer_tree :: "manifest \<Rightarrow> xml" where
  "bearer_tree m =
     Elem ''mediapackage''
       ((''xmlns'', mp_namespace) # (if mf_id m \<noteq> [] then [(''id'', mf_id m)] else []) @
        (case mf_start m of None \<Rightarrow> [] | Some t \<Rightarrow> [(''start'', format_start t)]))
       (opt_leaf ''title'' (mf_title m) @
        [group_tree ''media'' ''track'' (mf_elements m) True,
         group_tree ''metadata'' ''catalog'' (mf_elements m) False,
         group_tree ''attachments'' ''attachment'' (mf_elements m) False,
         Elem ''publications'' [] []])"

definition element_text :: "manifest_el \<Rightarrow> bool" where
  "element_text e =
     (xml_text (me_id e) \<and> xml_text (me_flavor e) \<and> xml_text (me_mimetype e) \<and> xml_text (me_url e) \<and>
      list_all xml_text (me_tags e))"

definition manifest_text :: "manifest \<Rightarrow> bool" where
  "manifest_text m = (xml_text (mf_id m) \<and> xml_text (mf_title m) \<and> list_all element_text (mf_elements m))"

lemma xml_text_Nil [simp]: "xml_text []" "esc [] = []"
  by (simp_all add: xml_text_def esc_def)

lemma writes_opt_leaf:
  "simple_name n \<Longrightarrow> xml_text t \<Longrightarrow>
     writes u (if t \<noteq> [] then ''<'' @ n @ ''>'' @ esc t @ ''</'' @ n @ ''>'' else []) (opt_leaf n t)"
  using writes_leaf [of n t u] by (auto simp: opt_leaf_def)

lemma tag_end_simps [simp]: "tag_end (CHR ''>'' # s)" "tag_end (CHR 0x20 # s)" "tag_end (CHR ''/'' # s)"
  by (simp_all add: tag_end_def not_name_bytes)

lemma writes_wrapped:
  "simple_name n \<Longrightarrow> writes u s xs \<Longrightarrow> writes u (''<'' @ n @ ''>'' @ s @ ''</'' @ n @ ''>'') [Elem n [] xs]"
  using writes_element [of n "[]" u "[]" s xs] by (simp add: attributes_end)

lemma writes_tags: "list_all xml_text tags \<Longrightarrow> writes u (emit_tags tags) [tags_tree tags]"
proof (cases "tags = []")
  case True
  then show ?thesis using writes_empty [OF simple_names(11), of u] by (simp add: emit_tags_def tags_tree_def)
next
  case False
  assume "list_all xml_text tags"
  then have "writes u (concat (map (\<lambda>t. ''<tag>'' @ esc t @ ''</tag>'') tags)) (map (leaf ''tag'') tags)"
    using writes_leaf [OF simple_names(12), of _ u] by (intro writes_concat) (auto simp: list_all_iff)
  from writes_wrapped [OF simple_names(11) this] show ?thesis
    using False by (simp add: emit_tags_def tags_tree_def)
qed

lemma writes_emitted:
  assumes k: "simple_name kind" and e: "element_text el"
  shows "writes u (emit_element kind live el) [element_tree kind live el]"
proof -
  let ?a = "'' id='' @ quoted (esc (me_id el)) @ '' type='' @ quoted (esc (me_flavor el))"
  let ?body = "(if me_mimetype el \<noteq> [] then ''<mimetype>'' @ esc (me_mimetype el) @ ''</mimetype>'' else []) @
     emit_tags (me_tags el) @ (''<url>'' @ esc (me_url el) @ ''</url>'') @
     (if live then ''<live>false</live>'' else [])"
  have as: "attributes u (?a @ CHR ''>'' # r) =
      Some ([(''id'', me_id el), (''type'', me_flavor el)], False, r)" for r
    using attributes_written [OF simple_names(15) _ attributes_written [OF simple_names(16) _ attributes_end(1)]] e
    by (simp add: element_text_def)
  have live: "writes u (if live then ''<live>false</live>'' else []) (if live then [leaf ''live'' ''false''] else [])"
    using writes_leaf [OF simple_names(14) plain_text_esc(2) [OF plain_namespace(2)], of u]
    by (auto simp: plain_text_esc(1) [OF plain_namespace(2)])
  have "writes u ?body (opt_leaf ''mimetype'' (me_mimetype el) @ [tags_tree (me_tags el)] @ [leaf ''url'' (me_url el)] @
      (if live then [leaf ''live'' ''false''] else []))"
    using writes_opt_leaf [OF simple_names(10), of "me_mimetype el" u] writes_leaf [OF simple_names(13), of "me_url el" u] e
    by (intro writes_append live writes_tags)
       (cases "me_mimetype el = []"; simp add: element_text_def opt_leaf_def writes_Nil)+
  from writes_element [OF k _ as this] show ?thesis
    by (simp add: emit_element_def element_tree_def)
qed

lemma writes_group:
  assumes w: "simple_name wrapper" and k: "simple_name kind" and e: "list_all element_text els"
  shows "writes u (emit_group wrapper kind els live) [group_tree wrapper kind els live]"
proof (cases "filter (\<lambda>e. me_kind e = kind) els = []")
  case True
  then show ?thesis using writes_empty [OF w, of u] by (simp add: emit_group_def group_tree_def)
next
  case False
  have "writes u (concat (map (emit_element kind live) (filter (\<lambda>e. me_kind e = kind) els)))
      (map (element_tree kind live) (filter (\<lambda>e. me_kind e = kind) els))"
    using e by (intro writes_concat writes_emitted [OF k]) (auto simp: list_all_iff)
  from writes_wrapped [OF w this] show ?thesis
    using False by (simp only: emit_group_def group_tree_def Let_def if_False)
qed

section \<open>The document\<close>

lemma cut_sub_first: "CHR ''?'' \<notin> set a \<Longrightarrow> cut_sub ''?>'' (a @ ''?>'' @ r) = Some (a, r)"
  by (induction a) auto

definition xml_decl :: string where
  "xml_decl = ''version='' @ quoted ''1.0'' @ '' encoding='' @ quoted ''UTF-8'' @ '' standalone='' @ quoted ''yes''"

lemma xml_decl_facts: "declaration_ok xml_decl" "CHR ''?'' \<notin> set xml_decl"
  by code_simp+

lemma next_header: "next_token u (xml_header @ r) = Some (TSkip, r)"
proof -
  have h: "xml_header @ r = CHR ''<'' # CHR ''?'' # ''xml'' @ CHR 0x20 # xml_decl @ ''?>'' @ r"
    by (simp add: xml_header_def xml_decl_def)
  have n: "simple_name ''xml''" by code_simp
  have name: "read_name u (''xml'' @ CHR 0x20 # s) = Some (''xml'', CHR 0x20 # s)" for s
    using takeWhile_name [OF n not_name_bytes(4)] n
    by (simp add: read_name_def is_name_def simple_name_def list_all_iff)
  have "skip_space (CHR 0x20 # xml_decl @ ''?>'' @ r) = xml_decl @ ''?>'' @ r"
    by (simp add: skip_space_def xml_space_def xml_decl_def)
  then have "instruction u (''xml'' @ CHR 0x20 # xml_decl @ ''?>'' @ r) = Some r"
    by (simp only: instruction_def name option.case prod.case cut_sub_first [OF xml_decl_facts(2)]
        xml_decl_facts(1) simp_thms if_False)
  then show ?thesis by (simp add: h next_token_def)
qed

lemma attributes_optional:
  "simple_name n \<Longrightarrow> xml_text v \<Longrightarrow> attributes u r = Some (as, e, t) \<Longrightarrow>
     attributes u ((if b then '' '' @ n @ ''='' @ quoted (esc v) else []) @ r) =
       Some ((if b then [(n, v)] else []) @ as, e, t)"
  using attributes_written [of n v u r as e t] by simp

lemma root_bearer:
  assumes m: "manifest_text m"
  shows "root_element u (emit_bearer m) = Some (bearer_tree m)"
proof -
  let ?id = "if mf_id m \<noteq> [] then '' '' @ ''id'' @ ''='' @ quoted (esc (mf_id m)) else []"
  let ?start = "case mf_start m of None \<Rightarrow> [] | Some t \<Rightarrow> '' start='' @ quoted (format_start t)"
  let ?ats = "(''xmlns'', mp_namespace) # (if mf_id m \<noteq> [] then [(''id'', mf_id m)] else []) @
        (case mf_start m of None \<Rightarrow> [] | Some t \<Rightarrow> [(''start'', format_start t)])"
  let ?body = "(if mf_title m \<noteq> [] then ''<'' @ ''title'' @ ''>'' @ esc (mf_title m) @ ''</'' @ ''title'' @ ''>'' else []) @
     emit_group ''media'' ''track'' (mf_elements m) True @
     emit_group ''metadata'' ''catalog'' (mf_elements m) False @
     emit_group ''attachments'' ''attachment'' (mf_elements m) False @ ''<publications/>''"
  let ?ks = "opt_leaf ''title'' (mf_title m) @
        [group_tree ''media'' ''track'' (mf_elements m) True] @
        [group_tree ''metadata'' ''catalog'' (mf_elements m) False] @
        [group_tree ''attachments'' ''attachment'' (mf_elements m) False] @
        [Elem ''publications'' [] []]"
  let ?attrs = "'' xmlns='' @ quoted mp_namespace @ ?id @ ?start"
  have els: "list_all element_text (mf_elements m)" using m by (simp add: manifest_text_def)
  have start: "attributes u (?start @ CHR ''>'' # r) =
      Some (case mf_start m of None \<Rightarrow> [] | Some t \<Rightarrow> [(''start'', format_start t)], False, r)" for r
  proof (cases "mf_start m")
    case (Some t)
    show ?thesis
      using attributes_written [OF simple_names(17) plain_text_esc(2) [OF plain_start] attributes_end(1), of u t r]
      by (simp add: Some plain_text_esc(1) [OF plain_start])
  qed (simp add: attributes_end)
  have as: "attributes u (?attrs @ CHR ''>'' # r) = Some (?ats, False, r)" for r
    using attributes_written [OF simple_names(18) plain_text_esc(2) [OF plain_namespace(1)]
        attributes_optional [OF simple_names(15) _ start, of "mf_id m" "mf_id m \<noteq> []"]] m
    by (simp add: plain_text_esc(1) [OF plain_namespace(1)] manifest_text_def)
  have body: "writes u ?body ?ks"
    using writes_empty [OF simple_names(5), of u] m
    by (intro writes_append writes_opt_leaf writes_group els simple_names) (simp_all add: manifest_text_def)
  have doc: "emit_bearer m = xml_header @ CHR ''<'' # ''mediapackage'' @ ?attrs @ CHR ''>'' #
      ?body @ CHR ''<'' # CHR ''/'' # ''mediapackage'' @ CHR ''>'' # []"
    by (simp add: emit_bearer_def)
  have open1: "next_token u (CHR ''<'' # ''mediapackage'' @ ?attrs @ CHR ''>'' # r) =
      Some (TStart [] ''mediapackage'' ?ats False, r)" for r
    by (rule next_start [OF simple_names(1) _ as]) simp
  have "root_element u (emit_bearer m) =
      root_element u (CHR ''<'' # ''mediapackage'' @ ?attrs @ CHR ''>'' #
        ?body @ CHR ''<'' # CHR ''/'' # ''mediapackage'' @ CHR ''>'' # [])"
    unfolding doc by (subst root_element.simps) (simp only: next_header option.case prod.case token.case)
  also have "\<dots> = build u ([], ''mediapackage'', ?ats, []) []
      (?body @ CHR ''<'' # CHR ''/'' # ''mediapackage'' @ CHR ''>'' # [])"
    by (subst root_element.simps) (simp only: open1 option.case prod.case token.case if_False)
  also have "\<dots> = build u (add_kids ?ks ([], ''mediapackage'', ?ats, [])) []
      (''</'' @ ''mediapackage'' @ CHR ''>'' # [])"
    using body unfolding writes_def by simp
  also have "\<dots> = Some (close_frame (add_kids ?ks ([], ''mediapackage'', ?ats, [])))"
    by (subst build.simps)
       (simp only: next_end [OF simple_names(1)] option.case prod.case token.case add_kids_frame opens_def simp_thms
         if_False list.case)
  finally show ?thesis by (simp add: add_kids_frame close_frame_def bearer_tree_def)
qed

section \<open>Back to the manifest\<close>

lemma kids_named_append: "kids_named n (xs @ ys) = kids_named n xs @ kids_named n ys"
  by (induction n xs rule: kids_named.induct) auto

lemma kids_named_opt_leaf:
  "kids_named n (opt_leaf l t) = (if l = n \<and> t \<noteq> [] then [leaf l t] else [])"
  by (simp add: opt_leaf_def leaf_def)

lemma leaf_simps [simp]: "xml_chars (xml_kids (leaf n t)) = t" "xml_attrs (leaf n t) = []"
  by (simp_all add: leaf_def)

lemma kids_named_leaf: "kids_named n [leaf l t] = (if l = n then [leaf l t] else [])"
  "kids_named n (leaf l t # ks) = (if l = n then leaf l t # kids_named n ks else kids_named n ks)"
  by (simp_all add: leaf_def)

lemma kids_named_leaves: "kids_named n (map (leaf n) ts) = map (leaf n) ts"
  by (induction ts) (simp_all add: kids_named_leaf)

lemma kids_named_elements:
  "kids_named k (map (element_tree k live) els) = map (element_tree k live) els"
  by (induction els) (simp_all add: element_tree_def)

definition as_read :: "manifest_el \<Rightarrow> manifest_el" where
  "as_read e = e\<lparr>me_md5 := []\<rparr>"

lemma parse_element_tree:
  "parse_element kind (element_tree kind live el) = Inr (as_read (el\<lparr>me_kind := kind\<rparr>))"
  by (simp add: parse_element_def element_tree_def tags_tree_def text_field_def path_kids_def
      kids_named_append kids_named_opt_leaf kids_named_leaf kids_named_leaves last_or_def attr_field_def
      attr_values_def xml_checksum_def as_read_def comp_def)

lemma traverse_map: "(\<And>x. x \<in> set xs \<Longrightarrow> f (g x) = Inr (h x)) \<Longrightarrow> traverse f (map g xs) = Inr (map h xs)"
  by (induction xs) auto

definition of_kind :: "string \<Rightarrow> manifest_el list \<Rightarrow> manifest_el list" where
  "of_kind k els = map as_read (filter (\<lambda>e. me_kind e = k) els)"

lemma parse_group:
  "traverse (parse_element k) (map (element_tree k live) (filter (\<lambda>e. me_kind e = k) els)) = Inr (of_kind k els)"
  by (subst traverse_map [where h = as_read]) (auto simp: parse_element_tree of_kind_def as_read_def)

text \<open>What a bearer document keeps of a manifest.\<close>

definition carried :: "manifest \<Rightarrow> manifest" where
  "carried m = m\<lparr>mf_start := map_option whole_second (mf_start m), mf_duration := 0,
     mf_elements := of_kind ''track'' (mf_elements m) @ of_kind ''catalog'' (mf_elements m) @
       of_kind ''attachment'' (mf_elements m)\<rparr>"

lemma group_kids:
  "path_kids ''media'' ''track'' (xml_kids (bearer_tree m)) =
     map (element_tree ''track'' True) (filter (\<lambda>e. me_kind e = ''track'') (mf_elements m))"
  "path_kids ''metadata'' ''catalog'' (xml_kids (bearer_tree m)) =
     map (element_tree ''catalog'' False) (filter (\<lambda>e. me_kind e = ''catalog'') (mf_elements m))"
  "path_kids ''attachments'' ''attachment'' (xml_kids (bearer_tree m)) =
     map (element_tree ''attachment'' False) (filter (\<lambda>e. me_kind e = ''attachment'') (mf_elements m))"
  by (simp_all add: bearer_tree_def path_kids_def kids_named_append kids_named_opt_leaf group_tree_def kids_named_elements)

lemma root_attrs:
  "attr_field ''id'' (xml_attrs (bearer_tree m)) = mf_id m"
  "attr_field ''start'' (xml_attrs (bearer_tree m)) = (case mf_start m of None \<Rightarrow> [] | Some t \<Rightarrow> format_start t)"
  "attr_values ''duration'' (xml_attrs (bearer_tree m)) = []"
  by (auto simp: bearer_tree_def attr_field_def attr_values_def last_or_def split: option.split)

lemma root_title: "text_field ''title'' (xml_kids (bearer_tree m)) = mf_title m"
  by (auto simp: bearer_tree_def text_field_def kids_named_append kids_named_opt_leaf kids_named_leaf group_tree_def
      last_or_def)

lemma format_start_not_Nil: "format_start t \<noteq> []"
  by (simp add: format_start_def Let_def split: prod.split)

lemma parse_emitted:
  assumes m: "manifest_text m" and i: "mf_id m \<noteq> []"
    and start: "\<And>t. mf_start m = Some t \<Longrightarrow> rfc3339 T (format_start t) = Some (whole_second t)"
  shows "parse_manifest T (emit_bearer m) = Inr (carried m)"
proof -
  obtain as ks where tree: "bearer_tree m = Elem ''mediapackage'' as ks" by (simp add: bearer_tree_def)
  note facts = group_kids [of m] root_attrs [of m] root_title [of m]
  note facts' = facts [unfolded tree, simplified]
  have els: "parse_elements ks = Inr (mf_elements (carried m))"
    by (simp add: parse_elements_def facts' parse_group carried_def)
  have dur: "parse_duration as = Inr 0"
    by (simp add: parse_duration_def facts' last_or_def int_field_def)
  show ?thesis
  proof (cases "mf_start m")
    case None
    then show ?thesis
      using i by (simp add: parse_manifest_def root_bearer [OF m] tree manifest_of_root_def els dur facts' Let_def carried_def)
  next
    case (Some t)
    then show ?thesis
      using i start [OF Some] format_start_not_Nil
      by (simp add: parse_manifest_def root_bearer [OF m] tree manifest_of_root_def els dur facts' Let_def carried_def)
  qed
qed

end
