(* ===== verification/IngestProps.thy ===== *)
theory IngestProps
  imports Ingest BearerProps OpsProps
begin

text \<open>
  Lemmas of the deposit path: what a materialisation can change, that a completed one is a fixed
  point of itself, that it keeps the search projection in sync, and how staged bytes are found again.
\<close>

section \<open>A projection in sync is a fixed point\<close>

lemma update_same: "map_of xs k = Some v \<Longrightarrow> AList.update k v xs = xs"
  by (induction xs) (auto split: if_splits)

lemma delete_absent: "map_of xs k = None \<Longrightarrow> AList.delete k xs = xs"
  by (simp add: map_of_eq_None_iff)

lemma refresh_series_fix: "in_sync c \<Longrightarrow> refresh_series s c = c"
proof -
  assume "in_sync c"
  then have "map_of (c_ss c) s = derived_series c s" by (simp add: in_sync_def)
  then show ?thesis
    by (auto simp: refresh_series_def derived_series_def project_series_row_def update_same delete_absent
        split: option.splits if_splits)
qed

lemma project_event_fix: "in_sync c \<Longrightarrow> map_of (c_mp c) i = Some m \<Longrightarrow> project_event i c = Inr c"
proof -
  assume s: "in_sync c" and m: "map_of (c_mp c) i = Some m"
  then have "map_of (c_se c) i = derived_event c i" by (simp add: in_sync_def)
  then have "(if mp_deleted m \<noteq> None then c\<lparr>c_se := AList.delete i (c_se c)\<rparr> else project_event_row i c) = c"
    using m by (auto simp: derived_event_def project_event_row_def update_same delete_absent)
  then show ?thesis
    using m refresh_series_fix [OF s] by (auto simp: project_event_def Let_def split: option.split)
qed

section \<open>What a materialisation changes\<close>

definition grows :: "deposited \<Rightarrow> deposited \<Rightarrow> bool" where
  "grows s s' =
     (map_of (fst s) \<subseteq>\<^sub>m map_of (fst s') \<and> map_of (c_el (snd s)) \<subseteq>\<^sub>m map_of (c_el (snd s')) \<and>
      set (c_tag (snd s)) \<subseteq> set (c_tag (snd s')) \<and>
      (\<exists>x y. snd s' = (snd s)\<lparr>c_el := x, c_tag := y\<rparr>))"

lemma grows_refl [simp]: "grows s s"
proof -
  have "snd s = (snd s)\<lparr>c_el := c_el (snd s), c_tag := c_tag (snd s)\<rparr>" by simp
  then have "\<exists>x y. snd s = (snd s)\<lparr>c_el := x, c_tag := y\<rparr>" by blast
  then show ?thesis by (simp add: grows_def)
qed

lemma grows_frame:
  assumes "grows s s'"
  shows "c_mp (snd s') = c_mp (snd s)" "c_acl (snd s') = c_acl (snd s)" "c_md (snd s') = c_md (snd s)"
    "c_series (snd s') = c_series (snd s)" "c_pub (snd s') = c_pub (snd s)" "c_se (snd s') = c_se (snd s)"
    "c_ss (snd s') = c_ss (snd s)" "c_now (snd s') = c_now (snd s)"
  using assms by (auto simp: grows_def)

lemma grows_trans:
  assumes "grows s t" and "grows t u"
  shows "grows s u"
proof -
  obtain x y x' y' where "snd t = (snd s)\<lparr>c_el := x, c_tag := y\<rparr>" "snd u = (snd t)\<lparr>c_el := x', c_tag := y'\<rparr>"
    using assms unfolding grows_def by blast
  then have "snd u = (snd s)\<lparr>c_el := x', c_tag := y'\<rparr>" by simp
  moreover have "map_of (fst s) \<subseteq>\<^sub>m map_of (fst u)" "map_of (c_el (snd s)) \<subseteq>\<^sub>m map_of (c_el (snd u))"
    using assms unfolding grows_def by (blast intro: map_le_trans)+
  moreover have "set (c_tag (snd s)) \<subseteq> set (c_tag (snd u))" using assms unfolding grows_def by blast
  ultimately show ?thesis unfolding grows_def by blast
qed

lemma put_file_grows: "map_of st \<subseteq>\<^sub>m map_of (snd (put_file h b st))"
  by (auto simp: put_file_def cas_exists_def Let_def map_le_def map_add_def split: option.split)

lemma put_file_exists: "cas_exists (snd (put_file h b st)) (h b)"
  by (auto simp: put_file_def cas_exists_def Let_def map_add_def)

lemma put_file_present: "cas_exists st (h b) \<Longrightarrow> put_file h b st = (h b, st)"
  by (simp add: put_file_def Let_def)

lemma put_file_digest: "fst (put_file h b st) = h b"
  by (simp add: put_file_def Let_def)

lemma tags_added: "set (fold (\<lambda>t ts. insert_ignore (i, t) ts) tags xs) = set xs \<union> Pair i ` set tags"
  by (induction tags arbitrary: xs) (auto simp: insert_ignore_def)

lemma tags_present: "Pair i ` set tags \<subseteq> set xs \<Longrightarrow> fold (\<lambda>t ts. insert_ignore (i, t) ts) tags xs = xs"
  by (induction tags) (auto simp: insert_ignore_def)

lemma insert_element_grows:
  "insert_element i el tags True c = Inr c' \<Longrightarrow>
     grows (st, c) (st, c') \<and> map_of (c_el c') i \<noteq> None \<and> Pair i ` set tags \<subseteq> set (c_tag c')"
proof -
  assume "insert_element i el tags True c = Inr c'"
  then have c': "c' = c\<lparr>c_el := (if map_of (c_el c) i = None then c_el c @ [(i, el)] else c_el c),
      c_tag := fold (\<lambda>t ts. insert_ignore (i, t) ts) tags (c_tag c)\<rparr>"
    by (auto simp: insert_element_def split: if_splits)
  have "map_of (c_el c) \<subseteq>\<^sub>m map_of (c_el c')" "map_of (c_el c') i \<noteq> None"
    by (auto simp: c' map_le_def map_add_def split: option.split)
  moreover have "set (c_tag c') = set (c_tag c) \<union> Pair i ` set tags" by (simp add: c' tags_added)
  moreover have "\<exists>x y. c' = c\<lparr>c_el := x, c_tag := y\<rparr>" unfolding c' by blast
  ultimately show ?thesis by (auto simp: grows_def)
qed

text \<open>An element is settled when its bytes are stored and its row and tags are there.\<close>

definition settled :: "deposit_env \<Rightarrow> resolver \<Rightarrow> manifest_el \<Rightarrow> deposited \<Rightarrow> bool" where
  "settled E g el s =
     (\<exists>bytes i. g (fst s) (me_url el) = Some bytes \<and>
        (me_md5 el = [] \<or> de_md5 E bytes = me_md5 el) \<and> cas_exists (fst s) (de_sha256 E bytes) \<and>
        uuid_in E (me_id el) = Some i \<and> map_of (c_el (snd s)) i \<noteq> None \<and>
        Pair i ` set (me_tags el) \<subseteq> set (c_tag (snd s)))"

text \<open>A resolver keeps its answers while the store grows.\<close>

definition stable :: "resolver \<Rightarrow> bool" where
  "stable g = (\<forall>st st' url b. map_of st \<subseteq>\<^sub>m map_of st' \<longrightarrow> g st url = Some b \<longrightarrow> g st' url = Some b)"

lemma materialise_element_cases:
  assumes "materialise_element E g mp el s = (e, s')"
  obtains (early) "s' = s" "e \<noteq> None"
  | (stored_only) bytes where "g (fst s) (me_url el) = Some bytes" "e \<noteq> None"
      "s' = (snd (put_file (de_sha256 E) bytes (fst s)), snd s)"
  | (recorded) bytes i c' where "g (fst s) (me_url el) = Some bytes"
      "me_md5 el = [] \<or> de_md5 E bytes = me_md5 el" "uuid_in E (me_id el) = Some i" "e = None"
      "insert_element i (new_element mp el (de_sha256 E bytes) bytes (c_now (snd s))) (me_tags el) True (snd s) = Inr c'"
      "s' = (snd (put_file (de_sha256 E) bytes (fst s)), c')"
proof -
  obtain st c where s: "s = (st, c)" by (cases s)
  show thesis
  proof (cases "g st (me_url el)")
    case None
    then have "(e, s') = (Some (Unresolved (me_url el)), s)"
      unfolding assms [symmetric] by (simp add: materialise_element_def s)
    then show thesis using early by simp
  next
    case (Some bytes)
    let ?st = "snd (put_file (de_sha256 E) bytes st)"
    show thesis
    proof (cases "me_md5 el \<noteq> [] \<and> de_md5 E bytes \<noteq> me_md5 el")
      case True
      then have "(e, s') = (Some (ChecksumMismatch (me_id el)), s)"
        unfolding assms [symmetric] using Some by (simp add: materialise_element_def s)
      then show thesis using early by simp
    next
      case False
      have pf: "put_file (de_sha256 E) bytes st = (de_sha256 E bytes, ?st)"
        by (metis prod.collapse put_file_digest)
      have e: "(e, s') = (case uuid_in E (me_id el) of
            None \<Rightarrow> (Some (BadUuid (me_id el)), (?st, c))
          | Some i \<Rightarrow>
              (case insert_element i (new_element mp el (de_sha256 E bytes) bytes (c_now c)) (me_tags el) True c of
                 Inl x \<Rightarrow> (Some (DepositDb x), (?st, c))
               | Inr c' \<Rightarrow> (None, (?st, c'))))"
        unfolding assms [symmetric] materialise_element_def s prod.case Some option.case if_not_P [OF False]
        by (subst pf) (rule prod.case)
      show thesis
      proof (cases "uuid_in E (me_id el)")
        case None
        then show thesis using e stored_only [of bytes] Some by (simp add: s)
      next
        case u: (Some i)
        show thesis
        proof (cases "insert_element i (new_element mp el (de_sha256 E bytes) bytes (c_now c)) (me_tags el) True c")
          case (Inl x)
          then show thesis using e u stored_only [of bytes] Some by (simp add: s)
        next
          case (Inr c')
          then show thesis using e u recorded [of bytes i c'] Some False by (simp add: s)
        qed
      qed
    qed
  qed
qed

lemma materialise_element_grows:
  assumes "materialise_element E g mp el s = (e, s')"
  shows "grows s s'"
  using assms
proof (cases rule: materialise_element_cases)
  case early
  then show ?thesis by simp
next
  case (stored_only bytes)
  then show ?thesis using put_file_grows [of "fst s" "de_sha256 E" bytes] grows_refl [of s] unfolding grows_def by simp
next
  case (recorded bytes i c')
  then show ?thesis
    using put_file_grows [of "fst s" "de_sha256 E" bytes] insert_element_grows [OF recorded(5), of "fst s"]
    by (simp add: grows_def)
qed

lemma materialise_element_settles:
  assumes "materialise_element E g mp el s = (None, s')" and "stable g"
  shows "settled E g el s'"
  using assms(1)
proof (cases rule: materialise_element_cases)
  case (recorded bytes i c')
  have "g (fst s') (me_url el) = Some bytes"
    using assms(2) recorded(1,6) put_file_grows [of "fst s" "de_sha256 E" bytes] by (auto simp: stable_def)
  then show ?thesis
    using recorded insert_element_grows [OF recorded(5), of "fst s"] put_file_exists [of "de_sha256 E" bytes "fst s"]
    by (auto simp: settled_def)
qed simp_all

lemma settled_grows:
  assumes "settled E g el s" and "grows s s'" and "stable g"
  shows "settled E g el s'"
proof -
  obtain bytes i where s: "g (fst s) (me_url el) = Some bytes" "me_md5 el = [] \<or> de_md5 E bytes = me_md5 el"
      "cas_exists (fst s) (de_sha256 E bytes)" "uuid_in E (me_id el) = Some i" "map_of (c_el (snd s)) i \<noteq> None"
      "Pair i ` set (me_tags el) \<subseteq> set (c_tag (snd s))"
    using assms(1) unfolding settled_def by blast
  have "g (fst s') (me_url el) = Some bytes" "cas_exists (fst s') (de_sha256 E bytes)"
      "map_of (c_el (snd s')) i \<noteq> None" "Pair i ` set (me_tags el) \<subseteq> set (c_tag (snd s'))"
    using s assms(2,3) by (auto simp: grows_def stable_def cas_exists_def map_le_def dom_def)
  then show ?thesis using s unfolding settled_def by blast
qed

lemma settled_fix: "settled E g el s \<Longrightarrow> materialise_element E g mp el s = (None, s)"
proof -
  assume "settled E g el s"
  then obtain bytes i where s: "g (fst s) (me_url el) = Some bytes" "me_md5 el = [] \<or> de_md5 E bytes = me_md5 el"
      "cas_exists (fst s) (de_sha256 E bytes)" "uuid_in E (me_id el) = Some i" "map_of (c_el (snd s)) i \<noteq> None"
      "Pair i ` set (me_tags el) \<subseteq> set (c_tag (snd s))"
    unfolding settled_def by blast
  have "insert_element i r (me_tags el) True (snd s) = Inr (snd s)" for r
    using s(5,6) by (simp add: insert_element_def tags_present)
  then show ?thesis
    using s by (cases s) (auto simp: materialise_element_def put_file_present)
qed

lemma materialise_elements_grows: "materialise_elements E g mp els s = (e, s') \<Longrightarrow> grows s s'"
proof (induction els arbitrary: s)
  case (Cons el els)
  obtain e1 s1 where 1: "materialise_element E g mp el s = (e1, s1)" by (cases "materialise_element E g mp el s") auto
  show ?case
    using Cons.prems Cons.IH [of s1] 1 materialise_element_grows [OF 1]
    by (simp split: option.splits) (metis grows_trans)
qed simp

lemma materialise_elements_settle:
  "materialise_elements E g mp els s = (None, s') \<Longrightarrow> stable g \<Longrightarrow> \<forall>el \<in> set els. settled E g el s'"
proof (induction els arbitrary: s)
  case (Cons el els)
  then obtain s1 where 1: "materialise_element E g mp el s = (None, s1)"
      and 2: "materialise_elements E g mp els s1 = (None, s')"
    by (auto split: prod.splits option.splits)
  show ?case
    using Cons.IH [OF 2 Cons.prems(2)] materialise_element_settles [OF 1 Cons.prems(2)]
      settled_grows [OF _ materialise_elements_grows [OF 2] Cons.prems(2)] by auto
qed simp

lemma settled_elements_fix:
  "\<forall>el \<in> set els. settled E g el s \<Longrightarrow> materialise_elements E g mp els s = (None, s)"
  by (induction els) (auto simp: settled_fix)

section \<open>The projection\<close>

lemma grows_sync: "grows s s' \<Longrightarrow> in_sync (snd s) \<Longrightarrow> in_sync (snd s')"
  by (erule frame_sync) (simp_all add: grows_frame)

lemma materialise_cases:
  assumes "materialise E g m s = (e, s')"
  obtains (early) "s' = s" "e \<noteq> None"
  | (row) mp c where "mf_id m \<noteq> []" "uuid_in E (mf_id m) = Some mp"
      "materialise_row mp (mf_title m) (mf_start m) (mf_duration m) (snd s) = Inr c"
      "materialise_elements E g mp (mf_elements m) (fst s, c) = (e, s')"
  using assms row by (auto simp: materialise_def split: if_splits option.splits sum.splits intro: early)

lemma materialise_sync:
  assumes "materialise E g m s = (e, s')" and "in_sync (snd s)"
  shows "in_sync (snd s')"
  using assms(1)
proof (cases rule: materialise_cases)
  case early
  then show ?thesis using assms(2) by simp
next
  case (row mp c)
  then show ?thesis
    using grows_sync [OF materialise_elements_grows [OF row(4)]] materialise_row_sync [OF row(3) assms(2)] by simp
qed

lemma materialise_row_known: "materialise_row mp t st d c = Inr c' \<Longrightarrow> map_of (c_mp c') mp \<noteq> None"
  by (auto simp: materialise_row_def map_add_def dest!: project_event_known project_event_frame(2) split: if_splits option.splits)

lemma materialise_again:
  assumes run: "materialise E g m s = (None, s')" and g: "stable g" and sync: "in_sync (snd s)"
  shows "materialise E g m s' = (None, s')"
  using run
proof (cases rule: materialise_cases)
  case (row mp c)
  have grow: "grows (fst s, c) s'" by (rule materialise_elements_grows [OF row(4)])
  have "c_mp (snd s') = c_mp c" using grows_frame(1) [OF grow] by simp
  then obtain r where r: "map_of (c_mp (snd s')) mp = Some r"
    using materialise_row_known [OF row(3)] by auto
  have "materialise_row mp (mf_title m) (mf_start m) (mf_duration m) (snd s') = Inr (snd s')"
    using project_event_fix [OF materialise_sync [OF run sync] r] r by (simp add: materialise_row_def)
  then show ?thesis
    using row settled_elements_fix [OF materialise_elements_settle [OF row(4) g]] by (simp add: materialise_def)
qed simp

end
