(* ===== verification/IngestClaims.thy ===== *)
theory IngestClaims
  imports IngestProps
begin

text \<open>
  What the deposit path promises: the bearer document is a faithful and stable carrier of the staging
  state, a track request reads nothing after its file, a completed materialisation can be repeated
  without effect, every request leaves the search projection in sync, and a whole deposit session ends
  with the media stored and a workflow running.
\<close>

section \<open>The bearer document\<close>

lemma ascii_xml_text: "list_all (\<lambda>c. byte_val c < 128 \<and> xml_rune (byte_val c)) s \<Longrightarrow> xml_text s"
  using runes_ascii [of s] by (auto simp: xml_text_def list_all_iff)

lemma whole_second_idem [simp]: "whole_second (whole_second t) = whole_second t"
  by (simp add: whole_second_def nanos_per_second_def minus_mod_eq_mult_div)

lemma whole_second_div: "whole_second t div nanos_per_second = t div nanos_per_second"
  by (simp add: whole_second_def nanos_per_second_def minus_mod_eq_mult_div)

lemma format_whole_second [simp]: "format_start (whole_second t) = format_start t"
  by (simp add: format_start_def whole_second_div)

lemma filter_of_kind: "filter (\<lambda>e. me_kind e = k) (of_kind j els) = (if k = j then of_kind j els else [])"
  by (auto simp: of_kind_def filter_map comp_def as_read_def filter_empty_conv intro!: filter_cong [THEN trans])

lemma of_kind_idem: "map as_read (of_kind k els) = of_kind k els"
  by (simp add: of_kind_def as_read_def comp_def)

lemma carried_idem: "carried (carried m) = carried m"
  by (cases "mf_start m") (simp_all add: carried_def of_kind_def [of _ "_ @ _"] filter_of_kind of_kind_idem)

lemma emit_as_read: "emit_element k live (as_read e) = emit_element k live e"
  by (simp add: emit_element_def as_read_def)

lemma emit_of_kind:
  "emit_group w k (of_kind ''track'' els @ of_kind ''catalog'' els @ of_kind ''attachment'' els) live =
     emit_group w k els live" if "k \<in> {''track'', ''catalog'', ''attachment''}"
proof -
  have "filter (\<lambda>e. me_kind e = k) (of_kind ''track'' els @ of_kind ''catalog'' els @ of_kind ''attachment'' els) =
      of_kind k els"
    using that by (auto simp: filter_of_kind)
  then show ?thesis
    by (simp add: emit_group_def of_kind_def comp_def emit_as_read)
qed

text \<open>C28: the bearer document carries the staging state between calls: parsing what the emitter wrote gives
  the manifest back (elements grouped by kind, the start in whole seconds, durations and checksums not
  carried), and emitting that again writes the same bytes, so a client can round-trip it any number
  of times. It holds for every manifest whose texts XML can carry, whatever characters need escaping.\<close>

theorem bearer_round_trip:
  assumes "manifest_text m" and "mf_id m \<noteq> []"
    and "\<And>t. mf_start m = Some t \<Longrightarrow> rfc3339 T (format_start t) = Some (whole_second t)"
  shows "parse_manifest T (emit_bearer m) = Inr (carried m) \<and> carried (carried m) = carried m \<and>
    emit_bearer (carried m) = emit_bearer m"
proof -
  have "emit_bearer (carried m) = emit_bearer m"
    by (cases "mf_start m") (simp_all add: emit_bearer_def carried_def emit_of_kind)
  then show ?thesis using parse_emitted [OF assms] carried_idem by simp
qed

definition demo_texts :: text_env where
  "demo_texts = \<lparr>uname = (\<lambda>n. False), rfc3339 = (\<lambda>s. if s = format_start 0 then Some 0 else None),
     w3c_minute = (\<lambda>s. None)\<rparr>"

definition demo_bearer :: manifest where
  "demo_bearer = \<lparr>mf_id = ''m1'', mf_title = ''A & <B>'', mf_start = Some 5, mf_duration = 9, mf_elements =
     [\<lparr>me_id = ''c'', me_kind = ''catalog'', me_flavor = ''dublincore/episode'', me_mimetype = ''text/xml'',
       me_url = ''u'', me_md5 = ''x'', me_tags = []\<rparr>,
      \<lparr>me_id = ''t'', me_kind = ''track'', me_flavor = ''p/s'', me_mimetype = [], me_url = ''v'', me_md5 = [],
       me_tags = [''archive'']\<rparr>]\<rparr>"

lemma demo_bearer_text: "manifest_text demo_bearer"
  by (simp add: demo_bearer_def manifest_text_def element_text_def ascii_xml_text byte_val_def xml_rune_def)

lemma whole_second_5: "whole_second 5 = 0" "format_start 5 = format_start 0"
  by (simp_all add: whole_second_def nanos_per_second_def format_start_def)

theorem bearer_round_trip_witness:
  "parse_manifest demo_texts (emit_bearer demo_bearer) = Inr (carried demo_bearer) \<and>
    carried (carried demo_bearer) = carried demo_bearer \<and> emit_bearer (carried demo_bearer) = emit_bearer demo_bearer"
  by (rule bearer_round_trip [OF demo_bearer_text])
     (simp_all add: demo_bearer_def demo_texts_def whole_second_5)

section \<open>Fields before the file\<close>

definition is_field :: "part \<Rightarrow> bool" where
  "is_field p = (pt_filename p = [])"

fun gather :: "form \<Rightarrow> part list \<Rightarrow> form" where
  "gather f [] = f"
| "gather f (p # ps) = gather (f(pt_name p \<mapsto> take field_limit (pt_body p))) ps"

lemma add_track_gather:
  "list_all is_field ps \<Longrightarrow>
     add_track_parts E u host f (ps @ qs) st = add_track_parts E u host (gather f ps) qs st"
  by (induction ps arbitrary: f) (simp_all add: is_field_def)

definition track_of :: "deposit_env \<Rightarrow> string \<Rightarrow> string \<Rightarrow> string \<Rightarrow> part \<Rightarrow> manifest_el" where
  "track_of E u host flavor p =
     \<lparr>me_id = u, me_kind = ''track'', me_flavor = flavor,
      me_mimetype = (if pt_type p = [] then ''application/octet-stream'' else pt_type p),
      me_url = staged_url host (de_sha256 E (pt_body p)) (track_filename (pt_filename p)), me_md5 = [], me_tags = []\<rparr>"

text \<open>AddTrack reads a multipart body strictly in wire order: what follows the first file part plays no
  role, of each field before it the last value counts, and a body without a file part is answered 400. When
  the bearer or the flavor has not arrived before the file, or the bearer does not parse, the answer is 400
  and nothing is stored; otherwise exactly the file's bytes are stored under their digest and the answer is
  the bearer extended by one track that refers to them.\<close>

theorem track_fields_before_file:
  assumes "list_all is_field ps" and "\<not> is_field p"
  shows "add_track E u host (Some ps) st = (Refusal 400, st) \<and>
    add_track E u host (Some (ps @ p # later)) st =
      (let f = gather Map.empty ps; flavor = go_get f ''flavor''
       in if go_get f ''mediaPackage'' = [] \<or> flavor = [] then (Refusal 400, st)
          else case parse_manifest (de_text E) (go_get f ''mediaPackage'') of
            Inl e \<Rightarrow> (Refusal 400, st)
          | Inr m \<Rightarrow> (Reply (emit_bearer (add_element (track_of E u host flavor p) m)),
                     snd (put_file (de_sha256 E) (pt_body p) st)))"
proof
  note g = add_track_gather [OF assms(1), of E u host Map.empty _ st]
  show "add_track E u host (Some ps) st = (Refusal 400, st)"
    using g [of "[]"] by (simp add: add_track_def)
  show "add_track E u host (Some (ps @ p # later)) st =
      (let f = gather Map.empty ps; flavor = go_get f ''flavor''
       in if go_get f ''mediaPackage'' = [] \<or> flavor = [] then (Refusal 400, st)
          else case parse_manifest (de_text E) (go_get f ''mediaPackage'') of
            Inl e \<Rightarrow> (Refusal 400, st)
          | Inr m \<Rightarrow> (Reply (emit_bearer (add_element (track_of E u host flavor p) m)),
                     snd (put_file (de_sha256 E) (pt_body p) st)))"
    using assms(2)
    by (cases "parse_manifest (de_text E) (go_get (gather Map.empty ps) ''mediaPackage'')")
       (simp_all add: add_track_def g is_field_def add_track_file_def stash_upload_def track_of_def Let_def
          case_prod_beta put_file_digest)
qed

definition demo_deposit_env :: deposit_env where
  "demo_deposit_env = \<lparr>de_text = demo_texts, de_sha256 = (\<lambda>b. ''s'' @ b), de_md5 = (\<lambda>b. b), uuid_in = Some\<rparr>"

definition demo_part :: "string \<Rightarrow> string \<Rightarrow> string \<Rightarrow> part" where
  "demo_part n f b = \<lparr>pt_name = n, pt_filename = f, pt_type = [], pt_body = b\<rparr>"

section \<open>Materialising again\<close>

lemma resolve_staged_stable: "stable resolve_staged"
  by (auto simp: stable_def resolve_staged_def cas_get_def map_le_def dom_def split: option.splits)

lemma fixed_resolver_stable: "stable (\<lambda>st url. f url)"
  by (simp add: stable_def)

text \<open>C29: a materialisation that succeeded is settled: repeating it, through either front end (staged bytes or
  a loader's own resolver), succeeds and changes neither the object store nor any table, the search
  listing included. Only the workflow that /ingest/ingest starts is started again.\<close>

theorem materialise_settles:
  assumes "materialise E g m s = (None, s')" and "g = resolve_staged \<or> (\<exists>f. g = (\<lambda>st. f))" and "in_sync (snd s)"
  shows "materialise E g m s' = (None, s') \<and> in_sync (snd s')"
  using materialise_again [OF assms(1) _ assms(3)] materialise_sync [OF assms(1,3)] assms(2)
    resolve_staged_stable fixed_resolver_stable by (auto simp: stable_def)

definition demo_media_el :: manifest_el where
  "demo_media_el = \<lparr>me_id = ''t'', me_kind = ''track'', me_flavor = ''p/s'', me_mimetype = [], me_url = ''v'',
     me_md5 = ''raw'', me_tags = [''archive'']\<rparr>"

definition demo_media_mp :: manifest where
  "demo_media_mp = \<lparr>mf_id = ''m1'', mf_title = ''T'', mf_start = None, mf_duration = 0, mf_elements = [demo_media_el]\<rparr>"

lemma demo_materialised:
  "\<exists>s'. materialise demo_deposit_env (\<lambda>st url. Some ''raw'') demo_media_mp ([], empty_catalog 7) = (None, s') \<and>
     length (c_el (snd s')) = 1"
  by (simp add: materialise_def demo_media_mp_def demo_deposit_env_def materialise_row_def empty_catalog_def
      project_event_def project_event_row_def demo_media_el_def materialise_element_def put_file_def cas_exists_def
      insert_element_def insert_ignore_def new_element_def Let_def)

theorem materialise_settles_witness:
  "\<exists>s'. materialise demo_deposit_env (\<lambda>st url. Some ''raw'') demo_media_mp s' = (None, s') \<and> in_sync (snd s') \<and>
     length (c_el (snd s')) = 1"
proof -
  obtain s' where s': "materialise demo_deposit_env (\<lambda>st url. Some ''raw'') demo_media_mp ([], empty_catalog 7) = (None, s')"
      "length (c_el (snd s')) = 1"
    using demo_materialised by blast
  show ?thesis
    using materialise_settles [OF s'(1)] empty_in_sync [of 7] s'(2) by (intro exI [of _ s']) auto
qed

text \<open>The element's id alone is the conflict target: an id that is taken by another mediapackage's element
  makes the deposit succeed without the element, and its tags are written on the other one.\<close>

theorem foreign_element_id:
  assumes "g st (me_url el) = Some bytes" and "me_md5 el = []" and "uuid_in E (me_id el) = Some i"
    and "map_of (c_el c) i = Some r" and "el_mp r \<noteq> mp" and "t \<in> set (me_tags el)"
  shows "\<exists>s'. materialise_element E g mp el (st, c) = (None, s') \<and> c_el (snd s') = c_el c \<and>
    (i, t) \<in> set (c_tag (snd s'))"
  using assms
  by (auto simp: materialise_element_def insert_element_def tags_added put_file_digest case_prod_beta)

section \<open>Every request\<close>

lemma ingest_sync:
  "in_sync (wd_cat (db_data (ds_db s))) \<Longrightarrow> in_sync (wd_cat (db_data (ds_db (snd (ingest E src wd form s)))))"
proof -
  assume sync: "in_sync (wd_cat (db_data (ds_db s)))"
  have dep: "in_sync (wd_cat (db_data (ds_db (on_deposit s d))))"
    if "materialise E resolve_staged m (deposited_of s) = (e, d)" for m e d
    using materialise_sync [OF that] sync by (simp add: on_deposit_def deposited_of_def)
  have wf: "wd_cat (db_data (ds_db (snd (start_workflow E w ops i s')))) = wd_cat (db_data (ds_db s'))" for w ops i s'
    by (auto simp: start_workflow_def create_workflow_def split: option.split)
  show ?thesis
    using sync by (auto simp: ingest_def Let_def wf dep split: option.split sum.split prod.split)
qed

lemma route_sync:
  "in_sync (wd_cat (db_data (ds_db s))) \<Longrightarrow> in_sync (wd_cat (db_data (ds_db (snd (route E src u now r s)))))"
  using ingest_sync [of s E src] by (simp add: route_def Let_def case_prod_beta)

text \<open>Whatever sequence of requests arrives at /ingest, the search listings stay what a rebuild would
  derive; a caller who is not a service is answered 403 and changes nothing; and only /ingest/ingest
  writes to the database, the other endpoints at most add an object to the store.\<close>

theorem deposits_keep_projection:
  assumes "in_sync (wd_cat (db_data (ds_db s)))"
    and "serve_ingest P cfg e E src u now r v s = (a, v', s')"
  shows "in_sync (wd_cat (db_data (ds_db s'))) \<and>
    (\<not> fst (service P cfg e (hd_auth r) v) \<longrightarrow> a = Refusal 403 \<and> s' = s) \<and>
    (hd_method r \<noteq> ''POST'' \<or> \<not> has_prefix (hd_path r) ''/ingest/ingest'' \<longrightarrow> ds_db s' = ds_db s)"
proof (cases "fst (service P cfg e (hd_auth r) v)")
  case False
  then show ?thesis using assms by (auto simp: serve_ingest_def split: prod.splits bool.splits)
next
  case True
  then have s': "s' = snd (route E src u now r s)"
    using assms(2) by (auto simp: serve_ingest_def split: prod.splits bool.splits)
  have pre: "has_prefix (hd_path r) ''/ingest/ingest''"
    if "has_prefix (trim_suffix (hd_path r) ''/'') ''/ingest/ingest''"
  proof -
    note w = that
    obtain t where "trim_suffix (hd_path r) ''/'' = ''/ingest/ingest'' @ t" using w unfolding has_prefix_iff by blast
    moreover have "\<exists>w. hd_path r = trim_suffix (hd_path r) ''/'' @ w"
      by (auto simp: trim_suffix_def) (metis append_take_drop_id)
    ultimately show ?thesis by (metis append.assoc has_prefix_append)
  qed
  have "ds_db s' = ds_db s" if "hd_method r \<noteq> ''POST'' \<or> \<not> has_prefix (hd_path r) ''/ingest/ingest''"
  proof -
    have no: "\<not> (hd_method r = ''POST'' \<and> trim_suffix (hd_path r) ''/'' = ''/ingest/ingest'')"
      "\<not> (hd_method r = ''POST'' \<and> has_prefix (trim_suffix (hd_path r) ''/'') ''/ingest/ingest/'')"
      using that pre by (auto simp: has_prefix_iff)
    show ?thesis using no by (auto simp: s' route_def Let_def case_prod_beta simp del: has_prefix.simps)
  qed
  then show ?thesis using True route_sync [OF assms(1)] by (simp add: s')
qed

definition demo_deposit_auth :: auth_config where
  "demo_deposit_auth = \<lparr>ac_oidc = None, ac_service_roles = [], ac_dev_seam = True,
     ac_service_users = [(''agent'', ''pw'')], ac_session = None\<rparr>"

definition demo_deposit_request :: http_deposit where
  "demo_deposit_request = \<lparr>hd_method = ''GET'', hd_path = ''/ingest/createMediaPackage'', hd_host = ''h'',
     hd_auth = \<lparr>ha_authorization = [], ha_cookie = None, ha_x_roles = [], ha_basic = Some (''agent'', ''pw'')\<rparr>,
     hd_form = None, hd_parts = None\<rparr>"

definition demo_deposit_state :: "int deposit_state" where
  "demo_deposit_state = \<lparr>ds_store = [], ds_db = \<lparr>workflows = [], tasks = [], next_wf = 1, next_task = 1, clock = 0,
     db_data = \<lparr>wd_cat = empty_catalog 7, wd_tech = []\<rparr>\<rparr>\<rparr>"

section \<open>A whole session\<close>

lemma staged_here_slash: "staged_here s \<Longrightarrow> has_prefix s ''/ingest/staged/''"
  by (simp add: staged_here_def)

lemma staged_sha_skip: "CHR ''/'' \<notin> set a \<Longrightarrow> staged_sha (a @ s) = staged_sha s"
proof (induction a)
  case (Cons c a)
  then have "\<not> staged_here (c # a @ s)" using staged_here_slash [of "c # a @ s"] by auto
  then show ?case using Cons by simp
qed simp

lemma has_prefix_segment:
  "CHR ''/'' \<notin> set h \<Longrightarrow> CHR ''/'' \<notin> set p \<Longrightarrow>
     has_prefix (h @ CHR ''/'' # r) (p @ CHR ''/'' # q) \<Longrightarrow> has_prefix r q"
proof (induction h arbitrary: p)
  case Nil
  then show ?case by (cases p) auto
next
  case (Cons c h)
  then show ?case by (cases p) auto
qed

text \<open>A staged url leads back to its digest, for every host without a slash.\<close>

lemma staged_sha_url:
  assumes h: "CHR ''/'' \<notin> set host" and sha: "length sha = 64" "list_all lower_hex sha"
  shows "staged_sha (staged_url host sha filename) = Some sha"
proof -
  let ?tail = "''/ingest/staged/'' @ sha @ ''/'' @ filename"
  have "\<not> has_prefix (CHR ''/'' # host @ ?tail) ''/ingest/staged/''"
    using has_prefix_segment [OF h, of "''ingest''" "''ingest/staged/'' @ sha @ ''/'' @ filename" "''staged/''"] by auto
  then have 2: "\<not> staged_here (CHR ''/'' # host @ ?tail)" using staged_here_slash by blast
  have 1: "\<not> staged_here (CHR ''/'' # CHR ''/'' # host @ ?tail)"
    using staged_here_slash [of "CHR ''/'' # CHR ''/'' # host @ ?tail"] by auto
  have here: "staged_here ?tail" using sha by (simp add: staged_here_def)
  have "staged_sha (staged_url host sha filename) =
      staged_sha (''http:'' @ (CHR ''/'' # CHR ''/'' # host @ ?tail))"
    by (simp add: staged_url_def)
  also have "\<dots> = staged_sha (CHR ''/'' # CHR ''/'' # host @ ?tail)"
    by (rule staged_sha_skip) simp
  also have "\<dots> = staged_sha (host @ ?tail)"
    using 1 2 by (simp only: staged_sha.simps if_False)
  also have "\<dots> = staged_sha ?tail" by (rule staged_sha_skip [OF h])
  also have "\<dots> = Some sha" using here sha by simp
  finally show ?thesis .
qed

lemma decode_rune_append:
  assumes "fst (decode_rune a s) \<noteq> None"
  shows "decode_rune a (s @ t) = decode_rune a s"
proof (cases s)
  case Nil
  then show ?thesis using assms by (simp add: decode_rune_def Let_def split: if_splits)
next
  case b: (Cons b s2)
  show ?thesis
  proof (cases s2)
    case Nil
    then show ?thesis using assms b by (simp add: decode_rune_def Let_def split: if_splits)
  next
    case c: (Cons c s3)
    show ?thesis
    proof (cases s3)
      case Nil
      then show ?thesis using assms b c by (simp add: decode_rune_def Let_def split: if_splits) (auto split: list.split)
    next
      case (Cons d s4)
      then show ?thesis using b c by (simp only: decode_rune_def Let_def append_Cons list.case)
    qed
  qed
qed

lemma runes_append: "xml_text a \<Longrightarrow> runes (a @ b) = runes a @ runes b"
proof (induction a rule: runes.induct)
  case (2 x s)
  then have some: "fst (decode_rune x s) \<noteq> None" and rest: "xml_text (drop (snd (decode_rune x s) - 1) s)"
    by (auto simp: xml_text_def split: option.splits)
  then show ?case
    using 2(1) decode_rune_append [OF some, of b] decode_rune_width [of x s]
    by (cases "snd (decode_rune x s)") auto
qed simp

lemma xml_text_append: "xml_text a \<Longrightarrow> xml_text b \<Longrightarrow> xml_text (a @ b)"
  using runes_append [of a b] by (simp add: xml_text_def)
lemma plain_staged:
  assumes "plain_text host" and "list_all lower_hex sha"
  shows "xml_text (''http://'' @ host @ ''/ingest/staged/'' @ sha @ ''/'')"
proof -
  have sha: "xml_text sha"
    using assms(2) by (intro ascii_xml_text) (auto simp: list_all_iff lower_hex_def xml_rune_def Let_def)
  have lits: "xml_text ''http://''" "xml_text ''/ingest/staged/''" "xml_text ''/''"
    by (rule ascii_xml_text, simp add: byte_val_def xml_rune_def)+
  show ?thesis
    by (intro xml_text_append lits sha plain_text_esc(2) assms(1))
qed

text \<open>The client of the captures: it passes each reply on as the next request's bearer.\<close>

definition deposit_session ::
  "deposit_env \<Rightarrow> definition_source option \<Rightarrow> string \<Rightarrow> string \<Rightarrow> string \<times> string \<times> string \<Rightarrow> int \<Rightarrow> string
     \<Rightarrow> string \<Rightarrow> part \<Rightarrow> 'f deposit_state \<Rightarrow> reply \<times> 'f deposit_state" where
  "deposit_session E src host wd ids now dc flavor p s =
     (case ids of (mp, u1, u2) \<Rightarrow>
       (case create_media_package mp now of
          Refusal n \<Rightarrow> (Refusal n, s)
        | Reply b1 \<Rightarrow>
            (case add_dc_catalog E u1 host (Some [''mediaPackage'' \<mapsto> b1, ''dublinCore'' \<mapsto> dc,
                 ''flavor'' \<mapsto> ''dublincore/episode'']) (ds_store s) of
               (Refusal n, st) \<Rightarrow> (Refusal n, s\<lparr>ds_store := st\<rparr>)
             | (Reply b2, st1) \<Rightarrow>
                 (case add_track E u2 host (Some [\<lparr>pt_name = ''mediaPackage'', pt_filename = [], pt_type = [], pt_body = b2\<rparr>,
                      \<lparr>pt_name = ''flavor'', pt_filename = [], pt_type = [], pt_body = flavor\<rparr>, p]) st1 of
                    (Refusal n, st) \<Rightarrow> (Refusal n, s\<lparr>ds_store := st\<rparr>)
                  | (Reply b3, st2) \<Rightarrow>
                      ingest E src wd (Some [''mediaPackage'' \<mapsto> b3]) (s\<lparr>ds_store := st2\<rparr>)))))"

definition first_manifest :: "string \<Rightarrow> int \<Rightarrow> manifest" where
  "first_manifest mp now = \<lparr>mf_id = mp, mf_title = [], mf_start = Some (whole_second now), mf_duration = 0, mf_elements = []\<rparr>"

definition episode_of :: "deposit_env \<Rightarrow> string \<Rightarrow> string \<Rightarrow> string \<Rightarrow> manifest_el" where
  "episode_of E u host dc =
     \<lparr>me_id = u, me_kind = ''catalog'', me_flavor = ''dublincore/episode'', me_mimetype = ''text/xml'',
      me_url = staged_url host (de_sha256 E dc) ''dublincore.xml'', me_md5 = [], me_tags = []\<rparr>"

text \<open>The contents a store holds under its own digests, with no collision among them.\<close>

definition clean_store :: "deposit_env \<Rightarrow> objects \<Rightarrow> string set \<Rightarrow> bool" where
  "clean_store E st B =
     (\<forall>b \<in> B. length (de_sha256 E b) = 64 \<and> list_all lower_hex (de_sha256 E b) \<and>
        (\<forall>x. cas_get st (de_sha256 E b) = Some x \<longrightarrow> x = b) \<and>
        (\<forall>b' \<in> B. de_sha256 E b = de_sha256 E b' \<longrightarrow> b = b'))"

lemma clean_put:
  assumes "clean_store E st B" and "b \<in> B"
  shows "clean_store E (snd (put_file (de_sha256 E) b st)) B"
    and "cas_get (snd (put_file (de_sha256 E) b st)) (de_sha256 E b) = Some b"
proof -
  have hex: "CHR ''/'' \<notin> set (de_sha256 E x)" if "x \<in> B" for x
    using assms(1) that by (force simp: clean_store_def list_all_iff lower_hex_def byte_val_def Let_def)
  show g: "cas_get (snd (put_file (de_sha256 E) b st)) (de_sha256 E b) = Some b"
    using assms by (auto simp: put_file_def Let_def cas_exists_def cas_get_def clean_store_def map_add_def)
  have "cas_get (snd (put_file (de_sha256 E) b st)) (de_sha256 E x) =
      (if de_sha256 E x = de_sha256 E b then Some b else cas_get st (de_sha256 E x))" if "x \<in> B" for x
    using g object_key_inject [OF hex [OF that] hex [OF assms(2)]]
    by (auto simp: put_file_def Let_def cas_get_def map_add_def split: option.split)
  then show "clean_store E (snd (put_file (de_sha256 E) b st)) B"
    using assms unfolding clean_store_def by (metis (no_types, lifting) option.inject)
qed

lemma put_keeps: "cas_get st h = Some b \<Longrightarrow> cas_get (snd (put_file f x st)) h = Some b"
  using put_file_grows [of st f x] by (auto simp: cas_get_def map_le_def dom_def)

lemma materialise_fresh_element:
  assumes "g st (me_url el) = Some bytes" and "me_md5 el = []" and "me_tags el = []"
    and "uuid_in E (me_id el) = Some i" and "map_of (c_el c) i = None" and "map_of (c_mp c) mp \<noteq> None"
  shows "materialise_element E g mp el (st, c) = (None, (snd (put_file (de_sha256 E) bytes st),
    c\<lparr>c_el := c_el c @ [(i, new_element mp el (de_sha256 E bytes) bytes (c_now c))]\<rparr>))"
  using assms by (auto simp: materialise_element_def insert_element_def case_prod_beta put_file_digest new_element_def)

lemma materialise_fresh_row:
  assumes "map_of (c_mp c) mp = None"
  shows "\<exists>se. materialise_row mp title start 0 c = Inr (c\<lparr>c_mp := c_mp c @ [(mp, \<lparr>mp_title = null_if_empty title,
     mp_start = start, mp_duration = None, mp_series = None, mp_deleted = None\<rparr>)], c_se := se\<rparr>)"
  using assms by (auto simp: materialise_row_def project_event_def project_event_row_def map_add_def Let_def)

lemma carried_manifests:
  "carried (first_manifest mp now) = first_manifest mp now"
  "carried (add_element (episode_of E u host dc) (first_manifest mp now)) =
     add_element (episode_of E u host dc) (first_manifest mp now)"
  "mf_elements (carried (add_element (track_of E v host fl p) (add_element (episode_of E u host dc) (first_manifest mp now)))) =
     [track_of E v host fl p, episode_of E u host dc]"
  by (simp_all add: carried_def first_manifest_def of_kind_def as_read_def add_element_def episode_of_def track_of_def)

lemma derive_first:
  "find episode_dc [track_of E v host fl p, episode_of E u host dc] = Some (episode_of E u host dc)"
  by (simp add: episode_dc_def track_of_def episode_of_def)

text \<open>The three bearers of a session parse to what their emitter meant.\<close>

lemma session_bearers:
  fixes mp now u1 u2 host dc flavor p E
  defines "m1 \<equiv> first_manifest mp now"
  defines "m2 \<equiv> add_element (episode_of E u1 host dc) m1"
  defines "m3 \<equiv> add_element (track_of E u2 host flavor p) m2"
  assumes "mp \<noteq> []" and "xml_text mp" and "xml_text u1" and "xml_text u2" and "plain_text host"
    and "xml_text flavor" and "xml_text (pt_type p)" and "xml_text (track_filename (pt_filename p))"
    and "list_all lower_hex (de_sha256 E dc)" and "list_all lower_hex (de_sha256 E (pt_body p))"
    and "rfc3339 (de_text E) (format_start now) = Some (whole_second now)"
  shows "parse_manifest (de_text E) (emit_bearer m1) = Inr m1"
    and "parse_manifest (de_text E) (emit_bearer m2) = Inr m2"
    and "parse_manifest (de_text E) (emit_bearer m3) =
      Inr (m1\<lparr>mf_elements := [track_of E u2 host flavor p, episode_of E u1 host dc]\<rparr>)"
proof -
  have lits: "xml_text ''dublincore.xml''" "xml_text ''catalog''" "xml_text ''dublincore/episode''"
      "xml_text ''text/xml''" "xml_text ''application/octet-stream''"
    by (rule ascii_xml_text, simp add: byte_val_def xml_rune_def)+
  have "xml_text (staged_url host (de_sha256 E dc) ''dublincore.xml'')"
    using xml_text_append [OF plain_staged [OF assms(8,12)] lits(1)] by (simp add: staged_url_def)
  moreover have "xml_text (staged_url host (de_sha256 E (pt_body p)) (track_filename (pt_filename p)))"
    using xml_text_append [OF plain_staged [OF assms(8,13)] assms(11)] by (simp add: staged_url_def)
  ultimately have t: "manifest_text m3" "manifest_text m2" "manifest_text m1"
    using assms(4-11) lits
    by (simp_all add: m1_def m2_def m3_def first_manifest_def add_element_def manifest_text_def element_text_def
        episode_of_def track_of_def)
  have i: "mf_id m1 \<noteq> []" "mf_id m2 \<noteq> []" "mf_id m3 \<noteq> []"
    using assms(4) by (simp_all add: m1_def m2_def m3_def first_manifest_def add_element_def)
  have start: "rfc3339 (de_text E) (format_start x) = Some (whole_second x)"
    if "mf_start m1 = Some x \<or> mf_start m2 = Some x \<or> mf_start m3 = Some x" for x
    using that assms(14) by (auto simp: m1_def m2_def m3_def first_manifest_def add_element_def)
  show "parse_manifest (de_text E) (emit_bearer m1) = Inr m1"
    using parse_emitted [OF t(3) i(1)] start carried_manifests(1) by (simp add: m1_def)
  show "parse_manifest (de_text E) (emit_bearer m2) = Inr m2"
    using parse_emitted [OF t(2) i(2)] start carried_manifests(2) by (simp add: m2_def m1_def)
  have "carried m3 = m1\<lparr>mf_elements := [track_of E u2 host flavor p, episode_of E u1 host dc]\<rparr>"
    using carried_manifests(3) [of E u2 host flavor p u1 dc mp now]
    by (simp add: m1_def m2_def m3_def first_manifest_def add_element_def carried_def)
  then show "parse_manifest (de_text E) (emit_bearer m3) =
      Inr (m1\<lparr>mf_elements := [track_of E u2 host flavor p, episode_of E u1 host dc]\<rparr>)"
    using parse_emitted [OF t(1) i(3)] start by simp
qed

text \<open>C27: a complete deposit session, with the replies of createMediaPackage, addDCCatalog and addTrack passed on
  by the client, ends with 200 and with everything in place: one new RUNNING workflow over the definition's
  operations, the mediapackage with the title and start of its episode catalog, both elements recorded
  under the digests of the uploaded bytes, and exactly those bytes in the store.\<close>

theorem deposit_session_completes:
  assumes ids: "uuid_in E mp = Some mp" "uuid_in E u1 = Some u1" "uuid_in E u2 = Some u2" "mp \<noteq> []" "u1 \<noteq> u2"
      "xml_text mp" "xml_text u1" "xml_text u2"
    and c: "c = wd_cat (db_data (ds_db s))" "map_of (c_mp c) mp = None" "map_of (c_el c) u1 = None" "map_of (c_el c) u2 = None"
    and host: "CHR ''/'' \<notin> set host" "plain_text host"
    and track: "\<not> is_field p" "xml_text (track_filename (pt_filename p))" "xml_text (pt_type p)" "flavor \<noteq> []" "xml_text flavor"
    and store: "clean_store E (ds_store s) {dc, pt_body p}"
    and dc: "dc \<noteq> []" "dc_derive (de_text E) dc = Some (title, start)"
    and date: "rfc3339 (de_text E) (format_start now) = Some (whole_second now)"
    and defn: "look_up src wd = Some (Some ops)" "wd \<noteq> []" "ops \<noteq> []"
    and small: "length (emit_bearer (add_element (episode_of E u1 host dc) (first_manifest mp now))) \<le> field_limit"
      "length flavor \<le> field_limit"
  shows "\<exists>s' r. deposit_session E src host wd (mp, u1, u2) now dc flavor p s =
      (Reply (workflow_reply (next_wf (ds_db s)) wd mp), s') \<and>
    workflows (ds_db s') = workflows (ds_db s) @
      [\<lparr>w_id = next_wf (ds_db s), w_mediapackage = mp, w_ops = ops, w_state = WRUNNING, w_cur = 0\<rparr>] \<and>
    map_of (c_mp (wd_cat (db_data (ds_db s')))) mp = Some r \<and> mp_title r = null_if_empty title \<and>
    mp_start r = (case start of None \<Rightarrow> Some (whole_second now) | Some t \<Rightarrow> Some t) \<and> mp_deleted r = None \<and>
    map_of (c_el (wd_cat (db_data (ds_db s')))) u1 =
      Some (new_element mp (episode_of E u1 host dc) (de_sha256 E dc) dc (c_now c)) \<and>
    map_of (c_el (wd_cat (db_data (ds_db s')))) u2 =
      Some (new_element mp (track_of E u2 host flavor p) (de_sha256 E (pt_body p)) (pt_body p) (c_now c)) \<and>
    cas_get (ds_store s') (de_sha256 E dc) = Some dc \<and> cas_get (ds_store s') (de_sha256 E (pt_body p)) = Some (pt_body p)"
proof -
  let ?m1 = "first_manifest mp now" and ?ep = "episode_of E u1 host dc" and ?tr = "track_of E u2 host flavor p"
  let ?m2 = "add_element ?ep ?m1" and ?body = "pt_body p"
  let ?st1 = "snd (put_file (de_sha256 E) dc (ds_store s))"
  let ?st2 = "snd (put_file (de_sha256 E) ?body ?st1)"
  let ?s2 = "s\<lparr>ds_store := ?st2\<rparr>"
  have hex: "list_all lower_hex (de_sha256 E dc)" "list_all lower_hex (de_sha256 E ?body)"
      "length (de_sha256 E dc) = 64" "length (de_sha256 E ?body) = 64"
    using store by (simp_all add: clean_store_def)
  note bearers = session_bearers [OF ids(4,6-8) host(2) track(5,3,2) hex(1,2) date]
  have clean1: "clean_store E ?st1 {dc, ?body}" and got1: "cas_get ?st1 (de_sha256 E dc) = Some dc"
    using clean_put [OF store, of dc] by simp_all
  have got2: "cas_get ?st2 (de_sha256 E ?body) = Some ?body" using clean_put(2) [OF clean1, of ?body] by simp
  have got1': "cas_get ?st2 (de_sha256 E dc) = Some dc" using put_keeps [OF got1] by simp
  have dc_call: "add_dc_catalog E u1 host (Some [''mediaPackage'' \<mapsto> emit_bearer ?m1, ''dublinCore'' \<mapsto> dc,
      ''flavor'' \<mapsto> ''dublincore/episode'']) (ds_store s) = (Reply (emit_bearer ?m2), ?st1)"
    using dc(1) bearers(1)
    by (simp add: add_dc_catalog_def go_get_def Let_def stash_upload_def case_prod_beta put_file_digest episode_of_def
        emit_bearer_def [of ?m1] xml_header_def)
  have track_call: "add_track E u2 host (Some [\<lparr>pt_name = ''mediaPackage'', pt_filename = [], pt_type = [],
      pt_body = emit_bearer ?m2\<rparr>, \<lparr>pt_name = ''flavor'', pt_filename = [], pt_type = [], pt_body = flavor\<rparr>, p]) ?st1 =
      (Reply (emit_bearer (add_element ?tr ?m2)), ?st2)"
    using track(1,4) small bearers(2)
    by (simp add: add_track_def is_field_def add_track_file_def go_get_def Let_def stash_upload_def case_prod_beta
        put_file_digest track_of_def emit_bearer_def [of ?m2] xml_header_def)
  have url: "resolve_staged ?st2 (me_url ?ep) = Some dc" "resolve_staged ?st2 (me_url ?tr) = Some ?body"
    using got1' got2 staged_sha_url [OF host(1)] hex by (simp_all add: resolve_staged_def episode_of_def track_of_def)
  let ?m = "?m1\<lparr>mf_elements := [?tr, ?ep]\<rparr>"
  let ?title = "title" and ?start = "case start of None \<Rightarrow> Some (whole_second now) | Some t \<Rightarrow> Some t"
  have derive: "derive_episode E ?st2 ?m = Some (?m\<lparr>mf_title := title, mf_start := ?start\<rparr>)"
    using url(1) dc(2) derive_first [of E u2 host flavor p u1 dc]
    by (cases start) (simp_all add: derive_episode_def first_manifest_def)
  obtain se where row: "materialise_row mp title ?start 0 c = Inr (c\<lparr>c_mp := c_mp c @ [(mp,
      \<lparr>mp_title = null_if_empty title, mp_start = ?start, mp_duration = None, mp_series = None, mp_deleted = None\<rparr>)],
      c_se := se\<rparr>)" (is "_ = Inr ?c1")
    using materialise_fresh_row [OF c(2)] by blast
  have known: "map_of (c_mp ?c1) mp \<noteq> None" by (simp add: map_add_def c(2))
  let ?e2 = "(u2, new_element mp ?tr (de_sha256 E ?body) ?body (c_now c))"
  let ?e1 = "(u1, new_element mp ?ep (de_sha256 E dc) dc (c_now c))"
  have same: "put_file (de_sha256 E) ?body ?st2 = (de_sha256 E ?body, ?st2)" "put_file (de_sha256 E) dc ?st2 = (de_sha256 E dc, ?st2)"
    using got2 got1' by (intro put_file_present; simp add: cas_exists_def cas_get_def)+
  have first: "materialise_element E resolve_staged mp ?tr (?st2, ?c1) = (None, (?st2, ?c1\<lparr>c_el := c_el c @ [?e2]\<rparr>))"
    using materialise_fresh_element [of resolve_staged ?st2 ?tr ?body E u2 ?c1 mp] url(2) ids(3) c(4) known same(1)
    by (simp add: track_of_def)
  have second: "materialise_element E resolve_staged mp ?ep (?st2, ?c1\<lparr>c_el := c_el c @ [?e2]\<rparr>) =
      (None, (?st2, ?c1\<lparr>c_el := c_el c @ [?e2, ?e1]\<rparr>))"
    using materialise_fresh_element [of resolve_staged ?st2 ?ep dc E u1 "?c1\<lparr>c_el := c_el c @ [?e2]\<rparr>" mp] url(1) ids(2,5) c(3) known same(2)
    by (simp add: episode_of_def map_add_def)
  have mat: "materialise E resolve_staged (?m\<lparr>mf_title := title, mf_start := ?start\<rparr>) (?st2, c) =
      (None, (?st2, ?c1\<lparr>c_el := c_el c @ [?e2, ?e1]\<rparr>))"
    using ids(1,4) row first second by (simp add: materialise_def first_manifest_def)
  let ?d = "(?st2, ?c1\<lparr>c_el := c_el c @ [?e2, ?e1]\<rparr>)"
  let ?s3 = "on_deposit ?s2 ?d"
  have "deposit_session E src host wd (mp, u1, u2) now dc flavor p s =
      ingest E src wd (Some [''mediaPackage'' \<mapsto> emit_bearer (add_element ?tr ?m2)]) ?s2"
    using dc_call track_call
    by (simp add: deposit_session_def create_media_package_def first_manifest_def [symmetric] del: fun_upd_apply)
  also have "\<dots> = start_workflow E wd ops mp ?s3"
  proof -
    have dep: "deposited_of ?s2 = (?st2, c)" by (simp add: deposited_of_def c(1))
    have full: "emit_bearer (add_element ?tr ?m2) \<noteq> []" by (simp add: emit_bearer_def xml_header_def)
    have mp: "mf_id (?m\<lparr>mf_title := title, mf_start := ?start\<rparr>) = mp" by (simp add: first_manifest_def)
    have st: "ds_store ?s2 = ?st2" by simp
    show ?thesis
      using full defn(1,2)
      unfolding ingest_def option.case Let_def
      by (simp only: go_get_def fun_upd_apply refl if_True option.case bearers(3) derive mat dep sum.case prod.case mp st
            option.distinct simp_thms if_False) simp
  qed
  finally have run: "deposit_session E src host wd (mp, u1, u2) now dc flavor p s = start_workflow E wd ops mp ?s3" .
  let ?s4 = "?s3\<lparr>ds_db := (ds_db ?s3)\<lparr>workflows := workflows (ds_db s) @
      [\<lparr>w_id = next_wf (ds_db s), w_mediapackage = mp, w_ops = ops, w_state = WRUNNING, w_cur = 0\<rparr>],
      next_wf := Suc (next_wf (ds_db s))\<rparr>\<rparr>"
  have "start_workflow E wd ops mp ?s3 = (Reply (workflow_reply (next_wf (ds_db s)) wd mp), ?s4)"
    using ids(1) defn(3) by (simp add: start_workflow_def create_workflow_def on_deposit_def)
  moreover have "map_of (c_el c @ [?e2, ?e1]) u1 = Some (snd ?e1)" "map_of (c_el c @ [?e2, ?e1]) u2 = Some (snd ?e2)"
    using c(3,4) ids(5) by (simp_all add: map_add_def)
  moreover have "wd_cat (db_data (ds_db ?s4)) = snd ?d" "ds_store ?s4 = ?st2" by (simp_all add: on_deposit_def)
  ultimately show ?thesis
    using run got1' got2 c(2)
    by (intro exI [of _ ?s4] exI [of _ "\<lparr>mp_title = null_if_empty title, mp_start = ?start, mp_duration = None,
          mp_series = None, mp_deleted = None\<rparr>"]) (simp add: map_add_def)
qed

definition demo_dc :: string where
  "demo_dc = ''<a/>''"

definition demo_session_env :: deposit_env where
  "demo_session_env = \<lparr>de_text = demo_texts,
     de_sha256 = (\<lambda>b. replicate 64 (if b = demo_dc then CHR ''a'' else CHR ''b'')), de_md5 = (\<lambda>b. b), uuid_in = Some\<rparr>"

definition demo_ops :: definition_ops where
  "demo_ops = [\<lparr>od_operation = ''publish'', od_config = Map.empty, od_spec = None\<rparr>]"

lemma demo_dc_derived: "dc_derive demo_texts demo_dc = Some ([], None)"
proof -
  have n: "simple_name ''a''" by code_simp
  have "next_token u demo_dc = Some (TStart [] ''a'' [] True, [])" for u
    using next_start [OF n _ attributes_end(2), of "[]" u] by (simp add: demo_dc_def)
  then have "root_element u demo_dc = Some (Elem ''a'' [] [])" for u
    by (subst root_element.simps) simp
  then show ?thesis by (simp add: dc_derive_def text_field_def last_or_def dc_created_def)
qed

lemma demo_plain:
  "plain_text ''m''" "plain_text ''u1''" "plain_text ''dublincore/episode''" "plain_text ''text/xml''" "plain_text ''h''"
  "plain_text (staged_url ''h'' (replicate 64 CHR ''a'') ''dublincore.xml'')"
  by (simp_all add: plain_text_def plain_def byte_val_def staged_url_def list_all_iff)

lemma dec_rules: "n < 10 \<Longrightarrow> dec n = [digit_char n]" "\<not> n < 10 \<Longrightarrow> dec n = dec (n div 10) @ [digit_char (n mod 10)]"
  by (subst dec.simps, simp)+

lemma length_start: "length (format_start 0) = 20"
proof -
  have date: "civil_date 0 = (1970, 1, 1)" by code_simp
  have "length (dec 1970) = 4" "length (dec 1) = 1" "length (dec 0) = 1" by (simp_all add: dec_rules)
  then have "length (padded 4 1970) = 4" "length (padded 2 1) = 2" "length (padded 2 0) = 2"
    by (simp_all add: padded_def Let_def One_nat_def [symmetric] del: One_nat_def)
  then show ?thesis by (simp add: format_start_def date nanos_per_second_def)
qed

lemma demo_first_short:
  "length (emit_bearer (add_element (episode_of demo_session_env ''u1'' ''h'' demo_dc) (first_manifest ''m'' 0))) \<le> 800"
proof -
  have w: "whole_second 0 = 0" by (simp add: whole_second_def)
  have u: "length (staged_url ''h'' (replicate 64 CHR ''a'') ''dublincore.xml'') \<le> 120" by (simp add: staged_url_def)
  show ?thesis
    using u by (simp add: emit_bearer_def add_element_def first_manifest_def episode_of_def demo_session_env_def xml_header_def
        mp_namespace_def quoted_def emit_group_def emit_element_def emit_tags_def w length_start demo_plain [THEN plain_text_esc(1)])
qed

theorem deposit_session_completes_witness:
  "\<exists>s' r. deposit_session demo_session_env (Some (\<lambda>w. Some (Some demo_ops))) ''h'' ''wd'' (''m'', ''u1'', ''u2'') 0 demo_dc
      ''p/s'' (demo_part ''BODY'' ''v.mp4'' ''video'') demo_deposit_state = (Reply (workflow_reply 1 ''wd'' ''m''), s') \<and>
    length (workflows (ds_db s')) = 1 \<and> map_of (c_mp (wd_cat (db_data (ds_db s')))) ''m'' = Some r \<and>
    mp_title r = None \<and> cas_get (ds_store s') (replicate 64 CHR ''b'') = Some ''video''"
proof -
  let ?p = "demo_part ''BODY'' ''v.mp4'' ''video''" and ?E = demo_session_env
  have texts: "xml_text ''m''" "xml_text ''u1''" "xml_text ''u2''" "xml_text ''p/s''" "xml_text ''v.mp4''" "plain_text ''h''"
    by (rule ascii_xml_text, simp add: byte_val_def xml_rune_def)+
       (simp add: plain_text_def plain_def byte_val_def)
  have track: "\<not> is_field ?p" "xml_text (track_filename (pt_filename ?p))" "xml_text (pt_type ?p)"
    using texts(5) by (simp_all add: is_field_def demo_part_def track_filename_def path_base_def Let_def)
  have store: "clean_store ?E (ds_store demo_deposit_state) {demo_dc, pt_body ?p}"
    by (auto simp: clean_store_def demo_session_env_def demo_deposit_state_def demo_part_def demo_dc_def cas_get_def
        lower_hex_def byte_val_def Let_def list_all_iff)
  have env: "de_text ?E = demo_texts" "uuid_in ?E i = Some i" for i by (simp_all add: demo_session_env_def)
  have tables: "map_of (c_mp (wd_cat (db_data (ds_db demo_deposit_state)))) i = None"
      "map_of (c_el (wd_cat (db_data (ds_db demo_deposit_state)))) i = None" for i
    by (simp_all add: demo_deposit_state_def empty_catalog_def)
  have date: "rfc3339 demo_texts (format_start 0) = Some (whole_second 0)"
    by (simp add: demo_texts_def whole_second_def)
  have small: "length (emit_bearer (add_element (episode_of ?E ''u1'' ''h'' demo_dc) (first_manifest ''m'' 0))) \<le> field_limit"
    using demo_first_short by (simp add: field_limit_def)
  have ops: "demo_ops \<noteq> []" "demo_dc \<noteq> []" by (simp_all add: demo_ops_def demo_dc_def)
  note run = deposit_session_completes [where E = ?E and mp = "''m''" and ?u1.0 = "''u1''" and ?u2.0 = "''u2''" and host = "''h''"
    and p = ?p and flavor = "''p/s''" and dc = demo_dc and s = demo_deposit_state and title = "[]" and start = None
    and now = 0 and src = "Some (\<lambda>w. Some (Some demo_ops))" and wd = "''wd''" and ops = demo_ops, OF _ _ _ _ _ _ _ _ refl]
  obtain s' r where
    "deposit_session ?E (Some (\<lambda>w. Some (Some demo_ops))) ''h'' ''wd'' (''m'', ''u1'', ''u2'') 0 demo_dc ''p/s'' ?p
       demo_deposit_state = (Reply (workflow_reply (next_wf (ds_db demo_deposit_state)) ''wd'' ''m''), s')"
    "length (workflows (ds_db s')) = Suc (length (workflows (ds_db demo_deposit_state)))"
    "map_of (c_mp (wd_cat (db_data (ds_db s')))) ''m'' = Some r" "mp_title r = null_if_empty []"
    "cas_get (ds_store s') (de_sha256 ?E (pt_body ?p)) = Some (pt_body ?p)"
    using run [OF env(2) env(2) env(2) _ _ texts(1-3) tables(1) tables(2) tables(2) _ texts(6) track _ texts(4) store ops(2) _ _ _ _ ops(1) small]
      demo_dc_derived date
    by (simp add: env look_up_def field_limit_def) (metis length_append_singleton)
  then show ?thesis
    by (intro exI [of _ s'] exI [of _ r])
       (simp add: demo_deposit_state_def null_if_empty_def demo_part_def demo_session_env_def demo_dc_def)
qed

end
