(* ===== verification/Legacy.thy ===== *)
theory Legacy
  imports Bearer Acl "HOL-Library.Char_ord" "HOL-Library.List_Lexorder" "HOL-Library.Product_Lexorder"
begin

text \<open>
  What \<open>internal/migrate\<close> reads of a source installation: the mediapackage documents and Dublin Core
  (\<open>document.go\<close>), the two ACL document shapes (\<open>aclxml.go\<close>) and the archive ACL resolved from them
  (\<open>aclread.go\<close>), the source reader with its fixture backend (\<open>source.go\<close>), and the bucket resolution
  of pre-16.8 assets (\<open>pre168.go\<close>). Files are the parameter \<open>file\<close> from path to contents, the CSV
  codec is the parameter \<open>csv\<close>; the version counters of snapshots are naturals.
\<close>

section \<open>Documents\<close>

record doc_element =
  dd_id :: string
  dd_kind :: string
  dd_flavor :: string
  dd_mimetype :: string
  dd_url :: string
  dd_md5 :: string
  dd_size :: int
  dd_tags :: "string list"
  dd_channel :: string

definition is_security_xacml :: "doc_element \<Rightarrow> bool" where
  "is_security_xacml e = has_prefix (dd_flavor e) ''security/xacml''"

record doc_publication =
  dp_id :: string
  dp_channel :: string
  dp_url :: string
  dp_elements :: "doc_element list"

record document =
  do_id :: string
  do_title :: string
  do_series :: string
  do_start :: string
  do_duration :: int
  do_elements :: "doc_element list"
  do_publications :: "doc_publication list"

datatype legacy_error =
    LegacyXml
  | LegacyNumber
  | LegacyNoId
  | BadDate string
  | NoRole string
  | BadEffect string
  | EmptyAction string
  | EmptyAce
  | BadBool
  | Missing string
  | Diverging string
  | NoUrn string
  | BadMergeMode string
  | BadRow string

definition int_of :: "string list \<Rightarrow> (legacy_error, int) result" where
  "int_of vs =
     (if ints_ok vs then Inr (case int_field (last_or [] vs) of None \<Rightarrow> 0 | Some n \<Rightarrow> n) else Inl LegacyNumber)"

definition texts_named :: "string \<Rightarrow> xml list \<Rightarrow> string list" where
  "texts_named n ks = map (\<lambda>x. xml_chars (xml_kids x)) (kids_named n ks)"

definition convert_element :: "string \<Rightarrow> string \<Rightarrow> xml \<Rightarrow> (legacy_error, doc_element) result" where
  "convert_element kind channel e =
     (let ks = xml_kids e; as = xml_attrs e; (ty, v) = xml_checksum ks
      in bind_result (int_of (texts_named ''size'' ks)) (\<lambda>n.
           Inr \<lparr>dd_id = attr_field ''id'' as, dd_kind = kind, dd_flavor = attr_field ''type'' as,
             dd_mimetype = trim_space (text_field ''mimetype'' ks), dd_url = trim_space (text_field ''url'' ks),
             dd_md5 = (if ty = ''md5'' then trim_space v else []), dd_size = n,
             dd_tags = map (\<lambda>x. xml_chars (xml_kids x)) (path_kids ''tags'' ''tag'' ks), dd_channel = channel\<rparr>))"

text \<open>The tracks, catalogs and attachments of a mediapackage or a publication, in that order.\<close>

definition grouped_elements :: "string \<Rightarrow> xml list \<Rightarrow> (legacy_error, doc_element list) result" where
  "grouped_elements channel ks =
     bind_result (traverse (convert_element ''track'' channel) (path_kids ''media'' ''track'' ks)) (\<lambda>ts.
     bind_result (traverse (convert_element ''catalog'' channel) (path_kids ''metadata'' ''catalog'' ks)) (\<lambda>cs.
     bind_result (traverse (convert_element ''attachment'' channel) (path_kids ''attachments'' ''attachment'' ks)) (\<lambda>as.
       Inr (ts @ cs @ as))))"

definition convert_publication :: "xml \<Rightarrow> (legacy_error, doc_publication) result" where
  "convert_publication p =
     (let channel = attr_field ''channel'' (xml_attrs p)
      in bind_result (grouped_elements channel (xml_kids p)) (\<lambda>els.
           Inr \<lparr>dp_id = attr_field ''id'' (xml_attrs p), dp_channel = channel,
             dp_url = trim_space (text_field ''url'' (xml_kids p)), dp_elements = els\<rparr>))"

definition parse_document :: "text_env \<Rightarrow> string \<Rightarrow> (legacy_error, document) result" where
  "parse_document T raw =
     (case root_element (uname T) raw of
        None \<Rightarrow> Inl LegacyXml
      | Some x \<Rightarrow>
          (let ks = xml_kids x; as = xml_attrs x
           in case x of
                Chars d \<Rightarrow> Inl LegacyXml
              | Elem l as' ks' \<Rightarrow>
                  (if l \<noteq> ''mediapackage'' then Inl LegacyXml
                   else bind_result (int_of (attr_values ''duration'' as)) (\<lambda>dur.
                        bind_result (grouped_elements [] ks) (\<lambda>els.
                        bind_result (traverse convert_publication (path_kids ''publications'' ''publication'' ks)) (\<lambda>pubs.
                          if attr_field ''id'' as = [] then Inl LegacyNoId
                          else Inr \<lparr>do_id = attr_field ''id'' as, do_title = text_field ''title'' ks,
                                 do_series = trim_space (text_field ''series'' ks),
                                 do_start = attr_field ''start'' as, do_duration = dur,
                                 do_elements = els, do_publications = pubs\<rparr>))))))"

section \<open>Dublin Core\<close>

fun all_elems :: "xml list \<Rightarrow> (string \<times> string) list" where
  "all_elems [] = []"
| "all_elems (Chars d # ks) = all_elems ks"
| "all_elems (Elem l as xs # ks) = (l, xml_chars xs) # all_elems ks"

text \<open>The map from field name to its non-empty values, in document order.\<close>

definition parse_dc :: "text_env \<Rightarrow> string \<Rightarrow> (legacy_error, string \<Rightarrow> string list) result" where
  "parse_dc T raw =
     (case root_element (uname T) raw of
        None \<Rightarrow> Inl LegacyXml
      | Some x \<Rightarrow>
          Inr (\<lambda>key. filter (\<lambda>v. v \<noteq> []) (map (\<lambda>(l, v). trim_space v)
            (filter (\<lambda>(l, v). l = key) (all_elems (xml_kids x))))))"

definition dc_first :: "(string \<Rightarrow> string list) \<Rightarrow> string \<Rightarrow> string" where
  "dc_first m key = (case m key of [] \<Rightarrow> [] | v # vs \<Rightarrow> v)"

text \<open>\<open>w3cdtf\<close> tries the five layouts of the precision ladder in order.\<close>

definition dc_time ::
  "(string \<Rightarrow> int option) \<Rightarrow> (string \<Rightarrow> string list) \<Rightarrow> string \<Rightarrow> (legacy_error, int option) result" where
  "dc_time w3cdtf m key =
     (let s = dc_first m key
      in if s = [] then Inr None
         else case w3cdtf s of None \<Rightarrow> Inl (BadDate s) | Some t \<Rightarrow> Inr (Some t))"

section \<open>ACL documents\<close>

definition condition_role :: "xml \<Rightarrow> string" where
  "condition_role rule =
     trim_space (last_or [] (map (\<lambda>x. xml_chars (xml_kids x))
       (concat (map (\<lambda>a. kids_named ''AttributeValue'' (xml_kids a))
         (path_kids ''Condition'' ''Apply'' (xml_kids rule))))))"

definition rule_actions :: "xml \<Rightarrow> string list" where
  "rule_actions rule =
     map (\<lambda>a. trim_space (last_or [] (map (\<lambda>x. xml_chars (xml_kids x))
            (path_kids ''ActionMatch'' ''AttributeValue'' (xml_kids a)))))
       (concat (map (\<lambda>t. path_kids ''Actions'' ''Action'' (xml_kids t)) (kids_named ''Target'' (xml_kids rule))))"

definition rule_entries :: "xml \<Rightarrow> (legacy_error, entry list) result" where
  "rule_entries rule =
     (let i = attr_field ''RuleId'' (xml_attrs rule); effect = attr_field ''Effect'' (xml_attrs rule);
          acts = rule_actions rule; rl = condition_role rule
      in if acts = [] then Inr []
         else if rl = [] then Inl (NoRole i)
         else if effect \<noteq> ''Permit'' \<and> effect \<noteq> ''Deny'' then Inl (BadEffect i)
         else if [] \<in> set acts then Inl (EmptyAction i)
         else Inr (map (\<lambda>a. \<lparr>role = rl, action = a, allow = (effect = ''Permit'')\<rparr>) acts))"

definition parse_xacml :: "text_env \<Rightarrow> string \<Rightarrow> (legacy_error, entry list) result" where
  "parse_xacml T raw =
     (case root_element (uname T) raw of
        None \<Rightarrow> Inl LegacyXml
      | Some x \<Rightarrow>
          bind_result (traverse rule_entries (kids_named ''Rule'' (xml_kids x))) (\<lambda>ess. Inr (concat ess)))"

text \<open>\<open>strconv.ParseBool\<close>; an empty element is false.\<close>

definition bool_field :: "string \<Rightarrow> bool option" where
  "bool_field s =
     (let t = trim_space s
      in if s = [] then Some False
         else if t \<in> {''1'', ''t'', ''T'', ''TRUE'', ''true'', ''True''} then Some True
         else if t \<in> {''0'', ''f'', ''F'', ''FALSE'', ''false'', ''False''} then Some False else None)"

definition ace_entry :: "xml \<Rightarrow> (legacy_error, entry) result" where
  "ace_entry e =
     (let ks = xml_kids e; allows = texts_named ''allow'' ks
      in if list_ex (\<lambda>t. bool_field t = None) allows then Inl BadBool
         else Inr \<lparr>role = text_field ''role'' ks, action = text_field ''action'' ks,
                allow = (bool_field (last_or [] allows) = Some True)\<rparr>)"

definition parse_plain_acl :: "text_env \<Rightarrow> string \<Rightarrow> (legacy_error, entry list) result" where
  "parse_plain_acl T raw =
     (case root_element (uname T) raw of
        None \<Rightarrow> Inl LegacyXml
      | Some x \<Rightarrow>
          bind_result (traverse ace_entry (kids_named ''ace'' (xml_kids x))) (\<lambda>es.
            if list_ex (\<lambda>e. role e = [] \<or> action e = []) es then Inl EmptyAce else Inr es))"

section \<open>The archive ACL\<close>

datatype archive_acl = AclAbsent | AclPresent "entry list"

text \<open>\<open>bytes_of\<close> is the source's \<open>Resolve\<close>.\<close>

fun security_copies ::
  "(string \<Rightarrow> string option) \<Rightarrow> string \<Rightarrow> doc_element list \<Rightarrow> (legacy_error, (string \<times> string) list) result" where
  "security_copies bytes_of flavor [] = Inr []"
| "security_copies bytes_of flavor (e # es) =
     (if dd_flavor e \<noteq> flavor then security_copies bytes_of flavor es
      else case bytes_of (dd_url e) of
        None \<Rightarrow> Inl (Missing (dd_url e))
      | Some b \<Rightarrow>
          bind_result (security_copies bytes_of flavor es) (\<lambda>cs. Inr ((dd_url e, b) # cs)))"

definition is_urn :: "string \<Rightarrow> bool" where
  "is_urn url = has_prefix url ''urn:''"

definition security_attachment ::
  "(string \<Rightarrow> string option) \<Rightarrow> string \<Rightarrow> document \<Rightarrow> (legacy_error, string option) result" where
  "security_attachment bytes_of flavor doc =
     bind_result (security_copies bytes_of flavor (do_elements doc)) (\<lambda>cs.
       case filter (\<lambda>c. is_urn (fst c)) cs @ filter (\<lambda>c. \<not> is_urn (fst c)) cs of
         [] \<Rightarrow> Inr None
       | c # rest \<Rightarrow>
           (if list_ex (\<lambda>d. snd d \<noteq> snd c) rest then Inl (Diverging flavor)
            else if \<not> is_urn (fst c) then Inl (NoUrn flavor)
            else Inr (Some (snd c))))"

definition resolve_archive_acl ::
  "text_env \<Rightarrow> (string \<Rightarrow> string option) \<Rightarrow> string \<Rightarrow> document \<Rightarrow> (legacy_error, archive_acl) result" where
  "resolve_archive_acl T bytes_of merge_mode doc =
     (if merge_mode \<noteq> ''override'' then Inl (BadMergeMode merge_mode)
      else bind_result (security_attachment bytes_of ''security/xacml+episode'' doc) (\<lambda>episode.
           bind_result (security_attachment bytes_of ''security/xacml+series'' doc) (\<lambda>ser.
             case episode of
               Some raw \<Rightarrow> bind_result (parse_xacml T raw) (\<lambda>es. Inr (AclPresent es))
             | None \<Rightarrow>
                 (case ser of
                    Some raw \<Rightarrow> bind_result (parse_xacml T raw) (\<lambda>es. Inr (AclPresent es))
                  | None \<Rightarrow> Inr AclAbsent))))"

text \<open>\<open>entrySetEqual\<close> compares the sets of the entries' rendered keys.\<close>

definition entry_key :: "entry \<Rightarrow> string" where
  "entry_key e = role e @ ''|'' @ action e @ ''|'' @ (if allow e then ''true'' else ''false'')"

definition entry_set_equal :: "entry list \<Rightarrow> entry list \<Rightarrow> bool" where
  "entry_set_equal a b = (set (map entry_key a) = set (map entry_key b))"

section \<open>The source\<close>

record snapshot_src =
  sr_mp :: string
  sr_version :: nat
  sr_org :: string
  sr_availability :: string
  sr_xml :: string

record series_src =
  ser_id :: string
  ser_org :: string
  ser_deleted :: string
  ser_acl :: "string option"
  ser_dc :: string

record published_src =
  pbs_id :: string
  pbs_org :: string
  pbs_deleted :: string
  pbs_acl :: "string option"
  pbs_xml :: string

text \<open>A read that fails is \<open>None\<close>; a NULL ACL column is \<open>None\<close> in its row.\<close>

record source =
  so_label :: string
  so_merge_mode :: "string option"
  so_snapshots :: "snapshot_src list option"
  so_series :: "series_src list option"
  so_published :: "published_src list option"
  so_eav :: "(string \<times> entry list) list option"
  so_managed :: "(string \<times> string) list option"
  so_resolve :: "string \<Rightarrow> string option"

section \<open>The fixture backend\<close>

text \<open>\<open>readCSV\<close>: the header names the columns of every following record.\<close>

definition read_csv ::
  "(string \<Rightarrow> string option) \<Rightarrow> (string \<Rightarrow> string list list option) \<Rightarrow> string \<Rightarrow> (string \<rightharpoonup> string) list option" where
  "read_csv file csv path =
     (case file path of
        None \<Rightarrow> None
      | Some raw \<Rightarrow>
          (case csv raw of
             None \<Rightarrow> None
           | Some recs \<Rightarrow>
               (case recs of
                  [] \<Rightarrow> None
                | header # rows \<Rightarrow> Some (map (\<lambda>rec. map_of (rev (zip header rec))) rows))))"

text \<open>\<open>Sscanf("%d")\<close> of a counter: blanks, then digits; what follows is not read.\<close>

definition scan_version :: "string \<Rightarrow> nat option" where
  "scan_version s =
     (let t = dropWhile (\<lambda>c. c = CHR 0x20 \<or> c = CHR 0x09) s;
          ds = takeWhile (\<lambda>c. digit_val c \<noteq> None) t
      in map_option nat (parse_int64 ds))"

definition snapshot_file :: "string \<Rightarrow> string \<Rightarrow> nat \<Rightarrow> string" where
  "snapshot_file dir mp v = dir @ ''/snapshots/'' @ mp @ ''/'' @ dec v @ ''/mediapackage.xml''"

definition snapshot_row_of ::
  "(string \<Rightarrow> string option) \<Rightarrow> string \<Rightarrow> (string \<rightharpoonup> string) \<Rightarrow> snapshot_src option" where
  "snapshot_row_of file dir r =
     (case scan_version (go_get r ''VERSION'') of
        None \<Rightarrow> None
      | Some v \<Rightarrow>
          (let mp = go_get r ''MEDIAPACKAGE_ID''; x = go_get r ''MEDIAPACKAGE_XML''
           in case file (snapshot_file dir mp v) of
                Some banked \<Rightarrow>
                  (if banked \<noteq> x then None
                   else Some \<lparr>sr_mp = mp, sr_version = v, sr_org = go_get r ''ORGANIZATION_ID'',
                          sr_availability = go_get r ''AVAILABILITY'', sr_xml = x\<rparr>)
              | None \<Rightarrow> Some \<lparr>sr_mp = mp, sr_version = v, sr_org = go_get r ''ORGANIZATION_ID'',
                          sr_availability = go_get r ''AVAILABILITY'', sr_xml = x\<rparr>))"

fun all_some :: "'a option list \<Rightarrow> 'a list option" where
  "all_some [] = Some []"
| "all_some (x # xs) =
     (case x of None \<Rightarrow> None | Some a \<Rightarrow> (case all_some xs of None \<Rightarrow> None | Some as \<Rightarrow> Some (a # as)))"

definition fixture_snapshots ::
  "(string \<Rightarrow> string option) \<Rightarrow> (string \<Rightarrow> string list list option) \<Rightarrow> string \<Rightarrow> snapshot_src list option" where
  "fixture_snapshots file csv dir =
     (case read_csv file csv (dir @ ''/db/exports/snapshots.csv'') of
        None \<Rightarrow> None
      | Some rows \<Rightarrow>
          map_option (sort_key (\<lambda>s. (sr_mp s, sr_version s)) ) (all_some (map (snapshot_row_of file dir) rows)))"

definition null_acl :: "(string \<rightharpoonup> string) \<Rightarrow> string option" where
  "null_acl r = (if go_get r ''ACL_IS_NULL'' = ''YES'' then None else Some (go_get r ''ACCESS_CONTROL''))"

definition series_row_of :: "(string \<rightharpoonup> string) \<Rightarrow> series_src" where
  "series_row_of r =
     \<lparr>ser_id = go_get r ''ID'', ser_org = go_get r ''ORGANIZATION'', ser_deleted = go_get r ''DELETION_DATE'',
      ser_acl = null_acl r, ser_dc = go_get r ''DUBLIN_CORE''\<rparr>"

definition published_row_of :: "(string \<rightharpoonup> string) \<Rightarrow> published_src" where
  "published_row_of r =
     \<lparr>pbs_id = go_get r ''ID'', pbs_org = go_get r ''ORGANIZATION'', pbs_deleted = go_get r ''DELETION_DATE'',
      pbs_acl = null_acl r, pbs_xml = go_get r ''MEDIAPACKAGE_XML''\<rparr>"

text \<open>\<open>strings.SplitN(.., " | ", 2)\<close>.\<close>

definition eav_entry :: "(string \<rightharpoonup> string) \<Rightarrow> entry option" where
  "eav_entry r =
     map_option (\<lambda>(rl, act). \<lparr>role = rl, action = act, allow = (ascii_lower (go_get r ''VAL_BOOL'') = ''true'')\<rparr>)
       (cut_sub '' | '' (go_get r ''PROPERTY_NAME''))"

definition security_property :: "(string \<rightharpoonup> string) \<Rightarrow> bool" where
  "security_property r = (go_get r ''NAMESPACE'' = ''org.opencastproject.assetmanager.security'')"

definition append_at :: "string \<Rightarrow> entry \<Rightarrow> (string \<times> entry list) list \<Rightarrow> (string \<times> entry list) list" where
  "append_at k e m =
     (case map_of m k of
        None \<Rightarrow> m @ [(k, [e])]
      | Some es \<Rightarrow> map (\<lambda>(k', es'). if k' = k then (k', es' @ [e]) else (k', es')) m)"

fun gather_eav :: "(string \<rightharpoonup> string) list \<Rightarrow> (string \<times> entry list) list \<Rightarrow> (string \<times> entry list) list option" where
  "gather_eav [] m = Some m"
| "gather_eav (r # rs) m =
     (if \<not> security_property r then gather_eav rs m
      else case eav_entry r of
        None \<Rightarrow> None
      | Some e \<Rightarrow> gather_eav rs (append_at (go_get r ''MEDIAPACKAGE_ID'') e m))"

text \<open>The lines of the configuration file; the shipped default when none sets the key.\<close>

fun merge_mode_of :: "string list \<Rightarrow> string" where
  "merge_mode_of [] = ''override''"
| "merge_mode_of (l # ls) =
     (let t = trim_space l
      in if has_prefix t ''merge.mode''
         then (case cut_at CHR ''='' t of (k, v, ok) \<Rightarrow> if ok then trim_space v else merge_mode_of ls)
         else merge_mode_of ls)"

definition file_ext :: "string \<Rightarrow> string" where
  "file_ext p =
     (let b = rev (takeWhile (\<lambda>x. x \<noteq> CHR ''/'') (rev p))
      in if CHR ''.'' \<in> set b then CHR ''.'' # rev (takeWhile (\<lambda>x. x \<noteq> CHR ''.'') (rev b)) else [])"

text \<open>The path an element url names in the fixture, before \<open>filepath.Join\<close> cleans it.\<close>

definition fixture_path :: "string \<Rightarrow> string \<Rightarrow> string \<Rightarrow> string option" where
  "fixture_path dir org url =
     (if has_prefix url ''urn:matterhorn:''
      then (case split_on CHR '':'' (drop 15 url) of
              [mp, v, el, filename] \<Rightarrow>
                Some (dir @ ''/source/archive/'' @ org @ ''/'' @ mp @ ''/'' @ v @ ''/'' @ el @ file_ext filename)
            | _ \<Rightarrow> None)
      else case cut_sub ''/static/'' url of
        None \<Rightarrow> None
      | Some (host, p) \<Rightarrow>
          if has_prefix url ''http://'' \<or> has_prefix url ''https://''
          then Some (dir @ ''/source/downloads/'' @ p) else None)"

definition fixture_source ::
  "(string \<Rightarrow> string option) \<Rightarrow> (string \<Rightarrow> string list list option) \<Rightarrow> string \<Rightarrow> string \<Rightarrow> source" where
  "fixture_source file csv dir org =
     (let rows = (\<lambda>name. read_csv file csv (dir @ ''/db/exports/'' @ name))
      in \<lparr>so_label = ''fixture:'' @ dir,
          so_merge_mode = map_option (\<lambda>raw. merge_mode_of (split_on CHR 0x0A raw))
            (file (dir @ ''/config/XACMLAuthorizationService.cfg'')),
          so_snapshots = fixture_snapshots file csv dir,
          so_series = map_option (map series_row_of) (rows ''series.csv''),
          so_published = map_option (map published_row_of) (rows ''search.csv''),
          so_eav = (case rows ''properties.csv'' of None \<Rightarrow> None | Some rs \<Rightarrow> gather_eav rs []),
          so_managed = map_option (map (\<lambda>r. (go_get r ''ORGANIZATION_ID'', go_get r ''NAME'')))
            (rows ''managed-acls.csv''),
          so_resolve = (\<lambda>url. case fixture_path dir org url of None \<Rightarrow> None | Some p \<Rightarrow> file p)\<rparr>)"

section \<open>Buckets of pre-16.8 assets\<close>

record aws_mapping =
  aw_org :: string
  aw_key :: string

record bucket_config =
  bc_per_org :: "(string \<times> string) list"
  bc_default :: string

definition bucket_for :: "bucket_config \<Rightarrow> string \<Rightarrow> string" where
  "bucket_for c org = (case map_of (bc_per_org c) org of Some b \<Rightarrow> b | None \<Rightarrow> bc_default c)"

definition bucket_candidates :: "bucket_config \<Rightarrow> string list" where
  "bucket_candidates c =
     fold (\<lambda>b out. if b \<noteq> [] \<and> b \<notin> set out then out @ [b] else out)
       (bc_default c # map (bucket_for c) (sort (remdups (map fst (bc_per_org c))))) []"

datatype resolve_outcome = Direct | CrossOrg | HeadSweep

text \<open>\<open>head\<close> answers whether a bucket has a key, or fails (\<open>None\<close>).\<close>

datatype 'a located = Located 'a | NotFound | HeadFailed

fun head_sweep :: "(string \<Rightarrow> string \<Rightarrow> bool option) \<Rightarrow> string \<Rightarrow> string list \<Rightarrow> (string \<times> resolve_outcome) located" where
  "head_sweep head key [] = NotFound"
| "head_sweep head key (b # bs) =
     (case head b key of
        None \<Rightarrow> HeadFailed
      | Some True \<Rightarrow> Located (b, HeadSweep)
      | Some False \<Rightarrow> head_sweep head key bs)"

definition key_owner :: "string list \<Rightarrow> string \<Rightarrow> string option" where
  "key_owner orgs key =
     (case find (\<lambda>org. has_prefix key (org @ ''/'')) orgs of
        None \<Rightarrow> None | Some org \<Rightarrow> if org = [] then None else Some org)"

definition resolve_aws_object ::
  "aws_mapping \<Rightarrow> string list \<Rightarrow> bucket_config \<Rightarrow> (string \<Rightarrow> string \<Rightarrow> bool option)
     \<Rightarrow> (string \<times> resolve_outcome) located" where
  "resolve_aws_object row orgs cfg head =
     (case key_owner orgs (aw_key row) of
        None \<Rightarrow> head_sweep head (aw_key row) (bucket_candidates cfg)
      | Some owner \<Rightarrow>
          (case head (bucket_for cfg owner) (aw_key row) of
             None \<Rightarrow> HeadFailed
           | Some True \<Rightarrow> Located (bucket_for cfg owner, if owner \<noteq> aw_org row then CrossOrg else Direct)
           | Some False \<Rightarrow> head_sweep head (aw_key row) (bucket_candidates cfg)))"

end
