(* ===== verification/Migrate.thy ===== *)
theory Migrate
  imports Legacy Ingest Ops
begin

text \<open>
  The import of an existing installation, \<open>internal/migrate\<close> (\<open>migrate.go\<close>, \<open>report.go\<close>): one run
  reads a source, writes series, events, versions and publications of one organisation through the
  catalog's own writes, keeps the repoint map from source url to digest, and reports what it drops or
  holds. Every statement commits on its own, so an error leaves what was written before it; the run
  then records it as its outcome. The texts of report lines are left out; hold lines carry their record.
  The lines about skipped organisations come in the order of Go's map iteration, taken here as the
  order of first occurrence.
\<close>

section \<open>State\<close>

record url_row =
  ur_mp :: string
  ur_version :: nat
  ur_element :: string
  ur_kind :: string
  ur_flavor :: string
  ur_sha256 :: string
  ur_run :: nat

datatype report_class =
    OrganizationDropped
  | OrganizationSkipped
  | AclAbsentLine
  | AttachmentClassified
  | InSnapshotPublication
  | NullPublishedAcl
  | RecordPreserved
  | ManagedTemplate
  | Hold

record report_line =
  rl_run :: nat
  rl_class :: report_class
  rl_record :: string

datatype outcome = Running | Complete | CompleteWithHolds | FailedRun

record run_row =
  rr_org :: string
  rr_source :: string
  rr_events :: nat
  rr_series :: nat
  rr_versions :: nat
  rr_objects :: nat
  rr_holds :: nat
  rr_outcome :: outcome

text \<open>The target: object store, catalog and the migration's own three tables.\<close>

record target =
  tg_store :: objects
  tg_cat :: catalog
  tg_urls :: "(string \<times> url_row) list"
  tg_report :: "report_line list"
  tg_runs :: "run_row list"

text \<open>The state of a run: the target, the counters of \<open>Result\<close> and the reporter's holds.\<close>

record migration =
  mg_target :: target
  mg_run :: nat
  mg_events :: nat
  mg_series :: nat
  mg_versions :: nat
  mg_objects :: nat
  mg_holds :: nat

record migrate_env =
  me_deposit :: deposit_env
  me_w3cdtf :: "string \<Rightarrow> int option"
  me_enc :: "snapshot_manifest \<Rightarrow> string"
  me_uid :: "string \<Rightarrow> string"

datatype migrate_error =
    SourceFailed
  | LegacyFailed legacy_error
  | CatalogFailed cat_error
  | MaterialiseFailed deposit_error
  | StartFailed string
  | BytesMissing string
  | Md5Mismatch string
  | NoRecordedHash string

type_synonym step = "migration \<Rightarrow> migrate_error option \<times> migration"

definition andthen :: "step \<Rightarrow> step \<Rightarrow> step" where
  "andthen a b s = (case a s of (Some e, s') \<Rightarrow> (Some e, s') | (None, s') \<Rightarrow> b s')"

fun each :: "('a \<Rightarrow> step) \<Rightarrow> 'a list \<Rightarrow> step" where
  "each f [] s = (None, s)"
| "each f (x # xs) s = andthen (f x) (each f xs) s"

definition fail :: "migrate_error \<Rightarrow> step" where
  "fail e s = (Some e, s)"

definition ok :: step where
  "ok s = (None, s)"

definition on_target :: "(target \<Rightarrow> target) \<Rightarrow> migration \<Rightarrow> migration" where
  "on_target f s = s\<lparr>mg_target := f (mg_target s)\<rparr>"

section \<open>Reports\<close>

definition line :: "report_class \<Rightarrow> string \<Rightarrow> step" where
  "line cls i s =
     (None, on_target (\<lambda>t. t\<lparr>tg_report := tg_report t @ [\<lparr>rl_run = mg_run s, rl_class = cls, rl_record = i\<rparr>]\<rparr>) s)"

definition hold :: "string \<Rightarrow> step" where
  "hold i s = line Hold i (s\<lparr>mg_holds := Suc (mg_holds s)\<rparr>)"

definition on_cat :: "(catalog \<Rightarrow> (cat_error, catalog) result) \<Rightarrow> step" where
  "on_cat f s =
     (case f (tg_cat (mg_target s)) of
        Inl e \<Rightarrow> (Some (CatalogFailed e), s)
      | Inr c \<Rightarrow> (None, on_target (\<lambda>t. t\<lparr>tg_cat := c\<rparr>) s))"

section \<open>Bytes and urls\<close>

definition put_bytes :: "migrate_env \<Rightarrow> string \<Rightarrow> migration \<Rightarrow> string \<times> migration" where
  "put_bytes M b s =
     (case put_file (de_sha256 (me_deposit M)) b (tg_store (mg_target s)) of
        (sha, st) \<Rightarrow> (sha, on_target (\<lambda>t. t\<lparr>tg_store := st\<rparr>) s))"

definition put_element_bytes ::
  "migrate_env \<Rightarrow> source \<Rightarrow> doc_element \<Rightarrow> (string \<Rightarrow> step) \<Rightarrow> step" where
  "put_element_bytes M src el k s =
     (case so_resolve src (dd_url el) of
        None \<Rightarrow> (Some (BytesMissing (dd_url el)), s)
      | Some b \<Rightarrow>
          (if dd_md5 el \<noteq> [] \<and> de_md5 (me_deposit M) b \<noteq> dd_md5 el then (Some (Md5Mismatch (dd_id el)), s)
           else case put_bytes M b s of (sha, s') \<Rightarrow> k sha s'))"

text \<open>\<open>insert .. on conflict (old_url) do nothing\<close>, and a hold when the recorded hash differs.\<close>

definition record_url :: "string \<Rightarrow> url_row \<Rightarrow> step" where
  "record_url url r s =
     (case map_of (tg_urls (mg_target s)) url of
        None \<Rightarrow> (None, on_target (\<lambda>t. t\<lparr>tg_urls := tg_urls t @ [(url, r\<lparr>ur_run := mg_run s\<rparr>)]\<rparr>) s)
      | Some x \<Rightarrow> if ur_sha256 x \<noteq> ur_sha256 r then hold (ur_mp r) s else (None, s))"

definition count_objects :: "nat \<Rightarrow> step" where
  "count_objects n s = (None, s\<lparr>mg_objects := mg_objects s + n\<rparr>)"

definition keep_element :: "migrate_env \<Rightarrow> source \<Rightarrow> string \<Rightarrow> nat \<Rightarrow> doc_element \<Rightarrow> step" where
  "keep_element M src mp v el =
     (if dd_url el = [] then ok
      else put_element_bytes M src el (\<lambda>sha.
        andthen (count_objects 1) (record_url (dd_url el)
          \<lparr>ur_mp = mp, ur_version = v, ur_element = dd_id el, ur_kind = dd_kind el, ur_flavor = dd_flavor el,
           ur_sha256 = sha, ur_run = 0\<rparr>)))"

section \<open>Series\<close>

definition legacy :: "(legacy_error, 'a) result \<Rightarrow> ('a \<Rightarrow> step) \<Rightarrow> step" where
  "legacy r k = (case r of Inl e \<Rightarrow> fail (LegacyFailed e) | Inr a \<Rightarrow> k a)"

definition texts :: "migrate_env \<Rightarrow> text_env" where
  "texts M = de_text (me_deposit M)"

definition migrate_series :: "migrate_env \<Rightarrow> series_src \<Rightarrow> step" where
  "migrate_series M r =
     legacy (parse_dc (texts M) (ser_dc r)) (\<lambda>dc.
     legacy (dc_time (me_w3cdtf M) dc ''created'') (\<lambda>created.
       andthen
         (on_cat (\<lambda>c. Inr (put_series (ser_id r)
            \<lparr>sm_title = dc_first dc ''title'', sm_contributors = dc ''contributor'', sm_organizers = dc ''creator'',
             sm_language = dc_first dc ''language'', sm_description = dc_first dc ''description'',
             sm_subjects = dc ''subject'', sm_created = created\<rparr> c)))
         (case ser_acl r of
            None \<Rightarrow> line AclAbsentLine (ser_id r)
          | Some doc \<Rightarrow>
              legacy (parse_plain_acl (texts M) doc) (\<lambda>es. on_cat (set_acl_series (ser_id r) es)))))"

definition series_step :: "migrate_env \<Rightarrow> string \<Rightarrow> series_src \<Rightarrow> step" where
  "series_step M org r =
     (if ser_org r \<noteq> org then ok
      else if ser_deleted r \<noteq> [] then hold (ser_id r)
      else andthen (migrate_series M r) (\<lambda>s. (None, s\<lparr>mg_series := Suc (mg_series s)\<rparr>)))"

section \<open>Events\<close>

definition operable :: "doc_element list \<Rightarrow> manifest_el list" where
  "operable els =
     map (\<lambda>e. \<lparr>me_id = dd_id e, me_kind = dd_kind e, me_flavor = dd_flavor e, me_mimetype = dd_mimetype e,
            me_url = dd_url e, me_md5 = dd_md5 e, me_tags = dd_tags e\<rparr>)
       (filter (\<lambda>e. \<not> is_security_xacml e) els)"

definition doc_to_manifest :: "text_env \<Rightarrow> document \<Rightarrow> (migrate_error, manifest) result" where
  "doc_to_manifest T doc =
     (let m = \<lparr>mf_id = do_id doc, mf_title = do_title doc, mf_start = None, mf_duration = do_duration doc,
               mf_elements = operable (do_elements doc)\<rparr>
      in if do_start doc = [] then Inr m
         else case rfc3339 T (do_start doc) of
           None \<Rightarrow> Inl (StartFailed (do_start doc))
         | Some t \<Rightarrow> Inr (m\<lparr>mf_start := Some t\<rparr>))"

definition materialise_step :: "migrate_env \<Rightarrow> source \<Rightarrow> manifest \<Rightarrow> step" where
  "materialise_step M src m s =
     (case materialise (me_deposit M) (\<lambda>st. so_resolve src) m (tg_store (mg_target s), tg_cat (mg_target s)) of
        (e, st, c) \<Rightarrow> (map_option MaterialiseFailed e, on_target (\<lambda>t. t\<lparr>tg_store := st, tg_cat := c\<rparr>) s))"

definition episode_catalog :: "doc_element \<Rightarrow> bool" where
  "episode_catalog e = (dd_kind e = ''catalog'' \<and> dd_flavor e = ''dublincore/episode'')"

definition no_metadata :: "string \<Rightarrow> metadata" where
  "no_metadata sid = \<lparr>m_creators = [], m_contributors = [], m_language = [], m_description = [], m_subjects = [],
     m_location = [], m_license = [], m_created = None, m_series = sid, m_status = []\<rparr>"

definition set_event_metadata :: "migrate_env \<Rightarrow> source \<Rightarrow> document \<Rightarrow> step" where
  "set_event_metadata M src doc =
     (case find episode_catalog (do_elements doc) of
        None \<Rightarrow> on_cat (set_metadata (do_id doc) (no_metadata (do_series doc)))
      | Some el \<Rightarrow>
          (case so_resolve src (dd_url el) of
             None \<Rightarrow> fail (BytesMissing (dd_url el))
           | Some raw \<Rightarrow>
               legacy (parse_dc (texts M) raw) (\<lambda>dc.
               legacy (dc_time (me_w3cdtf M) dc ''created'') (\<lambda>created.
                 on_cat (set_metadata (do_id doc)
                   \<lparr>m_creators = dc ''creator'', m_contributors = dc ''contributor'',
                    m_language = dc_first dc ''language'', m_description = dc_first dc ''description'',
                    m_subjects = dc ''subject'', m_location = dc_first dc ''spatial'',
                    m_license = dc_first dc ''license'', m_created = created, m_series = do_series doc,
                    m_status = []\<rparr>)))))"

text \<open>The archive ACL against its enforcement copy: equal sets are written, anything else is held.\<close>

definition acl_step :: "string \<Rightarrow> archive_acl \<Rightarrow> entry list \<Rightarrow> step" where
  "acl_step mp resolved eav =
     (case resolved of
        AclPresent es \<Rightarrow>
          (if \<not> entry_set_equal es eav then hold mp else on_cat (set_acl_event mp es))
      | AclAbsent \<Rightarrow> if eav \<noteq> [] then hold mp else line AclAbsentLine mp)"

definition version_element :: "target \<Rightarrow> doc_element \<Rightarrow> (migrate_error, snapshot_element) result" where
  "version_element t el =
     (case map_of (tg_urls t) (dd_url el) of
        None \<Rightarrow> Inl (NoRecordedHash (dd_url el))
      | Some r \<Rightarrow> Inr \<lparr>ne_id = dd_id el, ne_kind = dd_kind el, ne_flavor = dd_flavor el, ne_mimetype = dd_mimetype el,
           ne_sha256 = ur_sha256 r, ne_size = dd_size el, ne_tags = sort (dd_tags el)\<rparr>)"

definition version_manifest :: "target \<Rightarrow> string \<Rightarrow> document \<Rightarrow> (migrate_error, snapshot_manifest) result" where
  "version_manifest t mp doc =
     bind_result (traverse (version_element t) (filter (\<lambda>e. \<not> is_security_xacml e) (do_elements doc))) (\<lambda>els.
       Inr (canonical \<lparr>nm_mediapackage = mp, nm_title = do_title doc, nm_duration = do_duration doc, nm_elements = els\<rparr>))"

definition upsert_snapshot :: "string \<Rightarrow> nat \<Rightarrow> string \<Rightarrow> string \<Rightarrow> catalog \<Rightarrow> (cat_error, catalog) result" where
  "upsert_snapshot mp v sha srcsha c =
     (if map_of (c_mp c) mp = None then Inl ForeignKey
      else if list_ex (\<lambda>s. sn_mp s = mp \<and> sn_version s = v) (c_snap c)
      then Inr (c\<lparr>c_snap := update_where (\<lambda>s. sn_mp s = mp \<and> sn_version s = v)
                    (\<lambda>s. s\<lparr>sn_manifest := sha, sn_source := Some srcsha\<rparr>) (c_snap c)\<rparr>)
      else Inr (c\<lparr>c_snap := c_snap c @ [\<lparr>sn_mp = mp, sn_version = v, sn_manifest = sha, sn_source = Some srcsha\<rparr>]\<rparr>))"

definition record_version :: "migrate_env \<Rightarrow> string \<Rightarrow> snapshot_src \<Rightarrow> document \<Rightarrow> step" where
  "record_version M mp v doc s =
     (case version_manifest (mg_target s) mp doc of
        Inl e \<Rightarrow> (Some e, s)
      | Inr m \<Rightarrow>
          (case put_bytes M (me_enc M m) s of (sha, s1) \<Rightarrow>
          (case put_bytes M (sr_xml v) s1 of (srcsha, s2) \<Rightarrow>
             andthen (count_objects 2)
               (andthen (on_cat (upsert_snapshot mp (sr_version v) sha srcsha))
                 (\<lambda>s. (None, s\<lparr>mg_versions := Suc (mg_versions s)\<rparr>))) s2)))"

definition all_doc_elements :: "document \<Rightarrow> doc_element list" where
  "all_doc_elements doc = do_elements doc @ concat (map dp_elements (do_publications doc))"

definition held_availability :: "snapshot_src \<Rightarrow> bool" where
  "held_availability v = (sr_availability v \<noteq> [] \<and> sr_availability v \<noteq> ''ONLINE'')"

definition version_step ::
  "migrate_env \<Rightarrow> source \<Rightarrow> string \<Rightarrow> snapshot_src \<Rightarrow> document \<Rightarrow> snapshot_src \<Rightarrow> step" where
  "version_step M src mp latest latest_doc v =
     (if held_availability v then hold mp
      else legacy (if sr_version v \<noteq> sr_version latest then parse_document (texts M) (sr_xml v) else Inr latest_doc)
        (\<lambda>doc. andthen (each (keep_element M src mp (sr_version v)) (all_doc_elements doc))
                 (record_version M mp v doc)))"

text \<open>Whether some recorded version has publication containers of its own.\<close>

definition has_publications :: "migrate_env \<Rightarrow> snapshot_src \<Rightarrow> document \<Rightarrow> snapshot_src \<Rightarrow> bool" where
  "has_publications M latest latest_doc v =
     (\<not> held_availability v \<and>
      (case (if sr_version v \<noteq> sr_version latest then parse_document (texts M) (sr_xml v) else Inr latest_doc) of
         Inl e \<Rightarrow> False | Inr doc \<Rightarrow> do_publications doc \<noteq> []))"

definition archive_step ::
  "migrate_env \<Rightarrow> source \<Rightarrow> string \<Rightarrow> snapshot_src list \<Rightarrow> document \<Rightarrow> step" where
  "archive_step M src mp versions latest_doc =
     andthen (each (version_step M src mp (last versions) latest_doc) versions)
       (if list_ex (has_publications M (last versions) latest_doc) versions
        then line InSnapshotPublication mp else ok)"

definition migrate_event ::
  "migrate_env \<Rightarrow> source \<Rightarrow> string \<Rightarrow> snapshot_src list \<Rightarrow> entry list \<Rightarrow> step" where
  "migrate_event M src merge_mode versions eav =
     (let mp = sr_mp (hd versions); latest = last versions
      in legacy (parse_document (texts M) (sr_xml latest)) (\<lambda>doc.
           case doc_to_manifest (texts M) doc of
             Inl e \<Rightarrow> fail e
           | Inr m \<Rightarrow>
               andthen (if list_ex is_security_xacml (do_elements doc) then line AttachmentClassified mp else ok)
              (andthen (materialise_step M src m)
              (andthen (set_event_metadata M src doc)
                (case resolve_archive_acl (texts M) (so_resolve src) merge_mode doc of
                   Inl e \<Rightarrow> hold mp
                 | Inr resolved \<Rightarrow>
                     andthen (acl_step mp resolved eav) (archive_step M src mp versions doc))))))"

section \<open>Publications\<close>

datatype published_acl = Pin acl_state "string list" | Denying

definition pin_of :: "entry list \<Rightarrow> published_acl" where
  "pin_of es =
     (if list_ex (\<lambda>e. \<not> allow e) es then Denying
      else if es = [] then Pin StateEmpty []
      else Pin StatePopulated (sort (remdups (map role (filter (\<lambda>e. action e = ''read'') es)))))"

fun add_references :: "string \<Rightarrow> string list \<Rightarrow> catalog \<Rightarrow> (cat_error, catalog) result" where
  "add_references p [] c = Inr c"
| "add_references p (i # ids) c =
     (if map_of (c_el c) i = None then Inl ForeignKey
      else add_references p ids (c\<lparr>c_pubel := insert_ignore (p, i) (c_pubel c)\<rparr>))"

definition publish_record ::
  "string \<Rightarrow> string \<Rightarrow> acl_state \<Rightarrow> string list \<Rightarrow> string list \<Rightarrow> catalog \<Rightarrow> (cat_error, catalog) result" where
  "publish_record uid mp st pin ids c =
     (if map_of (c_mp c) mp = None then Inl ForeignKey
      else let pid = (case map_of (c_pub c) (mp, engage_player) of None \<Rightarrow> uid | Some p \<Rightarrow> pub_id p)
        in bind_result (add_references pid ids (c\<lparr>c_pub := AList.update (mp, engage_player)
              \<lparr>pub_id = pid, pub_acl_read = set pin, pub_acl_state = st\<rparr> (c_pub c)\<rparr>)) (project_event mp))"

definition migrate_published ::
  "migrate_env \<Rightarrow> source \<Rightarrow> published_src \<Rightarrow> acl_state \<Rightarrow> string list \<Rightarrow> step" where
  "migrate_published M src p st pin s =
     (case put_bytes M (pbs_xml p) s of (recsha, s1) \<Rightarrow>
        andthen (count_objects 1)
       (andthen (line RecordPreserved (pbs_id p))
          (legacy (parse_document (texts M) (pbs_xml p)) (\<lambda>doc.
             andthen (materialise_step M src \<lparr>mf_id = pbs_id p, mf_title = [], mf_start = None, mf_duration = 0,
                        mf_elements = operable (do_elements doc)\<rparr>)
            (andthen (each (keep_element M src (pbs_id p) 0) (do_elements doc))
               (on_cat (publish_record (me_uid M (pbs_id p)) (pbs_id p) st pin
                  (map me_id (operable (do_elements doc))))))))) s1)"

definition migrate_publication :: "migrate_env \<Rightarrow> source \<Rightarrow> published_src \<Rightarrow> step" where
  "migrate_publication M src p =
     (if pbs_deleted p \<noteq> [] then hold (pbs_id p)
      else case pbs_acl p of
        None \<Rightarrow> andthen (line NullPublishedAcl (pbs_id p)) (migrate_published M src p StateAbsent [])
      | Some doc \<Rightarrow>
          legacy (parse_plain_acl (texts M) doc) (\<lambda>es.
            case pin_of es of
              Denying \<Rightarrow> hold (pbs_id p)
            | Pin st pin \<Rightarrow> migrate_published M src p st pin))"

section \<open>The run\<close>

definition event_versions :: "snapshot_src list \<Rightarrow> string \<Rightarrow> snapshot_src list" where
  "event_versions snaps i = sort_key sr_version (filter (\<lambda>s. sr_mp s = i) snaps)"

definition event_step ::
  "migrate_env \<Rightarrow> source \<Rightarrow> string \<Rightarrow> snapshot_src list \<Rightarrow> (string \<times> published_src) list
     \<Rightarrow> (string \<times> entry list) list \<Rightarrow> string \<Rightarrow> step" where
  "event_step M src merge_mode snaps pubs eav i =
     andthen (migrate_event M src merge_mode (event_versions snaps i)
                (case map_of eav i of None \<Rightarrow> [] | Some es \<Rightarrow> es))
    (andthen (case map_of pubs i of None \<Rightarrow> ok | Some p \<Rightarrow> migrate_publication M src p)
       (\<lambda>s. (None, s\<lparr>mg_events := Suc (mg_events s)\<rparr>)))"

definition run_tables ::
  "migrate_env \<Rightarrow> source \<Rightarrow> string \<Rightarrow> string \<Rightarrow> snapshot_src list \<Rightarrow> series_src list \<Rightarrow> published_src list
     \<Rightarrow> (string \<times> entry list) list \<Rightarrow> (string \<times> string) list \<Rightarrow> step" where
  "run_tables M src org merge_mode snaps sers pubs eav managed =
     (let mine = filter (\<lambda>x. sr_org x = org) snaps;
          others = remdups (filter (\<lambda>g. g \<noteq> org)
            (map sr_org snaps @ map ser_org sers @ map pbs_org pubs @ map fst managed));
          by_id = rev (map (\<lambda>p. (pbs_id p, p)) (filter (\<lambda>p. pbs_org p = org) pubs))
      in andthen (line OrganizationDropped org)
        (andthen (each (line OrganizationSkipped) others)
        (andthen (each (series_step M org) sers)
        (andthen (each (event_step M src merge_mode mine by_id eav) (sort (remdups (map sr_mp mine))))
           (each (\<lambda>(g, name). if g = org then line ManagedTemplate name else ok) managed)))))"

definition run_migration :: "migrate_env \<Rightarrow> source \<Rightarrow> string \<Rightarrow> step" where
  "run_migration M src org =
     (case (so_merge_mode src, so_snapshots src, so_series src, so_published src, so_eav src, so_managed src) of
        (Some mode, Some snaps, Some sers, Some pubs, Some eav, Some managed) \<Rightarrow>
          run_tables M src org mode snaps sers pubs eav managed
      | _ \<Rightarrow> fail SourceFailed)"

definition finish_run :: "outcome \<Rightarrow> migration \<Rightarrow> target" where
  "finish_run out s =
     (mg_target s)\<lparr>tg_runs := (tg_runs (mg_target s))[mg_run s :=
        (tg_runs (mg_target s) ! mg_run s)\<lparr>rr_events := mg_events s, rr_series := mg_series s,
          rr_versions := mg_versions s, rr_objects := mg_objects s, rr_holds := mg_holds s, rr_outcome := out\<rparr>]\<rparr>"

text \<open>\<open>Run\<close>: a run row is the position of its row in \<open>migration_run\<close>.\<close>

definition run_import :: "migrate_env \<Rightarrow> source \<Rightarrow> string \<Rightarrow> target \<Rightarrow> migrate_error option \<times> target" where
  "run_import M src org t =
     (let s0 = \<lparr>mg_target = t\<lparr>tg_runs := tg_runs t @ [\<lparr>rr_org = org, rr_source = so_label src, rr_events = 0,
                 rr_series = 0, rr_versions = 0, rr_objects = 0, rr_holds = 0, rr_outcome = Running\<rparr>]\<rparr>,
               mg_run = length (tg_runs t), mg_events = 0, mg_series = 0, mg_versions = 0, mg_objects = 0, mg_holds = 0\<rparr>
      in case run_migration M src org s0 of
           (Some e, s) \<Rightarrow> (Some e, finish_run FailedRun s)
         | (None, s) \<Rightarrow> (None, finish_run (if 0 < mg_holds s then CompleteWithHolds else Complete) s))"

end
