(* ===== verification/MigrateProps.thy ===== *)
theory MigrateProps
  imports Migrate IngestProps
begin

text \<open>
  Lemmas of the import. What a step may do to the target is a preorder: nothing recorded is taken back,
  reports only grow and count their holds, and every digest the run records has its object. The
  preorder is closed under the combinators (locale \<open>growing\<close>), so it holds of a whole run once it
  holds of the primitive steps; the postconditions of the steps then survive to the end of the run.
\<close>

section \<open>Preorders on the state of a run\<close>

locale growing =
  fixes le :: "migration \<Rightarrow> migration \<Rightarrow> bool"
  assumes le_refl: "le s s"
    and le_trans: "le s t \<Longrightarrow> le t u \<Longrightarrow> le s u"
begin

definition grows_by :: "step \<Rightarrow> bool" where
  "grows_by f = (\<forall>s. le s (snd (f s)))"

lemma grows_andthen: "grows_by a \<Longrightarrow> grows_by b \<Longrightarrow> grows_by (andthen a b)"
  by (auto simp: grows_by_def andthen_def split: prod.split option.split)
     (metis le_trans snd_conv)+

lemma grows_each: "(\<And>x. x \<in> set xs \<Longrightarrow> grows_by (f x)) \<Longrightarrow> grows_by (each f xs)"
proof (induction xs)
  case Nil
  then show ?case by (simp add: grows_by_def le_refl)
next
  case (Cons x xs)
  then have "grows_by (andthen (f x) (each f xs))" by (intro grows_andthen) auto
  then show ?case by (simp add: grows_by_def)
qed

lemma grows_fail: "grows_by (fail e)"
  by (simp add: grows_by_def fail_def le_refl)

lemma grows_ok: "grows_by ok"
  by (simp add: grows_by_def ok_def le_refl)

lemma grows_legacy: "(\<And>a. r = Inr a \<Longrightarrow> grows_by (k a)) \<Longrightarrow> grows_by (legacy r k)"
  by (cases r) (auto simp: legacy_def grows_fail)

text \<open>What a step of a sequence established holds at its end when growing keeps it.\<close>

lemma each_reaches:
  assumes run: "each f xs s = (None, s')" and x: "x \<in> set xs"
    and grow: "\<And>x. x \<in> set xs \<Longrightarrow> grows_by (f x)"
    and post: "\<And>s s'. f x s = (None, s') \<Longrightarrow> P s'"
    and keep: "\<And>s s'. P s \<Longrightarrow> le s s' \<Longrightarrow> P s'"
  shows "P s'"
  using run x grow
proof (induction xs arbitrary: s)
  case (Cons y ys)
  obtain s1 where 1: "f y s = (None, s1)" and 2: "each f ys s1 = (None, s')"
    using Cons.prems(1) by (auto simp: andthen_def split: prod.splits option.splits)
  have rest: "le s1 s'"
    using grows_each [of ys f] Cons.prems(3) 2 by (auto simp: grows_by_def) (metis snd_conv)
  show ?case
  proof (cases "x = y")
    case True
    then show ?thesis using post [of s s1] 1 rest keep by blast
  next
    case False
    then show ?thesis using Cons.IH [OF 2] Cons.prems(2,3) by auto
  qed
qed simp

end

lemma andthen_done: "andthen a b s = (None, s') \<Longrightarrow> \<exists>s1. a s = (None, s1) \<and> b s1 = (None, s')"
  by (auto simp: andthen_def split: prod.splits option.splits)

section \<open>What the target keeps\<close>

definition cat_le :: "catalog \<Rightarrow> catalog \<Rightarrow> bool" where
  "cat_le c c' =
     (dom (map_of (c_mp c)) \<subseteq> dom (map_of (c_mp c')) \<and> dom (map_of (c_series c)) \<subseteq> dom (map_of (c_series c')) \<and>
      dom (map_of (c_pub c)) \<subseteq> dom (map_of (c_pub c')) \<and>
      (\<forall>s \<in> set (c_snap c). \<exists>s' \<in> set (c_snap c'). sn_mp s' = sn_mp s \<and> sn_version s' = sn_version s \<and>
         (sn_source s \<noteq> None \<longrightarrow> sn_source s' \<noteq> None)))"

lemma cat_le_refl [simp]: "cat_le c c"
  by (auto simp: cat_le_def)

lemma cat_le_trans: "cat_le c d \<Longrightarrow> cat_le d e \<Longrightarrow> cat_le c e"
  unfolding cat_le_def by (metis (no_types, lifting) subset_trans)

lemma cat_le_snap:
  "c_snap d = c_snap c \<Longrightarrow> dom (map_of (c_mp c)) \<subseteq> dom (map_of (c_mp d)) \<Longrightarrow>
     dom (map_of (c_series c)) \<subseteq> dom (map_of (c_series d)) \<Longrightarrow> dom (map_of (c_pub c)) \<subseteq> dom (map_of (c_pub d)) \<Longrightarrow>
     cat_le c d"
  by (auto simp: cat_le_def)

definition snap_backed :: "objects \<Rightarrow> catalog \<Rightarrow> bool" where
  "snap_backed st c =
     (\<forall>s \<in> set (c_snap c). \<forall>x. sn_source s = Some x \<longrightarrow> cas_exists st (sn_manifest s) \<and> cas_exists st x)"

definition backed :: "target \<Rightarrow> bool" where
  "backed t =
     ((\<forall>(u, r) \<in> set (tg_urls t). cas_exists (tg_store t) (ur_sha256 r)) \<and> snap_backed (tg_store t) (tg_cat t))"

definition hold_lines :: "report_line list \<Rightarrow> nat" where
  "hold_lines ls = length (filter (\<lambda>l. rl_class l = Hold) ls)"

definition reported :: "migration \<Rightarrow> migration \<Rightarrow> bool" where
  "reported s s' =
     (mg_run s' = mg_run s \<and> tg_runs (mg_target s') = tg_runs (mg_target s) \<and>
      (\<exists>ls. tg_report (mg_target s') = tg_report (mg_target s) @ ls \<and> mg_holds s' = mg_holds s + hold_lines ls \<and>
         (\<forall>l \<in> set ls. rl_run l = mg_run s)))"

definition extends :: "migration \<Rightarrow> migration \<Rightarrow> bool" where
  "extends s s' =
     (map_of (tg_store (mg_target s)) \<subseteq>\<^sub>m map_of (tg_store (mg_target s')) \<and>
      map_of (tg_urls (mg_target s)) \<subseteq>\<^sub>m map_of (tg_urls (mg_target s')) \<and>
      cat_le (tg_cat (mg_target s)) (tg_cat (mg_target s')) \<and> reported s s' \<and>
      (backed (mg_target s) \<longrightarrow> backed (mg_target s')))"

lemma reported_refl: "reported s s"
  by (simp add: reported_def hold_lines_def)

lemma reported_trans:
  assumes "reported s t" and "reported t u"
  shows "reported s u"
proof -
  obtain ls ms where
    "tg_report (mg_target t) = tg_report (mg_target s) @ ls" "mg_holds t = mg_holds s + hold_lines ls"
    "\<forall>l \<in> set ls. rl_run l = mg_run s"
    "tg_report (mg_target u) = tg_report (mg_target t) @ ms" "mg_holds u = mg_holds t + hold_lines ms"
    "\<forall>l \<in> set ms. rl_run l = mg_run t"
    using assms unfolding reported_def by blast
  then show ?thesis
    using assms unfolding reported_def by (intro conjI exI [of _ "ls @ ms"]) (auto simp: hold_lines_def)
qed

lemma extends_trans: "extends s t \<Longrightarrow> extends t u \<Longrightarrow> extends s u"
  unfolding extends_def by (blast intro: map_le_trans cat_le_trans reported_trans)

interpretation import_state: growing extends
proof
  show "extends s s" for s by (simp add: extends_def reported_refl)
  show "extends s t \<Longrightarrow> extends t u \<Longrightarrow> extends s u" for s t u by (rule extends_trans)
qed

lemma cas_exists_mono: "map_of st \<subseteq>\<^sub>m map_of st' \<Longrightarrow> cas_exists st h \<Longrightarrow> cas_exists st' h"
  by (auto simp: cas_exists_def map_le_def dom_def)

lemma backed_mono:
  "map_of (tg_store t) \<subseteq>\<^sub>m map_of (tg_store t') \<Longrightarrow> tg_urls t' = tg_urls t \<Longrightarrow>
     c_snap (tg_cat t') = c_snap (tg_cat t) \<Longrightarrow> backed t \<Longrightarrow> backed t'"
  unfolding backed_def snap_backed_def using cas_exists_mono by fastforce

section \<open>The catalog's writes only add\<close>

lemma project_series_frames:
  "c_snap (project_series s c) = c_snap c" "c_series (project_series s c) = c_series c"
  "c_mp (project_series s c) = c_mp c" "c_pub (project_series s c) = c_pub c"
  using project_series_only [of s c] by auto

definition adds :: "catalog \<Rightarrow> catalog \<Rightarrow> bool" where
  "adds c c' = (cat_le c c' \<and> c_snap c' = c_snap c)"

lemma adds_put_series: "adds c (put_series i md c)"
  by (auto simp: adds_def put_series_def project_series_frames table_simps intro!: cat_le_snap)

lemma adds_set_acl_series: "set_acl_series i es c = Inr c' \<Longrightarrow> adds c c'"
  by (auto simp: adds_def set_acl_series_def project_series_frames intro!: cat_le_snap)

lemma adds_set_acl_event: "set_acl_event i es c = Inr c' \<Longrightarrow> adds c c'"
  by (auto simp: adds_def set_acl_event_def dest!: project_event_only intro!: cat_le_snap)

lemma adds_set_metadata: "set_metadata i md c = Inr c' \<Longrightarrow> adds c c'"
  by (auto simp: adds_def set_metadata_def Let_def table_simps split: option.splits if_splits
      dest!: project_event_only intro!: cat_le_snap)

lemma adds_materialise:
  assumes "materialise E g m s = (e, s')"
  shows "map_of (fst s) \<subseteq>\<^sub>m map_of (fst s') \<and> adds (snd s) (snd s')"
  using assms
proof (cases rule: materialise_cases)
  case early
  then show ?thesis by (simp add: adds_def)
next
  case (row mp c)
  have g: "grows (fst s, c) s'" by (rule materialise_elements_grows [OF row(4)])
  have "adds (snd s) c"
    using row(3) by (auto simp: adds_def materialise_row_def map_add_def dest!: project_event_only
        split: if_splits option.splits intro!: cat_le_snap)
  moreover have "adds c (snd s')"
    using g by (auto simp: adds_def grows_def intro!: cat_le_snap)
  ultimately show ?thesis using g by (auto simp: grows_def adds_def intro: cat_le_trans)
qed

lemma add_references_frame:
  "add_references p ids c = Inr c' \<Longrightarrow> c_snap c' = c_snap c \<and> c_mp c' = c_mp c \<and> c_pub c' = c_pub c \<and> c_series c' = c_series c"
  by (induction p ids c rule: add_references.induct) (auto split: if_splits)

lemma adds_publish_record:
  "publish_record uid mp st pin ids c = Inr c' \<Longrightarrow> adds c c' \<and> map_of (c_pub c') (mp, engage_player) \<noteq> None"
  by (auto simp: adds_def publish_record_def Let_def table_simps dest!: project_event_only add_references_frame
      split: if_splits intro!: cat_le_snap)

section \<open>Every step extends the target\<close>

abbreviation grows_run :: "step \<Rightarrow> bool" where
  "grows_run \<equiv> import_state.grows_by"

lemma grows_runI: "(\<And>s. extends s (snd (f s))) \<Longrightarrow> grows_run f"
  by (simp add: import_state.grows_by_def)

lemma grows_runD: "grows_run f \<Longrightarrow> f s = (e, s') \<Longrightarrow> extends s s'"
  by (auto simp: import_state.grows_by_def) (metis snd_conv)

text \<open>Changes of the counters alone, and of one table alone.\<close>

lemma extends_same_target:
  "mg_target s' = mg_target s \<Longrightarrow> mg_run s' = mg_run s \<Longrightarrow> mg_holds s' = mg_holds s \<Longrightarrow> extends s s'"
  by (simp add: extends_def reported_def hold_lines_def)

lemma extends_cat:
  "adds (tg_cat (mg_target s)) c \<Longrightarrow> extends s (on_target (\<lambda>t. t\<lparr>tg_cat := c\<rparr>) s)"
  by (auto simp: extends_def adds_def on_target_def reported_def hold_lines_def backed_def snap_backed_def)

lemma extends_store:
  "map_of (tg_store (mg_target s)) \<subseteq>\<^sub>m map_of st \<Longrightarrow> extends s (on_target (\<lambda>t. t\<lparr>tg_store := st\<rparr>) s)"
  by (auto simp: extends_def on_target_def reported_def hold_lines_def intro: backed_mono)

lemma grows_line: "cls \<noteq> Hold \<Longrightarrow> grows_run (line cls i)"
  by (auto simp: extends_def line_def on_target_def reported_def hold_lines_def backed_def intro!: grows_runI)

lemma grows_hold: "grows_run (hold i)"
  by (auto simp: extends_def hold_def line_def on_target_def reported_def hold_lines_def backed_def intro!: grows_runI)

lemma grows_count: "grows_run (count_objects n)"
  by (auto simp: count_objects_def intro!: grows_runI extends_same_target)

lemma grows_on_cat: "(\<And>c c'. f c = Inr c' \<Longrightarrow> adds c c') \<Longrightarrow> grows_run (on_cat f)"
  by (auto simp: on_cat_def import_state.le_refl intro!: grows_runI extends_cat split: sum.split)

lemma put_bytes_facts:
  "extends s (snd (put_bytes M b s)) \<and> fst (put_bytes M b s) = de_sha256 (me_deposit M) b \<and>
     cas_exists (tg_store (mg_target (snd (put_bytes M b s)))) (de_sha256 (me_deposit M) b)"
  using extends_store [OF put_file_grows] put_file_digest [of "de_sha256 (me_deposit M)" b]
    put_file_exists [of "de_sha256 (me_deposit M)" b]
  by (auto simp: put_bytes_def case_prod_beta on_target_def)

lemma extends_record_url:
  assumes "cas_exists (tg_store (mg_target s)) (ur_sha256 r)"
  shows "extends s (snd (record_url u r s))"
proof (cases "map_of (tg_urls (mg_target s)) u")
  case None
  then show ?thesis
    using assms by (auto simp: record_url_def extends_def on_target_def reported_def hold_lines_def map_le_def map_add_def backed_def
        split: option.split)
next
  case (Some x)
  then show ?thesis
    using grows_hold [of "ur_mp r"] by (auto simp: record_url_def import_state.grows_by_def import_state.le_refl)
qed

lemma grows_keep_element: "grows_run (keep_element M src mp v el)"
proof (rule grows_runI)
  fix s
  show "extends s (snd (keep_element M src mp v el s))"
  proof (cases "dd_url el = [] \<or> so_resolve src (dd_url el) = None")
    case True
    then show ?thesis by (auto simp: keep_element_def ok_def put_element_bytes_def import_state.le_refl)
  next
    case False
    then obtain b where b: "dd_url el \<noteq> []" "so_resolve src (dd_url el) = Some b" by auto
    let ?s1 = "snd (put_bytes M b s)" and ?sha = "de_sha256 (me_deposit M) b"
    let ?s2 = "snd (count_objects 1 ?s1)"
    have 1: "extends s ?s1" "cas_exists (tg_store (mg_target ?s1)) ?sha" using put_bytes_facts [of s M b] by auto
    have 2: "extends ?s1 ?s2" "mg_target ?s2 = mg_target ?s1"
      using grows_count [of 1] by (auto simp: import_state.grows_by_def count_objects_def)
    have "extends ?s2 (snd (record_url (dd_url el) r ?s2))" if "ur_sha256 r = ?sha" for r
      using extends_record_url [of ?s2 r] 1(2) 2(2) that by simp
    then show ?thesis
      using b 1(1) 2(1) put_bytes_facts [of s M b]
      by (auto simp: keep_element_def put_element_bytes_def case_prod_beta andthen_def count_objects_def import_state.le_refl
          intro: extends_trans)
  qed
qed

lemma upsert_facts:
  assumes "upsert_snapshot mp v sha x c = Inr c'"
  shows "cat_le c c'"
    and "\<exists>s \<in> set (c_snap c'). sn_mp s = mp \<and> sn_version s = v \<and> sn_source s = Some x \<and> sn_manifest s = sha"
    and "snap_backed st c \<Longrightarrow> cas_exists st sha \<Longrightarrow> cas_exists st x \<Longrightarrow> snap_backed st c'"
proof -
  let ?p = "\<lambda>s. sn_mp s = mp \<and> sn_version s = v" and ?f = "\<lambda>s. s\<lparr>sn_manifest := sha, sn_source := Some x\<rparr>"
  show "cat_le c c'"
  proof (cases "list_ex ?p (c_snap c)")
    case True
    then have c': "c' = c\<lparr>c_snap := update_where ?p ?f (c_snap c)\<rparr>"
      using assms by (simp add: upsert_snapshot_def split: if_splits)
    have "\<exists>s' \<in> set (update_where ?p ?f (c_snap c)). sn_mp s' = sn_mp s \<and> sn_version s' = sn_version s \<and>
        (sn_source s \<noteq> None \<longrightarrow> sn_source s' \<noteq> None)" if "s \<in> set (c_snap c)" for s
      using update_where_memI [OF that, of ?p ?f] by (intro bexI [of _ "if ?p s then ?f s else s"]) auto
    then show ?thesis by (simp add: cat_le_def c')
  next
    case False
    then show ?thesis using assms by (auto simp: upsert_snapshot_def cat_le_def split: if_splits)
  qed
  show "\<exists>s \<in> set (c_snap c'). sn_mp s = mp \<and> sn_version s = v \<and> sn_source s = Some x \<and> sn_manifest s = sha"
  proof (cases "list_ex ?p (c_snap c)")
    case True
    then obtain s where s: "s \<in> set (c_snap c)" "?p s" by (auto simp: list_ex_iff)
    then show ?thesis
      using True assms update_where_hit [OF s(1), of ?p ?f]
      by (intro bexI [of _ "?f s"]) (auto simp: upsert_snapshot_def split: if_splits)
  next
    case False
    then show ?thesis using assms by (auto simp: upsert_snapshot_def split: if_splits)
  qed
  show "snap_backed st c'" if "snap_backed st c" "cas_exists st sha" "cas_exists st x"
    using assms that
    by (auto simp: upsert_snapshot_def snap_backed_def split: if_splits elim!: update_where_memE)
qed

lemma grows_record_version:
  "grows_run (record_version M mp v doc)"
  "record_version M mp v doc s = (None, s') \<Longrightarrow>
     \<exists>x \<in> set (c_snap (tg_cat (mg_target s'))). sn_mp x = mp \<and> sn_version x = sr_version v \<and>
       sn_source x = Some (de_sha256 (me_deposit M) (sr_xml v))"
proof -
  have both: "extends s (snd (record_version M mp v doc s)) \<and>
      (fst (record_version M mp v doc s) = None \<longrightarrow>
        (\<exists>x \<in> set (c_snap (tg_cat (mg_target (snd (record_version M mp v doc s))))). sn_mp x = mp \<and>
           sn_version x = sr_version v \<and> sn_source x = Some (de_sha256 (me_deposit M) (sr_xml v))))" for s
  proof (cases "version_manifest (mg_target s) mp doc")
    case (Inl e)
    then show ?thesis by (simp add: record_version_def import_state.le_refl)
  next
    case (Inr m)
    let ?h = "de_sha256 (me_deposit M)"
    let ?s1 = "snd (put_bytes M (me_enc M m) s)"
    let ?s2 = "snd (put_bytes M (sr_xml v) ?s1)"
    have 1: "extends s ?s1" "cas_exists (tg_store (mg_target ?s1)) (?h (me_enc M m))"
      using put_bytes_facts [of s M "me_enc M m"] by auto
    have 2: "extends ?s1 ?s2" "cas_exists (tg_store (mg_target ?s2)) (?h (sr_xml v))"
      using put_bytes_facts [of ?s1 M "sr_xml v"] by auto
    have 3: "cas_exists (tg_store (mg_target ?s2)) (?h (me_enc M m))"
      using 1(2) 2(1) cas_exists_mono by (auto simp: extends_def)
    have 4: "extends s ?s2" using 1(1) 2(1) by (rule extends_trans)
    show ?thesis
    proof (cases "upsert_snapshot mp (sr_version v) (?h (me_enc M m)) (?h (sr_xml v)) (tg_cat (mg_target ?s2))")
      case (Inl e)
      have "extends ?s2 (?s2\<lparr>mg_objects := mg_objects ?s2 + 2\<rparr>)" by (rule extends_same_target) simp_all
      then show ?thesis
        using Inl \<open>version_manifest _ _ _ = Inr m\<close> extends_trans [OF 4]
          put_bytes_facts [of s M "me_enc M m"] put_bytes_facts [of ?s1 M "sr_xml v"]
        by (simp add: record_version_def case_prod_beta andthen_def count_objects_def on_cat_def)
    next
      case up: (Inr c)
      note facts = upsert_facts [OF up]
      let ?s3 = "?s2\<lparr>mg_target := (mg_target ?s2)\<lparr>tg_cat := c\<rparr>, mg_objects := mg_objects ?s2 + 2,
          mg_versions := Suc (mg_versions ?s2)\<rparr>"
      have "extends ?s2 ?s3"
        using facts(1) facts(3) [of "tg_store (mg_target ?s2)"] 2(2) 3
        by (simp add: extends_def reported_def hold_lines_def backed_def)
      moreover have "record_version M mp v doc s = (None, ?s3)"
        using up \<open>version_manifest _ _ _ = Inr m\<close>
          put_bytes_facts [of s M "me_enc M m"] put_bytes_facts [of ?s1 M "sr_xml v"]
        by (simp add: record_version_def case_prod_beta andthen_def count_objects_def on_cat_def on_target_def)
      ultimately show ?thesis using facts(2) extends_trans [OF 4] by auto
    qed
  qed
  show "grows_run (record_version M mp v doc)" using both by (intro grows_runI) blast
  show "\<exists>x \<in> set (c_snap (tg_cat (mg_target s'))). sn_mp x = mp \<and> sn_version x = sr_version v \<and>
       sn_source x = Some (de_sha256 (me_deposit M) (sr_xml v))" if "record_version M mp v doc s = (None, s')"
    using both [of s] that by simp
qed

section \<open>The steps of a run\<close>

lemmas import_growth = import_state.grows_andthen import_state.grows_each import_state.grows_fail import_state.grows_ok
  import_state.grows_legacy grows_hold grows_count grows_on_cat grows_keep_element grows_record_version(1)

lemma grows_counters:
  "grows_run (\<lambda>s :: migration. (None, s\<lparr>mg_series := Suc (mg_series s)\<rparr>))"
  "grows_run (\<lambda>s :: migration. (None, s\<lparr>mg_events := Suc (mg_events s)\<rparr>))"
  by (intro grows_runI; simp add: extends_same_target)+

lemma grows_migrate_series: "grows_run (migrate_series M r)"
  unfolding migrate_series_def
  by (intro import_growth; (auto split: option.split intro!: import_growth grows_line adds_put_series adds_set_acl_series)?)

lemma grows_series_step: "grows_run (series_step M org r)"
  by (simp add: series_step_def grows_migrate_series grows_counters import_growth)

lemma grows_materialise_step: "grows_run (materialise_step M src m)"
proof (rule grows_runI)
  fix s :: migration
  obtain e st c where m: "materialise (me_deposit M) (\<lambda>st. so_resolve src) m (tg_store (mg_target s), tg_cat (mg_target s)) = (e, st, c)"
    by (metis prod_cases3)
  from adds_materialise [OF m]
  have "extends s (on_target (\<lambda>t. t\<lparr>tg_cat := c\<rparr>) (on_target (\<lambda>t. t\<lparr>tg_store := st\<rparr>) s))"
    by (intro extends_trans [OF extends_store extends_cat]) (simp_all add: on_target_def)
  then show "extends s (snd (materialise_step M src m s))" by (simp add: materialise_step_def m on_target_def)
qed

lemma grows_set_event_metadata: "grows_run (set_event_metadata M src doc)"
  unfolding set_event_metadata_def
  by (auto split: option.split intro!: import_growth adds_set_metadata)

lemma grows_acl_step: "grows_run (acl_step mp resolved eav)"
  unfolding acl_step_def
  by (auto split: archive_acl.split intro!: import_growth grows_line adds_set_acl_event)

lemma grows_version_step: "grows_run (version_step M src mp latest doc v)"
  unfolding version_step_def by (auto intro!: import_growth)

lemma grows_archive_step: "grows_run (archive_step M src mp vs doc)"
  unfolding archive_step_def by (auto intro!: import_growth grows_version_step grows_line)

lemma grows_migrate_event: "grows_run (migrate_event M src mode vs eav)"
  unfolding migrate_event_def Let_def
  by (auto split: sum.split
      intro!: import_growth grows_materialise_step grows_set_event_metadata grows_acl_step grows_archive_step grows_line)

lemma grows_migrate_published: "grows_run (migrate_published M src p st pin)"
proof (rule grows_runI)
  fix s :: migration
  let ?s1 = "snd (put_bytes M (pbs_xml p) s)"
  let ?rest = "andthen (count_objects 1) (andthen (line RecordPreserved (pbs_id p))
          (legacy (parse_document (texts M) (pbs_xml p)) (\<lambda>doc.
             andthen (materialise_step M src \<lparr>mf_id = pbs_id p, mf_title = [], mf_start = None, mf_duration = 0,
                        mf_elements = operable (do_elements doc)\<rparr>)
            (andthen (each (keep_element M src (pbs_id p) 0) (do_elements doc))
               (on_cat (publish_record (me_uid M (pbs_id p)) (pbs_id p) st pin
                  (map me_id (operable (do_elements doc)))))))))"
  have "grows_run ?rest"
    by (intro import_growth grows_materialise_step grows_line) (auto dest: adds_publish_record)
  then have "extends ?s1 (snd (?rest ?s1))" by (simp add: import_state.grows_by_def)
  then show "extends s (snd (migrate_published M src p st pin s))"
    using put_bytes_facts [of s M "pbs_xml p"] by (auto simp: migrate_published_def case_prod_beta intro: extends_trans)
qed

lemma grows_migrate_publication: "grows_run (migrate_publication M src p)"
  unfolding migrate_publication_def
  by (auto split: option.split published_acl.split intro!: import_growth grows_migrate_published grows_line)

lemma grows_event_step: "grows_run (event_step M src mode snaps pubs eav i)"
  unfolding event_step_def
  by (auto split: option.split intro!: import_growth grows_migrate_event grows_migrate_publication grows_counters)

lemma grows_run_tables: "grows_run (run_tables M src org mode snaps sers pubs eav managed)"
  unfolding run_tables_def Let_def
  by (intro import_growth grows_line grows_series_step grows_event_step) (auto intro!: import_growth grows_line)

lemma grows_run_migration: "grows_run (run_migration M src org)"
proof -
  have "grows_run (fail SourceFailed)" by (rule import_state.grows_fail)
  then show ?thesis unfolding run_migration_def using grows_run_tables by (auto split: option.split)
qed

section \<open>What the steps leave behind\<close>

definition held :: "string \<Rightarrow> migration \<Rightarrow> bool" where
  "held i s = (\<exists>l \<in> set (tg_report (mg_target s)). rl_run l = mg_run s \<and> rl_class l = Hold \<and> rl_record l = i)"

lemma held_keep: "held i s \<Longrightarrow> extends s s' \<Longrightarrow> held i s'"
  by (auto simp: held_def extends_def reported_def)

lemma hold_held: "hold i s = (None, s') \<Longrightarrow> held i s'"
  by (auto simp: hold_def line_def held_def on_target_def)

definition series_there :: "string \<Rightarrow> migration \<Rightarrow> bool" where
  "series_there i s = (map_of (c_series (tg_cat (mg_target s))) i \<noteq> None)"

definition version_there :: "string \<Rightarrow> nat \<Rightarrow> migration \<Rightarrow> bool" where
  "version_there i v s = (\<exists>x \<in> set (c_snap (tg_cat (mg_target s))). sn_mp x = i \<and> sn_version x = v \<and> sn_source x \<noteq> None)"

definition publication_there :: "string \<Rightarrow> migration \<Rightarrow> bool" where
  "publication_there i s = (map_of (c_pub (tg_cat (mg_target s))) (i, engage_player) \<noteq> None)"

lemma there_keep:
  "series_there i s \<Longrightarrow> extends s s' \<Longrightarrow> series_there i s'"
  "version_there i v s \<Longrightarrow> extends s s' \<Longrightarrow> version_there i v s'"
  "publication_there i s \<Longrightarrow> extends s s' \<Longrightarrow> publication_there i s'"
  unfolding series_there_def version_there_def publication_there_def extends_def cat_le_def
  by (blast, metis (no_types, lifting), blast)

lemma put_series_there: "map_of (c_series (put_series i md c)) i \<noteq> None"
  by (simp add: put_series_def project_series_frames table_simps)

lemma legacy_done: "legacy r k s = (None, s') \<Longrightarrow> \<exists>a. r = Inr a \<and> k a s = (None, s')"
  by (auto simp: legacy_def fail_def split: sum.splits)

lemma step_doneE:
  "andthen a b s = (None, s') \<Longrightarrow> (\<And>s1. a s = (None, s1) \<Longrightarrow> b s1 = (None, s') \<Longrightarrow> R) \<Longrightarrow> R"
  "legacy r k s = (None, s') \<Longrightarrow> (\<And>a. r = Inr a \<Longrightarrow> k a s = (None, s') \<Longrightarrow> R) \<Longrightarrow> R"
  by (auto dest!: andthen_done) (auto dest!: legacy_done)

lemma on_cat_done: "on_cat f s = (None, s') \<Longrightarrow> f (tg_cat (mg_target s)) = Inr (tg_cat (mg_target s'))"
  by (auto simp: on_cat_def on_target_def split: sum.splits)

lemma put_series_stays:
  assumes "on_cat (\<lambda>c. Inr (put_series i md c)) s = (None, s2)" and "f s2 = (None, s1)" and "grows_run f"
  shows "series_there i s1"
proof -
  have "series_there i s2"
    using on_cat_done [OF assms(1)] put_series_there by (simp add: series_there_def) (metis put_series_there)
  then show ?thesis using grows_runD [OF assms(3,2)] by (rule there_keep(1))
qed

lemma series_step_done:
  assumes "series_step M org r s = (None, s')" and "ser_org r = org"
  shows "held (ser_id r) s' \<or> series_there (ser_id r) s'"
proof (cases "ser_deleted r = []")
  case False
  then show ?thesis using assms hold_held by (simp add: series_step_def)
next
  case True
  then obtain s1 where run: "migrate_series M r s = (None, s1)" and s': "mg_target s' = mg_target s1"
    using assms by (auto simp: series_step_def dest!: andthen_done)
  have "grows_run (case ser_acl r of None \<Rightarrow> line AclAbsentLine (ser_id r)
      | Some doc \<Rightarrow> legacy (parse_plain_acl (texts M) doc) (\<lambda>es. on_cat (set_acl_series (ser_id r) es)))"
    by (auto split: option.split intro!: import_growth grows_line adds_set_acl_series)
  note put = put_series_stays [OF _ _ this]
  have "series_there (ser_id r) s1"
    using run unfolding migrate_series_def by (elim step_doneE) (rule put)
  then show ?thesis using s' by (simp add: series_there_def)
qed

lemma version_step_done:
  assumes "version_step M src mp latest doc v s = (None, s')"
  shows "held mp s' \<or> version_there mp (sr_version v) s'"
proof (cases "held_availability v")
  case True
  then show ?thesis using assms hold_held by (simp add: version_step_def)
next
  case False
  then obtain d s1 where "record_version M mp v d s1 = (None, s')"
    using assms by (auto simp: version_step_def dest!: legacy_done andthen_done)
  from grows_record_version(2) [OF this] show ?thesis by (auto simp: version_there_def)
qed

lemma archive_step_done:
  assumes run: "archive_step M src mp vs doc s = (None, s')" and v: "v \<in> set vs"
  shows "held mp s' \<or> version_there mp (sr_version v) s'"
proof -
  obtain s1 where 1: "each (version_step M src mp (last vs) doc) vs s = (None, s1)"
    and 2: "(if list_ex (has_publications M (last vs) doc) vs then line InSnapshotPublication mp else ok) s1 = (None, s')"
    using run by (auto simp: archive_step_def dest!: andthen_done)
  have "held mp s1 \<or> version_there mp (sr_version v) s1"
  proof (rule import_state.each_reaches [OF 1 v])
    show "grows_run (version_step M src mp (last vs) doc x)" for x by (rule grows_version_step)
    show "held mp t' \<or> version_there mp (sr_version v) t'"
      if "version_step M src mp (last vs) doc v t = (None, t')" for t t' by (rule version_step_done [OF that])
    show "held mp t' \<or> version_there mp (sr_version v) t'"
      if "held mp t \<or> version_there mp (sr_version v) t" "extends t t'" for t t'
      using that held_keep there_keep(2) by blast
  qed
  moreover have "extends s1 s'"
    by (rule grows_runD [where f = "if list_ex (has_publications M (last vs) doc) vs then line InSnapshotPublication mp else ok",
          OF _ 2]) (auto intro!: import_growth grows_line)
  ultimately show ?thesis using held_keep there_keep(2) by blast
qed

lemma materialise_step_run: "materialise_step M src m s = (e, s') \<Longrightarrow> extends s s'"
  by (rule grows_runD [OF grows_materialise_step])

text \<open>What an event step leaves, seen from one of its versions.\<close>

lemma migrate_event_done:
  assumes run: "migrate_event M src mode vs eav s = (None, s')" and v: "v \<in> set vs" and mp: "sr_mp (hd vs) = i"
  shows "held i s' \<or> version_there i (sr_version v) s'"
proof -
  show ?thesis
    using run mp unfolding migrate_event_def Let_def
    by (auto simp: fail_def elim!: step_doneE split: sum.splits dest: hold_held archive_step_done [OF _ v])
qed

lemma migrate_published_done:
  assumes "migrate_published M src p st pin s = (None, s')"
  shows "publication_there (pbs_id p) s'"
  using assms unfolding migrate_published_def case_prod_beta
  by (auto simp: publication_there_def elim!: step_doneE dest!: on_cat_done adds_publish_record)

lemma migrate_publication_done:
  assumes "migrate_publication M src p s = (None, s')"
  shows "held (pbs_id p) s' \<or> publication_there (pbs_id p) s'"
  using assms hold_held migrate_published_done
  by (auto simp: migrate_publication_def split: if_splits option.splits published_acl.splits dest!: andthen_done legacy_done)

lemma event_step_done:
  assumes run: "event_step M src mode snaps pubs eav i s = (None, s')"
  shows "v \<in> set (event_versions snaps i) \<Longrightarrow> held i s' \<or> version_there i (sr_version v) s'"
    and "map_of pubs i = Some p \<Longrightarrow> held (pbs_id p) s' \<or> publication_there (pbs_id p) s'"
proof -
  let ?eav = "case map_of eav i of None \<Rightarrow> [] | Some es \<Rightarrow> es" and ?vs = "event_versions snaps i"
  let ?pub = "case map_of pubs i of None \<Rightarrow> ok | Some p \<Rightarrow> migrate_publication M src p"
  obtain s1 s2 where 1: "migrate_event M src mode ?vs ?eav s = (None, s1)" and 2: "?pub s1 = (None, s2)"
    and s': "s' = s2\<lparr>mg_events := Suc (mg_events s2)\<rparr>"
    using run unfolding event_step_def by (auto dest!: andthen_done)
  have "grows_run ?pub" by (auto intro!: import_growth grows_migrate_publication split: option.split)
  from grows_runD [OF this 2] have e12: "extends s1 s2" .
  have e2: "extends s2 s'" by (simp add: s' extends_same_target)
  show "held i s' \<or> version_there i (sr_version v) s'" if v: "v \<in> set ?vs"
  proof -
    have "hd ?vs \<in> set ?vs" using v by (metis hd_in_set length_pos_if_in_set length_greater_0_conv)
    then have "sr_mp (hd ?vs) = i" by (auto simp: event_versions_def)
    from migrate_event_done [OF 1 v this] show ?thesis
      using extends_trans [OF e12 e2] held_keep there_keep(2) by blast
  qed
  show "held (pbs_id p) s' \<or> publication_there (pbs_id p) s'" if "map_of pubs i = Some p"
    using 2 that migrate_publication_done [of M src p s1 s2] e2 held_keep there_keep(3) by auto
qed

section \<open>A whole run\<close>

lemma run_tables_done:
  assumes run: "run_tables M src org mode snaps sers pubs eav managed s = (None, s')"
  shows "r \<in> set sers \<Longrightarrow> ser_org r = org \<Longrightarrow> held (ser_id r) s' \<or> series_there (ser_id r) s'"
    and "v \<in> set snaps \<Longrightarrow> sr_org v = org \<Longrightarrow> held (sr_mp v) s' \<or> version_there (sr_mp v) (sr_version v) s'"
    and "p \<in> set pubs \<Longrightarrow> pbs_org p = org \<Longrightarrow> v \<in> set snaps \<Longrightarrow> sr_org v = org \<Longrightarrow> sr_mp v = pbs_id p \<Longrightarrow>
      held (pbs_id p) s' \<or> publication_there (pbs_id p) s'"
proof -
  let ?mine = "filter (\<lambda>x. sr_org x = org) snaps"
  let ?by = "rev (map (\<lambda>p. (pbs_id p, p)) (filter (\<lambda>p. pbs_org p = org) pubs))"
  let ?ids = "sort (remdups (map sr_mp ?mine))"
  let ?tail = "each (\<lambda>(g, name). if g = org then line ManagedTemplate name else ok) managed"
  obtain s1 s2 s3 where
    1: "each (series_step M org) sers s1 = (None, s2)" and
    2: "each (event_step M src mode ?mine ?by eav) ?ids s2 = (None, s3)" and
    3: "?tail s3 = (None, s')"
    using run unfolding run_tables_def Let_def by (auto dest!: andthen_done)
  have "grows_run ?tail" by (auto intro!: import_growth grows_line)
  from grows_runD [OF this 3] have t: "extends s3 s'" .
  have "grows_run (each (event_step M src mode ?mine ?by eav) ?ids)" by (intro import_state.grows_each grows_event_step)
  from grows_runD [OF this 2] have e23: "extends s2 s3" .
  show "held (ser_id r) s' \<or> series_there (ser_id r) s'" if r: "r \<in> set sers" "ser_org r = org"
  proof -
    have "held (ser_id r) s2 \<or> series_there (ser_id r) s2"
    proof (rule import_state.each_reaches [OF 1 r(1)])
      show "grows_run (series_step M org x)" for x by (rule grows_series_step)
      show "held (ser_id r) u' \<or> series_there (ser_id r) u'" if "series_step M org r u = (None, u')" for u u'
        by (rule series_step_done [OF that r(2)])
      show "held (ser_id r) u' \<or> series_there (ser_id r) u'"
        if "held (ser_id r) u \<or> series_there (ser_id r) u" "extends u u'" for u u'
        using that held_keep there_keep(1) by blast
    qed
    then show ?thesis using extends_trans [OF e23 t] held_keep there_keep(1) by blast
  qed
  have ids: "sr_mp v \<in> set ?ids" if "v \<in> set snaps" "sr_org v = org" for v using that by auto
  show "held (sr_mp v) s' \<or> version_there (sr_mp v) (sr_version v) s'" if v: "v \<in> set snaps" "sr_org v = org"
  proof -
    have "held (sr_mp v) s3 \<or> version_there (sr_mp v) (sr_version v) s3"
    proof (rule import_state.each_reaches [OF 2 ids [OF v]])
      show "grows_run (event_step M src mode ?mine ?by eav x)" for x by (rule grows_event_step)
      show "held (sr_mp v) u' \<or> version_there (sr_mp v) (sr_version v) u'"
        if "event_step M src mode ?mine ?by eav (sr_mp v) u = (None, u')" for u u'
        by (rule event_step_done(1) [OF that]) (use v in \<open>auto simp: event_versions_def\<close>)
      show "held (sr_mp v) u' \<or> version_there (sr_mp v) (sr_version v) u'"
        if "held (sr_mp v) u \<or> version_there (sr_mp v) (sr_version v) u" "extends u u'" for u u'
        using that held_keep there_keep(2) by blast
    qed
    then show ?thesis using t held_keep there_keep(2) by blast
  qed
  show "held (pbs_id p) s' \<or> publication_there (pbs_id p) s'"
    if p: "p \<in> set pubs" "pbs_org p = org" and v: "v \<in> set snaps" "sr_org v = org" "sr_mp v = pbs_id p"
  proof -
    have "map_of ?by (pbs_id p) \<noteq> None" using p by (auto simp: map_of_eq_None_iff image_iff)
    then obtain q where q: "map_of ?by (pbs_id p) = Some q" by blast
    have qid: "pbs_id q = pbs_id p" using map_of_SomeD [OF q] by auto
    have id_in: "pbs_id p \<in> set ?ids" using ids [OF v(1,2)] v(3) by simp
    have "held (pbs_id p) s3 \<or> publication_there (pbs_id p) s3"
    proof (rule import_state.each_reaches [OF 2 id_in])
      show "grows_run (event_step M src mode ?mine ?by eav x)" for x by (rule grows_event_step)
      show "held (pbs_id p) u' \<or> publication_there (pbs_id p) u'"
        if "event_step M src mode ?mine ?by eav (pbs_id p) u = (None, u')" for u u'
        using event_step_done(2) [OF that q] qid by simp
      show "held (pbs_id p) u' \<or> publication_there (pbs_id p) u'"
        if "held (pbs_id p) u \<or> publication_there (pbs_id p) u" "extends u u'" for u u'
        using that held_keep there_keep(3) by blast
    qed
    then show ?thesis using t held_keep there_keep(3) by blast
  qed
qed

text \<open>The state a run starts from, and its end.\<close>

definition run_start :: "source \<Rightarrow> string \<Rightarrow> target \<Rightarrow> migration" where
  "run_start src org t =
     \<lparr>mg_target = t\<lparr>tg_runs := tg_runs t @ [\<lparr>rr_org = org, rr_source = so_label src, rr_events = 0,
        rr_series = 0, rr_versions = 0, rr_objects = 0, rr_holds = 0, rr_outcome = Running\<rparr>]\<rparr>,
      mg_run = length (tg_runs t), mg_events = 0, mg_series = 0, mg_versions = 0, mg_objects = 0, mg_holds = 0\<rparr>"

lemma run_import_runs:
  assumes "run_import M src org t = (e, t')"
  obtains s out where "run_migration M src org (run_start src org t) = (e, s)" and "t' = finish_run out s"
    and "extends (run_start src org t) s"
    and "out = (if e \<noteq> None then FailedRun else if 0 < mg_holds s then CompleteWithHolds else Complete)"
proof -
  obtain e' s where r: "run_migration M src org (run_start src org t) = (e', s)" by (metis prod.exhaust)
  note g = grows_runD [OF grows_run_migration r]
  show thesis
    using assms r g by (intro that [of s]) (auto simp: run_import_def run_start_def [symmetric] Let_def split: option.splits)
qed

lemma finish_run_frame [simp]:
  "tg_store (finish_run out s) = tg_store (mg_target s)" "tg_cat (finish_run out s) = tg_cat (mg_target s)"
  "tg_urls (finish_run out s) = tg_urls (mg_target s)" "tg_report (finish_run out s) = tg_report (mg_target s)"
  by (simp_all add: finish_run_def)

lemma run_start_frame [simp]:
  "tg_store (mg_target (run_start src org t)) = tg_store t" "tg_cat (mg_target (run_start src org t)) = tg_cat t"
  "tg_urls (mg_target (run_start src org t)) = tg_urls t" "tg_report (mg_target (run_start src org t)) = tg_report t"
  "mg_run (run_start src org t) = length (tg_runs t)" "mg_holds (run_start src org t) = 0"
  by (simp_all add: run_start_def)

lemma backed_cong:
  "tg_store t = tg_store u \<Longrightarrow> tg_cat t = tg_cat u \<Longrightarrow> tg_urls t = tg_urls u \<Longrightarrow> backed t = backed u"
  by (simp add: backed_def)

end
