(* ===== verification/MigrateData.thy ===== *)
theory MigrateData
  imports MigrateProps
begin

text \<open>
  What the rows an import leaves carry. A property of the catalog that the import's own writes of series,
  versions and publications keep, and that looks at those three tables only, is kept by every step
  (locale \<open>import_invariant\<close>); it is interpreted for the three statements that a series, a version or a
  publication carries the data of a source row. And the rows of published records whose event was never
  archived have no influence on a run.
\<close>

section \<open>Rows that carry the data of a source row\<close>

definition series_row_from :: "migrate_env \<Rightarrow> series_src \<Rightarrow> series_row \<Rightarrow> bool" where
  "series_row_from M r row =
     (case parse_dc (texts M) (ser_dc r) of
        Inl e \<Rightarrow> False
      | Inr dc \<Rightarrow>
          (case dc_time (me_w3cdtf M) dc ''created'' of
             Inl e \<Rightarrow> False
           | Inr created \<Rightarrow>
               s_title row = null_if_empty (dc_first dc ''title'') \<and> s_contributors row = dc ''contributor'' \<and>
               s_organizers row = dc ''creator'' \<and> s_language row = null_if_empty (dc_first dc ''language'') \<and>
               s_description row = null_if_empty (dc_first dc ''description'') \<and> s_subjects row = dc ''subject'' \<and>
               s_created row = created))"

definition pin_recorded :: "migrate_env \<Rightarrow> published_src \<Rightarrow> pub_row \<Rightarrow> bool" where
  "pin_recorded M p row =
     (pbs_deleted p = [] \<and>
      (case pbs_acl p of
         None \<Rightarrow> pub_acl_state row = StateAbsent \<and> pub_acl_read row = {}
       | Some doc \<Rightarrow>
           (case parse_plain_acl (texts M) doc of
              Inl e \<Rightarrow> False
            | Inr es \<Rightarrow>
                (case pin_of es of
                   Denying \<Rightarrow> False
                 | Pin st pin \<Rightarrow> pub_acl_state row = st \<and> pub_acl_read row = set pin))))"

definition series_from :: "migrate_env \<Rightarrow> string \<Rightarrow> series_src list \<Rightarrow> string \<Rightarrow> catalog \<Rightarrow> bool" where
  "series_from M org sers i c =
     (case map_of (c_series c) i of
        None \<Rightarrow> False
      | Some row \<Rightarrow> list_ex (\<lambda>r. ser_org r = org \<and> ser_id r = i \<and> ser_deleted r = [] \<and> series_row_from M r row) sers)"

definition version_from :: "migrate_env \<Rightarrow> string \<Rightarrow> snapshot_src list \<Rightarrow> string \<Rightarrow> nat \<Rightarrow> catalog \<Rightarrow> bool" where
  "version_from M org snaps i n c =
     list_ex (\<lambda>x. sn_mp x = i \<and> sn_version x = n \<and>
       list_ex (\<lambda>v. sr_org v = org \<and> sr_mp v = i \<and> sr_version v = n \<and>
         sn_source x = Some (de_sha256 (me_deposit M) (sr_xml v))) snaps) (c_snap c)"

definition publication_from :: "migrate_env \<Rightarrow> string \<Rightarrow> published_src list \<Rightarrow> string \<Rightarrow> catalog \<Rightarrow> bool" where
  "publication_from M org pubs i c =
     (case map_of (c_pub c) (i, engage_player) of
        None \<Rightarrow> False
      | Some row \<Rightarrow> list_ex (\<lambda>p. pbs_org p = org \<and> pbs_id p = i \<and> pin_recorded M p row) pubs)"

section \<open>Steps that leave the catalog alone\<close>

abbreviation cat_in :: "migration \<Rightarrow> catalog" where
  "cat_in s \<equiv> tg_cat (mg_target s)"

lemma cat_in_line [simp]: "cat_in (snd (line cls i s)) = cat_in s"
  by (simp add: line_def on_target_def)

lemma cat_in_hold [simp]: "cat_in (snd (hold i s)) = cat_in s"
  by (simp add: hold_def)

lemma cat_in_count [simp]: "cat_in (snd (count_objects n s)) = cat_in s"
  by (simp add: count_objects_def)

lemma cat_in_put [simp]: "cat_in (snd (put_bytes M b s)) = cat_in s"
  by (simp add: put_bytes_def on_target_def case_prod_beta)

lemma cat_in_record_url [simp]: "cat_in (snd (record_url u r s)) = cat_in s"
  by (auto simp: record_url_def on_target_def split: option.split)

lemma cat_in_keep [simp]: "cat_in (snd (keep_element M src mp v el s)) = cat_in s"
  by (auto simp: keep_element_def put_element_bytes_def ok_def andthen_def case_prod_beta split: option.split)

text \<open>The writes that touch none of the three tables.\<close>

definition same_tables :: "catalog \<Rightarrow> catalog \<Rightarrow> bool" where
  "same_tables c c' = (c_series c' = c_series c \<and> c_snap c' = c_snap c \<and> c_pub c' = c_pub c)"

lemma same_set_acl_event: "set_acl_event i es c = Inr c' \<Longrightarrow> same_tables c c'"
  by (auto simp: same_tables_def set_acl_event_def dest!: project_event_only)

lemma same_set_acl_series: "set_acl_series i es c = Inr c' \<Longrightarrow> same_tables c c'"
  by (auto simp: same_tables_def set_acl_series_def project_series_frames)

lemma same_set_metadata: "set_metadata i md c = Inr c' \<Longrightarrow> same_tables c c'"
  by (auto simp: same_tables_def set_metadata_def Let_def split: option.splits if_splits dest!: project_event_only)

lemma same_materialise:
  assumes "materialise E g m s = (e, s')" shows "same_tables (snd s) (snd s')"
  using assms
proof (cases rule: materialise_cases)
  case early
  then show ?thesis by (simp add: same_tables_def)
next
  case (row mp c)
  have "grows (fst s, c) s'" by (rule materialise_elements_grows [OF row(4)])
  then show ?thesis
    using row(3) by (auto simp: grows_def same_tables_def materialise_row_def dest!: project_event_only
        split: if_splits option.splits)
qed

lemma add_references_pubs: "add_references p ids c = Inr c' \<Longrightarrow> \<exists>refs. c' = c\<lparr>c_pubel := refs\<rparr>"
proof (induction p ids c rule: add_references.induct)
  case (1 p c)
  then show ?case by (intro exI [of _ "c_pubel c"]) simp
next
  case (2 p i ids c)
  then show ?case by (auto split: if_splits)
qed

lemma publish_record_row:
  assumes "publish_record uid mp st pin ids c = Inr c'"
  shows "\<exists>row. pub_acl_state row = st \<and> pub_acl_read row = set pin \<and>
    same_tables (c\<lparr>c_pub := AList.update (mp, engage_player) row (c_pub c)\<rparr>) c'"
proof -
  let ?pid = "case map_of (c_pub c) (mp, engage_player) of None \<Rightarrow> uid | Some p \<Rightarrow> pub_id p"
  let ?row = "\<lparr>pub_id = ?pid, pub_acl_read = set pin, pub_acl_state = st\<rparr>"
  let ?c1 = "c\<lparr>c_pub := AList.update (mp, engage_player) ?row (c_pub c)\<rparr>"
  obtain c2 where "add_references ?pid ids ?c1 = Inr c2" and "project_event mp c2 = Inr c'"
    using assms by (auto simp: publish_record_def Let_def split: if_splits)
  then have "same_tables ?c1 c'"
    by (auto simp: same_tables_def dest!: add_references_pubs project_event_only)
  then show ?thesis by (intro exI [of _ ?row]) simp
qed

section \<open>Invariants of an import\<close>

locale import_invariant =
  fixes M :: migrate_env and org :: string
    and snaps :: "snapshot_src list" and sers :: "series_src list" and pubs :: "published_src list"
    and Q :: "catalog \<Rightarrow> bool"
  assumes same: "Q c \<Longrightarrow> same_tables c c' \<Longrightarrow> Q c'"
    and series: "Q c \<Longrightarrow> r \<in> set sers \<Longrightarrow> ser_org r = org \<Longrightarrow> ser_deleted r = [] \<Longrightarrow> series_row_from M r row \<Longrightarrow>
      Q (c\<lparr>c_series := AList.update (ser_id r) row (c_series c)\<rparr>)"
    and version: "Q c \<Longrightarrow> v \<in> set snaps \<Longrightarrow> sr_org v = org \<Longrightarrow>
      upsert_snapshot (sr_mp v) (sr_version v) sha (de_sha256 (me_deposit M) (sr_xml v)) c = Inr c' \<Longrightarrow> Q c'"
    and publication: "Q c \<Longrightarrow> p \<in> set pubs \<Longrightarrow> pbs_org p = org \<Longrightarrow> pin_recorded M p pin \<Longrightarrow>
      Q (c\<lparr>c_pub := AList.update (pbs_id p, engage_player) pin (c_pub c)\<rparr>)"

sublocale import_invariant < kept: growing "\<lambda>s t. Q (cat_in s) \<longrightarrow> Q (cat_in t)"
  by unfold_locales auto

context import_invariant begin

lemma keeps_cat: "(\<And>s. cat_in (snd (f s)) = cat_in s) \<Longrightarrow> kept.grows_by f"
  by (simp add: kept.grows_by_def)

lemma keeps_on_cat: "(\<And>c c'. Q c \<Longrightarrow> f c = Inr c' \<Longrightarrow> Q c') \<Longrightarrow> kept.grows_by (on_cat f)"
  by (auto simp: kept.grows_by_def on_cat_def on_target_def split: sum.split)

lemma keeps_same: "(\<And>c c'. f c = Inr c' \<Longrightarrow> same_tables c c') \<Longrightarrow> kept.grows_by (on_cat f)"
  by (rule keeps_on_cat) (rule same)

lemmas keeps = kept.grows_andthen kept.grows_each kept.grows_fail kept.grows_ok kept.grows_legacy

lemma keeps_plain:
  "kept.grows_by (line cls i)" "kept.grows_by (hold i)" "kept.grows_by (count_objects n)"
  "kept.grows_by (keep_element M src mp v el)"
  "kept.grows_by (\<lambda>s. (None, s\<lparr>mg_series := Suc (mg_series s)\<rparr>))"
  "kept.grows_by (\<lambda>s. (None, s\<lparr>mg_events := Suc (mg_events s)\<rparr>))"
  "kept.grows_by (\<lambda>s. (None, s\<lparr>mg_versions := Suc (mg_versions s)\<rparr>))"
  by (rule keeps_cat; simp)+

lemma keeps_put_series:
  assumes "r \<in> set sers" "ser_org r = org" "ser_deleted r = []"
    and "parse_dc (texts M) (ser_dc r) = Inr dc" and "dc_time (me_w3cdtf M) dc ''created'' = Inr created"
    and "md = \<lparr>sm_title = dc_first dc ''title'', sm_contributors = dc ''contributor'', sm_organizers = dc ''creator'',
       sm_language = dc_first dc ''language'', sm_description = dc_first dc ''description'',
       sm_subjects = dc ''subject'', sm_created = created\<rparr>"
  shows "kept.grows_by (on_cat (\<lambda>c. Inr (put_series (ser_id r) md c)))"
proof (rule keeps_on_cat)
  fix c c' assume q: "Q c" and "Inr (put_series (ser_id r) md c) = (Inr c' :: (cat_error, catalog) result)"
  then have c': "c' = put_series (ser_id r) md c" by simp
  let ?row = "\<lparr>s_title = null_if_empty (sm_title md), s_contributors = sm_contributors md,
        s_organizers = sm_organizers md, s_language = null_if_empty (sm_language md),
        s_description = null_if_empty (sm_description md), s_subjects = sm_subjects md,
        s_created = sm_created md,
        s_deleted = (case map_of (c_series c) (ser_id r) of None \<Rightarrow> None | Some r \<Rightarrow> s_deleted r)\<rparr>"
  have "series_row_from M r ?row" using assms(4-6) by (simp add: series_row_from_def)
  from series [OF q assms(1-3) this] show "Q c'"
    by (rule same) (simp add: c' put_series_def same_tables_def project_series_frames)
qed

lemma keeps_set_acl_series: "kept.grows_by (on_cat (set_acl_series i es))"
  by (rule keeps_same) (rule same_set_acl_series)

lemma keeps_series_step: "r \<in> set sers \<Longrightarrow> kept.grows_by (series_step M org r)"
  unfolding series_step_def migrate_series_def
  by (auto split: option.split intro!: keeps keeps_plain keeps_set_acl_series keeps_put_series)

lemma keeps_record_version:
  assumes "v \<in> set snaps" "sr_org v = org"
  shows "kept.grows_by (record_version M (sr_mp v) v doc)"
proof -
  have up: "kept.grows_by (on_cat (upsert_snapshot (sr_mp v) (sr_version v) sha (de_sha256 (me_deposit M) (sr_xml v))))" for sha
    by (rule keeps_on_cat) (rule version [OF _ assms])
  have sha: "fst (put_bytes M b s) = de_sha256 (me_deposit M) b" for b s using put_bytes_facts [of s M b] by simp
  let ?rest = "\<lambda>m. andthen (count_objects 2)
      (andthen (on_cat (upsert_snapshot (sr_mp v) (sr_version v) (de_sha256 (me_deposit M) (me_enc M m))
          (de_sha256 (me_deposit M) (sr_xml v)))) (\<lambda>s. (None, s\<lparr>mg_versions := Suc (mg_versions s)\<rparr>)))"
  have "kept.grows_by (?rest m)" for m by (intro keeps keeps_plain up)
  then show ?thesis
    by (auto simp: kept.grows_by_def record_version_def case_prod_beta sha split: sum.split)
qed

lemma keeps_materialise_step: "kept.grows_by (materialise_step M src m)"
proof -
  have "Q (cat_in (snd (materialise_step M src m s)))" if "Q (cat_in s)" for s
  proof -
    obtain e st c where m: "materialise (me_deposit M) (\<lambda>st. so_resolve src) m (tg_store (mg_target s), cat_in s) = (e, st, c)"
      by (metis prod_cases3)
    then show ?thesis
      using same [OF that] same_materialise [OF m] by (simp add: materialise_step_def on_target_def)
  qed
  then show ?thesis by (simp add: kept.grows_by_def)
qed

lemma keeps_set_event_metadata: "kept.grows_by (set_event_metadata M src doc)"
  unfolding set_event_metadata_def
  by (auto split: option.split intro!: keeps keeps_same same_set_metadata)

lemma keeps_acl_step: "kept.grows_by (acl_step mp resolved eav)"
  unfolding acl_step_def
  by (auto split: archive_acl.split intro!: keeps_plain keeps_same same_set_acl_event)

lemma keeps_version_step:
  "v \<in> set snaps \<Longrightarrow> sr_org v = org \<Longrightarrow> kept.grows_by (version_step M src (sr_mp v) latest doc v)"
  unfolding version_step_def by (auto intro!: keeps keeps_plain keeps_record_version)

lemma keeps_migrate_event:
  assumes "\<And>v. v \<in> set vs \<Longrightarrow> v \<in> set snaps \<and> sr_org v = org \<and> sr_mp v = i" and "vs \<noteq> []"
  shows "kept.grows_by (migrate_event M src mode vs eav)"
proof -
  have i: "sr_mp (hd vs) = i" using assms by simp
  have "kept.grows_by (version_step M src i latest doc v)" if "v \<in> set vs" for v latest doc
    using keeps_version_step [of v] assms(1) [OF that] by blast
  then have "kept.grows_by (archive_step M src i vs doc)" for doc
    unfolding archive_step_def by (auto intro!: keeps keeps_plain)
  then show ?thesis
    unfolding migrate_event_def Let_def i
    by (auto split: sum.split
        intro!: keeps keeps_plain keeps_materialise_step keeps_set_event_metadata keeps_acl_step)
qed

lemma keeps_publish_record:
  assumes "p \<in> set pubs" "pbs_org p = org" and "\<And>row. pub_acl_state row = st \<Longrightarrow> pub_acl_read row = set pin \<Longrightarrow> pin_recorded M p row"
  shows "kept.grows_by (on_cat (publish_record uid (pbs_id p) st pin ids))"
proof (rule keeps_on_cat)
  fix c c' assume q: "Q c" and "publish_record uid (pbs_id p) st pin ids c = Inr c'"
  from publish_record_row [OF this(2)] obtain row where "pub_acl_state row = st" "pub_acl_read row = set pin"
    "same_tables (c\<lparr>c_pub := AList.update (pbs_id p, engage_player) row (c_pub c)\<rparr>) c'" by blast
  then show "Q c'" using same [OF publication [OF q assms(1,2)]] assms(3) by blast
qed

lemma keeps_migrate_published:
  assumes "p \<in> set pubs" "pbs_org p = org" and "\<And>row. pub_acl_state row = st \<Longrightarrow> pub_acl_read row = set pin \<Longrightarrow> pin_recorded M p row"
  shows "kept.grows_by (migrate_published M src p st pin)"
proof -
  let ?rest = "andthen (count_objects 1) (andthen (line RecordPreserved (pbs_id p))
          (legacy (parse_document (texts M) (pbs_xml p)) (\<lambda>doc.
             andthen (materialise_step M src \<lparr>mf_id = pbs_id p, mf_title = [], mf_start = None, mf_duration = 0,
                        mf_elements = operable (do_elements doc)\<rparr>)
            (andthen (each (keep_element M src (pbs_id p) 0) (do_elements doc))
               (on_cat (publish_record (me_uid M (pbs_id p)) (pbs_id p) st pin
                  (map me_id (operable (do_elements doc)))))))))"
  have "kept.grows_by ?rest"
    by (intro keeps keeps_plain keeps_materialise_step keeps_publish_record [OF assms])
  then show ?thesis by (simp add: kept.grows_by_def migrate_published_def case_prod_beta)
qed

lemma keeps_migrate_publication:
  assumes "p \<in> set pubs" "pbs_org p = org"
  shows "kept.grows_by (migrate_publication M src p)"
  unfolding migrate_publication_def
  by (auto split: option.split published_acl.split intro!: keeps keeps_plain keeps_migrate_published [OF assms]
      simp: pin_recorded_def)

end

text \<open>The three statements are such invariants.\<close>

interpretation from_series: import_invariant M org snaps sers pubs "series_from M org sers i"
  for M org snaps sers pubs i
proof
  show "series_from M org sers i c'" if "series_from M org sers i c" "same_tables c c'" for c c'
    using that by (simp add: series_from_def same_tables_def)
  show "series_from M org sers i (c\<lparr>c_series := AList.update (ser_id r) row (c_series c)\<rparr>)"
    if "series_from M org sers i c" "r \<in> set sers" "ser_org r = org" "ser_deleted r = []" "series_row_from M r row" for c r row
    using that by (auto simp: series_from_def table_simps list_ex_iff split: option.splits)
  show "series_from M org sers i c'"
    if "series_from M org sers i c" "upsert_snapshot (sr_mp v) (sr_version v) sha x c = Inr c'" for c c' v sha x
    using that by (auto simp: series_from_def upsert_snapshot_def split: if_splits)
  show "series_from M org sers i (c\<lparr>c_pub := p\<rparr>)" if "series_from M org sers i c" for c p
    using that by (simp add: series_from_def)
qed

lemma version_from_upsert:
  assumes "upsert_snapshot (sr_mp v) (sr_version v) sha (de_sha256 (me_deposit M) (sr_xml v)) c = Inr c'"
    and "v \<in> set snaps" "sr_org v = org"
    and "version_from M org snaps i n c \<or> sr_mp v = i \<and> sr_version v = n"
  shows "version_from M org snaps i n c'"
proof (cases "sr_mp v = i \<and> sr_version v = n")
  case True
  then show ?thesis
    using upsert_facts(2) [OF assms(1)] assms(2,3) by (fastforce simp: version_from_def list_ex_iff)
next
  case False
  then obtain x where x: "x \<in> set (c_snap c)" "sn_mp x = i" "sn_version x = n"
      "\<exists>w \<in> set snaps. sr_org w = org \<and> sr_mp w = i \<and> sr_version w = n \<and> sn_source x = Some (de_sha256 (me_deposit M) (sr_xml w))"
    using assms(4) by (auto simp: version_from_def list_ex_iff)
  let ?p = "\<lambda>s. sn_mp s = sr_mp v \<and> sn_version s = sr_version v"
  have "\<not> ?p x" using False x(2,3) by auto
  then have "x \<in> set (c_snap c')"
    using assms(1) x(1) update_where_memI [OF x(1), of ?p] by (auto simp: upsert_snapshot_def split: if_splits)
  then show ?thesis using x(2-4) by (fastforce simp: version_from_def list_ex_iff)
qed

interpretation from_version: import_invariant M org snaps sers pubs "version_from M org snaps i n"
  for M org snaps sers pubs i n
proof
  show "version_from M org snaps i n c'" if "version_from M org snaps i n c" "same_tables c c'" for c c'
    using that by (simp add: version_from_def same_tables_def)
  show "version_from M org snaps i n c'"
    if "version_from M org snaps i n c" "v \<in> set snaps" "sr_org v = org"
      "upsert_snapshot (sr_mp v) (sr_version v) sha (de_sha256 (me_deposit M) (sr_xml v)) c = Inr c'" for c c' v sha
    using that by (intro version_from_upsert) auto
qed (simp_all add: version_from_def)

interpretation from_publication: import_invariant M org snaps sers pubs "publication_from M org pubs i"
  for M org snaps sers pubs i
proof
  show "publication_from M org pubs i c'" if "publication_from M org pubs i c" "same_tables c c'" for c c'
    using that by (simp add: publication_from_def same_tables_def)
  show "publication_from M org pubs i c'"
    if "publication_from M org pubs i c" "upsert_snapshot (sr_mp v) (sr_version v) sha x c = Inr c'" for c c' v sha x
    using that by (auto simp: publication_from_def upsert_snapshot_def split: if_splits)
  show "publication_from M org pubs i (c\<lparr>c_pub := AList.update (pbs_id p, engage_player) pin (c_pub c)\<rparr>)"
    if "publication_from M org pubs i c" "p \<in> set pubs" "pbs_org p = org" "pin_recorded M p pin" for c p pin
    using that by (auto simp: publication_from_def table_simps list_ex_iff split: option.splits)
qed (simp add: publication_from_def)

section \<open>What the steps leave, with its data\<close>

text \<open>Growing and keeping an invariant, together; and what a digest says once its object is stored.\<close>

interpretation grown: growing "\<lambda>s t. extends s t \<and> (Q (cat_in s) \<longrightarrow> Q (cat_in t))" for Q
  by unfold_locales (auto intro: extends_trans import_state.le_refl)

lemma grownI:
  "grows_run f \<Longrightarrow> (\<And>s. Q (cat_in s) \<Longrightarrow> Q (cat_in (snd (f s)))) \<Longrightarrow> grown.grows_by Q f"
  by (simp add: grown.grows_by_def import_state.grows_by_def)

lemma grownD:
  assumes "grown.grows_by Q f" and "f s = (e, s')"
  shows "extends s s'" and "Q (cat_in s) \<Longrightarrow> Q (cat_in s')"
proof -
  have "s' = snd (f s)" using assms(2) by simp
  then show "extends s s'" and "Q (cat_in s) \<Longrightarrow> Q (cat_in s')" using assms(1) by (simp_all add: grown.grows_by_def)
qed

definition object_stored :: "string \<Rightarrow> migration \<Rightarrow> bool" where
  "object_stored h s = cas_exists (tg_store (mg_target s)) h"

lemma object_stored_keep: "object_stored h s \<Longrightarrow> extends s s' \<Longrightarrow> object_stored h s'"
  unfolding object_stored_def extends_def using cas_exists_mono by blast

text \<open>Series.\<close>

lemma grown_series_step: "r \<in> set sers \<Longrightarrow> grown.grows_by (series_from M org sers i) (series_step M org r)"
  using from_series.keeps_series_step [where r = r and M = M and org = org and sers = sers and i = i] grows_series_step
  by (intro grownI) (auto simp: from_series.kept.grows_by_def)

lemma series_step_from:
  assumes "series_step M org r s = (None, s')" and "r \<in> set sers" "ser_org r = org" "ser_deleted r = []"
  shows "series_from M org sers (ser_id r) (cat_in s')"
proof -
  obtain s1 where run: "migrate_series M r s = (None, s1)" and s': "mg_target s' = mg_target s1"
    using assms by (auto simp: series_step_def dest!: andthen_done)
  let ?policy = "case ser_acl r of None \<Rightarrow> line AclAbsentLine (ser_id r)
      | Some doc \<Rightarrow> legacy (parse_plain_acl (texts M) doc) (\<lambda>es. on_cat (set_acl_series (ser_id r) es))"
  obtain dc created s2 where dc: "parse_dc (texts M) (ser_dc r) = Inr dc" "dc_time (me_w3cdtf M) dc ''created'' = Inr created"
    and put: "on_cat (\<lambda>c. Inr (put_series (ser_id r)
            \<lparr>sm_title = dc_first dc ''title'', sm_contributors = dc ''contributor'', sm_organizers = dc ''creator'',
             sm_language = dc_first dc ''language'', sm_description = dc_first dc ''description'',
             sm_subjects = dc ''subject'', sm_created = created\<rparr> c)) s = (None, s2)"
    and policy: "?policy s2 = (None, s1)"
    using run unfolding migrate_series_def by (elim step_doneE) blast
  have eq: "cat_in s2 = put_series (ser_id r)
      \<lparr>sm_title = dc_first dc ''title'', sm_contributors = dc ''contributor'', sm_organizers = dc ''creator'',
       sm_language = dc_first dc ''language'', sm_description = dc_first dc ''description'',
       sm_subjects = dc ''subject'', sm_created = created\<rparr> (cat_in s)"
    using on_cat_done [OF put] by simp
  have "series_from M org sers (ser_id r) (cat_in s2)"
    using assms(2-4) dc
    by (auto simp: eq series_from_def put_series_def project_series_frames table_simps list_ex_iff series_row_from_def)
  moreover have "from_series.kept.grows_by M org sers (ser_id r) ?policy"
    by (auto split: option.split intro!: from_series.keeps from_series.keeps_plain from_series.keeps_set_acl_series)
  ultimately show ?thesis
    using policy s' by (auto simp: from_series.kept.grows_by_def)
qed

text \<open>Versions.\<close>

lemma record_version_from:
  assumes "record_version M mp v doc s = (None, s')" and "v \<in> set snaps" "sr_org v = org" "sr_mp v = mp"
  shows "version_from M org snaps mp (sr_version v) (cat_in s')" and "object_stored (de_sha256 (me_deposit M) (sr_xml v)) s'"
proof -
  show "version_from M org snaps mp (sr_version v) (cat_in s')"
    using grows_record_version(2) [OF assms(1)] assms(2-4) by (fastforce simp: version_from_def list_ex_iff)
  obtain m where m: "version_manifest (mg_target s) mp doc = Inr m"
    using assms(1) by (auto simp: record_version_def split: sum.splits)
  let ?s1 = "snd (put_bytes M (me_enc M m) s)"
  let ?s2 = "snd (put_bytes M (sr_xml v) ?s1)"
  have "object_stored (de_sha256 (me_deposit M) (sr_xml v)) ?s2" using put_bytes_facts [of ?s1 M "sr_xml v"] by (simp add: object_stored_def)
  moreover have "tg_store (mg_target s') = tg_store (mg_target ?s2)"
    using assms(1) m
    by (auto simp: record_version_def case_prod_beta andthen_def count_objects_def on_cat_def on_target_def
        split: sum.splits)
  ultimately show "object_stored (de_sha256 (me_deposit M) (sr_xml v)) s'" by (simp add: object_stored_def)
qed

lemma grown_version_step:
  "v \<in> set snaps \<Longrightarrow> sr_org v = org \<Longrightarrow> sr_mp v = mp \<Longrightarrow>
     grown.grows_by (version_from M org snaps i n) (version_step M src mp latest doc v)"
  using from_version.keeps_version_step [where v = v and M = M and org = org and snaps = snaps and i = i and n = n
      and src = src and latest = latest and doc = doc] grows_version_step
  by (intro grownI) (auto simp: from_version.kept.grows_by_def)

definition version_kept :: "migrate_env \<Rightarrow> string \<Rightarrow> snapshot_src list \<Rightarrow> snapshot_src \<Rightarrow> migration \<Rightarrow> bool" where
  "version_kept M org snaps v s =
     (held (sr_mp v) s \<or>
      version_from M org snaps (sr_mp v) (sr_version v) (cat_in s) \<and> object_stored (de_sha256 (me_deposit M) (sr_xml v)) s)"

lemma version_kept_keep:
  "version_kept M org snaps v s \<Longrightarrow> extends s s' \<Longrightarrow>
     (version_from M org snaps (sr_mp v) (sr_version v) (cat_in s) \<Longrightarrow>
      version_from M org snaps (sr_mp v) (sr_version v) (cat_in s')) \<Longrightarrow>
     version_kept M org snaps v s'"
  using held_keep object_stored_keep unfolding version_kept_def by blast

lemma version_step_from:
  assumes "version_step M src mp latest doc v s = (None, s')" and "v \<in> set snaps" "sr_org v = org" "sr_mp v = mp"
  shows "version_kept M org snaps v s'"
proof (cases "held_availability v")
  case True
  then show ?thesis using assms hold_held by (simp add: version_step_def version_kept_def)
next
  case False
  then obtain d s1 where "record_version M mp v d s1 = (None, s')"
    using assms by (auto simp: version_step_def dest!: legacy_done andthen_done)
  from record_version_from [OF this assms(2,3,4)] show ?thesis using assms(4) by (simp add: version_kept_def)
qed

lemma archive_step_from:
  assumes run: "archive_step M src mp vs doc s = (None, s')" and v: "v \<in> set vs"
    and vs: "\<And>v. v \<in> set vs \<Longrightarrow> v \<in> set snaps \<and> sr_org v = org \<and> sr_mp v = mp"
  shows "version_kept M org snaps v s'"
proof -
  let ?tail = "if list_ex (has_publications M (last vs) doc) vs then line InSnapshotPublication mp else ok"
  obtain s1 where 1: "each (version_step M src mp (last vs) doc) vs s = (None, s1)" and 2: "?tail s1 = (None, s')"
    using run by (auto simp: archive_step_def dest!: andthen_done)
  have "version_kept M org snaps v s1"
  proof (rule grown.each_reaches [OF 1 v])
    show "grown.grows_by (version_from M org snaps (sr_mp v) (sr_version v)) (version_step M src mp (last vs) doc x)"
      if "x \<in> set vs" for x using vs [OF that] by (intro grown_version_step) auto
    show "version_kept M org snaps v t'" if "version_step M src mp (last vs) doc v t = (None, t')" for t t'
      using version_step_from [OF that] vs [OF v] by blast
    show "version_kept M org snaps v t'"
      if "version_kept M org snaps v t"
        "extends t t' \<and> (version_from M org snaps (sr_mp v) (sr_version v) (cat_in t) \<longrightarrow>
           version_from M org snaps (sr_mp v) (sr_version v) (cat_in t'))" for t t'
      using that version_kept_keep by blast
  qed
  moreover have "grown.grows_by (version_from M org snaps (sr_mp v) (sr_version v)) ?tail"
    by (auto intro!: grown.grows_ok grownI grows_line)
  note grownD [where f = ?tail, OF this 2]
  ultimately show ?thesis using version_kept_keep by blast
qed

lemma migrate_event_from:
  assumes run: "migrate_event M src mode vs eav s = (None, s')" and v: "v \<in> set vs"
    and vs: "\<And>v. v \<in> set vs \<Longrightarrow> v \<in> set snaps \<and> sr_org v = org \<and> sr_mp v = i"
  shows "version_kept M org snaps v s'"
proof -
  have "hd vs \<in> set vs" using v by (metis hd_in_set length_pos_if_in_set length_greater_0_conv)
  then have i: "sr_mp (hd vs) = i" using vs by simp
  have holding: "hold i t = (None, t') \<Longrightarrow> version_kept M org snaps v t'" for t t'
    using vs [OF v] hold_held by (simp add: version_kept_def)
  have archiving: "archive_step M src i vs doc t = (None, t') \<Longrightarrow> version_kept M org snaps v t'" for doc t t'
    by (rule archive_step_from [OF _ v vs])
  show ?thesis
    using run unfolding migrate_event_def Let_def i
    by (auto simp: fail_def elim!: step_doneE split: sum.splits
        dest: holding archiving)
qed

text \<open>Publications.\<close>

definition publication_kept :: "migrate_env \<Rightarrow> string \<Rightarrow> published_src list \<Rightarrow> string \<Rightarrow> migration \<Rightarrow> bool" where
  "publication_kept M org pubs i s = (held i s \<or> publication_from M org pubs i (cat_in s))"

lemma publication_kept_keep:
  "publication_kept M org pubs i s \<Longrightarrow> extends s s' \<Longrightarrow>
     (publication_from M org pubs i (cat_in s) \<Longrightarrow> publication_from M org pubs i (cat_in s')) \<Longrightarrow>
     publication_kept M org pubs i s'"
  using held_keep unfolding publication_kept_def by blast

lemma migrate_published_from:
  assumes "migrate_published M src p st pin s = (None, s')" and "p \<in> set pubs" "pbs_org p = org"
    and "\<And>row. pub_acl_state row = st \<Longrightarrow> pub_acl_read row = set pin \<Longrightarrow> pin_recorded M p row"
  shows "publication_from M org pubs (pbs_id p) (cat_in s')"
proof -
  obtain uid ids c where "publish_record uid (pbs_id p) st pin ids c = Inr (cat_in s')"
    using assms(1) unfolding migrate_published_def case_prod_beta by (auto elim!: step_doneE dest!: on_cat_done)
  from publish_record_row [OF this] obtain row where row: "pub_acl_state row = st" "pub_acl_read row = set pin"
    and "same_tables (c\<lparr>c_pub := AList.update (pbs_id p, engage_player) row (c_pub c)\<rparr>) (cat_in s')" by blast
  then show ?thesis
    using assms(2,3) assms(4) [OF row] by (auto simp: publication_from_def same_tables_def table_simps list_ex_iff)
qed

lemma migrate_publication_from:
  assumes run: "migrate_publication M src p s = (None, s')" and p: "p \<in> set pubs" "pbs_org p = org"
  shows "publication_kept M org pubs (pbs_id p) s'"
proof (cases "pbs_deleted p = []")
  case False
  then show ?thesis using run hold_held by (simp add: migrate_publication_def publication_kept_def)
next
  case live: True
  show ?thesis
  proof (cases "pbs_acl p")
    case None
    then obtain s1 where "migrate_published M src p StateAbsent [] s1 = (None, s')"
      using run live by (auto simp: migrate_publication_def dest!: andthen_done)
    from migrate_published_from [OF this p] live None show ?thesis
      by (simp add: pin_recorded_def publication_kept_def)
  next
    case (Some doc)
    then obtain es where es: "parse_plain_acl (texts M) doc = Inr es"
      and pin: "(case pin_of es of Denying \<Rightarrow> hold (pbs_id p) | Pin st pin \<Rightarrow> migrate_published M src p st pin) s = (None, s')"
      using run live by (auto simp: migrate_publication_def dest!: legacy_done)
    show ?thesis
    proof (cases "pin_of es")
      case (Pin st pin)
      then have "migrate_published M src p st pin s = (None, s')" using pin by simp
      from migrate_published_from [OF this p] live Some es Pin show ?thesis
        by (simp add: pin_recorded_def publication_kept_def)
    next
      case Denying
      then show ?thesis using pin hold_held by (simp add: publication_kept_def)
    qed
  qed
qed

text \<open>Event steps keep all three.\<close>

lemma event_versions_of:
  "v \<in> set (event_versions snaps i) \<longleftrightarrow> v \<in> set snaps \<and> sr_mp v = i"
  by (auto simp: event_versions_def)

lemma versions_nonempty: "i \<in> sr_mp ` set snaps \<Longrightarrow> event_versions snaps i \<noteq> []"
  using event_versions_of [of _ snaps i] by (force simp: image_iff)

context import_invariant begin

lemma keeps_event_step:
  assumes "set mine \<subseteq> {v \<in> set snaps. sr_org v = org}" and "\<And>p. map_of by_id i = Some p \<Longrightarrow> p \<in> set pubs \<and> pbs_org p = org"
    and "i \<in> sr_mp ` set mine"
  shows "kept.grows_by (event_step M src mode mine by_id eav i)"
proof -
  have "kept.grows_by (migrate_event M src mode (event_versions mine i) e)" for e
    by (rule keeps_migrate_event [where i = i]) (use assms(1,3) event_versions_of versions_nonempty in \<open>auto\<close>)
  then show ?thesis
    unfolding event_step_def
    by (auto split: option.split intro!: keeps keeps_plain keeps_migrate_publication dest: assms(2))
qed

end

lemma event_step_from:
  assumes run: "event_step M src mode mine by_id eav i s = (None, s')"
    and mine: "set mine \<subseteq> {v \<in> set snaps. sr_org v = org}"
    and pubs: "\<And>p. map_of by_id i = Some p \<Longrightarrow> p \<in> set pubs \<and> pbs_org p = org \<and> pbs_id p = i"
  shows "v \<in> set mine \<Longrightarrow> sr_mp v = i \<Longrightarrow> version_kept M org snaps v s'"
    and "map_of by_id i \<noteq> None \<Longrightarrow> publication_kept M org pubs i s'"
proof -
  let ?eav = "case map_of eav i of None \<Rightarrow> [] | Some es \<Rightarrow> es" and ?vs = "event_versions mine i"
  let ?pub = "case map_of by_id i of None \<Rightarrow> ok | Some p \<Rightarrow> migrate_publication M src p"
  obtain s1 s2 where 1: "migrate_event M src mode ?vs ?eav s = (None, s1)" and 2: "?pub s1 = (None, s2)"
    and s': "s' = s2\<lparr>mg_events := Suc (mg_events s2)\<rparr>"
    using run unfolding event_step_def by (auto dest!: andthen_done)
  have grow: "grows_run ?pub" by (auto intro!: import_growth grows_migrate_publication split: option.split)
  have e: "extends s2 s'" by (simp add: s' extends_same_target)
  have cat: "cat_in s' = cat_in s2" by (simp add: s')
  show "version_kept M org snaps v s'" if v: "v \<in> set mine" "sr_mp v = i"
  proof -
    have "version_kept M org snaps v s1"
      by (rule migrate_event_from [OF 1, where i = i]) (use v mine in \<open>auto simp: event_versions_of\<close>)
    moreover have "from_version.kept.grows_by M org snaps (sr_mp v) (sr_version v) ?pub"
      by (auto split: option.split intro!: from_version.keeps from_version.keeps_migrate_publication dest: pubs)
    then have "version_from M org snaps (sr_mp v) (sr_version v) (cat_in s1) \<Longrightarrow>
        version_from M org snaps (sr_mp v) (sr_version v) (cat_in s2)"
      using 2 by (auto simp: from_version.kept.grows_by_def)
    ultimately have "version_kept M org snaps v s2" using grows_runD [OF grow 2] version_kept_keep by blast
    then show ?thesis using version_kept_keep [OF _ e] cat by simp
  qed
  show "publication_kept M org pubs i s'" if some: "map_of by_id i \<noteq> None"
  proof -
    obtain p where p: "map_of by_id i = Some p" using some by blast
    then have "migrate_publication M src p s1 = (None, s2)" using 2 by simp
    from migrate_publication_from [OF this, of pubs org] have "publication_kept M org pubs i s2" using pubs [OF p] by simp
    then show ?thesis using publication_kept_keep [OF _ e] cat by simp
  qed
qed

section \<open>A whole run, with the data\<close>

text \<open>The published records the run looks up, by event.\<close>

definition published_by_id :: "string \<Rightarrow> published_src list \<Rightarrow> (string \<times> published_src) list" where
  "published_by_id org pubs = rev (map (\<lambda>p. (pbs_id p, p)) (filter (\<lambda>p. pbs_org p = org) pubs))"

lemma published_by_id_Some:
  "map_of (published_by_id org pubs) i = Some p \<Longrightarrow> p \<in> set pubs \<and> pbs_org p = org \<and> pbs_id p = i"
  unfolding published_by_id_def by (drule map_of_SomeD) auto

lemma published_by_id_None:
  "map_of (published_by_id org pubs) i = None \<longleftrightarrow> (\<forall>p \<in> set pubs. pbs_org p = org \<longrightarrow> pbs_id p \<noteq> i)"
  by (auto simp: published_by_id_def map_of_eq_None_iff image_iff)

lemma deleted_series_held:
  assumes run: "run_tables M src org mode snaps sers pubs eav managed s = (None, s')"
    and r: "r \<in> set sers" "ser_org r = org" "ser_deleted r \<noteq> []"
  shows "held (ser_id r) s'"
proof -
  let ?events = "each (event_step M src mode (filter (\<lambda>x. sr_org x = org) snaps) (published_by_id org pubs) eav)
        (sort (remdups (map sr_mp (filter (\<lambda>x. sr_org x = org) snaps))))"
  let ?tail = "each (\<lambda>(g, name). if g = org then line ManagedTemplate name else ok) managed"
  obtain s1 s2 s3 where 1: "each (series_step M org) sers s1 = (None, s2)" and 2: "?events s2 = (None, s3)"
    and 3: "?tail s3 = (None, s')"
    using run unfolding run_tables_def Let_def published_by_id_def [symmetric] by (auto dest!: andthen_done)
  have "held (ser_id r) s2"
  proof (rule import_state.each_reaches [OF 1 r(1)])
    show "grows_run (series_step M org x)" for x by (rule grows_series_step)
    show "held (ser_id r) t'" if "series_step M org r t = (None, t')" for t t'
      using that r(2,3) hold_held by (simp add: series_step_def)
  qed (rule held_keep)
  moreover have "grows_run ?events" by (intro import_growth grows_event_step)
  moreover have "grows_run ?tail" by (auto intro!: import_growth grows_line)
  ultimately show ?thesis
    using grows_runD [where f = ?events, OF _ 2] grows_runD [where f = ?tail, OF _ 3] held_keep by blast
qed

lemma run_tables_from:
  assumes run: "run_tables M src org mode snaps sers pubs eav managed s = (None, s')"
  shows "r \<in> set sers \<Longrightarrow> ser_org r = org \<Longrightarrow> ser_deleted r = [] \<Longrightarrow> series_from M org sers (ser_id r) (cat_in s')"
    and "v \<in> set snaps \<Longrightarrow> sr_org v = org \<Longrightarrow> version_kept M org snaps v s'"
    and "p \<in> set pubs \<Longrightarrow> pbs_org p = org \<Longrightarrow> v \<in> set snaps \<Longrightarrow> sr_org v = org \<Longrightarrow> sr_mp v = pbs_id p \<Longrightarrow>
      publication_kept M org pubs (pbs_id p) s'"
proof -
  let ?mine = "filter (\<lambda>x. sr_org x = org) snaps"
  let ?by = "published_by_id org pubs"
  let ?ids = "sort (remdups (map sr_mp ?mine))"
  let ?events = "each (event_step M src mode ?mine ?by eav) ?ids"
  let ?tail = "each (\<lambda>(g, name). if g = org then line ManagedTemplate name else ok) managed"
  obtain s1 s2 s3 where 1: "each (series_step M org) sers s1 = (None, s2)" and 2: "?events s2 = (None, s3)"
    and 3: "?tail s3 = (None, s')"
    using run unfolding run_tables_def Let_def published_by_id_def [symmetric] by (auto dest!: andthen_done)
  have mine: "set ?mine \<subseteq> {v \<in> set snaps. sr_org v = org}" by auto
  have by_id: "map_of ?by i = Some p \<Longrightarrow> p \<in> set pubs \<and> pbs_org p = org" for i p
    using published_by_id_Some by blast
  have ids: "i \<in> sr_mp ` set ?mine" if "i \<in> set ?ids" for i using that by auto
  have tail: "cat_in s' = cat_in s3" and e3: "extends s3 s'"
  proof -
    have "cat_in (snd (?tail s)) = cat_in s" for s
      by (induction managed arbitrary: s) (auto simp: andthen_def ok_def line_def on_target_def)
    then show "cat_in s' = cat_in s3" using 3 by (metis snd_conv)
    have "grows_run ?tail" by (auto intro!: import_growth grows_line)
    from grows_runD [OF this 3] show "extends s3 s'" .
  qed
  show "series_from M org sers (ser_id r) (cat_in s')"
    if r: "r \<in> set sers" "ser_org r = org" "ser_deleted r = []"
  proof -
    have "series_from M org sers (ser_id r) (cat_in s2)"
    proof (rule grown.each_reaches [OF 1 r(1)])
      show "grown.grows_by (series_from M org sers (ser_id r)) (series_step M org x)" if "x \<in> set sers" for x
        by (rule grown_series_step [OF that])
      show "series_from M org sers (ser_id r) (cat_in t')" if "series_step M org r t = (None, t')" for t t'
        by (rule series_step_from [OF that r])
    qed blast
    moreover have "from_series.kept.grows_by M org sers (ser_id r) ?events"
      by (intro from_series.kept.grows_each from_series.keeps_event_step [OF mine by_id ids])
    ultimately show ?thesis using 2 tail by (auto simp: from_series.kept.grows_by_def)
  qed
  show "version_kept M org snaps v s'" if v: "v \<in> set snaps" "sr_org v = org"
  proof -
    have "sr_mp v \<in> set ?ids" using v by auto
    then have "version_kept M org snaps v s3"
    proof (rule grown.each_reaches [OF 2])
      show "grown.grows_by (version_from M org snaps (sr_mp v) (sr_version v)) (event_step M src mode ?mine ?by eav x)"
        if "x \<in> set ?ids" for x
        using from_version.keeps_event_step [OF mine by_id ids [OF that]] grows_event_step
        by (intro grownI) (auto simp: from_version.kept.grows_by_def)
      show "version_kept M org snaps v t'" if "event_step M src mode ?mine ?by eav (sr_mp v) t = (None, t')" for t t'
        by (rule event_step_from(1) [OF that mine published_by_id_Some]) (use v in auto)
    qed (use version_kept_keep in blast)
    then show ?thesis using version_kept_keep [OF _ e3] tail by simp
  qed
  show "publication_kept M org pubs (pbs_id p) s'"
    if p: "p \<in> set pubs" "pbs_org p = org" and v: "v \<in> set snaps" "sr_org v = org" "sr_mp v = pbs_id p"
  proof -
    have "pbs_id p \<in> sr_mp ` set ?mine" using v by (force simp: image_iff)
    then have "pbs_id p \<in> set ?ids" by auto
    then have "publication_kept M org pubs (pbs_id p) s3"
    proof (rule grown.each_reaches [OF 2])
      show "grown.grows_by (publication_from M org pubs (pbs_id p)) (event_step M src mode ?mine ?by eav x)"
        if "x \<in> set ?ids" for x
        using from_publication.keeps_event_step [OF mine by_id ids [OF that]] grows_event_step
        by (intro grownI) (auto simp: from_publication.kept.grows_by_def)
      show "publication_kept M org pubs (pbs_id p) t'"
        if "event_step M src mode ?mine ?by eav (pbs_id p) t = (None, t')" for t t'
        by (rule event_step_from(2) [OF that mine published_by_id_Some])
           (use p published_by_id_None [of org pubs "pbs_id p"] in auto)
    qed (use publication_kept_keep in blast)
    then show ?thesis using publication_kept_keep [OF _ e3] tail by simp
  qed
qed

section \<open>Published records without an archived event\<close>

definition archived_ids :: "string \<Rightarrow> snapshot_src list \<Rightarrow> string list" where
  "archived_ids org snaps = map sr_mp (filter (\<lambda>v. sr_org v = org) snaps)"

definition drop_orphans :: "string \<Rightarrow> snapshot_src list \<Rightarrow> published_src list \<Rightarrow> published_src list" where
  "drop_orphans org snaps pubs = filter (\<lambda>p. pbs_org p = org \<longrightarrow> pbs_id p \<in> set (archived_ids org snaps)) pubs"

lemma each_cong: "(\<And>x. x \<in> set xs \<Longrightarrow> f x = g x) \<Longrightarrow> each f xs = each g xs"
proof (induction xs)
  case (Cons x xs)
  then have "f x = g x" "each f xs = each g xs" by auto
  then show ?case by (intro ext) simp
qed (intro ext; simp)

lemma map_of_kept_key:
  "map_of (filter (\<lambda>(k, x). P k) xs) i = (if P i then map_of xs i else None)"
  by (induction xs) auto

lemma by_id_drop_orphans:
  assumes "i \<in> set (archived_ids org snaps)"
  shows "map_of (published_by_id org (drop_orphans org snaps pubs)) i = map_of (published_by_id org pubs) i"
proof -
  have "published_by_id org (drop_orphans org snaps pubs) =
      filter (\<lambda>(k, p). k \<in> set (archived_ids org snaps)) (published_by_id org pubs)"
    by (simp add: published_by_id_def drop_orphans_def rev_filter filter_map o_def rev_map)
       (metis (mono_tags, lifting) filter_cong)
  then show ?thesis using assms by (simp add: map_of_kept_key)
qed

lemma event_step_by_id:
  "map_of by1 i = map_of by2 i \<Longrightarrow> event_step M src mode mine by1 eav i = event_step M src mode mine by2 eav i"
  by (simp add: event_step_def)

lemma others_drop_orphans:
  "filter (\<lambda>g. g \<noteq> org) (map pbs_org (drop_orphans org snaps pubs)) = filter (\<lambda>g. g \<noteq> org) (map pbs_org pubs)"
  by (induction pubs) (auto simp: drop_orphans_def)

lemma run_tables_orphans:
  "run_tables M src org mode snaps sers (drop_orphans org snaps pubs) eav managed =
     run_tables M src org mode snaps sers pubs eav managed"
proof -
  let ?mine = "filter (\<lambda>x. sr_org x = org) snaps"
  let ?ids = "sort (remdups (map sr_mp ?mine))"
  have "each (event_step M src mode ?mine (published_by_id org (drop_orphans org snaps pubs)) eav) ?ids =
      each (event_step M src mode ?mine (published_by_id org pubs) eav) ?ids"
    by (intro each_cong event_step_by_id by_id_drop_orphans) (auto simp: archived_ids_def)
  moreover have "filter (\<lambda>g. g \<noteq> org) (as @ bs @ map pbs_org (drop_orphans org snaps pubs) @ cs) =
      filter (\<lambda>g. g \<noteq> org) (as @ bs @ map pbs_org pubs @ cs)" for as bs cs
    by (simp only: filter_append others_drop_orphans)
  ultimately show ?thesis
    unfolding run_tables_def Let_def published_by_id_def [symmetric] by simp
qed

text \<open>The run reads the published table only through \<open>run_tables\<close>.\<close>

lemma resolve_only:
  "event_step M (src\<lparr>so_published := x\<rparr>) = event_step M src"
proof -
  have keep: "keep_element M (src\<lparr>so_published := x\<rparr>) = keep_element M src"
    by (intro ext) (simp add: keep_element_def put_element_bytes_def)
  have mat: "materialise_step M (src\<lparr>so_published := x\<rparr>) = materialise_step M src"
    by (intro ext) (simp add: materialise_step_def)
  have res: "so_resolve (src\<lparr>so_published := x\<rparr>) = so_resolve src" by simp
  have md: "set_event_metadata M (src\<lparr>so_published := x\<rparr>) = set_event_metadata M src"
    by (intro ext) (simp only: set_event_metadata_def res)
  have ver: "version_step M (src\<lparr>so_published := x\<rparr>) = version_step M src"
    by (intro ext) (simp add: version_step_def keep)
  have arch: "archive_step M (src\<lparr>so_published := x\<rparr>) = archive_step M src"
    by (intro ext) (simp only: archive_step_def ver)
  have "migrate_event M (src\<lparr>so_published := x\<rparr>) = migrate_event M src"
    by (intro ext) (simp only: migrate_event_def mat md arch res)
  moreover have "migrate_published M (src\<lparr>so_published := x\<rparr>) = migrate_published M src"
    by (intro ext) (simp only: migrate_published_def mat keep)
  then have "migrate_publication M (src\<lparr>so_published := x\<rparr>) = migrate_publication M src"
    by (intro ext) (simp only: migrate_publication_def)
  ultimately show ?thesis by (intro ext) (simp only: event_step_def)
qed

lemma orphans_have_no_effect:
  assumes "so_snapshots src = Some snaps" and "so_published src = Some pubs"
  shows "run_import M (src\<lparr>so_published := Some (drop_orphans org snaps pubs)\<rparr>) org t = run_import M src org t"
proof -
  have tables: "run_tables M (src\<lparr>so_published := x\<rparr>) = run_tables M src" for x
    by (intro ext) (simp only: run_tables_def resolve_only)
  have "run_migration M (src\<lparr>so_published := Some (drop_orphans org snaps pubs)\<rparr>) org = run_migration M src org"
    by (intro ext) (simp add: run_migration_def assms tables run_tables_orphans split: option.split)
  then show ?thesis by (simp add: run_import_def)
qed

end
