(* ===== verification/MigrateClaims.thy ===== *)
theory MigrateClaims
  imports MigrateData IngestClaims
begin

text \<open>
  What an import promises: a run, finished or failed, takes nothing back and leaves every url it recorded
  with its bytes; a finished run has either migrated or reported every row of the organisation; and an
  archive ACL is written only when its own copies and the enforcement copy agree.
\<close>

section \<open>Nothing is taken back\<close>

text \<open>C31: a run of the import, however it ends and whatever runs came before, only adds: every stored object
  keeps its bytes, the repoint map keeps every url with the digest first recorded for it, no mediapackage,
  series, publication or version disappears, earlier report lines stay in place, and if every recorded
  url and every migrated version had its object before the run, they have it afterwards. So a failed
  import can be repaired and run again over the same target.\<close>

theorem import_only_adds:
  assumes "run_import M src org t = (e, t')"
  shows "map_of (tg_store t) \<subseteq>\<^sub>m map_of (tg_store t') \<and> map_of (tg_urls t) \<subseteq>\<^sub>m map_of (tg_urls t') \<and>
    cat_le (tg_cat t) (tg_cat t') \<and> (\<exists>ls. tg_report t' = tg_report t @ ls) \<and> (backed t \<longrightarrow> backed t')"
  using assms
proof (rule run_import_runs)
  fix s out
  assume t': "t' = finish_run out s" and e: "extends (run_start src org t) s"
  then show ?thesis
    using backed_cong [of t "mg_target (run_start src org t)"] backed_cong [of "finish_run out s" "mg_target s"]
    by (auto simp: extends_def reported_def)
qed

section \<open>Every row is accounted for\<close>

definition run_holds :: "target \<Rightarrow> nat \<Rightarrow> string \<Rightarrow> bool" where
  "run_holds t run i = (\<exists>l \<in> set (tg_report t). rl_run l = run \<and> rl_class l = Hold \<and> rl_record l = i)"

lemma held_reported:
  assumes "held i s" and "extends (run_start src org t) s"
  shows "run_holds (finish_run out s) (length (tg_runs t)) i"
  using assms by (auto simp: held_def run_holds_def extends_def reported_def)

lemma hold_lines_zero: "hold_lines ls = 0 \<longleftrightarrow> (\<forall>l \<in> set ls. rl_class l \<noteq> Hold)"
  by (auto simp: hold_lines_def filter_empty_conv)

lemma run_holds_none:
  assumes "filter (\<lambda>l. rl_run l = run) (tg_report t) = ls"
  shows "hold_lines ls = 0 \<longleftrightarrow> (\<forall>i. \<not> run_holds t run i)"
  unfolding hold_lines_zero run_holds_def assms [symmetric] by auto

lemma finished_row:
  assumes "extends (run_start src org t) s"
  shows "tg_runs (finish_run out s) ! length (tg_runs t) =
      (tg_runs (mg_target s) ! length (tg_runs t))\<lparr>rr_events := mg_events s, rr_series := mg_series s,
          rr_versions := mg_versions s, rr_objects := mg_objects s, rr_holds := mg_holds s, rr_outcome := out\<rparr>"
  using assms by (simp add: finish_run_def extends_def reported_def run_start_def)

text \<open>C30: a run that completes accounts for the rows of its organisation. Each series that is not deleted has
  a row with the data of a source row of that id, each deleted one is held. Each archived version has its
  snapshot, whose source digest is that of a source document of this version, and its own document is in the
  store; or its event is held. Each published record whose event is in the archive has its publication, with
  the pin its access list gives, or is held. A hold is a line of this run that names the record; the run's row
  counts exactly the hold lines and says complete only when there are none. The exception are published
  records whose event has no archived version: the run is the same, report and outcome included, as if they
  were not in the source, so they are neither migrated nor reported. Assumed are a readable source and that
  the report lines already stored belong to earlier runs.\<close>

theorem import_accounts_for_rows:
  assumes "run_import M src org t = (None, t')" and "\<And>l. l \<in> set (tg_report t) \<Longrightarrow> rl_run l < length (tg_runs t)"
    and "so_series src = Some sers" and "so_snapshots src = Some snaps" and "so_published src = Some pubs"
  shows "(\<forall>r \<in> set sers. ser_org r = org \<longrightarrow>
        (if ser_deleted r = [] then series_from M org sers (ser_id r) (tg_cat t')
         else run_holds t' (length (tg_runs t)) (ser_id r))) \<and>
    (\<forall>v \<in> set snaps. sr_org v = org \<longrightarrow> run_holds t' (length (tg_runs t)) (sr_mp v) \<or>
        version_from M org snaps (sr_mp v) (sr_version v) (tg_cat t') \<and>
        cas_exists (tg_store t') (de_sha256 (me_deposit M) (sr_xml v))) \<and>
    (\<forall>p \<in> set pubs. pbs_org p = org \<and> pbs_id p \<in> set (archived_ids org snaps) \<longrightarrow>
        run_holds t' (length (tg_runs t)) (pbs_id p) \<or> publication_from M org pubs (pbs_id p) (tg_cat t')) \<and>
    run_import M (src\<lparr>so_published := Some (drop_orphans org snaps pubs)\<rparr>) org t = (None, t') \<and>
    rr_holds (tg_runs t' ! length (tg_runs t)) =
      hold_lines (filter (\<lambda>l. rl_run l = length (tg_runs t)) (tg_report t')) \<and>
    (rr_outcome (tg_runs t' ! length (tg_runs t)) = Complete \<longleftrightarrow> (\<forall>i. \<not> run_holds t' (length (tg_runs t)) i))"
  using assms(1)
proof (rule run_import_runs)
  fix s out
  assume run: "run_migration M src org (run_start src org t) = (None, s)" and t': "t' = finish_run out s"
    and e: "extends (run_start src org t) s"
    and out: "out = (if None \<noteq> (None :: migrate_error option) then FailedRun else if 0 < mg_holds s then CompleteWithHolds else Complete)"
  obtain mode eav managed where tables:
    "run_tables M src org mode snaps sers pubs eav managed (run_start src org t) = (None, s)"
    using run assms(3-5) by (auto simp: run_migration_def fail_def split: option.splits)
  note fin = run_tables_from [OF tables] and row = finished_row [OF e] and there = held_reported [OF _ e]
  obtain ls where ls: "tg_report (mg_target s) = tg_report t @ ls" "mg_holds s = hold_lines ls"
      "\<And>l. l \<in> set ls \<Longrightarrow> rl_run l = length (tg_runs t)"
    using e by (auto simp: extends_def reported_def)
  have mine: "filter (\<lambda>l. rl_run l = length (tg_runs t)) (tg_report t') = ls"
    using ls(1,3) assms(2) by (auto simp: t' filter_empty_conv intro!: filter_True) (metis less_irrefl)
  have none: "hold_lines ls = 0 \<longleftrightarrow> (\<forall>i. \<not> run_holds t' (length (tg_runs t)) i)"
    by (rule run_holds_none [OF mine])
  show ?thesis
  proof (intro conjI)
    show "\<forall>r \<in> set sers. ser_org r = org \<longrightarrow>
        (if ser_deleted r = [] then series_from M org sers (ser_id r) (tg_cat t')
         else run_holds t' (length (tg_runs t)) (ser_id r))"
      using fin(1) deleted_series_held [OF tables] there by (simp add: t')
    show "\<forall>v \<in> set snaps. sr_org v = org \<longrightarrow> run_holds t' (length (tg_runs t)) (sr_mp v) \<or>
        version_from M org snaps (sr_mp v) (sr_version v) (tg_cat t') \<and>
        cas_exists (tg_store t') (de_sha256 (me_deposit M) (sr_xml v))"
      using fin(2) there unfolding version_kept_def object_stored_def t' finish_run_frame by blast
    have "\<exists>v \<in> set snaps. sr_org v = org \<and> sr_mp v = i" if "i \<in> set (archived_ids org snaps)" for i
      using that by (auto simp: archived_ids_def)
    then show "\<forall>p \<in> set pubs. pbs_org p = org \<and> pbs_id p \<in> set (archived_ids org snaps) \<longrightarrow>
        run_holds t' (length (tg_runs t)) (pbs_id p) \<or> publication_from M org pubs (pbs_id p) (tg_cat t')"
      using fin(3) there unfolding publication_kept_def t' finish_run_frame by blast
    show "run_import M (src\<lparr>so_published := Some (drop_orphans org snaps pubs)\<rparr>) org t = (None, t')"
      unfolding orphans_have_no_effect [OF assms(4,5)] by (rule assms(1))
    show "rr_holds (tg_runs t' ! length (tg_runs t)) =
        hold_lines (filter (\<lambda>l. rl_run l = length (tg_runs t)) (tg_report t'))"
      using mine ls(2) row unfolding t' by simp
    show "rr_outcome (tg_runs t' ! length (tg_runs t)) = Complete \<longleftrightarrow> (\<forall>i. \<not> run_holds t' (length (tg_runs t)) i)"
      unfolding none [symmetric] unfolding t' row using ls(2) out by simp
  qed
qed

definition no_resolve :: "string \<Rightarrow> string option" where
  "no_resolve u = None"

definition demo_import :: migrate_env where
  "demo_import = \<lparr>me_deposit = demo_deposit_env, me_w3cdtf = (\<lambda>s. None), me_enc = nm_title, me_uid = (\<lambda>m. m)\<rparr>"

definition demo_series :: "series_src list" where
  "demo_series = [\<lparr>ser_id = ''s1'', ser_org = ''o'', ser_deleted = [], ser_acl = None, ser_dc = ''<d/>''\<rparr>,
     \<lparr>ser_id = ''s2'', ser_org = ''o'', ser_deleted = ''2020'', ser_acl = None, ser_dc = ''<d/>''\<rparr>]"

definition demo_source :: source where
  "demo_source = \<lparr>so_label = ''fixture'', so_merge_mode = Some ''override'', so_snapshots = Some [],
     so_series = Some demo_series,
     so_published = Some [], so_eav = Some [], so_managed = Some [], so_resolve = no_resolve\<rparr>"

definition demo_target :: target where
  "demo_target = \<lparr>tg_store = [], tg_cat = empty_catalog 0, tg_urls = [], tg_report = [], tg_runs = []\<rparr>"

abbreviation demo_run :: target where
  "demo_run \<equiv> snd (run_import demo_import demo_source ''o'' demo_target)"

lemma demo_import_runs: "run_import demo_import demo_source ''o'' demo_target = (None, demo_run)"
proof -
  have "fst (run_import demo_import demo_source ''o'' demo_target) = None" by code_simp
  then show ?thesis by (metis prod.collapse)
qed

theorem import_only_adds_witness:
  "map_of (tg_store demo_target) \<subseteq>\<^sub>m map_of (tg_store demo_run) \<and>
    map_of (tg_urls demo_target) \<subseteq>\<^sub>m map_of (tg_urls demo_run) \<and> cat_le (tg_cat demo_target) (tg_cat demo_run) \<and>
    (\<exists>ls. tg_report demo_run = tg_report demo_target @ ls) \<and> backed demo_run"
proof -
  have "backed demo_target" by (simp add: backed_def snap_backed_def demo_target_def empty_catalog_def)
  then show ?thesis using import_only_adds [OF demo_import_runs] by blast
qed

theorem import_accounts_for_rows_witness:
  "series_from demo_import ''o'' demo_series ''s1'' (tg_cat demo_run) \<and> run_holds demo_run 0 ''s2'' \<and>
    rr_outcome (tg_runs demo_run ! 0) \<noteq> Complete"
proof -
  have rep: "l \<in> set (tg_report demo_target) \<Longrightarrow> rl_run l < length (tg_runs demo_target)" for l
    by (simp add: demo_target_def)
  have src: "so_series demo_source = Some demo_series" "so_snapshots demo_source = Some []" "so_published demo_source = Some []"
    by (simp_all add: demo_source_def)
  note all = import_accounts_for_rows [OF demo_import_runs rep src]
  have "\<forall>r \<in> set demo_series. ser_org r = ''o'' \<longrightarrow>
      (if ser_deleted r = [] then series_from demo_import ''o'' demo_series (ser_id r) (tg_cat demo_run)
       else run_holds demo_run (length (tg_runs demo_target)) (ser_id r))"
    by (rule all [THEN conjunct1])
  then have "series_from demo_import ''o'' demo_series ''s1'' (tg_cat demo_run)" and held: "run_holds demo_run 0 ''s2''"
    by (simp_all add: demo_series_def demo_target_def)
  moreover have "rr_outcome (tg_runs demo_run ! 0) \<noteq> Complete"
    using all [THEN conjunct2, THEN conjunct2, THEN conjunct2, THEN conjunct2, THEN conjunct2] held
    by (simp add: demo_target_def) blast
  ultimately show ?thesis by blast
qed

text \<open>A published record whose event was never archived: the run ends complete, without a line about it.\<close>

definition orphan_source :: source where
  "orphan_source = demo_source\<lparr>so_series := Some [],
     so_published := Some [\<lparr>pbs_id = ''lost'', pbs_org = ''o'', pbs_deleted = [], pbs_acl = None, pbs_xml = ''<d/>''\<rparr>]\<rparr>"

lemma orphan_published_unreported:
  "let t' = snd (run_import demo_import orphan_source ''o'' demo_target)
   in rr_outcome (tg_runs t' ! 0) = Complete \<and> map_of (c_pub (tg_cat t')) (''lost'', engage_player) = None \<and>
      \<not> list_ex (\<lambda>l. rl_record l = ''lost'') (tg_report t')"
  by code_simp

section \<open>The archive ACL\<close>

definition copies :: "string \<Rightarrow> document \<Rightarrow> doc_element list" where
  "copies flavor doc = filter (\<lambda>e. dd_flavor e = flavor) (do_elements doc)"

lemma security_copies_all:
  "security_copies bytes_of flavor es = Inr cs \<Longrightarrow>
     map Some (map snd cs) = map (\<lambda>e. bytes_of (dd_url e)) (filter (\<lambda>e. dd_flavor e = flavor) es) \<and>
     map fst cs = map dd_url (filter (\<lambda>e. dd_flavor e = flavor) es)"
  by (induction bytes_of flavor es arbitrary: cs rule: security_copies.induct)
     (auto split: if_splits option.splits split: sum.splits)

lemma security_attachment_settled:
  assumes "security_attachment bytes_of flavor doc = Inr r"
  shows "(case r of None \<Rightarrow> copies flavor doc = []
    | Some raw \<Rightarrow> (\<forall>e \<in> set (copies flavor doc). bytes_of (dd_url e) = Some raw) \<and>
        (\<exists>e \<in> set (copies flavor doc). is_urn (dd_url e)))"
proof -
  obtain cs where cs: "security_copies bytes_of flavor (do_elements doc) = Inr cs"
    and r: "(case filter (\<lambda>c. is_urn (fst c)) cs @ filter (\<lambda>c. \<not> is_urn (fst c)) cs of
         [] \<Rightarrow> Inr None
       | c # rest \<Rightarrow>
           (if list_ex (\<lambda>d. snd d \<noteq> snd c) rest then Inl (Diverging flavor)
            else if \<not> is_urn (fst c) then Inl (NoUrn flavor)
            else Inr (Some (snd c)))) = Inr r"
    using assms by (auto simp: security_attachment_def split: sum.splits)
  let ?cs = "filter (\<lambda>c. is_urn (fst c)) cs @ filter (\<lambda>c. \<not> is_urn (fst c)) cs"
  have all: "map Some (map snd cs) = map (\<lambda>e. bytes_of (dd_url e)) (copies flavor doc)"
    "map fst cs = map dd_url (copies flavor doc)"
    using security_copies_all [OF cs] by (simp_all add: copies_def)
  have same: "set ?cs = set cs" by auto
  show ?thesis
  proof (cases ?cs)
    case Nil
    then have "cs = []" using same by simp
    then show ?thesis using r all by (simp add: Nil)
  next
    case (Cons c rest)
    then have raw: "r = Some (snd c)" "is_urn (fst c)" "\<forall>d \<in> set ?cs. snd d = snd c" "c \<in> set cs"
      using r same by (auto simp: list_ex_iff split: if_splits)
    have "bytes_of (dd_url e) = Some (snd c)" if "e \<in> set (copies flavor doc)" for e
    proof -
      have "bytes_of (dd_url e) \<in> set (map Some (map snd cs))" using that all(1) by auto
      then show ?thesis using raw(3) same by auto
    qed
    moreover have "fst c \<in> set (map dd_url (copies flavor doc))" using raw(4) all(2) by (metis image_eqI set_map)
    ultimately show ?thesis using raw(1,2) by auto
  qed
qed

text \<open>The rendered keys of two entry lists are the same set exactly when the entries are, as long as no action
  contains the separator.\<close>

lemma entry_key_exact:
  assumes "CHR ''|'' \<notin> set (action a)" "CHR ''|'' \<notin> set (action b)" and "entry_key a = entry_key b"
  shows "a = b"
proof -
  have r: "rev (entry_key e) = (if allow e then ''eurt'' else ''eslaf'') @ CHR ''|'' # rev (action e) @ CHR ''|'' # rev (role e)"
    for e by (simp add: entry_key_def)
  have "allow a = allow b" using assms(3) r [of a] r [of b] by (auto split: if_splits)
  then have "rev (action a) @ CHR ''|'' # rev (role a) = rev (action b) @ CHR ''|'' # rev (role b)"
    using assms(3) r [of a] r [of b] by auto
  moreover have "takeWhile (\<lambda>c. c \<noteq> CHR ''|'') (rev (action e) @ CHR ''|'' # rest) = rev (action e)"
    "dropWhile (\<lambda>c. c \<noteq> CHR ''|'') (rev (action e) @ CHR ''|'' # rest) = CHR ''|'' # rest"
    if "CHR ''|'' \<notin> set (action e)" for e rest
    using that by (auto simp: takeWhile_append dropWhile_append)
  ultimately have "rev (action a) = rev (action b)" "rev (role a) = rev (role b)"
    using assms(1,2) by (metis, metis list.inject)
  then show ?thesis using \<open>allow a = allow b\<close> by simp
qed

lemma entry_set_equal_exact:
  assumes "\<forall>e \<in> set es \<union> set fs. CHR ''|'' \<notin> set (action e)"
  shows "entry_set_equal es fs \<longleftrightarrow> set es = set fs"
proof -
  have "inj_on entry_key (set es \<union> set fs)"
    using assms entry_key_exact by (auto simp: inj_on_def)
  then show ?thesis
    by (auto simp: entry_set_equal_def dest: inj_on_image_eq_iff [of _ _ "set es" "set fs"])
qed

text \<open>Without the proviso the comparison is not exact.\<close>

lemma entry_keys_collide:
  "entry_set_equal [\<lparr>role = ''R'', action = ''a|b'', allow = True\<rparr>] [\<lparr>role = ''R|a'', action = ''b'', allow = True\<rparr>]"
  by (simp add: entry_set_equal_def entry_key_def)

text \<open>C32: the archive ACL of an event comes from exactly one authority: under merge mode override, the episode
  attachment if the archived document has one, else the series attachment, else none; every copy of the
  attachment that counts resolves to the same bytes, one copy being archived under a urn, and the parsed
  entries are those bytes' entries. The import then writes it as the event's policy only when it is the
  same set of entries as the source's enforcement copy (an absent ACL only when that copy is empty);
  otherwise the catalog is left as it is and the event is held.\<close>

theorem archive_acl_single_authority:
  assumes "resolve_archive_acl T bytes_of mode doc = Inr a"
    and "\<forall>e \<in> set eav \<union> (case a of AclAbsent \<Rightarrow> {} | AclPresent es \<Rightarrow> set es). CHR ''|'' \<notin> set (action e)"
  shows "mode = ''override'' \<and>
    (case a of
       AclAbsent \<Rightarrow> copies ''security/xacml+episode'' doc = [] \<and> copies ''security/xacml+series'' doc = []
     | AclPresent es \<Rightarrow> (\<exists>flavor raw. flavor = (if copies ''security/xacml+episode'' doc \<noteq> []
             then ''security/xacml+episode'' else ''security/xacml+series'') \<and> parse_xacml T raw = Inr es \<and>
           (\<forall>e \<in> set (copies flavor doc). bytes_of (dd_url e) = Some raw) \<and>
           (\<exists>e \<in> set (copies flavor doc). is_urn (dd_url e)))) \<and>
    acl_step mp a eav s =
      (if set eav = (case a of AclAbsent \<Rightarrow> {} | AclPresent es \<Rightarrow> set es)
       then case a of AclAbsent \<Rightarrow> line AclAbsentLine mp s | AclPresent es \<Rightarrow> on_cat (set_acl_event mp es) s
       else hold mp s)"
proof -
  obtain episode ser where ep: "security_attachment bytes_of ''security/xacml+episode'' doc = Inr episode"
    and se: "security_attachment bytes_of ''security/xacml+series'' doc = Inr ser"
    and mode: "mode = ''override''"
    and a: "(case episode of
               Some raw \<Rightarrow> bind_result (parse_xacml T raw) (\<lambda>es. Inr (AclPresent es))
             | None \<Rightarrow>
                 (case ser of
                    Some raw \<Rightarrow> bind_result (parse_xacml T raw) (\<lambda>es. Inr (AclPresent es))
                  | None \<Rightarrow> Inr AclAbsent)) = Inr a"
    using assms(1) by (auto simp: resolve_archive_acl_def split: if_splits sum.splits)
  note facts = security_attachment_settled [OF ep] security_attachment_settled [OF se]
  have "(case a of
       AclAbsent \<Rightarrow> copies ''security/xacml+episode'' doc = [] \<and> copies ''security/xacml+series'' doc = []
     | AclPresent es \<Rightarrow> (\<exists>flavor raw. flavor = (if copies ''security/xacml+episode'' doc \<noteq> []
             then ''security/xacml+episode'' else ''security/xacml+series'') \<and> parse_xacml T raw = Inr es \<and>
           (\<forall>e \<in> set (copies flavor doc). bytes_of (dd_url e) = Some raw) \<and>
           (\<exists>e \<in> set (copies flavor doc). is_urn (dd_url e))))"
    using a facts by (cases episode; cases ser; fastforce split: sum.splits)
  moreover have "acl_step mp a eav s =
      (if set eav = (case a of AclAbsent \<Rightarrow> {} | AclPresent es \<Rightarrow> set es)
       then case a of AclAbsent \<Rightarrow> line AclAbsentLine mp s | AclPresent es \<Rightarrow> on_cat (set_acl_event mp es) s
       else hold mp s)"
    using assms(2) entry_set_equal_exact [of _ eav] by (cases a) (auto simp: acl_step_def)
  ultimately show ?thesis using mode by blast
qed

definition demo_policy :: string where
  "demo_policy = ''<P/>''"

definition demo_document :: document where
  "demo_document = \<lparr>do_id = ''m'', do_title = [], do_series = [], do_start = [], do_duration = 0,
     do_elements = [\<lparr>dd_id = ''a'', dd_kind = ''attachment'', dd_flavor = ''security/xacml+episode'', dd_mimetype = [],
       dd_url = ''urn:x'', dd_md5 = [], dd_size = 0, dd_tags = [], dd_channel = []\<rparr>], do_publications = []\<rparr>"

definition one_file :: "string \<Rightarrow> string option" where
  "one_file u = (if u = ''urn:x'' then Some demo_policy else None)"

definition reads :: entry where
  "reads = \<lparr>role = ''R'', action = ''read'', allow = True\<rparr>"

lemma demo_policy_parses: "parse_xacml demo_texts demo_policy = Inr []"
  by code_simp

lemma demo_document_resolves: "resolve_archive_acl demo_texts one_file ''override'' demo_document = Inr (AclPresent [])"
proof -
  have "security_attachment one_file ''security/xacml+episode'' demo_document = Inr (Some demo_policy)"
    "security_attachment one_file ''security/xacml+series'' demo_document = Inr None"
    by (simp_all add: security_attachment_def demo_document_def one_file_def is_urn_def)
  then show ?thesis by (simp add: resolve_archive_acl_def demo_policy_parses)
qed

theorem archive_acl_single_authority_witness:
  "acl_step ''m'' (AclPresent []) [] (run_start demo_source ''o'' demo_target) =
     on_cat (set_acl_event ''m'' []) (run_start demo_source ''o'' demo_target) \<and>
   acl_step ''m'' (AclPresent []) [reads] (run_start demo_source ''o'' demo_target) =
     hold ''m'' (run_start demo_source ''o'' demo_target)"
  using archive_acl_single_authority [OF demo_document_resolves, of "[]" "''m''" "run_start demo_source ''o'' demo_target"]
    archive_acl_single_authority [OF demo_document_resolves, of "[reads]" "''m''" "run_start demo_source ''o'' demo_target"]
  by (simp add: reads_def)

section \<open>A held series\<close>

text \<open>A soft-deleted series is reported and skipped, so its row stays missing from the catalog while the
  events that name it are still migrated: setting the metadata of any of them violates the foreign key
  to the series table, and that error is not a hold but ends the run.\<close>

definition series_missing :: "string \<Rightarrow> migration \<Rightarrow> migration \<Rightarrow> bool" where
  "series_missing i s s' =
     (map_of (c_series (tg_cat (mg_target s))) i = None \<longrightarrow> map_of (c_series (tg_cat (mg_target s'))) i = None)"

interpretation missing: growing "series_missing i" for i
  by standard (auto simp: series_missing_def)

lemma missing_frame: "c_series (tg_cat (mg_target s')) = c_series (tg_cat (mg_target s)) \<Longrightarrow> series_missing i s s'"
  by (simp add: series_missing_def)

lemma missing_line: "missing.grows_by i (line cls x)"
  by (simp add: missing.grows_by_def line_def on_target_def series_missing_def)

lemma missing_on_cat:
  assumes "\<And>c c'. f c = Inr c' \<Longrightarrow> map_of (c_series c) i = None \<Longrightarrow> map_of (c_series c') i = None"
  shows "missing.grows_by i (on_cat f)"
  using assms by (auto simp: missing.grows_by_def on_cat_def on_target_def series_missing_def split: sum.split)

lemma missing_migrate_series:
  assumes "ser_id r \<noteq> i"
  shows "missing.grows_by i (migrate_series M r)"
  unfolding migrate_series_def
  by (intro missing.grows_legacy missing.grows_andthen missing_on_cat)
     (use assms in \<open>auto simp: put_series_def project_series_frames table_simps set_acl_series_def split: option.split
       intro!: missing_line missing.grows_legacy missing_on_cat\<close>)

lemma missing_series_step:
  assumes "ser_id r = i \<and> ser_org r = org \<longrightarrow> ser_deleted r \<noteq> []"
  shows "missing.grows_by i (series_step M org r)"
proof -
  have "missing.grows_by i (hold (ser_id r))"
    by (simp add: missing.grows_by_def hold_def line_def on_target_def series_missing_def)
  moreover have "missing.grows_by i (\<lambda>s :: migration. (None, s\<lparr>mg_series := Suc (mg_series s)\<rparr>))"
    by (simp add: missing.grows_by_def series_missing_def)
  ultimately show ?thesis
    using assms missing_migrate_series [of r i M]
    by (cases "ser_id r = i") (auto simp: series_step_def intro: missing.grows_ok missing.grows_andthen)
qed

lemma deleted_series_aborts:
  assumes "each (series_step M org) sers s = (e, s1)"
    and "\<And>r. r \<in> set sers \<Longrightarrow> ser_id r = i \<Longrightarrow> ser_org r = org \<Longrightarrow> ser_deleted r \<noteq> []"
    and "map_of (c_series (tg_cat (mg_target s))) i = None" and "do_series doc = i" and "i \<noteq> []"
  shows "fst (set_event_metadata M src doc s1) \<noteq> None"
proof -
  have "missing.grows_by i (each (series_step M org) sers)"
    by (intro missing.grows_each missing_series_step) (use assms(2) in blast)
  then have none: "map_of (c_series (tg_cat (mg_target s1))) i = None"
    using assms(1,3) by (auto simp: missing.grows_by_def series_missing_def dest!: spec [of _ s])
  have "fst (on_cat (set_metadata (do_id doc) md) s1) \<noteq> None" if "m_series md = i" for md
    using that none assms(5)
    by (auto simp: on_cat_def set_metadata_def series_known_def null_if_empty_def split: option.splits)
  then show ?thesis
    using assms(4)
    by (auto simp: set_event_metadata_def no_metadata_def fail_def legacy_def split: option.split sum.split)
qed

end
