(* ===== verification/Admin.thy ===== *)
theory Admin
  imports Serve Worker Authn Bearer
begin

text \<open>
  The read surfaces: the admin interface's pages and lists (\<open>internal/adminapi/adminapi.go\<close>), the
  External API and the engage search (\<open>internal/searchapi/searchapi.go\<close>) and the player's event
  manifest (\<open>eventmanifest.go\<close>). A request is its path variables and the first value of each query
  parameter; every handler reads one state of the catalog. A JSON body is a value of type \<open>json\<close> (the
  members of an object in the order of the source, which is no part of the contract) or the record of
  the struct that is encoded. The parameters are those of the query layer, the order of SQL rows,
  upper-casing, and the host's table of file name extensions.
\<close>

section \<open>Requests and answers\<close>

type_synonym params = "string \<rightharpoonup> string"

datatype 'a answer = Answer 'a | Refused nat

record admin_env =
  ae_query :: query_env
  ae_acl_order :: "entry list \<Rightarrow> entry list"
  ae_upper :: "string \<Rightarrow> string"

text \<open>
  The gate of the authenticated surfaces: an anonymous request gets the refusal (403), any other is
  handed to the handler with its principal.
\<close>

definition auth_gate :: "resolved \<Rightarrow> 'a \<Rightarrow> (principal \<Rightarrow> 'a) \<Rightarrow> 'a" where
  "auth_gate r forbidden handler = (case r of (p, info, ok) \<Rightarrow> if ok then handler p else forbidden)"

definition int_param :: "params \<Rightarrow> string \<Rightarrow> int \<Rightarrow> int" where
  "int_param q name dflt =
     (let v = go_get q name
      in if v = [] then dflt else (case parse_int64 v of None \<Rightarrow> dflt | Some n \<Rightarrow> n))"

text \<open>\<open>ParseAdminFilters\<close>: the name ends at the first colon, a repeated name overwrites.\<close>

fun gather_filters :: "string list \<Rightarrow> (string \<times> string) list \<times> string \<Rightarrow> (string \<times> string) list \<times> string" where
  "gather_filters [] a = a"
| "gather_filters (pair # ps) a =
     (case cut_at CHR '':'' pair of (name, v, ok) \<Rightarrow>
        if pair = [] \<or> \<not> ok then gather_filters ps a
        else if name = ''textFilter'' then gather_filters ps (fst a, v)
        else gather_filters ps (AList.update name v (fst a), snd a))"

definition parse_admin_filters :: "params \<Rightarrow> (string \<times> string) list \<times> string" where
  "parse_admin_filters q = gather_filters (split_on CHR '','' (go_get q ''filter'')) ([], [])"

definition sort_part :: "string \<Rightarrow> string \<times> bool" where
  "sort_part part = (case cut_at CHR '':'' part of (field, dir, ok) \<Rightarrow> (field, fold_name dir = ''desc''))"

definition parse_sort :: "params \<Rightarrow> (string \<times> bool) list" where
  "parse_sort q = map sort_part (filter (\<lambda>p. p \<noteq> []) (split_on CHR '','' (go_get q ''sort'')))"

section \<open>The event list\<close>

definition jstrs :: "string list \<Rightarrow> json" where
  "jstrs xs = JArr (map JStr xs)"

definition jint :: "int \<Rightarrow> json" where
  "jint n = JNum (of_int n)"

definition iso_or_empty :: "int option \<Rightarrow> string" where
  "iso_or_empty t = (case t of None \<Rightarrow> [] | Some x \<Rightarrow> format_start x)"

text \<open>The end: the duration is milliseconds in an \<open>int64\<close>, multiplied there to nanoseconds.\<close>

definition end_of :: "event_display \<Rightarrow> string" where
  "end_of e =
     (case (ed_start e, ed_duration e) of
        (Some t, Some ms) \<Rightarrow> format_start (t + wrap64 (ms * 1000000))
      | _ \<Rightarrow> iso_or_empty (ed_start e))"

definition language_key :: "string \<Rightarrow> string" where
  "language_key lang =
     (case map_of [(''eng'', ''LANGUAGES.ENGLISH''), (''ger'', ''LANGUAGES.GERMAN''), (''deu'', ''LANGUAGES.GERMAN''),
        (''fra'', ''LANGUAGES.FRENCH''), (''spa'', ''LANGUAGES.SPANISH'')] lang of None \<Rightarrow> [] | Some k \<Rightarrow> k)"

definition publications_json :: "string \<Rightarrow> bool \<Rightarrow> json" where
  "publications_json mp is_published =
     JArr (if \<not> is_published then [] else
       [JObj [(''id'', JStr ''engage-player''), (''name'', JStr ''EVENTS.EVENTS.DETAILS.PUBLICATIONS.ENGAGE''),
              (''url'', JStr (''http://localhost:8080/play/'' @ mp))]])"

definition event_row_json :: "event_display \<Rightarrow> json" where
  "event_row_json e =
     (let start = iso_or_empty (ed_start e); stop = end_of e;
          status = (if ed_status e = [] then ''EVENTS.EVENTS.STATUS.PROCESSED'' else ed_status e)
      in JObj ([(''id'', JStr (ed_id e)), (''title'', JStr (ed_title e)), (''source'', JStr ''ARCHIVE''),
        (''presenters'', jstrs (ed_presenters e)), (''location'', JStr (ed_location e)),
        (''start_date'', JStr start), (''end_date'', JStr stop), (''technical_start'', JStr start),
        (''technical_end'', JStr stop), (''technical_presenters'', JArr []), (''language'', JStr (ed_language e)),
        (''language_translation_key'', JStr (language_key (ed_language e))), (''event_status'', JStr status),
        (''displayable_status'', JStr status), (''workflow_state'', JStr ''SUCCEEDED''),
        (''has_comments'', JBool False), (''has_open_comments'', JBool False), (''needs_cutting'', JBool False),
        (''has_preview'', JBool (ed_published e)), (''published'', JBool (ed_published e)),
        (''publications'', publications_json (ed_id e) (ed_published e))] @
        (if ed_series e \<noteq> []
         then [(''series'', JObj [(''id'', JStr (ed_series e)), (''title'', JStr (ed_series_title e))])] else [])))"

definition no_display :: event_display where
  "no_display = \<lparr>ed_id = [], ed_title = [], ed_series = [], ed_series_title = [], ed_status = [], ed_presenters = [],
     ed_contributors = [], ed_location = [], ed_language = [], ed_description = [], ed_subjects = [], ed_license = [],
     ed_start = None, ed_created = None, ed_duration = None, ed_published = False\<rparr>"

definition page_json :: "nat \<Rightarrow> json list \<Rightarrow> int \<Rightarrow> int \<Rightarrow> json" where
  "page_json n rows limit offset =
     JObj [(''total'', jint (int n)), (''count'', jint (int (length rows))), (''limit'', jint limit),
       (''offset'', jint offset), (''results'', JArr rows)]"

definition admin_events :: "admin_env \<Rightarrow> catalog \<Rightarrow> principal \<Rightarrow> params \<Rightarrow> json answer" where
  "admin_events E c p q =
     (let limit = int_param q ''limit'' 100; offset = int_param q ''offset'' 0;
          keys = (if parse_sort q = [] then [(''start_date'', True)] else parse_sort q)
      in case parse_admin_filters q of (flts, text) \<Rightarrow>
        (case events (ae_query E) c p \<lparr>q_surface = AdminEvents, q_filters = flts, q_text = text, q_sort = keys,
                q_limit = limit, q_offset = offset, q_by_id = []\<rparr> of
           Inl e \<Rightarrow> Refused 400
         | Inr res \<Rightarrow>
             (let ids = map it_id (l_items res); disp = events_display c ids;
                  rows = map (\<lambda>i. event_row_json (case disp i of None \<Rightarrow> no_display | Some d \<Rightarrow> d)) ids;
                  n = (if l_items res = [] \<and> offset > 0 then 0 else l_total res)
              in Answer (page_json n rows limit offset))))"

section \<open>Event pages\<close>

text \<open>\<open>visibleEvent\<close>: the list's own clause, asked for one id.\<close>

definition visible_event :: "admin_env \<Rightarrow> catalog \<Rightarrow> principal \<Rightarrow> string \<Rightarrow> bool" where
  "visible_event E c p i =
     (case events (ae_query E) c p \<lparr>q_surface = AdminEvents, q_filters = [], q_text = [], q_sort = [], q_limit = 1,
             q_offset = 0, q_by_id = i\<rparr> of
        Inl e \<Rightarrow> False | Inr res \<Rightarrow> length (l_items res) = 1)"

definition field_json :: "string \<Rightarrow> string \<Rightarrow> json \<Rightarrow> string \<Rightarrow> bool \<Rightarrow> json" where
  "field_json i label v ty required =
     JObj [(''id'', JStr i), (''label'', JStr (''EVENTS.EVENTS.DETAILS.METADATA.'' @ label)), (''type'', JStr ty),
       (''readOnly'', JBool False), (''required'', JBool required), (''value'', v)]"

definition catalog_json :: "string \<Rightarrow> string \<Rightarrow> json list \<Rightarrow> json" where
  "catalog_json flavor title fs = JArr [JObj [(''flavor'', JStr flavor), (''title'', JStr title), (''fields'', JArr fs)]]"

definition event_metadata :: "admin_env \<Rightarrow> catalog \<Rightarrow> principal \<Rightarrow> string \<Rightarrow> json answer" where
  "event_metadata E c p i =
     (if \<not> visible_event E c p i then Refused 404
      else case event_display_by_id c i of
        Inl err \<Rightarrow> Refused 404
      | Inr e \<Rightarrow> Answer (catalog_json ''dublincore/episode'' ''EVENTS.EVENTS.DETAILS.CATALOG.EPISODE''
          [field_json ''title'' ''TITLE'' (JStr (ed_title e)) ''text'' True,
           field_json ''subject'' ''SUBJECT'' (JStr (join_with '', '' (ed_subjects e))) ''text'' False,
           field_json ''description'' ''DESCRIPTION'' (JStr (ed_description e)) ''text_long'' False,
           field_json ''language'' ''LANGUAGE'' (JStr (ed_language e)) ''text'' False,
           field_json ''rightsHolder'' ''RIGHTS'' (JStr []) ''text'' False,
           field_json ''license'' ''LICENSE'' (JStr (ed_license e)) ''text'' False,
           field_json ''isPartOf'' ''SERIES'' (JStr (ed_series e)) ''text'' False,
           field_json ''creator'' ''PRESENTERS'' (jstrs (ed_presenters e)) ''mixed_text'' False,
           field_json ''contributor'' ''CONTRIBUTORS'' (jstrs (ed_contributors e)) ''mixed_text'' False,
           field_json ''startDate'' ''START_DATE'' (JStr (iso_or_empty (ed_start e))) ''date'' False]))"

definition event_publications :: "admin_env \<Rightarrow> catalog \<Rightarrow> principal \<Rightarrow> string \<Rightarrow> json answer" where
  "event_publications E c p i =
     (if \<not> visible_event E c p i then Refused 404
      else case event_display_by_id c i of
        Inl err \<Rightarrow> Refused 404
      | Inr e \<Rightarrow> Answer (JObj [(''publications'', publications_json i (ed_published e)),
          (''start-date'', JStr (iso_or_empty (ed_start e))), (''end-date'', JStr (end_of e))]))"

section \<open>Access pages\<close>

text \<open>
  \<open>accessBlock\<close>: one summary per role in the order of the first entry; \<open>None\<close> is an unset flag. A deny
  sticks: a later allow does not mask it.
\<close>

record role_access =
  ra_role :: string
  ra_read :: "bool option"
  ra_write :: "bool option"

definition sticky :: "bool option \<Rightarrow> bool \<Rightarrow> bool option" where
  "sticky f a = Some (case f of None \<Rightarrow> a | Some b \<Rightarrow> b \<and> a)"

definition note_entry :: "entry \<Rightarrow> role_access \<Rightarrow> role_access" where
  "note_entry e r =
     (if action e = ''read'' then r\<lparr>ra_read := sticky (ra_read r) (allow e)\<rparr>
      else if action e = ''write'' then r\<lparr>ra_write := sticky (ra_write r) (allow e)\<rparr>
      else r)"

fun block_roles :: "entry list \<Rightarrow> role_access list \<Rightarrow> role_access list" where
  "block_roles [] rs = rs"
| "block_roles (e # es) rs =
     (let rs1 = (if list_ex (\<lambda>r. ra_role r = role e) rs then rs
                 else rs @ [\<lparr>ra_role = role e, ra_read = None, ra_write = None\<rparr>])
      in block_roles es (map (\<lambda>r. if ra_role r = role e then note_entry e r else r) rs1))"

definition flag :: "bool option \<Rightarrow> bool" where
  "flag f = (f = Some True)"

definition flag_member :: "string \<Rightarrow> bool option \<Rightarrow> (string \<times> json) list" where
  "flag_member k f = (case f of None \<Rightarrow> [] | Some b \<Rightarrow> [(k, JBool b)])"

definition state_name :: "acl_state \<Rightarrow> string" where
  "state_name s = (case s of StateAbsent \<Rightarrow> ''ABSENT'' | StateEmpty \<Rightarrow> ''EMPTY'' | StatePopulated \<Rightarrow> ''POPULATED'')"

definition access_block :: "admin_env \<Rightarrow> catalog \<Rightarrow> policy_key \<Rightarrow> json" where
  "access_block E c k =
     (case get_acl (ae_acl_order E) k (c_acl c) of (es, st) \<Rightarrow>
        (let rs = block_roles es []
         in JObj [(''acl_state'', JStr (state_name st)),
              (''privileges'', JObj (map (\<lambda>r. (ra_role r, JObj (flag_member ''read'' (ra_read r) @ flag_member ''write'' (ra_write r)))) rs)),
              (''acl'', JArr (map (\<lambda>r. JObj [(''role'', JStr (ra_role r)), (''read'', JBool (flag (ra_read r))),
                 (''write'', JBool (flag (ra_write r))), (''actions'', JArr [])]) rs))]))"

definition system_acls :: json where
  "system_acls = JArr (map (\<lambda>n. JObj [(''name'', JStr n)]) [''public'', ''private'', ''authenticated''])"

definition event_access :: "admin_env \<Rightarrow> catalog \<Rightarrow> principal \<Rightarrow> string \<Rightarrow> json answer" where
  "event_access E c p i =
     (if \<not> visible_event E c p i then Refused 404
      else Answer (JObj [(''episode_access'', access_block E c (ScopeEvent, i)), (''system_acls'', system_acls)]))"

definition series_access :: "admin_env \<Rightarrow> catalog \<Rightarrow> principal \<Rightarrow> string \<Rightarrow> json answer" where
  "series_access E c p i =
     Answer (JObj [(''series_access'', access_block E c (ScopeSeries, i)), (''system_acls'', system_acls)])"

section \<open>Series pages\<close>

definition series_row_json :: "series_display \<Rightarrow> json" where
  "series_row_json s =
     JObj [(''id'', JStr (sd_id s)), (''title'', JStr (sd_title s)), (''organizers'', jstrs (sd_organizers s)),
       (''contributors'', jstrs (sd_contributors s)), (''createdBy'', JStr []),
       (''creation_date'', JStr (iso_or_empty (sd_created s)))]"

definition admin_series :: "admin_env \<Rightarrow> catalog \<Rightarrow> principal \<Rightarrow> params \<Rightarrow> json answer" where
  "admin_series E c p q =
     (let limit = int_param q ''limit'' 100; offset = int_param q ''offset'' 0
      in case series_query (ae_query E) c p \<lparr>q_surface = AdminSeries, q_filters = [],
                q_text = snd (parse_admin_filters q), q_sort = [], q_limit = limit, q_offset = offset, q_by_id = []\<rparr> of
           Inl e \<Rightarrow> Refused 400
         | Inr res \<Rightarrow>
             Answer (page_json (l_total res)
               (concat (map (\<lambda>it. case series_display_by_id c (it_id it) of Inl err \<Rightarrow> [] | Inr s \<Rightarrow> [series_row_json s])
                 (l_items res))) limit offset))"

definition series_metadata_page :: "catalog \<Rightarrow> principal \<Rightarrow> string \<Rightarrow> json answer" where
  "series_metadata_page c p i =
     (case series_display_by_id c i of
        Inl err \<Rightarrow> Refused 404
      | Inr s \<Rightarrow> Answer (catalog_json ''dublincore/series'' ''EVENTS.SERIES.DETAILS.CATALOG.SERIES''
          [field_json ''title'' ''TITLE'' (JStr (sd_title s)) ''text'' True,
           field_json ''description'' ''DESCRIPTION'' (JStr (sd_description s)) ''text_long'' False,
           field_json ''language'' ''LANGUAGE'' (JStr (sd_language s)) ''text'' False,
           field_json ''subject'' ''SUBJECT'' (JStr (join_with '', '' (sd_subjects s))) ''text'' False,
           field_json ''creator'' ''ORGANIZERS'' (jstrs (sd_organizers s)) ''mixed_text'' False,
           field_json ''contributor'' ''CONTRIBUTORS'' (jstrs (sd_contributors s)) ''mixed_text'' False]))"

section \<open>The caller's identity\<close>

definition user_name :: "principal \<Rightarrow> string" where
  "user_name p = (if is_admin p then ''admin'' else ''user'')"

definition me_json :: "admin_env \<Rightarrow> resolved \<Rightarrow> json answer" where
  "me_json E r =
     (case r of (p, info, ok) \<Rightarrow>
        let name = (if ai_username info = [] then user_name p else ai_username info)
        in Answer (JObj [(''org'', JObj [(''id'', JStr ''mh_default_org''), (''name'', JStr ''Opencast Project''),
               (''adminRole'', JStr ''ROLE_ADMIN''), (''anonymousRole'', JStr ''ROLE_ANONYMOUS''), (''properties'', JObj [])]),
             (''roles'', jstrs (p_roles p)), (''userRole'', JStr (''ROLE_USER_'' @ ae_upper E name)),
             (''user'', JObj [(''provider'', JStr ''opencast''), (''username'', JStr name), (''name'', JStr name),
               (''email'', JStr [])])]))"

end
