(* ===== verification/AdminWrite.thy ===== *)
theory AdminWrite
  imports Admin Ingest
begin

text \<open>
  The admin interface's write surface (\<open>internal/adminapi/write.go\<close>) and the routing of both surfaces
  (\<open>Handler\<close>). A request's form is its decoded post form, a multipart body its parts in wire order and
  whether the stream ended properly; fresh uuids and the clock are arguments, a JSON text is parsed by
  the parameter \<open>js\<close>. Several statements of one handler commit one after the other, so a refusal leaves
  what was written before it. Storing an upload does not fail.
\<close>

section \<open>Decoding JSON documents\<close>

text \<open>
  A decoder overwrites a value in place as \<open>encoding/json\<close> does: \<open>null\<close> keeps it (a slice becomes empty), a
  value of another type fails the whole document, unknown members are skipped, a repeated member is
  decoded again, over the elements its slice has. Member names match under case folding.
\<close>

type_synonym 'a decoder = "json \<Rightarrow> 'a \<Rightarrow> 'a option"

definition dec_string :: "string decoder" where
  "dec_string v x = (case v of JNull \<Rightarrow> Some x | JStr s \<Rightarrow> Some s | _ \<Rightarrow> None)"

definition dec_bool :: "bool decoder" where
  "dec_bool v x = (case v of JNull \<Rightarrow> Some x | JBool b \<Rightarrow> Some b | _ \<Rightarrow> None)"

fun dec_items :: "'a decoder \<Rightarrow> 'a \<Rightarrow> json list \<Rightarrow> 'a list \<Rightarrow> 'a list option" where
  "dec_items d zero [] xs = Some []"
| "dec_items d zero (v # vs) xs =
     (case d v (case xs of [] \<Rightarrow> zero | x # _ \<Rightarrow> x) of
        None \<Rightarrow> None | Some a \<Rightarrow> map_option (Cons a) (dec_items d zero vs (tl xs)))"

definition dec_list :: "'a decoder \<Rightarrow> 'a \<Rightarrow> 'a list decoder" where
  "dec_list d zero v x = (case v of JNull \<Rightarrow> Some [] | JArr vs \<Rightarrow> dec_items d zero vs x | _ \<Rightarrow> None)"

fun dec_members :: "(string \<times> 'a decoder) list \<Rightarrow> (string \<times> json) list \<Rightarrow> 'a \<Rightarrow> 'a option" where
  "dec_members fs [] x = Some x"
| "dec_members fs ((k, v) # ms) x =
     (case map_of fs (fold_name k) of
        None \<Rightarrow> dec_members fs ms x
      | Some d \<Rightarrow> (case d v x of None \<Rightarrow> None | Some y \<Rightarrow> dec_members fs ms y))"

definition dec_struct :: "(string \<times> 'a decoder) list \<Rightarrow> 'a decoder" where
  "dec_struct fs v x = (case v of JNull \<Rightarrow> Some x | JObj ms \<Rightarrow> dec_members fs ms x | _ \<Rightarrow> None)"

text \<open>A member that is decoded and not used: its type is still checked.\<close>

definition dec_checked :: "'b decoder \<Rightarrow> 'b \<Rightarrow> 'a decoder" where
  "dec_checked d zero v x = map_option (\<lambda>_. x) (d v zero)"

definition dec_string_map :: "unit decoder" where
  "dec_string_map v x =
     (case v of JNull \<Rightarrow> Some x
      | JObj ms \<Rightarrow> (if list_all (\<lambda>(k, v). dec_string v [] \<noteq> None) ms then Some x else None)
      | _ \<Rightarrow> None)"

section \<open>ACL documents\<close>

definition no_ace :: entry where
  "no_ace = \<lparr>role = [], action = [], allow = False\<rparr>"

definition dec_ace :: "entry decoder" where
  "dec_ace = dec_struct
     [(''action'', \<lambda>v e. map_option (\<lambda>s. e\<lparr>action := s\<rparr>) (dec_string v (action e))),
      (''allow'', \<lambda>v e. map_option (\<lambda>b. e\<lparr>allow := b\<rparr>) (dec_bool v (allow e))),
      (''role'', \<lambda>v e. map_option (\<lambda>s. e\<lparr>role := s\<rparr>) (dec_string v (role e)))]"

definition dec_acl :: "entry list decoder" where
  "dec_acl = dec_struct [(''acl'', dec_struct [(''ace'', dec_list dec_ace no_ace)])]"

definition nameless :: "entry \<Rightarrow> bool" where
  "nameless e = (role e = [] \<or> action e = [])"

definition parse_aces :: "(string \<Rightarrow> json option) \<Rightarrow> string \<Rightarrow> entry list option" where
  "parse_aces js raw =
     (let t = trim_space raw
      in if t = [] then None
         else case js t of
           None \<Rightarrow> None
         | Some v \<Rightarrow>
             (case (if hd t = CHR ''['' then dec_list dec_ace no_ace v [] else dec_acl v []) of
                None \<Rightarrow> None
              | Some es \<Rightarrow> if list_ex nameless es then None else Some es))"

section \<open>Write authorization\<close>

definition write_denied :: "entry list \<Rightarrow> string list \<Rightarrow> bool" where
  "write_denied es roles = list_ex (\<lambda>e. action e = ''write'' \<and> \<not> allow e \<and> role e \<in> set roles) es"

definition episode_write_role :: "string \<Rightarrow> string" where
  "episode_write_role i = ''ROLE_EPISODE_'' @ i @ ''_WRITE''"

definition can_write_event :: "admin_env \<Rightarrow> catalog \<Rightarrow> principal \<Rightarrow> string \<Rightarrow> bool" where
  "can_write_event E c p i =
     (if is_admin p then True
      else case get_acl (ae_acl_order E) (ScopeEvent, i) (c_acl c) of (es, st) \<Rightarrow>
        (if evaluate es st (p_roles p) ''write'' then True
         else if list_ex (\<lambda>r. r = episode_write_role i) (p_roles p) then \<not> write_denied es (p_roles p)
         else False))"

definition can_write_series :: "admin_env \<Rightarrow> catalog \<Rightarrow> principal \<Rightarrow> string \<Rightarrow> bool" where
  "can_write_series E c p i =
     (if is_admin p then True
      else case get_acl (ae_acl_order E) (ScopeSeries, i) (c_acl c) of (es, st) \<Rightarrow> evaluate es st (p_roles p) ''write'')"

definition live_event :: "catalog \<Rightarrow> string \<Rightarrow> bool" where
  "live_event c i = (case map_of (c_mp c) i of None \<Rightarrow> False | Some m \<Rightarrow> mp_deleted m = None)"

definition live_series :: "catalog \<Rightarrow> string \<Rightarrow> bool" where
  "live_series c i = (case map_of (c_series c) i of None \<Rightarrow> False | Some r \<Rightarrow> s_deleted r = None)"

text \<open>The status a target is refused with: an event one may not write looks like none, a series does not.\<close>

definition require_event_write :: "admin_env \<Rightarrow> catalog \<Rightarrow> principal \<Rightarrow> string \<Rightarrow> nat option" where
  "require_event_write E c p i = (if \<not> live_event c i \<or> \<not> can_write_event E c p i then Some 404 else None)"

definition require_series_write :: "admin_env \<Rightarrow> catalog \<Rightarrow> principal \<Rightarrow> string \<Rightarrow> nat option" where
  "require_series_write E c p i =
     (if \<not> live_series c i then Some 404 else if \<not> can_write_series E c p i then Some 403 else None)"

definition can_create :: "principal \<Rightarrow> bool" where
  "can_create p = is_admin p"

section \<open>Writing access lists\<close>

datatype written = Done | Created string | NoContent | Rejected nat

definition catalog_of :: "'f deposit_state \<Rightarrow> catalog" where
  "catalog_of s = wd_cat (db_data (ds_db s))"

definition with_catalog :: "'f deposit_state \<Rightarrow> catalog \<Rightarrow> 'f deposit_state" where
  "with_catalog s c = on_deposit s (ds_store s, c)"

text \<open>One transaction: its new catalog and the answer, or 500 and nothing.\<close>

definition commit ::
  "(catalog \<Rightarrow> (cat_error, catalog) result) \<Rightarrow> written \<Rightarrow> 'f deposit_state \<Rightarrow> written \<times> 'f deposit_state" where
  "commit f a s = (case f (catalog_of s) of Inl e \<Rightarrow> (Rejected 500, s) | Inr c \<Rightarrow> (a, with_catalog s c))"

definition acl_form :: "(string \<Rightarrow> json option) \<Rightarrow> form option \<Rightarrow> (form \<times> entry list) option" where
  "acl_form js form =
     (case form of None \<Rightarrow> None
      | Some f \<Rightarrow> (case parse_aces js (go_get f ''acl'') of None \<Rightarrow> None | Some es \<Rightarrow> Some (f, es)))"

definition event_access_write ::
  "admin_env \<Rightarrow> (string \<Rightarrow> json option) \<Rightarrow> written \<Rightarrow> principal \<Rightarrow> string \<Rightarrow> form option
     \<Rightarrow> 'f deposit_state \<Rightarrow> written \<times> 'f deposit_state" where
  "event_access_write E js ok p i form s =
     (case require_event_write E (catalog_of s) p i of
        Some n \<Rightarrow> (Rejected n, s)
      | None \<Rightarrow>
          (case acl_form js form of
             None \<Rightarrow> (Rejected 400, s)
           | Some (f, es) \<Rightarrow> commit (set_acl_event i es) ok s))"

definition series_access_write ::
  "admin_env \<Rightarrow> (string \<Rightarrow> json option) \<Rightarrow> principal \<Rightarrow> string \<Rightarrow> form option
     \<Rightarrow> 'f deposit_state \<Rightarrow> written \<times> 'f deposit_state" where
  "series_access_write E js p i form s =
     (case require_series_write E (catalog_of s) p i of
        Some n \<Rightarrow> (Rejected n, s)
      | None \<Rightarrow>
          (case acl_form js form of
             None \<Rightarrow> (Rejected 400, s)
           | Some (f, es) \<Rightarrow> commit (set_series_acl i es (fold_name (go_get f ''override'') = ''true'')) Done s))"

section \<open>The wizard's metadata\<close>

record wizard_field =
  wf_id :: string
  wf_value :: "json option"

record wizard_catalog =
  wz_flavor :: string
  wz_fields :: "wizard_field list"

definition dec_wizard_field :: "wizard_field decoder" where
  "dec_wizard_field = dec_struct
     [(''id'', \<lambda>v f. map_option (\<lambda>s. f\<lparr>wf_id := s\<rparr>) (dec_string v (wf_id f))),
      (''value'', \<lambda>v f. Some (f\<lparr>wf_value := Some v\<rparr>))]"

definition dec_wizard_catalog :: "wizard_catalog decoder" where
  "dec_wizard_catalog = dec_struct
     [(''flavor'', \<lambda>v f. map_option (\<lambda>s. f\<lparr>wz_flavor := s\<rparr>) (dec_string v (wz_flavor f))),
      (''fields'', \<lambda>v f. map_option (\<lambda>xs. f\<lparr>wz_fields := xs\<rparr>)
         (dec_list dec_wizard_field \<lparr>wf_id = [], wf_value = None\<rparr> v (wz_fields f)))]"

definition dec_wizard_catalogs :: "wizard_catalog list decoder" where
  "dec_wizard_catalogs = dec_list dec_wizard_catalog \<lparr>wz_flavor = [], wz_fields = []\<rparr>"

definition wizard_string :: "json option \<Rightarrow> string" where
  "wizard_string v = (case v of Some (JStr s) \<Rightarrow> s | _ \<Rightarrow> [])"

definition wizard_strings :: "json option \<Rightarrow> string list" where
  "wizard_strings v =
     (case v of Some (JArr vs) \<Rightarrow> (case dec_items dec_string [] vs [] of None \<Rightarrow> [] | Some xs \<Rightarrow> xs) | _ \<Rightarrow> [])"

definition split_subjects :: "string \<Rightarrow> string list" where
  "split_subjects s = filter (\<lambda>p. p \<noteq> []) (map trim_space (split_on CHR '','' s))"

type_synonym event_dc = "string \<times> int option \<times> metadata"

definition apply_event_field :: "text_env \<Rightarrow> wizard_field \<Rightarrow> event_dc \<Rightarrow> event_dc option" where
  "apply_event_field T f d =
     (case d of (title, start, md) \<Rightarrow>
        let i = wf_id f; v = wizard_string (wf_value f); vs = wizard_strings (wf_value f)
        in if i = ''title'' then Some (v, start, md)
           else if i = ''startDate'' then
             (if v = [] then Some d
              else case rfc3339 T v of None \<Rightarrow> None | Some t \<Rightarrow> Some (title, Some t, md))
           else Some (title, start,
             if i = ''subject'' then md\<lparr>m_subjects := split_subjects v\<rparr>
             else if i = ''description'' then md\<lparr>m_description := v\<rparr>
             else if i = ''language'' then md\<lparr>m_language := v\<rparr>
             else if i = ''license'' then md\<lparr>m_license := v\<rparr>
             else if i = ''isPartOf'' then md\<lparr>m_series := v\<rparr>
             else if i = ''creator'' then md\<lparr>m_creators := vs\<rparr>
             else if i = ''contributor'' then md\<lparr>m_contributors := vs\<rparr>
             else if i = ''location'' then md\<lparr>m_location := v\<rparr> else md))"

fun apply_event_fields :: "text_env \<Rightarrow> wizard_field list \<Rightarrow> event_dc \<Rightarrow> event_dc option" where
  "apply_event_fields T [] d = Some d"
| "apply_event_fields T (f # fs) d =
     (case apply_event_field T f d of None \<Rightarrow> None | Some d' \<Rightarrow> apply_event_fields T fs d')"

definition apply_series_field :: "wizard_field \<Rightarrow> series_metadata \<Rightarrow> series_metadata" where
  "apply_series_field f md =
     (let i = wf_id f; v = wizard_string (wf_value f); vs = wizard_strings (wf_value f)
      in if i = ''title'' then md\<lparr>sm_title := v\<rparr>
         else if i = ''description'' then md\<lparr>sm_description := v\<rparr>
         else if i = ''language'' then md\<lparr>sm_language := v\<rparr>
         else if i = ''subject'' then md\<lparr>sm_subjects := split_subjects v\<rparr>
         else if i = ''creator'' then md\<lparr>sm_organizers := vs\<rparr>
         else if i = ''contributor'' then md\<lparr>sm_contributors := vs\<rparr> else md)"

text \<open>The fields of the catalogs of one flavor, in order: applying catalog after catalog is applying these.\<close>

definition fields_of :: "string \<Rightarrow> wizard_catalog list \<Rightarrow> wizard_field list" where
  "fields_of flavor cats = concat (map wz_fields (filter (\<lambda>x. wz_flavor x = flavor) cats))"

section \<open>Creating an event\<close>

record asset_option =
  ao_id :: string
  ao_type :: string
  ao_subtype :: string

record new_event =
  nv_metadata :: "wizard_catalog list"
  nv_workflow :: string
  nv_aces :: "entry list"
  nv_options :: "asset_option list"

definition no_new_event :: new_event where
  "no_new_event = \<lparr>nv_metadata = [], nv_workflow = [], nv_aces = [], nv_options = []\<rparr>"

definition dec_asset_option :: "asset_option decoder" where
  "dec_asset_option = dec_struct
     [(''id'', \<lambda>v x. map_option (\<lambda>s. x\<lparr>ao_id := s\<rparr>) (dec_string v (ao_id x))),
      (''type'', dec_checked dec_string []),
      (''flavortype'', \<lambda>v x. map_option (\<lambda>s. x\<lparr>ao_type := s\<rparr>) (dec_string v (ao_type x))),
      (''flavorsubtype'', \<lambda>v x. map_option (\<lambda>s. x\<lparr>ao_subtype := s\<rparr>) (dec_string v (ao_subtype x)))]"

definition dec_new_event :: "new_event decoder" where
  "dec_new_event = dec_struct
     [(''metadata'', \<lambda>v x. map_option (\<lambda>y. x\<lparr>nv_metadata := y\<rparr>) (dec_wizard_catalogs v (nv_metadata x))),
      (''processing'', dec_struct
         [(''workflow'', \<lambda>v x. map_option (\<lambda>y. x\<lparr>nv_workflow := y\<rparr>) (dec_string v (nv_workflow x))),
          (''configuration'', dec_checked dec_string_map ())]),
      (''access'', \<lambda>v x. map_option (\<lambda>y. x\<lparr>nv_aces := y\<rparr>) (dec_acl v (nv_aces x))),
      (''source'', dec_struct [(''type'', dec_checked dec_string [])]),
      (''assets'', dec_struct [(''options'', \<lambda>v x. map_option (\<lambda>y. x\<lparr>nv_options := y\<rparr>)
         (dec_list dec_asset_option \<lparr>ao_id = [], ao_type = [], ao_subtype = []\<rparr> v (nv_options x)))])]"

record upload =
  up_field :: string
  up_filename :: string
  up_type :: string
  up_sha :: string

record multipart =
  mu_parts :: "part list"
  mu_complete :: bool

text \<open>Files go straight to the store, the last metadata field is kept.\<close>

fun stash_parts ::
  "deposit_env \<Rightarrow> part list \<Rightarrow> upload list \<times> string \<times> objects \<Rightarrow> upload list \<times> string \<times> objects" where
  "stash_parts M [] a = a"
| "stash_parts M (p # ps) (ups, meta, st) =
     (if pt_filename p = []
      then stash_parts M ps (ups, if pt_name p = ''metadata'' then take field_limit (pt_body p) else meta, st)
      else case stash_upload M (pt_body p) st of (sha, st') \<Rightarrow>
        stash_parts M ps (ups @ [\<lparr>up_field = pt_name p, up_filename = pt_filename p,
          up_type = (if pt_type p = [] then ''application/octet-stream'' else pt_type p), up_sha = sha\<rparr>], meta, st'))"

text \<open>\<open>track_presenter.0\<close> names the option \<open>track_presenter\<close>: what precedes the last dot, if anything does.\<close>

definition option_name :: "string \<Rightarrow> string" where
  "option_name f =
     (let b = rev (drop 1 (dropWhile (\<lambda>x. x \<noteq> CHR ''.'') (rev f))) in if b = [] then f else b)"

definition upload_url :: "upload \<Rightarrow> string" where
  "upload_url u = ''cas:'' @ up_sha u @ ''/'' @ up_filename u"

definition option_flavor :: "asset_option list \<Rightarrow> string \<Rightarrow> string option" where
  "option_flavor os i = map_of (rev (map (\<lambda>x. (ao_id x, ao_type x @ ''/'' @ ao_subtype x)) os)) i"

fun track_elements :: "(nat \<Rightarrow> string) \<Rightarrow> asset_option list \<Rightarrow> nat \<Rightarrow> upload list \<Rightarrow> manifest_el list option" where
  "track_elements fresh os n [] = Some []"
| "track_elements fresh os n (u # us) =
     (case option_flavor os (option_name (up_field u)) of
        None \<Rightarrow> None
      | Some fl \<Rightarrow> map_option (Cons \<lparr>me_id = fresh n, me_kind = ''track'', me_flavor = fl, me_mimetype = up_type u,
          me_url = upload_url u, me_md5 = [], me_tags = []\<rparr>) (track_elements fresh os (Suc n) us))"

text \<open>Only the uploads of the request resolve.\<close>

definition resolve_uploads :: "upload list \<Rightarrow> resolver" where
  "resolve_uploads us st url =
     (case map_of (rev (map (\<lambda>u. (upload_url u, up_sha u)) us)) url of None \<Rightarrow> None | Some sha \<Rightarrow> cas_get st sha)"

definition stamp_created :: "int \<Rightarrow> event_dc \<Rightarrow> event_dc" where
  "stamp_created now d = (case d of (title, start, md) \<Rightarrow> (title, start, md\<lparr>m_created := Some now\<rparr>))"

definition empty_dc :: event_dc where
  "empty_dc = ([], None, \<lparr>m_creators = [], m_contributors = [], m_language = [], m_description = [], m_subjects = [],
     m_location = [], m_license = [], m_created = None, m_series = [], m_status = []\<rparr>)"

text \<open>The writes, once the request is understood: mediapackage and tracks, metadata, policy, workflow.\<close>

definition write_policy ::
  "string \<Rightarrow> entry list \<Rightarrow> definition_ops \<Rightarrow> 'f deposit_state \<Rightarrow> written \<times> 'f deposit_state" where
  "write_policy i aces ops s =
     (if list_ex nameless aces then (Rejected 400, s)
      else case set_acl_event i aces (catalog_of s) of
        Inl e \<Rightarrow> (Rejected 500, s)
      | Inr c \<Rightarrow>
          (case create_workflow i ops (ds_db (with_catalog s c)) of
             Inl e \<Rightarrow> (Rejected 500, with_catalog s c)
           | Inr (n, db) \<Rightarrow> (Created i, (with_catalog s c)\<lparr>ds_db := db\<rparr>)))"

definition write_event ::
  "deposit_env \<Rightarrow> string \<Rightarrow> event_dc \<Rightarrow> manifest_el list \<Rightarrow> upload list \<Rightarrow> entry list \<Rightarrow> definition_ops
     \<Rightarrow> 'f deposit_state \<Rightarrow> written \<times> 'f deposit_state" where
  "write_event M i d els us aces ops s =
     (case d of (title, start, md) \<Rightarrow>
       (case materialise M (resolve_uploads us) \<lparr>mf_id = i, mf_title = title, mf_start = start, mf_duration = 0,
                mf_elements = els\<rparr> (deposited_of s) of
          (Some e, dep) \<Rightarrow> (Rejected 500, on_deposit s dep)
        | (None, dep) \<Rightarrow>
            (case set_event_dc i title start md (snd dep) of
               Inl e \<Rightarrow> (Rejected 500, on_deposit s dep)
             | Inr c \<Rightarrow> write_policy i aces ops (with_catalog (on_deposit s dep) c))))"

definition event_new ::
  "deposit_env \<Rightarrow> (string \<Rightarrow> json option) \<Rightarrow> definition_source option \<Rightarrow> (nat \<Rightarrow> string) \<Rightarrow> int \<Rightarrow> principal
     \<Rightarrow> multipart option \<Rightarrow> 'f deposit_state \<Rightarrow> written \<times> 'f deposit_state" where
  "event_new M js src fresh now p body s =
     (if \<not> can_create p then (Rejected 403, s)
      else case src of
        None \<Rightarrow> (Rejected 500, s)
      | Some defs \<Rightarrow>
          (case body of
             None \<Rightarrow> (Rejected 400, s)
           | Some b \<Rightarrow>
               (case stash_parts M (mu_parts b) ([], [], ds_store s) of (us, meta, st) \<Rightarrow>
                  let s1 = s\<lparr>ds_store := st\<rparr>
                  in if \<not> mu_complete b \<or> meta = [] then (Rejected 400, s1)
                     else case (case js meta of None \<Rightarrow> None | Some v \<Rightarrow> dec_new_event v no_new_event) of
                       None \<Rightarrow> (Rejected 400, s1)
                     | Some doc \<Rightarrow>
                         (case defs (nv_workflow doc) of
                            None \<Rightarrow> (Rejected 500, s1)
                          | Some None \<Rightarrow> (Rejected 400, s1)
                          | Some (Some ops) \<Rightarrow>
                              (case apply_event_fields (de_text M) (fields_of ''dublincore/episode'' (nv_metadata doc)) empty_dc of
                                 None \<Rightarrow> (Rejected 400, s1)
                               | Some d \<Rightarrow>
                                   (case track_elements fresh (nv_options doc) 1 us of
                                      None \<Rightarrow> (Rejected 400, s1)
                                    | Some els \<Rightarrow>
                                        write_event M (fresh 0) (stamp_created now d) els us (nv_aces doc) ops s1))))))"

section \<open>Creating a series\<close>

record new_series =
  nr_metadata :: "wizard_catalog list"
  nr_aces :: "entry list"

definition dec_new_series :: "new_series decoder" where
  "dec_new_series = dec_struct
     [(''metadata'', \<lambda>v x. map_option (\<lambda>y. x\<lparr>nr_metadata := y\<rparr>) (dec_wizard_catalogs v (nr_metadata x))),
      (''access'', \<lambda>v x. map_option (\<lambda>y. x\<lparr>nr_aces := y\<rparr>) (dec_acl v (nr_aces x)))]"

definition empty_series :: series_metadata where
  "empty_series = \<lparr>sm_title = [], sm_contributors = [], sm_organizers = [], sm_language = [], sm_description = [],
     sm_subjects = [], sm_created = None\<rparr>"

definition series_new ::
  "(string \<Rightarrow> json option) \<Rightarrow> string \<Rightarrow> int \<Rightarrow> principal \<Rightarrow> form option \<Rightarrow> 'f deposit_state
     \<Rightarrow> written \<times> 'f deposit_state" where
  "series_new js fresh now p form s =
     (if \<not> can_create p then (Rejected 403, s)
      else case form of
        None \<Rightarrow> (Rejected 400, s)
      | Some f \<Rightarrow>
          (case (case js (go_get f ''metadata'') of
                   None \<Rightarrow> None | Some v \<Rightarrow> dec_new_series v \<lparr>nr_metadata = [], nr_aces = []\<rparr>) of
             None \<Rightarrow> (Rejected 400, s)
           | Some doc \<Rightarrow>
               (let md = fold apply_series_field (fields_of ''dublincore/series'' (nr_metadata doc)) empty_series;
                    s1 = with_catalog s (put_series fresh (md\<lparr>sm_created := Some now\<rparr>) (catalog_of s))
                in if nr_aces doc = [] then (Created fresh, s1)
                   else commit (set_acl_series fresh (nr_aces doc)) (Created fresh) s1)))"

section \<open>Editing metadata\<close>

definition sent_catalogs :: "(string \<Rightarrow> json option) \<Rightarrow> form option \<Rightarrow> wizard_catalog list option" where
  "sent_catalogs js form =
     (case form of None \<Rightarrow> None
      | Some f \<Rightarrow> (case js (go_get f ''metadata'') of None \<Rightarrow> None | Some v \<Rightarrow> dec_wizard_catalogs v []))"

definition event_metadata_edit ::
  "admin_env \<Rightarrow> text_env \<Rightarrow> (string \<Rightarrow> json option) \<Rightarrow> principal \<Rightarrow> string \<Rightarrow> form option
     \<Rightarrow> 'f deposit_state \<Rightarrow> written \<times> 'f deposit_state" where
  "event_metadata_edit E T js p i form s =
     (case require_event_write E (catalog_of s) p i of
        Some n \<Rightarrow> (Rejected n, s)
      | None \<Rightarrow>
          (case sent_catalogs js form of
             None \<Rightarrow> (Rejected 400, s)
           | Some cats \<Rightarrow>
               (case get_event_dc i (catalog_of s) of
                  Inl e \<Rightarrow> (Rejected 500, s)
                | Inr d \<Rightarrow>
                    (case apply_event_fields T (fields_of ''dublincore/episode'' cats) d of
                       None \<Rightarrow> (Rejected 400, s)
                     | Some (title, start, md) \<Rightarrow> commit (set_event_dc i title start md) Done s))))"

definition series_metadata_edit ::
  "admin_env \<Rightarrow> (string \<Rightarrow> json option) \<Rightarrow> principal \<Rightarrow> string \<Rightarrow> form option
     \<Rightarrow> 'f deposit_state \<Rightarrow> written \<times> 'f deposit_state" where
  "series_metadata_edit E js p i form s =
     (case require_series_write E (catalog_of s) p i of
        Some n \<Rightarrow> (Rejected n, s)
      | None \<Rightarrow>
          (case sent_catalogs js form of
             None \<Rightarrow> (Rejected 400, s)
           | Some cats \<Rightarrow>
               (case get_series_dc i (catalog_of s) of
                  None \<Rightarrow> (Rejected 404, s)
                | Some md \<Rightarrow>
                    commit (\<lambda>c. Inr (put_series i (fold apply_series_field (fields_of ''dublincore/series'' cats) md) c)) Done s)))"

section \<open>Deleting\<close>

definition event_delete ::
  "admin_env \<Rightarrow> principal \<Rightarrow> string \<Rightarrow> 'f deposit_state \<Rightarrow> written \<times> 'f deposit_state" where
  "event_delete E p i s =
     (case require_event_write E (catalog_of s) p i of
        Some n \<Rightarrow> (Rejected n, s)
      | None \<Rightarrow>
          (case tombstone_event i (catalog_of s) of
             Inl e \<Rightarrow> (Rejected 500, s)
           | Inr (False, c) \<Rightarrow> (Rejected 404, s)
           | Inr (True, c) \<Rightarrow> (Done, with_catalog s c)))"

definition series_delete ::
  "admin_env \<Rightarrow> principal \<Rightarrow> string \<Rightarrow> 'f deposit_state \<Rightarrow> written \<times> 'f deposit_state" where
  "series_delete E p i s =
     (case require_series_write E (catalog_of s) p i of
        Some n \<Rightarrow> (Rejected n, s)
      | None \<Rightarrow>
          (case tombstone_series i (catalog_of s) of
             (False, c) \<Rightarrow> (Rejected 404, s)
           | (True, c) \<Rightarrow> (Done, with_catalog s c)))"

section \<open>Routing\<close>

datatype admin_call =
    GetMe
  | GetEvents
  | GetEventMetadata string
  | GetEventAccess string
  | GetEventPublications string
  | GetSeries
  | GetSeriesMetadata string
  | GetSeriesAccess string
  | PostEvent
  | PostSeries
  | PutEventMetadata string
  | PutSeriesMetadata string
  | PostEventAccess string
  | PostSeriesAccess string
  | PutEventAcl string
  | DeleteEvent string
  | DeleteSeries string

text \<open>The segments of the path; \<open>GET\<close> patterns also answer \<open>HEAD\<close>. \<open>PutEventAcl\<close> is the External API's.\<close>

definition admin_route :: "string \<Rightarrow> string list \<Rightarrow> admin_call option" where
  "admin_route m path =
     (let reading = (m = ''GET'' \<or> m = ''HEAD'')
      in case path of
           [a, b] \<Rightarrow> if reading \<and> a = ''info'' \<and> b = ''me.json'' then Some GetMe else None
         | [a, b, i] \<Rightarrow>
             (if a \<noteq> ''admin-ng'' then None
              else if b = ''event'' then
                (if m = ''DELETE'' then Some (DeleteEvent i)
                 else if reading \<and> i = ''events.json'' then Some GetEvents
                 else if m = ''POST'' \<and> i = ''new'' then Some PostEvent else None)
              else if b = ''series'' then
                (if m = ''DELETE'' then Some (DeleteSeries i)
                 else if reading \<and> i = ''series.json'' then Some GetSeries
                 else if m = ''POST'' \<and> i = ''new'' then Some PostSeries else None)
              else None)
         | [a, b, i, x] \<Rightarrow>
             (if a = ''api'' then (if b = ''events'' \<and> m = ''PUT'' \<and> x = ''acl'' then Some (PutEventAcl i) else None)
              else if a \<noteq> ''admin-ng'' then None
              else if b = ''event'' then
                (if reading \<and> x = ''metadata.json'' then Some (GetEventMetadata i)
                 else if reading \<and> x = ''access.json'' then Some (GetEventAccess i)
                 else if reading \<and> x = ''publications.json'' then Some (GetEventPublications i)
                 else if m = ''PUT'' \<and> x = ''metadata'' then Some (PutEventMetadata i)
                 else if m = ''POST'' \<and> x = ''access'' then Some (PostEventAccess i) else None)
              else if b = ''series'' then
                (if reading \<and> x = ''metadata.json'' then Some (GetSeriesMetadata i)
                 else if reading \<and> x = ''access.json'' then Some (GetSeriesAccess i)
                 else if m = ''PUT'' \<and> x = ''metadata'' then Some (PutSeriesMetadata i)
                 else if m = ''POST'' \<and> x = ''access'' then Some (PostSeriesAccess i) else None)
              else None)
         | _ \<Rightarrow> None)"

record admin_request =
  ar_method :: string
  ar_path :: "string list"
  ar_query :: params
  ar_form :: "form option"
  ar_body :: "multipart option"

record admin_context =
  ax_env :: admin_env
  ax_deposit :: deposit_env
  ax_json :: "string \<Rightarrow> json option"
  ax_definitions :: "definition_source option"

datatype admin_reply = Page "json answer" | Written written | NoRoute

definition call_admin ::
  "admin_context \<Rightarrow> (nat \<Rightarrow> string) \<Rightarrow> int \<Rightarrow> admin_request \<Rightarrow> principal \<Rightarrow> admin_call \<Rightarrow> 'f deposit_state
     \<Rightarrow> admin_reply \<times> 'f deposit_state" where
  "call_admin X fresh now rq p call s =
     (let E = ax_env X; c = catalog_of s; js = ax_json X; page = (\<lambda>a. (Page a, s)); wr = (\<lambda>(a, s'). (Written a, s'))
      in case call of
           GetMe \<Rightarrow> (NoRoute, s)
         | GetEvents \<Rightarrow> page (admin_events E c p (ar_query rq))
         | GetEventMetadata i \<Rightarrow> page (event_metadata E c p i)
         | GetEventAccess i \<Rightarrow> page (event_access E c p i)
         | GetEventPublications i \<Rightarrow> page (event_publications E c p i)
         | GetSeries \<Rightarrow> page (admin_series E c p (ar_query rq))
         | GetSeriesMetadata i \<Rightarrow> page (series_metadata_page c p i)
         | GetSeriesAccess i \<Rightarrow> page (series_access E c p i)
         | PostEvent \<Rightarrow> wr (event_new (ax_deposit X) js (ax_definitions X) fresh now p (ar_body rq) s)
         | PostSeries \<Rightarrow> wr (series_new js (fresh 0) now p (ar_form rq) s)
         | PutEventMetadata i \<Rightarrow> wr (event_metadata_edit E (de_text (ax_deposit X)) js p i (ar_form rq) s)
         | PutSeriesMetadata i \<Rightarrow> wr (series_metadata_edit E js p i (ar_form rq) s)
         | PostEventAccess i \<Rightarrow> wr (event_access_write E js Done p i (ar_form rq) s)
         | PostSeriesAccess i \<Rightarrow> wr (series_access_write E js p i (ar_form rq) s)
         | PutEventAcl i \<Rightarrow> wr (event_access_write E js NoContent p i (ar_form rq) s)
         | DeleteEvent i \<Rightarrow> wr (event_delete E p i s)
         | DeleteSeries i \<Rightarrow> wr (series_delete E p i s))"

text \<open>Every endpoint but the caller's own page is behind the gate.\<close>

definition serve_admin ::
  "admin_context \<Rightarrow> (nat \<Rightarrow> string) \<Rightarrow> int \<Rightarrow> resolved \<Rightarrow> admin_request \<Rightarrow> 'f deposit_state
     \<Rightarrow> admin_reply \<times> 'f deposit_state" where
  "serve_admin X fresh now r rq s =
     (case admin_route (ar_method rq) (ar_path rq) of
        None \<Rightarrow> (NoRoute, s)
      | Some GetMe \<Rightarrow> (Page (me_json (ax_env X) r), s)
      | Some call \<Rightarrow> auth_gate r (Page (Refused 403), s) (\<lambda>p. call_admin X fresh now rq p call s))"

end
