(* ===== verification/Searchapi.thy ===== *)
theory Searchapi
  imports AdminWrite
begin

text \<open>
  The External API and the engage search (\<open>internal/searchapi/searchapi.go\<close>) and the event manifest the
  player reads (\<open>eventmanifest.go\<close>), and the routing of \<open>NewHandler\<close> behind its gate. The answers of the list handlers are their JSON values, the manifest
  is the record of its struct; the technical data of a track and the number type of its frame rate are
  those of the worker model.
\<close>

section \<open>The External API lists\<close>

definition api_items :: "listing \<Rightarrow> json" where
  "api_items res = JArr (map (\<lambda>it. JObj [(''identifier'', JStr (it_id it)), (''title'', JStr (it_title it))]) (l_items res))"

definition query_surface :: "admin_env \<Rightarrow> catalog \<Rightarrow> principal \<Rightarrow> surface \<Rightarrow> params \<Rightarrow> (query_error, listing) result" where
  "query_surface E c p sf q =
     (case parse_admin_filters q of (flts, text) \<Rightarrow>
        events (ae_query E) c p \<lparr>q_surface = sf, q_filters = flts, q_text = text, q_sort = parse_sort q,
          q_limit = int_param q ''limit'' 100, q_offset = int_param q ''offset'' 0, q_by_id = []\<rparr>)"

definition api_events :: "admin_env \<Rightarrow> catalog \<Rightarrow> principal \<Rightarrow> params \<Rightarrow> json answer" where
  "api_events E c p q =
     (case query_surface E c p APIEvents q of Inl e \<Rightarrow> Refused 400 | Inr res \<Rightarrow> Answer (api_items res))"

definition api_series :: "admin_env \<Rightarrow> catalog \<Rightarrow> principal \<Rightarrow> params \<Rightarrow> json answer" where
  "api_series E c p q =
     (case series_query (ae_query E) c p \<lparr>q_surface = APISeries, q_filters = [], q_text = [], q_sort = [],
             q_limit = int_param q ''limit'' 100, q_offset = int_param q ''offset'' 0, q_by_id = []\<rparr> of
        Inl e \<Rightarrow> Refused 400 | Inr res \<Rightarrow> Answer (api_items res))"

section \<open>Engage\<close>

definition engage_page :: "listing \<Rightarrow> int \<Rightarrow> int \<Rightarrow> json" where
  "engage_page res limit offset =
     JObj [(''total'', jint (int (l_total res))), (''limit'', jint limit), (''offset'', jint offset),
       (''result'', JArr (map (\<lambda>it. JObj [(''id'', JStr (it_id it))]) (l_items res)))]"

text \<open>The engage sort parameter separates field and direction by a blank.\<close>

definition engage_sort :: "string \<Rightarrow> (string \<times> bool) list" where
  "engage_sort s =
     (if s = [] then [] else case cut_at CHR '' '' s of (field, dir, ok) \<Rightarrow> [(field, fold_name dir = ''desc'')])"

definition engage_episode :: "admin_env \<Rightarrow> catalog \<Rightarrow> principal \<Rightarrow> params \<Rightarrow> json answer" where
  "engage_episode E c p q =
     (let limit = int_param q ''limit'' 20; offset = int_param q ''offset'' 0; sid = go_get q ''sid''
      in case events (ae_query E) c p \<lparr>q_surface = EngageEpisode,
                q_filters = (if sid = [] then [] else [(''series'', sid)]), q_text = go_get q ''q'',
                q_sort = engage_sort (go_get q ''sort''), q_limit = limit, q_offset = offset, q_by_id = go_get q ''id''\<rparr> of
           Inl e \<Rightarrow> Refused 400 | Inr res \<Rightarrow> Answer (engage_page res limit offset))"

text \<open>A series text with a blank in it matches nothing; one token is a substring pattern.\<close>

definition engage_series_query ::
  "admin_env \<Rightarrow> (string \<Rightarrow> string \<Rightarrow> bool) \<Rightarrow> catalog \<Rightarrow> principal \<Rightarrow> string \<Rightarrow> int \<Rightarrow> int
     \<Rightarrow> (query_error, listing) result" where
  "engage_series_query E ilike c p text limit offset =
     (let t = trim_space text
      in if CHR '' '' \<in> set t \<or> CHR 0x09 \<in> set t then Inr \<lparr>l_items = [], l_total = 0\<rparr>
         else if t = []
         then series_query (ae_query E) c p \<lparr>q_surface = EngageSeries, q_filters = [], q_text = [], q_sort = [],
                q_limit = limit, q_offset = offset, q_by_id = []\<rparr>
         else series_substring (ae_query E) ilike c p t limit offset)"

definition engage_series ::
  "admin_env \<Rightarrow> (string \<Rightarrow> string \<Rightarrow> bool) \<Rightarrow> catalog \<Rightarrow> principal \<Rightarrow> params \<Rightarrow> json answer" where
  "engage_series E ilike c p q =
     (let limit = int_param q ''limit'' 20; offset = int_param q ''offset'' 0
      in case engage_series_query E ilike c p (go_get q ''q'') limit offset of
           Inl e \<Rightarrow> Refused 400 | Inr res \<Rightarrow> Answer (engage_page res limit offset))"

text \<open>The value of each filter key is its option list, or the name of its widget.\<close>

definition event_filters :: "catalog \<Rightarrow> (string \<times> filter_value) list answer" where
  "event_filters c = Answer (filter_options c)"

section \<open>The event manifest\<close>

record 'f track_facts =
  tf_audio :: bool
  tf_video :: bool
  tf_duration :: int
  tf_picture :: "(int \<times> int \<times> 'f \<times> int) option"

record 'f api_element =
  ap_id :: string
  ap_mediatype :: string
  ap_url :: string
  ap_flavor :: string
  ap_size :: int
  ap_tags :: "string list"
  ap_facts :: "'f track_facts option"

record 'f api_publication =
  ap_pub :: string
  ap_channel :: string
  ap_page :: string
  ap_media :: "'f api_element list"
  ap_attachments :: "'f api_element list"
  ap_metadata :: "'f api_element list"

record 'f api_event =
  av_identifier :: string
  av_title :: string
  av_description :: string
  av_subjects :: "string list"
  av_language :: string
  av_license :: string
  av_is_part_of :: string
  av_series :: string
  av_presenter :: "string list"
  av_contributor :: "string list"
  av_location :: string
  av_status :: string
  av_start :: string
  av_created :: string
  av_duration :: int
  av_acl :: "entry list"
  av_publication_status :: "string list"
  av_publications :: "'f api_publication list"

text \<open>One row of the join of publication, reference and element.\<close>

record 'f manifest_row =
  mr_pub :: string
  mr_pin :: pin
  mr_el :: string
  mr_row :: element_row
  mr_tech :: "'f tech option"
  mr_tags :: "string list"

record 'f manifest_env =
  mv_admin :: admin_env
  mv_rows :: "'f manifest_row list \<Rightarrow> 'f manifest_row list"
  mv_tags :: "string list \<Rightarrow> string list"
  mv_ext :: "string \<Rightarrow> string"

definition manifest_rows :: "'f manifest_env \<Rightarrow> 'f worker_data \<Rightarrow> string \<Rightarrow> 'f manifest_row list" where
  "manifest_rows V d i =
     (let c = wd_cat d
      in mv_rows V (concat (map (\<lambda>((m, ch), r). if m \<noteq> i then [] else
           concat (map (\<lambda>(pid, e). if pid \<noteq> pub_id r then [] else
             (case map_of (c_el c) e of
                None \<Rightarrow> []
              | Some el \<Rightarrow> [\<lparr>mr_pub = pub_id r,
                  mr_pin = \<lparr>pin_mp = i, pin_channel = ch, pin_read = pub_acl_read r, pin_state = pub_acl_state r\<rparr>,
                  mr_el = e, mr_row = el, mr_tech = map_of (wd_tech d) e,
                  mr_tags = mv_tags V (map snd (filter (\<lambda>(x, t). x = e) (c_tag c)))\<rparr>])) (c_pubel c))) (c_pub c))))"

definition facts_of :: "'f tech \<Rightarrow> 'f track_facts" where
  "facts_of t =
     \<lparr>tf_audio = (te_channels t > 0), tf_video = (te_width t > 0), tf_duration = te_duration t,
      tf_picture = (if te_width t > 0 then Some (te_width t, te_height t, te_framerate t, te_framecount t) else None)\<rparr>"

definition ext_for_mime :: "'f manifest_env \<Rightarrow> string \<Rightarrow> string" where
  "ext_for_mime V m =
     (if m = ''text/vtt'' then ''.vtt'' else if m = ''video/mp4'' then ''.mp4'' else if m = ''image/jpeg'' then ''.jpg''
      else if m = ''text/xml'' \<or> m = ''application/xml'' then ''.xml'' else mv_ext V m)"

text \<open>\<open>url.PathEscape\<close>.\<close>

definition hex_digit :: "nat \<Rightarrow> char" where
  "hex_digit n = char_of (if n < 10 then 48 + n else 55 + n)"

definition path_escape :: "string \<Rightarrow> string" where
  "path_escape s = concat (map (\<lambda>x. let n = byte_val x
     in if (48 \<le> n \<and> n \<le> 57) \<or> (65 \<le> n \<and> n \<le> 90) \<or> (97 \<le> n \<and> n \<le> 122) \<or> x \<in> set ''-_.~$&+:=@'' then [x]
        else [CHR ''%'', hex_digit (n div 16), hex_digit (n mod 16)]) s)"

definition element_url :: "'f manifest_env \<Rightarrow> string \<Rightarrow> string \<Rightarrow> string \<Rightarrow> string" where
  "element_url V e source mimetype =
     (let b = path_base source; name0 = (if b = ''.'' \<or> b = ''/'' then [] else b);
          name = (if name0 = [] \<or> path_ext name0 = [] then e @ ext_for_mime V mimetype else name0)
      in ''/elements/'' @ e @ ''/'' @ path_escape name)"

definition api_element_of :: "'f manifest_env \<Rightarrow> 'f manifest_row \<Rightarrow> 'f api_element" where
  "api_element_of V r =
     (let el = mr_row r; m = text_of (el_mimetype el)
      in \<lparr>ap_id = mr_el r, ap_mediatype = m, ap_url = element_url V (mr_el r) (text_of (el_source el)) m,
          ap_flavor = el_flavor el, ap_size = el_size el, ap_tags = mr_tags r,
          ap_facts = (if el_kind el = ''track'' then map_option facts_of (mr_tech r) else None)\<rparr>)"

definition add_api_element :: "string \<Rightarrow> 'f api_element \<Rightarrow> 'f api_publication \<Rightarrow> 'f api_publication" where
  "add_api_element kind el b =
     (if kind = ''track'' then b\<lparr>ap_media := ap_media b @ [el]\<rparr>
      else if kind = ''attachment'' then b\<lparr>ap_attachments := ap_attachments b @ [el]\<rparr>
      else b\<lparr>ap_metadata := ap_metadata b @ [el]\<rparr>)"

fun list_publications ::
  "'f manifest_env \<Rightarrow> principal \<Rightarrow> string \<Rightarrow> 'f manifest_row list \<Rightarrow> 'f api_publication list \<Rightarrow> 'f api_publication list" where
  "list_publications V p i [] pubs = pubs"
| "list_publications V p i (r # rs) pubs =
     (if \<not> authorized [mr_pin r] p then list_publications V p i rs pubs
      else let pubs1 = (if pubs = [] \<or> ap_pub (last pubs) \<noteq> mr_pub r
                        then pubs @ [\<lparr>ap_pub = mr_pub r, ap_channel = pin_channel (mr_pin r), ap_page = ''/play/'' @ i,
                               ap_media = [], ap_attachments = [], ap_metadata = []\<rparr>]
                        else pubs)
        in list_publications V p i rs
             (butlast pubs1 @ [add_api_element (el_kind (mr_row r)) (api_element_of V r) (last pubs1)]))"

definition publications_for :: "'f manifest_env \<Rightarrow> 'f worker_data \<Rightarrow> principal \<Rightarrow> string \<Rightarrow> 'f api_publication list" where
  "publications_for V d p i = list_publications V p i (manifest_rows V d i) []"

definition build_api_event ::
  "'f manifest_env \<Rightarrow> 'f worker_data \<Rightarrow> principal \<Rightarrow> string \<Rightarrow> bool \<Rightarrow> bool \<Rightarrow> 'f api_event answer" where
  "build_api_event V d p i with_acl with_publications =
     (case event_display_by_id (wd_cat d) i of
        Inl e \<Rightarrow> Refused 500
      | Inr disp \<Rightarrow>
          (let pubs = publications_for V d p i
           in Answer \<lparr>av_identifier = ed_id disp, av_title = ed_title disp, av_description = ed_description disp,
                av_subjects = ed_subjects disp, av_language = ed_language disp, av_license = ed_license disp,
                av_is_part_of = ed_series disp, av_series = ed_series_title disp, av_presenter = ed_presenters disp,
                av_contributor = ed_contributors disp, av_location = ed_location disp, av_status = ed_status disp,
                av_start = iso_or_empty (ed_start disp), av_created = iso_or_empty (ed_created disp),
                av_duration = (case ed_duration disp of None \<Rightarrow> 0 | Some ms \<Rightarrow> ms),
                av_acl = (if with_acl then fst (get_acl (ae_acl_order (mv_admin V)) (ScopeEvent, i) (c_acl (wd_cat d))) else []),
                av_publication_status = map ap_channel pubs,
                av_publications = (if with_publications then pubs else [])\<rparr>))"

text \<open>Visible by the archive's read clause or by the published pin.\<close>

fun visible_on :: "admin_env \<Rightarrow> catalog \<Rightarrow> principal \<Rightarrow> string \<Rightarrow> surface list \<Rightarrow> (query_error, bool) result" where
  "visible_on E c p i [] = Inr False"
| "visible_on E c p i (sf # sfs) =
     bind_result (events (ae_query E) c p \<lparr>q_surface = sf, q_filters = [], q_text = [], q_sort = [], q_limit = 1,
         q_offset = 0, q_by_id = i\<rparr>) (\<lambda>res.
       if length (l_items res) = 1 then Inr True else visible_on E c p i sfs)"

definition visible_for_manifest :: "admin_env \<Rightarrow> catalog \<Rightarrow> principal \<Rightarrow> string \<Rightarrow> (query_error, bool) result" where
  "visible_for_manifest E c p i = visible_on E c p i [APIEvents, EngageEpisode]"

definition api_event_by_id ::
  "'f manifest_env \<Rightarrow> 'f worker_data \<Rightarrow> principal \<Rightarrow> string \<Rightarrow> params \<Rightarrow> 'f api_event answer" where
  "api_event_by_id V d p i q =
     (case visible_for_manifest (mv_admin V) (wd_cat d) p i of
        Inl e \<Rightarrow> Refused 400
      | Inr False \<Rightarrow> Refused 404
      | Inr True \<Rightarrow>
          build_api_event V d p i (go_get q ''withacl'' = ''true'') (go_get q ''withpublications'' = ''true''))"

section \<open>Routing\<close>

text \<open>
  \<open>NewHandler\<close>. The two admin lists and the ACL write are the admin interface's own handlers, mounted
  here too. Everything but the engage search and the event manifest is behind the gate; those two are
  handed the anonymous principal.
\<close>

datatype search_call =
    AdminCall admin_call
  | GetFilters
  | GetApiEvents
  | GetApiEvent string
  | GetApiSeries
  | GetEpisodes
  | GetEngageSeries

definition search_route :: "string \<Rightarrow> string list \<Rightarrow> search_call option" where
  "search_route m path =
     (let reading = (m = ''GET'' \<or> m = ''HEAD'')
      in case path of
           [a, b] \<Rightarrow>
             (if \<not> reading then None
              else if a = ''api'' then
                (if b = ''events'' then Some GetApiEvents else if b = ''series'' then Some GetApiSeries else None)
              else if a = ''search'' then
                (if b = ''episode.json'' then Some GetEpisodes
                 else if b = ''series.json'' then Some GetEngageSeries else None)
              else None)
         | [a, b, i] \<Rightarrow>
             (if \<not> reading then None
              else if a = ''api'' then (if b = ''events'' then Some (GetApiEvent i) else None)
              else if a = ''admin-ng'' then
                (if b = ''event'' \<and> i = ''events.json'' then Some (AdminCall GetEvents)
                 else if b = ''series'' \<and> i = ''series.json'' then Some (AdminCall GetSeries) else None)
              else None)
         | [a, b, i, x] \<Rightarrow>
             (if a = ''api'' then
                (if m = ''PUT'' \<and> b = ''events'' \<and> x = ''acl'' then Some (AdminCall (PutEventAcl i)) else None)
              else if a = ''admin-ng'' then
                (if reading \<and> b = ''resources'' \<and> i = ''events'' \<and> x = ''filters.json'' then Some GetFilters else None)
              else None)
         | _ \<Rightarrow> None)"

datatype 'f search_reply =
    SearchPage "json answer"
  | FilterPage "(string \<times> filter_value) list answer"
  | EventPage "'f api_event answer"
  | AdminAnswer admin_reply
  | SearchForbidden
  | NoSearchRoute

record 'f search_context =
  sx_admin :: admin_context
  sx_manifest :: "'f manifest_env"
  sx_ilike :: "string \<Rightarrow> string \<Rightarrow> bool"

definition serve_search ::
  "'f search_context \<Rightarrow> (nat \<Rightarrow> string) \<Rightarrow> int \<Rightarrow> resolved \<Rightarrow> admin_request \<Rightarrow> 'f deposit_state
     \<Rightarrow> 'f search_reply \<times> 'f deposit_state" where
  "serve_search Y fresh now r rq s =
     (let X = sx_admin Y; E = ax_env X; c = catalog_of s; q = ar_query rq; p = fst r;
          gated = auth_gate r (SearchForbidden, s)
      in case search_route (ar_method rq) (ar_path rq) of
           None \<Rightarrow> (NoSearchRoute, s)
         | Some (AdminCall call) \<Rightarrow>
             gated (\<lambda>p. case call_admin X fresh now rq p call s of (a, s') \<Rightarrow> (AdminAnswer a, s'))
         | Some GetFilters \<Rightarrow> gated (\<lambda>p. (FilterPage (event_filters c), s))
         | Some GetApiEvents \<Rightarrow> gated (\<lambda>p. (SearchPage (api_events E c p q), s))
         | Some GetApiSeries \<Rightarrow> gated (\<lambda>p. (SearchPage (api_series E c p q), s))
         | Some (GetApiEvent i) \<Rightarrow> (EventPage (api_event_by_id (sx_manifest Y) (db_data (ds_db s)) p i q), s)
         | Some GetEpisodes \<Rightarrow> (SearchPage (engage_episode E c p q), s)
         | Some GetEngageSeries \<Rightarrow> (SearchPage (engage_series E (sx_ilike Y) c p q), s))"

end
