(* ===== verification/SearchapiClaims.thy ===== *)
theory SearchapiClaims
  imports Searchapi OpsClaims
begin

text \<open>
  The event manifest against the archive's policy, the published pin and delivery: who may read it, that
  it names what delivery would hand to the same principal, and where the two part.
\<close>

section \<open>One event, by its id\<close>

definition by_id_query :: "surface \<Rightarrow> string \<Rightarrow> query" where
  "by_id_query sf i = \<lparr>q_surface = sf, q_filters = [], q_text = [], q_sort = [], q_limit = 1, q_offset = 0, q_by_id = i\<rparr>"

lemma length_filter_key:
  "distinct (map fst xs) \<Longrightarrow> length (filter (\<lambda>(j, r). P (j, r) \<and> j = i) xs) =
     (case map_of xs i of None \<Rightarrow> 0 | Some r \<Rightarrow> if P (i, r) then 1 else 0)"
proof (induction xs)
  case (Cons x xs)
  obtain j r where x: "x = (j, r)" by fastforce
  have "filter (\<lambda>(j, r). P (j, r) \<and> j = i) xs = []" if "j = i"
    using Cons.prems that by (auto simp: x filter_empty_conv image_iff)
  then show ?case using Cons by (auto simp: x)
qed simp

lemma events_by_id:
  assumes "in_sync c" and "i \<noteq> []" and "sf \<in> {AdminEvents, APIEvents, EngageEpisode}"
    and "\<And>b ks xs. mset (order_events env b ks xs) = mset xs"
  shows "\<exists>l. events env c p (by_id_query sf i) = Inr l \<and>
    (length (l_items l) = 1 \<longleftrightarrow> derived_event c i \<noteq> None \<and> may_list c p sf i \<and> \<not> pruned_away c p sf i)"
proof -
  obtain visible where cl: "events_clause c p sf = Inr visible"
    using assms(3) unfolding events_clause_def Let_def
    by (cases "split_roles (p_roles p)"; cases "is_admin p") auto
  let ?P = "\<lambda>(i, r). visible (i, r) \<and> (sf = EngageEpisode \<longrightarrow> se_published r)"
  let ?rows = "filter (\<lambda>(j, r). ?P (j, r) \<and> j = i) (c_se c)"
  have keys: "distinct (map fst (c_se c))" and mo: "map_of (c_se c) i = derived_event c i"
    using assms(1) by (auto simp: in_sync_def keys_ok_def)
  have len: "length ?rows = (if derived_event c i \<noteq> None \<and> may_list c p sf i \<and> \<not> pruned_away c p sf i then 1 else 0)"
    using length_filter_key [OF keys, of ?P i] clause_may_list [OF cl, of i] by (auto simp: mo split: option.splits)
  have ev: "events env c p (by_id_query sf i) =
      Inr \<lparr>l_items = map (\<lambda>(i, r). \<lparr>it_id = i, it_title = text_of (se_title r)\<rparr>)
            (page_of 1 0 (order_events env (sf = EngageEpisode) [] ?rows)), l_total = length ?rows\<rparr>"
    using assms(2) by (simp add: events_def by_id_query_def cl Let_def case_prod_unfold conj_ac cong: filter_cong)
  have "length (order_events env (sf = EngageEpisode) [] ?rows) = length ?rows"
    using mset_eq_length [OF assms(4)] .
  then show ?thesis using ev len by (simp add: page_of_def)
qed

text \<open>The event pages of the admin interface are visible exactly to whom the list shows the event.\<close>

lemma visible_event_iff:
  assumes "in_sync c" and "i \<noteq> []" and "\<And>b ks xs. mset (order_events (ae_query E) b ks xs) = mset xs"
  shows "visible_event E c p i \<longleftrightarrow> derived_event c i \<noteq> None \<and> may_list c p AdminEvents i"
  using events_by_id [OF assms(1,2), of AdminEvents "ae_query E" p] assms(3)
  by (auto simp: visible_event_def by_id_query_def [symmetric] pruned_away_def)

text \<open>The manifest is readable through the archive's policy or through the pin, as far as the listing shows it.\<close>

definition readable :: "catalog \<Rightarrow> principal \<Rightarrow> string \<Rightarrow> bool" where
  "readable c p i =
     (derived_event c i \<noteq> None \<and>
      (may_list c p APIEvents i \<or> (may_list c p EngageEpisode i \<and> \<not> pruned_away c p EngageEpisode i)))"

lemma visible_for_manifest_iff:
  assumes "in_sync c" and "i \<noteq> []" and "\<And>b ks xs. mset (order_events (ae_query E) b ks xs) = mset xs"
  shows "visible_for_manifest E c p i = Inr (readable c p i)"
proof -
  obtain l where 1: "events (ae_query E) c p (by_id_query APIEvents i) = Inr l"
      "length (l_items l) = 1 \<longleftrightarrow> derived_event c i \<noteq> None \<and> may_list c p APIEvents i \<and> \<not> pruned_away c p APIEvents i"
    using events_by_id [OF assms(1,2), of APIEvents "ae_query E" p] assms(3) by auto
  obtain m where 2: "events (ae_query E) c p (by_id_query EngageEpisode i) = Inr m"
      "length (l_items m) = 1 \<longleftrightarrow>
         derived_event c i \<noteq> None \<and> may_list c p EngageEpisode i \<and> \<not> pruned_away c p EngageEpisode i"
    using events_by_id [OF assms(1,2), of EngageEpisode "ae_query E" p] assms(3) by auto
  have "\<not> pruned_away c p APIEvents i" by (simp add: pruned_away_def)
  then show ?thesis
    using 1 2 by (auto simp: visible_for_manifest_def by_id_query_def [symmetric] readable_def simp del: may_list.simps)
qed

section \<open>What the manifest names\<close>

definition named_elements :: "'f api_publication list \<Rightarrow> (string \<times> string) list" where
  "named_elements pubs =
     concat (map (\<lambda>b. map (\<lambda>el. (ap_pub b, ap_id el)) (ap_media b @ ap_attachments b @ ap_metadata b)) pubs)"

lemma named_append: "named_elements (xs @ ys) = named_elements xs @ named_elements ys"
  by (simp add: named_elements_def)

lemma named_add:
  "mset (named_elements [add_api_element k el b]) = mset (named_elements [b]) + {#(ap_pub b, ap_id el)#}"
  by (simp add: named_elements_def add_api_element_def)

text \<open>The fold keeps every authorized row and nothing else.\<close>

lemma list_publications_named:
  "mset (named_elements (list_publications V p i rows pubs)) =
     mset (named_elements pubs) + mset (map (\<lambda>r. (mr_pub r, mr_el r)) (filter (\<lambda>r. authorized [mr_pin r] p) rows))"
proof (induction V p i rows pubs rule: list_publications.induct)
  case (2 V p i r rs pubs)
  show ?case
  proof (cases "authorized [mr_pin r] p")
    case True
    define pubs1 where "pubs1 = (if pubs = [] \<or> ap_pub (last pubs) \<noteq> mr_pub r
        then pubs @ [\<lparr>ap_pub = mr_pub r, ap_channel = pin_channel (mr_pin r), ap_page = ''/play/'' @ i,
               ap_media = [], ap_attachments = [], ap_metadata = []\<rparr>] else pubs)"
    let ?el = "api_element_of V r" and ?k = "el_kind (mr_row r)"
    let ?pubs2 = "butlast pubs1 @ [add_api_element ?k ?el (last pubs1)]"
    have ne: "pubs1 \<noteq> []" and lst: "ap_pub (last pubs1) = mr_pub r" by (auto simp: pubs1_def)
    have n1: "named_elements pubs1 = named_elements pubs" by (simp add: pubs1_def named_elements_def)
    have "mset (named_elements ?pubs2) = mset (named_elements (butlast pubs1 @ [last pubs1])) + {#(mr_pub r, mr_el r)#}"
      using named_add [of ?k ?el "last pubs1"] lst by (simp add: named_append api_element_of_def Let_def)
    also have "\<dots> = mset (named_elements pubs) + {#(mr_pub r, mr_el r)#}"
      using ne n1 by simp
    finally show ?thesis
      using 2(2) [OF _ pubs1_def] True by (simp add: Let_def pubs1_def [symmetric])
  qed (use 2(1) in simp)
qed simp

definition joined_rows :: "'f manifest_env \<Rightarrow> 'f worker_data \<Rightarrow> string \<Rightarrow> 'f manifest_row list" where
  "joined_rows V d i =
     concat (map (\<lambda>((m, ch), r). if m \<noteq> i then [] else
           concat (map (\<lambda>(pid, e). if pid \<noteq> pub_id r then [] else
             (case map_of (c_el (wd_cat d)) e of
                None \<Rightarrow> []
              | Some el \<Rightarrow> [\<lparr>mr_pub = pub_id r,
                  mr_pin = \<lparr>pin_mp = i, pin_channel = ch, pin_read = pub_acl_read r, pin_state = pub_acl_state r\<rparr>,
                  mr_el = e, mr_row = el, mr_tech = map_of (wd_tech d) e,
                  mr_tags = mv_tags V (map snd (filter (\<lambda>(x, t). x = e) (c_tag (wd_cat d))))\<rparr>])) (c_pubel (wd_cat d)))) (c_pub (wd_cat d)))"

lemma joined_rowD:
  assumes "x \<in> set (joined_rows V d i)"
  shows "\<exists>ch r. ((i, ch), r) \<in> set (c_pub (wd_cat d)) \<and> mr_pub x = pub_id r \<and> (pub_id r, mr_el x) \<in> set (c_pubel (wd_cat d)) \<and>
    map_of (c_el (wd_cat d)) (mr_el x) \<noteq> None \<and>
    mr_pin x = \<lparr>pin_mp = i, pin_channel = ch, pin_read = pub_acl_read r, pin_state = pub_acl_state r\<rparr>"
  using assms unfolding joined_rows_def
  by (auto split: if_splits option.splits) (metis option.distinct(1) option.exhaust)

lemma joined_rowI:
  assumes "((i, ch), r) \<in> set (c_pub (wd_cat d))" and "(pub_id r, e) \<in> set (c_pubel (wd_cat d))"
    and "map_of (c_el (wd_cat d)) e = Some el"
  shows "\<exists>x \<in> set (joined_rows V d i). mr_pub x = pub_id r \<and> mr_el x = e \<and>
    mr_pin x = \<lparr>pin_mp = i, pin_channel = ch, pin_read = pub_acl_read r, pin_state = pub_acl_state r\<rparr>"
proof
  let ?row = "\<lparr>mr_pub = pub_id r,
      mr_pin = \<lparr>pin_mp = i, pin_channel = ch, pin_read = pub_acl_read r, pin_state = pub_acl_state r\<rparr>,
      mr_el = e, mr_row = el, mr_tech = map_of (wd_tech d) e,
      mr_tags = mv_tags V (map snd (filter (\<lambda>(x, t). x = e) (c_tag (wd_cat d))))\<rparr>"
  show "?row \<in> set (joined_rows V d i)"
    unfolding joined_rows_def set_concat set_map
    by (intro UN_I UnionI [OF imageI [OF assms(1)]]) (use assms in \<open>auto intro!: bexI [OF _ assms(2)]\<close>)
qed simp

lemma named_iff:
  assumes "\<And>xs. mset (mv_rows V xs) = mset xs"
  shows "(pb, e) \<in> set (named_elements (publications_for V d p i)) \<longleftrightarrow>
    (\<exists>ch r. ((i, ch), r) \<in> set (c_pub (wd_cat d)) \<and> pb = pub_id r \<and> (pb, e) \<in> set (c_pubel (wd_cat d)) \<and>
       map_of (c_el (wd_cat d)) e \<noteq> None \<and>
       authorized [\<lparr>pin_mp = i, pin_channel = ch, pin_read = pub_acl_read r, pin_state = pub_acl_state r\<rparr>] p)"
proof -
  have "set (manifest_rows V d i) = set (joined_rows V d i)"
    using mset_eq_setD [OF assms] by (simp add: manifest_rows_def joined_rows_def Let_def)
  moreover have "mset (named_elements (publications_for V d p i)) =
      mset (map (\<lambda>r. (mr_pub r, mr_el r)) (filter (\<lambda>r. authorized [mr_pin r] p) (manifest_rows V d i)))"
    using list_publications_named [of V p i "manifest_rows V d i" "[]"]
    by (simp add: publications_for_def named_elements_def [of "[]"])
  ultimately have eq: "set (named_elements (publications_for V d p i)) =
      (\<lambda>r. (mr_pub r, mr_el r)) ` {r \<in> set (joined_rows V d i). authorized [mr_pin r] p}"
    using mset_eq_setD by fastforce
  show ?thesis
  proof
    assume "(pb, e) \<in> set (named_elements (publications_for V d p i))"
    then obtain x where "x \<in> set (joined_rows V d i)" "authorized [mr_pin x] p" "pb = mr_pub x" "e = mr_el x"
      unfolding eq by blast
    then show "\<exists>ch r. ((i, ch), r) \<in> set (c_pub (wd_cat d)) \<and> pb = pub_id r \<and> (pb, e) \<in> set (c_pubel (wd_cat d)) \<and>
       map_of (c_el (wd_cat d)) e \<noteq> None \<and>
       authorized [\<lparr>pin_mp = i, pin_channel = ch, pin_read = pub_acl_read r, pin_state = pub_acl_state r\<rparr>] p"
      using joined_rowD [of x V d i] by metis
  next
    assume "\<exists>ch r. ((i, ch), r) \<in> set (c_pub (wd_cat d)) \<and> pb = pub_id r \<and> (pb, e) \<in> set (c_pubel (wd_cat d)) \<and>
       map_of (c_el (wd_cat d)) e \<noteq> None \<and>
       authorized [\<lparr>pin_mp = i, pin_channel = ch, pin_read = pub_acl_read r, pin_state = pub_acl_state r\<rparr>] p"
    then obtain ch r el where r: "((i, ch), r) \<in> set (c_pub (wd_cat d))" "pb = pub_id r"
        "(pub_id r, e) \<in> set (c_pubel (wd_cat d))" "map_of (c_el (wd_cat d)) e = Some el"
        "authorized [\<lparr>pin_mp = i, pin_channel = ch, pin_read = pub_acl_read r, pin_state = pub_acl_state r\<rparr>] p" by blast
    from joined_rowI [OF r(1,3,4), of V] show "(pb, e) \<in> set (named_elements (publications_for V d p i))"
      unfolding eq using r(2,5) by force
  qed
qed

section \<open>The manifest and delivery\<close>

lemma display_of_live:
  assumes "in_sync c" and "derived_event c i \<noteq> None"
  shows "\<exists>e. event_display_by_id c i = Inr e"
proof -
  have "map_of (c_se c) i \<noteq> None" using assms by (simp add: in_sync_def)
  then obtain r where "(i, r) \<in> set (c_se c)" by (auto dest: map_of_SomeD)
  then have "i \<in> fst ` set (map (\<lambda>(i, r). (i, display_of i r)) (filter (\<lambda>(j, r). j \<in> set [i]) (c_se c)))"
    by (auto simp: image_iff intro!: bexI [of _ "(i, r)"])
  then have "map_of (map (\<lambda>(i, r). (i, display_of i r)) (filter (\<lambda>(j, r). j \<in> set [i]) (c_se c))) i \<noteq> None"
    unfolding map_of_eq_None_iff by blast
  then show ?thesis by (auto simp: event_display_by_id_def events_display_def split: option.split)
qed

lemma authorized_delivers:
  assumes "authorized (pins_for_element c e) (rq_principal rq)" and "map_of (c_el c) e \<noteq> None"
  shows "rs_status (serve_element env c e rq) \<notin> {403, 404}"
  using assms
  by (auto simp: serve_element_def get_element_def send_bytes_def Let_def split: option.splits range_verdict.split)

lemma refused_unauthorized:
  "\<not> authorized (pins_for_element c e) (rq_principal rq) \<Longrightarrow> rs_status (serve_element env c e rq) \<in> {403, 404}"
  by (auto simp: serve_element_def get_element_def http_error_def split: option.splits)

definition obtains_bytes :: "serve_env \<Rightarrow> catalog \<Rightarrow> request \<Rightarrow> string \<Rightarrow> bool" where
  "obtains_bytes env c rq e = (rs_status (serve_element env c e rq) \<notin> {403, 404})"

lemma obtains_iff:
  "map_of (c_el c) e \<noteq> None \<Longrightarrow> obtains_bytes env c rq e \<longleftrightarrow> authorized (pins_for_element c e) (rq_principal rq)"
  using authorized_delivers [of c e rq env] refused_unauthorized [of c e rq env] by (auto simp: obtains_bytes_def)

text \<open>The elements of an event's publications, and those that no other publication holds.\<close>

definition event_element :: "catalog \<Rightarrow> string \<Rightarrow> string \<Rightarrow> bool" where
  "event_element c i e =
     (map_of (c_el c) e \<noteq> None \<and> list_ex (\<lambda>((m, ch), r). m = i \<and> (pub_id r, e) \<in> set (c_pubel c)) (c_pub c))"

definition only_in_event :: "catalog \<Rightarrow> string \<Rightarrow> string \<Rightarrow> bool" where
  "only_in_event c i e = list_all (\<lambda>((m, ch), r). (pub_id r, e) \<in> set (c_pubel c) \<longrightarrow> m = i) (c_pub c)"

definition only_in_player :: "catalog \<Rightarrow> string \<Rightarrow> string \<Rightarrow> bool" where
  "only_in_player c i e =
     list_all (\<lambda>(k, r). (pub_id r, e) \<in> set (c_pubel c) \<longrightarrow> k = (i, engage_player)) (c_pub c)"

lemma strip_suffix_append: "strip_suffix suf (x @ suf) = Some x"
  by (simp add: strip_suffix_def has_suffix_def has_prefix_iff)

lemma grant_read_iff:
  assumes "i \<noteq> []" and "CHR 0x0A \<notin> set i"
  shows "episode_grant r = Some (GrantRead i) \<longleftrightarrow> r = episode_read_role i"
proof
  assume "r = episode_read_role i"
  then show "episode_grant r = Some (GrantRead i)"
    using assms strip_suffix_append [of "''_READ''" i]
    by (simp add: episode_grant_def episode_read_role_def episode_prefix_def has_prefix_iff)
qed (rule grant_read_role)

text \<open>For an element that only the event's player publication holds, delivery decides as the engage rule does
  before pruning.\<close>

lemma player_delivery:
  assumes row: "map_of (c_pub c) (i, engage_player) = Some r" and e: "(pub_id r, e) \<in> set (c_pubel c)"
    and keys: "distinct (map fst (c_pub c))" and only: "only_in_player c i e"
    and plain: "\<forall>ro \<in> pub_acl_read r. episode_grant ro = None" and i: "i \<noteq> []" "CHR 0x0A \<notin> set i"
  shows "authorized (pins_for_element c e) p \<longleftrightarrow> may_list c p EngageEpisode i"
proof -
  let ?q = "\<lparr>pin_mp = i, pin_channel = engage_player, pin_read = pub_acl_read r, pin_state = pub_acl_state r\<rparr>"
  have mem: "((i, engage_player), r) \<in> set (c_pub c)" using row by (rule map_of_SomeD)
  have "q = ?q" if pin: "q \<in> set (pins_for_element c e)" for q
  proof -
    obtain mp ch r' where q: "((mp, ch), r') \<in> set (c_pub c)" "(pub_id r', e) \<in> set (c_pubel c)"
        "q = \<lparr>pin_mp = mp, pin_channel = ch, pin_read = pub_acl_read r', pin_state = pub_acl_state r'\<rparr>"
      using pin unfolding mem_pins by blast
    then have k: "(mp, ch) = (i, engage_player)" using only by (auto simp: only_in_player_def list_all_iff)
    then have "r' = r" using map_of_is_SomeI [OF keys q(1)] row by simp
    then show ?thesis using q(3) k by simp
  qed
  moreover have "?q \<in> set (pins_for_element c e)" unfolding mem_pins using mem e by blast
  ultimately have pins: "set (pins_for_element c e) = {?q}" by blast
  have "published c i" using mem by (force simp: published_def list_ex_iff)
  moreover have "plain_overlap (engage_pin c i) p \<longleftrightarrow> pub_acl_read r \<inter> set (p_roles p) \<noteq> {}"
    using plain by (auto simp: plain_overlap_def engage_pin_def row list_ex_iff)
  moreover have "holds_grant (GrantRead i) p \<longleftrightarrow> episode_read_role i \<in> set (p_roles p)"
    by (auto simp: holds_grant_def list_ex_iff grant_read_iff [OF i])
  ultimately show ?thesis by (auto simp: authorized_iff pins)
qed

definition named_by_pin :: "catalog \<Rightarrow> string \<Rightarrow> principal \<Rightarrow> (string \<times> string) set" where
  "named_by_pin c i p = {(pub_id r, e) |r ch e. ((i, ch), r) \<in> set (c_pub c) \<and>
     (pub_id r, e) \<in> set (c_pubel c) \<and> map_of (c_el c) e \<noteq> None \<and>
     authorized [\<lparr>pin_mp = i, pin_channel = ch, pin_read = pub_acl_read r, pin_state = pub_acl_state r\<rparr>] p}"

lemma publications_named:
  assumes "\<And>xs. mset (mv_rows V xs) = mset xs"
  shows "set (named_elements (publications_for V d p i)) = named_by_pin (wd_cat d) i p"
  unfolding named_by_pin_def
  by (rule set_eqI) (use named_iff [OF assms] in \<open>simp only: mem_Collect_eq split_paired_all prod.inject; blast\<close>)

lemma named_is_delivered:
  assumes "e \<in> snd ` named_by_pin c i (rq_principal rq)"
  shows "obtains_bytes env c rq e"
proof -
  obtain ch r where r: "((i, ch), r) \<in> set (c_pub c)" "(pub_id r, e) \<in> set (c_pubel c)" "map_of (c_el c) e \<noteq> None"
      "authorized [\<lparr>pin_mp = i, pin_channel = ch, pin_read = pub_acl_read r, pin_state = pub_acl_state r\<rparr>] (rq_principal rq)"
    using assms unfolding named_by_pin_def by auto
  then have "authorized (pins_for_element c e) (rq_principal rq)" using mem_pins authorized_single by metis
  then show ?thesis using obtains_iff [OF r(3)] by simp
qed

lemma delivered_is_named:
  assumes "event_element c i e" and "only_in_event c i e" and "obtains_bytes env c rq e"
  shows "e \<in> snd ` named_by_pin c i (rq_principal rq)"
proof -
  let ?p = "rq_principal rq"
  have el: "map_of (c_el c) e \<noteq> None" using assms(1) by (simp add: event_element_def)
  obtain ch r where r: "((i, ch), r) \<in> set (c_pub c)" "(pub_id r, e) \<in> set (c_pubel c)"
    using assms(1) by (auto simp: event_element_def list_ex_iff)
  have a: "authorized (pins_for_element c e) ?p" using assms(3) obtains_iff [OF el] by simp
  have "\<exists>ch r. ((i, ch), r) \<in> set (c_pub c) \<and> (pub_id r, e) \<in> set (c_pubel c) \<and>
      authorized [\<lparr>pin_mp = i, pin_channel = ch, pin_read = pub_acl_read r, pin_state = pub_acl_state r\<rparr>] ?p"
  proof (cases "is_admin ?p")
    case True
    then show ?thesis using r by (auto simp: authorized_iff)
  next
    case False
    then obtain q where q: "q \<in> set (pins_for_element c e)" "authorized [q] ?p"
      using a authorized_single by blast
    then obtain mp ch r where "((mp, ch), r) \<in> set (c_pub c)" "(pub_id r, e) \<in> set (c_pubel c)"
        "q = \<lparr>pin_mp = mp, pin_channel = ch, pin_read = pub_acl_read r, pin_state = pub_acl_state r\<rparr>"
      unfolding mem_pins by blast
    moreover have "mp = i" using calculation(1,2) assms(2) by (auto simp: only_in_event_def list_all_iff)
    ultimately show ?thesis using q(2) by blast
  qed
  then show ?thesis unfolding named_by_pin_def using el by force
qed

text \<open>The answer of the endpoint: refused to who may not read, else the body with the publications asked for.\<close>

lemma manifest_answer:
  assumes "in_sync (wd_cat d)" and "i \<noteq> []" and "CHR 0x0A \<notin> set i"
    and "\<And>b ks xs. mset (order_events (ae_query (mv_admin V)) b ks xs) = mset xs"
  shows "case api_event_by_id V d p i q of
      Refused n \<Rightarrow> n = 404 \<and> \<not> readable (wd_cat d) p i
    | Answer b \<Rightarrow> readable (wd_cat d) p i \<and>
        av_publications b = (if go_get q ''withpublications'' = ''true'' then publications_for V d p i else [])"
proof -
  have vis: "visible_for_manifest (mv_admin V) (wd_cat d) p i = Inr (readable (wd_cat d) p i)"
    by (rule visible_for_manifest_iff [OF assms(1,2,4)])
  show ?thesis
  proof (cases "readable (wd_cat d) p i")
    case False
    then show ?thesis by (simp add: api_event_by_id_def vis)
  next
    case True
    then obtain disp where "event_display_by_id (wd_cat d) i = Inr disp"
      using display_of_live [OF assms(1)] by (auto simp: readable_def)
    then show ?thesis by (simp add: api_event_by_id_def vis True build_api_event_def Let_def)
  qed
qed


definition demo_admin :: admin_env where
  "demo_admin = \<lparr>ae_query = demo_env, ae_acl_order = (\<lambda>xs. xs), ae_upper = (\<lambda>n. n)\<rparr>"

definition demo_manifest_env :: "unit manifest_env" where
  "demo_manifest_env = \<lparr>mv_admin = demo_admin, mv_rows = (\<lambda>xs. xs), mv_tags = (\<lambda>xs. xs), mv_ext = (\<lambda>m. [])\<rparr>"

definition demo_player :: catalog where
  "demo_player = committed demo_live (publish_write ''p9'' ''e1'' engage_player [''x''] demo_live)"

definition demo_player_store :: "unit worker_data" where
  "demo_player_store = \<lparr>wd_cat = demo_player, wd_tech = []\<rparr>"

definition player_request :: params where
  "player_request = [''withpublications'' \<mapsto> ''true'']"

lemma demo_player_sync: "in_sync (wd_cat demo_player_store)"
  using publish_write_sync [OF _ demo_live_sync] demo_live_sync
  by (auto simp: demo_player_store_def demo_player_def committed_def split: sum.split)

lemma demo_manifest_read:
  "case api_event_by_id demo_manifest_env demo_player_store \<lparr>p_roles = [''R'']\<rparr> ''e1'' player_request of
     Refused n \<Rightarrow> False | Answer b \<Rightarrow> list_ex (\<lambda>(pb, e). e = ''x'') (named_elements (av_publications b))"
  by code_simp

lemma demo_player_keys: "distinct (map fst (c_pub demo_player))"
  by code_simp


text \<open>The case in which the two part: after the policy of a published event is replaced by one that does not name
  the pinned role, a principal of that role is served the bytes and gets no manifest.\<close>

definition demo_repoliced :: "unit worker_data" where
  "demo_repoliced = \<lparr>wd_cat = cat_step (WriteAcl ScopeEvent ''e1'' []) demo_player, wd_tech = []\<rparr>"

lemma bytes_without_manifest:
  "obtains_bytes demo_serve_env (wd_cat demo_repoliced) (demo_request [''R''] []) ''x'' \<and>
   (case api_event_by_id demo_manifest_env demo_repoliced \<lparr>p_roles = [''R'']\<rparr> ''e1'' player_request of
      Refused n \<Rightarrow> n = 404 | Answer b \<Rightarrow> False) \<and>
   pruned_away (wd_cat demo_repoliced) \<lparr>p_roles = [''R'']\<rparr> EngageEpisode ''e1''"
  by code_simp

end
