(* ===== verification/AdminClaims.thy ===== *)
theory AdminClaims
  imports AdminWrite IngestClaims OpsClaims
begin

text \<open>
  What the admin interface promises: only an authorized principal changes anything, the access page shows
  what enforcement decides, an edit changes what was sent and nothing else, and a created event is all
  there.
\<close>

section \<open>Who may write\<close>

definition policy_entries :: "catalog \<Rightarrow> policy_key \<Rightarrow> entry set" where
  "policy_entries c k = set (fst (get_acl (\<lambda>xs. xs) k (c_acl c)))"

text \<open>The decision, without the code's order of tests: a deny for a held role wins over every grant.\<close>

definition write_granted :: "catalog \<Rightarrow> principal \<Rightarrow> policy_key \<Rightarrow> bool \<Rightarrow> bool" where
  "write_granted c p k direct =
     (is_admin p \<or>
      ((\<forall>e \<in> policy_entries c k. action e = ''write'' \<and> role e \<in> set (p_roles p) \<longrightarrow> allow e) \<and>
       (direct \<or> (\<exists>e \<in> policy_entries c k. action e = ''write'' \<and> role e \<in> set (p_roles p) \<and> allow e))))"

lemma get_acl_cases:
  assumes "\<And>xs. set (order xs) = set xs"
  shows "set (fst (get_acl order k a)) = set (fst (get_acl (\<lambda>xs. xs) k a))"
    and "snd (get_acl order k a) = StatePopulated \<longleftrightarrow> fst (get_acl order k a) \<noteq> []"
proof -
  have "order xs = [] \<longleftrightarrow> xs = []" for xs using assms [of xs] by (metis set_empty)
  then show "set (fst (get_acl order k a)) = set (fst (get_acl (\<lambda>xs. xs) k a))"
    using assms by (simp add: get_acl_def Let_def)
  show "snd (get_acl order k a) = StatePopulated \<longleftrightarrow> fst (get_acl order k a) \<noteq> []"
    by (simp add: get_acl_def Let_def)
qed

lemma evaluate_get_acl:
  assumes "\<And>xs. set (order xs) = set xs"
  shows "evaluate (fst (get_acl order k a)) (snd (get_acl order k a)) roles act \<longleftrightarrow>
    (\<forall>e \<in> set (fst (get_acl (\<lambda>xs. xs) k a)). action e = act \<and> role e \<in> set roles \<longrightarrow> allow e) \<and>
    (\<exists>e \<in> set (fst (get_acl (\<lambda>xs. xs) k a)). action e = act \<and> role e \<in> set roles \<and> allow e)"
  using get_acl_cases [OF assms, where k = k and a = a]
  by (cases "fst (get_acl order k a) = []") (auto simp: evaluate_def evaluate_loop_iff)

lemma can_write_event_iff:
  assumes "\<And>xs. set (ae_acl_order E xs) = set xs"
  shows "can_write_event E c p i \<longleftrightarrow> write_granted c p (ScopeEvent, i) (episode_write_role i \<in> set (p_roles p))"
  using evaluate_get_acl [OF assms, of "(ScopeEvent, i)" "c_acl c" "p_roles p" "''write''"]
    get_acl_cases(1) [OF assms, of "(ScopeEvent, i)" "c_acl c"]
  by (auto simp: can_write_event_def write_granted_def policy_entries_def write_denied_def list_ex_iff case_prod_beta)

lemma can_write_series_iff:
  assumes "\<And>xs. set (ae_acl_order E xs) = set xs"
  shows "can_write_series E c p i \<longleftrightarrow> write_granted c p (ScopeSeries, i) False"
  using evaluate_get_acl [OF assms, of "(ScopeSeries, i)" "c_acl c" "p_roles p" "''write''"]
  by (auto simp: can_write_series_def write_granted_def policy_entries_def case_prod_beta)

datatype write_target = Reads | Creates | EventTarget string | SeriesTarget string

fun call_target :: "admin_call \<Rightarrow> write_target" where
  "call_target PostEvent = Creates"
| "call_target PostSeries = Creates"
| "call_target (PutEventMetadata i) = EventTarget i"
| "call_target (PostEventAccess i) = EventTarget i"
| "call_target (PutEventAcl i) = EventTarget i"
| "call_target (DeleteEvent i) = EventTarget i"
| "call_target (PutSeriesMetadata i) = SeriesTarget i"
| "call_target (PostSeriesAccess i) = SeriesTarget i"
| "call_target (DeleteSeries i) = SeriesTarget i"
| "call_target _ = Reads"

definition may_change :: "catalog \<Rightarrow> principal \<Rightarrow> write_target \<Rightarrow> bool" where
  "may_change c p t =
     (case t of
        Reads \<Rightarrow> False
      | Creates \<Rightarrow> is_admin p
      | EventTarget i \<Rightarrow> live_event c i \<and> write_granted c p (ScopeEvent, i) (episode_write_role i \<in> set (p_roles p))
      | SeriesTarget i \<Rightarrow> live_series c i \<and> write_granted c p (ScopeSeries, i) False)"

lemma call_admin_unchanged:
  assumes "\<And>xs. set (ae_acl_order (ax_env X) xs) = set xs" and "\<not> may_change (catalog_of s) p (call_target call)"
  shows "snd (call_admin X fresh now rq p call s) = s"
  using assms(2) can_write_event_iff [OF assms(1)] can_write_series_iff [OF assms(1)]
  by (cases call)
     (auto simp: call_admin_def Let_def may_change_def event_new_def series_new_def can_create_def event_metadata_edit_def
       series_metadata_edit_def event_access_write_def series_access_write_def event_delete_def series_delete_def
       require_event_write_def require_series_write_def)

text \<open>C33: only an authorized principal changes anything through the admin interface: whatever request is
  served, either nothing at all has changed, or the caller is authenticated and is an administrator
  (for creating), or may write the live target under its stored policy, where an applicable deny defeats
  every allow and also the direct episode grant. Pages change nothing.\<close>

theorem admin_writes_authorized:
  assumes "serve_admin X fresh now r rq s = (reply, s')"
    and "\<And>xs. set (ae_acl_order (ax_env X) xs) = set xs" and "s' \<noteq> s"
  shows "\<exists>p info call. r = (p, info, True) \<and> admin_route (ar_method rq) (ar_path rq) = Some call \<and>
    may_change (catalog_of s) p (call_target call)"
proof -
  obtain p info ok where r: "r = (p, info, ok)" by (rule prod_cases3)
  obtain call where call: "admin_route (ar_method rq) (ar_path rq) = Some call" and "call \<noteq> GetMe" and ok
    and "call_admin X fresh now rq p call s = (reply, s')"
    using assms(1,3) by (auto simp: serve_admin_def auth_gate_def r split: option.splits admin_call.splits if_splits)
  then have "may_change (catalog_of s) p (call_target call)"
    using call_admin_unchanged [OF assms(2), where s = s and p = p and call = call and fresh = fresh and now = now and rq = rq] assms(3)
    by auto
  then show ?thesis using r call \<open>ok\<close> by simp
qed

section \<open>The access page\<close>

definition json_member :: "string \<Rightarrow> json \<Rightarrow> json option" where
  "json_member k j = (case j of JObj m \<Rightarrow> map_of m k | _ \<Rightarrow> None)"

text \<open>What the page shows for a role and an action.\<close>

definition shown :: "json \<Rightarrow> string \<Rightarrow> string \<Rightarrow> bool option" where
  "shown page rl act =
     (case Option.bind (Option.bind (json_member ''privileges'' page) (json_member rl)) (json_member act) of
        Some (JBool b) \<Rightarrow> Some b | _ \<Rightarrow> None)"

definition flags_of :: "role_access list \<Rightarrow> string \<Rightarrow> bool option \<times> bool option" where
  "flags_of rs rl = (case find (\<lambda>r. ra_role r = rl) rs of None \<Rightarrow> (None, None) | Some r \<Rightarrow> (ra_read r, ra_write r))"

fun joined :: "string \<Rightarrow> string \<Rightarrow> entry list \<Rightarrow> bool option \<Rightarrow> bool option" where
  "joined act rl [] f = f"
| "joined act rl (e # es) f = joined act rl es (if role e = rl \<and> action e = act then sticky f (allow e) else f)"

lemma flags_of_note:
  "flags_of (map (\<lambda>r. if ra_role r = role e then note_entry e r else r) rs) rl =
     (if rl = role e \<and> list_ex (\<lambda>r. ra_role r = rl) rs
      then (if action e = ''read'' then sticky (fst (flags_of rs rl)) (allow e) else fst (flags_of rs rl),
            if action e = ''write'' then sticky (snd (flags_of rs rl)) (allow e) else snd (flags_of rs rl))
      else flags_of rs rl)"
  by (induction rs) (auto simp: flags_of_def note_entry_def)

lemma flags_of_snoc:
  "flags_of (rs @ [\<lparr>ra_role = i, ra_read = None, ra_write = None\<rparr>]) rl = flags_of rs rl"
  by (induction rs) (auto simp: flags_of_def)

lemma block_flags:
  "flags_of (block_roles es rs) rl =
     (joined ''read'' rl es (fst (flags_of rs rl)), joined ''write'' rl es (snd (flags_of rs rl)))"
proof (induction es rs rule: block_roles.induct)
  case (2 e es rs)
  define rs1 where "rs1 = (if list_ex (\<lambda>r. ra_role r = role e) rs then rs
                 else rs @ [\<lparr>ra_role = role e, ra_read = None, ra_write = None\<rparr>])"
  have "flags_of rs1 rl = flags_of rs rl" by (simp add: rs1_def flags_of_snoc)
  moreover have "list_ex (\<lambda>r. ra_role r = role e) rs1" by (simp add: rs1_def)
  ultimately show ?case
    using 2 [OF rs1_def] by (auto simp: Let_def rs1_def [symmetric] flags_of_note)
qed simp

lemma joined_iff:
  "joined act rl es f =
     (if f = None \<and> \<not> (\<exists>e \<in> set es. role e = rl \<and> action e = act) then None
      else Some (f \<noteq> Some False \<and> (\<forall>e \<in> set es. role e = rl \<and> action e = act \<longrightarrow> allow e)))"
  by (induction es arbitrary: f) (auto simp: sticky_def split: option.splits)

lemma find_members:
  "map_of (map (\<lambda>r. (ra_role r, g r)) rs) rl = map_option g (find (\<lambda>r. ra_role r = rl) rs)"
  by (induction rs) auto

lemma shown_flags:
  assumes "act \<in> {''read'', ''write''}"
  shows "shown (access_block E c k) rl act =
    joined act rl (fst (get_acl (ae_acl_order E) k (c_acl c))) None"
proof -
  let ?rs = "block_roles (fst (get_acl (ae_acl_order E) k (c_acl c))) []"
  have "shown (access_block E c k) rl act = (if act = ''read'' then fst (flags_of ?rs rl) else snd (flags_of ?rs rl))"
    using assms
    by (auto simp: shown_def access_block_def case_prod_beta Let_def json_member_def find_members flags_of_def flag_member_def
        split: option.splits)
  then show ?thesis using assms block_flags [of "fst (get_acl (ae_acl_order E) k (c_acl c))" "[]" rl]
    by (auto simp: flags_of_def)
qed

text \<open>C36: what the access page shows is what is enforced: for either action, a principal is granted by the
  decision procedure exactly when one of its roles is shown as allowed and none is shown as denied, so
  a stored deny is never masked by an allow for the same role, and a role without entries shows nothing.\<close>

theorem access_page_is_the_decision:
  assumes "\<And>xs. set (ae_acl_order E xs) = set xs" and "act \<in> {''read'', ''write''}"
  shows "(case get_acl (ae_acl_order E) k (c_acl c) of (es, st) \<Rightarrow> evaluate es st roles act) \<longleftrightarrow>
    (\<exists>r \<in> set roles. shown (access_block E c k) r act = Some True) \<and>
    (\<forall>r \<in> set roles. shown (access_block E c k) r act \<noteq> Some False)"
  using evaluate_get_acl [OF assms(1), of k "c_acl c" roles act] get_acl_cases(1) [OF assms(1), of k "c_acl c"]
  by (auto simp: case_prod_beta shown_flags [OF assms(2)] joined_iff split: if_splits)

section \<open>Instances\<close>

definition demo_admin_env :: admin_env where
  "demo_admin_env = \<lparr>ae_query = demo_env, ae_acl_order = (\<lambda>xs. xs), ae_upper = (\<lambda>n. n)\<rparr>"

text \<open>Three documents are parsed: an edit of two fields, an access list and a new event.\<close>

definition edit_doc :: json where
  "edit_doc = JArr [JObj [(''flavor'', JStr ''dublincore/episode''), (''fields'', JArr
     [JObj [(''id'', JStr ''title''), (''value'', JStr ''B'')],
      JObj [(''id'', JStr ''creator''), (''value'', JArr [JStr ''C''])]])]]"

definition demo_json :: "string \<Rightarrow> json option" where
  "demo_json s = (if s = ''edit'' then Some edit_doc else if s = ''series'' then Some (JObj []) else None)"

definition demo_context :: admin_context where
  "demo_context = \<lparr>ax_env = demo_admin_env, ax_deposit = demo_deposit_env, ax_json = demo_json, ax_definitions = None\<rparr>"

definition demo_call :: "string \<Rightarrow> string list \<Rightarrow> (string \<times> string) list \<Rightarrow> admin_request" where
  "demo_call m path form = \<lparr>ar_method = m, ar_path = path, ar_query = Map.empty, ar_form = Some (map_of form), ar_body = None\<rparr>"

definition demo_archive_state :: "catalog \<Rightarrow> int deposit_state" where
  "demo_archive_state c = with_catalog demo_deposit_state c"

lemma series_kept: "c_series (project_series i c) = c_series c"
  using project_series_only [of i c] by auto

lemma demo_created:
  "serve_admin demo_context (\<lambda>n. ''s'') 9 (\<lparr>p_roles = [''ROLE_ADMIN'']\<rparr>, info, True)
     (demo_call ''POST'' [''admin-ng'', ''series'', ''new''] [(''metadata'', ''series'')]) demo_deposit_state =
   (Written (Created ''s''), with_catalog demo_deposit_state
      (put_series ''s'' (empty_series\<lparr>sm_created := Some 9\<rparr>) (empty_catalog 7)))"
  by (simp add: serve_admin_def auth_gate_def demo_call_def admin_route_def call_admin_def demo_context_def series_new_def can_create_def
      is_admin_def admin_roles_def go_get_def demo_json_def dec_new_series_def dec_struct_def catalog_of_def
      demo_deposit_state_def fields_of_def Let_def)

theorem admin_writes_authorized_witness:
  "\<exists>call. admin_route ''POST'' [''admin-ng'', ''series'', ''new''] = Some call \<and>
     may_change (catalog_of demo_deposit_state) \<lparr>p_roles = [''ROLE_ADMIN'']\<rparr> (call_target call)"
proof -
  have "c_series (catalog_of (with_catalog demo_deposit_state
      (put_series ''s'' (empty_series\<lparr>sm_created := Some 9\<rparr>) (empty_catalog 7)))) \<noteq> c_series (catalog_of demo_deposit_state)"
    by (simp add: catalog_of_def with_catalog_def on_deposit_def demo_deposit_state_def empty_catalog_def put_series_def
        series_kept)
  then show ?thesis
    using admin_writes_authorized [OF demo_created] by (force simp: demo_context_def demo_admin_env_def demo_call_def)
qed

definition demo_acl_catalog :: catalog where
  "demo_acl_catalog = (empty_catalog 0)\<lparr>c_acl := \<lparr>acl_policy = [(ScopeEvent, ''e'')],
     acl_entry = [((ScopeEvent, ''e''), demo_entry ''A'' True), ((ScopeEvent, ''e''), demo_entry ''A'' False)]\<rparr>\<rparr>"

lemma demo_block:
  "shown (access_block demo_admin_env demo_acl_catalog (ScopeEvent, ''e'')) ''A'' ''read'' = Some False"
  by code_simp

theorem access_page_is_the_decision_witness:
  "\<not> (case get_acl (\<lambda>xs. xs) (ScopeEvent, ''e'') (c_acl demo_acl_catalog) of (es, st) \<Rightarrow> evaluate es st [''A''] ''read'')"
  using access_page_is_the_decision [where E = demo_admin_env and act = "''read''" and k = "(ScopeEvent, ''e'')"
     and c = demo_acl_catalog and roles = "[''A'']"] demo_block
  by (simp add: demo_admin_env_def)

section \<open>Editing\<close>

datatype dc_value = Text string | Texts "string list" | Time "int option"

definition dc_fields :: "(string \<times> (event_dc \<Rightarrow> dc_value)) list" where
  "dc_fields =
     [(''title'', \<lambda>(t, s, md). Text t), (''subject'', \<lambda>(t, s, md). Texts (m_subjects md)),
      (''description'', \<lambda>(t, s, md). Text (m_description md)), (''language'', \<lambda>(t, s, md). Text (m_language md)),
      (''license'', \<lambda>(t, s, md). Text (m_license md)), (''isPartOf'', \<lambda>(t, s, md). Text (m_series md)),
      (''creator'', \<lambda>(t, s, md). Texts (m_creators md)), (''contributor'', \<lambda>(t, s, md). Texts (m_contributors md)),
      (''location'', \<lambda>(t, s, md). Text (m_location md)), (''startDate'', \<lambda>(t, s, md). Time s)]"

text \<open>What a sent field says; \<open>None\<close> is a field that says nothing: an empty start date.\<close>

definition said :: "text_env \<Rightarrow> wizard_field \<Rightarrow> dc_value option" where
  "said T f =
     (let v = wizard_string (wf_value f)
      in if wf_id f = ''startDate'' then (if v = [] then None else Some (Time (rfc3339 T v)))
         else Some (if wf_id f = ''subject'' then Texts (split_subjects v)
                    else if wf_id f \<in> {''creator'', ''contributor''} then Texts (wizard_strings (wf_value f)) else Text v))"

text \<open>The value of a member after an edit: what the last field that speaks of it says, or what it was.\<close>

definition expected :: "text_env \<Rightarrow> wizard_field list \<Rightarrow> string \<Rightarrow> dc_value \<Rightarrow> dc_value" where
  "expected T fs k old =
     fold (\<lambda>f v. if wf_id f = k then (case said T f of None \<Rightarrow> v | Some w \<Rightarrow> w) else v) fs old"

definition follows :: "text_env \<Rightarrow> wizard_field \<Rightarrow> event_dc \<Rightarrow> event_dc \<Rightarrow> bool" where
  "follows T f d d' = list_all (\<lambda>(k, get). get d' =
     (if wf_id f = k then (case said T f of None \<Rightarrow> get d | Some w \<Rightarrow> w) else get d)) dc_fields"

lemma follows_known:
  assumes "wf_id f = i" and "i \<in> set (map fst dc_fields)" and "apply_event_field T f (t, s, md) = Some d'"
  shows "follows T f (t, s, md) d'"
proof -
  have "i = ''title'' \<or> i = ''subject'' \<or> i = ''description'' \<or> i = ''language'' \<or> i = ''license'' \<or> i = ''isPartOf'' \<or>
    i = ''creator'' \<or> i = ''contributor'' \<or> i = ''location'' \<or> i = ''startDate''"
    using assms(2) by (simp add: dc_fields_def)
  then show ?thesis
    by (elim disjE; use assms(1,3) in \<open>simp add: follows_def dc_fields_def apply_event_field_def said_def Let_def;
        force split: if_splits option.splits\<close>)
qed

lemma follows_other:
  assumes "wf_id f \<notin> set (map fst dc_fields)" and "apply_event_field T f (t, s, md) = Some d'"
  shows "follows T f (t, s, md) d'"
  using assms by (simp add: follows_def dc_fields_def apply_event_field_def Let_def)

lemma apply_event_field_value:
  assumes "apply_event_field T f d = Some d'" and "(k, get) \<in> set dc_fields"
  shows "get d' = (if wf_id f = k then (case said T f of None \<Rightarrow> get d | Some w \<Rightarrow> w) else get d)"
proof -
  have "follows T f d d'"
    using follows_known [OF refl] follows_other assms(1) by (cases d) blast
  then show ?thesis using assms(2) by (auto simp: follows_def list_all_iff)
qed

lemma apply_event_fields_value:
  "apply_event_fields T fs d = Some d' \<Longrightarrow> (k, get) \<in> set dc_fields \<Longrightarrow> get d' = expected T fs k (get d)"
proof (induction T fs d rule: apply_event_fields.induct)
  case (2 T f fs d)
  then show ?case
    using apply_event_field_value [of T f d _ k get] by (auto simp: expected_def split: option.splits)
qed (simp add: expected_def)

lemma apply_event_fields_fixed:
  "apply_event_fields T fs (t, s, md) = Some (t', s', md') \<Longrightarrow> m_created md' = m_created md \<and> m_status md' = m_status md"
proof (induction T fs "(t, s, md)" arbitrary: t s md rule: apply_event_fields.induct)
  case (2 T f fs t s md)
  obtain t1 s1 md1 where 1: "apply_event_field T f (t, s, md) = Some (t1, s1, md1)"
    and r: "apply_event_fields T fs (t1, s1, md1) = Some (t', s', md')"
    using 2(2) by (auto split: option.splits)
  from 1 have "m_created md1 = m_created md \<and> m_status md1 = m_status md"
    by (auto simp: apply_event_field_def Let_def split: if_splits option.splits)
  then show ?case using 2(1) [OF 1 r] by simp
qed simp

lemma live_event_dc: "live_event c i \<Longrightarrow> \<exists>d. get_event_dc i c = Inr d"
  by (auto simp: live_event_def get_event_dc_def Let_def split: option.splits)

lemma live_event_iff: "live_event c i \<longleftrightarrow> map_option mp_deleted (map_of (c_mp c) i) = Some None"
  by (auto simp: live_event_def split: option.splits)

lemma set_event_dc_frame:
  assumes "set_event_dc i title start md c = Inr c'"
  shows "c_acl c' = c_acl c" and "c_el c' = c_el c" and "c_pub c' = c_pub c"
    and "j \<noteq> i \<Longrightarrow> get_event_dc j c' = get_event_dc j c"
proof -
  obtain md' mp' where pe: "project_event i (c\<lparr>c_md := AList.update i md' (c_md c), c_mp := mp'\<rparr>) = Inr c'"
    and mp: "\<And>j. j \<noteq> i \<Longrightarrow> map_of mp' j = map_of (c_mp c) j"
    using assms by (auto simp: set_event_dc_def Let_def table_simps split: option.splits if_splits)
  note f = project_event_frame [OF pe]
  show "c_acl c' = c_acl c" "c_el c' = c_el c" "c_pub c' = c_pub c" by (simp_all add: f)
  show "get_event_dc j c' = get_event_dc j c" if "j \<noteq> i"
    using that mp by (cases "map_of (c_mp c) j") (simp_all add: get_event_dc_def f md_of_def table_simps)
qed

lemma catalog_of_with [simp]: "catalog_of (with_catalog s c) = c"
  by (simp add: catalog_of_def with_catalog_def on_deposit_def)

lemma store_with [simp]: "ds_store (with_catalog s c) = ds_store s"
  by (simp add: with_catalog_def on_deposit_def)

text \<open>C35: an edit of an event's metadata does exactly what the form says. When it is answered with success, every
  member of the metadata carries what the last field sent for it says, or what it carried before when none
  was sent (a start date sent empty says nothing); creation date, workflow status, policy, elements,
  publications and the metadata of every other event are as before. Any other answer, a date that does not
  parse included, means nothing was written.\<close>

theorem metadata_edit_is_exact:
  "case event_metadata_edit E T js p i form s of
     (Done, s') \<Rightarrow>
       (\<exists>cats t st md t' st' md'. sent_catalogs js form = Some cats \<and>
          get_event_dc i (catalog_of s) = Inr (t, st, md) \<and> get_event_dc i (catalog_of s') = Inr (t', st', md') \<and>
          list_all (\<lambda>(k, get). get (t', st', md') = expected T (fields_of ''dublincore/episode'' cats) k (get (t, st, md))) dc_fields \<and>
          m_created md' = m_created md \<and> m_status md' = m_status md) \<and>
       (\<forall>j. j \<noteq> i \<longrightarrow> get_event_dc j (catalog_of s') = get_event_dc j (catalog_of s)) \<and>
       c_acl (catalog_of s') = c_acl (catalog_of s) \<and> c_el (catalog_of s') = c_el (catalog_of s) \<and>
       c_pub (catalog_of s') = c_pub (catalog_of s) \<and> ds_store s' = ds_store s
   | (a, s') \<Rightarrow> s' = s"
proof (cases "\<exists>cats t st md t' st' md' c'. require_event_write E (catalog_of s) p i = None \<and> sent_catalogs js form = Some cats \<and>
      get_event_dc i (catalog_of s) = Inr (t, st, md) \<and>
      apply_event_fields T (fields_of ''dublincore/episode'' cats) (t, st, md) = Some (t', st', md') \<and>
      set_event_dc i t' st' md' (catalog_of s) = Inr c'")
  case True
  then obtain cats t st md t' st' md' c' where req: "require_event_write E (catalog_of s) p i = None"
    and cats: "sent_catalogs js form = Some cats" and old: "get_event_dc i (catalog_of s) = Inr (t, st, md)"
    and ap: "apply_event_fields T (fields_of ''dublincore/episode'' cats) (t, st, md) = Some (t', st', md')"
    and set: "set_event_dc i t' st' md' (catalog_of s) = Inr c'" by blast
  have run: "event_metadata_edit E T js p i form s = (Done, with_catalog s c')"
    by (simp add: event_metadata_edit_def req cats old ap set commit_def)
  have "live_event (catalog_of s) i" using req by (simp add: require_event_write_def split: if_splits)
  then have new: "get_event_dc i c' = Inr (t', st', md')" by (intro event_dc_round_trip [OF set]) (simp add: live_event_iff)
  show ?thesis
    using cats old new apply_event_fields_value [OF ap] apply_event_fields_fixed [OF ap] set_event_dc_frame [OF set]
    by (simp add: run list_all_iff split_beta)
next
  case False
  then have "snd (event_metadata_edit E T js p i form s) = s \<and> fst (event_metadata_edit E T js p i form s) \<noteq> Done"
    by (auto simp: event_metadata_edit_def commit_def split: option.splits sum.splits)
  then show ?thesis by (auto split: prod.splits written.splits)
qed

definition demo_edit_state :: "int deposit_state" where
  "demo_edit_state = with_catalog demo_deposit_state demo_live"

abbreviation demo_edit :: "written \<times> int deposit_state" where
  "demo_edit \<equiv> event_metadata_edit demo_admin_env demo_texts demo_json \<lparr>p_roles = [''ROLE_ADMIN'']\<rparr> ''e1''
     (Some [''metadata'' \<mapsto> ''edit'']) demo_edit_state"

definition edit_sent :: "wizard_field list" where
  "edit_sent = [\<lparr>wf_id = ''title'', wf_value = Some (JStr ''B'')\<rparr>, \<lparr>wf_id = ''creator'', wf_value = Some (JArr [JStr ''C''])\<rparr>]"

lemma demo_edit_evals:
  "fst demo_edit = Done"
  "sent_catalogs demo_json (Some [''metadata'' \<mapsto> ''edit'']) = Some [\<lparr>wz_flavor = ''dublincore/episode'', wz_fields = edit_sent\<rparr>]"
  "map_option (\<lambda>(t, s, md). (t, s, m_series md)) (case get_event_dc ''e1'' demo_live of Inr d \<Rightarrow> Some d | Inl e \<Rightarrow> None) =
     Some (''t'', None, ''A'')"
  by code_simp+

lemma demo_edit_expected:
  "expected demo_texts edit_sent ''title'' v = Text ''B''" "expected demo_texts edit_sent ''creator'' v = Texts [''C'']"
  "expected demo_texts edit_sent ''isPartOf'' v = v"
  by (simp_all add: expected_def edit_sent_def said_def wizard_string_def wizard_strings_def dec_string_def)

theorem metadata_edit_is_exact_witness:
  "\<exists>s' st md. demo_edit = (Done, s') \<and> get_event_dc ''e1'' (catalog_of s') = Inr (''B'', st, md) \<and>
     m_creators md = [''C''] \<and> m_series md = ''A''"
proof -
  obtain s' where s': "demo_edit = (Done, s')" using demo_edit_evals(1) by (cases demo_edit) simp
  have st: "catalog_of demo_edit_state = demo_live" by (simp add: demo_edit_state_def)
  have fs: "fields_of ''dublincore/episode'' [\<lparr>wz_flavor = ''dublincore/episode'', wz_fields = edit_sent\<rparr>] = edit_sent"
    by (simp add: fields_of_def)
  from metadata_edit_is_exact [where E = demo_admin_env and T = demo_texts and js = demo_json
      and p = "\<lparr>p_roles = [''ROLE_ADMIN'']\<rparr>" and i = "''e1''" and form = "Some [''metadata'' \<mapsto> ''edit'']" and s = demo_edit_state]
  show ?thesis
    unfolding s' demo_edit_evals(2) st using demo_edit_evals(3)
    by (auto simp: fs demo_edit_expected dc_fields_def)
qed

end
