(* ===== verification/AdminTypes.thy ===== *)
theory AdminTypes
  imports AdminClaims
begin

section \<open>The shape of the pages\<close>

text \<open>JSON types: an object type lists its members, required or not, and allows no others; a map has any keys.\<close>

datatype jty = TString | TBool | TNumber | TEither jty jty | TArray jty | TMap jty | TObject "(string \<times> bool \<times> jty) list"

fun has_type :: "jty \<Rightarrow> json \<Rightarrow> bool" and has_members :: "(string \<times> bool \<times> jty) list \<Rightarrow> (string \<times> json) list \<Rightarrow> bool" where
  "has_type TString v = (case v of JStr s \<Rightarrow> True | _ \<Rightarrow> False)"
| "has_type TBool v = (case v of JBool b \<Rightarrow> True | _ \<Rightarrow> False)"
| "has_type TNumber v = (case v of JNum n \<Rightarrow> True | _ \<Rightarrow> False)"
| "has_type (TEither t u) v = (has_type t v \<or> has_type u v)"
| "has_type (TArray t) v = (case v of JArr vs \<Rightarrow> list_all (has_type t) vs | _ \<Rightarrow> False)"
| "has_type (TMap t) v = (case v of JObj ms \<Rightarrow> distinct (map fst ms) \<and> list_all (\<lambda>m. has_type t (snd m)) ms | _ \<Rightarrow> False)"
| "has_type (TObject ts) v =
     (case v of JObj ms \<Rightarrow> distinct (map fst ms) \<and> set (map fst ms) \<subseteq> set (map fst ts) \<and> has_members ts ms | _ \<Rightarrow> False)"
| "has_members [] ms = True"
| "has_members ((k, req, t) # ts) ms =
     ((case map_of ms k of None \<Rightarrow> \<not> req | Some v \<Rightarrow> has_type t v) \<and> has_members ts ms)"

abbreviation need :: "string \<Rightarrow> jty \<Rightarrow> string \<times> bool \<times> jty" where
  "need k t \<equiv> (k, True, t)"

definition listing_type :: "jty \<Rightarrow> jty" where
  "listing_type t = TObject [need ''total'' TNumber, need ''count'' TNumber, need ''limit'' TNumber, need ''offset'' TNumber,
     need ''results'' (TArray t)]"

definition publications_type :: jty where
  "publications_type = TArray (TObject [need ''id'' TString, need ''name'' TString, need ''url'' TString])"

definition event_row_type :: jty where
  "event_row_type = TObject ([need ''id'' TString, need ''title'' TString, need ''source'' TString,
     need ''presenters'' (TArray TString), need ''location'' TString, need ''start_date'' TString, need ''end_date'' TString,
     need ''technical_start'' TString, need ''technical_end'' TString, need ''technical_presenters'' (TArray TString),
     need ''language'' TString, need ''language_translation_key'' TString, need ''event_status'' TString,
     need ''displayable_status'' TString, need ''workflow_state'' TString, need ''has_comments'' TBool,
     need ''has_open_comments'' TBool, need ''needs_cutting'' TBool, need ''has_preview'' TBool, need ''published'' TBool,
     need ''publications'' publications_type, (''series'', False, TObject [need ''id'' TString, need ''title'' TString])])"

definition series_row_type :: jty where
  "series_row_type = TObject [need ''id'' TString, need ''title'' TString, need ''organizers'' (TArray TString),
     need ''contributors'' (TArray TString), need ''createdBy'' TString, need ''creation_date'' TString]"

definition field_type :: jty where
  "field_type = TObject [need ''id'' TString, need ''label'' TString, need ''type'' TString, need ''readOnly'' TBool,
     need ''required'' TBool, need ''value'' (TEither TString (TArray TString))]"

definition metadata_type :: jty where
  "metadata_type = TArray (TObject [need ''flavor'' TString, need ''title'' TString, need ''fields'' (TArray field_type)])"

definition block_type :: jty where
  "block_type = TObject [need ''acl_state'' TString,
     need ''privileges'' (TMap (TObject [(''read'', False, TBool), (''write'', False, TBool)])),
     need ''acl'' (TArray (TObject [need ''role'' TString, need ''read'' TBool, need ''write'' TBool, need ''actions'' (TArray TString)]))]"

definition access_type :: "string \<Rightarrow> jty" where
  "access_type k = TObject [need k block_type, need ''system_acls'' (TArray (TObject [need ''name'' TString]))]"

definition me_type :: jty where
  "me_type = TObject [need ''org'' (TObject [need ''id'' TString, need ''name'' TString, need ''adminRole'' TString,
       need ''anonymousRole'' TString, need ''properties'' (TMap TString)]),
     need ''roles'' (TArray TString), need ''userRole'' TString,
     need ''user'' (TObject [need ''provider'' TString, need ''username'' TString, need ''name'' TString, need ''email'' TString])]"

fun page_type :: "admin_call \<Rightarrow> jty" where
  "page_type GetMe = me_type"
| "page_type GetEvents = listing_type event_row_type"
| "page_type GetSeries = listing_type series_row_type"
| "page_type (GetEventAccess i) = access_type ''episode_access''"
| "page_type (GetSeriesAccess i) = access_type ''series_access''"
| "page_type (GetEventPublications i) =
     TObject [need ''publications'' publications_type, need ''start-date'' TString, need ''end-date'' TString]"
| "page_type _ = metadata_type"

lemma type_rules [simp]:
  "has_type TString (JStr s)" "has_type TBool (JBool b)" "has_type TNumber (JNum n)"
  "has_type (TArray t) (JArr vs) = list_all (has_type t) vs"
  "has_type (TMap t) (JObj ms) = (distinct (map fst ms) \<and> list_all (\<lambda>m. has_type t (snd m)) ms)"
  "has_type (TObject ts) (JObj ms) = (distinct (map fst ms) \<and> set (map fst ms) \<subseteq> set (map fst ts) \<and> has_members ts ms)"
  by simp_all

declare has_type.simps [simp del]

lemma strings_typed [simp]: "has_type (TArray TString) (jstrs xs)"
  by (induction xs) (simp_all add: jstrs_def)

lemma number_typed [simp]: "has_type TNumber (jint n)"
  by (simp add: jint_def)

lemma either_typed [simp]: "has_type (TEither t u) v = (has_type t v \<or> has_type u v)"
  by (simp add: has_type.simps)

lemma publications_typed [simp]: "has_type publications_type (publications_json i b)"
  by (simp add: publications_type_def publications_json_def)

lemma event_row_typed [simp]: "has_type event_row_type (event_row_json e)"
  by (cases "ed_series e = []") (simp_all add: event_row_type_def event_row_json_def Let_def)

lemma series_row_typed [simp]: "has_type series_row_type (series_row_json e)"
  by (simp add: series_row_type_def series_row_json_def)

lemma page_typed: "list_all (has_type t) rows \<Longrightarrow> has_type (listing_type t) (page_json n rows l k)"
  by (simp add: listing_type_def page_json_def)

lemma field_typed [simp]: "has_type TString v \<or> has_type (TArray TString) v \<Longrightarrow> has_type field_type (field_json i l v ty r)"
  by (simp add: field_type_def field_json_def)

lemma catalog_typed [simp]: "list_all (has_type field_type) fs \<Longrightarrow> has_type metadata_type (catalog_json fl ti fs)"
  by (simp add: metadata_type_def catalog_json_def)

lemma noted_roles: "map ra_role (map (\<lambda>r. if ra_role r = role e then note_entry e r else r) rs) = map ra_role rs"
  by (induction rs) (simp_all add: note_entry_def)

lemma block_roles_distinct: "distinct (map ra_role rs) \<Longrightarrow> distinct (map ra_role (block_roles es rs))"
proof (induction es rs rule: block_roles.induct)
  case (2 e es rs)
  define rs1 where "rs1 = (if list_ex (\<lambda>r. ra_role r = role e) rs then rs
                 else rs @ [\<lparr>ra_role = role e, ra_read = None, ra_write = None\<rparr>])"
  have "distinct (map ra_role rs1)" using 2(2) by (auto simp: rs1_def list_ex_iff)
  then show ?case using 2(1) [OF rs1_def] by (simp only: noted_roles block_roles.simps Let_def rs1_def [symmetric])
qed simp

lemma block_typed [simp]: "has_type block_type (access_block E c k)"
proof -
  obtain es st where g: "get_acl (ae_acl_order E) k (c_acl c) = (es, st)" by (rule prod.exhaust)
  let ?rs = "block_roles es []"
  have d: "distinct (map (ra_role) ?rs)" by (rule block_roles_distinct) simp
  have "has_type (TObject [(''read'', False, TBool), (''write'', False, TBool)])
      (JObj (flag_member ''read'' a @ flag_member ''write'' b))" for a b
    by (cases a; cases b) (simp_all add: flag_member_def)
  then show ?thesis using d
    by (simp add: block_type_def access_block_def g Let_def list_all_iff comp_def)
qed

definition page_ok :: "jty \<Rightarrow> json answer \<Rightarrow> bool" where
  "page_ok t a = (case a of Refused n \<Rightarrow> True | Answer v \<Rightarrow> has_type t v \<and>
     (case v of JObj ms \<Rightarrow> (case map_of ms ''results'' of Some (JArr rows) \<Rightarrow> map_of ms ''count'' = Some (jint (int (length rows)))
                         | _ \<Rightarrow> True) | _ \<Rightarrow> True))"

lemma results_typed:
  assumes "list_all (has_type t) rows"
  shows "page_ok (listing_type t) (Answer (page_json n rows l k))"
  using page_typed [OF assms] by (simp add: page_ok_def) (simp add: page_json_def)

lemma other_typed:
  "has_type t (JObj ms) \<Longrightarrow> map_of ms ''results'' = None \<Longrightarrow> page_ok t (Answer (JObj ms))"
  by (simp add: page_ok_def)

lemma metadata_page_typed: "list_all (has_type field_type) fs \<Longrightarrow> page_ok metadata_type (Answer (catalog_json fl ti fs))"
  using catalog_typed [of fs fl ti] by (simp add: page_ok_def) (simp add: catalog_json_def)

lemma refused_typed [simp]: "page_ok t (Refused n)"
  by (simp add: page_ok_def)

lemma me_page: "page_ok me_type (me_json E r)"
  by (auto simp: me_json_def me_type_def Let_def intro!: other_typed split: prod.split)

lemma events_page: "page_ok (listing_type event_row_type) (admin_events E c p q)"
  by (auto simp: admin_events_def Let_def list_all_iff intro!: results_typed split: prod.split sum.split)

lemma series_page: "page_ok (listing_type series_row_type) (admin_series E c p q)"
  by (auto simp: admin_series_def Let_def list_all_iff intro!: results_typed split: sum.splits)

lemma metadata_page: "page_ok metadata_type (event_metadata E c p i)"
  by (auto simp: event_metadata_def intro!: metadata_page_typed split: sum.split)

lemma series_metadata_typed: "page_ok metadata_type (series_metadata_page c p i)"
  by (auto simp: series_metadata_page_def intro!: metadata_page_typed split: sum.split)

lemma system_acls_typed [simp]: "has_type (TArray (TObject [need ''name'' TString])) system_acls"
  by (simp add: system_acls_def)

lemma access_page: "page_ok (access_type ''episode_access'') (event_access E c p i)"
  by (auto simp: event_access_def access_type_def intro!: other_typed)

lemma series_access_page: "page_ok (access_type ''series_access'') (series_access E c p i)"
  by (auto simp: series_access_def access_type_def intro!: other_typed)

lemma publications_page: "page_ok (page_type (GetEventPublications i)) (event_publications E c p i)"
  by (auto simp: event_publications_def intro!: other_typed split: sum.split)

lemma call_typed: "fst (call_admin X fresh now rq p call s) = Page a \<Longrightarrow> page_ok (page_type call) a"
  using events_page series_page metadata_page series_metadata_typed access_page series_access_page publications_page
  by (cases call) (auto simp: call_admin_def Let_def split: prod.splits simp del: page_type.simps(6))

text \<open>C37: every page has its type. Whatever is asked of the admin interface, in whatever state and by whomever, an
  answered page is the JSON value the client of that endpoint reads: the members it relies on are there
  with their types, at most the optional ones are missing, no others appear, no member name occurs
  twice, and a page of a list counts its rows.\<close>

theorem pages_have_their_type:
  assumes "serve_admin X fresh now r rq s = (Page (Answer v), s')"
  shows "\<exists>call. admin_route (ar_method rq) (ar_path rq) = Some call \<and> has_type (page_type call) v \<and>
    (case v of JObj ms \<Rightarrow> (case map_of ms ''results'' of Some (JArr rows) \<Rightarrow> map_of ms ''count'' = Some (jint (int (length rows)))
                         | _ \<Rightarrow> True) | _ \<Rightarrow> True)"
proof -
  obtain p info ok where r: "r = (p, info, ok)" by (rule prod_cases3)
  obtain call where call: "admin_route (ar_method rq) (ar_path rq) = Some call"
    using assms by (auto simp: serve_admin_def split: option.splits)
  have "page_ok (page_type call) (Answer v)"
  proof (cases "call = GetMe")
    case True
    then show ?thesis using assms call me_page [of "ax_env X" r] by (simp add: serve_admin_def)
  next
    case False
    then have "call_admin X fresh now rq p call s = (Page (Answer v), s')"
      using assms call by (cases call) (auto simp: serve_admin_def auth_gate_def r split: if_splits)
    then show ?thesis using call_typed [of X fresh now rq p call s] by simp
  qed
  then show ?thesis using call by (auto simp: page_ok_def)
qed

definition demo_page :: "admin_reply \<times> int deposit_state" where
  "demo_page = serve_admin demo_context (\<lambda>n. ''s'') 9 (\<lparr>p_roles = [''ROLE_ADMIN'']\<rparr>, \<lparr>ai_username = ''r'', ai_method = Anonymous\<rparr>, True)
     (demo_call ''GET'' [''admin-ng'', ''event'', ''e1'', ''access.json''] []) demo_edit_state"

lemma demo_page_answered: "case fst demo_page of Page (Answer v) \<Rightarrow> True | _ \<Rightarrow> False"
  by code_simp

theorem pages_have_their_type_witness:
  "\<exists>v s'. demo_page = (Page (Answer v), s') \<and> has_type (page_type (GetEventAccess ''e1'')) v"
proof -
  obtain v s' where v: "demo_page = (Page (Answer v), s')"
    using demo_page_answered that [of _ "snd demo_page"]
    by (auto simp: prod_eq_iff split: admin_reply.splits answer.splits)
  show ?thesis
    using v pages_have_their_type [OF v [unfolded demo_page_def]] by (auto simp: demo_call_def admin_route_def)
qed

end
