(* ===== verification/AdminCreate.thy ===== *)
theory AdminCreate
  imports AdminClaims
begin

section \<open>Creating an event\<close>

definition files_of :: "part list \<Rightarrow> part list" where
  "files_of ps = filter (\<lambda>p. pt_filename p \<noteq> []) ps"

definition metadata_field :: "part list \<Rightarrow> string" where
  "metadata_field ps = fold (\<lambda>p m. if pt_filename p = [] \<and> pt_name p = ''metadata'' then take field_limit (pt_body p) else m) ps []"

definition upload_of :: "deposit_env \<Rightarrow> part \<Rightarrow> upload" where
  "upload_of M p = \<lparr>up_field = pt_name p, up_filename = pt_filename p,
     up_type = (if pt_type p = [] then ''application/octet-stream'' else pt_type p), up_sha = de_sha256 M (pt_body p)\<rparr>"

lemma stash_parts_result:
  "stash_parts M ps (us, meta, st) =
     (us @ map (upload_of M) (files_of ps),
      fold (\<lambda>p m. if pt_filename p = [] \<and> pt_name p = ''metadata'' then take field_limit (pt_body p) else m) ps meta,
      fold (\<lambda>p st. snd (put_file (de_sha256 M) (pt_body p) st)) (files_of ps) st)"
proof (induction ps arbitrary: us meta st)
  case (Cons p ps)
  have "stash_upload M (pt_body p) st = (de_sha256 M (pt_body p), snd (put_file (de_sha256 M) (pt_body p) st))" for st
    by (simp add: stash_upload_def prod_eq_iff put_file_digest)
  then show ?case using Cons by (simp add: files_of_def upload_of_def)
qed (simp add: files_of_def)

lemma stashed_clean:
  assumes "clean_store M st B" and "pt_body ` set ps \<subseteq> B"
  shows "clean_store M (fold (\<lambda>p st. snd (put_file (de_sha256 M) (pt_body p) st)) ps st) B \<and>
    (\<forall>h b. cas_get st h = Some b \<longrightarrow> cas_get (fold (\<lambda>p st. snd (put_file (de_sha256 M) (pt_body p) st)) ps st) h = Some b) \<and>
    (\<forall>p \<in> set ps. cas_get (fold (\<lambda>p st. snd (put_file (de_sha256 M) (pt_body p) st)) ps st) (de_sha256 M (pt_body p)) = Some (pt_body p))"
  using assms
proof (induction ps arbitrary: st)
  case (Cons p ps)
  then have b: "pt_body p \<in> B" and ps: "pt_body ` set ps \<subseteq> B" by auto
  show ?case using Cons.IH [OF clean_put(1) [OF Cons.prems(1) b] ps] clean_put(2) [OF Cons.prems(1) b] put_keeps
    by simp
qed simp

lemma resolve_uploaded:
  assumes clean: "clean_store M st B" and B: "pt_body ` set ps \<subseteq> B" and p: "p \<in> set ps"
    and stored: "\<forall>p \<in> set ps. cas_get st (de_sha256 M (pt_body p)) = Some (pt_body p)"
  shows "resolve_uploads (map (upload_of M) ps) st (upload_url (upload_of M p)) = Some (pt_body p)"
proof -
  let ?t = "rev (map (\<lambda>u. (upload_url u, up_sha u)) (map (upload_of M) ps))"
  have "(upload_url (upload_of M p), up_sha (upload_of M p)) \<in> set ?t" using p by auto
  then obtain sha where sha: "map_of ?t (upload_url (upload_of M p)) = Some sha" by (blast dest: weak_map_of_SomeI)
  then obtain q where q: "q \<in> set ps" "upload_url (upload_of M q) = upload_url (upload_of M p)" "sha = de_sha256 M (pt_body q)"
    by (force dest: map_of_SomeD simp: upload_of_def)
  have len: "length (de_sha256 M (pt_body x)) = 64" if "x \<in> set ps" for x
    using clean B that by (auto simp: clean_store_def)
  have "de_sha256 M (pt_body q) = de_sha256 M (pt_body p)"
    using q(2) len [OF p] len [OF q(1)] by (simp add: upload_url_def upload_of_def append_eq_append_conv)
  then show ?thesis using sha q stored p by (simp add: resolve_uploads_def)
qed

lemma track_elements_of:
  "track_elements fresh os n us = Some els \<Longrightarrow> length els = length us \<and> (\<forall>k < length us. \<exists>fl.
     option_flavor os (option_name (up_field (us ! k))) = Some fl \<and>
     els ! k = \<lparr>me_id = fresh (n + k), me_kind = ''track'', me_flavor = fl, me_mimetype = up_type (us ! k),
          me_url = upload_url (us ! k), me_md5 = [], me_tags = []\<rparr>)"
proof (induction us arbitrary: n els)
  case (Cons u us)
  then obtain fl es where fl: "option_flavor os (option_name (up_field u)) = Some fl"
    and es: "track_elements fresh os (Suc n) us = Some es"
    and els: "els = \<lparr>me_id = fresh n, me_kind = ''track'', me_flavor = fl, me_mimetype = up_type u,
          me_url = upload_url u, me_md5 = [], me_tags = []\<rparr> # es"
    by (auto split: option.splits)
  show ?case using Cons.IH [OF es] fl els by (auto simp: nth_Cons split: nat.split)
qed simp

text \<open>Materialising fresh elements records each of them over its bytes.\<close>

lemma materialise_fresh_elements:
  assumes "materialise_elements E g mp els (st, c) = (None, s')"
    and "\<forall>el \<in> set els. me_md5 el = [] \<and> me_tags el = [] \<and> uuid_in E (me_id el) = Some (me_id el) \<and> map_of (c_el c) (me_id el) = None"
    and "\<forall>el \<in> set els. \<forall>st'. map_of st \<subseteq>\<^sub>m map_of st' \<longrightarrow> g st' (me_url el) = Some (f el)"
    and "distinct (map me_id els)" and "map_of (c_mp c) mp \<noteq> None"
  shows "\<forall>el \<in> set els. map_of (c_el (snd s')) (me_id el) = Some (new_element mp el (de_sha256 E (f el)) (f el) (c_now c))"
  using assms
proof (induction els arbitrary: st c)
  case (Cons el els)
  let ?st = "snd (put_file (de_sha256 E) (f el) st)"
  let ?row = "new_element mp el (de_sha256 E (f el)) (f el) (c_now c)"
  let ?c = "c\<lparr>c_el := c_el c @ [(me_id el, ?row)]\<rparr>"
  have one: "materialise_element E g mp el (st, c) = (None, (?st, ?c))"
    using Cons.prems by (intro materialise_fresh_element) auto
  then have rest: "materialise_elements E g mp els (?st, ?c) = (None, s')" using Cons.prems(1) by simp
  have le: "map_of st \<subseteq>\<^sub>m map_of ?st" by (rule put_file_grows)
  have "\<forall>el \<in> set els. map_of (c_el (snd s')) (me_id el) = Some (new_element mp el (de_sha256 E (f el)) (f el) (c_now ?c))"
  proof (rule Cons.IH [OF rest])
    show "\<forall>el \<in> set els. me_md5 el = [] \<and> me_tags el = [] \<and> uuid_in E (me_id el) = Some (me_id el) \<and> map_of (c_el ?c) (me_id el) = None"
      using Cons.prems(2,4) by (auto simp: map_add_def) (metis imageI)
    show "\<forall>el \<in> set els. \<forall>st'. map_of ?st \<subseteq>\<^sub>m map_of st' \<longrightarrow> g st' (me_url el) = Some (f el)"
      using Cons.prems(3) map_le_trans [OF le] by auto
  qed (use Cons.prems in auto)
  moreover have "map_of (c_el (snd s')) (me_id el) = Some ?row"
  proof -
    have "map_of (c_el ?c) \<subseteq>\<^sub>m map_of (c_el (snd s'))"
      using materialise_elements_grows [OF rest] by (simp add: grows_def)
    moreover have "map_of (c_el ?c) (me_id el) = Some ?row" using Cons.prems(2) by (simp add: map_add_def)
    ultimately show ?thesis by (auto simp: map_le_def dom_def)
  qed
  ultimately show ?case by simp
qed simp

lemma set_acl_event_frame:
  assumes "set_acl_event i es c = Inr c'"
  shows "c_el c' = c_el c" "c_mp c' = c_mp c" "c_md c' = c_md c" "policy_of (ScopeEvent, i) (c_acl c') = Some (set es)"
    "get_event_dc j c' = get_event_dc j c"
proof -
  obtain a where a: "set_tx (ScopeEvent, i) es (c_acl c) = Inr a" and pe: "project_event i (c\<lparr>c_acl := a\<rparr>) = Inr c'"
    using assms by (auto simp: set_acl_event_def)
  note f = project_event_frame [OF pe]
  show "c_el c' = c_el c" "c_mp c' = c_mp c" "c_md c' = c_md c" by (simp_all add: f)
  show "policy_of (ScopeEvent, i) (c_acl c') = Some (set es)" using set_tx_Inr(1,2) [OF a] by (simp add: f policy_of_def)
  show "get_event_dc j c' = get_event_dc j c"
    by (cases "map_of (c_mp c) j") (simp_all add: get_event_dc_def f md_of_def)
qed

lemma cas_get_mono: "map_of st \<subseteq>\<^sub>m map_of st' \<Longrightarrow> cas_get st h = Some b \<Longrightarrow> cas_get st' h = Some b"
  by (auto simp: cas_get_def map_le_def dom_def)

text \<open>The tracks of a request, materialised over a store that holds its files.\<close>

lemma tracks_recorded:
  assumes run: "materialise M (resolve_uploads (map (upload_of M) ps)) \<lparr>mf_id = i, mf_title = ti, mf_start = t, mf_duration = 0,
      mf_elements = els\<rparr> (st, c) = (None, dep)"
    and els: "track_elements fresh os 1 (map (upload_of M) ps) = Some els"
    and ids: "\<And>n. uuid_in M (fresh n) = Some (fresh n)" "inj fresh" "i = fresh 0"
    and new: "\<And>n. map_of (c_mp c) (fresh n) = None" "\<And>n. map_of (c_el c) (fresh n) = None"
    and clean: "clean_store M st (pt_body ` set ps)"
    and stored: "\<forall>p \<in> set ps. cas_get st (de_sha256 M (pt_body p)) = Some (pt_body p)"
  shows "map_option mp_deleted (map_of (c_mp (snd dep)) i) = Some None" and "map_of st \<subseteq>\<^sub>m map_of (fst dep)"
    and "\<forall>k < length ps. \<exists>fl el. option_flavor os (option_name (pt_name (ps ! k))) = Some fl \<and>
      map_of (c_el (snd dep)) (fresh (Suc k)) = Some el \<and> el_mp el = i \<and> el_kind el = ''track'' \<and> el_flavor el = fl \<and>
      el_sha256 el = de_sha256 M (pt_body (ps ! k))"
proof -
  let ?us = "map (upload_of M) ps" and ?g = "resolve_uploads (map (upload_of M) ps)"
  obtain c1 where row: "materialise_row i ti t 0 c = Inr c1"
    and run': "materialise_elements M ?g i els (st, c1) = (None, dep)"
    using run ids(1) [of 0] ids(3) by (auto simp: materialise_def split: if_splits sum.splits)
  have grow: "grows (st, c1) dep" by (rule materialise_elements_grows [OF run'])
  have c1: "c_el c1 = c_el c" using row
    by (auto simp: materialise_row_def dest!: project_event_frame(4) split: if_splits)
  have known: "map_of (c_mp c1) i \<noteq> None" by (rule materialise_row_known [OF row])
  have "map_option mp_deleted (map_of (c_mp c1) i) = Some None"
    using row materialise_fresh_row [OF new(1) [of 0], of ti t] ids(3) new(1) by (auto simp: map_add_def)
  then show "map_option mp_deleted (map_of (c_mp (snd dep)) i) = Some None" using grows_frame(1) [OF grow] by simp
  show "map_of st \<subseteq>\<^sub>m map_of (fst dep)" using grow by (simp add: grows_def)
  note te = track_elements_of [OF els]
  have len: "length els = length ps" using te by simp
  have el: "\<exists>fl. option_flavor os (option_name (pt_name (ps ! k))) = Some fl \<and>
     els ! k = \<lparr>me_id = fresh (Suc k), me_kind = ''track'', me_flavor = fl, me_mimetype = up_type (upload_of M (ps ! k)),
          me_url = upload_url (upload_of M (ps ! k)), me_md5 = [], me_tags = []\<rparr>" if "k < length ps" for k
    using te that by (auto simp: upload_of_def)
  have res: "?g st' (upload_url (upload_of M p)) = Some (pt_body p)" if "p \<in> set ps" "map_of st \<subseteq>\<^sub>m map_of st'" for p st'
  proof -
    have "resolve_uploads ?us st (upload_url (upload_of M p)) = Some (pt_body p)"
      by (rule resolve_uploaded [OF clean subset_refl that(1) stored])
    then show ?thesis using cas_get_mono [OF that(2)] by (auto simp: resolve_uploads_def split: option.splits)
  qed
  define f where "f = (\<lambda>el :: manifest_el. the (?g st (me_url el)))"
  have f: "f (els ! k) = pt_body (ps ! k)" if "k < length ps" for k
    using el [OF that] res [of "ps ! k" st] that by (auto simp: f_def)
  have "\<forall>el \<in> set els. map_of (c_el (snd dep)) (me_id el) = Some (new_element i el (de_sha256 M (f el)) (f el) (c_now c1))"
  proof (rule materialise_fresh_elements [OF run' _ _ _ known])
    show "\<forall>el \<in> set els. me_md5 el = [] \<and> me_tags el = [] \<and> uuid_in M (me_id el) = Some (me_id el) \<and> map_of (c_el c1) (me_id el) = None"
      using el ids(1) new(2) by (auto simp: in_set_conv_nth len c1) (metis manifest_el.simps)+
    show "\<forall>el \<in> set els. \<forall>st'. map_of st \<subseteq>\<^sub>m map_of st' \<longrightarrow> ?g st' (me_url el) = Some (f el)"
      using el f res by (auto simp: in_set_conv_nth len) (metis manifest_el.simps(5) nth_mem)
    have "me_id (els ! k) = fresh (Suc k)" if "k < length ps" for k using el [OF that] by auto
    then show "distinct (map me_id els)" using ids(2) by (auto simp: distinct_conv_nth len inj_def)
  qed
  then show "\<forall>k < length ps. \<exists>fl el. option_flavor os (option_name (pt_name (ps ! k))) = Some fl \<and>
      map_of (c_el (snd dep)) (fresh (Suc k)) = Some el \<and> el_mp el = i \<and> el_kind el = ''track'' \<and> el_flavor el = fl \<and>
      el_sha256 el = de_sha256 M (pt_body (ps ! k))"
    using el f len by (force simp: new_element_def all_set_conv_all_nth)
qed

lemma write_policy_created:
  assumes "write_policy i aces ops s = (Created j, s')"
  obtains c where "j = i" and "set_acl_event i aces (catalog_of s) = Inr c" and "ops \<noteq> []" and
    "s' = (with_catalog s c)\<lparr>ds_db := (ds_db (with_catalog s c))\<lparr>workflows := workflows (ds_db s) @
        [\<lparr>w_id = next_wf (ds_db s), w_mediapackage = i, w_ops = ops, w_state = WRUNNING, w_cur = 0\<rparr>],
      next_wf := Suc (next_wf (ds_db s))\<rparr>\<rparr>"
  using assms that
  by (auto simp: write_policy_def create_workflow_def with_catalog_def on_deposit_def split: if_splits sum.splits)

lemma write_event_created:
  assumes "write_event M i (title, start, md) els us aces ops s = (Created j, s')"
  obtains dep c where "materialise M (resolve_uploads us) \<lparr>mf_id = i, mf_title = title, mf_start = start, mf_duration = 0,
       mf_elements = els\<rparr> (deposited_of s) = (None, dep)"
    and "set_event_dc i title start md (snd dep) = Inr c"
    and "write_policy i aces ops (with_catalog (on_deposit s dep) c) = (Created j, s')"
  using assms by (auto simp: write_event_def split: prod.splits option.splits sum.splits)

lemma event_new_created:
  assumes "event_new M js src fresh now p body s = (Created j, s')"
  obtains b us meta st v doc defs ops d els where "is_admin p" and "body = Some b" and "mu_complete b"
    and "stash_parts M (mu_parts b) ([], [], ds_store s) = (us, meta, st)" and "js meta = Some v"
    and "dec_new_event v no_new_event = Some doc" and "src = Some defs" and "defs (nv_workflow doc) = Some (Some ops)"
    and "apply_event_fields (de_text M) (fields_of ''dublincore/episode'' (nv_metadata doc)) empty_dc = Some d"
    and "track_elements fresh (nv_options doc) 1 us = Some els"
    and "write_event M (fresh 0) (stamp_created now d) els us (nv_aces doc) ops (s\<lparr>ds_store := st\<rparr>) = (Created j, s')"
  using assms by (auto simp: event_new_def can_create_def Let_def split: if_splits option.splits prod.splits)

text \<open>C34: a created event is all there. When the admin interface answers a creation with the new id, only an
  administrator can have asked, the multipart body ended properly and its metadata document names a loaded
  workflow definition; the event carries exactly the metadata of the form with the creation date, its
  policy is exactly the list of the form, every uploaded file is a track of the event with the flavor of its
  asset option, recorded under the digest of bytes that the store returns unchanged, and one new
  RUNNING workflow stands over the definition's operations.\<close>

theorem created_event_is_complete:
  assumes run: "event_new M js (Some defs) fresh now p (Some b) s = (Created i, s')"
    and ids: "\<And>n. uuid_in M (fresh n) = Some (fresh n)" "inj fresh"
    and new: "\<And>n. map_of (c_mp (catalog_of s)) (fresh n) = None" "\<And>n. map_of (c_el (catalog_of s)) (fresh n) = None"
    and store: "clean_store M (ds_store s) (pt_body ` set (files_of (mu_parts b)))"
  shows "i = fresh 0 \<and> is_admin p \<and> mu_complete b \<and>
    (\<exists>v doc ops d. js (metadata_field (mu_parts b)) = Some v \<and> dec_new_event v no_new_event = Some doc \<and>
       defs (nv_workflow doc) = Some (Some ops) \<and>
       apply_event_fields (de_text M) (fields_of ''dublincore/episode'' (nv_metadata doc)) empty_dc = Some d \<and>
       get_event_dc i (catalog_of s') = Inr (stamp_created now d) \<and>
       policy_of (ScopeEvent, i) (c_acl (catalog_of s')) = Some (set (nv_aces doc)) \<and>
       workflows (ds_db s') = workflows (ds_db s) @
         [\<lparr>w_id = next_wf (ds_db s), w_mediapackage = i, w_ops = ops, w_state = WRUNNING, w_cur = 0\<rparr>] \<and>
       (\<forall>k < length (files_of (mu_parts b)).
          let f = files_of (mu_parts b) ! k
          in \<exists>fl el. option_flavor (nv_options doc) (option_name (pt_name f)) = Some fl \<and>
               map_of (c_el (catalog_of s')) (fresh (Suc k)) = Some el \<and> el_mp el = i \<and> el_kind el = ''track'' \<and>
               el_flavor el = fl \<and> cas_get (ds_store s') (el_sha256 el) = Some (pt_body f)))"
proof -
  let ?ps = "files_of (mu_parts b)"
  let ?st = "fold (\<lambda>p st. snd (put_file (de_sha256 M) (pt_body p) st)) ?ps (ds_store s)"
  obtain v doc ops d els where adm: "is_admin p" and full: "mu_complete b"
    and doc: "js (metadata_field (mu_parts b)) = Some v" "dec_new_event v no_new_event = Some doc"
      "defs (nv_workflow doc) = Some (Some ops)"
      "apply_event_fields (de_text M) (fields_of ''dublincore/episode'' (nv_metadata doc)) empty_dc = Some d"
    and els: "track_elements fresh (nv_options doc) 1 (map (upload_of M) ?ps) = Some els"
    and wr: "write_event M (fresh 0) (stamp_created now d) els (map (upload_of M) ?ps) (nv_aces doc) ops
      (s\<lparr>ds_store := ?st\<rparr>) = (Created i, s')"
    using run by (rule event_new_created) (auto simp: stash_parts_result metadata_field_def)
  obtain title start md where d: "stamp_created now d = (title, start, md)" by (rule prod_cases3)
  obtain dep c where mat: "materialise M (resolve_uploads (map (upload_of M) ?ps)) \<lparr>mf_id = fresh 0, mf_title = title,
        mf_start = start, mf_duration = 0, mf_elements = els\<rparr> (deposited_of (s\<lparr>ds_store := ?st\<rparr>)) = (None, dep)"
    and dc: "set_event_dc (fresh 0) title start md (snd dep) = Inr c"
    and pol: "write_policy (fresh 0) (nv_aces doc) ops (with_catalog (on_deposit (s\<lparr>ds_store := ?st\<rparr>) dep) c) = (Created i, s')"
    using wr [unfolded d] by (rule write_event_created)
  obtain c' where i: "i = fresh 0" and acl: "set_acl_event (fresh 0) (nv_aces doc) c = Inr c'" and ops: "ops \<noteq> []"
    and s': "catalog_of s' = c'" "ds_store s' = fst dep" "workflows (ds_db s') = workflows (ds_db s) @
         [\<lparr>w_id = next_wf (ds_db s), w_mediapackage = i, w_ops = ops, w_state = WRUNNING, w_cur = 0\<rparr>]"
    using pol by (rule write_policy_created) (auto simp: catalog_of_def with_catalog_def on_deposit_def)
  have st: "clean_store M ?st (pt_body ` set ?ps)" "\<forall>p \<in> set ?ps. cas_get ?st (de_sha256 M (pt_body p)) = Some (pt_body p)"
    using stashed_clean [OF store subset_refl] by blast+
  have mat': "materialise M (resolve_uploads (map (upload_of M) ?ps)) \<lparr>mf_id = i, mf_title = title,
        mf_start = start, mf_duration = 0, mf_elements = els\<rparr> (?st, catalog_of s) = (None, dep)"
    using mat by (simp add: deposited_of_def catalog_of_def i)
  note rec = tracks_recorded [OF mat' els ids i new st]
  have got: "get_event_dc i c' = Inr (stamp_created now d)"
    using event_dc_round_trip [OF dc] rec(1) set_acl_event_frame(5) [OF acl] by (simp add: i d)
  have el: "c_el c' = c_el (snd dep)" using set_acl_event_frame(1) [OF acl] set_event_dc_frame(2) [OF dc] by simp
  have files: "\<exists>fl el. option_flavor (nv_options doc) (option_name (pt_name (?ps ! k))) = Some fl \<and>
               map_of (c_el c') (fresh (Suc k)) = Some el \<and> el_mp el = i \<and> el_kind el = ''track'' \<and>
               el_flavor el = fl \<and> cas_get (fst dep) (el_sha256 el) = Some (pt_body (?ps ! k))" if "k < length ?ps" for k
  proof -
    have "cas_get (fst dep) (de_sha256 M (pt_body (?ps ! k))) = Some (pt_body (?ps ! k))"
      using cas_get_mono [OF rec(2)] st(2) that by simp
    then show ?thesis using rec(3) that unfolding el by fastforce
  qed
  show ?thesis
    using adm full doc got files set_acl_event_frame(4) [OF acl] s' i
    by (intro conjI exI [of _ v] exI [of _ doc] exI [of _ ops] exI [of _ d]) (simp_all add: Let_def)
qed

text \<open>A request with one file and one entry, answered.\<close>

definition new_doc :: json where
  "new_doc = JObj
     [(''metadata'', JArr [JObj [(''flavor'', JStr ''dublincore/episode''), (''fields'', JArr
         [JObj [(''id'', JStr ''title''), (''value'', JStr ''B'')]])]]),
      (''processing'', JObj [(''workflow'', JStr ''wd'')]),
      (''access'', JObj [(''acl'', JObj [(''ace'', JArr [JObj [(''role'', JStr ''R''), (''action'', JStr ''read''), (''allow'', JBool True)]])])]),
      (''assets'', JObj [(''options'', JArr [JObj [(''id'', JStr ''t''), (''flavortype'', JStr ''p''), (''flavorsubtype'', JStr ''s'')]])])]"

definition fresh_ids :: "nat \<Rightarrow> string" where
  "fresh_ids n = replicate (Suc n) CHR ''u''"

definition new_parts :: multipart where
  "new_parts = \<lparr>mu_parts = [demo_part ''t.0'' ''v.mp4'' ''video'', demo_part ''metadata'' [] ''new''], mu_complete = True\<rparr>"

definition demo_creation :: "written \<times> int deposit_state" where
  "demo_creation = event_new demo_session_env (\<lambda>s. if s = ''new'' then Some new_doc else None)
     (Some (\<lambda>w. Some (Some demo_ops))) fresh_ids 9 \<lparr>p_roles = [''ROLE_ADMIN'']\<rparr> (Some new_parts) demo_deposit_state"

lemma demo_stashed:
  "stash_parts demo_session_env (mu_parts new_parts) ([], [], []) =
     ([upload_of demo_session_env (demo_part ''t.0'' ''v.mp4'' ''video'')], ''new'', [(object_key (replicate 64 CHR ''b''), ''video'')])"
  by (simp add: stash_parts_result new_parts_def files_of_def demo_part_def put_file_def demo_session_env_def demo_dc_def
    field_limit_def Let_def cas_exists_def)

lemma demo_doc:
  "dec_new_event new_doc no_new_event = Some \<lparr>nv_metadata = [\<lparr>wz_flavor = ''dublincore/episode'',
       wz_fields = [\<lparr>wf_id = ''title'', wf_value = Some (JStr ''B'')\<rparr>]\<rparr>], nv_workflow = ''wd'',
     nv_aces = [\<lparr>role = ''R'', action = ''read'', allow = True\<rparr>],
     nv_options = [\<lparr>ao_id = ''t'', ao_type = ''p'', ao_subtype = ''s''\<rparr>]\<rparr>"
  by code_simp

lemma demo_tracks:
  "track_elements fresh_ids [\<lparr>ao_id = ''t'', ao_type = ''p'', ao_subtype = ''s''\<rparr>] 1
     [upload_of demo_session_env (demo_part ''t.0'' ''v.mp4'' ''video'')] =
   Some [\<lparr>me_id = fresh_ids 1, me_kind = ''track'', me_flavor = ''p/s'', me_mimetype = ''application/octet-stream'',
     me_url = upload_url (upload_of demo_session_env (demo_part ''t.0'' ''v.mp4'' ''video'')), me_md5 = [], me_tags = []\<rparr>]"
  by (simp add: upload_of_def demo_part_def option_flavor_def option_name_def)

lemma demo_written:
  "fst (write_event demo_session_env (fresh_ids 0) (''B'', None, (snd (snd empty_dc))\<lparr>m_created := Some 9\<rparr>)
     [\<lparr>me_id = fresh_ids 1, me_kind = ''track'', me_flavor = ''p/s'', me_mimetype = ''application/octet-stream'',
     me_url = upload_url (upload_of demo_session_env (demo_part ''t.0'' ''v.mp4'' ''video'')), me_md5 = [], me_tags = []\<rparr>]
     [upload_of demo_session_env (demo_part ''t.0'' ''v.mp4'' ''video'')]
     [\<lparr>role = ''R'', action = ''read'', allow = True\<rparr>] demo_ops
     (demo_deposit_state\<lparr>ds_store := [(object_key (replicate 64 CHR ''b''), ''video'')]\<rparr>)) = Created (fresh_ids 0)"
  by code_simp

lemma demo_fields:
  "apply_event_fields T (fields_of ''dublincore/episode'' [\<lparr>wz_flavor = ''dublincore/episode'',
       wz_fields = [\<lparr>wf_id = ''title'', wf_value = Some (JStr ''B'')\<rparr>]\<rparr>]) empty_dc = Some (''B'', None, snd (snd empty_dc))"
  by (simp add: fields_of_def apply_event_field_def empty_dc_def wizard_string_def)

lemma demo_creation_evals: "fst demo_creation = Created (fresh_ids 0)"
proof -
  have st: "ds_store demo_deposit_state = []" by (simp add: demo_deposit_state_def)
  have texts: "de_text demo_session_env = demo_texts" by (simp add: demo_session_env_def)
  show ?thesis
    using demo_written
    by (simp add: demo_creation_def event_new_def can_create_def is_admin_def admin_roles_def st demo_stashed demo_doc texts
        demo_fields demo_tracks stamp_created_def Let_def del: track_elements.simps One_nat_def) (simp add: new_parts_def)
qed

theorem created_event_is_complete_witness:
  "\<exists>s' d el. demo_creation = (Created (fresh_ids 0), s') \<and> get_event_dc (fresh_ids 0) (catalog_of s') = Inr d \<and>
     map_of (c_el (catalog_of s')) (fresh_ids 1) = Some el \<and> el_mp el = fresh_ids 0 \<and>
     cas_get (ds_store s') (el_sha256 el) = Some ''video'' \<and> length (workflows (ds_db s')) = 1"
proof -
  obtain s' where s': "demo_creation = (Created (fresh_ids 0), s')" using demo_creation_evals by (metis prod.collapse)
  have files: "files_of (mu_parts new_parts) = [demo_part ''t.0'' ''v.mp4'' ''video'']"
    by (simp add: files_of_def new_parts_def demo_part_def)
  have store: "clean_store demo_session_env (ds_store demo_deposit_state) (pt_body ` set (files_of (mu_parts new_parts)))"
    by (auto simp: files clean_store_def demo_session_env_def demo_deposit_state_def demo_part_def demo_dc_def cas_get_def
        lower_hex_def byte_val_def Let_def list_all_iff)
  have ids: "uuid_in demo_session_env (fresh_ids n) = Some (fresh_ids n)" "inj fresh_ids"
    "map_of (c_mp (catalog_of demo_deposit_state)) (fresh_ids n) = None"
    "map_of (c_el (catalog_of demo_deposit_state)) (fresh_ids n) = None" for n
    by (auto simp: demo_session_env_def catalog_of_def demo_deposit_state_def empty_catalog_def
        intro: injI dest: arg_cong [of _ _ length] simp: fresh_ids_def)
  show ?thesis
    using s' created_event_is_complete [OF s' [unfolded demo_creation_def] ids store]
    by (auto simp: files Let_def demo_part_def demo_deposit_state_def stamp_created_def intro!: exI [of _ s'])
qed

section \<open>Refused and written\<close>

text \<open>A nameless rule is found only after the event has been written: the creation is refused and the event
  stays, live, without policy and workflow.\<close>

lemma nameless_rule_leaves_event:
  assumes "materialise M (resolve_uploads us) \<lparr>mf_id = i, mf_title = title, mf_start = start, mf_duration = 0,
       mf_elements = els\<rparr> (deposited_of s) = (None, dep)"
    and "map_option mp_deleted (map_of (c_mp (snd dep)) i) = Some None"
    and "set_event_dc i title start md (snd dep) = Inr c" and "list_ex nameless aces"
  shows "\<exists>s'. write_event M i (title, start, md) els us aces ops s = (Rejected 400, s') \<and>
    get_event_dc i (catalog_of s') = Inr (title, start, md) \<and> c_acl (catalog_of s') = c_acl (snd dep)"
  using assms event_dc_round_trip [OF assms(3,2)] set_event_dc_frame(1) [OF assms(3)]
  by (auto simp: write_event_def write_policy_def)

text \<open>The same for a series, whose rules are not looked at before the store rejects them.\<close>

lemma nameless_rule_leaves_series:
  assumes "is_admin p" and "js (go_get f ''metadata'') = Some v"
    and "dec_new_series v \<lparr>nr_metadata = [], nr_aces = []\<rparr> = Some doc" and "list_ex nameless (nr_aces doc)"
  shows "\<exists>s' md. series_new js i now p (Some f) s = (Rejected 500, s') \<and> catalog_of s' = put_series i md (catalog_of s)"
proof -
  have "nr_aces doc \<noteq> []" using assms(4) by auto
  moreover have "\<exists>e. set_acl_series i (nr_aces doc) c = Inl e" for c
    using assms(4) set_tx_ok_iff [of "(ScopeSeries, i)" "nr_aces doc" "c_acl c"]
    by (cases "set_tx (ScopeSeries, i) (nr_aces doc) (c_acl c)")
       (auto simp: set_acl_series_def list_ex_iff nameless_def map_error_def)
  ultimately show ?thesis
    using assms by (auto simp: series_new_def can_create_def commit_def Let_def split: sum.splits)
       (metis old.sum.distinct(1))
qed

end
