(* ===== verification/Config.thy ===== *)
theory Config
  imports AdminWrite Lti Fanout Executor Migrate
begin

text \<open>
  The configuration surface and the three programs' start: the one-pass validation of environment
  variables (\<open>internal/config\<close>), the core's configuration, boot report, assembly and route table
  (\<open>cmd/ocng-core\<close>), the worker's configuration and mode (\<open>cmd/ocng-worker\<close>) and the exit status of the
  import (\<open>cmd/ocng-migrate\<close>). \<open>Set\<close> is the list of problems: a read returns the value the program goes on
  with and the problems it adds, in reading order; the wording of the messages is left out. The
  environment, the platforms file with its JSON reader, and \<open>time.ParseDuration\<close> are arguments.
\<close>

section \<open>Reading the environment\<close>

datatype platforms_error = FileUnreadable | FileUnparseable | IncompletePlatform string

datatype config_error =
    NotSet string
  | NotInteger string string
  | NotDuration string string
  | DefinitionsFileRetired
  | BadPlatforms platforms_error
  | SecretTooShort nat
  | NotPositive string int

record boot_host =
  bh_env :: "string \<rightharpoonup> string"
  bh_file :: "string \<rightharpoonup> string"
  bh_platforms :: "string \<Rightarrow> platform list option"
  bh_duration :: "string \<Rightarrow> int option"

type_synonym 'a read = "'a \<times> config_error list"

definition get_env :: "boot_host \<Rightarrow> string \<Rightarrow> string" where
  "get_env H n = go_get (bh_env H) n"

definition require_var :: "boot_host \<Rightarrow> string \<Rightarrow> string read" where
  "require_var H n = (let v = get_env H n in (v, if v = [] then [NotSet n] else []))"

definition string_var :: "boot_host \<Rightarrow> string \<Rightarrow> string \<Rightarrow> string" where
  "string_var H n dflt = (let v = get_env H n in if v \<noteq> [] then v else dflt)"

definition raw_var :: "boot_host \<Rightarrow> string \<Rightarrow> string \<times> bool" where
  "raw_var H n = (let v = get_env H n in (v, v \<noteq> []))"

definition int_var :: "boot_host \<Rightarrow> string \<Rightarrow> int \<Rightarrow> int read" where
  "int_var H n dflt =
     (let v = get_env H n
      in if v = [] then (dflt, [])
         else case parse_int64 v of None \<Rightarrow> (dflt, [NotInteger n v]) | Some i \<Rightarrow> (i, []))"

definition int64_var :: "boot_host \<Rightarrow> string \<Rightarrow> (int \<times> bool) read" where
  "int64_var H n =
     (let v = get_env H n
      in if v = [] then ((0, False), [])
         else case parse_int64 v of None \<Rightarrow> ((0, True), [NotInteger n v]) | Some i \<Rightarrow> ((i, True), []))"

definition duration_var :: "boot_host \<Rightarrow> string \<Rightarrow> (int \<times> bool) read" where
  "duration_var H n =
     (let v = get_env H n
      in if v = [] then ((0, False), [])
         else case bh_duration H v of None \<Rightarrow> ((0, True), [NotDuration n v]) | Some d \<Rightarrow> ((d, True), []))"

definition set_err :: "config_error list \<Rightarrow> 'a \<Rightarrow> (config_error list, 'a) result" where
  "set_err es c = (if es = [] then Inr c else Inl es)"

section \<open>The core's configuration\<close>

record core_config =
  cc_db :: string
  cc_cas :: "string \<times> string \<times> string \<times> string"
  cc_listen :: string
  cc_serve_db :: string
  cc_serve_password :: string
  cc_serve_default :: bool
  cc_definitions :: string
  cc_dev_auth :: bool
  cc_ingest :: "string \<times> string"
  cc_oidc_issuer :: string
  cc_oidc_client :: string
  cc_oidc_roles :: string
  cc_platforms :: "platform list"
  cc_secret :: string
  cc_grace :: int
  cc_interval :: int
  cc_gc :: bool

definition serve_dev_password :: string where
  "serve_dev_password = ''ocng_serve''"

definition incomplete :: "platform \<Rightarrow> bool" where
  "incomplete p = (pf_issuer p = [] \<or> pf_client p = [] \<or> pf_jwks p = [] \<or> pf_auth p = [] \<or> pf_deployments p = [])"

definition load_platforms :: "boot_host \<Rightarrow> string \<Rightarrow> (platforms_error, platform list) result" where
  "load_platforms H path =
     (if path = [] then Inr []
      else case bh_file H path of
        None \<Rightarrow> Inl FileUnreadable
      | Some raw \<Rightarrow>
          (case bh_platforms H raw of
             None \<Rightarrow> Inl FileUnparseable
           | Some ps \<Rightarrow> (case find incomplete ps of Some p \<Rightarrow> Inl (IncompletePlatform (pf_issuer p)) | None \<Rightarrow> Inr ps)))"

text \<open>The platforms and, when there are some, the session secret.\<close>

definition read_platforms :: "boot_host \<Rightarrow> (platform list \<times> string) read" where
  "read_platforms H =
     (case raw_var H ''OCNG_LTI_PLATFORMS_FILE'' of (path, given) \<Rightarrow>
        if \<not> given then (([], []), [])
        else case load_platforms H path of
          Inl e \<Rightarrow> (([], []), [BadPlatforms e])
        | Inr [] \<Rightarrow> (([], []), [])
        | Inr ps \<Rightarrow>
            (case require_var H ''OCNG_LTI_SESSION_SECRET'' of (secret, es) \<Rightarrow>
               ((ps, secret), es @ (if secret \<noteq> [] \<and> length secret < 32 then [SecretTooShort (length secret)] else []))))"

definition positive :: "string \<Rightarrow> int \<times> bool \<Rightarrow> config_error list" where
  "positive n d = (if snd d \<and> fst d \<le> 0 then [NotPositive n (fst d)] else [])"

definition load_config :: "boot_host \<Rightarrow> (config_error list, core_config) result" where
  "load_config H =
     (let (db, e1) = require_var H ''OCNG_DB_URL'';
          (endpoint, e2) = require_var H ''OCNG_CAS_ENDPOINT'';
          (key, e3) = require_var H ''OCNG_CAS_KEY'';
          (secret, e4) = require_var H ''OCNG_CAS_SECRET'';
          (bucket, e5) = require_var H ''OCNG_CAS_BUCKET'';
          password = string_var H ''OCNG_SERVE_DB_PASSWORD'' serve_dev_password;
          e6 = (if snd (raw_var H ''OCNG_DEFINITIONS_FILE'') then [DefinitionsFileRetired] else []);
          issuer = fst (raw_var H ''OCNG_OIDC_ISSUER'');
          (client, e7) = (if issuer \<noteq> [] then require_var H ''OCNG_OIDC_CLIENT_ID'' else ([], []));
          ((platforms, session), e8) = read_platforms H;
          (grace, e9) = duration_var H ''OCNG_GC_GRACE'';
          (interval, e10) = duration_var H ''OCNG_GC_INTERVAL''
      in set_err (e1 @ e2 @ e3 @ e4 @ e5 @ e6 @ e7 @ e8 @ e9 @ e10 @ positive ''OCNG_GC_GRACE'' grace @
             positive ''OCNG_GC_INTERVAL'' interval)
           \<lparr>cc_db = db, cc_cas = (endpoint, key, secret, bucket), cc_listen = string_var H ''OCNG_LISTEN'' '':8085'',
            cc_serve_db = fst (raw_var H ''OCNG_SERVE_DB_URL''), cc_serve_password = password,
            cc_serve_default = (password = serve_dev_password), cc_definitions = fst (raw_var H ''OCNG_DEFINITIONS_DIR''),
            cc_dev_auth = (string_var H ''OCNG_DEV_AUTH'' [] = ''1''),
            cc_ingest = (string_var H ''OCNG_INGEST_USER'' ''admin'', string_var H ''OCNG_INGEST_PASS'' ''opencast''),
            cc_oidc_issuer = issuer, cc_oidc_client = client, cc_oidc_roles = string_var H ''OCNG_OIDC_ROLES_CLAIM'' ''roles'',
            cc_platforms = platforms, cc_secret = session, cc_grace = fst grace, cc_interval = fst interval,
            cc_gc = (snd grace \<and> snd interval)\<rparr>)"

section \<open>The boot report\<close>

record postures =
  po_serve_off :: bool
  po_password_default :: bool
  po_dev_auth :: bool
  po_no_identity :: bool

datatype report_block = ServeEnforcementOff | ServePasswordDefault | DevAuthOpen | NobodyCanLogIn

definition postures_of :: "core_config \<Rightarrow> postures" where
  "postures_of c = \<lparr>po_serve_off = (cc_serve_db c = []), po_password_default = cc_serve_default c,
     po_dev_auth = cc_dev_auth c, po_no_identity = (cc_oidc_issuer c = [] \<and> cc_platforms c = [])\<rparr>"

text \<open>The blocks of the report in order; none is the production shape, logged in one line.\<close>

definition boot_report :: "postures \<Rightarrow> report_block list" where
  "boot_report p =
     (if po_serve_off p then [ServeEnforcementOff] else []) @
     (if po_password_default p then [ServePasswordDefault] else []) @
     (if po_dev_auth p then [DevAuthOpen] else []) @
     (if po_no_identity p then [NobodyCanLogIn] else [])"

section \<open>The assembled core\<close>

definition core_auth :: "core_config \<Rightarrow> auth_config" where
  "core_auth c =
     \<lparr>ac_oidc = (if cc_oidc_issuer c \<noteq> []
        then Some (new_oidc \<lparr>oc_issuer = cc_oidc_issuer c, oc_client = cc_oidc_client c, oc_roles_claim = cc_oidc_roles c,
               oc_username_claim = [], oc_skew = 0\<rparr>) else None),
      ac_service_roles = [], ac_dev_seam = cc_dev_auth c, ac_service_users = [cc_ingest c],
      ac_session = (if cc_platforms c \<noteq> [] then Some \<lparr>sc_secret = cc_secret c, sc_ttl = 0\<rparr> else None)\<rparr>"

definition core_engine :: options where
  "core_engine = \<lparr>lease = 60 * giga, max_attempts = 3, has_inline = True\<rparr>"

text \<open>The operations the core runs in process, and those the worker claims.\<close>

definition core_inline :: "string list" where
  "core_inline = [''snapshot'', ''publish-configure'']"

definition worker_implemented :: "string list" where
  "worker_implemented = [''speechtotext'', ''encode'', ''inspect'']"

definition core_sweeps :: "core_config \<Rightarrow> (int \<times> int) option" where
  "core_sweeps c = (if cc_gc c then Some (cc_grace c, cc_interval c) else None)"

text \<open>The pool of the serve surface: its own restricted one, or the general one.\<close>

definition serve_pool :: "core_config \<Rightarrow> string" where
  "serve_pool c = (if cc_serve_db c \<noteq> [] then cc_serve_db c else cc_db c)"

datatype core_surface = CoreInfo | ServeSurface | IngestSurface | SearchSurface | AdminSurface | WatchPage | LtiSurface

definition core_patterns :: "core_config \<Rightarrow> (string \<times> core_surface) list" where
  "core_patterns c =
     [(''/ocng/'', CoreInfo), (''/elements/'', ServeSurface), (''/publications/'', ServeSurface),
      (''/ingest/'', IngestSurface), (''/search/'', SearchSurface), (''/api/'', SearchSurface),
      (''/admin-ng/resources/'', SearchSurface), (''/admin-ng/'', AdminSurface), (''/info/'', AdminSurface),
      (''/play/'', WatchPage)] @ (if cc_platforms c \<noteq> [] then [(''/lti/'', LtiSurface)] else [])"

text \<open>\<open>ServeMux\<close>: of the patterns that are prefixes of the path, the longest.\<close>

fun longest :: "(string \<times> 'a) list \<Rightarrow> (string \<times> 'a) option" where
  "longest [] = None"
| "longest (x # xs) =
     (case longest xs of None \<Rightarrow> Some x | Some y \<Rightarrow> Some (if length (fst y) > length (fst x) then y else x))"

definition core_route :: "core_config \<Rightarrow> string \<Rightarrow> core_surface option" where
  "core_route c path = map_option snd (longest (filter (\<lambda>(pat, h). has_prefix path pat) (core_patterns c)))"

section \<open>The worker\<close>

record worker_boot =
  wb_db :: string
  wb_cas :: "string \<times> string \<times> string \<times> string"
  wb_tools :: string
  wb_scratch :: string
  wb_task :: "int option"
  wb_fanout :: fanout
  wb_scopes :: bool

definition load_worker :: "boot_host \<Rightarrow> (config_error list, worker_boot) result" where
  "load_worker H =
     (let (db, e1) = require_var H ''OCNG_DB_URL'';
          (endpoint, e2) = require_var H ''OCNG_CAS_ENDPOINT'';
          (key, e3) = require_var H ''OCNG_CAS_KEY'';
          (secret, e4) = require_var H ''OCNG_CAS_SECRET'';
          (bucket, e5) = require_var H ''OCNG_CAS_BUCKET'';
          (tools, e6) = require_var H ''OCNG_TOOLS_DIR'';
          ((i, one_shot), e7) = int64_var H ''OCNG_TASK_ID'';
          (cpu, e8) = int_var H ''OCNG_CAPACITY_CPU_MILLIS'' 0;
          (mem, e9) = int_var H ''OCNG_CAPACITY_MEMORY_MB'' 0;
          (gpus, e10) = int_var H ''OCNG_CAPACITY_GPU'' 0;
          (dcpu, e11) = int_var H ''OCNG_DEFAULT_CPU_MILLIS'' 1000;
          (dmem, e12) = int_var H ''OCNG_DEFAULT_MEMORY_MB'' 0;
          (slots, e13) = int_var H ''OCNG_SLOTS'' 1
      in set_err (e1 @ e2 @ e3 @ e4 @ e5 @ e6 @ e7 @ e8 @ e9 @ e10 @ e11 @ e12 @ e13)
           \<lparr>wb_db = db, wb_cas = (endpoint, key, secret, bucket), wb_tools = tools, wb_scratch = string_var H ''OCNG_SCRATCH'' [],
            wb_task = (if one_shot then Some i else None),
            wb_fanout = \<lparr>fo_capacity = \<lparr>cpu_millis = cpu, memory_mb = mem, gpu = gpus, runtime_s = 0\<rparr>,
              fo_default = \<lparr>cpu_millis = dcpu, memory_mb = dmem, gpu = 0, runtime_s = 0\<rparr>,
              fo_max_slots = slots, fo_poll = 0, fo_implemented = worker_implemented\<rparr>,
            wb_scopes = (string_var H ''OCNG_SYSTEMD_SCOPES'' [] = ''1'')\<rparr>)"

datatype worker_mode = OneShot int | Resident fanout

definition mode_of :: "worker_boot \<Rightarrow> worker_mode" where
  "mode_of w = (case wb_task w of Some i \<Rightarrow> OneShot i | None \<Rightarrow> Resident (wb_fanout w))"

section \<open>The import\<close>

text \<open>\<open>main\<close>: connecting and the schema have succeeded; the status tells a run with holds from a complete one.\<close>

definition migrate_main ::
  "migrate_env \<Rightarrow> boot_host \<Rightarrow> (string \<Rightarrow> string \<Rightarrow> source) \<Rightarrow> string \<Rightarrow> string \<Rightarrow> target \<Rightarrow> nat \<times> target" where
  "migrate_main M H open_source dir org t =
     (if dir = [] \<or> org = [] then (1, t)
      else if list_ex (\<lambda>n. get_env H n = []) [''OCNG_DB_URL'', ''OCNG_CAS_ENDPOINT'', ''OCNG_CAS_KEY'', ''OCNG_CAS_SECRET'',
                ''OCNG_CAS_BUCKET''] then (1, t)
      else case run_import M (open_source dir org) org t of
        (Some e, t') \<Rightarrow> (1, t')
      | (None, t') \<Rightarrow> (if rr_holds (tg_runs t' ! length (tg_runs t)) > 0 then 3 else 0, t'))"

end
