(* ===== verification/ConfigClaims.thy ===== *)
theory ConfigClaims
  imports Config AdminClaims Searchapi MigrateClaims AuthnClaims
begin

text \<open>
  What configuration promises: one pass names every problem and an accepted configuration means what it
  says; a core without an identity path admits nobody and changes nothing; the table of execution
  classes and the two programs agree on where an operation runs; the import's exit status is its outcome.
\<close>

section \<open>One validation pass\<close>

definition core_required :: "string list" where
  "core_required = [''OCNG_DB_URL'', ''OCNG_CAS_ENDPOINT'', ''OCNG_CAS_KEY'', ''OCNG_CAS_SECRET'', ''OCNG_CAS_BUCKET'']"

definition gc_vars :: "string list" where
  "gc_vars = [''OCNG_GC_GRACE'', ''OCNG_GC_INTERVAL'']"

definition platforms_given :: "boot_host \<Rightarrow> (platforms_error, platform list) result" where
  "platforms_given H = load_platforms H (get_env H ''OCNG_LTI_PLATFORMS_FILE'')"

definition duration_of :: "boot_host \<Rightarrow> string \<Rightarrow> int" where
  "duration_of H n = (case bh_duration H (get_env H n) of None \<Rightarrow> 0 | Some d \<Rightarrow> d)"

text \<open>What is wrong with the core's environment, with no order of reading.\<close>

definition core_problems :: "boot_host \<Rightarrow> config_error set" where
  "core_problems H =
     {NotSet n |n. n \<in> set core_required \<and> get_env H n = []} \<union>
     {NotSet n |n. n = ''OCNG_OIDC_CLIENT_ID'' \<and> get_env H ''OCNG_OIDC_ISSUER'' \<noteq> [] \<and> get_env H n = []} \<union>
     {x. x = DefinitionsFileRetired \<and> get_env H ''OCNG_DEFINITIONS_FILE'' \<noteq> []} \<union>
     {BadPlatforms e |e. platforms_given H = Inl e} \<union>
     {NotSet n |n ps. n = ''OCNG_LTI_SESSION_SECRET'' \<and> platforms_given H = Inr ps \<and> ps \<noteq> [] \<and> get_env H n = []} \<union>
     {SecretTooShort (length x) |x ps. x = get_env H ''OCNG_LTI_SESSION_SECRET'' \<and> platforms_given H = Inr ps \<and> ps \<noteq> [] \<and>
        x \<noteq> [] \<and> length x < 32} \<union>
     {NotDuration n (get_env H n) |n. n \<in> set gc_vars \<and> get_env H n \<noteq> [] \<and> bh_duration H (get_env H n) = None} \<union>
     {NotPositive n (duration_of H n) |n. n \<in> set gc_vars \<and> get_env H n \<noteq> [] \<and> duration_of H n \<le> 0}"

definition worker_required :: "string list" where
  "worker_required = core_required @ [''OCNG_TOOLS_DIR'']"

definition worker_ints :: "string list" where
  "worker_ints = [''OCNG_TASK_ID'', ''OCNG_CAPACITY_CPU_MILLIS'', ''OCNG_CAPACITY_MEMORY_MB'', ''OCNG_CAPACITY_GPU'',
     ''OCNG_DEFAULT_CPU_MILLIS'', ''OCNG_DEFAULT_MEMORY_MB'', ''OCNG_SLOTS'']"

definition worker_problems :: "boot_host \<Rightarrow> config_error set" where
  "worker_problems H =
     {NotSet n |n. n \<in> set worker_required \<and> get_env H n = []} \<union>
     {NotInteger n (get_env H n) |n. n \<in> set worker_ints \<and> get_env H n \<noteq> [] \<and> parse_int64 (get_env H n) = None}"

text \<open>The integer a variable stands for: what is written, or the default when it is unset.\<close>

definition means :: "boot_host \<Rightarrow> string \<Rightarrow> int \<Rightarrow> int \<Rightarrow> bool" where
  "means H n dflt i = (if get_env H n = [] then i = dflt else parse_int64 (get_env H n) = Some i)"

lemma require_var_eq: "require_var H n = (get_env H n, if get_env H n = [] then [NotSet n] else [])"
  by (simp add: require_var_def Let_def)

lemma raw_var_eq: "raw_var H n = (get_env H n, get_env H n \<noteq> [])"
  by (simp add: raw_var_def Let_def)

lemma int_var_eq:
  "int_var H n d = (if get_env H n = [] then d else case parse_int64 (get_env H n) of None \<Rightarrow> d | Some i \<Rightarrow> i,
     if get_env H n \<noteq> [] \<and> parse_int64 (get_env H n) = None then [NotInteger n (get_env H n)] else [])"
  by (simp add: int_var_def Let_def split: option.split)

lemma int64_var_eq:
  "int64_var H n = ((if get_env H n = [] then 0 else case parse_int64 (get_env H n) of None \<Rightarrow> 0 | Some i \<Rightarrow> i, get_env H n \<noteq> []),
     if get_env H n \<noteq> [] \<and> parse_int64 (get_env H n) = None then [NotInteger n (get_env H n)] else [])"
  by (simp add: int64_var_def Let_def split: option.split)

lemma duration_var_eq:
  "duration_var H n = ((if get_env H n = [] then 0 else duration_of H n, get_env H n \<noteq> []),
     if get_env H n \<noteq> [] \<and> bh_duration H (get_env H n) = None then [NotDuration n (get_env H n)] else [])"
  by (simp add: duration_var_def duration_of_def Let_def split: option.split)

lemma positive_eq:
  "positive n (if get_env H n = [] then 0 else duration_of H n, get_env H n \<noteq> []) =
     (if get_env H n \<noteq> [] \<and> duration_of H n \<le> 0 then [NotPositive n (duration_of H n)] else [])"
  by (simp add: positive_def)

definition secret_of :: "boot_host \<Rightarrow> string" where
  "secret_of H = get_env H ''OCNG_LTI_SESSION_SECRET''"

definition platform_problems :: "boot_host \<Rightarrow> config_error list" where
  "platform_problems H =
     (case platforms_given H of
        Inl e \<Rightarrow> [BadPlatforms e]
      | Inr ps \<Rightarrow>
          (if ps = [] then []
           else (if secret_of H = [] then [NotSet ''OCNG_LTI_SESSION_SECRET'']
                 else if length (secret_of H) < 32 then [SecretTooShort (length (secret_of H))] else [])))"

lemma read_platforms_eq:
  "read_platforms H = ((case platforms_given H of Inl e \<Rightarrow> ([], []) | Inr ps \<Rightarrow> (ps, if ps = [] then [] else secret_of H)),
     platform_problems H)"
  by (auto simp: read_platforms_def raw_var_eq require_var_eq platforms_given_def platform_problems_def secret_of_def
      load_platforms_def split: sum.split list.split)

definition core_errors :: "boot_host \<Rightarrow> config_error list" where
  "core_errors H =
     concat (map (\<lambda>n. if get_env H n = [] then [NotSet n] else []) core_required) @
     (if get_env H ''OCNG_DEFINITIONS_FILE'' \<noteq> [] then [DefinitionsFileRetired] else []) @
     (if get_env H ''OCNG_OIDC_ISSUER'' \<noteq> [] \<and> get_env H ''OCNG_OIDC_CLIENT_ID'' = [] then [NotSet ''OCNG_OIDC_CLIENT_ID''] else []) @
     platform_problems H @
     concat (map (\<lambda>n. if get_env H n \<noteq> [] \<and> bh_duration H (get_env H n) = None then [NotDuration n (get_env H n)] else []) gc_vars) @
     concat (map (\<lambda>n. if get_env H n \<noteq> [] \<and> duration_of H n \<le> 0 then [NotPositive n (duration_of H n)] else []) gc_vars)"

lemma set_core_errors: "set (core_errors H) = core_problems H"
  by (auto simp: core_errors_def core_problems_def platform_problems_def secret_of_def split: sum.splits if_splits)

text \<open>The same as one record, whose problems are listed apart.\<close>

definition platform_values :: "boot_host \<Rightarrow> platform list \<times> string" where
  "platform_values H = (case platforms_given H of Inl e \<Rightarrow> ([], []) | Inr ps \<Rightarrow> (ps, if ps = [] then [] else secret_of H))"

definition core_value :: "boot_host \<Rightarrow> core_config" where
  "core_value H = \<lparr>cc_db = get_env H ''OCNG_DB_URL'', cc_cas = (get_env H ''OCNG_CAS_ENDPOINT'', get_env H ''OCNG_CAS_KEY'',
       get_env H ''OCNG_CAS_SECRET'', get_env H ''OCNG_CAS_BUCKET''),
     cc_listen = string_var H ''OCNG_LISTEN'' '':8085'', cc_serve_db = get_env H ''OCNG_SERVE_DB_URL'',
     cc_serve_password = string_var H ''OCNG_SERVE_DB_PASSWORD'' serve_dev_password,
     cc_serve_default = (string_var H ''OCNG_SERVE_DB_PASSWORD'' serve_dev_password = serve_dev_password),
     cc_definitions = get_env H ''OCNG_DEFINITIONS_DIR'', cc_dev_auth = (string_var H ''OCNG_DEV_AUTH'' [] = ''1''),
     cc_ingest = (string_var H ''OCNG_INGEST_USER'' ''admin'', string_var H ''OCNG_INGEST_PASS'' ''opencast''),
     cc_oidc_issuer = get_env H ''OCNG_OIDC_ISSUER'',
     cc_oidc_client = (if get_env H ''OCNG_OIDC_ISSUER'' = [] then [] else get_env H ''OCNG_OIDC_CLIENT_ID''),
     cc_oidc_roles = string_var H ''OCNG_OIDC_ROLES_CLAIM'' ''roles'',
     cc_platforms = fst (platform_values H), cc_secret = snd (platform_values H),
     cc_grace = (if get_env H ''OCNG_GC_GRACE'' = [] then 0 else duration_of H ''OCNG_GC_GRACE''),
     cc_interval = (if get_env H ''OCNG_GC_INTERVAL'' = [] then 0 else duration_of H ''OCNG_GC_INTERVAL''),
     cc_gc = (get_env H ''OCNG_GC_GRACE'' \<noteq> [] \<and> get_env H ''OCNG_GC_INTERVAL'' \<noteq> [])\<rparr>"

lemma read_platforms_values: "read_platforms H = (platform_values H, platform_problems H)"
  by (simp add: read_platforms_eq platform_values_def)

lemma client_read:
  "(if get_env H ''OCNG_OIDC_ISSUER'' \<noteq> [] then (get_env H n, if get_env H n = [] then [NotSet n] else []) else ([], [])) =
     (if get_env H ''OCNG_OIDC_ISSUER'' = [] then [] else get_env H n,
      if get_env H ''OCNG_OIDC_ISSUER'' \<noteq> [] \<and> get_env H n = [] then [NotSet n] else [])"
  by simp

lemma load_config_eq: "load_config H = set_err (core_errors H) (core_value H)"
proof -
  obtain ps x where v: "platform_values H = (ps, x)" by (rule prod.exhaust)
  show ?thesis
    unfolding load_config_def require_var_eq raw_var_eq duration_var_eq Let_def prod.case fst_conv snd_conv
      read_platforms_values positive_eq client_read v
    by (simp only: core_errors_def core_required_def gc_vars_def list.map concat.simps append_assoc append_Nil append_Nil2
        core_value_def v fst_conv snd_conv)
qed

lemma find_None_all: "find P xs = None \<Longrightarrow> list_all (\<lambda>x. \<not> P x) xs"
  by (induction xs) (auto split: if_splits)

lemma platforms_complete: "platforms_given H = Inr ps \<Longrightarrow> list_all (\<lambda>p. \<not> incomplete p) ps"
  by (auto simp: platforms_given_def load_platforms_def dest: find_None_all split: if_splits option.splits)

lemma accepted_durations:
  assumes "core_errors H = []" and "n \<in> set gc_vars" and "get_env H n \<noteq> []"
  shows "bh_duration H (get_env H n) = Some (duration_of H n)" and "0 < duration_of H n"
proof -
  have no: "NotDuration n (get_env H n) \<notin> core_problems H" "NotPositive n (duration_of H n) \<notin> core_problems H"
    using assms(1) set_core_errors [of H] by simp_all
  show "bh_duration H (get_env H n) = Some (duration_of H n)"
    using no(1) assms(2,3) by (cases "bh_duration H (get_env H n)") (auto simp: core_problems_def duration_of_def)
  show "0 < duration_of H n" using no(2) assms(2,3) by (force simp: core_problems_def)
qed

definition worker_errors :: "boot_host \<Rightarrow> config_error list" where
  "worker_errors H =
     concat (map (\<lambda>n. if get_env H n = [] then [NotSet n] else []) worker_required) @
     concat (map (\<lambda>n. if get_env H n \<noteq> [] \<and> parse_int64 (get_env H n) = None then [NotInteger n (get_env H n)] else []) worker_ints)"

lemma set_worker_errors: "set (worker_errors H) = worker_problems H"
  by (auto simp: worker_errors_def worker_problems_def split: if_splits)

definition read_int :: "boot_host \<Rightarrow> string \<Rightarrow> int \<Rightarrow> int" where
  "read_int H n d = (if get_env H n = [] then d else case parse_int64 (get_env H n) of None \<Rightarrow> d | Some i \<Rightarrow> i)"

definition worker_value :: "boot_host \<Rightarrow> worker_boot" where
  "worker_value H = \<lparr>wb_db = get_env H ''OCNG_DB_URL'', wb_cas = (get_env H ''OCNG_CAS_ENDPOINT'', get_env H ''OCNG_CAS_KEY'',
       get_env H ''OCNG_CAS_SECRET'', get_env H ''OCNG_CAS_BUCKET''), wb_tools = get_env H ''OCNG_TOOLS_DIR'',
     wb_scratch = string_var H ''OCNG_SCRATCH'' [],
     wb_task = (if get_env H ''OCNG_TASK_ID'' \<noteq> [] then Some (read_int H ''OCNG_TASK_ID'' 0) else None),
     wb_fanout = \<lparr>fo_capacity = \<lparr>cpu_millis = read_int H ''OCNG_CAPACITY_CPU_MILLIS'' 0,
         memory_mb = read_int H ''OCNG_CAPACITY_MEMORY_MB'' 0, gpu = read_int H ''OCNG_CAPACITY_GPU'' 0, runtime_s = 0\<rparr>,
       fo_default = \<lparr>cpu_millis = read_int H ''OCNG_DEFAULT_CPU_MILLIS'' 1000,
         memory_mb = read_int H ''OCNG_DEFAULT_MEMORY_MB'' 0, gpu = 0, runtime_s = 0\<rparr>,
       fo_max_slots = read_int H ''OCNG_SLOTS'' 1, fo_poll = 0, fo_implemented = worker_implemented\<rparr>,
     wb_scopes = (string_var H ''OCNG_SYSTEMD_SCOPES'' [] = ''1'')\<rparr>"

lemma load_worker_eq: "load_worker H = set_err (worker_errors H) (worker_value H)"
  unfolding load_worker_def require_var_eq int_var_eq int64_var_eq read_int_def [symmetric] Let_def prod.case
  by (simp only: worker_errors_def worker_required_def core_required_def worker_ints_def list.map concat.simps append_assoc
      append_Cons append_Nil append_Nil2 worker_value_def)

lemma accepted_int:
  assumes "worker_errors H = []" and "n \<in> set worker_ints"
  shows "means H n d (read_int H n d)"
proof -
  have "NotInteger n (get_env H n) \<notin> worker_problems H" using assms(1) set_worker_errors [of H] by simp
  then show ?thesis using assms(2) by (auto simp: means_def read_int_def worker_problems_def split: option.splits)
qed

text \<open>What an accepted environment means, variable by variable, with no order of reading: texts and integers are what is
  written or their documented default; the platforms are the content of the file named.\<close>

definition text_means :: "boot_host \<Rightarrow> string \<Rightarrow> string \<Rightarrow> string \<Rightarrow> bool" where
  "text_means H n dflt v = (if get_env H n = [] then v = dflt else v = get_env H n)"

definition given :: "boot_host \<Rightarrow> string \<Rightarrow> string \<Rightarrow> bool" where
  "given H n v = (v = get_env H n \<and> v \<noteq> [])"

definition store_means :: "boot_host \<Rightarrow> string \<times> string \<times> string \<times> string \<Rightarrow> bool" where
  "store_means H cas = (case cas of (endpoint, key, secret, bucket) \<Rightarrow>
     given H ''OCNG_CAS_ENDPOINT'' endpoint \<and> given H ''OCNG_CAS_KEY'' key \<and> given H ''OCNG_CAS_SECRET'' secret \<and>
     given H ''OCNG_CAS_BUCKET'' bucket)"

definition login_means :: "boot_host \<Rightarrow> core_config \<Rightarrow> bool" where
  "login_means H c = (cc_oidc_issuer c = get_env H ''OCNG_OIDC_ISSUER'' \<and>
     (if cc_oidc_issuer c = [] then cc_oidc_client c = [] else given H ''OCNG_OIDC_CLIENT_ID'' (cc_oidc_client c)) \<and>
     text_means H ''OCNG_OIDC_ROLES_CLAIM'' ''roles'' (cc_oidc_roles c))"

definition platforms_mean :: "boot_host \<Rightarrow> platform list \<Rightarrow> string \<Rightarrow> bool" where
  "platforms_mean H ps secret =
     (if get_env H ''OCNG_LTI_PLATFORMS_FILE'' = [] then ps = [] \<and> secret = []
      else (\<exists>raw. bh_file H (get_env H ''OCNG_LTI_PLATFORMS_FILE'') = Some raw \<and> bh_platforms H raw = Some ps) \<and>
        list_all (\<lambda>p. \<not> incomplete p) ps \<and>
        (if ps = [] then secret = [] else secret = get_env H ''OCNG_LTI_SESSION_SECRET'' \<and> 32 \<le> length secret))"

definition sweeps_mean :: "boot_host \<Rightarrow> (int \<times> int) option \<Rightarrow> bool" where
  "sweeps_mean H sweeps = (case sweeps of
     None \<Rightarrow> get_env H ''OCNG_GC_GRACE'' = [] \<or> get_env H ''OCNG_GC_INTERVAL'' = []
   | Some (grace, interval) \<Rightarrow> bh_duration H (get_env H ''OCNG_GC_GRACE'') = Some grace \<and> 0 < grace \<and>
       bh_duration H (get_env H ''OCNG_GC_INTERVAL'') = Some interval \<and> 0 < interval \<and>
       get_env H ''OCNG_GC_GRACE'' \<noteq> [] \<and> get_env H ''OCNG_GC_INTERVAL'' \<noteq> [])"

definition core_means :: "boot_host \<Rightarrow> core_config \<Rightarrow> bool" where
  "core_means H c = (given H ''OCNG_DB_URL'' (cc_db c) \<and> store_means H (cc_cas c) \<and>
     text_means H ''OCNG_LISTEN'' '':8085'' (cc_listen c) \<and>
     cc_serve_db c = get_env H ''OCNG_SERVE_DB_URL'' \<and>
     text_means H ''OCNG_SERVE_DB_PASSWORD'' ''ocng_serve'' (cc_serve_password c) \<and>
     cc_serve_default c = (get_env H ''OCNG_SERVE_DB_PASSWORD'' \<in> {[], ''ocng_serve''}) \<and>
     cc_definitions c = get_env H ''OCNG_DEFINITIONS_DIR'' \<and> get_env H ''OCNG_DEFINITIONS_FILE'' = [] \<and>
     cc_dev_auth c = (get_env H ''OCNG_DEV_AUTH'' = ''1'') \<and>
     text_means H ''OCNG_INGEST_USER'' ''admin'' (fst (cc_ingest c)) \<and>
     text_means H ''OCNG_INGEST_PASS'' ''opencast'' (snd (cc_ingest c)) \<and>
     login_means H c \<and> platforms_mean H (cc_platforms c) (cc_secret c) \<and> sweeps_mean H (core_sweeps c))"

definition resources_mean :: "boot_host \<Rightarrow> fanout \<Rightarrow> bool" where
  "resources_mean H f = (
     means H ''OCNG_CAPACITY_CPU_MILLIS'' 0 (cpu_millis (fo_capacity f)) \<and>
     means H ''OCNG_CAPACITY_MEMORY_MB'' 0 (memory_mb (fo_capacity f)) \<and>
     means H ''OCNG_CAPACITY_GPU'' 0 (gpu (fo_capacity f)) \<and>
     means H ''OCNG_DEFAULT_CPU_MILLIS'' 1000 (cpu_millis (fo_default f)) \<and>
     means H ''OCNG_DEFAULT_MEMORY_MB'' 0 (memory_mb (fo_default f)) \<and> gpu (fo_default f) = 0 \<and>
     means H ''OCNG_SLOTS'' 1 (fo_max_slots f) \<and> fo_implemented f = [''speechtotext'', ''encode'', ''inspect''])"

definition worker_means :: "boot_host \<Rightarrow> worker_boot \<Rightarrow> bool" where
  "worker_means H w = (given H ''OCNG_DB_URL'' (wb_db w) \<and> store_means H (wb_cas w) \<and>
     given H ''OCNG_TOOLS_DIR'' (wb_tools w) \<and> wb_scratch w = get_env H ''OCNG_SCRATCH'' \<and>
     wb_scopes w = (get_env H ''OCNG_SYSTEMD_SCOPES'' = ''1'') \<and> resources_mean H (wb_fanout w) \<and>
     (case mode_of w of
        OneShot i \<Rightarrow> get_env H ''OCNG_TASK_ID'' \<noteq> [] \<and> parse_int64 (get_env H ''OCNG_TASK_ID'') = Some i
      | Resident f \<Rightarrow> get_env H ''OCNG_TASK_ID'' = [] \<and> f = wb_fanout w))"

lemma text_means_var: "text_means H n d (string_var H n d)"
  by (simp add: text_means_def string_var_def Let_def)

lemma required_given:
  assumes "core_errors H = []" and "n \<in> set core_required"
  shows "given H n (get_env H n)"
proof -
  have "NotSet n \<notin> core_problems H" using assms(1) set_core_errors [of H] by simp
  then show ?thesis using assms(2) by (auto simp: core_problems_def given_def)
qed

lemma worker_given:
  assumes "worker_errors H = []" and "n \<in> set worker_required"
  shows "given H n (get_env H n)"
proof -
  have "NotSet n \<notin> worker_problems H" using assms(1) set_worker_errors [of H] by simp
  then show ?thesis using assms(2) by (auto simp: worker_problems_def given_def)
qed

lemma accepted_login:
  assumes "core_errors H = []"
  shows "login_means H (core_value H)"
proof -
  have "get_env H ''OCNG_OIDC_ISSUER'' = [] \<or> get_env H ''OCNG_OIDC_CLIENT_ID'' \<noteq> []"
    using assms by (auto simp: core_errors_def split: if_splits)
  then show ?thesis using text_means_var by (auto simp: login_means_def core_value_def given_def)
qed

lemma accepted_platforms:
  assumes "core_errors H = []"
  shows "platforms_mean H (cc_platforms (core_value H)) (cc_secret (core_value H))"
proof -
  have none: "platform_problems H = []" using assms by (simp add: core_errors_def)
  then obtain ps where ps: "platforms_given H = Inr ps" by (auto simp: platform_problems_def split: sum.splits)
  have content: "get_env H ''OCNG_LTI_PLATFORMS_FILE'' \<noteq> [] \<Longrightarrow>
      \<exists>raw. bh_file H (get_env H ''OCNG_LTI_PLATFORMS_FILE'') = Some raw \<and> bh_platforms H raw = Some ps"
    using ps by (auto simp: platforms_given_def load_platforms_def split: option.splits)
  have unset: "get_env H ''OCNG_LTI_PLATFORMS_FILE'' = [] \<Longrightarrow> ps = []"
    using ps by (simp add: platforms_given_def load_platforms_def)
  have secret: "ps \<noteq> [] \<Longrightarrow> 32 \<le> length (secret_of H)"
    using none ps by (simp add: platform_problems_def split: if_splits)
  show ?thesis
    using content unset secret platforms_complete [OF ps]
    by (simp add: platforms_mean_def core_value_def platform_values_def ps secret_of_def)
qed

lemma accepted_sweeps:
  assumes "core_errors H = []"
  shows "sweeps_mean H (core_sweeps (core_value H))"
proof -
  have mem: "''OCNG_GC_GRACE'' \<in> set gc_vars" "''OCNG_GC_INTERVAL'' \<in> set gc_vars" by (simp_all add: gc_vars_def)
  show ?thesis
    using accepted_durations [OF assms mem(1)] accepted_durations [OF assms mem(2)]
    by (simp add: sweeps_mean_def core_sweeps_def core_value_def)
qed

lemma accepted_core:
  assumes "core_errors H = []"
  shows "core_means H (core_value H)"
proof -
  have req: "list_all (\<lambda>n. given H n (get_env H n)) core_required" using required_given [OF assms] by (simp add: list_all_iff)
  have retired: "get_env H ''OCNG_DEFINITIONS_FILE'' = []" using assms by (simp add: core_errors_def split: if_splits)
  have password: "(string_var H ''OCNG_SERVE_DB_PASSWORD'' ''ocng_serve'' = ''ocng_serve'') =
      (get_env H ''OCNG_SERVE_DB_PASSWORD'' \<in> {[], ''ocng_serve''})"
    by (auto simp: string_var_def Let_def)
  have seam: "(string_var H ''OCNG_DEV_AUTH'' [] = ''1'') = (get_env H ''OCNG_DEV_AUTH'' = ''1'')"
    by (simp add: string_var_def Let_def)
  show ?thesis
    unfolding core_means_def
    by (intro conjI accepted_login accepted_platforms accepted_sweeps assms)
      (use req retired password seam text_means_var in
        \<open>simp_all add: core_value_def store_means_def core_required_def serve_dev_password_def del: insert_iff\<close>)
qed

lemma dev_auth_value: "cc_dev_auth (core_value H) = (get_env H ''OCNG_DEV_AUTH'' = ''1'')"
  by (simp add: core_value_def string_var_def Let_def)

lemma accepted_resources:
  assumes "worker_errors H = []"
  shows "resources_mean H (wb_fanout (worker_value H))"
  unfolding resources_mean_def
  by (intro conjI) (simp_all add: worker_value_def worker_ints_def worker_implemented_def accepted_int [OF assms])

lemma accepted_worker:
  assumes "worker_errors H = []"
  shows "worker_means H (worker_value H)"
proof -
  have req: "list_all (\<lambda>n. given H n (get_env H n)) worker_required" using worker_given [OF assms] by (simp add: list_all_iff)
  have seam: "(string_var H ''OCNG_SYSTEMD_SCOPES'' [] = ''1'') = (get_env H ''OCNG_SYSTEMD_SCOPES'' = ''1'')"
    by (simp add: string_var_def Let_def)
  have scratch: "string_var H ''OCNG_SCRATCH'' [] = get_env H ''OCNG_SCRATCH''" by (simp add: string_var_def Let_def)
  have "means H ''OCNG_TASK_ID'' 0 (read_int H ''OCNG_TASK_ID'' 0)" by (rule accepted_int [OF assms]) (simp add: worker_ints_def)
  then have mode: "case mode_of (worker_value H) of
      OneShot i \<Rightarrow> get_env H ''OCNG_TASK_ID'' \<noteq> [] \<and> parse_int64 (get_env H ''OCNG_TASK_ID'') = Some i
    | Resident f \<Rightarrow> get_env H ''OCNG_TASK_ID'' = [] \<and> f = wb_fanout (worker_value H)"
    by (simp add: mode_of_def worker_value_def means_def split: if_splits)
  show ?thesis
    unfolding worker_means_def
    by (intro conjI accepted_resources assms mode)
      (use req seam scratch in \<open>simp_all add: worker_value_def store_means_def worker_required_def core_required_def\<close>)
qed

text \<open>C39: configuration is validated in one pass. The core is refused exactly when its environment has a problem, and then
  with all of them at once. An accepted core means what is written, field by field: database and object store named, listen
  address, serve pool and password, definitions directory, deposit credentials and roles claim as written or their defaults;
  an issuer comes with its client; the platforms are those of the file, complete, with the secret as written and at
  least 32 bytes; sweeping is on exactly when grace and interval are both set, each positive and as written; the dev seam is
  open only for the value 1. The worker likewise: every one of its integers (capacity, default cost, slots, task) is what
  is written, and a default stands only for an unset variable.\<close>

theorem configuration_one_pass:
  "(case load_config H of
      Inl es \<Rightarrow> es \<noteq> [] \<and> set es = core_problems H
    | Inr c \<Rightarrow> core_problems H = {} \<and> core_means H c) \<and>
   (case load_worker H of
      Inl es \<Rightarrow> es \<noteq> [] \<and> set es = worker_problems H
    | Inr w \<Rightarrow> worker_problems H = {} \<and> worker_means H w)"
  using accepted_core [of H] set_core_errors [of H] accepted_worker [of H] set_worker_errors [of H]
  by (auto simp: load_config_eq load_worker_eq set_err_def)

definition demo_host :: "(string \<times> string) list \<Rightarrow> boot_host" where
  "demo_host extra = \<lparr>bh_env = map_of (extra @ map (\<lambda>n. (n, ''x'')) worker_required), bh_file = Map.empty,
     bh_platforms = (\<lambda>s. None), bh_duration = (\<lambda>s. if s = ''1h'' then Some 3600 else None)\<rparr>"

lemma demo_boots:
  "case load_config (demo_host [(''OCNG_GC_GRACE'', ''1h''), (''OCNG_GC_INTERVAL'', ''1h'')]) of
     Inr c \<Rightarrow> core_sweeps c = Some (3600, 3600) | Inl es \<Rightarrow> False"
  "case load_worker (demo_host [(''OCNG_CAPACITY_MEMORY_MB'', ''8G'')]) of Inl es \<Rightarrow> True | Inr w \<Rightarrow> False"
  by code_simp+

theorem configuration_one_pass_witness:
  "(\<exists>c. load_config (demo_host [(''OCNG_GC_GRACE'', ''1h''), (''OCNG_GC_INTERVAL'', ''1h'')]) = Inr c \<and>
      core_sweeps c = Some (3600, 3600) \<and> \<not> cc_dev_auth c) \<and>
   (\<exists>es. load_worker (demo_host [(''OCNG_CAPACITY_MEMORY_MB'', ''8G'')]) = Inl es \<and>
      NotInteger ''OCNG_CAPACITY_MEMORY_MB'' ''8G'' \<in> set es)"
proof
  let ?H = "demo_host [(''OCNG_GC_GRACE'', ''1h''), (''OCNG_GC_INTERVAL'', ''1h'')]"
  have "get_env ?H ''OCNG_DEV_AUTH'' \<noteq> ''1''"
    by (simp add: get_env_def go_get_def demo_host_def worker_required_def core_required_def)
  then show "\<exists>c. load_config ?H = Inr c \<and> core_sweeps c = Some (3600, 3600) \<and> \<not> cc_dev_auth c"
    using configuration_one_pass [of ?H] demo_boots(1) by (auto simp: core_means_def split: sum.splits)
next
  let ?H = "demo_host [(''OCNG_CAPACITY_MEMORY_MB'', ''8G'')]"
  have v: "get_env ?H ''OCNG_CAPACITY_MEMORY_MB'' = ''8G''"
    by (simp add: get_env_def go_get_def demo_host_def)
  have "parse_int64 ''8G'' = None" by code_simp
  then have "NotInteger ''OCNG_CAPACITY_MEMORY_MB'' ''8G'' \<in> worker_problems ?H"
    using v by (force simp: worker_problems_def worker_ints_def)
  then show "\<exists>es. load_worker ?H = Inl es \<and> NotInteger ''OCNG_CAPACITY_MEMORY_MB'' ''8G'' \<in> set es"
    using configuration_one_pass [of ?H] demo_boots(2) by (auto split: sum.splits)
qed

section \<open>A closed core\<close>

text \<open>Without the dev seam, roles header and service credentials say nothing.\<close>

definition without_seam :: "http_auth \<Rightarrow> http_auth" where
  "without_seam r = r\<lparr>ha_x_roles := [], ha_basic := None\<rparr>"

lemma seam_closed:
  assumes "\<not> ac_dev_seam cfg"
  shows "resolve P cfg e now r v = resolve P cfg e now (without_seam r) v"
    and "service P cfg e r v = service P cfg e (without_seam r) v"
  using assms by (simp_all add: resolve_def service_def dev_principal_def without_seam_def bearer_token_def split: option.split)

lemma gate_anonymous: "auth_gate anonymous_resolved forbidden handler = forbidden"
  by (simp add: auth_gate_def anonymous_resolved_def)

lemma serve_admin_anonymous:
  "case serve_admin X fresh now anonymous_resolved rq s of (reply, s') \<Rightarrow> s' = s \<and>
     (admin_route (ar_method rq) (ar_path rq) \<notin> {None, Some GetMe} \<longrightarrow> reply = Page (Refused 403)) \<and>
     (admin_route (ar_method rq) (ar_path rq) = Some GetMe \<longrightarrow> reply = Page (me_json (ax_env X) anonymous_resolved))"
  by (auto simp: serve_admin_def gate_anonymous split: option.split admin_call.split)

text \<open>The search service's open endpoints: the engage search and the event manifest.\<close>

fun open_call :: "search_call \<Rightarrow> bool" where
  "open_call GetEpisodes = True"
| "open_call GetEngageSeries = True"
| "open_call (GetApiEvent i) = True"
| "open_call _ = False"

lemma serve_search_anonymous:
  "case serve_search Y fresh now anonymous_resolved rq s of (a, s') \<Rightarrow> s' = s \<and>
     (search_route (ar_method rq) (ar_path rq) = Some call \<and> \<not> open_call call \<longrightarrow> a = SearchForbidden)"
proof (cases "search_route (ar_method rq) (ar_path rq)")
  case (Some c)
  then show ?thesis by (cases c) (auto simp: serve_search_def gate_anonymous Let_def)
qed (simp add: serve_search_def Let_def)

lemma longest_None: "longest xs = None \<longleftrightarrow> xs = []"
  by (cases xs) (auto split: option.splits)

lemma longest_Some: "longest xs = Some y \<Longrightarrow> y \<in> set xs \<and> (\<forall>x \<in> set xs. length (fst x) \<le> length (fst y))"
  by (induction xs arbitrary: y) (auto simp: longest_None split: option.splits if_splits)

lemma no_platforms_no_lti: "cc_platforms c = [] \<Longrightarrow> core_route c path \<noteq> Some LtiSurface"
  by (auto simp: core_route_def core_patterns_def dest!: longest_Some)

lemma unseamed:
  assumes "cc_oidc_issuer c = []" and "cc_platforms c = []" and "\<not> cc_dev_auth c"
  shows "resolve P (core_auth c) e now r v = (anonymous_resolved, v)" and "service P (core_auth c) e r v = (False, v)"
  using assms by (auto simp: resolve_def service_def core_auth_def dev_principal_def split: option.split)

text \<open>C40: a core nobody configured an identity for lets nobody in. When the value of the dev-auth variable is not 1, the
  accepted core never looks at the roles header or the service credentials of a request, and its boot report does not
  name the seam. When neither an issuer nor a platforms file is configured either, the report says that nobody can
  log in, and it is true: no path leads to the assertion surface and every request is anonymous whatever it carries.
  Then every deposit, every administrative endpoint but the caller's own page, and every gated endpoint of the search
  service (lists, filters, the access list write) answers 403, and no request to these services changes anything.
  What stays open is open by design and is not claimed closed: the own page, which describes the anonymous
  caller, the engage search, the event manifest and published elements, which answer as to the anonymous role.\<close>

theorem closed_core_admits_nobody:
  assumes "load_config H = Inr c" and "get_env H ''OCNG_DEV_AUTH'' \<noteq> ''1''"
  shows "resolve P (core_auth c) e now r v = resolve P (core_auth c) e now (without_seam r) v \<and>
    service P (core_auth c) e r v = service P (core_auth c) e (without_seam r) v \<and>
    DevAuthOpen \<notin> set (boot_report (postures_of c)) \<and>
    (get_env H ''OCNG_OIDC_ISSUER'' = [] \<and> get_env H ''OCNG_LTI_PLATFORMS_FILE'' = [] \<longrightarrow>
       NobodyCanLogIn \<in> set (boot_report (postures_of c)) \<and> core_route c path \<noteq> Some LtiSurface \<and>
       resolve P (core_auth c) e now r v = (anonymous_resolved, v) \<and>
       serve_ingest P (core_auth c) e E src u now (q\<lparr>hd_auth := r\<rparr>) v s = (Refusal 403, v, s) \<and>
       (case serve_admin X fresh now (fst (resolve P (core_auth c) e now r v)) rq s of (reply, s') \<Rightarrow> s' = s \<and>
          (admin_route (ar_method rq) (ar_path rq) \<notin> {None, Some GetMe} \<longrightarrow> reply = Page (Refused 403)) \<and>
          (admin_route (ar_method rq) (ar_path rq) = Some GetMe \<longrightarrow> reply = Page (me_json (ax_env X) anonymous_resolved))) \<and>
       (case serve_search Y fresh now (fst (resolve P (core_auth c) e now r v)) rq s of (a, s') \<Rightarrow> s' = s \<and>
          (search_route (ar_method rq) (ar_path rq) = Some call \<and> \<not> open_call call \<longrightarrow> a = SearchForbidden)))"
proof -
  have c: "c = core_value H" using assms(1) by (simp add: load_config_eq set_err_def split: if_splits)
  have dev: "\<not> cc_dev_auth c" using assms(2) dev_auth_value c by simp
  then have seam: "\<not> ac_dev_seam (core_auth c)" by (simp add: core_auth_def)
  have none: "cc_oidc_issuer c = [] \<and> cc_platforms c = []"
    if "get_env H ''OCNG_OIDC_ISSUER'' = [] \<and> get_env H ''OCNG_LTI_PLATFORMS_FILE'' = []"
    using that by (simp add: c core_value_def platform_values_def platforms_given_def load_platforms_def)
  have report: "DevAuthOpen \<notin> set (boot_report (postures_of c))" using dev by (simp add: boot_report_def postures_of_def)
  have identity: "NobodyCanLogIn \<in> set (boot_report (postures_of c)) \<and> core_route c path \<noteq> Some LtiSurface \<and>
      resolve P (core_auth c) e now r v = (anonymous_resolved, v) \<and>
      serve_ingest P (core_auth c) e E src u now (q\<lparr>hd_auth := r\<rparr>) v s = (Refusal 403, v, s)"
    if no: "cc_oidc_issuer c = [] \<and> cc_platforms c = []"
    using unseamed [of c] no_platforms_no_lti [of c path] dev no by (simp add: serve_ingest_def) (simp add: boot_report_def postures_of_def)
  show ?thesis
    by (intro conjI impI seam_closed [OF seam] report)
      (use none identity serve_admin_anonymous [where X = X and rq = rq and s = s] serve_search_anonymous [where Y = Y and rq = rq and s = s and call = call] in auto)
qed

definition demo_default :: core_config where
  "demo_default = core_value (demo_host [])"

lemma demo_default_boots: "load_config (demo_host []) = Inr demo_default"
proof -
  have "core_errors (demo_host []) = []" by code_simp
  then show ?thesis by (simp add: load_config_eq set_err_def demo_default_def)
qed

definition seam_request :: http_auth where
  "seam_request = \<lparr>ha_authorization = [], ha_cookie = None, ha_x_roles = ''ROLE_ADMIN'', ha_basic = Some (''admin'', ''opencast'')\<rparr>"

definition demo_search :: "int search_context" where
  "demo_search = \<lparr>sx_admin = demo_context, sx_manifest = \<lparr>mv_admin = demo_admin_env, mv_rows = (\<lambda>xs. xs), mv_tags = (\<lambda>xs. xs),
     mv_ext = (\<lambda>m. [])\<rparr>, sx_ilike = (\<lambda>p t. p = t)\<rparr>"

theorem closed_core_admits_nobody_witness:
  "fst (serve_search demo_search (\<lambda>n. ''s'') 9
      (fst (resolve demo_session_primitives (core_auth demo_default) demo_env_oidc 9 seam_request demo_validator))
      (demo_call ''GET'' [''api'', ''events''] []) demo_deposit_state) = SearchForbidden"
proof -
  let ?rq = "demo_call ''GET'' [''api'', ''events''] []"
  have env: "get_env (demo_host []) ''OCNG_DEV_AUTH'' \<noteq> ''1''" "get_env (demo_host []) ''OCNG_OIDC_ISSUER'' = []"
      "get_env (demo_host []) ''OCNG_LTI_PLATFORMS_FILE'' = []"
    by (simp_all add: get_env_def go_get_def demo_host_def worker_required_def core_required_def)
  have "case serve_search demo_search (\<lambda>n. ''s'') 9
      (fst (resolve demo_session_primitives (core_auth demo_default) demo_env_oidc 9 seam_request demo_validator)) ?rq demo_deposit_state of
    (a, s') \<Rightarrow> s' = demo_deposit_state \<and>
      (search_route (ar_method ?rq) (ar_path ?rq) = Some GetApiEvents \<and> \<not> open_call GetApiEvents \<longrightarrow> a = SearchForbidden)"
    by (rule closed_core_admits_nobody [OF demo_default_boots env(1), THEN conjunct2, THEN conjunct2, THEN conjunct2, THEN mp,
        OF conjI [OF env(2,3)], THEN conjunct2, THEN conjunct2, THEN conjunct2, THEN conjunct2, THEN conjunct2])
  then show ?thesis by (auto simp: search_route_def demo_call_def split: prod.splits)
qed

section \<open>Who runs what\<close>

text \<open>The two programs run operations of their own class only, and between them five of the table; an inline operation
  outside these fails at once, a worker operation is never claimed and fails by its lapsing lease.\<close>

lemma programs_respect_classes:
  "list_all (\<lambda>op. class_of op = ClassInline) core_inline" "list_all (\<lambda>op. class_of op = ClassWorker) worker_implemented"
  by (simp_all add: core_inline_def worker_implemented_def class_of_def op_class_def)

lemma worker_claims_only_its_class:
  assumes "load_worker H = Inr w" and "op \<in> set (fo_implemented (wb_fanout w))"
  shows "class_of op = ClassWorker"
proof -
  have "w = worker_value H" using assms(1) by (simp add: load_worker_eq set_err_def split: if_splits)
  then show ?thesis using assms(2) programs_respect_classes(2) by (auto simp: worker_value_def list_all_iff)
qed

section \<open>Routes\<close>

text \<open>The enumerations under the admin prefix belong to the search service, the rest of the prefix to the admin
  interface; without platforms there is no assertion surface.\<close>

lemma resources_to_search:
  assumes "has_prefix path ''/admin-ng/resources/''"
  shows "core_route c path = Some SearchSurface"
proof -
  obtain rest where path: "path = ''/admin-ng/resources/'' @ rest" using assms by (auto simp: has_prefix_iff)
  show ?thesis by (simp add: core_route_def core_patterns_def path)
qed

section \<open>The exit status of an import\<close>

text \<open>0 is a completed run without holds, 3 one with holds; every failure is 1.\<close>

lemma exit_status_is_outcome:
  assumes "migrate_main M H open_source dir org t = (n, t')" and "run_import M (open_source dir org) org t = (None, t1)"
    and "n \<noteq> 1"
  shows "n = (if rr_holds (tg_runs t' ! length (tg_runs t)) > 0 then 3 else 0) \<and> t' = t1"
  using assms by (auto simp: migrate_main_def split: if_splits)

end
