(* ===== verification/Spec2Isabelle.thy ===== *)
theory Spec2Isabelle
  imports EngineClaims Executor Serve Gc LtiClaims AuthnClaims SchemastepClaims DefinitionsClaims FanoutProps OpsClaims WorkerClaims IngestClaims MigrateData MigrateClaims SearchapiClaims AdminTypes AdminCreate ConfigClaims
begin

text \<open>
  A verification development for gophercast, a headless video-management core: one Go binary that
  stores media packages in Postgres, keeps their bytes content-addressed in an object store, runs
  processing workflows durably, and delivers what was published to those its access lists admit.

  \<^bold>\<open>How the parts interact.\<close> Everything shares one Postgres. An event enters through ingest or the
  administrative interface as rows (\<open>internal/mediapackage\<close>) and objects (\<open>internal/cas\<close>).
  A workflow (\<open>internal/engine\<close>) takes its operations from a definition
  (\<open>internal/definitions\<close>), and its tasks are executed by worker processes
  (\<open>internal/worker\<close>) or inside the core (\<open>internal/ops\<close>); a task's result and its data mutation
  commit together. Each write that changes what is listed refreshes the denormalised listing of
  \<open>internal/search\<close> in its own transaction, with the access lists of \<open>internal/acl\<close> pinned into role
  arrays. A request becomes a principal through \<open>internal/authn\<close> (a bearer token of
  \<open>internal/oidcauth\<close>, or a session minted by a launch of \<open>internal/lti\<close>, both over the tokens of
  \<open>internal/jose\<close>), queries the listing, and fetches bytes through \<open>internal/serve\<close>.
  The deposit interface is \<open>internal/ingest\<close>, the administrative pages and writes are
  \<open>internal/adminapi\<close>, the External API, the engage search and the player's event manifest are
  \<open>internal/searchapi\<close>; \<open>internal/migrate\<close> imports an existing installation. \<open>internal/config\<close> and the
  programs under \<open>cmd\<close> validate the environment and put the parts together.
  \<open>internal/gc\<close> reclaims the objects no row refers to; \<open>internal/schemastep\<close> evolves the schema and
  \<open>internal/serveset\<close> names the tables delivery reads.

  \<^bold>\<open>Conventions.\<close> A table is a list of rows or an association list from its primary key; one SQL
  statement is one definition (its \<open>where\<close>, its \<open>set\<close> list and the affected-row test after it), a
  transaction that fails is an \<open>Inl\<close> and leaves nothing, and a Go function that issues several
  statements is their sequence. Where processes interleave, each statement is one event of a machine
  and its properties hold over every run. Go's errors are \<open>Inl\<close>, its 32- and 64-bit integers are
  words or integers with the wrap-around written out where it can matter, strings are byte lists.
  What is outside the repository is an argument: the clock, random bytes, the JSON and YAML codecs,
  the cryptographic primitives (\<open>primitives\<close>), Postgres' text search and collation (\<open>query_env\<close>),
  the effect of DDL (\<open>postgres\<close>), the tools and files of a worker (\<open>worker_env\<close>), the date layouts of
  Go's \<open>time.Parse\<close> and of Dublin Core (\<open>text_env\<close>), digests and uuid syntax (\<open>deposit_env\<close>), the CSV
  codec and the files of an import source, the host's table of file extensions, \<open>time.ParseDuration\<close>
  (\<open>boot_host\<close>), and the order of rows where SQL leaves it or a collation decides. A handler that reads
  more than once reads one state of the catalog.

  \<^bold>\<open>Where to find what.\<close>
  \<^item> \<open>Prelude\<close>: results, tables, Go's \<open>strings\<close>/\<open>strconv\<close>, saturating times. \<open>Interfaces\<close>: the
    contracts \<open>single_winner\<close>, \<open>invariant_machine\<close>, \<open>guarded_machine\<close> and their relatives,
    interpreted on the engine, the flow stores, the collector, the projection, the loader and the
    fan-out. \<open>Rexp\<close>: the fragment of Go's \<open>regexp\<close> in use.
  \<^item> \<open>Engine\<close> (\<open>engine.go\<close>, \<open>schema.sql\<close>), \<open>EngineInv\<close>, \<open>EngineRun\<close> (the invariant of the tables and
    the machine of interleaved statements), \<open>EngineProps\<close>, \<open>EngineClaims\<close>: single-winner start,
    atomic completion, immutability of terminal rows, strict order, exactly-once mutations, recovery
    of silent tasks, refinement of the abstract life cycle. \<open>ExecClass\<close> (\<open>class.go\<close>), \<open>Executor\<close>
    (\<open>inline.go\<close>): one execution with its lease renewal.
  \<^item> \<open>Acl\<close> (\<open>acl.go\<close>), \<open>Catalog\<close> (\<open>metadata.go\<close>, \<open>write.go\<close>, \<open>search/project.go\<close>), \<open>CatalogProps\<close>:
    the decision, the stored model, and that the listing is the one a rebuild would derive after any
    run of writes. \<open>Query\<close> (\<open>query.go\<close>, \<open>display.go\<close>): what a listing contains. The rule of a
    surface (\<open>may_list\<close>) is the one the source states, published and read on the pin for the engage
    surface; what the code hides beyond it by pruning roles is a set of its own (\<open>pruned_away\<close>).
  \<^item> \<open>Serve\<close> (\<open>serve\<close>), \<open>Gc\<close> (\<open>cas\<close>, \<open>gc\<close>): bytes only to those a publication admits; nothing
    referenced is ever swept.
  \<^item> \<open>Jose\<close>, \<open>Lti\<close>, \<open>LtiProps\<close>, \<open>LtiClaims\<close>, \<open>Authn\<close>, \<open>AuthnClaims\<close> (\<open>jose\<close>, \<open>lti\<close>, \<open>oidcauth\<close>,
    \<open>authn\<close>): verified launches, single use of state and nonce, the bound on launch roles, sessions.
  \<^item> \<open>Classify\<close>, \<open>Schemastep\<close>, \<open>SchemastepProps\<close>, \<open>SchemastepClaims\<close> (\<open>schemastep\<close>, \<open>serveset\<close>): the
    plan check and the ledger runner with its polling for the advisory lock, its resumption after a crash
    at any commit, and exactly when it returns.
  \<^item> \<open>Definitions\<close>, \<open>DefinitionsProps\<close>, \<open>DefinitionsClaims\<close> (\<open>definitions\<close>): parsing, the directory
    loader and the cached registry, with several replicas writing one table.
  \<^item> \<open>Worker\<close>, \<open>WorkerClaims\<close>, \<open>Fanout\<close>, \<open>FanoutProps\<close> (\<open>worker\<close>): the one-shot body and the resident
    fan-out with its admission ledger. \<open>Ops\<close>, \<open>OpsProps\<close>, \<open>OpsClaims\<close> (\<open>ops\<close>): snapshot and publish.

  \<^item> \<open>Xml\<close> (the tokens of \<open>encoding/xml\<close> as far as they are used), \<open>Bearer\<close>, \<open>BearerProps\<close>, \<open>Ingest\<close>,
    \<open>IngestProps\<close>, \<open>IngestClaims\<close> (\<open>ingest\<close>, \<open>mediapackage.go\<close>): the bearer document and its round
    trip, the endpoints, the one materialise path, a whole deposit session.
  \<^item> \<open>Legacy\<close>, \<open>Migrate\<close>, \<open>MigrateProps\<close>, \<open>MigrateData\<close>, \<open>MigrateClaims\<close> (\<open>migrate\<close>): the readers of
    the archive's documents and access lists, and the run as state-passing steps; that it only adds, that
    what it writes is the data of a source row (the locale \<open>import_invariant\<close> with its three
    interpretations), and that it leaves nothing unreported but published records without an archived event.
  \<^item> \<open>Admin\<close> (\<open>adminapi.go\<close>), \<open>AdminWrite\<close> (\<open>write.go\<close> and the routing), \<open>AdminClaims\<close>, \<open>AdminTypes\<close>,
    \<open>AdminCreate\<close>: who may change what, the access page against the decision, exact edits, the types of
    the pages, the completeness of a created event. \<open>Searchapi\<close>, \<open>SearchapiClaims\<close>
    (\<open>searchapi.go\<close> with its routing and gate, \<open>eventmanifest.go\<close>): the manifest agrees with delivery,
    but for pruned pins.
  \<^item> \<open>Config\<close>, \<open>ConfigClaims\<close> (\<open>config\<close>, \<open>cmd\<close>): one validation pass, the boot report, the assembled core
    with its route table, the worker's mode, the exit status of an import.

  \<^bold>\<open>Bounds and fuel.\<close> The runner of migrations tries a guarded statement 20 times, as the code does;
  its polling for the advisory lock, its retries and its batched steps are \<open>partial_function (option)\<close>,
  with \<open>None\<close> for a run that does not return. \<open>SchemastepClaims\<close> says exactly when that is, shows that
  the retries stop after 20 attempts, and bounds batches by any measure they decrease. The fan-out reads at most 50 candidates per pass, the
  number of the query. Nothing else needs fuel: the remaining loops run over finite lists.

  \<^bold>\<open>Not modelled.\<close> Connections, listeners, tickers and signals; logging and metrics; spooling an upload
  to disk; the text of error messages, of report lines and of the boot report; DDL texts as such (their
  effect is a parameter of the runner). \<open>internal/coreinfo\<close> answers a constant document and
  \<open>internal/watchpage\<close> an embedded page; the adapters of \<open>internal/provision\<close> do nothing or refuse;
  \<open>jose/sign.go\<close> mints tokens for tests only. \<open>ServeMux\<close>' redirects of unclean paths and its 405
  answers are not distinguished from an unrouted request.
\<close>

end
